(* ===== verification/Mz_Prelude.thy ===== *)
theory Mz_Prelude
  imports Main "HOL-Library.Monad_Syntax" "HOL-Library.List_Lexorder" "HOL-Library.Char_ord"
    "HOL-Library.Word" "HOL-Library.Multiset"
begin

text \<open>
  Shared material of the development: the types the Go sources use everywhere (instants,
  durations, byte strings), the fragment of the Go standard library the modelled code calls
  (\<open>strings.Join\<close>, \<open>strings.Contains\<close>, \<open>slices.Contains\<close>, \<open>sort.Strings\<close>), the reading of a
  \<^verbatim>\<open>range\<close> over a Go map, and the generic lemmas on lists, maps and the option monad that the
  component theories rest on.

  Go maps are HOL maps. A \<^verbatim>\<open>range\<close> over a Go map visits every key once in an unspecified
  order: the order is an argument of the model (a list of keys), never a choice of the model,
  and the theorems hold for every order.

  Functions of the code that may dereference a nil pointer return \<^typ>\<open>'a option\<close>: \<^const>\<open>None\<close> is
  the run-time panic, so a theorem that an operation returns \<open>Some\<close> states that it does not panic.
\<close>

section \<open>Names of the model\<close>

type_synonym instant = int   \<comment> \<open>\<^verbatim>\<open>time.Time\<close> as nanoseconds\<close>
type_synonym duration = int  \<comment> \<open>\<^verbatim>\<open>time.Duration\<close> as nanoseconds\<close>

abbreviation Second :: duration where "Second \<equiv> 1000000000"
abbreviation Minute :: duration where "Minute \<equiv> 60000000000"

named_theorems step_intros \<open>preservation lemmas, one per operation\<close>
named_theorems op_defs \<open>definitions unfolded when an operation is evaluated\<close>

section \<open>Strings and slices\<close>

text \<open>\<^verbatim>\<open>strings.Join(xs, sep)\<close>\<close>
fun strings_Join :: "string list \<Rightarrow> string \<Rightarrow> string" where
  "strings_Join [] sep = []"
| "strings_Join [x] sep = x"
| "strings_Join (x # y # xs) sep = x @ sep @ strings_Join (y # xs) sep"

text \<open>The decimal rendering of \<^verbatim>\<open>%d\<close> and \<^verbatim>\<open>strconv.Itoa\<close>.\<close>
fun dec_nat :: "nat \<Rightarrow> string" where
  "dec_nat n = (if n < 10 then [char_of (48 + n)] else dec_nat (n div 10) @ [char_of (48 + n mod 10)])"

declare dec_nat.simps [simp del]

definition dec_int :: "int \<Rightarrow> string" where
  "dec_int i = (if i < 0 then CHR ''-'' # dec_nat (nat (- i)) else dec_nat (nat i))"

text \<open>\<^verbatim>\<open>strings.HasPrefix(s, p)\<close>\<close>
fun strings_HasPrefix :: "string \<Rightarrow> string \<Rightarrow> bool" where
  "strings_HasPrefix s [] = True"
| "strings_HasPrefix [] (c # cs) = False"
| "strings_HasPrefix (d # ds) (c # cs) = (d = c \<and> strings_HasPrefix ds cs)"

text \<open>\<^verbatim>\<open>strings.Contains(s, sub)\<close>\<close>
fun strings_Contains :: "string \<Rightarrow> string \<Rightarrow> bool" where
  "strings_Contains [] sub = (sub = [])"
| "strings_Contains (c # cs) sub = (strings_HasPrefix (c # cs) sub \<or> strings_Contains cs sub)"

lemma strings_HasPrefix_iff: "strings_HasPrefix s p \<longleftrightarrow> (\<exists>r. s = p @ r)"
  by (induction s p rule: strings_HasPrefix.induct) auto

lemma strings_Contains_iff: "strings_Contains s sub \<longleftrightarrow> (\<exists>a b. s = a @ sub @ b)"
proof (induction s)
  case Nil
  then show ?case by auto
next
  case (Cons c cs)
  show ?case
  proof
    assume "strings_Contains (c # cs) sub"
    then consider r where "c # cs = sub @ r" | a b where "cs = a @ sub @ b"
      using Cons.IH by (auto simp: strings_HasPrefix_iff)
    then show "\<exists>a b. c # cs = a @ sub @ b"
      by cases (metis append_Nil, metis append_Cons)
  next
    assume "\<exists>a b. c # cs = a @ sub @ b"
    then obtain a b where ab: "c # cs = a @ sub @ b" by blast
    show "strings_Contains (c # cs) sub"
    proof (cases a)
      case Nil
      then have "strings_HasPrefix (c # cs) sub" using ab by (auto simp: strings_HasPrefix_iff)
      then show ?thesis unfolding strings_Contains.simps by blast
    next
      case (Cons d a')
      then show ?thesis using ab Cons.IH by auto
    qed
  qed
qed

text \<open>ASCII character classes, \<^verbatim>\<open>strings.ToLower\<close> and \<^verbatim>\<open>strings.TrimSpace\<close> on ASCII.\<close>

definition is_digit :: "char \<Rightarrow> bool" where
  "is_digit c \<longleftrightarrow> (let n = of_char c :: nat in 48 \<le> n \<and> n \<le> 57)"

definition is_lower :: "char \<Rightarrow> bool" where
  "is_lower c \<longleftrightarrow> (let n = of_char c :: nat in 97 \<le> n \<and> n \<le> 122)"

definition is_upper :: "char \<Rightarrow> bool" where
  "is_upper c \<longleftrightarrow> (let n = of_char c :: nat in 65 \<le> n \<and> n \<le> 90)"

definition to_lower :: "char \<Rightarrow> char" where
  "to_lower c = (if is_upper c then char_of (of_char c + 32 :: nat) else c)"

definition is_space :: "char \<Rightarrow> bool" where
  "is_space c \<longleftrightarrow> (let n = of_char c :: nat in 9 \<le> n \<and> n \<le> 13 \<or> n = 32)"

definition trim_both :: "('a \<Rightarrow> bool) \<Rightarrow> 'a list \<Rightarrow> 'a list" where
  "trim_both p s = rev (dropWhile p (rev (dropWhile p s)))"

definition ToLower :: "string \<Rightarrow> string" where
  "ToLower s = map to_lower s"

definition TrimSpace :: "string \<Rightarrow> string" where
  "TrimSpace s = trim_both is_space s"

text \<open>\<^verbatim>\<open>append(q[:i], q[i+1:]...)\<close>\<close>
definition remove_at :: "nat \<Rightarrow> 'a list \<Rightarrow> 'a list" where
  "remove_at i xs = take i xs @ drop (Suc i) xs"

lemma length_remove_at [simp]: "i < length xs \<Longrightarrow> length (remove_at i xs) = length xs - 1"
  by (auto simp: remove_at_def)

lemma set_remove_at_subset: "set (remove_at i xs) \<subseteq> set xs"
  by (auto simp: remove_at_def dest: in_set_takeD in_set_dropD)

lemma split_at_nth: "i < length xs \<Longrightarrow> xs = take i xs @ xs ! i # drop (Suc i) xs"
  by (simp add: id_take_nth_drop)

lemma remove_at_distinct:
  assumes "i < length xs" "distinct xs"
  shows "distinct (remove_at i xs)" "set (remove_at i xs) = set xs - {xs ! i}"
proof -
  let ?a = "take i xs" and ?b = "drop (Suc i) xs"
  have eq: "xs = ?a @ xs ! i # ?b" using assms(1) by (rule split_at_nth)
  have d: "distinct (?a @ xs ! i # ?b)" using assms(2) eq by simp
  then show "distinct (remove_at i xs)" by (auto simp: remove_at_def)
  have "set xs = set (?a @ xs ! i # ?b)" using eq by simp
  then show "set (remove_at i xs) = set xs - {xs ! i}"
    using d by (auto simp: remove_at_def)
qed

section \<open>Iteration over Go maps\<close>

text \<open>
  The keys a \<^verbatim>\<open>range\<close> statement visits, given the visiting order \<open>ks\<close>: keys that are not in the
  map are not visited and none is visited twice. The order is complete for a map when it names
  all its keys.
\<close>

definition range_over :: "('k \<rightharpoonup> 'v) \<Rightarrow> 'k list \<Rightarrow> 'k list" where
  "range_over m ks = remdups (filter (\<lambda>k. m k \<noteq> None) ks)"

lemma set_range_over: "set (range_over m ks) = set ks \<inter> dom m"
  by (auto simp: range_over_def)

lemma distinct_range_over [simp]: "distinct (range_over m ks)"
  by (simp add: range_over_def)

lemma range_over_complete: "dom m \<subseteq> set ks \<Longrightarrow> set (range_over m ks) = dom m"
  by (auto simp: set_range_over)

section \<open>Errors as values\<close>

text \<open>Sequencing of fallible steps, the \<^verbatim>\<open>if err != nil { return err }\<close> of the code.\<close>

definition bindE :: "'e + 'a \<Rightarrow> ('a \<Rightarrow> 'e + 'b) \<Rightarrow> 'e + 'b" where
  "bindE x f = (case x of Inl e \<Rightarrow> Inl e | Inr a \<Rightarrow> f a)"

definition guardE :: "bool \<Rightarrow> 'e \<Rightarrow> 'e + unit" where
  "guardE b e = (if b then Inr () else Inl e)"

lemma bindE_simps [simp]: "bindE (Inl e) f = Inl e" "bindE (Inr a) f = f a"
  by (simp_all add: bindE_def)

lemma bindE_cong [fundef_cong]:
  "x = y \<Longrightarrow> (\<And>a. y = Inr a \<Longrightarrow> f a = g a) \<Longrightarrow> bindE x f = bindE y g"
  by (cases y) auto

lemma bindE_Inr: "bindE x f = Inr b \<longleftrightarrow> (\<exists>a. x = Inr a \<and> f a = Inr b)"
  by (cases x) auto

lemma bindE_Inl: "bindE x f = Inl e \<longleftrightarrow> x = Inl e \<or> (\<exists>a. x = Inr a \<and> f a = Inl e)"
  by (cases x) auto

lemma guardE_simps [simp]: "guardE b e = Inr u \<longleftrightarrow> b" "guardE b e = Inl e' \<longleftrightarrow> \<not> b \<and> e = e'"
  by (auto simp: guardE_def)

section \<open>The option monad as a specification logic\<close>

text \<open>\<open>succeeds f Q\<close>: the computation does not panic and its result satisfies \<open>Q\<close>.\<close>

definition succeeds :: "'a option \<Rightarrow> ('a \<Rightarrow> bool) \<Rightarrow> bool" where
  "succeeds f Q = (case f of None \<Rightarrow> False | Some x \<Rightarrow> Q x)"

lemma succeeds_Some [simp]: "succeeds (Some x) Q = Q x"
  by (simp add: succeeds_def)

lemma succeeds_None [simp]: "\<not> succeeds None Q"
  by (simp add: succeeds_def)

lemma succeeds_bind: "succeeds (Option.bind f g) Q = succeeds f (\<lambda>x. succeeds (g x) Q)"
  by (cases f) auto

lemma succeeds_mono: "succeeds f P \<Longrightarrow> (\<And>x. P x \<Longrightarrow> Q x) \<Longrightarrow> succeeds f Q"
  by (cases f) auto

lemma succeeds_iff: "succeeds f Q \<longleftrightarrow> (\<exists>x. f = Some x \<and> Q x)"
  by (cases f) auto

text \<open>A loop over a list of keys whose body may panic.\<close>

fun foldM :: "('k \<Rightarrow> 's \<Rightarrow> 's option) \<Rightarrow> 'k list \<Rightarrow> 's \<Rightarrow> 's option" where
  "foldM f [] s = Some s"
| "foldM f (k # ks) s = Option.bind (f k s) (foldM f ks)"

lemma foldM_inv:
  assumes "I s" and "\<And>k s. k \<in> set ks \<Longrightarrow> I s \<Longrightarrow> succeeds (f k s) I"
  shows "succeeds (foldM f ks s) I"
  using assms
proof (induction ks arbitrary: s)
  case Nil
  then show ?case by simp
next
  case (Cons k ks)
  have "succeeds (f k s) I" using Cons.prems by simp
  then obtain s' where "f k s = Some s'" "I s'" by (auto simp: succeeds_iff)
  moreover from this have "succeeds (foldM f ks s') I"
    using Cons.IH [of s'] Cons.prems(2) by simp
  ultimately show ?case by simp
qed

text \<open>
  What each visit establishes and later visits keep holds for every visited key at the end.
\<close>

lemma foldM_each:
  assumes "I s"
    and step: "\<And>k s. k \<in> set ks \<Longrightarrow> I s \<Longrightarrow> succeeds (f k s) (\<lambda>s'. I s' \<and> P k s')"
    and keep: "\<And>k j s s'. k \<in> set ks \<Longrightarrow> I s \<Longrightarrow> f k s = Some s' \<Longrightarrow> P j s \<Longrightarrow> P j s'"
  shows "succeeds (foldM f ks s) (\<lambda>s'. I s' \<and> (\<forall>k \<in> set ks. P k s') \<and> (\<forall>j. P j s \<longrightarrow> P j s'))"
  using assms
proof (induction ks arbitrary: s)
  case Nil
  then show ?case by simp
next
  case (Cons k ks)
  obtain s' where s': "f k s = Some s'" "I s'" "P k s'"
    using Cons.prems(1,2) by (force simp: succeeds_iff)
  have "succeeds (foldM f ks s') (\<lambda>t. I t \<and> (\<forall>k \<in> set ks. P k t) \<and> (\<forall>j. P j s' \<longrightarrow> P j t))"
  proof (rule Cons.IH [OF s'(2)])
    show "succeeds (f j t) (\<lambda>t'. I t' \<and> P j t')" if "j \<in> set ks" "I t" for j t
      using Cons.prems(2) that by simp
    show "P j t'" if "i \<in> set ks" "I t" "f i t = Some t'" "P j t" for i j t t'
      using Cons.prems(3) [of i t t' j] that by simp
  qed
  moreover have "P j s'" if "P j s" for j
    using Cons.prems(3) [of k s s' j] Cons.prems(1) s'(1) that by simp
  ultimately show ?case
    using s' by (auto simp: succeeds_iff)
qed

end
