(* ===== verification/Mz_Proto.thy ===== *)
theory Mz_Proto
  imports Mz_Prelude
begin

text \<open>
  The wire types of \<^verbatim>\<open>proto/types.go\<close> that the daemon and the broker exchange: targets, leases
  and lease requests. String-typed enumerations are datatypes with the source's constants; the
  zero value of \<^verbatim>\<open>LeaseState\<close> (the empty string of a lease under construction) is a constructor
  of its own. Pointers to optional values are options.
\<close>

datatype TargetKind = TargetSimulator | TargetDevice

datatype TargetState = StateShutdown | StateBooted | StateBooting | StateShuttingDown | StateUnknown

record target =
  t_UDID :: string
  t_Kind :: TargetKind
  t_Name :: string
  t_Runtime :: string
  t_DeviceType :: string
  t_State :: TargetState
  t_Labels :: "string list"
  t_Host :: string
  t_Warm :: bool
  t_Recording :: bool

datatype LeaseState = LeaseUnset | LeaseActive | LeaseQueued | LeaseExpired | LeaseReleased

record lease =
  l_ID :: string
  l_TargetUDID :: string
  l_Labels :: "string list"
  l_State :: LeaseState
  l_AgentID :: string
  l_Purpose :: string
  l_TTLSeconds :: int
  l_ExpiresAt :: "instant option"
  l_GraceUntil :: "instant option"
  l_ExpiresInSeconds :: "int option"
  l_QueuePosition :: nat
  l_CreatedAt :: instant
  l_Reset :: string
  l_RequestedUDID :: string
  l_Record :: string
  l_Paused :: bool
  l_PausedAt :: "instant option"
  l_PausedReason :: string
  l_Host :: string
  l_HostAddr :: string

record acquire_req =
  r_Labels :: "string list"
  r_UDID :: string
  r_AgentID :: string
  r_SessionID :: string
  r_Purpose :: string
  r_TTLSeconds :: int
  r_Reset :: string
  r_Record :: string

definition NormalizeAgentID :: "acquire_req \<Rightarrow> acquire_req" where
  "NormalizeAgentID r = (if r_AgentID r = [] then r\<lparr>r_AgentID := r_SessionID r\<rparr> else r)"

text \<open>A reset specification that asks for work: neither absent nor \<^verbatim>\<open>none\<close>.\<close>

definition wantsReset :: "string \<Rightarrow> bool" where
  "wantsReset spec \<longleftrightarrow> spec \<noteq> [] \<and> spec \<noteq> ''none''"

abbreviation is_active :: "lease \<Rightarrow> bool" where "is_active l \<equiv> l_State l = LeaseActive"
abbreviation is_queued :: "lease \<Rightarrow> bool" where "is_queued l \<equiv> l_State l = LeaseQueued"
abbreviation is_terminal :: "lease \<Rightarrow> bool" where
  "is_terminal l \<equiv> l_State l = LeaseExpired \<or> l_State l = LeaseReleased"

lemma NormalizeAgentID_idem: "NormalizeAgentID (NormalizeAgentID r) = NormalizeAgentID r"
  by (cases "r_SessionID r = []") (auto simp: NormalizeAgentID_def)

end
