(* ===== verification/Mz_Registry.thy ===== *)
theory Mz_Registry
  imports Mz_Proto
begin

text \<open>
  The target registries (\<^verbatim>\<open>internal/registry\<close>): label derivation, the simulator, device, mirror and
  mock sources, their merge and the runtime toggle.

  A registry is a record of the answers its methods give at one instant. What \<^verbatim>\<open>xcrun simctl\<close>,
  \<^verbatim>\<open>xcrun devicectl\<close> and the \<^verbatim>\<open>mirrord\<close> helper say is an argument of the definitions: the decoded
  listing, or an error. Names and runtimes are ASCII strings (the regular expressions and
  \<^verbatim>\<open>strings.ToLower\<close> are modelled on ASCII).
\<close>

section \<open>Labels\<close>

text \<open>The characters the class \<^verbatim>\<open>[^a-z0-9.]\<close> leaves alone.\<close>

definition slug_char :: "char \<Rightarrow> bool" where
  "slug_char c \<longleftrightarrow> is_lower c \<or> is_digit c \<or> c = CHR ''.''"

text \<open>\<^verbatim>\<open>nonAlnum.ReplaceAllString(s, "-")\<close>: each maximal run becomes one hyphen.\<close>

fun replace_runs :: "bool \<Rightarrow> string \<Rightarrow> string" where
  "replace_runs inrun [] = []"
| "replace_runs inrun (c # cs) =
     (if slug_char c then c # replace_runs False cs
      else if inrun then replace_runs True cs
      else CHR ''-'' # replace_runs True cs)"

definition slugify :: "string \<Rightarrow> string" where
  "slugify s = trim_both (\<lambda>c. c = CHR ''-'') (replace_runs False (map to_lower (trim_both is_space s)))"

text \<open>\<^verbatim>\<open>runtimeVer\<close> at one position: major and minor version (the minor may be missing).\<close>

definition runtimeVer_at :: "string \<Rightarrow> (string \<times> string) option" where
  "runtimeVer_at s =
     (case s of
        a # b # c # rest \<Rightarrow>
          if map to_lower [a, b, c] \<noteq> ''ios'' then None
          else
            let rest1 = (case rest of x # xs \<Rightarrow> if x = CHR '' '' \<or> x = CHR ''-'' then xs else rest | [] \<Rightarrow> []);
                major = takeWhile is_digit rest1;
                rest2 = dropWhile is_digit rest1;
                minor = (case rest2 of x # xs \<Rightarrow> if x = CHR ''.'' then takeWhile is_digit xs else [] | [] \<Rightarrow> [])
            in if major = [] then None else Some (major, minor)
      | _ \<Rightarrow> None)"

fun runtimeVer :: "string \<Rightarrow> (string \<times> string) option" where
  "runtimeVer [] = None"
| "runtimeVer (c # cs) = (case runtimeVer_at (c # cs) of Some m \<Rightarrow> Some m | None \<Rightarrow> runtimeVer cs)"

definition DeriveLabels :: "string \<Rightarrow> string \<Rightarrow> string \<Rightarrow> string list" where
  "DeriveLabels kind runtime deviceType =
     [kind] @
     (case runtimeVer runtime of
        Some (major, minor) \<Rightarrow> [''ios'' @ major] @ (if minor \<noteq> [] then [''ios'' @ major @ ''.'' @ minor] else [])
      | None \<Rightarrow> []) @
     (if slugify deviceType \<noteq> [] then [slugify deviceType] else [])"

definition RequirementLabels :: "string \<Rightarrow> string \<Rightarrow> string list" where
  "RequirementLabels runtime deviceType =
     (case runtimeVer runtime of
        Some (major, minor) \<Rightarrow> [''ios'' @ major @ (if minor \<noteq> [] then ''.'' @ minor else [])]
      | None \<Rightarrow> (if slugify runtime \<noteq> [] then [slugify runtime] else [])) @
     (if slugify deviceType \<noteq> [] then [slugify deviceType] else [])"

section \<open>The interface\<close>

datatype reg_error =
    NotFoundError string
  | DeviceBootError string
  | DeviceShutdownError string
  | ToolError string               \<comment> \<open>a failed command or an undecodable answer\<close>
  | JoinedError "reg_error list"   \<comment> \<open>\<^verbatim>\<open>errors.Join\<close>\<close>

record registry =
  rg_List :: "reg_error + target list"
  rg_Get :: "string \<Rightarrow> reg_error + target"
  rg_Boot :: "string \<Rightarrow> reg_error option"
  rg_Shutdown :: "string \<Rightarrow> reg_error option"
  rg_Health :: "string \<Rightarrow> TargetState \<times> reg_error option"
  rg_supplemental :: bool

text \<open>\<^verbatim>\<open>errors.As(err, &nf)\<close> finds a \<^verbatim>\<open>NotFoundError\<close> in the error or in what it joins.\<close>

fun is_not_found :: "reg_error \<Rightarrow> bool" where
  "is_not_found (NotFoundError u) = True"
| "is_not_found (JoinedError es) = list_ex is_not_found es"
| "is_not_found e = False"

text \<open>The lookups every source derives from its listing.\<close>

definition get_by_list :: "reg_error + target list \<Rightarrow> string \<Rightarrow> reg_error + target" where
  "get_by_list listing udid =
     (case listing of
        Inl err \<Rightarrow> Inl err
      | Inr ts \<Rightarrow> (case find (\<lambda>t. t_UDID t = udid) ts of Some t \<Rightarrow> Inr t | None \<Rightarrow> Inl (NotFoundError udid)))"

definition health_by_get :: "(string \<Rightarrow> reg_error + target) \<Rightarrow> string \<Rightarrow> TargetState \<times> reg_error option" where
  "health_by_get get udid =
     (case get udid of Inl err \<Rightarrow> (StateUnknown, Some err) | Inr t \<Rightarrow> (t_State t, None))"

definition refuse :: "(string \<Rightarrow> reg_error) \<Rightarrow> (string \<Rightarrow> reg_error + target) \<Rightarrow> string \<Rightarrow> reg_error option" where
  "refuse err get udid = (case get udid of Inl e \<Rightarrow> Some e | Inr t \<Rightarrow> Some (err udid))"

section \<open>Simulators\<close>

record simctl_device =
  sd_UDID :: string
  sd_Name :: string
  sd_State :: string
  sd_IsAvailable :: bool
  sd_DeviceTypeIdentifier :: string

definition SnapshotDeviceNamePrefix :: string where "SnapshotDeviceNamePrefix = ''manzanasd-snap-''"
definition ImageDeviceNamePrefix :: string where "ImageDeviceNamePrefix = ''manzanasd-img-''"

definition is_letter :: "char \<Rightarrow> bool" where
  "is_letter c \<longleftrightarrow> is_lower c \<or> is_upper c"

text \<open>\<^verbatim>\<open>runtimeIDRe\<close> after its literal prefix: platform, major and minor up to the end.\<close>

definition runtimeID_tail :: "string \<Rightarrow> (string \<times> string \<times> string) option" where
  "runtimeID_tail s =
     (let name = takeWhile is_letter s in
      case dropWhile is_letter s of
        [] \<Rightarrow> None
      | d # r1 \<Rightarrow>
          let major = takeWhile is_digit r1 in
          (case dropWhile is_digit r1 of
             [] \<Rightarrow> None
           | e # minor \<Rightarrow>
               if name \<noteq> [] \<and> d = CHR ''-'' \<and> major \<noteq> [] \<and> e = CHR ''-'' \<and> minor \<noteq> [] \<and> list_all is_digit minor
               then Some (name, major, minor) else None))"

fun runtimeIDRe :: "string \<Rightarrow> (string \<times> string \<times> string) option" where
  "runtimeIDRe [] = None"
| "runtimeIDRe (c # cs) =
     (case (if strings_HasPrefix (c # cs) ''SimRuntime.'' then runtimeID_tail (drop 11 (c # cs)) else None) of
        Some m \<Rightarrow> Some m
      | None \<Rightarrow> runtimeIDRe cs)"

definition runtimeName :: "string \<Rightarrow> string" where
  "runtimeName rid = (case runtimeIDRe rid of
      Some (name, major, minor) \<Rightarrow> name @ '' '' @ major @ ''.'' @ minor | None \<Rightarrow> rid)"

definition deviceTypeName :: "string \<Rightarrow> string" where
  "deviceTypeName did =
     map (\<lambda>c. if c = CHR ''-'' then CHR '' '' else c) (rev (takeWhile (\<lambda>c. c \<noteq> CHR ''.'') (rev did)))"

definition toState :: "string \<Rightarrow> TargetState" where
  "toState s =
     (if s = ''Shutdown'' then StateShutdown else if s = ''Booted'' then StateBooted
      else if s = ''Booting'' then StateBooting else if s = ''ShuttingDown'' then StateShuttingDown
      else StateUnknown)"

definition plain_target :: "string \<Rightarrow> TargetKind \<Rightarrow> string \<Rightarrow> string \<Rightarrow> string \<Rightarrow> TargetState \<Rightarrow> string list \<Rightarrow> target" where
  "plain_target udid kind name runtime deviceType state labels =
     \<lparr>t_UDID = udid, t_Kind = kind, t_Name = name, t_Runtime = runtime, t_DeviceType = deviceType,
      t_State = state, t_Labels = labels, t_Host = [], t_Warm = False, t_Recording = False\<rparr>"

definition kind_name :: "TargetKind \<Rightarrow> string" where
  "kind_name k = (case k of TargetSimulator \<Rightarrow> ''simulator'' | TargetDevice \<Rightarrow> ''device'')"

definition simctl_target :: "string \<Rightarrow> simctl_device \<Rightarrow> target list" where
  "simctl_target runtimeID d =
     (if \<not> sd_IsAvailable d then []
      else if strings_HasPrefix (sd_Name d) SnapshotDeviceNamePrefix \<or>
              strings_HasPrefix (sd_Name d) ImageDeviceNamePrefix then []
      else let rt = runtimeName runtimeID; dt = deviceTypeName (sd_DeviceTypeIdentifier d) in
        [plain_target (sd_UDID d) TargetSimulator (sd_Name d) rt dt (toState (sd_State d))
           (DeriveLabels (kind_name TargetSimulator) rt dt)])"

text \<open>The decoded \<^verbatim>\<open>devices\<close> object in the order its range statement visits it.\<close>

definition Simctl_List :: "string + (string \<times> simctl_device list) list \<Rightarrow> reg_error + target list" where
  "Simctl_List listing =
     (case listing of
        Inl err \<Rightarrow> Inl (ToolError err)
      | Inr runtimes \<Rightarrow> Inr (concat (map (\<lambda>(rid, ds). concat (map (simctl_target rid) ds)) runtimes)))"

definition Simctl_Boot :: "(string \<Rightarrow> string option) \<Rightarrow> string \<Rightarrow> reg_error option" where
  "Simctl_Boot run udid =
     (case run udid of
        None \<Rightarrow> None
      | Some err \<Rightarrow> if strings_Contains err ''current state: Booted'' then None else Some (ToolError err))"

definition Simctl_Shutdown :: "(string \<Rightarrow> string option) \<Rightarrow> string \<Rightarrow> reg_error option" where
  "Simctl_Shutdown run udid =
     (case run udid of
        None \<Rightarrow> None
      | Some err \<Rightarrow> if strings_Contains err ''current state: Shutdown'' then None else Some (ToolError err))"

definition SimctlRegistry ::
  "string + (string \<times> simctl_device list) list \<Rightarrow> (string \<Rightarrow> string option) \<Rightarrow> (string \<Rightarrow> string option) \<Rightarrow> registry"
where
  "SimctlRegistry listing boot shutdown =
     \<lparr>rg_List = Simctl_List listing, rg_Get = get_by_list (Simctl_List listing),
      rg_Boot = Simctl_Boot boot, rg_Shutdown = Simctl_Shutdown shutdown,
      rg_Health = health_by_get (get_by_list (Simctl_List listing)), rg_supplemental = False\<rparr>"

section \<open>Physical devices\<close>

record devicectl_device =
  dd_VisibilityClass :: string
  dd_TunnelState :: string
  dd_Name :: string
  dd_OSVersionNumber :: string
  dd_UDID :: string
  dd_MarketingName :: string
  dd_ProductType :: string
  dd_Platform :: string

definition DisconnectedLabel :: string where "DisconnectedLabel = ''disconnected''"
definition MirrorLabel :: string where "MirrorLabel = ''mirror''"
definition MirrorBlockedLabel :: string where "MirrorBlockedLabel = ''mirror-blocked''"
definition NoTunnelLabel :: string where "NoTunnelLabel = ''no-tunnel''"
definition NoDevicectlLabel :: string where "NoDevicectlLabel = ''no-devicectl''"

definition devicectl_target :: "devicectl_device \<Rightarrow> target list" where
  "devicectl_target d =
     (if dd_UDID d = [] then []
      else if dd_VisibilityClass d \<noteq> [] \<and> dd_VisibilityClass d \<noteq> ''default'' then []
      else
        let rt = trim_both is_space (dd_Platform d @ '' '' @ dd_OSVersionNumber d);
            dt = (if dd_MarketingName d = [] then dd_ProductType d else dd_MarketingName d);
            connected = (dd_TunnelState d = ''connected'');
            labels = DeriveLabels (kind_name TargetDevice) rt dt
        in [plain_target (dd_UDID d) TargetDevice (dd_Name d) rt dt
              (if connected then StateBooted else StateUnknown)
              (if connected then labels else labels @ [DisconnectedLabel])])"

definition Devicectl_List :: "string + devicectl_device list \<Rightarrow> reg_error + target list" where
  "Devicectl_List listing =
     (case listing of Inl err \<Rightarrow> Inl (ToolError err) | Inr ds \<Rightarrow> Inr (concat (map devicectl_target ds)))"

definition DevicectlRegistry :: "string + devicectl_device list \<Rightarrow> registry" where
  "DevicectlRegistry listing =
     (let get = get_by_list (Devicectl_List listing) in
      \<lparr>rg_List = Devicectl_List listing, rg_Get = get,
       rg_Boot = refuse DeviceBootError get, rg_Shutdown = refuse DeviceShutdownError get,
       rg_Health = health_by_get get, rg_supplemental = False\<rparr>)"

section \<open>Mirrored devices\<close>

text \<open>A status answer of the helper: its state and the error of the call, if any.\<close>

type_synonym mirror_answer = "string \<times> string option"

record mirror_entry =
  me_socket :: string
  me_answer :: mirror_answer
  me_expires :: instant

record mirror_registry =
  mr_mirrors :: "string \<rightharpoonup> string"
  mr_cache :: "string \<rightharpoonup> mirror_entry"

definition mirrorStatusTTL :: duration where "mirrorStatusTTL = 5 * Second"

definition NewMirror :: mirror_registry where
  "NewMirror = \<lparr>mr_mirrors = Map.empty, mr_cache = Map.empty\<rparr>"

definition SetMirrors :: "(string \<rightharpoonup> string) \<Rightarrow> mirror_registry \<Rightarrow> mirror_registry" where
  "SetMirrors mirrors r =
     r\<lparr>mr_mirrors := mirrors,
       mr_cache := (\<lambda>u. case mr_cache r u of
          None \<Rightarrow> None
        | Some e \<Rightarrow> (case mirrors u of None \<Rightarrow> None | Some s \<Rightarrow> if s \<noteq> me_socket e then None else Some e))\<rparr>"

text \<open>
  One status lookup: \<open>probe\<close> is what the helper answers for a socket now, \<open>gone\<close> whether the
  caller's context has ended.
\<close>

definition statusFor ::
  "instant \<Rightarrow> bool \<Rightarrow> (string \<Rightarrow> mirror_answer) \<Rightarrow> string \<Rightarrow> mirror_registry \<Rightarrow> mirror_registry \<times> mirror_answer option"
where
  "statusFor now gone probe udid r =
     (case mr_mirrors r udid of
        None \<Rightarrow> (r, None)
      | Some socket \<Rightarrow>
          let fresh_probe =
            (let ans = probe socket in
             if snd ans \<noteq> None \<and> gone then (r, Some ans)
             else (r\<lparr>mr_cache := (mr_cache r)(udid \<mapsto>
                     \<lparr>me_socket = socket, me_answer = ans, me_expires = now + mirrorStatusTTL\<rparr>)\<rparr>, Some ans))
          in (case mr_cache r udid of
                Some e \<Rightarrow> if me_socket e = socket \<and> now < me_expires e then (r, Some (me_answer e)) else fresh_probe
              | None \<Rightarrow> fresh_probe))"

definition mirrorTarget :: "string \<Rightarrow> mirror_answer \<Rightarrow> target" where
  "mirrorTarget udid ans =
     (let base = [kind_name TargetDevice, MirrorLabel, NoDevicectlLabel];
          (state, labels) =
            (if snd ans \<noteq> None then (StateUnknown, base @ [DisconnectedLabel])
             else if fst ans = ''ready'' then (StateBooted, base)
             else if fst ans = ''blocked'' then (StateBooted, base @ [MirrorBlockedLabel])
             else (StateUnknown, base @ [DisconnectedLabel]))
      in plain_target udid TargetDevice ''iPhone (mirror)'' [] [] state labels)"

fun mirror_list ::
  "instant \<Rightarrow> bool \<Rightarrow> (string \<Rightarrow> mirror_answer) \<Rightarrow> string list \<Rightarrow> mirror_registry \<Rightarrow> mirror_registry \<times> target list"
where
  "mirror_list now gone probe [] r = (r, [])"
| "mirror_list now gone probe (u # us) r =
     (case statusFor now gone probe u r of
        (r1, None) \<Rightarrow> mirror_list now gone probe us r1
      | (r1, Some ans) \<Rightarrow>
          (case mirror_list now gone probe us r1 of (r2, ts) \<Rightarrow> (r2, mirrorTarget u ans # ts)))"

text \<open>\<open>ks\<close> is the order in which the range over \<^verbatim>\<open>mirrors\<close> visits its keys; the keys are then sorted.\<close>

definition Mirror_List ::
  "instant \<Rightarrow> bool \<Rightarrow> (string \<Rightarrow> mirror_answer) \<Rightarrow> string list \<Rightarrow> mirror_registry \<Rightarrow> mirror_registry \<times> target list"
where
  "Mirror_List now gone probe ks r = mirror_list now gone probe (sort (range_over (mr_mirrors r) ks)) r"

definition Mirror_Get ::
  "instant \<Rightarrow> bool \<Rightarrow> (string \<Rightarrow> mirror_answer) \<Rightarrow> string \<Rightarrow> mirror_registry \<Rightarrow> mirror_registry \<times> (reg_error + target)"
where
  "Mirror_Get now gone probe udid r =
     (case statusFor now gone probe udid r of
        (r1, None) \<Rightarrow> (r1, Inl (NotFoundError udid))
      | (r1, Some ans) \<Rightarrow> (r1, Inr (mirrorTarget udid ans)))"

definition MirrorRegistry ::
  "instant \<Rightarrow> bool \<Rightarrow> (string \<Rightarrow> mirror_answer) \<Rightarrow> string list \<Rightarrow> mirror_registry \<Rightarrow> registry"
where
  "MirrorRegistry now gone probe ks r =
     (let get = (\<lambda>u. snd (Mirror_Get now gone probe u r)) in
      \<lparr>rg_List = Inr (snd (Mirror_List now gone probe ks r)), rg_Get = get,
       rg_Boot = refuse DeviceBootError get, rg_Shutdown = refuse DeviceShutdownError get,
       rg_Health = health_by_get get, rg_supplemental = True\<rparr>)"

section \<open>The mock source\<close>

record mock_registry =
  mk_targets :: "string \<rightharpoonup> target"
  mk_order :: "string list"

definition labelled :: "target \<Rightarrow> target" where
  "labelled t = (if t_Labels t = []
     then t\<lparr>t_Labels := DeriveLabels (kind_name (t_Kind t)) (t_Runtime t) (t_DeviceType t)\<rparr> else t)"

definition defaultMockFleet :: "target list" where
  "defaultMockFleet =
     (let mk = (\<lambda>udid name runtime dt. plain_target udid TargetSimulator name runtime dt StateShutdown [])
      in [mk ''MOCK-0000-0000-0001'' ''iPhone 17 Pro'' ''iOS 26.5'' ''iPhone 17 Pro'',
          mk ''MOCK-0000-0000-0002'' ''iPhone 17 Pro'' ''iOS 26.5'' ''iPhone 17 Pro'',
          mk ''MOCK-0000-0000-0003'' ''iPhone 16'' ''iOS 18.5'' ''iPhone 16''])"

definition NewMock :: "target list \<Rightarrow> mock_registry" where
  "NewMock seed =
     (let seed1 = (if seed = [] then defaultMockFleet else seed) in
      \<lparr>mk_targets = foldl (\<lambda>m t. m(t_UDID t \<mapsto> labelled t)) Map.empty seed1, mk_order = map t_UDID seed1\<rparr>)"

definition Mock_Add :: "target \<Rightarrow> mock_registry \<Rightarrow> mock_registry" where
  "Mock_Add t m =
     m\<lparr>mk_order := (if mk_targets m (t_UDID t) = None then mk_order m @ [t_UDID t] else mk_order m),
       mk_targets := (mk_targets m)(t_UDID t \<mapsto> labelled t)\<rparr>"

text \<open>A missing map entry reads as the zero target.\<close>

definition zero_target :: target where
  "zero_target = plain_target [] TargetSimulator [] [] [] StateUnknown []"

definition Mock_List :: "mock_registry \<Rightarrow> target list" where
  "Mock_List m = map (\<lambda>u. case mk_targets m u of Some t \<Rightarrow> t | None \<Rightarrow> zero_target) (mk_order m)"

definition Mock_Get :: "mock_registry \<Rightarrow> string \<Rightarrow> reg_error + target" where
  "Mock_Get m udid = (case mk_targets m udid of None \<Rightarrow> Inl (NotFoundError udid) | Some t \<Rightarrow> Inr t)"

definition setState :: "string \<Rightarrow> TargetState \<Rightarrow> mock_registry \<Rightarrow> mock_registry \<times> reg_error option" where
  "setState udid st m =
     (case mk_targets m udid of
        None \<Rightarrow> (m, Some (NotFoundError udid))
      | Some t \<Rightarrow> (m\<lparr>mk_targets := (mk_targets m)(udid \<mapsto> t\<lparr>t_State := st\<rparr>)\<rparr>, None))"

definition Mock_Boot :: "string \<Rightarrow> mock_registry \<Rightarrow> mock_registry \<times> reg_error option" where
  "Mock_Boot udid = setState udid StateBooted"

definition Mock_Shutdown :: "string \<Rightarrow> mock_registry \<Rightarrow> mock_registry \<times> reg_error option" where
  "Mock_Shutdown udid = setState udid StateShutdown"

definition MockRegistry :: "mock_registry \<Rightarrow> registry" where
  "MockRegistry m =
     \<lparr>rg_List = Inr (Mock_List m), rg_Get = Mock_Get m,
      rg_Boot = (\<lambda>u. snd (Mock_Boot u m)), rg_Shutdown = (\<lambda>u. snd (Mock_Shutdown u m)),
      rg_Health = health_by_get (Mock_Get m), rg_supplemental = False\<rparr>"

section \<open>Merging\<close>

text \<open>\<^verbatim>\<open>unionLabels\<close>: first occurrences in order.\<close>

fun union_seen :: "string list \<Rightarrow> string list \<Rightarrow> string list" where
  "union_seen seen [] = []"
| "union_seen seen (l # ls) = (if l \<in> set seen then union_seen seen ls else l # union_seen (l # seen) ls)"

definition unionLabels :: "string list \<Rightarrow> string list \<Rightarrow> string list" where
  "unionLabels a b = union_seen [] (a @ b)"

definition overlay_plain :: "target \<Rightarrow> target \<Rightarrow> target" where
  "overlay_plain base extra =
     base\<lparr>t_Labels := unionLabels (t_Labels base) (t_Labels extra),
          t_State := (if t_State base = StateUnknown then t_State extra else t_State base)\<rparr>"

definition overlay_mirror :: "target \<Rightarrow> target \<Rightarrow> target" where
  "overlay_mirror base extra =
     base\<lparr>t_Name := (if t_Name base = [] then t_Name extra else t_Name base),
          t_State := t_State extra,
          t_Labels := unionLabels
            (map (\<lambda>l. if l = DisconnectedLabel then NoTunnelLabel else l) (t_Labels base) @
             filter (\<lambda>l. l \<noteq> NoDevicectlLabel) (t_Labels extra)) []\<rparr>"

definition overlayTarget :: "target \<Rightarrow> target \<Rightarrow> target" where
  "overlayTarget base extra =
     (let baseMirror = (MirrorLabel \<in> set (t_Labels base)); extraMirror = (MirrorLabel \<in> set (t_Labels extra)) in
      if baseMirror \<and> \<not> extraMirror then overlay_mirror extra base
      else if \<not> extraMirror then overlay_plain base extra
      else overlay_mirror base extra)"

text \<open>The position of the first entry with a UDID, which is what the index map records.\<close>

fun dedup_into :: "target list \<Rightarrow> target list \<Rightarrow> target list" where
  "dedup_into out [] = out"
| "dedup_into out (t # ts) =
     (if t_UDID t \<in> set (map t_UDID out)
      then dedup_into (map (\<lambda>o'. if t_UDID o' = t_UDID t then overlayTarget o' t else o') out) ts
      else dedup_into (out @ [t]) ts)"

definition dedupTargets :: "target list \<Rightarrow> target list" where
  "dedupTargets ts = dedup_into [] ts"

definition list_errors :: "registry list \<Rightarrow> reg_error list" where
  "list_errors regs = concat (map (\<lambda>r. case rg_List r of Inl e \<Rightarrow> [e] | Inr ts \<Rightarrow> []) regs)"

definition list_found :: "registry list \<Rightarrow> target list" where
  "list_found regs = concat (map (\<lambda>r. case rg_List r of Inl e \<Rightarrow> [] | Inr ts \<Rightarrow> ts) regs)"

definition Merged_List :: "registry list \<Rightarrow> reg_error + target list" where
  "Merged_List regs =
     (let fallible = length (filter (\<lambda>r. \<not> rg_supplemental r) regs); errs = list_errors regs in
      if fallible > 0 \<and> length errs = fallible then Inl (JoinedError errs)
      else Inr (dedupTargets (list_found regs)))"

definition overlay_rest :: "string \<Rightarrow> registry list \<Rightarrow> target \<Rightarrow> target" where
  "overlay_rest udid rest t =
     foldl (\<lambda>t r2. case rg_Get r2 udid of Inl e \<Rightarrow> t | Inr t2 \<Rightarrow> overlayTarget t t2) t rest"

fun owner_from :: "string \<Rightarrow> reg_error list \<Rightarrow> registry list \<Rightarrow> reg_error + (registry \<times> target)" where
  "owner_from udid errs [] = Inl (if errs \<noteq> [] then JoinedError errs else NotFoundError udid)"
| "owner_from udid errs (r # rest) =
     (case rg_Get r udid of
        Inr t \<Rightarrow> Inr (r, if t_Kind t = TargetDevice then overlay_rest udid rest t else t)
      | Inl err \<Rightarrow> owner_from udid (if is_not_found err then errs else errs @ [err]) rest)"

definition owner :: "registry list \<Rightarrow> string \<Rightarrow> reg_error + (registry \<times> target)" where
  "owner regs udid = owner_from udid [] regs"

definition Merged_Get :: "registry list \<Rightarrow> string \<Rightarrow> reg_error + target" where
  "Merged_Get regs udid = (case owner regs udid of Inl e \<Rightarrow> Inl e | Inr (r, t) \<Rightarrow> Inr t)"

definition Merged_Boot :: "registry list \<Rightarrow> string \<Rightarrow> reg_error option" where
  "Merged_Boot regs udid = (case owner regs udid of Inl e \<Rightarrow> Some e | Inr (r, t) \<Rightarrow> rg_Boot r udid)"

definition Merged_Shutdown :: "registry list \<Rightarrow> string \<Rightarrow> reg_error option" where
  "Merged_Shutdown regs udid = (case owner regs udid of Inl e \<Rightarrow> Some e | Inr (r, t) \<Rightarrow> rg_Shutdown r udid)"

definition Merged_Health :: "registry list \<Rightarrow> string \<Rightarrow> TargetState \<times> reg_error option" where
  "Merged_Health regs udid = (case owner regs udid of Inl e \<Rightarrow> (StateUnknown, Some e) | Inr (r, t) \<Rightarrow> (t_State t, None))"

definition Merge :: "registry list \<Rightarrow> registry" where
  "Merge regs =
     \<lparr>rg_List = Merged_List regs, rg_Get = Merged_Get regs, rg_Boot = Merged_Boot regs,
      rg_Shutdown = Merged_Shutdown regs, rg_Health = Merged_Health regs, rg_supplemental = False\<rparr>"

record toggle_registry =
  tg_base :: registry
  tg_merged :: registry
  tg_on :: bool

definition NewToggle :: "registry \<Rightarrow> registry list \<Rightarrow> toggle_registry" where
  "NewToggle base extras = \<lparr>tg_base = base, tg_merged = Merge (base # extras), tg_on = False\<rparr>"

definition SetEnabled :: "bool \<Rightarrow> toggle_registry \<Rightarrow> toggle_registry" where
  "SetEnabled on t = t\<lparr>tg_on := on\<rparr>"

definition active_registry :: "toggle_registry \<Rightarrow> registry" where
  "active_registry t = (if tg_on t then tg_merged t else tg_base t)"

end
