(* ===== verification/Mz_RegistryProps.thy ===== *)
theory Mz_RegistryProps
  imports Mz_Registry
begin

text \<open>
  The contract between a registry and its clients, its discharge for every concrete source, and the
  properties of the merged registry that the daemon relies on.
\<close>

section \<open>The contract of a source\<close>

text \<open>
  What the clients of \<^verbatim>\<open>Registry\<close> rely on: a lookup answers from the listing, and health is the
  state of the looked-up target.
\<close>

locale source =
  fixes R :: registry
  assumes get_listed: "rg_List R = Inr ts \<Longrightarrow> rg_Get R u = get_by_list (Inr ts) u"
    and health_of_get: "rg_Health R u = health_by_get (rg_Get R) u"
begin

lemma get_found: "rg_List R = Inr ts \<Longrightarrow> rg_Get R u = Inr t \<Longrightarrow> t \<in> set ts \<and> t_UDID t = u"
  using get_listed [of ts u] by (auto simp: get_by_list_def find_Some_iff split: option.splits)

lemma get_none: "rg_List R = Inr ts \<Longrightarrow> (\<exists>e. rg_Get R u = Inl e) \<longleftrightarrow> u \<notin> t_UDID ` set ts"
  using get_listed [of ts u] by (auto simp: get_by_list_def find_None_iff find_Some_iff split: option.splits)

text \<open>With one entry per UDID, the lookup is the filter of the listing.\<close>

lemma get_filter:
  assumes "rg_List R = Inr ts" "distinct (map t_UDID ts)"
  shows "filter (\<lambda>t. t_UDID t = u) ts = (case rg_Get R u of Inl e \<Rightarrow> [] | Inr t \<Rightarrow> [t])"
  using assms(2) unfolding get_listed [OF assms(1)]
proof (induction ts)
  case Nil
  then show ?case by (simp add: get_by_list_def)
next
  case (Cons t ts)
  show ?case
  proof (cases "t_UDID t = u")
    case True
    then have "filter (\<lambda>t. t_UDID t = u) ts = []" using Cons.prems by (simp add: filter_empty_conv) (metis image_eqI)
    then show ?thesis using True by (simp add: get_by_list_def)
  next
    case False
    then show ?thesis using Cons by (simp add: get_by_list_def)
  qed
qed

lemma health_known:
  "rg_List R = Inr ts \<Longrightarrow> rg_Get R u = Inr t \<Longrightarrow> rg_Health R u = (t_State t, None)"
  by (simp add: health_of_get health_by_get_def)

end

interpretation simctl: source "SimctlRegistry listing boot shutdown" for listing boot shutdown
  by unfold_locales (auto simp: SimctlRegistry_def)

interpretation devicectl: source "DevicectlRegistry listing" for listing
  by unfold_locales (auto simp: DevicectlRegistry_def Let_def)

text \<open>The mirror registry looks one UDID up without listing the others.\<close>

lemma statusFor_value:
  "snd (statusFor now gone probe u r) =
     (case mr_mirrors r u of None \<Rightarrow> None | Some socket \<Rightarrow>
        Some (case mr_cache r u of
                Some e \<Rightarrow> if me_socket e = socket \<and> now < me_expires e then me_answer e else probe socket
              | None \<Rightarrow> probe socket))"
  by (simp add: statusFor_def Let_def split: option.split)

lemma statusFor_frame:
  "u \<noteq> v \<Longrightarrow> mr_cache (fst (statusFor now gone probe v r)) u = mr_cache r u"
  "mr_mirrors (fst (statusFor now gone probe v r)) = mr_mirrors r"
  by (simp_all add: statusFor_def Let_def split: option.split)

lemma mirror_list_targets:
  assumes "distinct us" "\<forall>u \<in> set us. mr_mirrors r u \<noteq> None"
  shows "snd (mirror_list now gone probe us r) =
     map (\<lambda>u. mirrorTarget u (the (snd (statusFor now gone probe u r)))) us"
  using assms
proof (induction us arbitrary: r)
  case Nil
  then show ?case by simp
next
  case (Cons u us)
  obtain r1 ans where s: "statusFor now gone probe u r = (r1, Some ans)"
  proof -
    have "snd (statusFor now gone probe u r) \<noteq> None"
      using Cons.prems(2) by (auto simp: statusFor_value)
    then show ?thesis using that by (metis not_Some_eq prod.collapse)
  qed
  have f: "mr_mirrors r1 = mr_mirrors r" "\<And>v. v \<in> set us \<Longrightarrow> mr_cache r1 v = mr_cache r v"
  proof -
    show "mr_mirrors r1 = mr_mirrors r" using statusFor_frame(2) [of now gone probe u r] s by simp
    show "mr_cache r1 v = mr_cache r v" if "v \<in> set us" for v
    proof -
      have "v \<noteq> u" using that Cons.prems(1) by auto
      then show ?thesis using statusFor_frame(1) [of v u now gone probe r] s by simp
    qed
  qed
  have "snd (mirror_list now gone probe us r1) =
      map (\<lambda>u. mirrorTarget u (the (snd (statusFor now gone probe u r1)))) us"
    using Cons f by simp
  moreover have "snd (statusFor now gone probe v r1) = snd (statusFor now gone probe v r)" if "v \<in> set us" for v
    using f(1) f(2) [OF that] by (simp only: statusFor_value)
  ultimately show ?case using s by (simp add: case_prod_unfold)
qed

lemma t_UDID_mirrorTarget [simp]: "t_UDID (mirrorTarget u ans) = u"
  by (simp add: mirrorTarget_def plain_target_def Let_def)

lemma find_map_key: "find (\<lambda>t. t_UDID t = u) (map f us) = (if u \<in> set us then Some (f u) else None)"
  if "\<And>v. t_UDID (f v) = v"
  using that by (induction us) auto

lemma mirror_source:
  assumes "dom (mr_mirrors r) \<subseteq> set ks"
  shows "source (MirrorRegistry now gone probe ks r)"
proof
  fix ts u
  let ?us = "sort (range_over (mr_mirrors r) ks)"
  have us: "set ?us = dom (mr_mirrors r)" "distinct ?us"
    using range_over_complete [OF assms] by simp_all
  assume "rg_List (MirrorRegistry now gone probe ks r) = Inr ts"
  then have ts: "ts = map (\<lambda>u. mirrorTarget u (the (snd (statusFor now gone probe u r)))) ?us"
    using mirror_list_targets [OF us(2), of r now gone probe] us(1)
    by (simp add: MirrorRegistry_def Let_def Mirror_List_def domIff)
  have "find (\<lambda>t. t_UDID t = u) ts =
      (if u \<in> set ?us then Some (mirrorTarget u (the (snd (statusFor now gone probe u r)))) else None)"
    unfolding ts by (rule find_map_key) simp
  then show "rg_Get (MirrorRegistry now gone probe ks r) u = get_by_list (Inr ts) u"
    using us(1) statusFor_value [of now gone probe u r]
    by (cases "statusFor now gone probe u r")
      (auto simp: MirrorRegistry_def Let_def Mirror_Get_def get_by_list_def domIff split: option.splits)
next
  show "rg_Health (MirrorRegistry now gone probe ks r) u = health_by_get (rg_Get (MirrorRegistry now gone probe ks r)) u" for u
    by (simp add: MirrorRegistry_def Let_def)
qed

text \<open>The mock registry, as long as its order lists exactly its targets.\<close>

definition mock_wf :: "mock_registry \<Rightarrow> bool" where
  "mock_wf m \<longleftrightarrow> set (mk_order m) = dom (mk_targets m) \<and> distinct (mk_order m) \<and>
     (\<forall>u t. mk_targets m u = Some t \<longrightarrow> t_UDID t = u)"

lemma t_UDID_labelled [simp]: "t_UDID (labelled t) = t_UDID t"
  by (simp add: labelled_def)

lemma mock_wf_Add: "mock_wf m \<Longrightarrow> mock_wf (Mock_Add t m)"
  by (auto simp: mock_wf_def Mock_Add_def dom_def)

lemma mock_wf_setState: "mock_wf m \<Longrightarrow> mock_wf (fst (setState u st m))"
  by (auto simp: mock_wf_def setState_def dom_def split: option.split)

lemma mock_source:
  assumes "mock_wf m"
  shows "source (MockRegistry m)"
proof
  fix ts u
  assume "rg_List (MockRegistry m) = Inr ts"
  then have ts: "ts = Mock_List m" by (simp add: MockRegistry_def)
  have "find (\<lambda>t. t_UDID t = u) (map (\<lambda>u. case mk_targets m u of Some t \<Rightarrow> t | None \<Rightarrow> zero_target) us) =
      (if u \<in> set us then mk_targets m u else None)" if "set us \<subseteq> dom (mk_targets m)" for us
    using that assms by (induction us) (auto simp: mock_wf_def split: option.splits)
  from this [of "mk_order m"] show "rg_Get (MockRegistry m) u = get_by_list (Inr ts) u"
    using assms by (auto simp: ts Mock_List_def MockRegistry_def Mock_Get_def get_by_list_def mock_wf_def
        split: option.splits)
next
  show "rg_Health (MockRegistry m) u = health_by_get (rg_Get (MockRegistry m)) u" for u
    by (simp add: MockRegistry_def)
qed

interpretation default_mock: source "MockRegistry (NewMock [])"
proof (rule mock_source)
  have "map t_UDID defaultMockFleet = [''MOCK-0000-0000-0001'', ''MOCK-0000-0000-0002'', ''MOCK-0000-0000-0003'']"
    by (simp add: defaultMockFleet_def plain_target_def)
  then show "mock_wf (NewMock [])"
    by (auto simp: mock_wf_def NewMock_def defaultMockFleet_def plain_target_def labelled_def Let_def split: if_splits)
qed

section \<open>The merged registry\<close>

lemma t_UDID_overlay [simp]: "t_UDID a = t_UDID b \<Longrightarrow> t_UDID (overlayTarget a b) = t_UDID a"
  by (simp add: overlayTarget_def overlay_mirror_def overlay_plain_def Let_def)

text \<open>How one UDID travels through the deduplication: its entries are overlaid in order.\<close>

definition overlay_all :: "target option \<Rightarrow> target list \<Rightarrow> target option" where
  "overlay_all acc ts = foldl (\<lambda>acc t. Some (case acc of None \<Rightarrow> t | Some b \<Rightarrow> overlayTarget b t)) acc ts"

definition lookup :: "string \<Rightarrow> target list \<Rightarrow> target option" where
  "lookup u ts = find (\<lambda>t. t_UDID t = u) ts"

lemma overlay_all_simps [simp]:
  "overlay_all acc [] = acc"
  "overlay_all acc (t # ts) = overlay_all (Some (case acc of None \<Rightarrow> t | Some b \<Rightarrow> overlayTarget b t)) ts"
  by (simp_all add: overlay_all_def)

lemma lookup_None: "lookup u ts = None \<longleftrightarrow> u \<notin> set (map t_UDID ts)"
  by (auto simp: lookup_def find_None_iff)

lemma lookup_append: "lookup u (ts @ us) = (case lookup u ts of None \<Rightarrow> lookup u us | Some t \<Rightarrow> Some t)"
  unfolding lookup_def by (induction ts) auto

lemma lookup_single: "lookup u [t] = (if t_UDID t = u then Some t else None)"
  by (simp add: lookup_def)

lemma map_UDID_overlay:
  "map t_UDID (map (\<lambda>o'. if t_UDID o' = t_UDID t then overlayTarget o' t else o') out) = map t_UDID out"
  by (induction out) auto

lemma lookup_overlay:
  "lookup u (map (\<lambda>o'. if t_UDID o' = t_UDID t then overlayTarget o' t else o') out) =
     map_option (\<lambda>b. if u = t_UDID t then overlayTarget b t else b) (lookup u out)"
  unfolding lookup_def by (induction out) auto

lemma lookup_dedup:
  "lookup u (dedup_into out ts) = overlay_all (lookup u out) (filter (\<lambda>t. t_UDID t = u) ts)"
proof (induction out ts rule: dedup_into.induct)
  case (1 out)
  then show ?case by simp
next
  case (2 out t ts)
  show ?case
  proof (cases "t_UDID t \<in> set (map t_UDID out)")
    case True
    then have "lookup (t_UDID t) out \<noteq> None" by (simp add: lookup_None)
    then show ?thesis using 2(1) [OF True] True by (auto simp: lookup_overlay option.map_ident)
  next
    case False
    then have "lookup (t_UDID t) out = None" by (simp add: lookup_None)
    then show ?thesis using 2(2) [OF False] False
      by (auto simp: lookup_append lookup_single split: option.split)
  qed
qed

lemma dedup_UDIDs:
  assumes "distinct (map t_UDID out)"
  shows "distinct (map t_UDID (dedup_into out ts)) \<and>
     set (map t_UDID (dedup_into out ts)) = set (map t_UDID out) \<union> set (map t_UDID ts)"
  using assms
proof (induction out ts rule: dedup_into.induct)
  case (1 out)
  then show ?case by simp
next
  case (2 out t ts)
  show ?case
  proof (cases "t_UDID t \<in> set (map t_UDID out)")
    case True
    then show ?thesis using 2(1) [OF True] 2(3) by (simp only: dedup_into.simps map_UDID_overlay if_True) auto
  next
    case False
    then show ?thesis using 2(2) [OF False] 2(3) by auto
  qed
qed

text \<open>The lookup of the merged registry overlays the sources' answers in the same order.\<close>

definition answers :: "registry list \<Rightarrow> string \<Rightarrow> target list" where
  "answers regs u = concat (map (\<lambda>r. case rg_Get r u of Inl e \<Rightarrow> [] | Inr t \<Rightarrow> [t]) regs)"

lemma overlay_rest_answers: "Some (overlay_rest u rest t) = overlay_all (Some t) (answers rest u)"
  unfolding overlay_rest_def answers_def
  by (induction rest arbitrary: t) (auto split: sum.split)

lemma owner_answers:
  assumes "\<And>t. t \<in> set (answers regs u) \<Longrightarrow> t_Kind t = TargetDevice"
  shows "(case owner_from u errs regs of Inl e \<Rightarrow> None | Inr (r, t) \<Rightarrow> Some t) = overlay_all None (answers regs u)"
  using assms
proof (induction regs arbitrary: errs)
  case Nil
  then show ?case by (simp add: answers_def)
next
  case (Cons r rest)
  show ?case
  proof (cases "rg_Get r u")
    case (Inl e)
    then show ?thesis using Cons by (simp add: answers_def)
  next
    case (Inr t)
    then have "t_Kind t = TargetDevice" using Cons.prems by (simp add: answers_def)
    then show ?thesis using Inr overlay_rest_answers [of u rest t] by (simp add: answers_def)
  qed
qed

lemma filter_found:
  assumes "\<And>r. r \<in> set regs \<Longrightarrow> source r" "\<And>r. r \<in> set regs \<Longrightarrow> \<exists>ts. rg_List r = Inr ts \<and> distinct (map t_UDID ts)"
  shows "filter (\<lambda>t. t_UDID t = u) (list_found regs) = answers regs u"
  using assms
proof (induction regs)
  case Nil
  then show ?case by (simp add: list_found_def answers_def)
next
  case (Cons r regs)
  obtain ts where "rg_List r = Inr ts" "distinct (map t_UDID ts)" using Cons.prems(2) by auto
  then have "filter (\<lambda>t. t_UDID t = u) (case rg_List r of Inl e \<Rightarrow> [] | Inr ts \<Rightarrow> ts) =
      (case rg_Get r u of Inl e \<Rightarrow> [] | Inr t \<Rightarrow> [t])"
    using source.get_filter [of r ts u] Cons.prems(1) by simp
  then show ?case using Cons by (simp add: list_found_def answers_def)
qed

section \<open>Properties\<close>

text \<open>
  C28. \<^verbatim>\<open>MergedRegistry\<close>'s two views of a device agree: when every source answers, keeps one entry per
  UDID and looks UDIDs up in its own listing (as the simulator, device, mirror and mock sources
  do), \<^verbatim>\<open>Get\<close> of a device returns exactly its entry of \<^verbatim>\<open>List\<close>, overlays included, and it fails only
  for a UDID that \<^verbatim>\<open>List\<close> does not have.
\<close>

theorem merged_get_agrees_list:
  assumes "\<And>r. r \<in> set regs \<Longrightarrow> source r"
    and "\<And>r. r \<in> set regs \<Longrightarrow> \<exists>ts. rg_List r = Inr ts \<and> distinct (map t_UDID ts)"
    and "\<And>r t. r \<in> set regs \<Longrightarrow> rg_Get r u = Inr t \<Longrightarrow> t_Kind t = TargetDevice"
  shows "\<exists>ts. Merged_List regs = Inr ts \<and> distinct (map t_UDID ts) \<and>
     find (\<lambda>t. t_UDID t = u) ts = (case Merged_Get regs u of Inl e \<Rightarrow> None | Inr t \<Rightarrow> Some t)"
proof -
  have "list_errors regs = []" using assms(2) unfolding list_errors_def by (force split: sum.splits)
  then have l: "Merged_List regs = Inr (dedupTargets (list_found regs))" by (simp add: Merged_List_def)
  have "t_Kind t = TargetDevice" if "t \<in> set (answers regs u)" for t
    using that assms(3) by (auto simp: answers_def split: sum.splits)
  then have "(case owner_from u [] regs of Inl e \<Rightarrow> None | Inr (r, t) \<Rightarrow> Some t) = overlay_all None (answers regs u)"
    by (rule owner_answers)
  moreover have "find (\<lambda>t. t_UDID t = u) (dedupTargets (list_found regs)) = overlay_all None (answers regs u)"
    using lookup_dedup [of u "[]" "list_found regs"] filter_found [OF assms(1,2), where u = u]
    by (simp add: lookup_def dedupTargets_def)
  moreover have "(case Merged_Get regs u of Inl e \<Rightarrow> None | Inr t \<Rightarrow> Some t) =
      (case owner_from u [] regs of Inl e \<Rightarrow> None | Inr (r, t) \<Rightarrow> Some t)"
    by (auto simp: Merged_Get_def owner_def split: sum.split)
  ultimately show ?thesis using l dedup_UDIDs [of "[]" "list_found regs"] by (simp add: dedupTargets_def)
qed

definition phone :: devicectl_device where
  "phone = \<lparr>dd_VisibilityClass = ''default'', dd_TunnelState = ''disconnected'', dd_Name = ''Ana'',
     dd_OSVersionNumber = ''26.5'', dd_UDID = ''D1'', dd_MarketingName = ''iPhone 17'', dd_ProductType = [],
     dd_Platform = ''iOS''\<rparr>"

definition one_mirror :: mirror_registry where
  "one_mirror = SetMirrors [''D1'' \<mapsto> ''/s''] NewMirror"

definition phone_regs :: "registry list" where
  "phone_regs = [DevicectlRegistry (Inr [phone]), MirrorRegistry 0 False (\<lambda>s. (''ready'', None)) [''D1''] one_mirror]"

definition lists_ok :: "registry \<Rightarrow> bool" where
  "lists_ok r \<longleftrightarrow> (case rg_List r of Inl e \<Rightarrow> False | Inr ts \<Rightarrow> distinct (map t_UDID ts))"

definition gets_device :: "string \<Rightarrow> registry \<Rightarrow> bool" where
  "gets_device u r \<longleftrightarrow> (case rg_Get r u of Inl e \<Rightarrow> True | Inr t \<Rightarrow> t_Kind t = TargetDevice)"

definition shown :: "reg_error + target \<Rightarrow> (string \<times> TargetState \<times> string list) option" where
  "shown r = (case r of Inl e \<Rightarrow> None | Inr t \<Rightarrow> Some (t_Name t, t_State t, t_Labels t))"

theorem merged_get_agrees_list_witness:
  "\<exists>ts t. Merged_List phone_regs = Inr ts \<and> find (\<lambda>t. t_UDID t = ''D1'') ts = Some t \<and>
     Merged_Get phone_regs ''D1'' = Inr t \<and> t_Name t = ''Ana'' \<and> t_State t = StateBooted \<and>
     t_Labels t = [''device'', ''ios26'', ''ios26.5'', ''iphone-17'', ''no-tunnel'', ''mirror'']"
proof -
  have src: "source r" if "r \<in> set phone_regs" for r
    using that devicectl.source_axioms mirror_source [of one_mirror "[''D1'']"]
    by (auto simp: phone_regs_def one_mirror_def SetMirrors_def NewMirror_def)
  have "list_all lists_ok phone_regs" by code_simp
  then have l: "\<exists>ts. rg_List r = Inr ts \<and> distinct (map t_UDID ts)" if "r \<in> set phone_regs" for r
    using that by (cases "rg_List r") (auto simp: list_all_iff lists_ok_def)
  have "list_all (gets_device ''D1'') phone_regs" by code_simp
  then have k: "t_Kind t = TargetDevice" if "r \<in> set phone_regs" "rg_Get r ''D1'' = Inr t" for r t
    using that by (auto simp: list_all_iff gets_device_def split: sum.splits)
  have "shown (Merged_Get phone_regs ''D1'') = Some (''Ana'', StateBooted,
      [''device'', ''ios26'', ''ios26.5'', ''iphone-17'', ''no-tunnel'', ''mirror''])" by code_simp
  then obtain t where "Merged_Get phone_regs ''D1'' = Inr t" "t_Name t = ''Ana''" "t_State t = StateBooted"
      "t_Labels t = [''device'', ''ios26'', ''ios26.5'', ''iphone-17'', ''no-tunnel'', ''mirror'']"
    by (auto simp: shown_def split: sum.splits)
  moreover have "\<exists>ts. Merged_List phone_regs = Inr ts \<and> distinct (map t_UDID ts) \<and>
     find (\<lambda>t. t_UDID t = ''D1'') ts = (case Merged_Get phone_regs ''D1'' of Inl e \<Rightarrow> None | Inr t \<Rightarrow> Some t)"
    by (rule merged_get_agrees_list) (use src l k in blast)+
  ultimately show ?thesis by auto
qed

lemma owner_from_not_found:
  assumes "owner_from u errs regs = Inl e" "is_not_found e" "\<not> list_ex is_not_found errs"
  shows "errs = [] \<and> (\<forall>r \<in> set regs. \<exists>e'. rg_Get r u = Inl e' \<and> is_not_found e')"
  using assms
proof (induction regs arbitrary: errs)
  case Nil
  then show ?case by (auto split: if_splits)
next
  case (Cons r regs)
  then obtain e' where e': "rg_Get r u = Inl e'" by (auto split: sum.splits)
  show ?case
  proof (cases "is_not_found e'")
    case True
    then show ?thesis using Cons.IH [of errs] Cons.prems e' by auto
  next
    case False
    then show ?thesis using Cons.IH [of "errs @ [e']"] Cons.prems e' by auto
  qed
qed

text \<open>
  A \<^verbatim>\<open>NotFoundError\<close> from the merged registry is definite: it is only returned when every source
  answered and none of them knows the UDID. A failing source turns the answer into its own
  failure, so callers that prune on not-found never act on a masked target.
\<close>

theorem merged_not_found_definite:
  assumes "Merged_Get regs u = Inl e" "is_not_found e"
  shows "e = NotFoundError u \<and> (\<forall>r \<in> set regs. \<exists>e'. rg_Get r u = Inl e' \<and> is_not_found e')"
proof -
  have o: "owner_from u [] regs = Inl e" using assms(1) by (auto simp: Merged_Get_def owner_def split: sum.splits)
  then have all: "\<forall>r \<in> set regs. \<exists>e'. rg_Get r u = Inl e' \<and> is_not_found e'"
    using owner_from_not_found [OF o assms(2)] by simp
  moreover from all have "owner_from u [] regs = Inl (NotFoundError u)"
    by (induction regs) auto
  ultimately show ?thesis using o by simp
qed

theorem merged_not_found_definite_witness:
  "Merged_Get phone_regs ''D9'' = Inl (NotFoundError ''D9'') \<and>
   (\<exists>e'. rg_Get (DevicectlRegistry (Inr [phone])) ''D9'' = Inl e' \<and> is_not_found e')"
proof -
  have "Merged_Get phone_regs ''D9'' = Inl (NotFoundError ''D9'')"
    by (simp add: Merged_Get_def owner_def phone_regs_def DevicectlRegistry_def Let_def get_by_list_def
        Devicectl_List_def devicectl_target_def phone_def plain_target_def MirrorRegistry_def Mirror_Get_def
        statusFor_def one_mirror_def SetMirrors_def NewMirror_def)
  then show ?thesis using merged_not_found_definite [of phone_regs "''D9''"] by (simp add: phone_regs_def)
qed

text \<open>
  A requirement in the human-readable form a target reports matches that target: when the
  runtime names an iOS version, every label \<^verbatim>\<open>RequirementLabels\<close> asks for is among the labels
  \<^verbatim>\<open>DeriveLabels\<close> gives the target.
\<close>

theorem requirement_met:
  assumes "runtimeVer runtime \<noteq> None"
  shows "set (RequirementLabels runtime deviceType) \<subseteq> set (DeriveLabels kind runtime deviceType)"
  using assms by (auto simp: RequirementLabels_def DeriveLabels_def split: option.splits if_splits)

theorem requirement_met_witness:
  "set (RequirementLabels ''iOS 26.5'' ''iPhone 17 Pro'') \<subseteq> set (DeriveLabels ''simulator'' ''iOS 26.5'' ''iPhone 17 Pro'') \<and>
   RequirementLabels ''iOS 26.5'' ''iPhone 17 Pro'' = [''ios26.5'', ''iphone-17-pro'']"
proof -
  have "runtimeVer ''iOS 26.5'' \<noteq> None" by code_simp
  moreover have "RequirementLabels ''iOS 26.5'' ''iPhone 17 Pro'' = [''ios26.5'', ''iphone-17-pro'']" by code_simp
  ultimately show ?thesis using requirement_met by blast
qed

text \<open>
  Without the iOS version the promise fails: for a runtime such as \<^verbatim>\<open>watchOS 11.0\<close> the requirement
  is the runtime's slug, a label that no target derived from that very runtime carries.
\<close>

theorem requirement_other_platform:
  "RequirementLabels ''watchOS 11.0'' [] = [''watchos-11.0''] \<and>
   ''watchos-11.0'' \<notin> set (DeriveLabels ''simulator'' ''watchOS 11.0'' ''Apple Watch'')"
proof
  show "RequirementLabels ''watchOS 11.0'' [] = [''watchos-11.0'']" by code_simp
  show "''watchos-11.0'' \<notin> set (DeriveLabels ''simulator'' ''watchOS 11.0'' ''Apple Watch'')" by code_simp
qed

end
