(* ===== verification/Mz_Lease.thy ===== *)
theory Mz_Lease
  imports Mz_Proto
begin

text \<open>
  The lease manager (\<^verbatim>\<open>internal/lease/lease.go\<close>, \<^verbatim>\<open>internal/lease/list.go\<close>): the state of
  \<^verbatim>\<open>Manager\<close> as a record and one definition per method, in the order of the source.

  A method of \<^verbatim>\<open>Manager\<close> is one critical section under \<^verbatim>\<open>m.mu\<close>, followed by the callbacks and the
  reset goroutines it starts after unlocking. Its model maps the state to an \<^emph>\<open>outcome\<close>: the state
  after the section, the callbacks fired (\<^verbatim>\<open>emit\<close> and the immediate \<^verbatim>\<open>onActive\<close>), the resets handed
  to \<^verbatim>\<open>startResets\<close> and the method's result. The instant \<open>now\<close> is what \<^verbatim>\<open>m.now()\<close> returns during
  the section. The methods that follow lease pointers read from maps return \<^const>\<open>None\<close> where the
  source would dereference nil.

  The source ranges over several of its maps. \<open>ord n\<close> is the order in which the \<open>n\<close>-th range
  statement of an execution visits its keys; the ghost field \<open>m_ranges\<close> counts the range statements
  executed so far, so that every one of them has an order of its own.
\<close>

section \<open>Constants and errors\<close>

definition DefaultTTL :: duration where "DefaultTTL = 300 * Second"
definition MaxTTL :: duration where "MaxTTL = 3600 * Second"
definition TerminalRetention :: duration where "TerminalRetention = 10 * Minute"
definition QueueWaitTTL :: duration where "QueueWaitTTL = 30 * Minute"
definition QueuePromoteLiveness :: duration where "QueuePromoteLiveness = 30 * Second"
definition DefaultRenewGrace :: duration where "DefaultRenewGrace = 2 * Minute"

text \<open>\<^verbatim>\<open>ErrNotActive\<close> carries the lease the methods return beside the error.\<close>

datatype lease_error = ErrNoMatch | ErrNotFound | ErrNotActive lease | ErrResetInFlight | ErrRegistry string

definition resetSentinel :: string where "resetSentinel = ''__resetting__''"
definition reserveSentinel :: string where "reserveSentinel = ''__reserved__''"

lemma sentinels_distinct [simp]: "resetSentinel \<noteq> reserveSentinel" "reserveSentinel \<noteq> resetSentinel"
  by (simp_all add: resetSentinel_def reserveSentinel_def)

section \<open>The manager's state\<close>

record manager =
  m_leases :: "string \<rightharpoonup> lease"
  m_targets :: "string \<rightharpoonup> target"
  m_byTarget :: "string \<rightharpoonup> string"
  m_queues :: "string \<rightharpoonup> string list"
  m_terminalAt :: "string \<rightharpoonup> instant"
  m_queueDeadline :: "string \<rightharpoonup> instant"
  m_queuePolled :: "string set"
  m_pendingResets :: "lease list"
  m_resetInFlight :: "string set"
  m_dirty :: "string set"
  m_takeoverHold :: "string set"
  m_preGrant :: "string \<rightharpoonup> string"
  m_grace :: duration
  m_resetFn :: bool      \<comment> \<open>\<^verbatim>\<open>resetFn != nil\<close>\<close>
  m_onActive :: bool     \<comment> \<open>\<^verbatim>\<open>onActive != nil\<close>\<close>
  m_onEvent :: bool      \<comment> \<open>\<^verbatim>\<open>onEvent != nil\<close>\<close>
  m_ranges :: nat        \<comment> \<open>ghost: range statements executed\<close>

type_synonym orders = "nat \<Rightarrow> string list"

definition newManager :: "bool \<Rightarrow> manager" where
  "newManager onEvent =
     \<lparr>m_leases = Map.empty, m_targets = Map.empty, m_byTarget = Map.empty, m_queues = Map.empty,
      m_terminalAt = Map.empty, m_queueDeadline = Map.empty, m_queuePolled = {},
      m_pendingResets = [], m_resetInFlight = {}, m_dirty = {}, m_takeoverHold = {},
      m_preGrant = Map.empty, m_grace = DefaultRenewGrace, m_resetFn = False, m_onActive = False,
      m_onEvent = onEvent, m_ranges = 0\<rparr>"

definition SetOnActive :: "bool \<Rightarrow> manager \<Rightarrow> manager" where
  "SetOnActive fn s = s\<lparr>m_onActive := fn\<rparr>"

definition SetRenewGrace :: "duration \<Rightarrow> manager \<Rightarrow> manager" where
  "SetRenewGrace d s = s\<lparr>m_grace := (if d < 0 then 0 else d)\<rparr>"

definition SetResetFunc :: "bool \<Rightarrow> manager \<Rightarrow> manager" where
  "SetResetFunc fn s = s\<lparr>m_resetFn := fn\<rparr>"

text \<open>Writing through a lease pointer: the entry of the lease's own ID.\<close>

definition put_lease :: "lease \<Rightarrow> manager \<Rightarrow> manager" where
  "put_lease l s = s\<lparr>m_leases := (m_leases s)(l_ID l \<mapsto> l)\<rparr>"

definition DropReset :: "string \<Rightarrow> manager \<Rightarrow> manager" where
  "DropReset lid s = (case m_leases s lid of
      Some l \<Rightarrow> s\<lparr>m_leases := (m_leases s)(lid \<mapsto> l\<lparr>l_Reset := []\<rparr>)\<rparr>
    | None \<Rightarrow> s)"

definition needsResetLocked :: "manager \<Rightarrow> lease \<Rightarrow> bool" where
  "needsResetLocked s l \<longleftrightarrow> m_resetFn s \<and> l_Reset l \<noteq> [] \<and> l_Reset l \<noteq> ''none'' \<and> l_TargetUDID l \<noteq> []"

section \<open>Callbacks, resets and outcomes\<close>

datatype callback = OnActive lease | OnEvent lease

definition emit :: "manager \<Rightarrow> lease list \<Rightarrow> callback list" where
  "emit s events = concat (map (\<lambda>e.
      (if l_State e = LeaseActive \<and> l_GraceUntil e = None \<and> m_onActive s then [OnActive e] else []) @
      (if m_onEvent s then [OnEvent e] else [])) events)"

record 'r outcome =
  o_state :: manager
  o_calls :: "callback list"
  o_resets :: "lease list"
  o_result :: 'r

text \<open>
  The deferred function most methods end with: drain the pending resets, unlock, emit the events,
  start the resets.
\<close>

definition settle :: "manager \<Rightarrow> lease list \<Rightarrow> 'r \<Rightarrow> 'r outcome" where
  "settle s events r = \<lparr>o_state = s\<lparr>m_pendingResets := []\<rparr>, o_calls = emit s events,
     o_resets = m_pendingResets s, o_result = r\<rparr>"

section \<open>Keys, matching and TTLs\<close>

definition hex_digit :: "nat \<Rightarrow> char" where
  "hex_digit n = (''0123456789abcdef'' ! (n mod 16))"

definition hex_byte :: "8 word \<Rightarrow> string" where
  "hex_byte b = [hex_digit (unat b div 16), hex_digit (unat b mod 16)]"

definition newID :: "8 word list \<Rightarrow> string" where
  "newID rnd = ''lse_'' @ concat (map hex_byte rnd)"

definition queueKey :: "string list \<Rightarrow> string \<Rightarrow> string" where
  "queueKey labels udid =
     (let key = strings_Join (sort labels) '','' in
      if udid \<noteq> [] then key @ ''|udid='' @ udid else key)"

definition leaseQueueKey :: "lease \<Rightarrow> string" where
  "leaseQueueKey l = queueKey (l_Labels l) (l_RequestedUDID l)"

definition label_match :: "target \<Rightarrow> string list \<Rightarrow> bool" where
  "label_match t labels = list_all (\<lambda>l. l \<in> set (t_Labels t)) labels"

definition matchesRequest :: "target \<Rightarrow> string list \<Rightarrow> string \<Rightarrow> bool" where
  "matchesRequest t labels udid =
     (if udid \<noteq> [] \<and> t_UDID t \<noteq> udid then False else label_match t labels)"

definition clampTTL :: "int \<Rightarrow> duration" where
  "clampTTL seconds =
     (if seconds \<le> 0 then DefaultTTL
      else if seconds > MaxTTL div Second then MaxTTL
      else seconds * Second)"

text \<open>\<^verbatim>\<open>int(d.Seconds())\<close>: whole seconds, truncated towards zero.\<close>

definition whole_seconds :: "duration \<Rightarrow> int" where
  "whole_seconds d = sgn d * (\<bar>d\<bar> div Second)"

definition queue_of :: "manager \<Rightarrow> string \<Rightarrow> string list" where
  "queue_of s key = (case m_queues s key of None \<Rightarrow> [] | Some q \<Rightarrow> q)"

text \<open>Storing a shortened queue: an empty queue's key is deleted.\<close>

definition set_queue :: "string \<Rightarrow> string list \<Rightarrow> manager \<Rightarrow> manager" where
  "set_queue key q s = s\<lparr>m_queues := (m_queues s)(key := (if q = [] then None else Some q))\<rparr>"

fun index_of :: "'a \<Rightarrow> 'a list \<Rightarrow> nat option" where
  "index_of x [] = None"
| "index_of x (y # ys) = (if y = x then Some 0 else map_option Suc (index_of x ys))"

definition queuePositionLocked :: "manager \<Rightarrow> lease \<Rightarrow> nat" where
  "queuePositionLocked s l =
     (case index_of (l_ID l) (queue_of s (leaseQueueKey l)) of None \<Rightarrow> 0 | Some i \<Rightarrow> Suc i)"

definition removeFromQueueLocked :: "lease \<Rightarrow> manager \<Rightarrow> manager" where
  "removeFromQueueLocked l s =
     (let s1 = s\<lparr>m_preGrant := (m_preGrant s)(l_ID l := None)\<rparr>;
          key = leaseQueueKey l;
          q = queue_of s key
      in set_queue key (case index_of (l_ID l) q of None \<Rightarrow> q | Some i \<Rightarrow> remove_at i q) s1)"

definition viewLocked :: "instant \<Rightarrow> lease \<Rightarrow> lease" where
  "viewLocked now l =
     (case l_ExpiresAt l of
        Some e \<Rightarrow> if l_State l = LeaseActive
                  then l\<lparr>l_ExpiresInSeconds := Some (whole_seconds (e - now))\<rparr> else l
      | None \<Rightarrow> l)"

definition clearPause :: "lease \<Rightarrow> lease" where
  "clearPause l = l\<lparr>l_Paused := False, l_PausedAt := None, l_PausedReason := []\<rparr>"

section \<open>Pre-grant erases and queue liveness\<close>

definition preGrantEraseNeededLocked :: "manager \<Rightarrow> lease \<Rightarrow> string \<Rightarrow> bool" where
  "preGrantEraseNeededLocked s l udid \<longleftrightarrow> m_resetFn s \<and> l_Reset l = ''erase'' \<and> udid \<in> m_dirty s"

definition startPreGrantEraseLocked :: "lease \<Rightarrow> string \<Rightarrow> manager \<Rightarrow> manager" where
  "startPreGrantEraseLocked l udid s =
     s\<lparr>m_byTarget := (m_byTarget s)(udid \<mapsto> resetSentinel),
       m_resetInFlight := insert udid (m_resetInFlight s),
       m_preGrant := (m_preGrant s)(l_ID l \<mapsto> udid),
       m_pendingResets := m_pendingResets s @ [l\<lparr>l_TargetUDID := udid, l_Reset := ''erase''\<rparr>]\<rparr>"

definition queueOwnerSilentLocked :: "instant \<Rightarrow> manager \<Rightarrow> string \<Rightarrow> bool" where
  "queueOwnerSilentLocked now s lid =
     (if lid \<notin> m_queuePolled s then False
      else case m_queueDeadline s lid of
        None \<Rightarrow> False
      | Some deadline \<Rightarrow> now - (deadline - QueueWaitTTL) > QueuePromoteLiveness)"

section \<open>Promotion\<close>

text \<open>A queued lease leaves the queue at index \<open>i\<close>: the queue entry and its wait bookkeeping go.\<close>

definition dequeue_at :: "string \<Rightarrow> nat \<Rightarrow> string \<Rightarrow> manager \<Rightarrow> manager" where
  "dequeue_at key i lid s =
     (set_queue key (remove_at i (queue_of s key)) s)
       \<lparr>m_queueDeadline := (m_queueDeadline s)(lid := None),
        m_queuePolled := m_queuePolled s - {lid}\<rparr>"

definition expire_silent :: "instant \<Rightarrow> string \<Rightarrow> nat \<Rightarrow> lease \<Rightarrow> manager \<Rightarrow> manager" where
  "expire_silent now key i l s =
     (let lid = l_ID l; s1 = dequeue_at key i lid s in
      put_lease (l\<lparr>l_State := LeaseExpired\<rparr>)
        (s1\<lparr>m_preGrant := (m_preGrant s1)(lid := None),
            m_terminalAt := (m_terminalAt s1)(lid \<mapsto> now)\<rparr>))"

definition granted_lease :: "instant \<Rightarrow> string \<Rightarrow> lease \<Rightarrow> lease" where
  "granted_lease now udid l =
     l\<lparr>l_State := LeaseActive, l_TargetUDID := udid, l_QueuePosition := 0,
       l_ExpiresAt := Some (now + clampTTL (l_TTLSeconds l)), l_GraceUntil := None\<rparr>"

definition grant_queued :: "instant \<Rightarrow> string \<Rightarrow> nat \<Rightarrow> string \<Rightarrow> lease \<Rightarrow> manager \<Rightarrow> manager" where
  "grant_queued now key i udid l s =
     (let s1 = dequeue_at key i (l_ID l) s in
      put_lease (granted_lease now udid l)
        (s1\<lparr>m_byTarget := (m_byTarget s1)(udid \<mapsto> l_ID l), m_dirty := insert udid (m_dirty s1)\<rparr>))"

lemma queue_of_set_queue [simp]:
  "queue_of (set_queue key q s) k = (if k = key then q else queue_of s k)"
  by (simp add: queue_of_def set_queue_def)

lemma queue_of_more [simp]:
  "queue_of (s\<lparr>m_queueDeadline := a\<rparr>) k = queue_of s k"
  "queue_of (s\<lparr>m_queuePolled := b\<rparr>) k = queue_of s k"
  "queue_of (s\<lparr>m_preGrant := c\<rparr>) k = queue_of s k"
  "queue_of (s\<lparr>m_terminalAt := d\<rparr>) k = queue_of s k"
  "queue_of (s\<lparr>m_leases := e\<rparr>) k = queue_of s k"
  "queue_of (s\<lparr>m_byTarget := f\<rparr>) k = queue_of s k"
  "queue_of (s\<lparr>m_dirty := g\<rparr>) k = queue_of s k"
  "queue_of (put_lease l s) k = queue_of s k"
  by (simp_all add: queue_of_def put_lease_def)

lemma queue_of_dequeue_at [simp]:
  "queue_of (dequeue_at key i lid s) k =
     (if k = key then remove_at i (queue_of s key) else queue_of s k)"
  by (simp add: dequeue_at_def)

lemma queue_of_expire_silent [simp]:
  "queue_of (expire_silent now key i l s) k =
     (if k = key then remove_at i (queue_of s key) else queue_of s k)"
  by (simp add: expire_silent_def Let_def)

text \<open>
  The inner loop of \<^verbatim>\<open>promoteLocked\<close> over one queue, from index \<open>i\<close>. The flag of the result tells
  whether the method returned from inside the loop (a grant, or a pre-grant erase started).
\<close>

function promoteQueue ::
  "instant \<Rightarrow> target \<Rightarrow> string \<Rightarrow> string \<Rightarrow> nat \<Rightarrow> manager \<Rightarrow> lease list \<Rightarrow> (manager \<times> lease list \<times> bool) option"
where
  "promoteQueue now tgt udid key i s events =
     (if i < length (queue_of s key) then
        (case m_leases s (queue_of s key ! i) of
           None \<Rightarrow> None
         | Some l \<Rightarrow>
             if \<not> matchesRequest tgt (l_Labels l) (l_RequestedUDID l)
             then promoteQueue now tgt udid key (Suc i) s events
             else if l_Reset l \<noteq> [] \<and> l_Reset l \<noteq> ''none'' \<and> t_Kind tgt = TargetDevice
             then promoteQueue now tgt udid key (Suc i) s events
             else if queueOwnerSilentLocked now s (queue_of s key ! i)
             then promoteQueue now tgt udid key i (expire_silent now key i l s)
                    (events @ [l\<lparr>l_State := LeaseExpired\<rparr>])
             else if preGrantEraseNeededLocked s l udid
             then (if m_preGrant s (l_ID l) \<noteq> None
                   then promoteQueue now tgt udid key (Suc i) s events
                   else Some (startPreGrantEraseLocked l udid s, events, True))
             else Some (grant_queued now key i udid l s, events @ [granted_lease now udid l], True))
      else Some (s, events, False))"
  by pat_completeness auto
termination
  by (relation "measure (\<lambda>(now, tgt, udid, key, i, s, events). length (queue_of s key) - i)") auto

declare promoteQueue.simps [simp del]

text \<open>The outer loop over the queues, in the order a range statement visits them.\<close>

fun promoteQueues ::
  "instant \<Rightarrow> target \<Rightarrow> string \<Rightarrow> string list \<Rightarrow> manager \<Rightarrow> lease list \<Rightarrow> (manager \<times> lease list) option"
where
  "promoteQueues now tgt udid [] s events = Some (s, events)"
| "promoteQueues now tgt udid (key # keys) s events =
     (case promoteQueue now tgt udid key 0 s events of
        None \<Rightarrow> None
      | Some (s', events', stop) \<Rightarrow>
          if stop then Some (s', events') else promoteQueues now tgt udid keys s' events')"

definition promoteLocked ::
  "orders \<Rightarrow> instant \<Rightarrow> string \<Rightarrow> manager \<Rightarrow> (manager \<times> lease list) option"
where
  "promoteLocked ord now udid s =
     (case m_targets s udid of
        None \<Rightarrow> Some (s, [])
      | Some tgt \<Rightarrow>
          promoteQueues now tgt udid (range_over (m_queues s) (ord (m_ranges s)))
            (s\<lparr>m_ranges := Suc (m_ranges s)\<rparr>) [])"

section \<open>Expiry\<close>

type_synonym pass = "manager \<times> lease list"

text \<open>First pass: queued leases whose abandonment deadline has passed.\<close>

definition expire_queued :: "instant \<Rightarrow> string \<Rightarrow> pass \<Rightarrow> pass option" where
  "expire_queued now lid p =
     (case p of (s, events) \<Rightarrow>
      (case m_queueDeadline s lid of
         None \<Rightarrow> Some (s, events)
       | Some deadline \<Rightarrow>
           if \<not> now > deadline then Some (s, events)
           else (case m_leases s lid of
               None \<Rightarrow> None
             | Some l \<Rightarrow>
                 let s1 = removeFromQueueLocked l s;
                     l' = l\<lparr>l_State := LeaseExpired\<rparr>
                 in Some (s1\<lparr>m_queueDeadline := (m_queueDeadline s1)(lid := None),
                             m_queuePolled := m_queuePolled s1 - {lid},
                             m_leases := (m_leases s1)(lid \<mapsto> l'),
                             m_terminalAt := (m_terminalAt s1)(lid \<mapsto> now)\<rparr>,
                          events @ [l']))))"

text \<open>
  Second pass, one active lease past its nominal expiry: it enters the grace window (once), stays
  active inside the window, and expires when the window has closed.
\<close>

definition enter_grace :: "manager \<Rightarrow> instant \<Rightarrow> lease \<Rightarrow> lease" where
  "enter_grace s e l =
     (if m_grace s > 0 \<and> l_GraceUntil l = None then l\<lparr>l_GraceUntil := Some (e + m_grace s)\<rparr> else l)"

definition grace_open :: "manager \<Rightarrow> instant \<Rightarrow> lease \<Rightarrow> bool" where
  "grace_open s now l \<longleftrightarrow> m_grace s > 0 \<and> (case l_GraceUntil l of None \<Rightarrow> True | Some g \<Rightarrow> \<not> now > g)"

definition end_active :: "instant \<Rightarrow> LeaseState \<Rightarrow> lease \<Rightarrow> manager \<Rightarrow> manager" where
  "end_active now st l s =
     put_lease ((clearPause l)\<lparr>l_State := st\<rparr>)
       (s\<lparr>m_byTarget := (m_byTarget s)(l_TargetUDID l := None),
          m_terminalAt := (m_terminalAt s)(l_ID l \<mapsto> now)\<rparr>)"

definition hold_for_reset :: "lease \<Rightarrow> manager \<Rightarrow> manager" where
  "hold_for_reset l s =
     s\<lparr>m_byTarget := (m_byTarget s)(l_TargetUDID l \<mapsto> resetSentinel),
       m_resetInFlight := insert (l_TargetUDID l) (m_resetInFlight s)\<rparr>"

definition expire_active :: "orders \<Rightarrow> instant \<Rightarrow> string \<Rightarrow> pass \<Rightarrow> pass option" where
  "expire_active ord now lid p =
     (case p of (s, events) \<Rightarrow>
      (case m_leases s lid of
         None \<Rightarrow> Some (s, events)
       | Some l0 \<Rightarrow>
         (case l_ExpiresAt l0 of
            None \<Rightarrow> Some (s, events)
          | Some e \<Rightarrow>
            if l_State l0 \<noteq> LeaseActive \<or> \<not> now > e then Some (s, events)
            else
              let l = enter_grace s e l0;
                  s1 = put_lease l s;
                  ev1 = (if m_grace s > 0 \<and> l_GraceUntil l0 = None then events @ [l] else events)
              in if grace_open s1 now l then Some (s1, ev1)
                 else
                   let l' = (clearPause l)\<lparr>l_State := LeaseExpired\<rparr>;
                       s2 = end_active now LeaseExpired l s1;
                       ev2 = ev1 @ [l']
                   in if needsResetLocked s2 l'
                      then Some ((hold_for_reset l' s2)\<lparr>m_pendingResets := m_pendingResets s2 @ [l']\<rparr>, ev2)
                      else (case promoteLocked ord now (l_TargetUDID l') s2 of
                              None \<Rightarrow> None
                            | Some (s3, granted) \<Rightarrow> Some (s3, ev2 @ granted)))))"

text \<open>Third pass: terminal leases past their retention are collected.\<close>

definition collect_terminal :: "instant \<Rightarrow> string \<Rightarrow> manager \<Rightarrow> manager" where
  "collect_terminal now lid s =
     (case m_terminalAt s lid of
        None \<Rightarrow> s
      | Some at \<Rightarrow>
          if now - at > TerminalRetention
          then s\<lparr>m_terminalAt := (m_terminalAt s)(lid := None), m_leases := (m_leases s)(lid := None)\<rparr>
          else s)"

definition next_range :: "manager \<Rightarrow> manager" where
  "next_range s = s\<lparr>m_ranges := Suc (m_ranges s)\<rparr>"

definition expireLocked :: "orders \<Rightarrow> instant \<Rightarrow> manager \<Rightarrow> pass option" where
  "expireLocked ord now s = do {
     (s1, ev1) \<leftarrow> foldM (expire_queued now) (range_over (m_queueDeadline s) (ord (m_ranges s)))
                    (next_range s, []);
     (s2, ev2) \<leftarrow> foldM (expire_active ord now) (range_over (m_leases s1) (ord (m_ranges s1)))
                    (next_range s1, ev1);
     Some (fold (collect_terminal now) (range_over (m_terminalAt s2) (ord (m_ranges s2)))
             (next_range s2), ev2)
   }"

section \<open>Acquire\<close>

text \<open>Offering free targets to the queued leases, in listing order.\<close>

definition offer_target :: "orders \<Rightarrow> instant \<Rightarrow> target \<Rightarrow> pass \<Rightarrow> pass option" where
  "offer_target ord now t p =
     (case p of (s, pending) \<Rightarrow>
        if m_byTarget s (t_UDID t) \<noteq> None then Some (s, pending)
        else (case promoteLocked ord now (t_UDID t) s of
                None \<Rightarrow> None
              | Some (s', granted) \<Rightarrow> Some (s', pending @ granted)))"

text \<open>The scan for a free target: the choice so far and whether any target matched.\<close>

definition scan_target :: "manager \<Rightarrow> acquire_req \<Rightarrow> target \<Rightarrow> target option \<times> bool \<Rightarrow> target option \<times> bool" where
  "scan_target s req t acc =
     (case acc of (free, anyMatch) \<Rightarrow>
        if \<not> matchesRequest t (r_Labels req) (r_UDID req) then (free, anyMatch)
        else if r_Reset req \<noteq> [] \<and> r_Reset req \<noteq> ''none'' \<and> t_Kind t = TargetDevice then (free, anyMatch)
        else if m_byTarget s (t_UDID t) \<noteq> None then (free, True)
        else (case free of
                None \<Rightarrow> (Some t, True)
              | Some f \<Rightarrow>
                  if r_Reset req = ''erase'' \<and> t_UDID f \<in> m_dirty s \<and> t_UDID t \<notin> m_dirty s
                  then (Some t, True) else (Some f, True)))"

definition scan_targets :: "manager \<Rightarrow> acquire_req \<Rightarrow> target list \<Rightarrow> target option \<times> bool" where
  "scan_targets s req ts = fold (scan_target s req) ts (None, False)"

definition new_lease :: "instant \<Rightarrow> string \<Rightarrow> acquire_req \<Rightarrow> lease" where
  "new_lease now lid req =
     \<lparr>l_ID = lid, l_TargetUDID = [], l_Labels = r_Labels req, l_State = LeaseUnset,
      l_AgentID = r_AgentID req, l_Purpose = r_Purpose req,
      l_TTLSeconds = whole_seconds (clampTTL (r_TTLSeconds req)), l_ExpiresAt = None,
      l_GraceUntil = None, l_ExpiresInSeconds = None, l_QueuePosition = 0, l_CreatedAt = now,
      l_Reset = r_Reset req, l_RequestedUDID = r_UDID req, l_Record = r_Record req,
      l_Paused = False, l_PausedAt = None, l_PausedReason = [], l_Host = [], l_HostAddr = []\<rparr>"

definition grant_now :: "instant \<Rightarrow> duration \<Rightarrow> string \<Rightarrow> lease \<Rightarrow> manager \<Rightarrow> manager \<times> lease" where
  "grant_now now ttl udid l s =
     (let l' = l\<lparr>l_State := LeaseActive, l_TargetUDID := udid, l_ExpiresAt := Some (now + ttl)\<rparr> in
      (put_lease l' (s\<lparr>m_byTarget := (m_byTarget s)(udid \<mapsto> l_ID l), m_dirty := insert udid (m_dirty s)\<rparr>), l'))"

definition enqueue_new :: "instant \<Rightarrow> lease \<Rightarrow> manager \<Rightarrow> manager \<times> lease" where
  "enqueue_new now l s =
     (let key = leaseQueueKey l;
          q = queue_of s key @ [l_ID l];
          l' = l\<lparr>l_State := LeaseQueued, l_QueuePosition := length q\<rparr> in
      (put_lease l' (s\<lparr>m_queues := (m_queues s)(key \<mapsto> q),
                       m_queueDeadline := (m_queueDeadline s)(l_ID l \<mapsto> now + QueueWaitTTL)\<rparr>), l'))"

text \<open>The decision of \<^verbatim>\<open>Acquire\<close> once the free targets have been offered to the queues.\<close>

definition acquire_decide ::
  "instant \<Rightarrow> string \<Rightarrow> acquire_req \<Rightarrow> target list \<Rightarrow> manager \<Rightarrow> manager \<times> lease option \<times> (lease_error + lease)"
where
  "acquire_decide now lid req targets s =
     (case scan_targets s req targets of (free0, anyMatch) \<Rightarrow>
      if \<not> anyMatch then (s, None, Inl ErrNoMatch)
      else
        let free1 = (if queue_of s (queueKey (r_Labels req) (r_UDID req)) \<noteq> [] then None else free0);
            l = new_lease now lid req
        in (case free1 of
              None \<Rightarrow> (case enqueue_new now l s of (s', l') \<Rightarrow> (s', None, Inr (viewLocked now l')))
            | Some f \<Rightarrow>
                if preGrantEraseNeededLocked s l (t_UDID f)
                then (case enqueue_new now l (startPreGrantEraseLocked l (t_UDID f) s) of
                        (s', l') \<Rightarrow> (s', None, Inr (viewLocked now l')))
                else (case grant_now now (clampTTL (r_TTLSeconds req)) (t_UDID f) l s of
                        (s', l') \<Rightarrow> (s', Some l', Inr (viewLocked now l')))))"

definition target_table :: "target list \<Rightarrow> string \<rightharpoonup> target" where
  "target_table ts = foldl (\<lambda>m t. m(t_UDID t \<mapsto> t)) Map.empty ts"

definition Acquire ::
  "orders \<Rightarrow> instant \<Rightarrow> 8 word list \<Rightarrow> (string + target list) \<Rightarrow> acquire_req \<Rightarrow> manager
   \<Rightarrow> (lease_error + lease) outcome option"
where
  "Acquire ord now rnd listing req s =
     (case listing of
        Inl err \<Rightarrow> Some \<lparr>o_state = s, o_calls = [], o_resets = [], o_result = Inl (ErrRegistry err)\<rparr>
      | Inr targets \<Rightarrow> do {
          (s1, pending1) \<leftarrow> expireLocked ord now (s\<lparr>m_targets := target_table targets\<rparr>);
          (s2, pending) \<leftarrow> foldM (offer_target ord now) targets (s1, pending1);
          let (s3, grantedNow, result) = acquire_decide now (newID rnd) req targets s2;
              out = settle s3 pending result
          in Some (out\<lparr>o_calls :=
                 (case grantedNow of Some l \<Rightarrow> if m_onActive s3 then [OnActive l] else [] | None \<Rightarrow> [])
                 @ o_calls out\<rparr>)
        })"

section \<open>Reading and changing one lease\<close>

definition Get :: "orders \<Rightarrow> instant \<Rightarrow> string \<Rightarrow> manager \<Rightarrow> (lease_error + lease) outcome option" where
  "Get ord now lid s = do {
     (s1, pending) \<leftarrow> expireLocked ord now s;
     (case m_leases s1 lid of
        None \<Rightarrow> Some (settle s1 pending (Inl ErrNotFound))
      | Some l \<Rightarrow>
          if l_State l = LeaseQueued then
            let l' = l\<lparr>l_QueuePosition := queuePositionLocked s1 l\<rparr>;
                s2 = (put_lease l' s1)
                       \<lparr>m_queueDeadline := (m_queueDeadline s1)(l_ID l \<mapsto> now + QueueWaitTTL),
                        m_queuePolled := insert (l_ID l) (m_queuePolled s1)\<rparr>
            in Some (settle s2 pending (Inr (viewLocked now l')))
          else Some (settle s1 pending (Inr (viewLocked now l))))
   }"

definition Peek :: "string \<Rightarrow> manager \<Rightarrow> lease_error + lease" where
  "Peek lid s = (case m_leases s lid of None \<Rightarrow> Inl ErrNotFound | Some l \<Rightarrow> Inr l)"

text \<open>The common shape of the methods that change an active lease in place.\<close>

definition with_active ::
  "orders \<Rightarrow> instant \<Rightarrow> string \<Rightarrow> (lease \<Rightarrow> lease) \<Rightarrow> manager \<Rightarrow> (lease_error + lease) outcome option"
where
  "with_active ord now lid f s = do {
     (s1, pending) \<leftarrow> expireLocked ord now s;
     (case m_leases s1 lid of
        None \<Rightarrow> Some (settle s1 pending (Inl ErrNotFound))
      | Some l \<Rightarrow>
          if l_State l \<noteq> LeaseActive then Some (settle s1 pending (Inl (ErrNotActive l)))
          else Some (settle (put_lease (f l) s1) pending (Inr (viewLocked now (f l)))))
   }"

definition renewed :: "instant \<Rightarrow> int \<Rightarrow> lease \<Rightarrow> lease" where
  "renewed now ttlSeconds l =
     (let ttl = (if ttlSeconds \<le> 0 then clampTTL (l_TTLSeconds l) else clampTTL ttlSeconds) in
      l\<lparr>l_TTLSeconds := whole_seconds ttl, l_ExpiresAt := Some (now + ttl), l_GraceUntil := None\<rparr>)"

definition Renew :: "orders \<Rightarrow> instant \<Rightarrow> string \<Rightarrow> int \<Rightarrow> manager \<Rightarrow> (lease_error + lease) outcome option" where
  "Renew ord now lid ttlSeconds = with_active ord now lid (renewed now ttlSeconds)"

definition paused :: "instant \<Rightarrow> string \<Rightarrow> lease \<Rightarrow> lease" where
  "paused now reason l =
     (let l1 = (if l_Paused l then l else l\<lparr>l_Paused := True, l_PausedAt := Some now\<rparr>) in
      if reason \<noteq> [] then l1\<lparr>l_PausedReason := reason\<rparr> else l1)"

definition Pause :: "orders \<Rightarrow> instant \<Rightarrow> string \<Rightarrow> string \<Rightarrow> manager \<Rightarrow> (lease_error + lease) outcome option" where
  "Pause ord now lid reason = with_active ord now lid (paused now reason)"

definition Resume :: "orders \<Rightarrow> instant \<Rightarrow> string \<Rightarrow> manager \<Rightarrow> (lease_error + lease) outcome option" where
  "Resume ord now lid = with_active ord now lid clearPause"

section \<open>Release\<close>

definition release_queued :: "instant \<Rightarrow> lease \<Rightarrow> manager \<Rightarrow> manager" where
  "release_queued now l s =
     (let s1 = removeFromQueueLocked l s in
      put_lease (l\<lparr>l_State := LeaseReleased\<rparr>)
        (s1\<lparr>m_queueDeadline := (m_queueDeadline s1)(l_ID l := None),
            m_queuePolled := m_queuePolled s1 - {l_ID l},
            m_terminalAt := (m_terminalAt s1)(l_ID l \<mapsto> now)\<rparr>))"

definition Release :: "orders \<Rightarrow> instant \<Rightarrow> string \<Rightarrow> manager \<Rightarrow> (lease_error + lease) outcome option" where
  "Release ord now lid s = do {
     (s1, granted) \<leftarrow> expireLocked ord now s;
     (case m_leases s1 lid of
        None \<Rightarrow> Some (settle s1 granted (Inl ErrNotFound))
      | Some l \<Rightarrow>
          (case l_State l of
             LeaseActive \<Rightarrow>
               let l' = (clearPause l)\<lparr>l_State := LeaseReleased\<rparr>;
                   s2 = end_active now LeaseReleased l s1
               in if needsResetLocked s2 l'
                  then let out = settle (hold_for_reset l' s2) granted (Inr l')
                       in Some (out\<lparr>o_resets := l' # o_resets out\<rparr>)
                  else do {
                    (s3, more) \<leftarrow> promoteLocked ord now (l_TargetUDID l') s2;
                    Some (settle s3 (granted @ more) (Inr l'))
                  }
           | LeaseQueued \<Rightarrow>
               Some (settle (release_queued now l s1) granted (Inr (l\<lparr>l_State := LeaseReleased\<rparr>)))
           | _ \<Rightarrow> Some (settle s1 granted (Inr l))))
   }"

section \<open>Looking leases up\<close>

definition Active :: "orders \<Rightarrow> instant \<Rightarrow> string \<Rightarrow> manager \<Rightarrow> lease option outcome option" where
  "Active ord now udid s = do {
     (s1, pending) \<leftarrow> expireLocked ord now s;
     (case m_byTarget s1 udid of
        None \<Rightarrow> Some (settle s1 pending None)
      | Some lid \<Rightarrow>
          if lid = resetSentinel \<or> lid = reserveSentinel then Some (settle s1 pending None)
          else (case m_leases s1 lid of
                  None \<Rightarrow> None
                | Some l \<Rightarrow> Some (settle s1 pending (Some l))))
   }"

definition ActiveCount :: "string list \<Rightarrow> manager \<Rightarrow> nat" where
  "ActiveCount ks s =
     length (filter (\<lambda>lid. case m_leases s lid of Some l \<Rightarrow> l_State l = LeaseActive | None \<Rightarrow> False)
       (range_over (m_leases s) ks))"

definition QueuedCount :: "string list \<Rightarrow> manager \<Rightarrow> nat" where
  "QueuedCount ks s = sum_list (map (\<lambda>key. length (queue_of s key)) (range_over (m_queues s) ks))"

definition ExpireNow :: "orders \<Rightarrow> instant \<Rightarrow> manager \<Rightarrow> unit outcome option" where
  "ExpireNow ord now s = do { (s1, granted) \<leftarrow> expireLocked ord now s; Some (settle s1 granted ()) }"

definition List_view :: "manager \<Rightarrow> instant \<Rightarrow> string \<Rightarrow> lease list" where
  "List_view s now lid = (case m_leases s lid of
      None \<Rightarrow> []
    | Some l \<Rightarrow> [viewLocked now (l\<lparr>l_QueuePosition :=
          (if l_State l = LeaseQueued then queuePositionLocked s l else 0)\<rparr>)])"

definition List_leases :: "orders \<Rightarrow> instant \<Rightarrow> manager \<Rightarrow> lease list outcome option" where
  "List_leases ord now s = do {
     (s1, pending) \<leftarrow> expireLocked ord now s;
     let ids = range_over (m_leases s1) (ord (m_ranges s1))
     in Some (settle (next_range s1) pending
          (sort_key (\<lambda>l. - l_CreatedAt l) (concat (map (List_view s1 now) ids))))
   }"

section \<open>Resets, reservations and quarantine\<close>

definition FinishReset :: "orders \<Rightarrow> instant \<Rightarrow> string \<Rightarrow> manager \<Rightarrow> bool outcome option" where
  "FinishReset ord now udid s =
     (if m_byTarget s udid \<noteq> Some resetSentinel
      then Some \<lparr>o_state = s, o_calls = [], o_resets = [], o_result = False\<rparr>
      else do {
        (s1, granted) \<leftarrow> promoteLocked ord now udid (s\<lparr>m_byTarget := (m_byTarget s)(udid := None)\<rparr>);
        Some (settle s1 granted True)
      })"

text \<open>The first critical section of a reset goroutine, after \<^verbatim>\<open>resetFn\<close> returned.\<close>

definition reset_returned :: "lease \<Rightarrow> bool \<Rightarrow> manager \<Rightarrow> manager" where
  "reset_returned l ok s =
     s\<lparr>m_resetInFlight := m_resetInFlight s - {l_TargetUDID l},
       m_preGrant := (m_preGrant s)(l_ID l := None),
       m_dirty := (if ok then m_dirty s - {l_TargetUDID l} else m_dirty s)\<rparr>"

text \<open>A reset goroutine run to its end without interleaving.\<close>

definition startReset :: "orders \<Rightarrow> instant \<Rightarrow> lease \<Rightarrow> bool \<Rightarrow> manager \<Rightarrow> bool outcome option" where
  "startReset ord now l ok s =
     (if ok then FinishReset ord now (l_TargetUDID l) (reset_returned l ok s)
      else Some \<lparr>o_state = reset_returned l ok s, o_calls = [], o_resets = [], o_result = False\<rparr>)"

text \<open>\<^verbatim>\<open>ClearQuarantine\<close> checks in one critical section and frees in another (\<^verbatim>\<open>FinishReset\<close>).\<close>

definition clear_check :: "string \<Rightarrow> manager \<Rightarrow> bool" where
  "clear_check udid s \<longleftrightarrow> udid \<notin> m_resetInFlight s"

definition ClearQuarantine :: "orders \<Rightarrow> instant \<Rightarrow> string \<Rightarrow> manager \<Rightarrow> (lease_error + bool) outcome option" where
  "ClearQuarantine ord now udid s =
     (if \<not> clear_check udid s
      then Some \<lparr>o_state = s, o_calls = [], o_resets = [], o_result = Inl ErrResetInFlight\<rparr>
      else do {
        out \<leftarrow> FinishReset ord now udid s;
        Some \<lparr>o_state = o_state out, o_calls = o_calls out, o_resets = o_resets out,
              o_result = Inr (o_result out)\<rparr>
      })"

definition Reserve :: "string \<Rightarrow> manager \<Rightarrow> manager \<times> bool \<times> bool" where
  "Reserve udid s =
     (case m_byTarget s udid of
        Some lid \<Rightarrow>
          if lid \<noteq> resetSentinel \<or> udid \<in> m_resetInFlight s then (s, False, False)
          else (s\<lparr>m_byTarget := (m_byTarget s)(udid \<mapsto> reserveSentinel),
                  m_takeoverHold := insert udid (m_takeoverHold s)\<rparr>, True, True)
      | None \<Rightarrow>
          (s\<lparr>m_byTarget := (m_byTarget s)(udid \<mapsto> reserveSentinel),
             m_takeoverHold := m_takeoverHold s - {udid}\<rparr>, False, True))"

definition Quarantine :: "string \<Rightarrow> manager \<Rightarrow> manager" where
  "Quarantine udid s =
     (if m_byTarget s udid = Some reserveSentinel
      then s\<lparr>m_byTarget := (m_byTarget s)(udid \<mapsto> resetSentinel),
             m_takeoverHold := m_takeoverHold s - {udid}\<rparr>
      else s)"

definition Unreserve :: "orders \<Rightarrow> instant \<Rightarrow> string \<Rightarrow> manager \<Rightarrow> unit outcome option" where
  "Unreserve ord now udid s =
     (if m_byTarget s udid \<noteq> Some reserveSentinel
      then Some \<lparr>o_state = s, o_calls = [], o_resets = [], o_result = ()\<rparr>
      else
        let s1 = (if udid \<in> m_takeoverHold s then s\<lparr>m_dirty := m_dirty s - {udid}\<rparr> else s);
            s2 = s1\<lparr>m_takeoverHold := m_takeoverHold s1 - {udid},
                    m_byTarget := (m_byTarget s1)(udid := None)\<rparr>
        in do {
          (s3, granted) \<leftarrow> promoteLocked ord now udid s2;
          Some (settle s3 granted ())
        })"

definition MarkClean :: "string \<Rightarrow> manager \<Rightarrow> manager" where
  "MarkClean udid s = s\<lparr>m_dirty := m_dirty s - {udid}\<rparr>"

end
