(* ===== verification/Mz_Broker.thy ===== *)
theory Mz_Broker
  imports Mz_Registry Mz_Lease
begin

text \<open>
  The fleet broker (\<^verbatim>\<open>internal/broker\<close>): host records and their health bookkeeping, placement,
  the lease routing table, the acquire handler with its speculative leases, reconciliation, the
  placement log and the rebalancing hints.

  A \<^verbatim>\<open>*host\<close> pointer is the index of the host in \<^verbatim>\<open>Broker.hosts\<close>, a list that never changes after
  \<^verbatim>\<open>New\<close>. The daemons behind the broker are an argument of the handlers: a record of the answers
  their HTTP endpoints give, errors included.
\<close>

section \<open>Configuration\<close>

record host_config =
  c_Name :: string
  c_Addr :: string
  c_Labels :: "string list"
  c_Token :: string

text \<open>\<^verbatim>\<open>strings.Split\<close> with a one-character separator.\<close>

fun split_on :: "char \<Rightarrow> string \<Rightarrow> string list" where
  "split_on c [] = [[]]"
| "split_on c (x # xs) =
     (if x = c then [] # split_on c xs
      else (case split_on c xs of [] \<Rightarrow> [[x]] | p # ps \<Rightarrow> (x # p) # ps))"

text \<open>\<^verbatim>\<open>strings.Cut(s, "=")\<close>\<close>

definition cut_at :: "char \<Rightarrow> string \<Rightarrow> (string \<times> string) option" where
  "cut_at c s = (if c \<in> set s
     then Some (takeWhile (\<lambda>x. x \<noteq> c) s, tl (dropWhile (\<lambda>x. x \<noteq> c) s)) else None)"

definition trim_prefix :: "string \<Rightarrow> string \<Rightarrow> string" where
  "trim_prefix s p = (if strings_HasPrefix s p then drop (length p) s else s)"

definition trim_right :: "char \<Rightarrow> string \<Rightarrow> string" where
  "trim_right c s = rev (dropWhile (\<lambda>x. x = c) (rev s))"

definition normalize :: "host_config \<Rightarrow> host_config" where
  "normalize hc =
     (let a1 = (if \<not> strings_Contains (c_Addr hc) ''://'' then ''http://'' @ c_Addr hc else c_Addr hc);
          a2 = trim_right (CHR ''/'') a1
      in hc\<lparr>c_Addr := a2,
            c_Name := (if c_Name hc = [] then trim_prefix (trim_prefix a2 ''http://'') ''https://'' else c_Name hc)\<rparr>)"

definition ParseHostSpec :: "string \<Rightarrow> string + host_config" where
  "ParseHostSpec spec0 =
     (let spec = trim_both is_space spec0 in
      if spec = [] then Inl ''empty host spec''
      else
        let parts = split_on (CHR '','') spec;
            (name, addr) = (case cut_at (CHR ''='') (hd parts) of
                Some (n, a) \<Rightarrow> (trim_both is_space n, trim_both is_space a)
              | None \<Rightarrow> ([], trim_both is_space (hd parts)))
        in if addr = [] then Inl ''host spec has no address''
           else Inr (normalize \<lparr>c_Name = name, c_Addr = addr,
                  c_Labels = filter (\<lambda>l. l \<noteq> []) (map (trim_both is_space) (tl parts)), c_Token = []\<rparr>))"

fun parse_specs :: "string list \<Rightarrow> string + host_config list" where
  "parse_specs [] = Inr []"
| "parse_specs (s # ss) =
     (if trim_both is_space s = [] then parse_specs ss
      else case ParseHostSpec s of
        Inl err \<Rightarrow> Inl err
      | Inr hc \<Rightarrow> (case parse_specs ss of Inl err \<Rightarrow> Inl err | Inr hcs \<Rightarrow> Inr (hc # hcs)))"

definition ParseHostSpecs :: "string \<Rightarrow> string + host_config list" where
  "ParseHostSpecs specs = parse_specs (split_on (CHR '';'') specs)"

fun validate_from :: "string set \<Rightarrow> string set \<Rightarrow> host_config list \<Rightarrow> string option" where
  "validate_from names addrs [] = None"
| "validate_from names addrs (h # hs) =
     (if c_Name h \<in> names then Some ''duplicate host name''
      else if c_Addr h \<in> addrs then Some ''duplicate host addr''
      else validate_from (insert (c_Name h) names) (insert (c_Addr h) addrs) hs)"

definition Validate :: "host_config list \<Rightarrow> string option" where
  "Validate hosts = (if hosts = [] then Some ''no hosts configured'' else validate_from {} {} hosts)"

section \<open>Hosts\<close>

record host_status =
  hs_MaxBootedRunning :: int
  hs_Running :: int
  hs_Parked :: int
  hs_BootsInFlight :: int
  hs_LeasesActive :: int
  hs_LeasesQueued :: int
  hs_LoadOK :: bool
  hs_DiskOK :: bool

record host =
  h_cfg :: host_config
  h_up :: bool
  h_build :: string
  h_lastError :: string
  h_lastProbe :: "instant option"
  h_listed :: bool
  h_targets :: "target list"
  h_leases :: int
  h_stats :: "host_status option"
  h_statsAt :: "instant option"
  h_statsBump :: int
  h_adviseUnsupported :: bool
  h_lastAdviceKey :: string
  h_advicePushed :: bool
  h_adviceResync :: bool
  h_upSince :: "instant option"

definition new_host :: "string \<Rightarrow> host_config \<Rightarrow> host" where
  "new_host daemonToken hc =
     \<lparr>h_cfg = (if c_Token hc = [] then hc\<lparr>c_Token := daemonToken\<rparr> else hc), h_up = False, h_build = [],
      h_lastError = [], h_lastProbe = None, h_listed = False, h_targets = [], h_leases = 0, h_stats = None,
      h_statsAt = None, h_statsBump = 0, h_adviseUnsupported = False, h_lastAdviceKey = [],
      h_advicePushed = False, h_adviceResync = False, h_upSince = None\<rparr>"

definition setAdvicePushed :: "string \<Rightarrow> host \<Rightarrow> host" where
  "setAdvicePushed key h = h\<lparr>h_lastAdviceKey := key, h_advicePushed := True, h_adviceResync := False\<rparr>"

definition setAdviseUnsupported :: "host \<Rightarrow> host" where
  "setAdviseUnsupported h = h\<lparr>h_adviseUnsupported := True\<rparr>"

definition setCachedTargets :: "target list \<Rightarrow> host \<Rightarrow> host" where
  "setCachedTargets ts h = h\<lparr>h_targets := ts, h_listed := True\<rparr>"

record host_health =
  hh_Up :: bool
  hh_Targets :: nat
  hh_ActiveLeases :: int
  hh_LastProbe :: "instant option"
  hh_StatsAt :: "instant option"

definition health :: "host \<Rightarrow> host_health" where
  "health h =
     \<lparr>hh_Up = h_up h, hh_Targets = (if \<not> h_up h then 0 else length (h_targets h)),
      hh_ActiveLeases = (if h_leases h < 0 then 0 else h_leases h), hh_LastProbe = h_lastProbe h,
      hh_StatsAt = (if h_stats h = None then None else h_statsAt h)\<rparr>"

definition addLease :: "int \<Rightarrow> host \<Rightarrow> host" where
  "addLease n h = h\<lparr>h_leases := (if h_leases h + n < 0 then 0 else h_leases h + n), h_statsBump := h_statsBump h + n\<rparr>"

definition setStats :: "host_status option \<Rightarrow> instant \<Rightarrow> host \<Rightarrow> host" where
  "setStats st at h = h\<lparr>h_stats := st, h_statsAt := Some at, h_statsBump := 0\<rparr>"

definition effectiveLoad :: "host \<Rightarrow> int" where
  "effectiveLoad h =
     (case h_stats h of
        None \<Rightarrow> h_leases h
      | Some st \<Rightarrow> (let n = hs_LeasesActive st + hs_LeasesQueued st + h_statsBump h in if n > 0 then n else 0))"

section \<open>Matching and ranking\<close>

definition containsAll :: "string list \<Rightarrow> string list \<Rightarrow> bool" where
  "containsAll have want = list_all (\<lambda>w. w \<in> set have) want"

definition hostMatches :: "host \<Rightarrow> string list \<Rightarrow> bool" where
  "hostMatches h labels = list_ex (\<lambda>t. containsAll (c_Name (h_cfg h) # t_Labels t) labels) (h_targets h)"

definition hostWarmMatch :: "host \<Rightarrow> string list \<Rightarrow> bool" where
  "hostWarmMatch h labels =
     list_ex (\<lambda>t. (t_Warm t \<or> t_State t = StateBooted) \<and> containsAll (c_Name (h_cfg h) # t_Labels t) labels) (h_targets h)"

definition warmIdleCount :: "host \<Rightarrow> string list \<Rightarrow> nat" where
  "warmIdleCount h labels =
     length (filter (\<lambda>t. t_Warm t \<and> containsAll (c_Name (h_cfg h) # t_Labels t) labels) (h_targets h))"

definition stripHostLabels :: "string list \<Rightarrow> host \<Rightarrow> string list" where
  "stripHostLabels labels h = filter (\<lambda>l. \<not> (l = c_Name (h_cfg h) \<or> l \<in> set (c_Labels (h_cfg h)))) labels"

definition MaxInt :: int where "MaxInt = 9223372036854775807"

definition runHeadroom :: "host_status \<Rightarrow> int" where
  "runHeadroom st = (if hs_MaxBootedRunning st \<le> 0 then MaxInt
     else hs_MaxBootedRunning st - hs_Running st - hs_BootsInFlight st)"

definition tierWarm :: nat where "tierWarm = 0"
definition tierHeadroom :: nat where "tierHeadroom = 1"
definition tierSaturated :: nat where "tierSaturated = 2"

definition hostTier :: "host \<Rightarrow> string list \<Rightarrow> nat" where
  "hostTier h labels =
     (case h_stats h of
        None \<Rightarrow> tierHeadroom
      | Some st \<Rightarrow>
          if hostWarmMatch h labels then tierWarm
          else if runHeadroom st > 0 \<and> hs_LoadOK st \<and> hs_DiskOK st then tierHeadroom
          else tierSaturated)"

definition queuedDepth :: "host \<Rightarrow> int" where
  "queuedDepth h = (case h_stats h of None \<Rightarrow> MaxInt | Some st \<Rightarrow> hs_LeasesQueued st)"

record ranked_host =
  rk_host :: nat
  rk_tier :: nat
  rk_load :: int
  rk_warmIdle :: nat

text \<open>The comparison of \<^verbatim>\<open>sort.SliceStable\<close> as a key: ascending tier and load, descending warm depth.\<close>

definition rank_key :: "ranked_host \<Rightarrow> int list" where
  "rank_key r = [int (rk_tier r), rk_load r, - int (rk_warmIdle r)]"

definition ranked_hosts :: "host list \<Rightarrow> string list \<Rightarrow> ranked_host list" where
  "ranked_hosts hosts labels =
     concat (map (\<lambda>(i, h).
       if h_up h \<and> hostMatches h labels
       then [\<lparr>rk_host = i, rk_tier = hostTier h labels, rk_load = effectiveLoad h, rk_warmIdle = warmIdleCount h labels\<rparr>]
       else []) (enumerate 0 hosts))"

text \<open>Each run of equal rank is rotated by the round-robin counter.\<close>

function rotate_runs :: "nat \<Rightarrow> ranked_host list \<Rightarrow> ranked_host list" where
  "rotate_runs rr [] = []"
| "rotate_runs rr (r # rs) =
     (let run = r # takeWhile (\<lambda>x. rank_key x = rank_key r) rs;
          rest = dropWhile (\<lambda>x. rank_key x = rank_key r) rs;
          n = length run;
          k = rr mod n
      in (if n > 1 then drop k run @ take k run else run) @ rotate_runs rr rest)"
  by pat_completeness auto
termination
  by (relation "measure (\<lambda>(rr, rs). length rs)") (auto simp: le_imp_less_Suc length_dropWhile_le)

section \<open>The placement log\<close>

definition decisionRingCap :: nat where "decisionRingCap = 256"

record candidate_explain =
  ce_Host :: string
  ce_Tier :: nat
  ce_EffectiveLoad :: int
  ce_WarmMatch :: bool
  ce_WarmIdle :: nat
  ce_HasStats :: bool
  ce_Parked :: int
  ce_Headroom :: int

record placement_decision =
  pd_At :: instant
  pd_Labels :: "string list"
  pd_Class :: string
  pd_Outcome :: string
  pd_Host :: string
  pd_Tier :: "nat option"
  pd_LeaseID :: string
  pd_Candidates :: "candidate_explain list"

text \<open>
  The ring: a slice of fixed length once the first decision was added. A slot never written holds
  the zero decision; \<open>None\<close> stands for it.
\<close>

record decision_log =
  dl_buf :: "placement_decision option list"
  dl_next :: nat
  dl_full :: bool

definition empty_log :: decision_log where
  "empty_log = \<lparr>dl_buf = [], dl_next = 0, dl_full = False\<rparr>"

definition log_add :: "placement_decision \<Rightarrow> decision_log \<Rightarrow> decision_log" where
  "log_add pd d =
     (let buf0 = (if dl_buf d = [] then replicate decisionRingCap None else dl_buf d);
          buf1 = buf0[dl_next d := Some pd];
          next1 = (dl_next d + 1) mod length buf1
      in \<lparr>dl_buf = buf1, dl_next = next1, dl_full = (dl_full d \<or> next1 = 0)\<rparr>)"

definition log_size :: "decision_log \<Rightarrow> nat" where
  "log_size d = (if dl_full d then length (dl_buf d) else dl_next d)"

definition log_recent :: "nat \<Rightarrow> decision_log \<Rightarrow> placement_decision option list" where
  "log_recent n d =
     (let size = log_size d; m = (if n = 0 \<or> n > size then size else n) in
      map (\<lambda>i. dl_buf d ! ((dl_next d + length (dl_buf d) - i) mod length (dl_buf d))) [1 ..< Suc m])"

definition log_since :: "instant \<Rightarrow> decision_log \<Rightarrow> placement_decision list" where
  "log_since t d = filter (\<lambda>pd. \<not> pd_At pd < t) (concat (map (\<lambda>x. case x of Some pd \<Rightarrow> [pd] | None \<Rightarrow> []) (log_recent 0 d)))"

definition classKey :: "string list \<Rightarrow> string" where
  "classKey labels = strings_Join (sort labels) '',''"

section \<open>The broker\<close>

record lease_entry =
  e_host :: nat
  e_state :: LeaseState
  e_lastPoll :: instant
  e_terminalAt :: "instant option"

abbreviation e_terminal :: "lease_entry \<Rightarrow> bool" where
  "e_terminal e \<equiv> e_terminalAt e \<noteq> None"

record broker =
  bk_hosts :: "host list"
  bk_leases :: "string \<rightharpoonup> lease_entry"
  bk_orphans :: "string \<rightharpoonup> nat"
  bk_rr :: nat
  bk_decisions :: decision_log
  bk_demandWindow :: duration

definition DefaultDemandWindow :: duration where "DefaultDemandWindow = 10 * Minute"

definition NewBroker :: "string \<Rightarrow> duration \<Rightarrow> host_config list \<Rightarrow> broker" where
  "NewBroker daemonToken demandWindow cfgs =
     \<lparr>bk_hosts = map (new_host daemonToken) cfgs, bk_leases = Map.empty, bk_orphans = Map.empty, bk_rr = 0,
      bk_decisions = empty_log,
      bk_demandWindow = (if demandWindow \<le> 0 then DefaultDemandWindow else demandWindow)\<rparr>"

definition update_host :: "nat \<Rightarrow> (host \<Rightarrow> host) \<Rightarrow> broker \<Rightarrow> broker" where
  "update_host i f b = b\<lparr>bk_hosts := (bk_hosts b)[i := f (bk_hosts b ! i)]\<rparr>"

definition hostForLease :: "broker \<Rightarrow> string \<Rightarrow> nat option" where
  "hostForLease b lid = map_option e_host (bk_leases b lid)"

definition rememberLease :: "instant \<Rightarrow> lease \<Rightarrow> nat \<Rightarrow> broker \<Rightarrow> broker" where
  "rememberLease now l h b = update_host h (addLease 1)
     (b\<lparr>bk_leases := (bk_leases b)(l_ID l \<mapsto>
        \<lparr>e_host = h, e_state = l_State l, e_lastPoll = now, e_terminalAt = None\<rparr>)\<rparr>)"

definition markLeaseTerminal :: "instant \<Rightarrow> string \<Rightarrow> LeaseState \<Rightarrow> broker \<Rightarrow> broker" where
  "markLeaseTerminal now lid st b =
     (case bk_leases b lid of
        None \<Rightarrow> b
      | Some e \<Rightarrow>
          if e_terminal e then b\<lparr>bk_leases := (bk_leases b)(lid \<mapsto> e\<lparr>e_state := st\<rparr>)\<rparr>
          else update_host (e_host e) (addLease (-1))
                 (b\<lparr>bk_leases := (bk_leases b)(lid \<mapsto> e\<lparr>e_state := st, e_terminalAt := Some now\<rparr>)\<rparr>))"

definition noteLeaseState :: "instant \<Rightarrow> string \<Rightarrow> LeaseState \<Rightarrow> broker \<Rightarrow> broker" where
  "noteLeaseState now lid st b =
     (if st = LeaseReleased \<or> st = LeaseExpired then markLeaseTerminal now lid st b
      else case bk_leases b lid of
        None \<Rightarrow> b
      | Some e \<Rightarrow> b\<lparr>bk_leases := (bk_leases b)(lid \<mapsto> e\<lparr>e_state := st, e_lastPoll := now\<rparr>)\<rparr>)"

definition forgetLease :: "string \<Rightarrow> broker \<Rightarrow> broker" where
  "forgetLease lid b =
     (case bk_leases b lid of
        None \<Rightarrow> b
      | Some e \<Rightarrow>
          let b1 = b\<lparr>bk_leases := (bk_leases b)(lid := None)\<rparr> in
          if e_terminal e then b1 else update_host (e_host e) (addLease (-1)) b1)"

definition nextRR :: "broker \<Rightarrow> broker \<times> nat" where
  "nextRR b = (b\<lparr>bk_rr := bk_rr b + 1\<rparr>, bk_rr b + 1)"

definition rankCandidates :: "string list \<Rightarrow> broker \<Rightarrow> broker \<times> ranked_host list" where
  "rankCandidates labels b =
     (case nextRR b of (b1, rr) \<Rightarrow>
        (b1, rotate_runs rr (sort_key rank_key (ranked_hosts (bk_hosts b) labels))))"

definition anyHostUp :: "broker \<Rightarrow> bool" where
  "anyHostUp b = list_ex h_up (bk_hosts b)"

definition anyHostUnlisted :: "broker \<Rightarrow> bool" where
  "anyHostUnlisted b = list_ex (\<lambda>h. h_up h \<and> \<not> h_listed h) (bk_hosts b)"

definition downHostMatches :: "string list \<Rightarrow> broker \<Rightarrow> bool" where
  "downHostMatches labels b =
     list_ex (\<lambda>h. \<not> h_up h \<and>
       (list_ex (\<lambda>l. l = c_Name (h_cfg h) \<or> l \<in> set (c_Labels (h_cfg h))) labels \<or> hostMatches h labels)) (bk_hosts b)"

definition explainCandidates :: "string list \<Rightarrow> host list \<Rightarrow> ranked_host list \<Rightarrow> candidate_explain list" where
  "explainCandidates labels hosts ranked =
     map (\<lambda>r. let h = hosts ! rk_host r in
       \<lparr>ce_Host = c_Name (h_cfg h), ce_Tier = rk_tier r, ce_EffectiveLoad = rk_load r,
        ce_WarmMatch = hostWarmMatch h labels, ce_WarmIdle = rk_warmIdle r,
        ce_HasStats = (h_stats h \<noteq> None),
        ce_Parked = (case h_stats h of None \<Rightarrow> 0 | Some st \<Rightarrow> hs_Parked st),
        ce_Headroom = (case h_stats h of None \<Rightarrow> 0 | Some st \<Rightarrow>
           let hr = runHeadroom st in if hr = MaxInt then -1 else if hr < 0 then 0 else hr)\<rparr>) ranked"

end
