(* ===== verification/Mz_BrokerOps.thy ===== *)
theory Mz_BrokerOps
  imports Mz_Broker
begin

text \<open>
  The broker's handlers and its probe round: acquiring over several daemons, proxying per-lease
  operations, listing, reconciliation, probing and the rebalancing hints.
\<close>

section \<open>The daemons\<close>

text \<open>
  A failed call: the daemon's wire error (its HTTP status and its rendered \<^verbatim>\<open>code: message\<close>), or
  no usable answer.
\<close>

datatype call_error = DaemonError int string | TransportError string

text \<open>\<^verbatim>\<open>daemonError.Error\<close>, and the message of any other error.\<close>

fun error_text :: "call_error \<Rightarrow> string" where
  "error_text (DaemonError st e) = dec_int st @ '' '' @ e"
| "error_text (TransportError e) = e"

record daemon =
  d_healthz :: "nat \<Rightarrow> call_error + (bool \<times> string)"
  d_targets :: "nat \<Rightarrow> call_error + target list"
  d_leases :: "nat \<Rightarrow> call_error + lease list"
  d_status :: "nat \<Rightarrow> call_error + host_status"
  d_acquire :: "nat \<Rightarrow> acquire_req \<Rightarrow> call_error + lease"
  d_get :: "nat \<Rightarrow> string \<Rightarrow> call_error + lease"
  d_delete :: "nat \<Rightarrow> string \<Rightarrow> call_error option"

text \<open>What an observer of the daemons sees of an acquire: leases created and releases confirmed.\<close>

datatype wire_event = Created nat string | Released nat string

definition annotate :: "broker \<Rightarrow> nat \<Rightarrow> lease \<Rightarrow> lease" where
  "annotate b h l = l\<lparr>l_Host := c_Name (h_cfg (bk_hosts b ! h)), l_HostAddr := c_Addr (h_cfg (bk_hosts b ! h))\<rparr>"

text \<open>A release the daemon answered with less than 500 counts as done.\<close>

definition answered :: "call_error option \<Rightarrow> bool" where
  "answered r = (case r of None \<Rightarrow> True | Some (DaemonError st code) \<Rightarrow> st < 500 | Some (TransportError e) \<Rightarrow> False)"

type_synonym wired = "broker \<times> wire_event list"

definition releaseQuietly :: "daemon \<Rightarrow> nat \<Rightarrow> string \<Rightarrow> wired \<Rightarrow> wired" where
  "releaseQuietly d h lid w =
     (case w of (b, tr) \<Rightarrow>
        if answered (d_delete d h lid) then (b, tr @ [Released h lid])
        else (b\<lparr>bk_orphans := (bk_orphans b)(lid \<mapsto> h)\<rparr>, tr))"

definition releaseSpeculative :: "daemon \<Rightarrow> nat \<Rightarrow> string \<Rightarrow> bool \<Rightarrow> wired \<Rightarrow> wired \<times> lease option" where
  "releaseSpeculative d h lid reset w =
     (case (if reset then d_get d h lid else Inl (TransportError [])) of
        Inr cur \<Rightarrow>
          if l_State cur = LeaseActive then (w, Some (annotate (fst w) h cur))
          else (releaseQuietly d h lid w, None)
      | Inl e \<Rightarrow> (releaseQuietly d h lid w, None))"

section \<open>Acquire\<close>

datatype response =
    NoResponse                        \<comment> \<open>the client is gone\<close>
  | Granted lease                     \<comment> \<open>201\<close>
  | Accepted lease                    \<comment> \<open>202\<close>
  | Unavailable string                \<comment> \<open>503 or 502\<close>
  | NoMatch                           \<comment> \<open>409\<close>
  | Forwarded int string              \<comment> \<open>a daemon's error\<close>

text \<open>What one acquire request fixes: the daemons' answers, the instant, whether the client is gone.\<close>

record acq_env =
  q_daemon :: daemon
  q_now :: instant
  q_gone :: bool
  q_digest :: "string \<Rightarrow> string"    \<comment> \<open>the short SHA-256 digest of a lease ID\<close>
  q_req :: acquire_req
  q_ranked :: "ranked_host list"

definition redactLeaseID :: "(string \<Rightarrow> string) \<Rightarrow> string \<Rightarrow> string" where
  "redactLeaseID digest lid = (if lid = [] then [] else ''sha:'' @ digest lid)"

definition record_decision :: "acq_env \<Rightarrow> string \<Rightarrow> nat option \<Rightarrow> string \<Rightarrow> broker \<Rightarrow> broker" where
  "record_decision q outcome winner lid b =
     b\<lparr>bk_decisions := log_add
        \<lparr>pd_At = q_now q, pd_Labels = r_Labels (q_req q), pd_Class = classKey (r_Labels (q_req q)),
         pd_Outcome = outcome,
         pd_Host = (case winner of None \<Rightarrow> [] | Some h \<Rightarrow> c_Name (h_cfg (bk_hosts b ! h))),
         pd_Tier = (case winner of None \<Rightarrow> None
                    | Some h \<Rightarrow> map_option rk_tier (find (\<lambda>r. rk_host r = h) (q_ranked q))),
         pd_LeaseID = redactLeaseID (q_digest q) lid,
         pd_Candidates = explainCandidates (r_Labels (q_req q)) (bk_hosts b) (q_ranked q)\<rparr>
        (bk_decisions b)\<rparr>"

definition deliver :: "acq_env \<Rightarrow> string \<Rightarrow> (lease \<Rightarrow> response) \<Rightarrow> lease \<Rightarrow> nat \<Rightarrow> wired \<Rightarrow> wired \<times> response" where
  "deliver q outcome respond l h w =
     (if q_gone q then (releaseQuietly (q_daemon q) h (l_ID l) w, NoResponse)
      else case w of (b, tr) \<Rightarrow>
        ((record_decision q outcome (Some h) (l_ID l) (rememberLease (q_now q) l h b), tr), respond l))"

text \<open>An active lease is in hand: the kept queue slot, if any, is given up first.\<close>

definition acquire_grant :: "acq_env \<Rightarrow> (lease \<times> nat) option \<Rightarrow> lease \<Rightarrow> nat \<Rightarrow> wired \<Rightarrow> wired \<times> response" where
  "acquire_grant q queued l h w =
     (case queued of
        None \<Rightarrow> deliver q ''active'' Granted l h w
      | Some (ql, qh) \<Rightarrow>
          (case releaseSpeculative (q_daemon q) qh (l_ID ql) (wantsReset (r_Reset (q_req q))) w of
             (w1, None) \<Rightarrow> deliver q ''active'' Granted l h w1
           | (w1, Some a) \<Rightarrow>
               deliver q ''active'' Granted a qh (releaseQuietly (q_daemon q) h (l_ID l) w1)))"

definition acquire_finish ::
  "acq_env \<Rightarrow> (lease \<times> nat) option \<Rightarrow> (int \<times> string) option \<Rightarrow> string option \<Rightarrow> wired \<Rightarrow> wired \<times> response"
where
  "acquire_finish q queued derr terr w =
     (case queued of
        Some (ql, qh) \<Rightarrow> deliver q ''queued'' Accepted ql qh w
      | None \<Rightarrow>
          (case terr of
             Some e \<Rightarrow> ((record_decision q ''unavailable'' None [] (fst w), snd w), Unavailable e)
           | None \<Rightarrow>
               (case derr of
                  Some (st, code) \<Rightarrow> ((record_decision q code None [] (fst w), snd w), Forwarded st code)
                | None \<Rightarrow> ((record_decision q ''no_match'' None [] (fst w), snd w), NoMatch))))"

text \<open>Retryable daemon errors outrank permanent-looking ones.\<close>

definition note_daemon_error :: "int \<Rightarrow> string \<Rightarrow> (int \<times> string) option \<Rightarrow> (int \<times> string) option" where
  "note_daemon_error st code derr =
     (case derr of None \<Rightarrow> Some (st, code)
      | Some (st0, code0) \<Rightarrow> if st \<ge> 500 \<and> st0 < 500 then Some (st, code) else Some (st0, code0))"

fun acquire_loop ::
  "acq_env \<Rightarrow> nat list \<Rightarrow> (lease \<times> nat) option \<Rightarrow> (int \<times> string) option \<Rightarrow> string option \<Rightarrow> wired \<Rightarrow> wired \<times> response"
where
  "acquire_loop q [] queued derr terr w = acquire_finish q queued derr terr w"
| "acquire_loop q (h # hs) queued derr terr w =
     (case d_acquire (q_daemon q) h
         ((q_req q)\<lparr>r_Labels := stripHostLabels (r_Labels (q_req q)) (bk_hosts (fst w) ! h)\<rparr>) of
        Inl (DaemonError st code) \<Rightarrow> acquire_loop q hs queued (note_daemon_error st code derr) terr w
      | Inl (TransportError e) \<Rightarrow> acquire_loop q hs queued derr (Some e) w
      | Inr l0 \<Rightarrow>
          let l = annotate (fst w) h l0; w1 = (fst w, snd w @ [Created h (l_ID l0)]) in
          if l_State l \<noteq> LeaseActive then
            (case queued of
               None \<Rightarrow> acquire_loop q hs (Some (l, h)) derr terr w1
             | Some (ql, qh) \<Rightarrow>
                 let swap = (queuedDepth (bk_hosts (fst w) ! h) < queuedDepth (bk_hosts (fst w) ! qh));
                     (drop, dropHost) = (if swap then (ql, qh) else (l, h));
                     keep = (if swap then (l, h) else (ql, qh))
                 in (case releaseSpeculative (q_daemon q) dropHost (l_ID drop) (wantsReset (r_Reset (q_req q))) w1 of
                       (w2, None) \<Rightarrow> acquire_loop q hs (Some keep) derr terr w2
                     | (w2, Some a) \<Rightarrow> acquire_grant q (Some keep) a dropHost w2))
          else acquire_grant q queued l h w1)"

definition handleAcquireLease ::
  "daemon \<Rightarrow> instant \<Rightarrow> bool \<Rightarrow> (string \<Rightarrow> string) \<Rightarrow> acquire_req \<Rightarrow> broker \<Rightarrow> wired \<times> response"
where
  "handleAcquireLease d now gone digest req b0 =
     (case rankCandidates (r_Labels req) b0 of (b, ranked) \<Rightarrow>
        let q = \<lparr>q_daemon = d, q_now = now, q_gone = gone, q_digest = digest, q_req = req, q_ranked = ranked\<rparr> in
        if ranked = [] then
          (if \<not> anyHostUp b \<or> downHostMatches (r_Labels req) b \<or> anyHostUnlisted b
           then ((record_decision q ''unavailable'' None [] b, []), Unavailable [])
           else ((record_decision q ''no_match'' None [] b, []), NoMatch))
        else acquire_loop q (map rk_host ranked) None None None (b, []))"

section \<open>Proxied operations and listings\<close>

datatype lease_response = LeaseNotKnown | LeaseAnswer lease | LeaseError int string | HostUnreachable string

definition proxyLeaseOp ::
  "instant \<Rightarrow> (nat \<Rightarrow> string \<Rightarrow> call_error + lease) \<Rightarrow> string \<Rightarrow> broker \<Rightarrow> broker \<times> lease_response"
where
  "proxyLeaseOp now op_call lid b =
     (case hostForLease b lid of
        None \<Rightarrow> (b, LeaseNotKnown)
      | Some h \<Rightarrow>
          (case op_call h lid of
             Inl (DaemonError st code) \<Rightarrow> (if st = 404 then forgetLease lid b else b, LeaseError st code)
           | Inl (TransportError e) \<Rightarrow> (b, HostUnreachable e)
           | Inr l \<Rightarrow> (noteLeaseState now (l_ID l) (l_State l) b, LeaseAnswer (annotate b h l))))"

definition fetchTargets :: "daemon \<Rightarrow> host \<Rightarrow> nat \<Rightarrow> call_error + target list" where
  "fetchTargets d h i =
     (case d_targets d i of
        Inl e \<Rightarrow> Inl e
      | Inr ts \<Rightarrow> Inr (map (\<lambda>t. t\<lparr>t_Host := c_Name (h_cfg h), t_Labels := t_Labels t @ c_Labels (h_cfg h)\<rparr>) ts))"

text \<open>One host's part of \<^verbatim>\<open>GET /v0/targets\<close>: the live list, or the cached one when the fetch fails.\<close>

definition list_host_targets :: "daemon \<Rightarrow> nat \<times> host \<Rightarrow> host \<times> target list" where
  "list_host_targets d ih =
     (case ih of (i, h) \<Rightarrow>
        if \<not> h_up h then (h, [])
        else (case fetchTargets d h i of
                Inl e \<Rightarrow> (h, h_targets h)
              | Inr ts \<Rightarrow> (setCachedTargets ts h, ts)))"

definition handleListTargets :: "daemon \<Rightarrow> broker \<Rightarrow> broker \<times> target list" where
  "handleListTargets d b =
     (let rs = map (list_host_targets d) (enumerate 0 (bk_hosts b)) in
      (b\<lparr>bk_hosts := map fst rs\<rparr>, concat (map snd rs)))"

definition handleListLeases :: "daemon \<Rightarrow> broker \<Rightarrow> lease list" where
  "handleListLeases d b =
     concat (map (\<lambda>(i, h). if \<not> h_up h then []
        else case d_leases d i of Inl e \<Rightarrow> [] | Inr ls \<Rightarrow> map (annotate b i) ls) (enumerate 0 (bk_hosts b)))"

section \<open>Reconciliation\<close>

definition queuedReconcileAfter :: duration where
  "queuedReconcileAfter = QueueWaitTTL + 2 * Minute"

definition pruneTombstones :: "instant \<Rightarrow> broker \<Rightarrow> broker" where
  "pruneTombstones now b =
     b\<lparr>bk_leases := (\<lambda>lid. case bk_leases b lid of
        None \<Rightarrow> None
      | Some e \<Rightarrow> (case e_terminalAt e of
            Some at \<Rightarrow> if now - at > TerminalRetention then None else Some e
          | None \<Rightarrow> Some e))\<rparr>"

text \<open>\<open>ks\<close> is the order of a range over the routing table or over the orphans.\<close>

definition release_orphan :: "daemon \<Rightarrow> nat \<Rightarrow> string \<Rightarrow> broker \<Rightarrow> broker" where
  "release_orphan d h lid b =
     (if answered (d_delete d h lid) then b\<lparr>bk_orphans := (bk_orphans b)(lid := None)\<rparr> else b)"

definition releaseOrphans :: "daemon \<Rightarrow> string list \<Rightarrow> nat \<Rightarrow> broker \<Rightarrow> broker" where
  "releaseOrphans d ks h b =
     fold (release_orphan d h) (filter (\<lambda>lid. bk_orphans b lid = Some h) (range_over (bk_orphans b) ks)) b"

definition reconcilable :: "instant \<Rightarrow> nat \<Rightarrow> lease_entry \<Rightarrow> bool" where
  "reconcilable now h e \<longleftrightarrow> e_host e = h \<and> \<not> e_terminal e \<and>
     \<not> (e_state e = LeaseQueued \<and> now - e_lastPoll e < queuedReconcileAfter)"

definition reconcilableLeases :: "instant \<Rightarrow> string list \<Rightarrow> nat \<Rightarrow> broker \<Rightarrow> string list" where
  "reconcilableLeases now ks h b =
     filter (\<lambda>lid. case bk_leases b lid of None \<Rightarrow> False | Some e \<Rightarrow> reconcilable now h e) (range_over (bk_leases b) ks)"

definition reconcile_one :: "daemon \<Rightarrow> instant \<Rightarrow> nat \<Rightarrow> string \<Rightarrow> broker \<Rightarrow> broker" where
  "reconcile_one d now h lid b =
     (case d_get d h lid of
        Inl (DaemonError st code) \<Rightarrow> if st = 404 then forgetLease lid b else b
      | Inl (TransportError e) \<Rightarrow> b
      | Inr l \<Rightarrow>
          if l_State l = LeaseReleased \<or> l_State l = LeaseExpired then markLeaseTerminal now lid (l_State l) b
          else (case bk_leases b lid of
                  None \<Rightarrow> b
                | Some e \<Rightarrow> b\<lparr>bk_leases := (bk_leases b)(lid \<mapsto> e\<lparr>e_state := l_State l,
                      e_lastPoll := (if l_State l = LeaseQueued then now else e_lastPoll e)\<rparr>)\<rparr>))"

definition reconcileLeases :: "daemon \<Rightarrow> instant \<Rightarrow> string list \<Rightarrow> string list \<Rightarrow> nat \<Rightarrow> broker \<Rightarrow> broker" where
  "reconcileLeases d now oks ks h b =
     (let b1 = releaseOrphans d oks h (pruneTombstones now b) in
      fold (reconcile_one d now h) (reconcilableLeases now ks h b1) b1)"

section \<open>Probing\<close>

definition fetchStats :: "daemon \<Rightarrow> instant \<Rightarrow> nat \<Rightarrow> broker \<Rightarrow> broker" where
  "fetchStats d now i b =
     (case d_status d i of
        Inr st \<Rightarrow> update_host i (setStats (Some st) now) b
      | Inl (DaemonError code e) \<Rightarrow> if code = 404 \<or> code = 501 then update_host i (setStats None now) b else b
      | Inl (TransportError e) \<Rightarrow> b)"

definition probe_down :: "instant \<Rightarrow> string \<Rightarrow> host \<Rightarrow> host" where
  "probe_down now msg h = h\<lparr>h_up := False, h_lastProbe := Some now, h_lastError := msg\<rparr>"

definition probe_up :: "instant \<Rightarrow> string \<Rightarrow> (call_error + target list) \<Rightarrow> host \<Rightarrow> host" where
  "probe_up now build listing h =
     (let h1 = h\<lparr>h_up := True, h_build := build\<rparr>;
          h2 = (if h_up h then h1
                else h1\<lparr>h_adviseUnsupported := False, h_lastAdviceKey := [], h_advicePushed := False,
                        h_adviceResync := True, h_upSince := Some now\<rparr>);
          h3 = h2\<lparr>h_lastProbe := Some now\<rparr>
      in case listing of
           Inr ts \<Rightarrow> h3\<lparr>h_lastError := [], h_targets := ts, h_listed := True\<rparr>
         | Inl e \<Rightarrow> h3\<lparr>h_lastError := ''target refresh failed: '' @ error_text e\<rparr>)"

definition probe :: "daemon \<Rightarrow> instant \<Rightarrow> string list \<Rightarrow> string list \<Rightarrow> nat \<Rightarrow> broker \<Rightarrow> broker" where
  "probe d now oks ks i b =
     (case d_healthz d i of
        Inl e \<Rightarrow> update_host i (probe_down now (error_text e)) b
      | Inr (ok, build) \<Rightarrow>
          if \<not> ok then update_host i (probe_down now ''healthz reported not ok'') b
          else
            let b1 = update_host i (probe_up now build (fetchTargets d (bk_hosts b ! i) i)) b;
                b2 = reconcileLeases d now oks ks i b1
            in fetchStats d now i b2)"

section \<open>Rebalancing hints\<close>

definition growColdThreshold :: nat where "growColdThreshold = 3"
definition shrinkMinDemand :: nat where "shrinkMinDemand = 3"

datatype advice_action = AdviceGrow | AdviceShrink

record class_advice =
  ca_Labels :: "string list"
  ca_Action :: advice_action
  ca_ColdPlacements :: nat
  ca_WarmHits :: nat

text \<open>The decisions of the window that placed a lease, newest first.\<close>

definition placed_decisions :: "instant \<Rightarrow> broker \<Rightarrow> placement_decision list" where
  "placed_decisions now b =
     filter (\<lambda>pd. pd_Outcome pd = ''active'' \<or> pd_Outcome pd = ''queued'')
       (log_since (now - bk_demandWindow b) (bk_decisions b))"

definition warm_hit :: "placement_decision \<Rightarrow> bool" where
  "warm_hit pd \<longleftrightarrow> pd_Tier pd = Some tierWarm \<and> pd_Outcome pd = ''active''"

definition class_keys :: "placement_decision list \<Rightarrow> string list" where
  "class_keys pds = sort (remdups (map pd_Class pds))"

text \<open>Per class: the labels of its first decision seen, its cold count, its warm hits on a host.\<close>

definition class_labels :: "placement_decision list \<Rightarrow> string \<Rightarrow> string list" where
  "class_labels pds key = (case filter (\<lambda>pd. pd_Class pd = key) pds of [] \<Rightarrow> [] | pd # _ \<Rightarrow> pd_Labels pd)"

definition class_cold :: "placement_decision list \<Rightarrow> string \<Rightarrow> nat" where
  "class_cold pds key = length (filter (\<lambda>pd. pd_Class pd = key \<and> \<not> warm_hit pd) pds)"

definition class_warm :: "placement_decision list \<Rightarrow> string \<Rightarrow> string \<Rightarrow> nat" where
  "class_warm pds key hname = length (filter (\<lambda>pd. pd_Class pd = key \<and> warm_hit pd \<and> pd_Host pd = hname) pds)"

definition host_warm :: "placement_decision list \<Rightarrow> string \<Rightarrow> nat" where
  "host_warm pds hname = length (filter (\<lambda>pd. warm_hit pd \<and> pd_Host pd = hname) pds)"

definition grow_advice :: "placement_decision list \<Rightarrow> host \<Rightarrow> class_advice list" where
  "grow_advice pds h =
     concat (map (\<lambda>key.
       let labels = class_labels pds key; stripped = stripHostLabels labels h in
       if class_cold pds key < growColdThreshold \<or> \<not> hostMatches h labels \<or> stripped = [] then []
       else [\<lparr>ca_Labels = stripped, ca_Action = AdviceGrow, ca_ColdPlacements = class_cold pds key,
              ca_WarmHits = class_warm pds key (c_Name (h_cfg h))\<rparr>]) (class_keys pds))"

definition shrink_due :: "instant \<Rightarrow> duration \<Rightarrow> placement_decision list \<Rightarrow> host \<Rightarrow> bool" where
  "shrink_due now window pds h \<longleftrightarrow>
     (case h_stats h of None \<Rightarrow> False | Some st \<Rightarrow> hs_Parked st > 0) \<and> h_up h \<and>
     (case h_upSince h of None \<Rightarrow> True | Some t \<Rightarrow> \<not> t > now - window) \<and>
     host_warm pds (c_Name (h_cfg h)) = 0 \<and> length pds \<ge> shrinkMinDemand"

definition host_hints :: "instant \<Rightarrow> duration \<Rightarrow> placement_decision list \<Rightarrow> host \<Rightarrow> class_advice list" where
  "host_hints now window pds h =
     (let grow = grow_advice pds h in
      if grow = [] \<and> shrink_due now window pds h
      then [\<lparr>ca_Labels = [], ca_Action = AdviceShrink, ca_ColdPlacements = 0, ca_WarmHits = 0\<rparr>]
      else grow)"

definition computeHints :: "instant \<Rightarrow> broker \<Rightarrow> (string \<times> class_advice list) list" where
  "computeHints now b =
     (let pds = placed_decisions now b in
      concat (map (\<lambda>h. let hints = host_hints now (bk_demandWindow b) pds h in
        if h_up h \<and> hints \<noteq> [] then [(c_Name (h_cfg h), hints)] else []) (bk_hosts b)))"

text \<open>
  One host's turn of \<^verbatim>\<open>adviseHosts\<close>. \<open>fingerprint\<close> is the formatted advice, \<open>push\<close> the daemon's answer
  to the push.
\<close>

definition advise_host ::
  "(class_advice list \<Rightarrow> string) \<Rightarrow> call_error option \<Rightarrow> class_advice list \<Rightarrow> host \<Rightarrow> host \<times> bool"
where
  "advise_host fingerprint push hints h =
     (if \<not> h_up h \<or> h_adviseUnsupported h then (h, False)
      else
        let key = fingerprint hints in
        if h_advicePushed h \<and> h_lastAdviceKey h = key then (h, False)
        else if \<not> h_advicePushed h \<and> \<not> h_adviceResync h \<and> hints = [] then (h, False)
        else (case push of
                None \<Rightarrow> (setAdvicePushed key h, True)
              | Some (DaemonError st code) \<Rightarrow>
                  (if st = 404 \<or> st = 501 then setAdviseUnsupported h else h, True)
              | Some (TransportError e) \<Rightarrow>
                  (if strings_Contains e ''unexpected status 404'' \<or> strings_Contains e ''unexpected status 501''
                   then setAdviseUnsupported h else h, True)))"

definition hints_for :: "(string \<times> class_advice list) list \<Rightarrow> string \<Rightarrow> class_advice list" where
  "hints_for hints hname = (case map_of (rev hints) hname of None \<Rightarrow> [] | Some cs \<Rightarrow> cs)"

definition adviseHosts ::
  "(class_advice list \<Rightarrow> string) \<Rightarrow> (nat \<Rightarrow> call_error option) \<Rightarrow> instant \<Rightarrow> broker \<Rightarrow> broker"
where
  "adviseHosts fingerprint push now b =
     (let hints = computeHints now b in
      b\<lparr>bk_hosts := map (\<lambda>(i, h). fst (advise_host fingerprint (push i) (hints_for hints (c_Name (h_cfg h))) h))
         (enumerate 0 (bk_hosts b))\<rparr>)"

section \<open>Authentication\<close>

record http_request =
  hr_Method :: string
  hr_Path :: string
  hr_Authorization :: string
  hr_tokenParam :: string

definition authExempt :: "http_request \<Rightarrow> bool" where
  "authExempt r \<longleftrightarrow> hr_Method r = ''OPTIONS'' \<or> (hr_Method r = ''GET'' \<and> hr_Path r = ''/v0/healthz'') \<or>
     hr_Path r = ''/dash'' \<or> strings_HasPrefix (hr_Path r) ''/dash/''"

definition requestToken :: "http_request \<Rightarrow> string" where
  "requestToken r =
     (if hr_Authorization r \<noteq> []
      then (if strings_HasPrefix (hr_Authorization r) ''Bearer '' then drop 7 (hr_Authorization r) else [])
      else hr_tokenParam r)"

text \<open>Whether \<^verbatim>\<open>authMiddleware\<close> lets a request through to the handler.\<close>

definition authMiddleware :: "string \<Rightarrow> http_request \<Rightarrow> bool" where
  "authMiddleware token r \<longleftrightarrow>
     token = [] \<or> authExempt r \<or> (requestToken r \<noteq> [] \<and> requestToken r = token)"

end
