(* ===== verification/Mz_BrokerInv.thy ===== *)
theory Mz_BrokerInv
  imports Mz_BrokerOps
begin

text \<open>
  The broker's load counters against its routing table, over every handler and probe: the state
  machine of the broker, its invariant, and the accounting of speculative leases.
\<close>

section \<open>Exact load counters\<close>

definition live_on :: "broker \<Rightarrow> nat \<Rightarrow> string set" where
  "live_on b i = {lid. \<exists>e. bk_leases b lid = Some e \<and> e_host e = i \<and> \<not> e_terminal e}"

definition load_ok :: "broker \<Rightarrow> bool" where
  "load_ok b \<longleftrightarrow> finite (dom (bk_leases b)) \<and>
     (\<forall>lid e. bk_leases b lid = Some e \<longrightarrow> e_host e < length (bk_hosts b)) \<and>
     (\<forall>i < length (bk_hosts b). h_leases (bk_hosts b ! i) = int (card (live_on b i)))"

lemma load_okD:
  assumes "load_ok b"
  shows "finite (dom (bk_leases b))" "bk_leases b lid = Some e \<Longrightarrow> e_host e < length (bk_hosts b)"
    "i < length (bk_hosts b) \<Longrightarrow> h_leases (bk_hosts b ! i) = int (card (live_on b i))" "finite (live_on b i)"
proof -
  show f: "finite (dom (bk_leases b))" using assms by (simp add: load_ok_def)
  show "bk_leases b lid = Some e \<Longrightarrow> e_host e < length (bk_hosts b)"
    "i < length (bk_hosts b) \<Longrightarrow> h_leases (bk_hosts b ! i) = int (card (live_on b i))"
    using assms by (auto simp: load_ok_def)
  show "finite (live_on b i)" by (rule finite_subset [OF _ f]) (auto simp: live_on_def)
qed

lemma load_ok_New: "load_ok (NewBroker tok w cfgs)"
  by (simp add: load_ok_def NewBroker_def live_on_def new_host_def)

text \<open>A change that keeps which leases are live where, and the counters.\<close>

lemma load_ok_frame:
  assumes "load_ok b" "finite (dom (bk_leases c))" "length (bk_hosts c) = length (bk_hosts b)"
    "\<And>i. i < length (bk_hosts b) \<Longrightarrow> h_leases (bk_hosts c ! i) = h_leases (bk_hosts b ! i)"
    "\<And>i. live_on c i = live_on b i"
    "\<And>lid e. bk_leases c lid = Some e \<Longrightarrow> \<exists>e'. bk_leases b lid = Some e' \<and> e_host e = e_host e'"
  shows "load_ok c"
  using assms unfolding load_ok_def by metis

text \<open>One lease becomes live, or stops being live, on one host.\<close>

lemma load_ok_count:
  assumes inv: "load_ok b" and h: "h < length (bk_hosts b)"
    and hosts: "bk_hosts c = (bk_hosts b)[h := addLease n (bk_hosts b ! h)]"
    and fin: "finite (dom (bk_leases c))"
    and wf: "\<And>lid e. bk_leases c lid = Some e \<Longrightarrow> e_host e < length (bk_hosts b)"
    and other: "\<And>i. i \<noteq> h \<Longrightarrow> live_on c i = live_on b i"
    and count: "int (card (live_on c h)) = int (card (live_on b h)) + n"
  shows "load_ok c"
proof -
  have "h_leases (bk_hosts c ! i) = int (card (live_on c i))" if i: "i < length (bk_hosts c)" for i
  proof (cases "i = h")
    case True
    have "h_leases (addLease n (bk_hosts b ! h)) = int (card (live_on c h))"
      using load_okD(3) [OF inv h] count by (simp add: addLease_def)
    then show ?thesis using True h by (simp add: hosts)
  next
    case False
    then show ?thesis using i other load_okD(3) [OF inv, of i] by (simp add: hosts)
  qed
  then show ?thesis using fin wf by (simp add: load_ok_def hosts)
qed

lemma rememberLease_ok:
  assumes inv: "load_ok b" and fresh: "bk_leases b (l_ID l) = None" and h: "h < length (bk_hosts b)"
  shows "load_ok (rememberLease now l h b)"
proof -
  let ?c = "rememberLease now l h b"
  have L: "bk_leases ?c = (bk_leases b)(l_ID l \<mapsto> \<lparr>e_host = h, e_state = l_State l, e_lastPoll = now, e_terminalAt = None\<rparr>)"
    and H: "bk_hosts ?c = (bk_hosts b)[h := addLease 1 (bk_hosts b ! h)]"
    by (simp_all add: rememberLease_def update_host_def)
  have "live_on ?c h = insert (l_ID l) (live_on b h)" "l_ID l \<notin> live_on b h"
    using fresh by (auto simp: live_on_def L)
  then have "int (card (live_on ?c h)) = int (card (live_on b h)) + 1"
    using load_okD(4) [OF inv, of h] by simp
  moreover have "live_on ?c i = live_on b i" if "i \<noteq> h" for i using that fresh by (auto simp: live_on_def L)
  ultimately show ?thesis
    using load_okD(1,2) [OF inv] h by (intro load_ok_count [OF inv h H]) (auto simp: L split: if_splits)
qed

lemma retire_ok:
  assumes inv: "load_ok b" and e: "bk_leases b lid = Some e" "\<not> e_terminal e"
    and L: "bk_leases c = (bk_leases b)(lid := v)" and v: "\<And>e'. v = Some e' \<Longrightarrow> e_terminal e' \<and> e_host e' = e_host e"
    and H: "bk_hosts c = (bk_hosts b)[e_host e := addLease (-1) (bk_hosts b ! e_host e)]"
  shows "load_ok c"
proof -
  have h: "e_host e < length (bk_hosts b)" using load_okD(2) [OF inv e(1)] .
  have gone: "lid \<notin> live_on c i" for i using v by (cases v) (auto simp: live_on_def L)
  have rest: "k \<in> live_on c i \<longleftrightarrow> k \<in> live_on b i" if "k \<noteq> lid" for k i
    using that by (simp add: live_on_def L)
  have minus: "live_on c i = live_on b i - {lid}" for i
  proof (rule set_eqI)
    show "k \<in> live_on c i \<longleftrightarrow> k \<in> live_on b i - {lid}" for k
      using gone [of i] rest [of k i] by (cases "k = lid") simp_all
  qed
  have eq: "live_on c (e_host e) = live_on b (e_host e) - {lid}" "lid \<in> live_on b (e_host e)"
    using e by (simp_all add: minus) (simp add: live_on_def)
  have "Suc (card (live_on c (e_host e))) = card (live_on b (e_host e))"
    unfolding eq(1) by (rule card_Suc_Diff1 [OF load_okD(4) [OF inv] eq(2)])
  then have "int (card (live_on c (e_host e))) = int (card (live_on b (e_host e))) + (-1)" by linarith
  moreover have "live_on c i = live_on b i" if "i \<noteq> e_host e" for i
  proof -
    have "lid \<notin> live_on b i" using that e by (auto simp: live_on_def)
    then show ?thesis using minus [of i] by simp
  qed
  moreover have "finite (dom (bk_leases c))"
    by (rule finite_subset [of _ "insert lid (dom (bk_leases b))"]) (use load_okD(1) [OF inv] in \<open>auto simp: L split: if_splits\<close>)
  moreover have "e_host x < length (bk_hosts b)" if "bk_leases c k = Some x" for k x
    using that v h load_okD(2) [OF inv] by (auto simp: L split: if_splits)
  ultimately show ?thesis by (intro load_ok_count [OF inv h H])
qed

lemma rewrite_ok:
  assumes inv: "load_ok b" and e: "bk_leases b lid = Some e" and L: "bk_leases c = (bk_leases b)(lid \<mapsto> e')"
    and e': "e_host e' = e_host e" "e_terminalAt e' = e_terminalAt e" and H: "bk_hosts c = bk_hosts b"
  shows "load_ok c"
proof (rule load_ok_frame [OF inv])
  show "finite (dom (bk_leases c))" using load_okD(1) [OF inv] by (simp add: L)
  show "live_on c i = live_on b i" for i using e e' by (auto simp: live_on_def L)
  show "\<exists>x'. bk_leases b k = Some x' \<and> e_host x = e_host x'" if "bk_leases c k = Some x" for k x
    using that e e' by (auto simp: L split: if_splits)
qed (simp_all add: H)

lemma markLeaseTerminal_ok:
  assumes inv: "load_ok b"
  shows "load_ok (markLeaseTerminal now lid st b)"
proof (cases "bk_leases b lid")
  case None
  then show ?thesis using inv by (simp add: markLeaseTerminal_def)
next
  case (Some e)
  show ?thesis
  proof (cases "e_terminal e")
    case True
    show ?thesis
      by (rule rewrite_ok [OF inv Some, where e' = "e\<lparr>e_state := st\<rparr>"])
        (use Some True in \<open>auto simp: markLeaseTerminal_def\<close>)
  next
    case False
    show ?thesis
      by (rule retire_ok [OF inv Some False, where v = "Some (e\<lparr>e_state := st, e_terminalAt := Some now\<rparr>)"])
        (use Some False in \<open>auto simp: markLeaseTerminal_def update_host_def\<close>)
  qed
qed

lemma noteLeaseState_ok:
  assumes inv: "load_ok b"
  shows "load_ok (noteLeaseState now lid st b)"
proof (cases "bk_leases b lid")
  case None
  then show ?thesis using inv markLeaseTerminal_ok [OF inv] by (simp add: noteLeaseState_def)
next
  case (Some e)
  have "load_ok (b\<lparr>bk_leases := (bk_leases b)(lid \<mapsto> e\<lparr>e_state := st, e_lastPoll := now\<rparr>)\<rparr>)"
    by (rule rewrite_ok [OF inv Some, where e' = "e\<lparr>e_state := st, e_lastPoll := now\<rparr>"]) simp_all
  then show ?thesis using Some markLeaseTerminal_ok [OF inv] by (simp add: noteLeaseState_def)
qed

lemma forgetLease_ok:
  assumes inv: "load_ok b"
  shows "load_ok (forgetLease lid b)"
proof (cases "bk_leases b lid")
  case None
  then show ?thesis using inv by (simp add: forgetLease_def)
next
  case (Some e)
  show ?thesis
  proof (cases "e_terminal e")
    case True
    have "load_ok (b\<lparr>bk_leases := (bk_leases b)(lid := None)\<rparr>)"
    proof (rule load_ok_frame [OF inv])
      show "finite (dom (bk_leases (b\<lparr>bk_leases := (bk_leases b)(lid := None)\<rparr>)))"
        using load_okD(1) [OF inv] by simp
      show "live_on (b\<lparr>bk_leases := (bk_leases b)(lid := None)\<rparr>) i = live_on b i" for i
        using Some True by (auto simp: live_on_def)
    qed (auto split: if_splits)
    then show ?thesis using Some True by (simp add: forgetLease_def)
  next
    case False
    show ?thesis
      by (rule retire_ok [OF inv Some False, where v = None])
        (use Some False in \<open>auto simp: forgetLease_def update_host_def\<close>)
  qed
qed

lemma pruneTombstones_ok:
  assumes inv: "load_ok b"
  shows "load_ok (pruneTombstones now b)"
proof (rule load_ok_frame [OF inv])
  let ?c = "pruneTombstones now b"
  have L: "bk_leases ?c lid = Some e \<longleftrightarrow>
      bk_leases b lid = Some e \<and> (\<forall>at. e_terminalAt e = Some at \<longrightarrow> \<not> now - at > TerminalRetention)" for lid e
    by (auto simp: pruneTombstones_def split: option.splits)
  have "dom (bk_leases ?c) \<subseteq> dom (bk_leases b)" using L by blast
  then show "finite (dom (bk_leases ?c))" using load_okD(1) [OF inv] by (rule finite_subset)
  show "live_on ?c i = live_on b i" for i by (auto simp: live_on_def L)
  show "\<exists>e'. bk_leases b lid = Some e' \<and> e_host e = e_host e'" if "bk_leases ?c lid = Some e" for lid e
    using that L by blast
qed (simp_all add: pruneTombstones_def)

lemma load_ok_more [simp]:
  "load_ok (b\<lparr>bk_orphans := x\<rparr>) = load_ok b"
  "load_ok (b\<lparr>bk_rr := y\<rparr>) = load_ok b"
  "load_ok (b\<lparr>bk_decisions := z\<rparr>) = load_ok b"
  by (simp_all add: load_ok_def live_on_def)

text \<open>Updating a host in a way that keeps its counter.\<close>

lemma load_ok_hosts:
  assumes "load_ok b" "length hs = length (bk_hosts b)"
    "\<And>i. i < length (bk_hosts b) \<Longrightarrow> h_leases (hs ! i) = h_leases (bk_hosts b ! i)"
  shows "load_ok (b\<lparr>bk_hosts := hs\<rparr>)"
  using assms by (auto simp: load_ok_def live_on_def)

lemma update_host_ok:
  assumes "load_ok b" "\<And>h. h_leases (f h) = h_leases h"
  shows "load_ok (update_host i f b)"
proof -
  have "h_leases ((bk_hosts b)[i := f (bk_hosts b ! i)] ! j) = h_leases (bk_hosts b ! j)"
    if "j < length (bk_hosts b)" for j
    using that assms(2) by (cases "j = i") simp_all
  then show ?thesis unfolding update_host_def using assms(1) by (intro load_ok_hosts) simp_all
qed

section \<open>Handlers and probes keep the counters exact\<close>

lemma length_update_host [simp]: "length (bk_hosts (update_host i f b)) = length (bk_hosts b)"
  by (simp add: update_host_def)

lemma reconcile_one_ok:
  assumes inv: "load_ok b"
  shows "load_ok (reconcile_one d now h lid b)"
proof -
  have "load_ok (b\<lparr>bk_leases := (bk_leases b)(lid \<mapsto> e\<lparr>e_state := st, e_lastPoll := p\<rparr>)\<rparr>)"
    if "bk_leases b lid = Some e" for e st p
    by (rule rewrite_ok [OF inv that, where e' = "e\<lparr>e_state := st, e_lastPoll := p\<rparr>"]) simp_all
  then show ?thesis
    using inv forgetLease_ok [OF inv] markLeaseTerminal_ok [OF inv]
    by (auto simp: reconcile_one_def split: sum.split call_error.split option.split)
qed

lemma fold_load_ok: "load_ok b \<Longrightarrow> (\<And>x b. load_ok b \<Longrightarrow> load_ok (f x b)) \<Longrightarrow> load_ok (fold f xs b)"
  by (induction xs arbitrary: b) auto

lemma releaseOrphans_ok: "load_ok b \<Longrightarrow> load_ok (releaseOrphans d ks h b)"
  unfolding releaseOrphans_def by (rule fold_load_ok) (auto simp: release_orphan_def)

lemma reconcileLeases_ok: "load_ok b \<Longrightarrow> load_ok (reconcileLeases d now oks ks h b)"
  unfolding reconcileLeases_def Let_def
  by (intro fold_load_ok reconcile_one_ok releaseOrphans_ok pruneTombstones_ok)

lemma probe_ok:
  assumes "load_ok b"
  shows "load_ok (probe d now oks ks i b)"
proof -
  have stats: "load_ok (fetchStats d now i c)" if "load_ok c" for c
    unfolding fetchStats_def using that
    by (auto split: sum.split call_error.split intro!: update_host_ok simp: setStats_def)
  have up: "load_ok (update_host i (probe_up now build ts) b)" for build ts
    using assms by (intro update_host_ok) (auto simp: probe_up_def Let_def split: sum.split)
  have down: "load_ok (update_host i (probe_down now msg) b)" for msg
    using assms by (intro update_host_ok) (auto simp: probe_down_def)
  show ?thesis
    unfolding probe_def Let_def using up down stats reconcileLeases_ok by (auto split: sum.split)
qed

lemma handleListTargets_ok:
  assumes "load_ok b"
  shows "load_ok (fst (handleListTargets d b))"
proof -
  have "h_leases (fst (list_host_targets d (i, h))) = h_leases h" for i h
    by (simp add: list_host_targets_def setCachedTargets_def split: sum.split)
  then show ?thesis
    using assms unfolding handleListTargets_def Let_def fst_conv
    by (intro load_ok_hosts) (simp_all add: nth_enumerate_eq)
qed

lemma adviseHosts_ok:
  assumes "load_ok b"
  shows "load_ok (adviseHosts fp push now b)"
proof -
  have "h_leases (fst (advise_host fp p hints h)) = h_leases h" for p hints h
    by (auto simp: advise_host_def Let_def setAdvicePushed_def setAdviseUnsupported_def
        split: option.split call_error.split)
  then show ?thesis
    using assms unfolding adviseHosts_def Let_def
    by (intro load_ok_hosts) (simp_all add: nth_enumerate_eq)
qed

lemma proxyLeaseOp_ok: "load_ok b \<Longrightarrow> load_ok (fst (proxyLeaseOp now f lid b))"
  by (auto simp: proxyLeaseOp_def forgetLease_ok noteLeaseState_ok split: option.split sum.split call_error.split)

section \<open>Speculative leases are accounted for\<close>

text \<open>
  What the broker relies on from the daemons: a lease is looked up under its own ID, and the IDs of
  the leases a request creates are new and differ from host to host.
\<close>

definition daemon_laws :: "daemon \<Rightarrow> broker \<Rightarrow> bool" where
  "daemon_laws d b \<longleftrightarrow>
     (\<forall>h lid l. d_get d h lid = Inr l \<longrightarrow> l_ID l = lid) \<and>
     (\<forall>h r l. d_acquire d h r = Inr l \<longrightarrow> bk_leases b (l_ID l) = None) \<and>
     (\<forall>h r l h' r' l'. d_acquire d h r = Inr l \<longrightarrow> d_acquire d h' r' = Inr l' \<longrightarrow> h \<noteq> h' \<longrightarrow> l_ID l \<noteq> l_ID l')"

text \<open>
  A created lease is settled when its release was confirmed or it is an orphan to be released
  later; the loop keeps at most one more, the queue slot in hand.
\<close>

definition settled_lease :: "wired \<Rightarrow> nat \<Rightarrow> string \<Rightarrow> bool" where
  "settled_lease w h lid \<longleftrightarrow> Released h lid \<in> set (snd w) \<or> bk_orphans (fst w) lid = Some h"

definition accounted :: "daemon \<Rightarrow> wired \<Rightarrow> (string \<times> nat) set \<Rightarrow> bool" where
  "accounted d w kept \<longleftrightarrow>
     (\<forall>h lid. Created h lid \<in> set (snd w) \<longrightarrow> settled_lease w h lid \<or> (lid, h) \<in> kept) \<and>
     (\<forall>h lid. Created h lid \<in> set (snd w) \<longrightarrow> (\<exists>r l. d_acquire d h r = Inr l \<and> l_ID l = lid))"

lemma accounted_mono: "accounted d w K \<Longrightarrow> K \<subseteq> K' \<Longrightarrow> accounted d w K'"
  unfolding accounted_def by blast

lemma created_unique:
  assumes "daemon_laws d b" "accounted d w K" "Created h lid \<in> set (snd w)" "Created h' lid \<in> set (snd w)"
  shows "h = h'"
  using assms unfolding daemon_laws_def accounted_def by metis

text \<open>Releasing a lease settles it and unsettles no other.\<close>

lemma releaseQuietly_accounted:
  assumes laws: "daemon_laws d b" and acc: "accounted d w (insert (lid, h) K)"
    and cr: "Created h lid \<in> set (snd w)"
  shows "accounted d (releaseQuietly d h lid w) K" "set (snd w) \<subseteq> set (snd (releaseQuietly d h lid w))"
    "bk_leases (fst (releaseQuietly d h lid w)) = bk_leases (fst w)"
    "bk_hosts (fst (releaseQuietly d h lid w)) = bk_hosts (fst w)"
proof -
  obtain c tr where w: "w = (c, tr)" by (cases w)
  let ?w = "releaseQuietly d h lid w"
  have same: "Created k j \<in> set (snd ?w) \<longleftrightarrow> Created k j \<in> set tr" for k j
    by (auto simp: releaseQuietly_def w)
  have done_lid: "settled_lease ?w h lid" by (simp add: settled_lease_def releaseQuietly_def w)
  have keep: "settled_lease ?w k j" if "settled_lease w k j" "Created k j \<in> set tr" for k j
  proof (cases "j = lid")
    case True
    then show ?thesis using created_unique [OF laws acc cr] that(2) done_lid by (simp add: w)
  next
    case False
    then show ?thesis using that(1) by (auto simp: settled_lease_def releaseQuietly_def w)
  qed
  show "accounted d ?w K"
    unfolding accounted_def
  proof (intro conjI allI impI)
    fix k j assume "Created k j \<in> set (snd ?w)"
    then have cr': "Created k j \<in> set tr" using same by simp
    then have "settled_lease w k j \<or> (j, k) \<in> insert (lid, h) K" using acc by (auto simp: accounted_def w)
    then show "settled_lease ?w k j \<or> (j, k) \<in> K" using keep cr' done_lid by auto
    show "\<exists>r l. d_acquire d k r = Inr l \<and> l_ID l = j" using acc cr' by (simp add: accounted_def w)
  qed
  show "set (snd w) \<subseteq> set (snd ?w)" "bk_leases (fst ?w) = bk_leases (fst w)" "bk_hosts (fst ?w) = bk_hosts (fst w)"
    by (auto simp: releaseQuietly_def w)
qed

text \<open>The invariant of the acquire loop, over the leases in hand.\<close>

definition in_hand :: "daemon \<Rightarrow> broker \<Rightarrow> wired \<Rightarrow> (string \<times> nat) set \<Rightarrow> bool" where
  "in_hand d b w K \<longleftrightarrow> accounted d w K \<and> load_ok (fst w) \<and> bk_leases (fst w) = bk_leases b \<and>
     bk_hosts (fst w) = bk_hosts b \<and>
     (\<forall>(lid, h) \<in> K. Created h lid \<in> set (snd w) \<and> h < length (bk_hosts b))"

text \<open>
  The end of an acquire: the counters are exact, and every lease it created is settled, except the
  one it answers with, which the routing table knows.
\<close>

definition acquire_done :: "daemon \<Rightarrow> wired \<Rightarrow> response \<Rightarrow> bool" where
  "acquire_done d w r \<longleftrightarrow> load_ok (fst w) \<and>
     (\<forall>h lid. Created h lid \<in> set (snd w) \<longrightarrow> settled_lease w h lid \<or>
        (\<exists>l. (r = Granted l \<or> r = Accepted l) \<and> l_ID l = lid \<and> hostForLease (fst w) lid = Some h))"

lemma in_hand_release:
  assumes laws: "daemon_laws d b" and ih: "in_hand d b w (insert (lid, h) K)"
  shows "in_hand d b (releaseQuietly d h lid w) K"
proof -
  have acc: "accounted d w (insert (lid, h) K)" and cr: "Created h lid \<in> set (snd w)"
    using ih by (auto simp: in_hand_def)
  note R = releaseQuietly_accounted [OF laws acc cr]
  have "load_ok (fst (releaseQuietly d h lid w))"
    using ih by (auto simp: in_hand_def releaseQuietly_def split: prod.split)
  then show ?thesis using ih R by (auto simp: in_hand_def)
qed

lemma in_hand_insert: "in_hand d b w (insert x K) \<Longrightarrow> in_hand d b w (insert x (insert x K))"
  by simp

lemma record_decision_fields [simp]:
  "bk_leases (record_decision q oc win lid b) = bk_leases b" "bk_orphans (record_decision q oc win lid b) = bk_orphans b"
  "load_ok (record_decision q oc win lid b) = load_ok b"
  "hostForLease (record_decision q oc win lid b) = hostForLease b"
  by (simp_all add: record_decision_def hostForLease_def fun_eq_iff)

lemma deliver_done:
  assumes laws: "daemon_laws (q_daemon q) b" and ih: "in_hand (q_daemon q) b w {(l_ID l, h)}"
    and resp: "\<And>l. respond l = Granted l \<or> respond l = Accepted l"
  shows "acquire_done (q_daemon q) (fst (deliver q oc respond l h w)) (snd (deliver q oc respond l h w))"
proof (cases "q_gone q")
  case True
  have "in_hand (q_daemon q) b (releaseQuietly (q_daemon q) h (l_ID l) w) {}"
    using in_hand_release [OF laws ih] .
  then show ?thesis using True by (auto simp: deliver_def acquire_done_def in_hand_def accounted_def)
next
  case False
  obtain c tr where w: "w = (c, tr)" by (cases w)
  have acc: "accounted (q_daemon q) w {(l_ID l, h)}" and cr: "Created h (l_ID l) \<in> set tr" and h: "h < length (bk_hosts c)"
    and lc: "load_ok c" and bl: "bk_leases c = bk_leases b"
    using ih by (auto simp: in_hand_def w)
  have "bk_leases c (l_ID l) = None"
    using acc cr laws unfolding accounted_def daemon_laws_def bl by (metis w snd_conv)
  then have "load_ok (rememberLease (q_now q) l h c)" using lc h by (intro rememberLease_ok)
  moreover have "settled_lease (record_decision q oc (Some h) (l_ID l) (rememberLease (q_now q) l h c), tr) k j \<or>
       (j = l_ID l \<and> hostForLease (rememberLease (q_now q) l h c) j = Some k)" if "Created k j \<in> set tr" for k j
    using acc that by (auto simp: accounted_def w settled_lease_def rememberLease_def update_host_def hostForLease_def)
  ultimately show ?thesis
    using False resp [of l] by (auto simp: deliver_def w acquire_done_def)
qed

lemma releaseSpeculative_cases:
  assumes "daemon_laws d b"
  obtains a where "releaseSpeculative d h lid reset w = (w, Some a)" "l_ID a = lid"
  | "releaseSpeculative d h lid reset w = (releaseQuietly d h lid w, None)"
proof (cases "reset \<and> (\<exists>cur. d_get d h lid = Inr cur \<and> l_State cur = LeaseActive)")
  case True
  then obtain cur where c: "d_get d h lid = Inr cur" "l_State cur = LeaseActive" by blast
  moreover have "l_ID cur = lid" using assms c(1) by (simp add: daemon_laws_def)
  ultimately show ?thesis
    using True that(1) [of "annotate (fst w) h cur"] by (simp add: releaseSpeculative_def annotate_def)
next
  case False
  then have "releaseSpeculative d h lid reset w = (releaseQuietly d h lid w, None)"
    by (auto simp: releaseSpeculative_def split: sum.split)
  then show ?thesis by (rule that(2))
qed

definition held :: "(lease \<times> nat) option \<Rightarrow> (string \<times> nat) set" where
  "held queued = (case queued of None \<Rightarrow> {} | Some (l, h) \<Rightarrow> {(l_ID l, h)})"

lemma acquire_grant_done:
  assumes laws: "daemon_laws (q_daemon q) b" and ih: "in_hand (q_daemon q) b w (insert (l_ID l, h) (held queued))"
  shows "acquire_done (q_daemon q) (fst (acquire_grant q queued l h w)) (snd (acquire_grant q queued l h w))"
proof (cases queued)
  case None
  then show ?thesis using deliver_done [OF laws, where respond = Granted] ih by (simp add: acquire_grant_def held_def)
next
  case (Some p)
  obtain ql qh where p: "p = (ql, qh)" by (cases p)
  let ?d = "q_daemon q" and ?reset = "wantsReset (r_Reset (q_req q))"
  have ih1: "in_hand ?d b w (insert (l_ID ql, qh) {(l_ID l, h)})"
    using ih by (simp add: Some p held_def insert_commute)
  show ?thesis
  proof (rule releaseSpeculative_cases [OF laws, of qh "l_ID ql" ?reset w])
    fix a assume a: "releaseSpeculative ?d qh (l_ID ql) ?reset w = (w, Some a)" "l_ID a = l_ID ql"
    have "in_hand ?d b (releaseQuietly ?d h (l_ID l) w) {(l_ID a, qh)}"
      using in_hand_release [OF laws] ih1 a(2) by (simp add: insert_commute)
    then show ?thesis using deliver_done [OF laws, where respond = Granted] a(1) by (simp add: acquire_grant_def Some p)
  next
    assume a: "releaseSpeculative ?d qh (l_ID ql) ?reset w = (releaseQuietly ?d qh (l_ID ql) w, None)"
    have "in_hand ?d b (releaseQuietly ?d qh (l_ID ql) w) {(l_ID l, h)}" using laws ih1 by (rule in_hand_release)
    then show ?thesis using deliver_done [OF laws, where respond = Granted] a by (simp add: acquire_grant_def Some p)
  qed
qed

lemma acquire_finish_done:
  assumes laws: "daemon_laws (q_daemon q) b" and ih: "in_hand (q_daemon q) b w (held queued)"
  shows "acquire_done (q_daemon q) (fst (acquire_finish q queued derr terr w)) (snd (acquire_finish q queued derr terr w))"
proof (cases queued)
  case None
  have "acquire_done (q_daemon q) (record_decision q oc None [] (fst w), snd w) r" for oc r
    using ih by (auto simp: None held_def in_hand_def acquire_done_def accounted_def settled_lease_def)
  then show ?thesis by (auto simp: acquire_finish_def None split: option.split)
next
  case (Some p)
  then show ?thesis
    using deliver_done [OF laws, where respond = Accepted] ih by (cases p) (simp add: acquire_finish_def held_def)
qed

lemma in_hand_created:
  assumes ih: "in_hand d b (c, tr) K" and ans: "d_acquire d h r = Inr l" and h: "h < length (bk_hosts b)"
  shows "in_hand d b (c, tr @ [Created h (l_ID l)]) (insert (l_ID l, h) K)"
proof -
  have "accounted d (c, tr @ [Created h (l_ID l)]) (insert (l_ID l, h) K)"
    unfolding accounted_def
  proof (intro conjI allI impI)
    fix k j assume "Created k j \<in> set (snd (c, tr @ [Created h (l_ID l)]))"
    then have "Created k j \<in> set tr \<or> k = h \<and> j = l_ID l" by auto
    then show "settled_lease (c, tr @ [Created h (l_ID l)]) k j \<or> (j, k) \<in> insert (l_ID l, h) K"
      using ih by (auto simp: in_hand_def accounted_def settled_lease_def)
    show "\<exists>r l'. d_acquire d k r = Inr l' \<and> l_ID l' = j"
      using \<open>Created k j \<in> set tr \<or> k = h \<and> j = l_ID l\<close> ih ans by (auto simp: in_hand_def accounted_def)
  qed
  then show ?thesis using ih h by (auto simp: in_hand_def)
qed

lemma acquire_loop_done:
  assumes laws: "daemon_laws (q_daemon q) b" and ih: "in_hand (q_daemon q) b w (held queued)"
    and hs: "\<forall>h \<in> set hs. h < length (bk_hosts b)"
  shows "acquire_done (q_daemon q) (fst (acquire_loop q hs queued derr terr w)) (snd (acquire_loop q hs queued derr terr w))"
  using ih hs
proof (induction hs arbitrary: queued derr terr w)
  case Nil
  then show ?case using acquire_finish_done [OF laws] by simp
next
  case (Cons h hs)
  let ?d = "q_daemon q" and ?reset = "wantsReset (r_Reset (q_req q))"
  let ?r = "(q_req q)\<lparr>r_Labels := stripHostLabels (r_Labels (q_req q)) (bk_hosts (fst w) ! h)\<rparr>"
  obtain c tr where w: "w = (c, tr)" by (cases w)
  have hs': "\<forall>h \<in> set hs. h < length (bk_hosts b)" using Cons.prems(2) by simp
  show ?case
  proof (cases "d_acquire ?d h ?r")
    case (Inl e)
    then show ?thesis using Cons.IH [OF Cons.prems(1) hs'] by (cases e) simp_all
  next
    case (Inr l0)
    let ?l = "annotate (fst w) h l0" and ?w = "(fst w, snd w @ [Created h (l_ID l0)])"
    have lid: "l_ID ?l = l_ID l0" "l_State ?l = l_State l0" by (simp_all add: annotate_def)
    have h: "in_hand ?d b ?w (insert (l_ID ?l, h) (held queued))"
      using in_hand_created [OF _ Inr] Cons.prems lid by (simp add: w)
    show ?thesis
    proof (cases "l_State ?l = LeaseActive")
      case True
      then show ?thesis using Inr lid acquire_grant_done [OF laws h] by (simp add: Let_def)
    next
      case False
      show ?thesis
      proof (cases queued)
        case None
        then have "in_hand ?d b ?w (held (Some (?l, h)))" using h by (simp add: held_def)
        then show ?thesis using Cons.IH [OF _ hs'] Inr False lid None by (simp add: Let_def)
      next
        case (Some p)
        obtain ql qh where p: "p = (ql, qh)" by (cases p)
        define swap where "swap = (queuedDepth (bk_hosts (fst w) ! h) < queuedDepth (bk_hosts (fst w) ! qh))"
        define dl where "dl = (if swap then ql else ?l)"
        define dh where "dh = (if swap then qh else h)"
        define keep where "keep = (if swap then (?l, h) else (ql, qh))"
        have ih2: "in_hand ?d b ?w (insert (l_ID dl, dh) (held (Some keep)))"
          using h by (auto simp: Some p held_def dl_def dh_def keep_def insert_commute)
        have eq: "acquire_loop q (h # hs) queued derr terr w =
            (case releaseSpeculative ?d dh (l_ID dl) ?reset ?w of
               (w2, None) \<Rightarrow> acquire_loop q hs (Some keep) derr terr w2
             | (w2, Some a) \<Rightarrow> acquire_grant q (Some keep) a dh w2)"
          using Inr False lid unfolding dl_def dh_def keep_def swap_def by (simp add: Some p Let_def)
        show ?thesis
        proof (rule releaseSpeculative_cases [OF laws, of dh "l_ID dl" ?reset ?w])
          fix a assume a: "releaseSpeculative ?d dh (l_ID dl) ?reset ?w = (?w, Some a)" "l_ID a = l_ID dl"
          then show ?thesis unfolding eq using acquire_grant_done [OF laws, of ?w a "dh" "Some keep"] ih2 by simp
        next
          assume "releaseSpeculative ?d dh (l_ID dl) ?reset ?w = (releaseQuietly ?d dh (l_ID dl) ?w, None)"
          then show ?thesis
            unfolding eq using Cons.IH [OF in_hand_release [OF laws ih2] hs'] by simp
        qed
      qed
    qed
  qed
qed

end
