(* ===== verification/Mz_LeaseInv.thy ===== *)
theory Mz_LeaseInv
  imports Mz_Lease
begin

text \<open>
  The well-formedness invariant of the lease manager and its preservation: the lease table, the
  holder table, the queues and the bookkeeping maps agree with one another. Preservation is proved
  once per primitive state change; the loops follow by induction and the methods by composition.
  Since a method that panics is \<^const>\<open>None\<close>, every preservation lemma (stated with
  \<^const>\<open>succeeds\<close>) also says that the method does not dereference a nil lease.
\<close>

section \<open>The invariant\<close>

text \<open>A lease sits under its own ID, which is not one of the sentinels.\<close>
definition id_ok :: "string \<Rightarrow> lease \<Rightarrow> bool" where
  "id_ok lid l \<longleftrightarrow> l_ID l = lid \<and> lid \<noteq> resetSentinel \<and> lid \<noteq> reserveSentinel"

definition ids_ok :: "manager \<Rightarrow> bool" where
  "ids_ok s \<longleftrightarrow> (\<forall>lid l. m_leases s lid = Some l \<longrightarrow> id_ok lid l)"

text \<open>A held target is under a sentinel or under an active lease on that very target.\<close>
definition holders_ok :: "manager \<Rightarrow> bool" where
  "holders_ok s \<longleftrightarrow> (\<forall>u lid. m_byTarget s u = Some lid \<longrightarrow>
     lid = resetSentinel \<or> lid = reserveSentinel \<or>
     (\<exists>l. m_leases s lid = Some l \<and> is_active l \<and> l_TargetUDID l = u))"

text \<open>An active lease holds its target and has an expiry.\<close>
definition actives_ok :: "manager \<Rightarrow> bool" where
  "actives_ok s \<longleftrightarrow> (\<forall>lid l. m_leases s lid = Some l \<longrightarrow> is_active l \<longrightarrow>
     m_byTarget s (l_TargetUDID l) = Some lid \<and> l_ExpiresAt l \<noteq> None)"

text \<open>Queues are non-empty, without repetition, and hold queued leases of their own key.\<close>
definition queues_ok :: "manager \<Rightarrow> bool" where
  "queues_ok s \<longleftrightarrow> (\<forall>key q. m_queues s key = Some q \<longrightarrow> q \<noteq> [] \<and> distinct q \<and>
     (\<forall>lid \<in> set q. \<exists>l. m_leases s lid = Some l \<and> is_queued l \<and> leaseQueueKey l = key))"

text \<open>A queued lease waits in the queue of its key.\<close>
definition queued_ok :: "manager \<Rightarrow> bool" where
  "queued_ok s \<longleftrightarrow> (\<forall>lid l. m_leases s lid = Some l \<longrightarrow> is_queued l \<longrightarrow>
     lid \<in> set (queue_of s (leaseQueueKey l)))"

text \<open>Exactly the queued leases have an abandonment deadline; only they can have been polled.\<close>
definition deadlines_ok :: "manager \<Rightarrow> bool" where
  "deadlines_ok s \<longleftrightarrow> (\<forall>lid. m_queueDeadline s lid \<noteq> None \<longleftrightarrow> (\<exists>l. m_leases s lid = Some l \<and> is_queued l))
     \<and> (\<forall>lid \<in> m_queuePolled s. m_queueDeadline s lid \<noteq> None)"

text \<open>Exactly the terminal leases have a retirement instant.\<close>
definition terminal_ok :: "manager \<Rightarrow> bool" where
  "terminal_ok s \<longleftrightarrow> (\<forall>lid. m_terminalAt s lid \<noteq> None \<longleftrightarrow> (\<exists>l. m_leases s lid = Some l \<and> is_terminal l))"

text \<open>Every stored lease has a state, a TTL within bounds, and is paused only while active.\<close>
definition lease_wf :: "lease \<Rightarrow> bool" where
  "lease_wf l \<longleftrightarrow> l_State l \<noteq> LeaseUnset \<and> 1 \<le> l_TTLSeconds l \<and> l_TTLSeconds l \<le> 3600 \<and>
     (l_Paused l \<longrightarrow> is_active l)"

definition leases_ok :: "manager \<Rightarrow> bool" where
  "leases_ok s \<longleftrightarrow> (\<forall>lid l. m_leases s lid = Some l \<longrightarrow> lease_wf l)"

definition mgr_inv :: "manager \<Rightarrow> bool" where
  "mgr_inv s \<longleftrightarrow> ids_ok s \<and> holders_ok s \<and> actives_ok s \<and> queues_ok s \<and> queued_ok s \<and>
     deadlines_ok s \<and> terminal_ok s \<and> leases_ok s"

lemmas inv_defs = mgr_inv_def ids_ok_def holders_ok_def actives_ok_def queues_ok_def queued_ok_def
  deadlines_ok_def terminal_ok_def leases_ok_def

lemma mgr_invD:
  assumes "mgr_inv s"
  shows "ids_ok s" "holders_ok s" "actives_ok s" "queues_ok s" "queued_ok s" "deadlines_ok s"
    "terminal_ok s" "leases_ok s"
  using assms by (simp_all add: mgr_inv_def)

lemma mgr_inv_newManager: "mgr_inv (newManager b)"
  by (simp add: inv_defs newManager_def)

text \<open>The invariant does not read the other fields.\<close>

lemma mgr_inv_more [simp]:
  "mgr_inv (s\<lparr>m_targets := a\<rparr>) = mgr_inv s"
  "mgr_inv (s\<lparr>m_pendingResets := b\<rparr>) = mgr_inv s"
  "mgr_inv (s\<lparr>m_resetInFlight := c\<rparr>) = mgr_inv s"
  "mgr_inv (s\<lparr>m_dirty := d\<rparr>) = mgr_inv s"
  "mgr_inv (s\<lparr>m_takeoverHold := e\<rparr>) = mgr_inv s"
  "mgr_inv (s\<lparr>m_preGrant := f\<rparr>) = mgr_inv s"
  "mgr_inv (s\<lparr>m_grace := g\<rparr>) = mgr_inv s"
  "mgr_inv (s\<lparr>m_resetFn := h\<rparr>) = mgr_inv s"
  "mgr_inv (s\<lparr>m_onActive := j\<rparr>) = mgr_inv s"
  "mgr_inv (s\<lparr>m_ranges := k\<rparr>) = mgr_inv s"
  "mgr_inv (next_range s) = mgr_inv s"
  by (simp_all add: inv_defs queue_of_def next_range_def)

lemma queue_of_Some: "queue_of s key \<noteq> [] \<Longrightarrow> m_queues s key = Some (queue_of s key)"
  by (auto simp: queue_of_def split: option.splits)

lemma queue_entry:
  assumes "mgr_inv s" "lid \<in> set (queue_of s key)"
  shows "\<exists>l. m_leases s lid = Some l \<and> is_queued l \<and> leaseQueueKey l = key \<and> l_ID l = lid"
proof -
  have "m_queues s key = Some (queue_of s key)" using assms(2) by (intro queue_of_Some) auto
  then have "\<exists>l. m_leases s lid = Some l \<and> is_queued l \<and> leaseQueueKey l = key"
    using mgr_invD(4) [OF assms(1)] assms(2) unfolding queues_ok_def by blast
  then show ?thesis using mgr_invD(1) [OF assms(1)] unfolding ids_ok_def id_ok_def by blast
qed

lemma distinct_queue: "mgr_inv s \<Longrightarrow> distinct (queue_of s key)"
  by (cases "queue_of s key = []") (auto dest: queue_of_Some simp: inv_defs)

lemma lease_at: "mgr_inv s \<Longrightarrow> m_leases s lid = Some l \<Longrightarrow> l_ID l = lid"
  by (simp add: inv_defs id_ok_def)

lemma activeD:
  "mgr_inv s \<Longrightarrow> m_leases s lid = Some l \<Longrightarrow> is_active l \<Longrightarrow>
   m_byTarget s (l_TargetUDID l) = Some lid \<and> l_ExpiresAt l \<noteq> None"
  using mgr_invD(3) by (simp add: actives_ok_def)

lemma holderD:
  "mgr_inv s \<Longrightarrow> m_byTarget s u = Some lid \<Longrightarrow> lid = resetSentinel \<or> lid = reserveSentinel \<or>
   (\<exists>l. m_leases s lid = Some l \<and> is_active l \<and> l_TargetUDID l = u)"
  using mgr_invD(2) by (simp add: holders_ok_def)

lemma queuedD:
  "mgr_inv s \<Longrightarrow> m_leases s lid = Some l \<Longrightarrow> is_queued l \<Longrightarrow> lid \<in> set (queue_of s (leaseQueueKey l))"
  using mgr_invD(5) by (simp add: queued_ok_def)

lemma not_sentinel:
  "mgr_inv s \<Longrightarrow> m_leases s lid = Some l \<Longrightarrow> lid \<noteq> resetSentinel \<and> lid \<noteq> reserveSentinel"
  using mgr_invD(1) by (simp add: ids_ok_def id_ok_def)

lemma holders_okI:
  assumes "\<And>u lid. m_byTarget s u = Some lid \<Longrightarrow> lid \<noteq> resetSentinel \<Longrightarrow> lid \<noteq> reserveSentinel \<Longrightarrow>
     \<exists>l. m_leases s lid = Some l \<and> is_active l \<and> l_TargetUDID l = u"
  shows "holders_ok s"
  using assms unfolding holders_ok_def by blast

lemma lease_wf_at: "mgr_inv s \<Longrightarrow> m_leases s lid = Some l \<Longrightarrow> lease_wf l"
  by (auto simp: inv_defs)

section \<open>Primitive changes\<close>

text \<open>A queued lease leaves its queue and becomes terminal.\<close>

definition retire_queued :: "instant \<Rightarrow> LeaseState \<Rightarrow> nat \<Rightarrow> lease \<Rightarrow> manager \<Rightarrow> manager" where
  "retire_queued now st i l s =
     (let key = leaseQueueKey l in
      (set_queue key (remove_at i (queue_of s key)) s)
        \<lparr>m_leases := (m_leases s)(l_ID l \<mapsto> l\<lparr>l_State := st\<rparr>),
         m_queueDeadline := (m_queueDeadline s)(l_ID l := None),
         m_queuePolled := m_queuePolled s - {l_ID l},
         m_preGrant := (m_preGrant s)(l_ID l := None),
         m_terminalAt := (m_terminalAt s)(l_ID l \<mapsto> now)\<rparr>)"

lemma expire_silent_retire:
  "key = leaseQueueKey l \<Longrightarrow> expire_silent now key i l s = retire_queued now LeaseExpired i l s"
  by (simp add: expire_silent_def retire_queued_def dequeue_at_def put_lease_def set_queue_def Let_def)

lemma index_of_Some:
  "index_of x xs = Some i \<Longrightarrow> i < length xs \<and> xs ! i = x"
  by (induction xs arbitrary: i) (auto split: if_splits)

lemma index_of_None: "index_of x xs = None \<longleftrightarrow> x \<notin> set xs"
  by (induction xs) auto

lemma removeFromQueue_index:
  assumes "mgr_inv s" "m_leases s lid = Some l" "is_queued l"
  obtains i where "i < length (queue_of s (leaseQueueKey l))" "queue_of s (leaseQueueKey l) ! i = lid"
    "removeFromQueueLocked l s = (set_queue (leaseQueueKey l)
        (remove_at i (queue_of s (leaseQueueKey l))) s)\<lparr>m_preGrant := (m_preGrant s)(lid := None)\<rparr>"
proof -
  let ?q = "queue_of s (leaseQueueKey l)"
  have lid: "l_ID l = lid" using assms(1,2) by (rule lease_at)
  have "lid \<in> set ?q" using mgr_invD(5) [OF assms(1)] assms(2,3) by (auto simp: queued_ok_def)
  then obtain i where i: "index_of lid ?q = Some i" by (cases "index_of lid ?q") (auto simp: index_of_None)
  have "removeFromQueueLocked l s = (set_queue (leaseQueueKey l) (remove_at i ?q) s)
      \<lparr>m_preGrant := (m_preGrant s)(lid := None)\<rparr>"
    by (simp add: removeFromQueueLocked_def Let_def lid i set_queue_def)
  with i that show ?thesis by (auto dest: index_of_Some)
qed

lemma queue_of_retire [simp]:
  "queue_of (retire_queued now st i l s) key =
     (if key = leaseQueueKey l then remove_at i (queue_of s key) else queue_of s key)"
  by (simp add: retire_queued_def Let_def)

text \<open>
  Taking one lease out of its queue keeps the queues in order, whatever state the lease takes.
\<close>

lemma queues_ok_remove:
  assumes inv: "mgr_inv s" and i: "i < length (queue_of s (leaseQueueKey l))"
    and lid: "queue_of s (leaseQueueKey l) ! i = l_ID l"
    and l: "m_leases s (l_ID l) = Some l" "is_queued l"
    and m_l: "m_leases t = (m_leases s)(l_ID l \<mapsto> l')"
    and m_q: "m_queues t = (m_queues s)(leaseQueueKey l :=
       if remove_at i (queue_of s (leaseQueueKey l)) = [] then None
       else Some (remove_at i (queue_of s (leaseQueueKey l))))"
    and st: "\<not> is_queued l'"
  shows "queues_ok t" "queued_ok t"
proof -
  let ?key = "leaseQueueKey l" let ?q = "queue_of s ?key"
  have set_q: "set (remove_at i ?q) = set ?q - {l_ID l}" and dr: "distinct (remove_at i ?q)"
    using remove_at_distinct [OF i distinct_queue [OF inv]] lid by simp_all
  note D = mgr_invD [OF inv]
  show "queues_ok t"
    unfolding queues_ok_def
  proof (intro allI impI)
    fix key q assume q: "m_queues t key = Some q"
    show "q \<noteq> [] \<and> distinct q \<and>
      (\<forall>lid \<in> set q. \<exists>k. m_leases t lid = Some k \<and> is_queued k \<and> leaseQueueKey k = key)"
    proof (cases "key = ?key")
      case True
      then have q': "q = remove_at i ?q" "q \<noteq> []" using q by (auto simp: m_q split: if_splits)
      moreover have "\<exists>k. m_leases t j = Some k \<and> is_queued k \<and> leaseQueueKey k = key"
        if "j \<in> set q" for j
        using that q'(1) set_q queue_entry [OF inv, of j ?key] True by (auto simp: m_l)
      ultimately show ?thesis using dr by auto
    next
      case False
      then have mq: "m_queues s key = Some q" using q by (simp add: m_q)
      have "l_ID l \<notin> set q"
        using queue_entry [OF inv, of "l_ID l" key] mq l False by (auto simp: queue_of_def)
      then show ?thesis using D(4) mq by (auto simp: queues_ok_def m_l)
    qed
  qed
  show "queued_ok t"
    unfolding queued_ok_def
  proof (intro allI impI)
    fix j k assume jk: "m_leases t j = Some k" "is_queued k"
    then have "j \<noteq> l_ID l" "m_leases s j = Some k" using st by (auto simp: m_l split: if_splits)
    moreover have "queue_of t (leaseQueueKey k) =
        (if leaseQueueKey k = ?key then remove_at i ?q else queue_of s (leaseQueueKey k))"
      by (simp add: queue_of_def m_q)
    moreover have "j \<in> set (queue_of s (leaseQueueKey k))"
      using D(5) jk(2) \<open>m_leases s j = Some k\<close> by (simp add: queued_ok_def)
    ultimately show "j \<in> set (queue_of t (leaseQueueKey k))"
      using set_q by (cases "leaseQueueKey k = ?key") auto
  qed
qed

lemma retire_queued_inv:
  assumes inv: "mgr_inv s" and i: "i < length (queue_of s (leaseQueueKey l))"
    and lid: "queue_of s (leaseQueueKey l) ! i = l_ID l"
    and l: "m_leases s (l_ID l) = Some l" "is_queued l" and st: "st = LeaseExpired \<or> st = LeaseReleased"
  shows "mgr_inv (retire_queued now st i l s)"
proof -
  let ?t = "retire_queued now st i l s" and ?key = "leaseQueueKey l"
  let ?q = "queue_of s ?key"
  have m_l: "m_leases ?t = (m_leases s)(l_ID l \<mapsto> l\<lparr>l_State := st\<rparr>)"
    and m_b: "m_byTarget ?t = m_byTarget s"
    and m_q: "m_queues ?t = (m_queues s)(?key := if remove_at i ?q = [] then None else Some (remove_at i ?q))"
    and m_d: "m_queueDeadline ?t = (m_queueDeadline s)(l_ID l := None)"
    and m_p: "m_queuePolled ?t = m_queuePolled s - {l_ID l}"
    and m_t: "m_terminalAt ?t = (m_terminalAt s)(l_ID l \<mapsto> now)"
    by (simp_all add: retire_queued_def set_queue_def Let_def)
  note D = mgr_invD [OF inv]
  have "id_ok (l_ID l) l" using D(1) l by (simp add: ids_ok_def)
  then have "ids_ok ?t" using D(1) by (auto simp: ids_ok_def id_ok_def [of "l_ID l"] m_l)
  moreover have "holders_ok ?t"
    using D(2) l st unfolding holders_ok_def m_l m_b by fastforce
  moreover have "actives_ok ?t"
    using D(3) l st by (auto simp: actives_ok_def m_l m_b)
  moreover have "queues_ok ?t" "queued_ok ?t"
    using queues_ok_remove [OF inv i lid l m_l m_q] st by auto
  moreover have "deadlines_ok ?t"
    using D(6) l st unfolding deadlines_ok_def m_l m_d m_p by auto
  moreover have "terminal_ok ?t"
    using D(7) l st unfolding terminal_ok_def m_l m_t by auto
  moreover have "leases_ok ?t"
    using D(8) l st by (auto simp: leases_ok_def m_l lease_wf_def)
  ultimately show ?thesis by (simp add: mgr_inv_def)
qed

text \<open>A free target is granted to a queued lease.\<close>

lemma grant_queued_fields:
  assumes "key = leaseQueueKey l"
  shows "m_leases (grant_queued now key i udid l s) = (m_leases s)(l_ID l \<mapsto> granted_lease now udid l)"
    "m_byTarget (grant_queued now key i udid l s) = (m_byTarget s)(udid \<mapsto> l_ID l)"
    "m_queues (grant_queued now key i udid l s) = (m_queues s)(key :=
       if remove_at i (queue_of s key) = [] then None else Some (remove_at i (queue_of s key)))"
    "m_queueDeadline (grant_queued now key i udid l s) = (m_queueDeadline s)(l_ID l := None)"
    "m_queuePolled (grant_queued now key i udid l s) = m_queuePolled s - {l_ID l}"
    "m_terminalAt (grant_queued now key i udid l s) = m_terminalAt s"
    "m_resetInFlight (grant_queued now key i udid l s) = m_resetInFlight s"
    "m_pendingResets (grant_queued now key i udid l s) = m_pendingResets s"
    "m_dirty (grant_queued now key i udid l s) = insert udid (m_dirty s)"
  by (simp_all add: grant_queued_def dequeue_at_def set_queue_def put_lease_def granted_lease_def Let_def)

lemma queue_of_grant [simp]:
  "queue_of (grant_queued now key i udid l s) k =
     (if k = key then remove_at i (queue_of s key) else queue_of s k)"
  by (simp add: grant_queued_def Let_def)

lemma grant_queued_inv:
  assumes inv: "mgr_inv s" and i: "i < length (queue_of s (leaseQueueKey l))"
    and lid: "queue_of s (leaseQueueKey l) ! i = l_ID l"
    and l: "m_leases s (l_ID l) = Some l" "is_queued l" and free: "m_byTarget s udid = None"
  shows "mgr_inv (grant_queued now (leaseQueueKey l) i udid l s)"
proof -
  let ?t = "grant_queued now (leaseQueueKey l) i udid l s"
  note F = grant_queued_fields [OF refl, of now l i udid s]
  note D = mgr_invD [OF inv]
  have g: "l_ID (granted_lease now udid l) = l_ID l" "is_active (granted_lease now udid l)"
    "l_TargetUDID (granted_lease now udid l) = udid" "l_ExpiresAt (granted_lease now udid l) \<noteq> None"
    by (simp_all add: granted_lease_def)
  have "id_ok (l_ID l) l" using D(1) l by (simp add: ids_ok_def)
  then have "ids_ok ?t" using D(1) g(1) by (auto simp: ids_ok_def id_ok_def [of "l_ID l"] F)
  moreover have "holders_ok ?t"
    unfolding holders_ok_def
  proof (intro allI impI)
    fix u j assume "m_byTarget ?t u = Some j"
    then have "u = udid \<and> j = l_ID l \<or> u \<noteq> udid \<and> m_byTarget s u = Some j"
      by (auto simp: F split: if_splits)
    then show "j = resetSentinel \<or> j = reserveSentinel \<or>
        (\<exists>k. m_leases ?t j = Some k \<and> is_active k \<and> l_TargetUDID k = u)"
      using holderD [OF inv, of u j] l g by (auto simp: F)
  qed
  moreover have "actives_ok ?t"
    unfolding actives_ok_def
  proof (intro allI impI)
    fix j k assume "m_leases ?t j = Some k" "is_active k"
    then show "m_byTarget ?t (l_TargetUDID k) = Some j \<and> l_ExpiresAt k \<noteq> None"
      using activeD [OF inv, of j k] free g by (auto simp: F split: if_splits)
  qed
  moreover have "queues_ok ?t" "queued_ok ?t"
    using queues_ok_remove [OF inv i lid l F(1) F(3)] g by auto
  moreover have "deadlines_ok ?t"
    using D(6) g unfolding deadlines_ok_def F by auto
  moreover have "terminal_ok ?t"
    using D(7) l g unfolding terminal_ok_def F by auto
  moreover have "leases_ok ?t"
    using D(8) l by (auto simp: leases_ok_def F lease_wf_def granted_lease_def)
  ultimately show ?thesis by (simp add: mgr_inv_def)
qed

text \<open>An active lease ends and its target is free.\<close>

lemma end_active_inv:
  assumes inv: "mgr_inv s" and l: "m_leases s (l_ID l) = Some l" "is_active l"
    and st: "st = LeaseExpired \<or> st = LeaseReleased"
  shows "mgr_inv (end_active now st l s)" "m_byTarget (end_active now st l s) (l_TargetUDID l) = None"
proof -
  let ?t = "end_active now st l s" and ?l = "(clearPause l)\<lparr>l_State := st\<rparr>"
  have m_l: "m_leases ?t = (m_leases s)(l_ID l \<mapsto> ?l)"
    and m_b: "m_byTarget ?t = (m_byTarget s)(l_TargetUDID l := None)"
    and m_q: "m_queues ?t = m_queues s" and m_d: "m_queueDeadline ?t = m_queueDeadline s"
    and m_p: "m_queuePolled ?t = m_queuePolled s"
    and m_t: "m_terminalAt ?t = (m_terminalAt s)(l_ID l \<mapsto> now)"
    by (simp_all add: end_active_def put_lease_def clearPause_def)
  have q: "queue_of ?t k = queue_of s k" for k by (simp add: queue_of_def m_q)
  note D = mgr_invD [OF inv]
  have held: "m_byTarget s (l_TargetUDID l) = Some (l_ID l)" using D(3) l by (simp add: actives_ok_def)
  have "id_ok (l_ID l) l" using D(1) l by (simp add: ids_ok_def)
  then have "ids_ok ?t" using D(1) by (auto simp: ids_ok_def id_ok_def [of "l_ID l"] m_l clearPause_def)
  moreover have "holders_ok ?t"
    unfolding holders_ok_def
  proof (intro allI impI)
    fix u j assume "m_byTarget ?t u = Some j"
    then have u: "u \<noteq> l_TargetUDID l" "m_byTarget s u = Some j" by (auto simp: m_b split: if_splits)
    then show "j = resetSentinel \<or> j = reserveSentinel \<or>
        (\<exists>k. m_leases ?t j = Some k \<and> is_active k \<and> l_TargetUDID k = u)"
      using u l holderD [OF inv, of u j] by (auto simp: m_l)
  qed
  moreover have "actives_ok ?t"
    unfolding actives_ok_def
  proof (intro allI impI)
    fix j k assume "m_leases ?t j = Some k" "is_active k"
    then have "j \<noteq> l_ID l" "m_leases s j = Some k" "is_active k"
      using st by (auto simp: m_l split: if_splits)
    then show "m_byTarget ?t (l_TargetUDID k) = Some j \<and> l_ExpiresAt k \<noteq> None"
      using activeD [OF inv, of j k] held by (auto simp: m_b)
  qed
  moreover have "queues_ok ?t"
    using D(4) l unfolding queues_ok_def m_l m_q by fastforce
  moreover have "queued_ok ?t"
    using D(5) st by (auto simp: queued_ok_def m_l q)
  moreover have "deadlines_ok ?t"
    using D(6) l st unfolding deadlines_ok_def m_l m_d m_p by auto
  moreover have "terminal_ok ?t"
    using D(7) l st unfolding terminal_ok_def m_l m_t by auto
  moreover have "leases_ok ?t"
    using D(8) l st by (auto simp: leases_ok_def m_l lease_wf_def clearPause_def)
  ultimately show "mgr_inv ?t" by (simp add: mgr_inv_def)
  show "m_byTarget ?t (l_TargetUDID l) = None" by (simp add: m_b)
qed

text \<open>A free target, or one under a sentinel, can be put under a sentinel or freed.\<close>

definition not_leased :: "manager \<Rightarrow> string \<Rightarrow> bool" where
  "not_leased s u \<longleftrightarrow> m_byTarget s u \<in> {None, Some resetSentinel, Some reserveSentinel}"

lemma hold_inv:
  assumes inv: "mgr_inv s" and free: "not_leased s u"
    and v: "v \<in> {None, Some resetSentinel, Some reserveSentinel}"
  shows "mgr_inv (s\<lparr>m_byTarget := (m_byTarget s)(u := v)\<rparr>)"
proof -
  let ?t = "s\<lparr>m_byTarget := (m_byTarget s)(u := v)\<rparr>"
  note D = mgr_invD [OF inv]
  have q: "queue_of ?t k = queue_of s k" for k by (simp add: queue_of_def)
  have "holders_ok ?t"
    by (rule holders_okI) (use v holderD [OF inv] in \<open>auto split: if_splits\<close>)
  moreover have "actives_ok ?t"
    unfolding actives_ok_def
  proof (intro allI impI)
    fix j k assume jk: "m_leases ?t j = Some k" "is_active k"
    then have "m_byTarget s (l_TargetUDID k) = Some j" "l_ExpiresAt k \<noteq> None" "id_ok j k"
      using D(1,3) by (simp_all add: actives_ok_def ids_ok_def)
    then show "m_byTarget ?t (l_TargetUDID k) = Some j \<and> l_ExpiresAt k \<noteq> None"
      using free by (auto simp: not_leased_def id_ok_def)
  qed
  moreover have "ids_ok ?t = ids_ok s" "queues_ok ?t = queues_ok s" "queued_ok ?t = queued_ok s"
    "deadlines_ok ?t = deadlines_ok s" "terminal_ok ?t = terminal_ok s" "leases_ok ?t = leases_ok s"
    by (simp_all add: ids_ok_def queues_ok_def queued_ok_def deadlines_ok_def terminal_ok_def
        leases_ok_def q)
  ultimately show ?thesis using D by (simp add: mgr_inv_def)
qed

text \<open>Rewriting fields of a lease that keep its ID, state, target, key and expiry.\<close>

definition same_role :: "lease \<Rightarrow> lease \<Rightarrow> bool" where
  "same_role l l' \<longleftrightarrow> l_ID l' = l_ID l \<and> l_State l' = l_State l \<and> l_TargetUDID l' = l_TargetUDID l \<and>
     leaseQueueKey l' = leaseQueueKey l \<and> (l_ExpiresAt l \<noteq> None \<longrightarrow> l_ExpiresAt l' \<noteq> None)"

lemma put_lease_inv:
  assumes inv: "mgr_inv s" and l: "m_leases s (l_ID l) = Some l" and same: "same_role l l'"
    and wf: "lease_wf l'"
  shows "mgr_inv (put_lease l' s)"
proof -
  let ?t = "put_lease l' s"
  have m_l: "m_leases ?t = (m_leases s)(l_ID l \<mapsto> l')" and m_b: "m_byTarget ?t = m_byTarget s"
    and m_q: "m_queues ?t = m_queues s" and m_d: "m_queueDeadline ?t = m_queueDeadline s"
    and m_p: "m_queuePolled ?t = m_queuePolled s" and m_t: "m_terminalAt ?t = m_terminalAt s"
    using same by (simp_all add: put_lease_def same_role_def)
  note D = mgr_invD [OF inv]
  have "id_ok (l_ID l) l" using D(1) l by (simp add: ids_ok_def)
  then have "ids_ok ?t" using D(1) same by (auto simp: ids_ok_def id_ok_def [of "l_ID l"] m_l same_role_def)
  moreover have "holders_ok ?t"
    by (rule holders_okI) (use holderD [OF inv] l same in \<open>force simp: m_l m_b same_role_def\<close>)
  moreover have "actives_ok ?t"
    using D(3) l same unfolding actives_ok_def m_l m_b same_role_def by auto
  moreover have "queues_ok ?t"
    using D(4) l same unfolding queues_ok_def m_l m_q same_role_def by fastforce
  moreover have "queued_ok ?t"
    using D(5) l same by (auto simp: queued_ok_def m_l same_role_def)
  moreover have "deadlines_ok ?t"
    using D(6) l same unfolding deadlines_ok_def m_l m_d m_p same_role_def by auto
  moreover have "terminal_ok ?t"
    using D(7) l same unfolding terminal_ok_def m_l m_t same_role_def by auto
  moreover have "leases_ok ?t"
    using D(8) wf by (auto simp: leases_ok_def m_l)
  ultimately show ?thesis by (simp add: mgr_inv_def)
qed

text \<open>A terminal lease past its retention is collected.\<close>

lemma collect_terminal_inv:
  assumes inv: "mgr_inv s"
  shows "mgr_inv (collect_terminal now lid s)"
proof (cases "\<exists>at. m_terminalAt s lid = Some at \<and> now - at > TerminalRetention")
  case False
  then have "collect_terminal now lid s = s"
    by (auto simp: collect_terminal_def split: option.splits)
  then show ?thesis using inv by simp
next
  case True
  let ?t = "s\<lparr>m_terminalAt := (m_terminalAt s)(lid := None), m_leases := (m_leases s)(lid := None)\<rparr>"
  note D = mgr_invD [OF inv]
  obtain l where l: "m_leases s lid = Some l" "is_terminal l"
    using D(7) True unfolding terminal_ok_def by blast
  have q: "queue_of ?t k = queue_of s k" for k by (simp add: queue_of_def)
  have "ids_ok ?t" using D(1) by (simp add: ids_ok_def)
  moreover have "holders_ok ?t"
    by (rule holders_okI) (use holderD [OF inv] l in force)
  moreover have "actives_ok ?t" using D(3) by (simp add: actives_ok_def)
  moreover have "queues_ok ?t" using D(4) l unfolding queues_ok_def by fastforce
  moreover have "queued_ok ?t" using D(5) by (simp add: queued_ok_def q)
  moreover have "deadlines_ok ?t" using D(6) l unfolding deadlines_ok_def by auto
  moreover have "terminal_ok ?t" using D(7) unfolding terminal_ok_def by auto
  moreover have "leases_ok ?t" using D(8) by (simp add: leases_ok_def)
  ultimately have "mgr_inv ?t" by (simp add: mgr_inv_def)
  moreover have "collect_terminal now lid s = ?t"
    using True by (auto simp: collect_terminal_def)
  ultimately show ?thesis by simp
qed

text \<open>A new lease enters the table, active on a free target or at the tail of its queue.\<close>

lemma grant_now_inv:
  assumes inv: "mgr_inv s" and fresh: "m_leases s (l_ID l) = None" and free: "m_byTarget s udid = None"
    and ids: "l_ID l \<noteq> resetSentinel" "l_ID l \<noteq> reserveSentinel"
    and ttl: "1 \<le> l_TTLSeconds l" "l_TTLSeconds l \<le> 3600"
  shows "mgr_inv (fst (grant_now now d udid l s))"
proof -
  let ?t = "fst (grant_now now d udid l s)"
  let ?l = "l\<lparr>l_State := LeaseActive, l_TargetUDID := udid, l_ExpiresAt := Some (now + d)\<rparr>"
  have m_l: "m_leases ?t = (m_leases s)(l_ID l \<mapsto> ?l)"
    and m_b: "m_byTarget ?t = (m_byTarget s)(udid \<mapsto> l_ID l)"
    and m_q: "m_queues ?t = m_queues s" and m_d: "m_queueDeadline ?t = m_queueDeadline s"
    and m_p: "m_queuePolled ?t = m_queuePolled s" and m_t: "m_terminalAt ?t = m_terminalAt s"
    by (simp_all add: grant_now_def put_lease_def Let_def)
  have q: "queue_of ?t k = queue_of s k" for k by (simp add: queue_of_def m_q)
  note D = mgr_invD [OF inv]
  have "ids_ok ?t" using D(1) ids by (auto simp: ids_ok_def id_ok_def [of "l_ID l"] m_l)
  moreover have "holders_ok ?t"
    by (rule holders_okI) (use holderD [OF inv] fresh in \<open>force simp: m_l m_b split: if_splits\<close>)
  moreover have "actives_ok ?t"
    unfolding actives_ok_def
  proof (intro allI impI)
    fix j k assume "m_leases ?t j = Some k" "is_active k"
    then show "m_byTarget ?t (l_TargetUDID k) = Some j \<and> l_ExpiresAt k \<noteq> None"
      using activeD [OF inv, of j k] free by (auto simp: m_l m_b split: if_splits)
  qed
  moreover have "queues_ok ?t" using D(4) fresh unfolding queues_ok_def m_l m_q by fastforce
  moreover have "queued_ok ?t" using D(5) by (simp add: queued_ok_def m_l q)
  moreover have "deadlines_ok ?t" using D(6) fresh unfolding deadlines_ok_def m_l m_d m_p by auto
  moreover have "terminal_ok ?t" using D(7) fresh unfolding terminal_ok_def m_l m_t by auto
  moreover have "leases_ok ?t" using D(8) ttl by (simp add: leases_ok_def m_l lease_wf_def)
  ultimately show ?thesis by (simp add: mgr_inv_def)
qed

lemma enqueue_new_inv:
  assumes inv: "mgr_inv s" and fresh: "m_leases s (l_ID l) = None"
    and ids: "l_ID l \<noteq> resetSentinel" "l_ID l \<noteq> reserveSentinel"
    and ttl: "1 \<le> l_TTLSeconds l" "l_TTLSeconds l \<le> 3600" and np: "\<not> l_Paused l"
  shows "mgr_inv (fst (enqueue_new now l s))"
proof -
  let ?t = "fst (enqueue_new now l s)" and ?key = "leaseQueueKey l"
  let ?q = "queue_of s ?key @ [l_ID l]"
  let ?l = "l\<lparr>l_State := LeaseQueued, l_QueuePosition := length ?q\<rparr>"
  have m_l: "m_leases ?t = (m_leases s)(l_ID l \<mapsto> ?l)" and m_b: "m_byTarget ?t = m_byTarget s"
    and m_q: "m_queues ?t = (m_queues s)(?key \<mapsto> ?q)"
    and m_d: "m_queueDeadline ?t = (m_queueDeadline s)(l_ID l \<mapsto> now + QueueWaitTTL)"
    and m_p: "m_queuePolled ?t = m_queuePolled s" and m_t: "m_terminalAt ?t = m_terminalAt s"
    by (simp_all add: enqueue_new_def put_lease_def Let_def)
  have q: "queue_of ?t k = (if k = ?key then ?q else queue_of s k)" for k
    by (simp add: queue_of_def m_q)
  have key: "leaseQueueKey ?l = ?key" by (simp add: leaseQueueKey_def)
  note D = mgr_invD [OF inv]
  have new: "l_ID l \<notin> set (queue_of s k)" for k using queue_entry [OF inv, of "l_ID l" k] fresh by auto
  have "ids_ok ?t" using D(1) ids by (auto simp: ids_ok_def id_ok_def [of "l_ID l"] m_l)
  moreover have "holders_ok ?t"
    by (rule holders_okI) (use holderD [OF inv] fresh in \<open>force simp: m_l m_b\<close>)
  moreover have "actives_ok ?t" using D(3) by (simp add: actives_ok_def m_l m_b)
  moreover have "queues_ok ?t"
    unfolding queues_ok_def
  proof (intro allI impI)
    fix k p assume p: "m_queues ?t k = Some p"
    then have pq: "p = queue_of ?t k" by (simp add: queue_of_def)
    have "\<exists>m. m_leases ?t j = Some m \<and> is_queued m \<and> leaseQueueKey m = k" if "j \<in> set p" for j
      using that queue_entry [OF inv, of j k] key fresh by (auto simp: pq q m_l split: if_splits)
    moreover have "p \<noteq> []" using p D(4) by (auto simp: m_q queues_ok_def split: if_splits)
    moreover have "distinct p" using new distinct_queue [OF inv] by (simp add: pq q)
    ultimately show "p \<noteq> [] \<and> distinct p \<and>
      (\<forall>lid \<in> set p. \<exists>m. m_leases ?t lid = Some m \<and> is_queued m \<and> leaseQueueKey m = k)" by blast
  qed
  moreover have "queued_ok ?t"
    unfolding queued_ok_def
  proof (intro allI impI)
    fix j k assume "m_leases ?t j = Some k" "is_queued k"
    then show "j \<in> set (queue_of ?t (leaseQueueKey k))"
      using queuedD [OF inv, of j k] key by (cases "j = l_ID l") (auto simp: m_l q)
  qed
  moreover have "deadlines_ok ?t" using D(6) fresh unfolding deadlines_ok_def m_l m_d m_p by auto
  moreover have "terminal_ok ?t" using D(7) fresh unfolding terminal_ok_def m_l m_t by auto
  moreover have "leases_ok ?t" using D(8) ttl np by (simp add: leases_ok_def m_l lease_wf_def)
  ultimately show ?thesis by (simp add: mgr_inv_def)
qed

end
