(* ===== verification/Mz_LeaseOps.thy ===== *)
theory Mz_LeaseOps
  imports Mz_LeaseInv
begin

text \<open>
  The loops and methods of the lease manager keep the invariant. Two layers are carried at once:
  \<^const>\<open>mgr_inv\<close>, which every interleaving keeps, and the reset discipline \<open>resets_ok\<close>, which says
  that a reset in flight holds its target and that no target is reset twice at the same time. The
  flag of \<open>linv\<close> selects whether the second layer is claimed.
\<close>

section \<open>The reset discipline\<close>

text \<open>
  \<open>R\<close> lists the targets whose reset goroutine is running. Together with the resets still pending
  in the section they are exactly the targets in flight, each once, and each is held by the reset
  sentinel.
\<close>

definition resets_ok :: "string list \<Rightarrow> manager \<Rightarrow> bool" where
  "resets_ok R s \<longleftrightarrow>
     distinct (R @ map l_TargetUDID (m_pendingResets s)) \<and>
     set (R @ map l_TargetUDID (m_pendingResets s)) = m_resetInFlight s \<and>
     (\<forall>u \<in> m_resetInFlight s. m_byTarget s u = Some resetSentinel)"

definition linv :: "bool \<Rightarrow> string list \<Rightarrow> manager \<Rightarrow> bool" where
  "linv b R s \<longleftrightarrow> mgr_inv s \<and> (b \<longrightarrow> resets_ok R s)"

lemma invD: "linv b R s \<Longrightarrow> mgr_inv s" "linv b R s \<Longrightarrow> b \<Longrightarrow> resets_ok R s"
  by (simp_all add: linv_def)

lemma inv_free_not_in_flight:
  "linv b R s \<Longrightarrow> b \<Longrightarrow> m_byTarget s u \<noteq> Some resetSentinel \<Longrightarrow> u \<notin> m_resetInFlight s"
  by (auto simp: linv_def resets_ok_def)

lemma inv_more [simp]:
  "linv b R (s\<lparr>m_targets := x1\<rparr>) = linv b R s"
  "linv b R (s\<lparr>m_dirty := x2\<rparr>) = linv b R s"
  "linv b R (s\<lparr>m_takeoverHold := x3\<rparr>) = linv b R s"
  "linv b R (s\<lparr>m_preGrant := x4\<rparr>) = linv b R s"
  "linv b R (s\<lparr>m_ranges := x5\<rparr>) = linv b R s"
  "linv b R (next_range s) = linv b R s"
  "linv b R (s\<lparr>m_grace := x6\<rparr>) = linv b R s"
  "linv b R (s\<lparr>m_resetFn := x7\<rparr>) = linv b R s"
  "linv b R (s\<lparr>m_onActive := x8\<rparr>) = linv b R s"
  by (simp_all add: linv_def resets_ok_def next_range_def)

lemma inv_newManager: "linv b [] (newManager e)"
  by (simp add: linv_def mgr_inv_newManager resets_ok_def) (simp add: newManager_def)

text \<open>A change that leaves the holders and the resets alone keeps the reset discipline.\<close>

lemma inv_frame:
  assumes "linv b R s" "mgr_inv t" "m_byTarget t = m_byTarget s"
    "m_resetInFlight t = m_resetInFlight s" "m_pendingResets t = m_pendingResets s"
  shows "linv b R t"
  using assms by (simp add: linv_def resets_ok_def)

lemma retire_queued_reset_fields [simp]:
  "m_byTarget (retire_queued now st i l s) = m_byTarget s"
  "m_resetInFlight (retire_queued now st i l s) = m_resetInFlight s"
  "m_pendingResets (retire_queued now st i l s) = m_pendingResets s"
  "m_dirty (retire_queued now st i l s) = m_dirty s"
  "m_leases (retire_queued now st i l s) = (m_leases s)(l_ID l \<mapsto> l\<lparr>l_State := st\<rparr>)"
  "m_terminalAt (retire_queued now st i l s) = (m_terminalAt s)(l_ID l \<mapsto> now)"
  "m_queueDeadline (retire_queued now st i l s) = (m_queueDeadline s)(l_ID l := None)"
  by (simp_all add: retire_queued_def set_queue_def Let_def)

lemma inv_startPreGrantErase:
  assumes "linv b R s" "m_byTarget s udid = None"
  shows "linv b R (startPreGrantEraseLocked l udid s)"
proof -
  have "mgr_inv (s\<lparr>m_byTarget := (m_byTarget s)(udid := Some resetSentinel)\<rparr>)"
    using assms by (intro hold_inv) (auto simp: linv_def not_leased_def)
  then have "mgr_inv (startPreGrantEraseLocked l udid s)"
    unfolding startPreGrantEraseLocked_def by simp
  moreover have "resets_ok R (startPreGrantEraseLocked l udid s)" if b
    using invD(2) [OF assms(1) that] inv_free_not_in_flight [OF assms(1) that, of udid] assms(2)
    by (auto simp: resets_ok_def startPreGrantEraseLocked_def)
  ultimately show ?thesis by (simp add: linv_def)
qed

lemma inv_hold_for_reset:
  assumes "linv b R s" "m_byTarget s (l_TargetUDID l) = None"
  shows "linv b R ((hold_for_reset l s)\<lparr>m_pendingResets := m_pendingResets s @ [l]\<rparr>)"
    and "linv b (R @ [l_TargetUDID l]) (hold_for_reset l s)"
proof -
  have "mgr_inv (s\<lparr>m_byTarget := (m_byTarget s)(l_TargetUDID l := Some resetSentinel)\<rparr>)"
    using assms by (intro hold_inv) (auto simp: linv_def not_leased_def)
  then have m: "mgr_inv (hold_for_reset l s)"
    unfolding hold_for_reset_def by simp
  have f: "resets_ok R s" "l_TargetUDID l \<notin> m_resetInFlight s" if b
    using invD(2) [OF assms(1) that] inv_free_not_in_flight [OF assms(1) that] assms(2) by simp_all
  show "linv b R ((hold_for_reset l s)\<lparr>m_pendingResets := m_pendingResets s @ [l]\<rparr>)"
    using m f by (auto simp: linv_def resets_ok_def hold_for_reset_def)
  show "linv b (R @ [l_TargetUDID l]) (hold_for_reset l s)"
    using m f by (auto simp: linv_def resets_ok_def hold_for_reset_def)
qed

lemma inv_end_active:
  assumes "linv b R s" "m_leases s (l_ID l) = Some l" "is_active l"
    "st = LeaseExpired \<or> st = LeaseReleased"
  shows "linv b R (end_active now st l s)"
proof -
  have "mgr_inv s" using assms(1) by (rule invD)
  then have "m_byTarget s (l_TargetUDID l) = Some (l_ID l)" "l_ID l \<noteq> resetSentinel"
    using activeD [of s "l_ID l" l] not_sentinel [of s "l_ID l" l] assms(2,3) by simp_all
  then have "l_TargetUDID l \<notin> m_resetInFlight s" if b
    using inv_free_not_in_flight [OF assms(1) that] by simp
  moreover have "mgr_inv (end_active now st l s)"
    using \<open>mgr_inv s\<close> assms(2-4) by (rule end_active_inv)
  ultimately show ?thesis
    using assms(1) by (auto simp: linv_def resets_ok_def end_active_def put_lease_def)
qed

section \<open>What a promotion does\<close>

text \<open>The configuration and the target cache are not written by the loops.\<close>

definition same_cfg :: "manager \<Rightarrow> manager \<Rightarrow> bool" where
  "same_cfg s t \<longleftrightarrow> m_targets t = m_targets s \<and> m_grace t = m_grace s \<and> m_resetFn t = m_resetFn s \<and>
     m_onActive t = m_onActive s \<and> m_onEvent t = m_onEvent s"

lemma same_cfg_refl [simp]: "same_cfg s s" by (simp add: same_cfg_def)

lemma same_cfg_trans: "same_cfg s t \<Longrightarrow> same_cfg t u \<Longrightarrow> same_cfg s u"
  by (simp add: same_cfg_def)

text \<open>
  When a queued lease may be granted a target: it matches, a reset-carrying lease never lands on a
  physical device, and an erase-carrying lease only lands on a target that no lease has used since
  its last successful reset.
\<close>

definition grantable :: "manager \<Rightarrow> target \<Rightarrow> string \<Rightarrow> lease \<Rightarrow> bool" where
  "grantable s tgt udid l \<longleftrightarrow> matchesRequest tgt (l_Labels l) (l_RequestedUDID l) \<and>
     \<not> (wantsReset (l_Reset l) \<and> t_Kind tgt = TargetDevice) \<and>
     \<not> (m_resetFn s \<and> l_Reset l = ''erase'' \<and> udid \<in> m_dirty s)"

text \<open>
  The effect of a promotion on the lease table: a lease is untouched, or it was queued and either
  expired (a silent owner) or was granted the promoted target. Retirement instants are only set to
  the current instant, and abandonment deadlines only dropped.
\<close>

definition lease_promoted :: "instant \<Rightarrow> target \<Rightarrow> string \<Rightarrow> manager \<Rightarrow> manager \<Rightarrow> string \<Rightarrow> bool" where
  "lease_promoted now tgt udid s t lid \<longleftrightarrow> m_leases t lid = m_leases s lid \<or>
     (\<exists>l. m_leases s lid = Some l \<and> is_queued l \<and>
        (m_leases t lid = Some (l\<lparr>l_State := LeaseExpired\<rparr>) \<or>
         m_leases t lid = Some (granted_lease now udid l) \<and> grantable s tgt udid l))"

definition stamps_now :: "instant \<Rightarrow> manager \<Rightarrow> manager \<Rightarrow> bool" where
  "stamps_now now s t \<longleftrightarrow>
     (\<forall>lid. m_terminalAt t lid = m_terminalAt s lid \<or> m_terminalAt t lid = Some now) \<and>
     (\<forall>lid. m_queueDeadline t lid = m_queueDeadline s lid \<or> m_queueDeadline t lid = None)"

definition promotion :: "instant \<Rightarrow> target \<Rightarrow> string \<Rightarrow> manager \<Rightarrow> manager \<Rightarrow> bool" where
  "promotion now tgt udid s t \<longleftrightarrow> (\<forall>lid. lease_promoted now tgt udid s t lid) \<and> stamps_now now s t"

lemma stamps_now_trans: "stamps_now now s t \<Longrightarrow> stamps_now now t u \<Longrightarrow> stamps_now now s u"
  unfolding stamps_now_def by metis

lemma promotion_refl: "promotion now tgt udid s s"
  by (simp add: promotion_def lease_promoted_def stamps_now_def)

lemma promotion_retire:
  assumes "m_leases s (l_ID l) = Some l" "is_queued l"
    and "promotion now tgt udid (retire_queued now LeaseExpired i l s) t"
    and "m_resetFn (retire_queued now LeaseExpired i l s) = m_resetFn s"
  shows "promotion now tgt udid s t"
proof -
  have "stamps_now now s (retire_queued now LeaseExpired i l s)" by (simp add: stamps_now_def)
  then have "stamps_now now s t" using assms(3) by (auto simp: promotion_def intro: stamps_now_trans)
  moreover have "lease_promoted now tgt udid s t lid" for lid
    using assms unfolding promotion_def lease_promoted_def grantable_def by (auto split: if_splits)
  ultimately show ?thesis by (simp add: promotion_def)
qed

lemma queue_nth_lease:
  assumes "mgr_inv s" "i < length (queue_of s key)" "m_leases s (queue_of s key ! i) = Some l"
  shows "l_ID l = queue_of s key ! i" "is_queued l" "leaseQueueKey l = key"
  using queue_entry [OF assms(1), of "queue_of s key ! i" key] assms(2,3) by auto

lemma same_cfg_updates [simp]:
  "same_cfg s (retire_queued now st i l s)"
  "same_cfg s (startPreGrantEraseLocked l udid s)"
  "same_cfg s (grant_queued now key i udid l s)"
  by (simp_all add: same_cfg_def retire_queued_def startPreGrantEraseLocked_def grant_queued_def
      dequeue_at_def set_queue_def put_lease_def Let_def)

definition promoted :: "bool \<Rightarrow> string list \<Rightarrow> instant \<Rightarrow> target \<Rightarrow> string \<Rightarrow> manager \<Rightarrow> manager \<Rightarrow> bool" where
  "promoted b R now tgt udid s t \<longleftrightarrow> linv b R t \<and> same_cfg s t \<and> promotion now tgt udid s t"

text \<open>The inner loop: it never panics, keeps the invariant, and its effect is a promotion.\<close>

lemma promoteQueue_inv:
  assumes "linv b R s" "m_byTarget s udid = None"
  shows "succeeds (promoteQueue now tgt udid key i s events)
     (\<lambda>(t, _, stop). promoted b R now tgt udid s t \<and> (\<not> stop \<longrightarrow> m_byTarget t udid = None \<and>
        m_dirty t = m_dirty s))"
  using assms
proof (induction now tgt udid key i s events rule: promoteQueue.induct)
  case (1 now tgt udid key i s events)
  let ?goal = "\<lambda>s (t, _, stop). promoted b R now tgt udid s t \<and>
     (\<not> stop \<longrightarrow> m_byTarget t udid = None \<and> m_dirty t = m_dirty s)"
  have m: "mgr_inv s" using "1.prems"(1) by (rule invD)
  show ?case
  proof (cases "i < length (queue_of s key)")
    case False
    then show ?thesis using "1.prems"
      by (simp add: promoteQueue.simps promoted_def promotion_refl)
  next
    case i: True
    obtain l where l: "m_leases s (queue_of s key ! i) = Some l"
      using queue_entry [OF m, of "queue_of s key ! i" key] i by auto
    note q = queue_nth_lease [OF m i l]
    consider (nomatch) "\<not> matchesRequest tgt (l_Labels l) (l_RequestedUDID l)"
      | (device) "matchesRequest tgt (l_Labels l) (l_RequestedUDID l)"
          "l_Reset l \<noteq> [] \<and> l_Reset l \<noteq> ''none'' \<and> t_Kind tgt = TargetDevice"
      | (silent) "matchesRequest tgt (l_Labels l) (l_RequestedUDID l)"
          "\<not> (l_Reset l \<noteq> [] \<and> l_Reset l \<noteq> ''none'' \<and> t_Kind tgt = TargetDevice)"
          "queueOwnerSilentLocked now s (queue_of s key ! i)"
      | (erase) "matchesRequest tgt (l_Labels l) (l_RequestedUDID l)"
          "\<not> (l_Reset l \<noteq> [] \<and> l_Reset l \<noteq> ''none'' \<and> t_Kind tgt = TargetDevice)"
          "\<not> queueOwnerSilentLocked now s (queue_of s key ! i)" "preGrantEraseNeededLocked s l udid"
      | (grant) "matchesRequest tgt (l_Labels l) (l_RequestedUDID l)"
          "\<not> (l_Reset l \<noteq> [] \<and> l_Reset l \<noteq> ''none'' \<and> t_Kind tgt = TargetDevice)"
          "\<not> queueOwnerSilentLocked now s (queue_of s key ! i)" "\<not> preGrantEraseNeededLocked s l udid"
      by blast
    then show ?thesis
    proof cases
      case nomatch
      have "succeeds (promoteQueue now tgt udid key (Suc i) s events) (?goal s)"
        using "1.IH"(1) [OF i l nomatch "1.prems"] .
      then show ?thesis using i l nomatch by (simp add: promoteQueue.simps [of now tgt udid key i s])
    next
      case device
      have "succeeds (promoteQueue now tgt udid key (Suc i) s events) (?goal s)"
        using "1.IH"(2) [OF i l _ _ "1.prems"] device by blast
      then show ?thesis using i l device by (simp add: promoteQueue.simps [of now tgt udid key i s])
    next
      case silent
      let ?t = "retire_queued now LeaseExpired i l s"
      have ret: "expire_silent now key i l s = ?t" using q(3) by (intro expire_silent_retire) simp
      have "mgr_inv ?t" using m i l q by (intro retire_queued_inv) auto
      then have inv_t: "linv b R ?t" by (rule inv_frame [OF "1.prems"(1)]) simp_all
      have "succeeds (promoteQueue now tgt udid key i ?t (events @ [l\<lparr>l_State := LeaseExpired\<rparr>])) (?goal ?t)"
        using "1.IH"(3) [OF i l _ _ silent(3), unfolded ret] silent(1,2) inv_t "1.prems"(2) by simp
      then have "succeeds (promoteQueue now tgt udid key i ?t (events @ [l\<lparr>l_State := LeaseExpired\<rparr>])) (?goal s)"
      proof (rule succeeds_mono, clarify)
        fix t ev stop
        assume p: "promoted b R now tgt udid ?t t"
          and d: "\<not> stop \<longrightarrow> m_byTarget t udid = None \<and> m_dirty t = m_dirty ?t"
        have "same_cfg s t" using p by (auto simp: promoted_def intro: same_cfg_trans [of s ?t])
        moreover have "promotion now tgt udid s t"
          using p l q by (intro promotion_retire [of s l now tgt udid i t])
            (auto simp: promoted_def retire_queued_def set_queue_def Let_def)
        ultimately show "promoted b R now tgt udid s t \<and> (\<not> stop \<longrightarrow> m_byTarget t udid = None \<and> m_dirty t = m_dirty s)"
          using p d by (simp add: promoted_def)
      qed
      then show ?thesis using i l silent by (auto simp: promoteQueue.simps [of now tgt udid key i s] ret)
    next
      case erase
      show ?thesis
      proof (cases "m_preGrant s (l_ID l) \<noteq> None")
        case True
        have "succeeds (promoteQueue now tgt udid key (Suc i) s events) (?goal s)"
          using "1.IH"(4) [OF i l _ _ erase(3,4) True "1.prems"] erase(1,2) by blast
        then show ?thesis using i l erase True by (auto simp: promoteQueue.simps [of now tgt udid key i s])
      next
        case False
        have "promotion now tgt udid s (startPreGrantEraseLocked l udid s)"
          by (simp add: promotion_def lease_promoted_def stamps_now_def startPreGrantEraseLocked_def)
        then show ?thesis using i l erase False inv_startPreGrantErase [OF "1.prems"]
          by (auto simp: promoteQueue.simps [of now tgt udid key i s] promoted_def)
      qed
    next
      case grant
      let ?t = "grant_queued now key i udid l s"
      have "mgr_inv ?t" using grant_queued_inv [OF m, of i l udid now] i l q "1.prems"(2) by simp
      then have "linv b R ?t"
        using "1.prems" inv_free_not_in_flight [OF "1.prems"(1), of udid] q(3)
        by (auto simp: linv_def resets_ok_def grant_queued_fields)
      moreover have "promotion now tgt udid s ?t"
        using l q grant by (auto simp: promotion_def lease_promoted_def stamps_now_def grant_queued_fields
            grantable_def wantsReset_def preGrantEraseNeededLocked_def)
      ultimately show ?thesis
        using i l grant by (auto simp: promoteQueue.simps [of now tgt udid key i s] promoted_def)
    qed
  qed
qed

lemma promotion_trans:
  assumes "promotion now tgt udid s t" "promotion now tgt udid t u" "m_dirty t = m_dirty s"
    "m_resetFn t = m_resetFn s"
  shows "promotion now tgt udid s u"
proof -
  have g: "grantable t tgt udid l = grantable s tgt udid l" for l
    using assms(3,4) by (simp add: grantable_def)
  have nq: "\<not> is_queued (granted_lease now udid l)" for l by (simp add: granted_lease_def)
  have "lease_promoted now tgt udid s u lid" for lid
  proof -
    have P: "lease_promoted now tgt udid s t lid" "lease_promoted now tgt udid t u lid"
      using assms(1,2) by (simp_all add: promotion_def)
    show ?thesis
    proof (cases "m_leases t lid = m_leases s lid")
      case True
      then show ?thesis using P(2) g by (simp add: lease_promoted_def)
    next
      case False
      then obtain l where l: "m_leases s lid = Some l" "is_queued l"
          "m_leases t lid = Some (l\<lparr>l_State := LeaseExpired\<rparr>) \<or>
           m_leases t lid = Some (granted_lease now udid l) \<and> grantable s tgt udid l"
        using P(1) unfolding lease_promoted_def by blast
      then have "\<nexists>k. m_leases t lid = Some k \<and> is_queued k" using nq by auto
      then have "m_leases u lid = m_leases t lid" using P(2) unfolding lease_promoted_def by blast
      then show ?thesis using l by (simp add: lease_promoted_def)
    qed
  qed
  moreover have "stamps_now now s u"
    using assms(1,2) by (auto simp: promotion_def intro: stamps_now_trans)
  ultimately show ?thesis by (simp add: promotion_def)
qed

lemma promoteQueues_inv:
  assumes "linv b R s" "m_byTarget s udid = None"
  shows "succeeds (promoteQueues now tgt udid keys s events) (\<lambda>(t, _). promoted b R now tgt udid s t)"
  using assms
proof (induction keys arbitrary: s events)
  case Nil
  then show ?case by (simp add: promoted_def promotion_refl)
next
  case (Cons key keys)
  obtain t ev stop where t: "promoteQueue now tgt udid key 0 s events = Some (t, ev, stop)"
      "promoted b R now tgt udid s t" "\<not> stop \<longrightarrow> m_byTarget t udid = None \<and> m_dirty t = m_dirty s"
    using promoteQueue_inv [OF Cons.prems, of now tgt key 0 events] by (auto simp: succeeds_iff)
  show ?case
  proof (cases stop)
    case True
    then show ?thesis using t by simp
  next
    case False
    have "succeeds (promoteQueues now tgt udid keys t ev) (\<lambda>(u, _). promoted b R now tgt udid t u)"
      using t False by (intro Cons.IH) (simp_all add: promoted_def)
    then have "succeeds (promoteQueues now tgt udid keys t ev) (\<lambda>(u, _). promoted b R now tgt udid s u)"
      using t False
      by (elim succeeds_mono) (auto simp: promoted_def same_cfg_def intro: promotion_trans)
    then show ?thesis using t False by simp
  qed
qed

text \<open>\<^verbatim>\<open>promoteLocked\<close> on a target that nobody holds.\<close>

lemma promoteLocked_inv:
  assumes "linv b R s" "m_byTarget s udid = None"
  shows "succeeds (promoteLocked ord now udid s) (\<lambda>(t, _). linv b R t \<and> same_cfg s t \<and>
     (m_targets s udid = None \<longrightarrow> t = s) \<and>
     (\<forall>tgt. m_targets s udid = Some tgt \<longrightarrow> promotion now tgt udid s t))"
proof (cases "m_targets s udid")
  case None
  then show ?thesis using assms by (simp add: promoteLocked_def)
next
  case (Some tgt)
  let ?s = "s\<lparr>m_ranges := Suc (m_ranges s)\<rparr>"
  have "succeeds (promoteLocked ord now udid s) (\<lambda>(t, _). promoted b R now tgt udid ?s t)"
    using promoteQueues_inv [of b R ?s udid] assms Some by (simp add: promoteLocked_def)
  then show ?thesis
    using Some by (elim succeeds_mono) (auto simp: promoted_def same_cfg_def promotion_def lease_promoted_def
        stamps_now_def grantable_def)
qed

section \<open>The life of a lease\<close>

text \<open>
  What a step may do to a lease: its identity never changes; a queued lease can be granted or
  retired; an active lease keeps its target and can only end; a terminal lease stays as it is.
\<close>

definition life_le :: "lease \<Rightarrow> lease \<Rightarrow> bool" where
  "life_le l l' \<longleftrightarrow> l_ID l' = l_ID l \<and> l_Labels l' = l_Labels l \<and> l_RequestedUDID l' = l_RequestedUDID l \<and>
     l_AgentID l' = l_AgentID l \<and> l_CreatedAt l' = l_CreatedAt l \<and>
     (\<not> is_queued l \<longrightarrow> l_TargetUDID l' = l_TargetUDID l \<and> \<not> is_queued l') \<and>
     (is_terminal l \<longrightarrow> l_State l' = l_State l)"

lemma life_le_refl [simp]: "life_le l l"
  by (simp add: life_le_def)

lemma life_le_trans: "life_le l k \<Longrightarrow> life_le k j \<Longrightarrow> life_le l j"
  unfolding life_le_def by auto

text \<open>Between two states of one section no lease appears or disappears and each one lives on.\<close>

definition evolves :: "instant \<Rightarrow> manager \<Rightarrow> manager \<Rightarrow> bool" where
  "evolves now s t \<longleftrightarrow> same_cfg s t \<and> stamps_now now s t \<and> dom (m_leases t) = dom (m_leases s) \<and>
     (\<forall>lid l l'. m_leases s lid = Some l \<longrightarrow> m_leases t lid = Some l' \<longrightarrow> life_le l l')"

lemma evolves_refl [simp]: "evolves now s s"
  by (simp add: evolves_def stamps_now_def)

lemma evolves_trans:
  assumes "evolves now s t" "evolves now t u"
  shows "evolves now s u"
proof -
  have "life_le l l'" if l: "m_leases s lid = Some l" "m_leases u lid = Some l'" for lid l l'
  proof -
    obtain k where "m_leases t lid = Some k" using assms(1) l(1) unfolding evolves_def by blast
    then show ?thesis using assms l life_le_trans unfolding evolves_def by blast
  qed
  then show ?thesis
    using assms by (auto simp: evolves_def intro: same_cfg_trans stamps_now_trans)
qed

lemma evolves_frame:
  "same_cfg s t \<Longrightarrow> m_terminalAt t = m_terminalAt s \<Longrightarrow> m_queueDeadline t = m_queueDeadline s \<Longrightarrow>
   m_leases t = m_leases s \<Longrightarrow> evolves now s t"
  by (auto simp: evolves_def stamps_now_def)

lemma evolves_update:
  assumes "same_cfg s t" "m_leases s lid = Some l" "m_leases t = (m_leases s)(lid \<mapsto> l')" "life_le l l'"
    "stamps_now now s t"
  shows "evolves now s t"
  using assms by (auto simp: evolves_def)

lemma promotion_evolves:
  assumes "promotion now tgt udid s t" "same_cfg s t"
  shows "evolves now s t"
proof -
  have P: "lease_promoted now tgt udid s t lid" for lid using assms(1) by (simp add: promotion_def)
  have "dom (m_leases t) = dom (m_leases s)"
    using P unfolding lease_promoted_def dom_def by (auto, metis+)
  moreover have "life_le l l'" if "m_leases s lid = Some l" "m_leases t lid = Some l'" for lid l l'
    using P [of lid] that unfolding lease_promoted_def by (auto simp: life_le_def granted_lease_def)
  ultimately show ?thesis using assms by (simp add: evolves_def promotion_def)
qed

text \<open>The shape of every preservation lemma of a section: invariant kept, leases lived on.\<close>

abbreviation advances :: "bool \<Rightarrow> string list \<Rightarrow> instant \<Rightarrow> manager \<Rightarrow> pass \<Rightarrow> bool" where
  "advances b R now s \<equiv> \<lambda>(t, _). linv b R t \<and> evolves now s t"

lemma promoteLocked_advances:
  assumes "linv b R s" "m_byTarget s udid = None"
  shows "succeeds (promoteLocked ord now udid s) (advances b R now s)"
  using promoteLocked_inv [OF assms]
  by (rule succeeds_mono) (cases "m_targets s udid"; auto intro: promotion_evolves)

lemma advances_trans:
  "evolves now s t \<Longrightarrow> succeeds f (advances b R now t) \<Longrightarrow> succeeds f (advances b R now s)"
  by (erule succeeds_mono) (auto intro: evolves_trans)

section \<open>Expiry keeps the invariant\<close>

lemma expire_queued_retire:
  assumes "mgr_inv s" "m_leases s lid = Some l" "is_queued l" "m_queueDeadline s lid = Some d" "now > d"
  obtains i where "i < length (queue_of s (leaseQueueKey l))" "queue_of s (leaseQueueKey l) ! i = lid"
    "expire_queued now lid (s, events) =
       Some (retire_queued now LeaseExpired i l s, events @ [l\<lparr>l_State := LeaseExpired\<rparr>])"
proof -
  obtain i where i: "i < length (queue_of s (leaseQueueKey l))" "queue_of s (leaseQueueKey l) ! i = lid"
    "removeFromQueueLocked l s = (set_queue (leaseQueueKey l)
        (remove_at i (queue_of s (leaseQueueKey l))) s)\<lparr>m_preGrant := (m_preGrant s)(lid := None)\<rparr>"
    using assms(1-3) by (rule removeFromQueue_index)
  have "l_ID l = lid" using assms(1,2) by (rule lease_at)
  then have "expire_queued now lid (s, events) =
       Some (retire_queued now LeaseExpired i l s, events @ [l\<lparr>l_State := LeaseExpired\<rparr>])"
    using assms(2,4,5) by (simp add: expire_queued_def i(3) retire_queued_def set_queue_def Let_def)
  with i that show ?thesis by blast
qed

lemma queued_has_lease:
  "mgr_inv s \<Longrightarrow> m_queueDeadline s lid = Some d \<Longrightarrow> \<exists>l. m_leases s lid = Some l \<and> is_queued l"
  using mgr_invD(6) unfolding deadlines_ok_def by blast

lemma expire_queued_inv:
  assumes "linv b R s"
  shows "succeeds (expire_queued now lid (s, events)) (advances b R now s)"
proof (cases "\<exists>d. m_queueDeadline s lid = Some d \<and> now > d")
  case False
  then show ?thesis using assms by (auto simp: expire_queued_def split: option.splits)
next
  case True
  then obtain d where d: "m_queueDeadline s lid = Some d" "now > d" by blast
  have m: "mgr_inv s" using assms by (rule invD)
  obtain l where l: "m_leases s lid = Some l" "is_queued l" using queued_has_lease [OF m d(1)] by blast
  have lid: "l_ID l = lid" using m l(1) by (rule lease_at)
  obtain i where i: "i < length (queue_of s (leaseQueueKey l))" "queue_of s (leaseQueueKey l) ! i = lid"
    "expire_queued now lid (s, events) =
       Some (retire_queued now LeaseExpired i l s, events @ [l\<lparr>l_State := LeaseExpired\<rparr>])"
    using expire_queued_retire [OF m l d] by blast
  have "mgr_inv (retire_queued now LeaseExpired i l s)"
    using m l i lid by (intro retire_queued_inv) auto
  then have "linv b R (retire_queued now LeaseExpired i l s)" by (rule inv_frame [OF assms]) simp_all
  moreover have "evolves now s (retire_queued now LeaseExpired i l s)"
    using l lid by (intro evolves_update [of s _ lid l "l\<lparr>l_State := LeaseExpired\<rparr>"])
      (auto simp: life_le_def stamps_now_def)
  ultimately show ?thesis using i by simp
qed

lemma grace_inv:
  assumes "linv b R s" "m_leases s lid = Some l" "is_active l"
  shows "linv b R (put_lease (enter_grace s e l) s)"
    "evolves now s (put_lease (enter_grace s e l) s)"
proof -
  have m: "mgr_inv s" using assms(1) by (rule invD)
  have lid: "l_ID l = lid" using m assms(2) by (rule lease_at)
  have "lease_wf l" using m assms(2) by (rule lease_wf_at)
  then have "mgr_inv (put_lease (enter_grace s e l) s)"
    using m assms(2) lid
    by (intro put_lease_inv [of s l]) (auto simp: same_role_def lease_wf_def enter_grace_def leaseQueueKey_def)
  then show "linv b R (put_lease (enter_grace s e l) s)"
    by (rule inv_frame [OF assms(1)]) (simp_all add: put_lease_def)
  show "evolves now s (put_lease (enter_grace s e l) s)"
    using assms(2) lid by (intro evolves_update [of s _ lid l "enter_grace s e l"])
      (auto simp: put_lease_def same_cfg_def life_le_def stamps_now_def enter_grace_def)
qed

lemma end_active_evolves:
  assumes "m_leases s (l_ID l) = Some l" "is_active l" "st = LeaseExpired \<or> st = LeaseReleased"
  shows "evolves now s (end_active now st l s)"
  using assms by (intro evolves_update [of s _ "l_ID l" l "(clearPause l)\<lparr>l_State := st\<rparr>"])
    (auto simp: end_active_def put_lease_def same_cfg_def life_le_def stamps_now_def clearPause_def)

text \<open>Ending an active lease, then holding its target for a reset or promoting the queue.\<close>

lemma end_active_then:
  fixes l :: lease
  defines "l' st \<equiv> (clearPause l)\<lparr>l_State := st\<rparr>"
  assumes "linv b R s" "m_leases s (l_ID l) = Some l" "is_active l" "st = LeaseExpired \<or> st = LeaseReleased"
  shows "linv b R (end_active now st l s)"
    and "linv b R ((hold_for_reset (l' st) (end_active now st l s))
           \<lparr>m_pendingResets := m_pendingResets (end_active now st l s) @ [l' st]\<rparr>)"
    and "linv b (R @ [l_TargetUDID l]) (hold_for_reset (l' st) (end_active now st l s))"
    and "evolves now s (hold_for_reset (l' st) (end_active now st l s))"
    and "succeeds (promoteLocked ord now (l_TargetUDID l) (end_active now st l s)) (advances b R now s)"
proof -
  let ?t = "end_active now st l s"
  have m: "mgr_inv s" using assms(2) by (rule invD)
  show i: "linv b R ?t" using assms(2-5) by (rule inv_end_active)
  have u: "l_TargetUDID (l' st) = l_TargetUDID l" by (simp add: l'_def clearPause_def)
  have free: "m_byTarget ?t (l_TargetUDID l) = None" using m assms(3-5) by (rule end_active_inv)
  show "linv b R ((hold_for_reset (l' st) ?t)\<lparr>m_pendingResets := m_pendingResets ?t @ [l' st]\<rparr>)"
    "linv b (R @ [l_TargetUDID l]) (hold_for_reset (l' st) ?t)"
    using inv_hold_for_reset [OF i, of "l' st"] free by (simp_all add: u)
  have e: "evolves now s ?t" using assms(3-5) by (rule end_active_evolves)
  have "evolves now ?t (hold_for_reset (l' st) ?t)"
    by (rule evolves_frame) (simp_all add: hold_for_reset_def same_cfg_def)
  then show "evolves now s (hold_for_reset (l' st) ?t)" using e by (rule evolves_trans [rotated])
  show "succeeds (promoteLocked ord now (l_TargetUDID l) ?t) (advances b R now s)"
    using e promoteLocked_advances [OF i free] by (rule advances_trans)
qed

lemma expire_active_inv:
  assumes "linv b R s"
  shows "succeeds (expire_active ord now lid (s, events)) (advances b R now s)"
proof (cases "\<exists>l e. m_leases s lid = Some l \<and> is_active l \<and> l_ExpiresAt l = Some e \<and> now > e")
  case False
  then show ?thesis using assms by (auto simp: expire_active_def split: option.splits)
next
  case True
  then obtain l e where l: "m_leases s lid = Some l" "is_active l" "l_ExpiresAt l = Some e" "now > e" by blast
  have m: "mgr_inv s" using assms by (rule invD)
  let ?l = "enter_grace s e l" let ?s = "put_lease ?l s"
  note g = grace_inv [OF assms l(1,2), where e = e]
  have k: "m_leases ?s (l_ID ?l) = Some ?l" "is_active ?l" using l(2) by (auto simp: put_lease_def enter_grace_def)
  note T = end_active_then [OF g(1) k disjI1 [OF refl]]
  have ev: "evolves now ?s t \<Longrightarrow> evolves now s t" for t using g(2) [of now] by (rule evolves_trans)
  have pend: "evolves now s (t\<lparr>m_pendingResets := p\<rparr>) = evolves now s t" for t p
    by (simp add: evolves_def same_cfg_def stamps_now_def)
  have u: "l_TargetUDID ((clearPause ?l)\<lparr>l_State := LeaseExpired\<rparr>) = l_TargetUDID ?l"
    by (simp add: clearPause_def)
  show ?thesis
  proof (cases "grace_open ?s now ?l")
    case True
    then show ?thesis using l g by (simp add: expire_active_def Let_def)
  next
    case False
    let ?t = "end_active now LeaseExpired ?l ?s" and ?l' = "(clearPause ?l)\<lparr>l_State := LeaseExpired\<rparr>"
    show ?thesis
    proof (cases "needsResetLocked ?t ?l'")
      case True
      then show ?thesis using l False T(2,4) by (simp add: expire_active_def Let_def pend ev)
    next
      case nr: False
      obtain t gr where "promoteLocked ord now (l_TargetUDID ?l) ?t = Some (t, gr)"
          "linv b R t" "evolves now ?s t"
        using T(5) [of ord now] by (auto simp: succeeds_iff)
      then show ?thesis using l False nr u ev by (simp add: expire_active_def Let_def)
    qed
  qed
qed

lemma succeeds_passE:
  assumes "succeeds f (\<lambda>(t, _). P t)"
  obtains t ev where "f = Some (t, ev)" "P t"
  using assms by (auto simp: succeeds_iff)

text \<open>A loop whose every iteration advances the state advances the state.\<close>

lemma foldM_advances:
  assumes "linv b R s" "\<And>k s ev. linv b R s \<Longrightarrow> succeeds (f k (s, ev)) (advances b R now s)"
  shows "succeeds (foldM f ks (s, ev)) (advances b R now s)"
proof -
  have "succeeds (foldM f ks (s, ev)) (\<lambda>p. linv b R (fst p) \<and> evolves now s (fst p))"
  proof (rule foldM_inv)
    show "linv b R (fst (s, ev)) \<and> evolves now s (fst (s, ev))" using assms(1) by simp
    fix k and p :: pass
    assume p: "linv b R (fst p) \<and> evolves now s (fst p)"
    obtain t ev' where [simp]: "p = (t, ev')" by (cases p)
    have "succeeds (f k (t, ev')) (advances b R now t)" using p by (intro assms(2)) simp
    then show "succeeds (f k p) (\<lambda>p. linv b R (fst p) \<and> evolves now s (fst p))"
      using p by (auto elim!: succeeds_mono intro: evolves_trans)
  qed
  then show ?thesis by (rule succeeds_mono) auto
qed


text \<open>
  A whole section may also collect terminal leases: it keeps every other lease and collects only
  leases that were terminal before.
\<close>

definition section_ok :: "manager \<Rightarrow> manager \<Rightarrow> bool" where
  "section_ok s t \<longleftrightarrow> same_cfg s t \<and> dom (m_leases t) \<subseteq> dom (m_leases s) \<and>
     (\<forall>lid l. m_leases s lid = Some l \<longrightarrow>
        (case m_leases t lid of None \<Rightarrow> is_terminal l | Some l' \<Rightarrow> life_le l l'))"

lemma section_ok_refl [simp]: "section_ok s s"
  by (simp add: section_ok_def)

lemma section_ok_evolves:
  assumes "section_ok s t" "evolves now t u"
  shows "section_ok s u"
proof -
  have "case m_leases u lid of None \<Rightarrow> is_terminal l | Some l' \<Rightarrow> life_le l l'"
    if l: "m_leases s lid = Some l" for lid l
  proof (cases "m_leases u lid")
    case None
    then have "m_leases t lid = None" using assms(2) unfolding evolves_def by blast
    then show ?thesis using None assms(1) l unfolding section_ok_def by force
  next
    case (Some l')
    then obtain k where k: "m_leases t lid = Some k" using assms(2) unfolding evolves_def by blast
    then have "life_le l k" using assms(1) l unfolding section_ok_def by force
    moreover have "life_le k l'" using assms(2) k Some unfolding evolves_def by blast
    ultimately show ?thesis using Some by (auto intro: life_le_trans)
  qed
  then show ?thesis
    using assms unfolding section_ok_def evolves_def by (auto intro: same_cfg_trans)
qed

lemma collect_terminal_fields [simp]:
  "m_byTarget (collect_terminal now lid s) = m_byTarget s"
  "m_resetInFlight (collect_terminal now lid s) = m_resetInFlight s"
  "m_pendingResets (collect_terminal now lid s) = m_pendingResets s"
  "same_cfg s (collect_terminal now lid s)"
  by (simp_all add: collect_terminal_def same_cfg_def split: option.split)

text \<open>What collection removes had been terminal for longer than the retention.\<close>

definition collected :: "instant \<Rightarrow> manager \<Rightarrow> manager \<Rightarrow> bool" where
  "collected now s t \<longleftrightarrow> same_cfg s t \<and> (\<forall>lid. (m_leases t lid = m_leases s lid \<and> m_terminalAt t lid = m_terminalAt s lid) \<or>
     (m_leases t lid = None \<and> (\<exists>at. m_terminalAt s lid = Some at \<and> now - at > TerminalRetention)))"

lemma collect_terminal_collected:
  assumes "collected now s t"
  shows "collected now s (collect_terminal now lid t)"
proof -
  have "(m_leases (collect_terminal now lid t) j = m_leases s j \<and>
      m_terminalAt (collect_terminal now lid t) j = m_terminalAt s j) \<or>
     (m_leases (collect_terminal now lid t) j = None \<and>
      (\<exists>at. m_terminalAt s j = Some at \<and> now - at > TerminalRetention))" for j
  proof -
    have "(m_leases t j = m_leases s j \<and> m_terminalAt t j = m_terminalAt s j) \<or>
      (m_leases t j = None \<and> (\<exists>at. m_terminalAt s j = Some at \<and> now - at > TerminalRetention))"
      using assms unfolding collected_def by blast
    then show ?thesis
      by (cases "j = lid") (auto simp: collect_terminal_def split: option.splits)
  qed
  then show ?thesis
    using assms same_cfg_trans collect_terminal_fields(4) unfolding collected_def by blast
qed

lemma collect_fold:
  assumes "linv b R s"
  shows "linv b R (fold (collect_terminal now) ks s) \<and> collected now s (fold (collect_terminal now) ks s)"
proof -
  have "linv b R (fold (collect_terminal now) ks t) \<and> collected now s (fold (collect_terminal now) ks t)"
    if "linv b R t" "collected now s t" for t
    using that
  proof (induction ks arbitrary: t)
    case Nil
    then show ?case by simp
  next
    case (Cons k ks)
    have "mgr_inv (collect_terminal now k t)" using invD(1) [OF Cons.prems(1)] by (rule collect_terminal_inv)
    then have "linv b R (collect_terminal now k t)" by (rule inv_frame [OF Cons.prems(1)]) simp_all
    then show ?case using Cons.IH collect_terminal_collected [OF Cons.prems(2)] by simp
  qed
  moreover have "collected now s s" by (simp add: collected_def)
  ultimately show ?thesis using assms by blast
qed

lemma collected_section:
  assumes "mgr_inv s" "evolves now s t" "collected now t u"
  shows "section_ok s u"
proof -
  have "case m_leases u lid of None \<Rightarrow> is_terminal l | Some l' \<Rightarrow> life_le l l'"
    if l: "m_leases s lid = Some l" for lid l
  proof -
    obtain k where k: "m_leases t lid = Some k" "life_le l k" using assms(2) l unfolding evolves_def by blast
    consider "m_leases u lid = Some k"
      | at where "m_leases u lid = None" "m_terminalAt t lid = Some at" "now - at > TerminalRetention"
      using assms(3) k(1) unfolding collected_def by metis
    then show ?thesis
    proof cases
      case 1
      then show ?thesis using k by simp
    next
      case 2
      then have "at \<noteq> now" by (auto simp: TerminalRetention_def)
      then have "m_terminalAt s lid = Some at"
        using 2(2) assms(2) unfolding evolves_def stamps_now_def by (metis option.inject)
      then have "is_terminal l" using mgr_invD(7) [OF assms(1)] l unfolding terminal_ok_def
        by (metis option.distinct(1) option.inject)
      then show ?thesis using 2 by simp
    qed
  qed
  moreover have "dom (m_leases u) \<subseteq> dom (m_leases t)"
    using assms(3) unfolding collected_def by (metis domIff subsetI)
  then have "dom (m_leases u) \<subseteq> dom (m_leases s)" using assms(2) by (simp add: evolves_def)
  ultimately show ?thesis
    using assms(2,3) unfolding section_ok_def evolves_def collected_def by (auto intro: same_cfg_trans)
qed

text \<open>\<^verbatim>\<open>expireLocked\<close>: every method that opens with it starts from an invariant state.\<close>

abbreviation keeps :: "bool \<Rightarrow> string list \<Rightarrow> manager \<Rightarrow> pass \<Rightarrow> bool" where
  "keeps b R s \<equiv> \<lambda>(t, _). linv b R t \<and> section_ok s t"

lemma expireLocked_inv:
  assumes "linv b R s"
  shows "succeeds (expireLocked ord now s) (keeps b R s)"
proof -
  have nr: "evolves now s (next_range s)" for s
    by (rule evolves_frame) (simp_all add: next_range_def same_cfg_def)
  let ?k1 = "range_over (m_queueDeadline s) (ord (m_ranges s))"
  have "succeeds (foldM (expire_queued now) ?k1 (next_range s, [])) (advances b R now (next_range s))"
    using assms by (intro foldM_advances expire_queued_inv) simp_all
  then obtain s1 ev1 where s1: "foldM (expire_queued now) ?k1 (next_range s, []) = Some (s1, ev1)"
      "linv b R s1 \<and> evolves now (next_range s) s1"
    by (rule succeeds_passE)
  let ?k2 = "range_over (m_leases s1) (ord (m_ranges s1))"
  have "succeeds (foldM (expire_active ord now) ?k2 (next_range s1, ev1)) (advances b R now (next_range s1))"
    using s1(2) by (intro foldM_advances expire_active_inv) simp_all
  then obtain s2 ev2 where s2: "foldM (expire_active ord now) ?k2 (next_range s1, ev1) = Some (s2, ev2)"
      "linv b R s2 \<and> evolves now (next_range s1) s2"
    by (rule succeeds_passE)
  let ?k3 = "range_over (m_terminalAt s2) (ord (m_ranges s2))"
  let ?s3 = "fold (collect_terminal now) ?k3 (next_range s2)"
  have s3: "linv b R ?s3" "collected now (next_range s2) ?s3"
    using collect_fold [of b R "next_range s2"] s2(2) by simp_all
  have "evolves now s (next_range s2)"
    using nr s1(2) s2(2) evolves_trans by meson
  then have "section_ok s ?s3" using invD(1) [OF assms] s3(2) collected_section by blast
  then show ?thesis using s1(1) s2(1) s3(1) by (simp add: expireLocked_def)
qed

end
