(* ===== verification/Mz_LeaseMethods.thy ===== *)
theory Mz_LeaseMethods
  imports Mz_LeaseOps
begin

text \<open>
  Every exported method of the lease manager keeps the invariant, never dereferences a nil lease,
  and moves each lease along its life cycle. Each lemma is stated once for both layers of
  \<^const>\<open>linv\<close>; \<open>R\<close> is the list of targets whose reset is running before the call, and the resets
  the method starts are appended to it.
\<close>

section \<open>The contract of a method\<close>

definition lives :: "manager \<Rightarrow> manager \<Rightarrow> bool" where
  "lives s t \<longleftrightarrow> (\<forall>lid l. m_leases s lid = Some l \<longrightarrow>
     (case m_leases t lid of None \<Rightarrow> is_terminal l | Some l' \<Rightarrow> life_le l l'))"

definition method_ok :: "bool \<Rightarrow> string list \<Rightarrow> manager \<Rightarrow> 'r outcome \<Rightarrow> bool" where
  "method_ok b R s out \<longleftrightarrow> linv b (R @ map l_TargetUDID (o_resets out)) (o_state out) \<and>
     m_pendingResets (o_state out) = [] \<and> lives s (o_state out)"

lemma section_lives: "section_ok s t \<Longrightarrow> lives s t"
  by (simp add: section_ok_def lives_def)

lemma lives_refl [simp]: "lives s s"
  by (simp add: lives_def)

lemma lives_pending [simp]: "lives s (t\<lparr>m_pendingResets := p\<rparr>) = lives s t"
  by (simp add: lives_def)

lemma linv_drain: "linv b (R @ map l_TargetUDID (m_pendingResets s)) (s\<lparr>m_pendingResets := []\<rparr>) = linv b R s"
  by (simp add: linv_def resets_ok_def)

lemma settle_ok: "linv b R t \<Longrightarrow> lives s t \<Longrightarrow> method_ok b R s (settle t ev r)"
  by (simp add: method_ok_def settle_def linv_drain)

lemma settle_fields [simp]:
  "o_result (settle t ev r) = r" "o_resets (settle t ev r) = m_pendingResets t"
  "o_state (settle t ev r) = t\<lparr>m_pendingResets := []\<rparr>" "o_calls (settle t ev r) = emit t ev"
  by (simp_all add: settle_def)

text \<open>A method that returns before touching the state.\<close>

lemma untouched_ok:
  "linv b R s \<Longrightarrow> m_pendingResets s = [] \<Longrightarrow>
   method_ok b R s \<lparr>o_state = s, o_calls = c, o_resets = [], o_result = r\<rparr>"
  by (simp add: method_ok_def)

lemma expireLockedE:
  assumes "linv b R s"
  obtains t ev where "expireLocked ord now s = Some (t, ev)" "linv b R t" "section_ok s t"
  using expireLocked_inv [OF assms, of ord now] by (auto simp: succeeds_iff)

section \<open>Reading and changing one lease\<close>

lemma put_lease_advances:
  assumes "linv b R s" "m_leases s lid = Some l" "same_role l l'" "lease_wf l'" "life_le l l'"
  shows "linv b R (put_lease l' s)" "evolves now s (put_lease l' s)"
proof -
  have m: "mgr_inv s" using assms(1) by (rule invD)
  have lid: "l_ID l = lid" "l_ID l' = lid"
    using m assms(2,3) lease_at [of s lid l] by (auto simp: same_role_def)
  have "mgr_inv (put_lease l' s)" using m assms lid by (intro put_lease_inv) auto
  then show "linv b R (put_lease l' s)" by (rule inv_frame [OF assms(1)]) (simp_all add: put_lease_def)
  show "evolves now s (put_lease l' s)"
    using assms lid by (intro evolves_update [of s _ lid l l'])
      (auto simp: put_lease_def same_cfg_def stamps_now_def)
qed

lemma with_active_ok:
  assumes "linv b R s"
    and f: "\<And>l. is_active l \<Longrightarrow> lease_wf l \<Longrightarrow> same_role l (f l) \<and> lease_wf (f l) \<and> life_le l (f l)"
  shows "succeeds (with_active ord now lid f s) (method_ok b R s)"
proof -
  obtain t ev where t: "expireLocked ord now s = Some (t, ev)" "linv b R t" "section_ok s t"
    using expireLockedE [OF assms(1)] .
  have "method_ok b R s (settle (put_lease (f l) t) ev r)"
    if l: "m_leases t lid = Some l" "is_active l" for l and r :: "lease_error + lease"
  proof -
    have "lease_wf l" using invD(1) [OF t(2)] l(1) by (rule lease_wf_at)
    then have k: "same_role l (f l)" "lease_wf (f l)" "life_le l (f l)" using f l(2) by blast+
    note P = put_lease_advances [OF t(2) l(1) k]
    show ?thesis using P(1) section_ok_evolves [OF t(3) P(2)] by (intro settle_ok section_lives)
  qed
  then show ?thesis
    using t by (auto simp: with_active_def settle_ok section_lives split: option.split)
qed

lemma whole_seconds_mult [simp]: "0 \<le> n \<Longrightarrow> whole_seconds (n * Second) = n"
  by (cases "n = 0") (auto simp: whole_seconds_def sgn_if abs_mult)

lemma clampTTL_cases:
  "clampTTL n = (if n \<le> 0 then 300 else if n > 3600 then 3600 else n) * Second"
  by (simp add: clampTTL_def DefaultTTL_def MaxTTL_def)

lemma clampTTL_seconds [simp]: "1 \<le> whole_seconds (clampTTL n)" "whole_seconds (clampTTL n) \<le> 3600"
  unfolding clampTTL_cases by (subst whole_seconds_mult; simp)+

lemma Renew_ok: "linv b R s \<Longrightarrow> succeeds (Renew ord now lid n s) (method_ok b R s)"
  unfolding Renew_def by (rule with_active_ok)
    (auto simp: renewed_def Let_def same_role_def lease_wf_def life_le_def leaseQueueKey_def)

lemma Pause_ok: "linv b R s \<Longrightarrow> succeeds (Pause ord now lid reason s) (method_ok b R s)"
  unfolding Pause_def by (rule with_active_ok)
    (auto simp: paused_def Let_def same_role_def lease_wf_def life_le_def leaseQueueKey_def)

lemma Resume_ok: "linv b R s \<Longrightarrow> succeeds (Resume ord now lid s) (method_ok b R s)"
  unfolding Resume_def by (rule with_active_ok)
    (auto simp: clearPause_def same_role_def lease_wf_def life_le_def leaseQueueKey_def)

text \<open>Polling a queued lease refreshes its abandonment deadline.\<close>

lemma poll_inv:
  assumes "mgr_inv s" "m_leases s lid = Some l" "is_queued l"
  shows "mgr_inv (s\<lparr>m_queueDeadline := (m_queueDeadline s)(lid \<mapsto> d), m_queuePolled := insert lid (m_queuePolled s)\<rparr>)"
proof -
  let ?t = "s\<lparr>m_queueDeadline := (m_queueDeadline s)(lid \<mapsto> d), m_queuePolled := insert lid (m_queuePolled s)\<rparr>"
  have q: "queue_of ?t k = queue_of s k" for k by (simp add: queue_of_def)
  have "deadlines_ok ?t" using mgr_invD(6) [OF assms(1)] assms(2,3) unfolding deadlines_ok_def by auto
  moreover have "ids_ok ?t = ids_ok s" "holders_ok ?t = holders_ok s" "actives_ok ?t = actives_ok s"
    "queues_ok ?t = queues_ok s" "queued_ok ?t = queued_ok s" "terminal_ok ?t = terminal_ok s"
    "leases_ok ?t = leases_ok s"
    by (simp_all add: ids_ok_def holders_ok_def actives_ok_def queues_ok_def queued_ok_def
        terminal_ok_def leases_ok_def q)
  ultimately show ?thesis using mgr_invD [OF assms(1)] by (simp add: mgr_inv_def)
qed

lemma Get_ok:
  assumes "linv b R s"
  shows "succeeds (Get ord now lid s) (method_ok b R s)"
proof -
  obtain t ev where t: "expireLocked ord now s = Some (t, ev)" "linv b R t" "section_ok s t"
    using expireLockedE [OF assms(1)] .
  have "method_ok b R s (settle ((put_lease (l\<lparr>l_QueuePosition := n\<rparr>) t)
      \<lparr>m_queueDeadline := (m_queueDeadline t)(l_ID l \<mapsto> d), m_queuePolled := insert (l_ID l) (m_queuePolled t)\<rparr>) ev r)"
    if l: "m_leases t lid = Some l" "is_queued l" for l d n and r :: "lease_error + lease"
  proof -
    let ?l = "l\<lparr>l_QueuePosition := n\<rparr>" let ?u = "put_lease ?l t"
    have lid: "l_ID l = lid" and "lease_wf l" using invD(1) [OF t(2)] l(1) by (rule lease_at lease_wf_at)+
    then have P: "linv b R ?u" "evolves now t ?u"
      using l by (intro put_lease_advances [OF t(2) l(1)];
        auto simp: same_role_def lease_wf_def life_le_def leaseQueueKey_def)+
    let ?v = "?u\<lparr>m_queueDeadline := (m_queueDeadline ?u)(lid \<mapsto> d), m_queuePolled := insert lid (m_queuePolled ?u)\<rparr>"
    have "mgr_inv ?v"
      using invD(1) [OF P(1)] l(2) lid by (intro poll_inv [of _ _ ?l]) (auto simp: put_lease_def)
    then have i: "linv b R ?v" by (rule inv_frame [OF P(1)]) simp_all
    have "lives s ?u" using section_ok_evolves [OF t(3) P(2)] by (rule section_lives)
    then have "lives s ?v" by (simp add: lives_def)
    then show ?thesis using i lid by (intro settle_ok) (simp_all add: put_lease_def)
  qed
  then show ?thesis
    using t by (auto simp: Get_def Let_def settle_ok section_lives split: option.split)
qed

section \<open>Release and the readers\<close>

lemma release_queued_retire:
  assumes "mgr_inv s" "m_leases s lid = Some l" "is_queued l"
  obtains i where "i < length (queue_of s (leaseQueueKey l))" "queue_of s (leaseQueueKey l) ! i = lid"
    "release_queued now l s = retire_queued now LeaseReleased i l s"
proof -
  obtain i where i: "i < length (queue_of s (leaseQueueKey l))" "queue_of s (leaseQueueKey l) ! i = lid"
    "removeFromQueueLocked l s = (set_queue (leaseQueueKey l)
        (remove_at i (queue_of s (leaseQueueKey l))) s)\<lparr>m_preGrant := (m_preGrant s)(lid := None)\<rparr>"
    using assms by (rule removeFromQueue_index)
  have "l_ID l = lid" using assms(1,2) by (rule lease_at)
  then have "release_queued now l s = retire_queued now LeaseReleased i l s"
    by (simp add: release_queued_def i(3) retire_queued_def set_queue_def put_lease_def Let_def)
  with i that show ?thesis by blast
qed

lemma release_queued_advances:
  assumes "linv b R s" "m_leases s lid = Some l" "is_queued l"
  shows "linv b R (release_queued now l s)" "evolves now s (release_queued now l s)"
proof -
  have m: "mgr_inv s" using assms(1) by (rule invD)
  have lid: "l_ID l = lid" using m assms(2) by (rule lease_at)
  obtain i where i: "i < length (queue_of s (leaseQueueKey l))" "queue_of s (leaseQueueKey l) ! i = lid"
    "release_queued now l s = retire_queued now LeaseReleased i l s"
    using m assms(2,3) by (rule release_queued_retire)
  have "mgr_inv (retire_queued now LeaseReleased i l s)"
    using m assms i lid by (intro retire_queued_inv) auto
  then show "linv b R (release_queued now l s)"
    unfolding i(3) by (rule inv_frame [OF assms(1)]) simp_all
  show "evolves now s (release_queued now l s)"
    unfolding i(3) using assms lid
    by (intro evolves_update [of s _ lid l "l\<lparr>l_State := LeaseReleased\<rparr>"]) (auto simp: life_le_def stamps_now_def)
qed

lemma Release_ok:
  assumes "linv b R s"
  shows "succeeds (Release ord now lid s) (method_ok b R s)"
proof -
  obtain t ev where t: "expireLocked ord now s = Some (t, ev)" "linv b R t" "section_ok s t"
    using expireLockedE [OF assms(1)] .
  have m: "mgr_inv t" using t(2) by (rule invD)
  have sec: "evolves now t u \<Longrightarrow> lives s u" for u using section_ok_evolves [OF t(3)] section_lives by blast
  show ?thesis
  proof (cases "m_leases t lid")
    case None
    then show ?thesis using t by (simp add: Release_def settle_ok section_lives)
  next
    case (Some l)
    consider (active) "is_active l" | (queued) "is_queued l" | (other) "l_State l \<notin> {LeaseActive, LeaseQueued}"
      by blast
    then show ?thesis
    proof cases
      case active
      let ?l = "(clearPause l)\<lparr>l_State := LeaseReleased\<rparr>" let ?t = "end_active now LeaseReleased l t"
      have lid: "l_ID l = lid" using m Some by (rule lease_at)
      then have l: "m_leases t (l_ID l) = Some l" using Some by simp
      note T = end_active_then [OF t(2) l active disjI2 [OF refl]]
      have u: "l_TargetUDID ?l = l_TargetUDID l" by (simp add: clearPause_def)
      show ?thesis
      proof (cases "needsResetLocked ?t ?l")
        case True
        have "linv b ((R @ [l_TargetUDID l]) @ map l_TargetUDID (m_pendingResets (hold_for_reset ?l ?t)))
                ((hold_for_reset ?l ?t)\<lparr>m_pendingResets := []\<rparr>)"
          unfolding linv_drain by (rule T(3))
        moreover have "lives s (hold_for_reset ?l ?t)" by (rule sec [OF T(4)])
        ultimately show ?thesis
          using t Some active True u by (simp add: Release_def Let_def method_ok_def)
      next
        case False
        obtain v gr where "promoteLocked ord now (l_TargetUDID l) ?t = Some (v, gr)"
            "linv b R v \<and> evolves now t v"
          using T(5) [of ord now] by (rule succeeds_passE)
        then show ?thesis
          using t Some active False u sec by (simp add: Release_def Let_def settle_ok)
      qed
    next
      case queued
      note Q = release_queued_advances [OF t(2) Some queued]
      show ?thesis using t Some queued Q(1) sec [OF Q(2)] by (simp add: Release_def settle_ok)
    next
      case other
      then show ?thesis
        using t Some by (cases "l_State l") (simp_all add: Release_def settle_ok section_lives)
    qed
  qed
qed

lemma Active_ok:
  assumes "linv b R s"
  shows "succeeds (Active ord now udid s) (method_ok b R s)"
proof -
  obtain t ev where t: "expireLocked ord now s = Some (t, ev)" "linv b R t" "section_ok s t"
    using expireLockedE [OF assms(1)] .
  have h: "\<exists>l. m_leases t lid = Some l"
    if "m_byTarget t udid = Some lid" "lid \<noteq> resetSentinel" "lid \<noteq> reserveSentinel" for lid
    using holderD [OF invD(1) [OF t(2)] that(1)] that by auto
  show ?thesis
    using t h by (fastforce simp: Active_def settle_ok section_lives split: option.split)
qed

lemma ExpireNow_ok:
  assumes "linv b R s"
  shows "succeeds (ExpireNow ord now s) (method_ok b R s)"
proof -
  obtain t ev where t: "expireLocked ord now s = Some (t, ev)" "linv b R t" "section_ok s t"
    using expireLockedE [OF assms(1)] .
  then show ?thesis by (simp add: ExpireNow_def settle_ok section_lives)
qed

lemma List_leases_ok:
  assumes "linv b R s"
  shows "succeeds (List_leases ord now s) (method_ok b R s)"
proof -
  obtain t ev where t: "expireLocked ord now s = Some (t, ev)" "linv b R t" "section_ok s t"
    using expireLockedE [OF assms(1)] .
  have "lives s (next_range t)" using section_lives [OF t(3)] by (simp add: lives_def next_range_def)
  then show ?thesis using t by (simp add: List_leases_def Let_def settle_ok)
qed

section \<open>Resets, reservations and quarantine\<close>

lemma evolves_lives: "evolves now s t \<Longrightarrow> lives s t"
  using section_ok_evolves [of s s] section_lives by simp

text \<open>Freeing a target that is under a sentinel and not being reset, then promoting.\<close>

lemma free_then_promote:
  assumes "linv b R s" "not_leased s udid" "b \<longrightarrow> udid \<notin> m_resetInFlight s"
  shows "succeeds (promoteLocked ord now udid (s\<lparr>m_byTarget := (m_byTarget s)(udid := None)\<rparr>))
           (\<lambda>(t, _). linv b R t \<and> lives s t)"
proof -
  let ?t = "s\<lparr>m_byTarget := (m_byTarget s)(udid := None)\<rparr>"
  have "mgr_inv ?t" using invD(1) [OF assms(1)] assms(2) by (rule hold_inv) simp
  then have "linv b R ?t" using assms by (auto simp: linv_def resets_ok_def)
  then have "succeeds (promoteLocked ord now udid ?t) (advances b R now ?t)"
    by (rule promoteLocked_advances) simp
  moreover have "evolves now s ?t" by (rule evolves_frame) (simp_all add: same_cfg_def)
  ultimately have "succeeds (promoteLocked ord now udid ?t) (advances b R now s)" by (rule advances_trans [rotated])
  then show ?thesis by (rule succeeds_mono) (auto intro: evolves_lives)
qed

lemma FinishReset_ok:
  assumes "linv b R s" "m_pendingResets s = []" "b \<longrightarrow> udid \<notin> m_resetInFlight s"
  shows "succeeds (FinishReset ord now udid s) (method_ok b R s)"
proof (cases "m_byTarget s udid = Some resetSentinel")
  case False
  then show ?thesis using assms(1,2) by (simp add: FinishReset_def untouched_ok)
next
  case True
  then have "not_leased s udid" by (simp add: not_leased_def)
  then obtain t ev where "promoteLocked ord now udid (s\<lparr>m_byTarget := (m_byTarget s)(udid := None)\<rparr>) = Some (t, ev)"
      "linv b R t \<and> lives s t"
    using free_then_promote [OF assms(1) _ assms(3), of ord now] by (auto elim: succeeds_passE)
  then show ?thesis using True by (simp add: FinishReset_def settle_ok)
qed

lemma ClearQuarantine_ok:
  assumes "linv b R s" "m_pendingResets s = []"
  shows "succeeds (ClearQuarantine ord now udid s) (method_ok b R s)"
proof (cases "clear_check udid s")
  case False
  then show ?thesis using assms by (simp add: ClearQuarantine_def untouched_ok)
next
  case True
  then obtain out where "FinishReset ord now udid s = Some out" "method_ok b R s out"
    using FinishReset_ok [OF assms, of udid ord now] by (auto simp: clear_check_def succeeds_iff)
  then show ?thesis using True by (simp add: ClearQuarantine_def method_ok_def)
qed

text \<open>A reset that returns leaves the list of running resets.\<close>

lemma reset_returned_inv:
  assumes "linv b R s" "m_pendingResets s = []"
  shows "linv b (remove1 (l_TargetUDID l) R) (reset_returned l ok s)"
proof -
  have "mgr_inv (reset_returned l ok s)" using invD(1) [OF assms(1)] by (simp add: reset_returned_def)
  moreover have "resets_ok (remove1 (l_TargetUDID l) R) (reset_returned l ok s)" if b
    using invD(2) [OF assms(1) that] assms(2) by (auto simp: resets_ok_def reset_returned_def)
  ultimately show ?thesis by (simp add: linv_def)
qed

lemma startReset_ok:
  assumes "linv b R s" "m_pendingResets s = []"
  shows "succeeds (startReset ord now l ok s) (method_ok b (remove1 (l_TargetUDID l) R) s)"
proof -
  let ?t = "reset_returned l ok s"
  have i: "linv b (remove1 (l_TargetUDID l) R) ?t" using assms by (rule reset_returned_inv)
  have p: "m_pendingResets ?t = []" "l_TargetUDID l \<notin> m_resetInFlight ?t"
    using assms(2) by (simp_all add: reset_returned_def)
  have lv: "lives (reset_returned l k s) u = lives s u" for k u by (simp add: lives_def reset_returned_def)
  show ?thesis
  proof (cases ok)
    case True
    then show ?thesis
      using FinishReset_ok [OF i p(1), of "l_TargetUDID l" ord now] p(2)
      by (auto simp: startReset_def method_ok_def lv elim!: succeeds_mono)
  next
    case False
    then show ?thesis using i p(1) by (simp add: startReset_def method_ok_def lives_def reset_returned_def)
  qed
qed

lemma linv_hold:
  assumes "linv b R s" "not_leased s udid" "b \<longrightarrow> udid \<notin> m_resetInFlight s"
    "v \<in> {None, Some resetSentinel, Some reserveSentinel}"
  shows "linv b R (s\<lparr>m_byTarget := (m_byTarget s)(udid := v)\<rparr>)"
proof -
  have "mgr_inv (s\<lparr>m_byTarget := (m_byTarget s)(udid := v)\<rparr>)"
    using invD(1) [OF assms(1)] assms(2,4) by (rule hold_inv)
  then show ?thesis using assms(1,3) by (auto simp: linv_def resets_ok_def)
qed

lemma Reserve_inv:
  assumes "linv b R s"
  shows "linv b R (fst (Reserve udid s))" "m_leases (fst (Reserve udid s)) = m_leases s"
    "m_pendingResets (fst (Reserve udid s)) = m_pendingResets s"
proof -
  have "linv b R (s\<lparr>m_byTarget := (m_byTarget s)(udid := Some reserveSentinel)\<rparr>)"
    if "m_byTarget s udid = None \<or> m_byTarget s udid = Some resetSentinel \<and> udid \<notin> m_resetInFlight s"
    using that inv_free_not_in_flight [OF assms, of udid]
    by (intro linv_hold assms) (auto simp: not_leased_def)
  then show "linv b R (fst (Reserve udid s))"
    using assms by (auto simp: Reserve_def split: option.split)
  show "m_leases (fst (Reserve udid s)) = m_leases s" "m_pendingResets (fst (Reserve udid s)) = m_pendingResets s"
    by (auto simp: Reserve_def split: option.split)
qed

lemma Quarantine_inv:
  assumes "linv b R s"
  shows "linv b R (Quarantine udid s)" "m_leases (Quarantine udid s) = m_leases s"
    "m_pendingResets (Quarantine udid s) = m_pendingResets s"
proof -
  have "linv b R (s\<lparr>m_byTarget := (m_byTarget s)(udid := Some resetSentinel)\<rparr>)"
    if "m_byTarget s udid = Some reserveSentinel"
    using that inv_free_not_in_flight [OF assms, of udid]
    by (intro linv_hold assms) (auto simp: not_leased_def)
  then show "linv b R (Quarantine udid s)" using assms by (auto simp: Quarantine_def)
qed (simp_all add: Quarantine_def)

lemma Unreserve_ok:
  assumes "linv b R s" "m_pendingResets s = []"
  shows "succeeds (Unreserve ord now udid s) (method_ok b R s)"
proof (cases "m_byTarget s udid = Some reserveSentinel")
  case False
  then show ?thesis using assms by (simp add: Unreserve_def untouched_ok)
next
  case True
  let ?s = "(if udid \<in> m_takeoverHold s then s\<lparr>m_dirty := m_dirty s - {udid}\<rparr> else s)
      \<lparr>m_takeoverHold := m_takeoverHold s - {udid}\<rparr>"
  have i: "linv b R ?s" using assms(1) by simp
  have "b \<longrightarrow> udid \<notin> m_resetInFlight ?s" "not_leased ?s udid"
    using True inv_free_not_in_flight [OF assms(1), of udid] by (auto simp: not_leased_def)
  then obtain t ev where t: "promoteLocked ord now udid (?s\<lparr>m_byTarget := (m_byTarget ?s)(udid := None)\<rparr>) = Some (t, ev)"
      "linv b R t \<and> lives ?s t"
    using free_then_promote [OF i, of udid ord now] by (auto elim: succeeds_passE)
  have "lives s t" using t(2) by (auto simp: lives_def)
  then show ?thesis using True t by (auto simp: Unreserve_def Let_def settle_ok)
qed

lemma MarkClean_inv: "linv b R s \<Longrightarrow> linv b R (MarkClean udid s)"
  by (simp add: MarkClean_def)

lemma DropReset_inv:
  assumes "linv b R s"
  shows "linv b R (DropReset lid s)" "lives s (DropReset lid s)"
    "m_pendingResets (DropReset lid s) = m_pendingResets s"
proof -
  have "linv b R (DropReset lid s) \<and> lives s (DropReset lid s)"
  proof (cases "m_leases s lid")
    case None
    then show ?thesis using assms by (simp add: DropReset_def)
  next
    case (Some l)
    have lid: "l_ID l = lid" and wf: "lease_wf l"
      using invD(1) [OF assms] Some by (rule lease_at lease_wf_at)+
    have "DropReset lid s = put_lease (l\<lparr>l_Reset := []\<rparr>) s"
      using Some lid by (simp add: DropReset_def put_lease_def)
    moreover have "linv b R (put_lease (l\<lparr>l_Reset := []\<rparr>) s)" "evolves now s (put_lease (l\<lparr>l_Reset := []\<rparr>) s)" for now
      using wf by (intro put_lease_advances [OF assms Some];
        auto simp: same_role_def lease_wf_def life_le_def leaseQueueKey_def)+
    ultimately show ?thesis using evolves_lives by auto
  qed
  then show "linv b R (DropReset lid s)" "lives s (DropReset lid s)" by simp_all
  show "m_pendingResets (DropReset lid s) = m_pendingResets s"
    by (simp add: DropReset_def split: option.split)
qed

section \<open>Acquire\<close>

lemma newID_not_sentinel: "newID rnd \<noteq> resetSentinel" "newID rnd \<noteq> reserveSentinel"
  by (simp_all add: newID_def resetSentinel_def reserveSentinel_def)

lemma offer_target_advances:
  assumes "linv b R s"
  shows "succeeds (offer_target ord now t (s, ev)) (advances b R now s)"
proof (cases "m_byTarget s (t_UDID t)")
  case None
  then obtain u gr where "promoteLocked ord now (t_UDID t) s = Some (u, gr)" "linv b R u \<and> evolves now s u"
    using promoteLocked_advances [OF assms None, of ord now] by (auto elim: succeeds_passE)
  then show ?thesis using None by (simp add: offer_target_def)
next
  case (Some _)
  then show ?thesis using assms by (simp add: offer_target_def)
qed

text \<open>
  What the scan over the listing finds: a free target that may be granted to the request, if there
  is one; and whether any target could ever serve it.
\<close>

definition suits :: "acquire_req \<Rightarrow> target \<Rightarrow> bool" where
  "suits req t \<longleftrightarrow> matchesRequest t (r_Labels req) (r_UDID req) \<and>
     \<not> (wantsReset (r_Reset req) \<and> t_Kind t = TargetDevice)"

definition scan_ok :: "manager \<Rightarrow> acquire_req \<Rightarrow> target set \<Rightarrow> target option \<times> bool \<Rightarrow> bool" where
  "scan_ok s req T acc \<longleftrightarrow>
     (snd acc \<longleftrightarrow> (\<exists>t \<in> T. suits req t)) \<and>
     (case fst acc of
        None \<Rightarrow> \<forall>t \<in> T. suits req t \<longrightarrow> m_byTarget s (t_UDID t) \<noteq> None
      | Some f \<Rightarrow> f \<in> T \<and> suits req f \<and> m_byTarget s (t_UDID f) = None \<and>
          (r_Reset req = ''erase'' \<longrightarrow> t_UDID f \<in> m_dirty s \<longrightarrow>
             (\<forall>t \<in> T. suits req t \<longrightarrow> m_byTarget s (t_UDID t) = None \<longrightarrow> t_UDID t \<in> m_dirty s)))"

lemma scan_target_ok:
  assumes "scan_ok s req T acc"
  shows "scan_ok s req (insert t T) (scan_target s req t acc)"
proof (cases "suits req t")
  case False
  then have "scan_target s req t acc = acc"
    by (auto simp: scan_target_def suits_def wantsReset_def split: prod.split)
  then show ?thesis using assms False by (auto simp: scan_ok_def split: option.splits)
next
  case True
  then have sc: "scan_target s req t acc = (if m_byTarget s (t_UDID t) \<noteq> None then (fst acc, True)
      else (case fst acc of None \<Rightarrow> (Some t, True)
            | Some f \<Rightarrow> if r_Reset req = ''erase'' \<and> t_UDID f \<in> m_dirty s \<and> t_UDID t \<notin> m_dirty s
                        then (Some t, True) else (Some f, True)))"
    by (auto simp: scan_target_def suits_def wantsReset_def split: prod.split)
  show ?thesis
  proof (cases "fst acc")
    case None
    then show ?thesis using assms True unfolding sc by (auto simp: scan_ok_def)
  next
    case (Some f)
    then show ?thesis using assms True unfolding sc by (auto simp: scan_ok_def)
  qed
qed

lemma scan_targets_ok: "scan_ok s req (set ts) (scan_targets s req ts)"
proof -
  have "scan_ok s req (T \<union> set ts) (fold (scan_target s req) ts acc)" if "scan_ok s req T acc" for T acc
    using that
  proof (induction ts arbitrary: T acc)
    case Nil
    then show ?case by simp
  next
    case (Cons t ts)
    then show ?case using Cons.IH [OF scan_target_ok [OF Cons.prems, of t]] by simp
  qed
  from this [of "{}" "(None, False)"] show ?thesis by (simp add: scan_targets_def scan_ok_def)
qed

lemma scan_free:
  assumes "scan_targets s req ts = (Some f, m)"
  shows "f \<in> set ts" "suits req f" "m_byTarget s (t_UDID f) = None" "m"
    "r_Reset req = ''erase'' \<Longrightarrow> t_UDID f \<in> m_dirty s \<Longrightarrow> t \<in> set ts \<Longrightarrow> suits req t \<Longrightarrow>
     m_byTarget s (t_UDID t) = None \<Longrightarrow> t_UDID t \<in> m_dirty s"
  using scan_targets_ok [of s req ts] unfolding assms scan_ok_def by auto

lemma scan_none:
  assumes "scan_targets s req ts = (None, m)"
  shows "t \<in> set ts \<Longrightarrow> suits req t \<Longrightarrow> m_byTarget s (t_UDID t) \<noteq> None"
  using scan_targets_ok [of s req ts] unfolding assms scan_ok_def by auto

lemma scan_any: "snd (scan_targets s req ts) \<longleftrightarrow> (\<exists>t \<in> set ts. suits req t)"
  using scan_targets_ok [of s req ts] by (simp add: scan_ok_def)

lemma new_lease_fields [simp]:
  "l_ID (new_lease now lid req) = lid" "\<not> l_Paused (new_lease now lid req)"
  "1 \<le> l_TTLSeconds (new_lease now lid req)" "l_TTLSeconds (new_lease now lid req) \<le> 3600"
  "l_Reset (new_lease now lid req) = r_Reset req"
  "l_Labels (new_lease now lid req) = r_Labels req"
  "l_RequestedUDID (new_lease now lid req) = r_UDID req"
  by (simp_all add: new_lease_def)

lemma lives_add:
  "lives s t \<Longrightarrow> m_leases s lid = None \<Longrightarrow> m_leases u = (m_leases t)(lid \<mapsto> l) \<Longrightarrow> lives s u"
  by (simp add: lives_def)

text \<open>The two ways a new lease enters the table.\<close>

lemma enqueue_new_ok:
  assumes "linv b R t" "lives s t" "m_leases s lid = None" "m_leases t lid = None"
    "lid \<noteq> resetSentinel" "lid \<noteq> reserveSentinel"
  shows "linv b R (fst (enqueue_new now (new_lease now lid req) t))"
    "lives s (fst (enqueue_new now (new_lease now lid req) t))"
proof -
  let ?u = "fst (enqueue_new now (new_lease now lid req) t)"
  have "mgr_inv ?u" using invD(1) [OF assms(1)] assms by (intro enqueue_new_inv) auto
  then show "linv b R ?u"
    by (rule inv_frame [OF assms(1)]) (simp_all add: enqueue_new_def put_lease_def Let_def)
  show "lives s ?u"
    by (rule lives_add [OF assms(2,3)]) (simp add: enqueue_new_def put_lease_def Let_def)
qed

lemma grant_now_ok:
  assumes "linv b R t" "lives s t" "m_leases s lid = None" "m_leases t lid = None"
    "lid \<noteq> resetSentinel" "lid \<noteq> reserveSentinel" "m_byTarget t udid = None"
  shows "linv b R (fst (grant_now now d udid (new_lease now lid req) t))"
    "lives s (fst (grant_now now d udid (new_lease now lid req) t))"
proof -
  let ?u = "fst (grant_now now d udid (new_lease now lid req) t)"
  have "mgr_inv ?u" using invD(1) [OF assms(1)] assms by (intro grant_now_inv) auto
  then show "linv b R ?u"
    using assms(1,7) inv_free_not_in_flight [OF assms(1), of udid]
    by (auto simp: linv_def resets_ok_def grant_now_def put_lease_def Let_def)
  show "lives s ?u"
    by (rule lives_add [OF assms(2,3)]) (simp add: grant_now_def put_lease_def Let_def)
qed

lemma acquire_decide_ok:
  assumes "linv b R t" "lives s t" "m_leases s lid = None" "m_leases t lid = None"
    "lid \<noteq> resetSentinel" "lid \<noteq> reserveSentinel"
  shows "linv b R (fst (acquire_decide now lid req ts t)) \<and> lives s (fst (acquire_decide now lid req ts t))"
proof -
  let ?l = "new_lease now lid req"
  obtain free0 any where sc: "scan_targets t req ts = (free0, any)" by fastforce
  note E = enqueue_new_ok [OF assms, of now req]
  have S: "linv b R (fst (enqueue_new now ?l (startPreGrantEraseLocked ?l u t))) \<and>
      lives s (fst (enqueue_new now ?l (startPreGrantEraseLocked ?l u t)))" if "m_byTarget t u = None" for u
    using assms that
    by (intro conjI enqueue_new_ok inv_startPreGrantErase) (simp_all add: lives_def startPreGrantEraseLocked_def)
  have G: "linv b R (fst (grant_now now d u ?l t)) \<and> lives s (fst (grant_now now d u ?l t))"
    if "m_byTarget t u = None" for u d
    using grant_now_ok [OF assms that] by blast
  show ?thesis
  proof (cases free0)
    case None
    then show ?thesis using sc E assms(1,2) by (auto simp: acquire_decide_def case_prod_unfold Let_def)
  next
    case (Some f)
    then have "m_byTarget t (t_UDID f) = None" using scan_free [of t req ts f any] sc by simp
    then show ?thesis using sc Some E S G assms(1,2) by (auto simp: acquire_decide_def case_prod_unfold Let_def)
  qed
qed

text \<open>Before the decision: expiry, then the free targets offered to the queues.\<close>

lemma acquire_prepare:
  assumes "linv b R s"
  obtains s1 ev1 s2 ev2 where
    "expireLocked ord now (s\<lparr>m_targets := target_table ts\<rparr>) = Some (s1, ev1)"
    "foldM (offer_target ord now) ts (s1, ev1) = Some (s2, ev2)"
    "linv b R s2" "section_ok (s\<lparr>m_targets := target_table ts\<rparr>) s2"
proof -
  let ?s = "s\<lparr>m_targets := target_table ts\<rparr>"
  have "linv b R ?s" using assms by simp
  then obtain s1 ev1 where s1: "expireLocked ord now ?s = Some (s1, ev1)" "linv b R s1" "section_ok ?s s1"
    by (rule expireLockedE)
  have "succeeds (foldM (offer_target ord now) ts (s1, ev1)) (advances b R now s1)"
    using s1(2) by (intro foldM_advances offer_target_advances)
  then obtain s2 ev2 where "foldM (offer_target ord now) ts (s1, ev1) = Some (s2, ev2)"
      "linv b R s2 \<and> evolves now s1 s2"
    by (rule succeeds_passE)
  then show ?thesis using s1 that section_ok_evolves by blast
qed

lemma Acquire_ok:
  assumes "linv b R s" "m_pendingResets s = []" "m_leases s (newID rnd) = None"
  shows "succeeds (Acquire ord now rnd listing req s) (method_ok b R s)"
proof (cases listing)
  case (Inl e)
  then show ?thesis using assms by (simp add: Acquire_def untouched_ok)
next
  case (Inr ts)
  obtain s1 ev1 s2 ev2 where A:
    "expireLocked ord now (s\<lparr>m_targets := target_table ts\<rparr>) = Some (s1, ev1)"
    "foldM (offer_target ord now) ts (s1, ev1) = Some (s2, ev2)"
    "linv b R s2" "section_ok (s\<lparr>m_targets := target_table ts\<rparr>) s2"
    using acquire_prepare [OF assms(1)] .
  have "lives s s2" using section_lives [OF A(4)] by (simp add: lives_def)
  moreover have "m_leases s2 (newID rnd) = None"
    using A(4) assms(3) by (auto simp: section_ok_def dom_def)
  ultimately have "linv b R (fst (acquire_decide now (newID rnd) req ts s2)) \<and>
      lives s (fst (acquire_decide now (newID rnd) req ts s2))"
    using A(3) assms(3) newID_not_sentinel by (intro acquire_decide_ok) auto
  then show ?thesis
    using Inr A(1,2) by (auto simp: Acquire_def Let_def method_ok_def linv_drain case_prod_unfold)
qed

end
