(* ===== verification/Mz_LeaseSys.thy ===== *)
theory Mz_LeaseSys
  imports Mz_LeaseMethods
begin

text \<open>
  The lease manager under concurrent callers. The state is the manager together with the
  goroutines that are between two of their critical sections: the resets being run, the resets
  that returned and are about to call \<^verbatim>\<open>FinishReset\<close>, and the \<^verbatim>\<open>ClearQuarantine\<close> calls that passed
  their check. Each step is one critical section, so the step relation has every interleaving the
  mutex allows.

  Two relations are given. In \<open>fine\<close> every critical section is a step of its own, as in the code.
  In \<open>coarse\<close> a \<^verbatim>\<open>ClearQuarantine\<close> call and the end of a reset goroutine are single steps, which is
  what their documentation assumes. Exclusive use of targets holds in \<open>fine\<close>; that no lease is
  granted on a target being wiped holds in \<open>coarse\<close> only.
\<close>

section \<open>The calls\<close>

datatype call =
    CAcquire "8 word list" "string + target list" acquire_req
  | CGet string | CRenew string int | CPause string string | CResume string | CRelease string
  | CActive string | CExpireNow | CList
  | CReserve string | CQuarantine string | CUnreserve string | CMarkClean string | CDropReset string
  | CSetOnActive bool | CSetRenewGrace duration | CSetResetFunc bool

definition drop_result :: "'r outcome option \<Rightarrow> (manager \<times> lease list) option" where
  "drop_result f = map_option (\<lambda>out. (o_state out, o_resets out)) f"

text \<open>The state after a call and the resets it starts.\<close>

fun run :: "orders \<Rightarrow> instant \<Rightarrow> call \<Rightarrow> manager \<Rightarrow> (manager \<times> lease list) option" where
  "run ord now (CAcquire rnd listing req) s = drop_result (Acquire ord now rnd listing req s)"
| "run ord now (CGet lid) s = drop_result (Get ord now lid s)"
| "run ord now (CRenew lid n) s = drop_result (Renew ord now lid n s)"
| "run ord now (CPause lid reason) s = drop_result (Pause ord now lid reason s)"
| "run ord now (CResume lid) s = drop_result (Resume ord now lid s)"
| "run ord now (CRelease lid) s = drop_result (Release ord now lid s)"
| "run ord now (CActive udid) s = drop_result (Active ord now udid s)"
| "run ord now CExpireNow s = drop_result (ExpireNow ord now s)"
| "run ord now CList s = drop_result (List_leases ord now s)"
| "run ord now (CReserve udid) s = Some (fst (Reserve udid s), [])"
| "run ord now (CQuarantine udid) s = Some (Quarantine udid s, [])"
| "run ord now (CUnreserve udid) s = drop_result (Unreserve ord now udid s)"
| "run ord now (CMarkClean udid) s = Some (MarkClean udid s, [])"
| "run ord now (CDropReset lid) s = Some (DropReset lid s, [])"
| "run ord now (CSetOnActive fn) s = Some (SetOnActive fn s, [])"
| "run ord now (CSetRenewGrace d) s = Some (SetRenewGrace d s, [])"
| "run ord now (CSetResetFunc fn) s = Some (SetResetFunc fn s, [])"

text \<open>The only demand on a call: a fresh random ID does not collide with a lease of the table.\<close>

fun fresh :: "call \<Rightarrow> manager \<Rightarrow> bool" where
  "fresh (CAcquire rnd listing req) s = (m_leases s (newID rnd) = None)"
| "fresh c s = True"

abbreviation kept :: "bool \<Rightarrow> string list \<Rightarrow> manager \<Rightarrow> manager \<times> lease list \<Rightarrow> bool" where
  "kept b R s \<equiv> \<lambda>(t, rs). linv b (R @ map l_TargetUDID rs) t \<and> m_pendingResets t = [] \<and> lives s t"

lemma drop_result_kept: "succeeds f (method_ok b R s) \<Longrightarrow> succeeds (drop_result f) (kept b R s)"
  by (auto simp: succeeds_iff drop_result_def method_ok_def)

lemmas method_lemmas = Renew_ok Pause_ok Resume_ok Get_ok Release_ok Active_ok ExpireNow_ok
  List_leases_ok Unreserve_ok Acquire_ok

lemma lives_same: "m_leases t = m_leases s \<Longrightarrow> lives s t"
  by (simp add: lives_def)

lemma run_kept:
  assumes "linv b R s" "m_pendingResets s = []" "fresh c s"
  shows "succeeds (run ord now c s) (kept b R s)"
proof (cases c)
  case (CReserve u)
  then show ?thesis
    using assms Reserve_inv [OF assms(1), of u] by (simp add: lives_same)
next
  case (CQuarantine u)
  then show ?thesis using assms Quarantine_inv [OF assms(1), of u] by (simp add: lives_same)
next
  case (CDropReset u)
  then show ?thesis using assms DropReset_inv [OF assms(1), of u] by simp
qed (use assms in \<open>auto intro!: drop_result_kept method_lemmas
      lives_same
      simp: MarkClean_def SetOnActive_def SetRenewGrace_def SetResetFunc_def\<close>)

section \<open>Every critical section a step\<close>

record sys =
  y_mgr :: manager
  y_running :: "lease list"     \<comment> \<open>goroutines of \<^verbatim>\<open>startResets\<close> inside \<^verbatim>\<open>resetFn\<close>\<close>
  y_finishing :: "string list"  \<comment> \<open>goroutines about to call \<^verbatim>\<open>FinishReset\<close>\<close>
  y_clearing :: "string list"   \<comment> \<open>\<^verbatim>\<open>ClearQuarantine\<close> calls past their check\<close>

definition sys_init :: "bool \<Rightarrow> sys" where
  "sys_init onEvent = \<lparr>y_mgr = newManager onEvent, y_running = [], y_finishing = [], y_clearing = []\<rparr>"

inductive fine :: "sys \<Rightarrow> sys \<Rightarrow> bool" where
  fine_call: "fresh c (y_mgr y) \<Longrightarrow> run ord now c (y_mgr y) = Some (t, rs) \<Longrightarrow>
    fine y (y\<lparr>y_mgr := t, y_running := y_running y @ rs\<rparr>)"
| fine_reset_returned: "i < length (y_running y) \<Longrightarrow> l = y_running y ! i \<Longrightarrow>
    fine y (y\<lparr>y_mgr := reset_returned l ok (y_mgr y), y_running := remove_at i (y_running y),
              y_finishing := y_finishing y @ (if ok then [l_TargetUDID l] else [])\<rparr>)"
| fine_finish: "i < length (y_finishing y) \<Longrightarrow> FinishReset ord now (y_finishing y ! i) (y_mgr y) = Some out \<Longrightarrow>
    fine y (y\<lparr>y_mgr := o_state out, y_running := y_running y @ o_resets out,
              y_finishing := remove_at i (y_finishing y)\<rparr>)"
| fine_clear_check: "clear_check udid (y_mgr y) \<Longrightarrow> fine y (y\<lparr>y_clearing := y_clearing y @ [udid]\<rparr>)"
| fine_clear_finish: "i < length (y_clearing y) \<Longrightarrow> FinishReset ord now (y_clearing y ! i) (y_mgr y) = Some out \<Longrightarrow>
    fine y (y\<lparr>y_mgr := o_state out, y_running := y_running y @ o_resets out,
              y_clearing := remove_at i (y_clearing y)\<rparr>)"

inductive_cases fineE: "fine y z"

definition settled :: "bool \<Rightarrow> sys \<Rightarrow> bool" where
  "settled b y \<longleftrightarrow> linv b (map l_TargetUDID (y_running y)) (y_mgr y) \<and> m_pendingResets (y_mgr y) = []"

lemma settled_init: "settled b (sys_init e)"
  by (simp add: settled_def sys_init_def inv_newManager) (simp add: newManager_def)

lemma linv_False: "linv False R s = mgr_inv s"
  by (simp add: linv_def)

lemma run_result:
  assumes "linv b R s" "m_pendingResets s = []" "fresh c s" "run ord now c s = Some (t, rs)"
  shows "linv b (R @ map l_TargetUDID rs) t" "m_pendingResets t = []" "lives s t"
  using run_kept [OF assms(1-3), of ord now] assms(4) by simp_all

lemma FinishReset_result:
  assumes "mgr_inv s" "m_pendingResets s = []" "FinishReset ord now udid s = Some out"
  shows "mgr_inv (o_state out)" "m_pendingResets (o_state out) = []" "lives s (o_state out)"
  using FinishReset_ok [of False "[]" s udid ord now] assms by (simp_all add: linv_False method_ok_def)

lemma reset_returned_facts:
  "mgr_inv (reset_returned l ok s) = mgr_inv s"
  "m_pendingResets (reset_returned l ok s) = m_pendingResets s" "lives s (reset_returned l ok s)"
  by (simp_all add: reset_returned_def lives_def)

lemma fine_step:
  assumes "fine y z" "settled False y"
  shows "settled False z \<and> lives (y_mgr y) (y_mgr z)"
  using assms
proof (cases rule: fine.cases)
  case (fine_call c ord now t rs)
  then show ?thesis
    using run_result [of False _ "y_mgr y" c ord now t rs] assms(2)
    by (auto simp: settled_def linv_False)
next
  case (fine_finish i ord now out)
  then show ?thesis using FinishReset_result [of "y_mgr y"] assms(2) by (auto simp: settled_def linv_False)
next
  case (fine_clear_finish i ord now out)
  then show ?thesis using FinishReset_result [of "y_mgr y"] assms(2) by (auto simp: settled_def linv_False)
qed (use assms(2) in \<open>auto simp: settled_def linv_False reset_returned_facts\<close>)

definition reachable :: "bool \<Rightarrow> sys \<Rightarrow> bool" where
  "reachable onEvent y \<longleftrightarrow> fine\<^sup>*\<^sup>* (sys_init onEvent) y"

lemma reachable_settled: "reachable e y \<Longrightarrow> settled False y"
  unfolding reachable_def
  by (induction rule: rtranclp_induct) (auto simp: settled_init dest: fine_step)

section \<open>Atomic quarantine clearing\<close>

inductive coarse :: "sys \<Rightarrow> sys \<Rightarrow> bool" where
  coarse_call: "fresh c (y_mgr y) \<Longrightarrow> run ord now c (y_mgr y) = Some (t, rs) \<Longrightarrow>
    coarse y (y\<lparr>y_mgr := t, y_running := y_running y @ rs\<rparr>)"
| coarse_reset: "i < length (y_running y) \<Longrightarrow> startReset ord now (y_running y ! i) ok (y_mgr y) = Some out \<Longrightarrow>
    coarse y (y\<lparr>y_mgr := o_state out, y_running := remove_at i (y_running y) @ o_resets out\<rparr>)"
| coarse_clear: "ClearQuarantine ord now udid (y_mgr y) = Some out \<Longrightarrow>
    coarse y (y\<lparr>y_mgr := o_state out, y_running := y_running y @ o_resets out\<rparr>)"

lemma map_remove_at: "map f (remove_at i xs) = remove_at i (map f xs)"
  by (simp add: remove_at_def take_map drop_map)

lemma remove_at_remove1:
  assumes "i < length xs" "distinct xs"
  shows "remove_at i xs = remove1 (xs ! i) xs"
  using assms
proof (induction xs arbitrary: i)
  case Nil
  then show ?case by simp
next
  case (Cons x xs)
  then show ?case by (cases i) (auto simp: remove_at_def)
qed

lemma coarse_step:
  assumes "coarse y z" "settled True y"
  shows "settled True z"
  using assms
proof (cases rule: coarse.cases)
  case (coarse_call c ord now t rs)
  then show ?thesis
    using run_result [of True _ "y_mgr y" c ord now t rs] assms(2) by (auto simp: settled_def)
next
  case (coarse_reset i ord now ok out)
  let ?l = "y_running y ! i" and ?R = "map l_TargetUDID (y_running y)"
  have d: "distinct ?R" using assms(2) by (auto simp: settled_def linv_def resets_ok_def)
  have "remove1 (l_TargetUDID ?l) ?R = map l_TargetUDID (remove_at i (y_running y))"
    using remove_at_remove1 [OF _ d, of i] coarse_reset(2) by (simp add: map_remove_at)
  moreover have "succeeds (startReset ord now ?l ok (y_mgr y)) (method_ok True (remove1 (l_TargetUDID ?l) ?R) (y_mgr y))"
    using assms(2) by (intro startReset_ok) (auto simp: settled_def)
  ultimately show ?thesis using coarse_reset(1,3) by (simp add: settled_def method_ok_def)
next
  case (coarse_clear ord now udid out)
  have "succeeds (ClearQuarantine ord now udid (y_mgr y)) (method_ok True (map l_TargetUDID (y_running y)) (y_mgr y))"
    using assms(2) by (intro ClearQuarantine_ok) (auto simp: settled_def)
  then show ?thesis using coarse_clear by (simp add: settled_def method_ok_def)
qed

lemma coarse_settled: "coarse\<^sup>*\<^sup>* (sys_init e) y \<Longrightarrow> settled True y"
  by (induction rule: rtranclp_induct) (auto simp: settled_init dest: coarse_step)

section \<open>Executable schedules\<close>

text \<open>A schedule names the next critical section; running one is running steps of \<^const>\<open>fine\<close>.\<close>

datatype sched =
    SCall instant call
  | SResetReturned nat bool
  | SFinish instant nat
  | SClearCheck string
  | SClearFinish instant nat

definition finish_at :: "orders \<Rightarrow> instant \<Rightarrow> string \<Rightarrow> sys \<Rightarrow> sys option" where
  "finish_at ord now udid y = map_option (\<lambda>out. y\<lparr>y_mgr := o_state out, y_running := y_running y @ o_resets out\<rparr>)
     (FinishReset ord now udid (y_mgr y))"

fun fire :: "orders \<Rightarrow> sched \<Rightarrow> sys \<Rightarrow> sys option" where
  "fire ord (SCall now c) y =
     (if fresh c (y_mgr y) then map_option (\<lambda>(t, rs). y\<lparr>y_mgr := t, y_running := y_running y @ rs\<rparr>) (run ord now c (y_mgr y))
      else None)"
| "fire ord (SResetReturned i ok) y =
     (if i < length (y_running y)
      then Some (y\<lparr>y_mgr := reset_returned (y_running y ! i) ok (y_mgr y), y_running := remove_at i (y_running y),
              y_finishing := y_finishing y @ (if ok then [l_TargetUDID (y_running y ! i)] else [])\<rparr>)
      else None)"
| "fire ord (SFinish now i) y =
     (if i < length (y_finishing y)
      then map_option (\<lambda>z. z\<lparr>y_finishing := remove_at i (y_finishing y)\<rparr>) (finish_at ord now (y_finishing y ! i) y)
      else None)"
| "fire ord (SClearCheck udid) y =
     (if clear_check udid (y_mgr y) then Some (y\<lparr>y_clearing := y_clearing y @ [udid]\<rparr>) else None)"
| "fire ord (SClearFinish now i) y =
     (if i < length (y_clearing y)
      then map_option (\<lambda>z. z\<lparr>y_clearing := remove_at i (y_clearing y)\<rparr>) (finish_at ord now (y_clearing y ! i) y)
      else None)"

lemma fire_fine: "fire ord e y = Some z \<Longrightarrow> fine y z"
proof (cases e)
  case (SCall now c)
  assume "fire ord e y = Some z"
  then show ?thesis using SCall fine_call by (auto split: if_splits)
next
  case (SResetReturned i ok)
  assume "fire ord e y = Some z"
  then show ?thesis using SResetReturned fine_reset_returned [OF _ refl, of i y ok] by (auto split: if_splits)
next
  case (SFinish now i)
  assume "fire ord e y = Some z"
  then show ?thesis using SFinish fine_finish [of i y] by (auto simp: finish_at_def split: if_splits)
next
  case (SClearCheck u)
  assume "fire ord e y = Some z"
  then show ?thesis using SClearCheck fine_clear_check [of u y] by (auto split: if_splits)
next
  case (SClearFinish now i)
  assume "fire ord e y = Some z"
  then show ?thesis using SClearFinish fine_clear_finish [of i y] by (auto simp: finish_at_def split: if_splits)
qed

fun exec :: "orders \<Rightarrow> sched list \<Rightarrow> sys \<Rightarrow> sys option" where
  "exec ord [] y = Some y"
| "exec ord (e # es) y = Option.bind (fire ord e y) (exec ord es)"

lemma exec_fine: "exec ord es y = Some z \<Longrightarrow> fine\<^sup>*\<^sup>* y z"
  by (induction es arbitrary: y) (auto simp: bind_eq_Some_conv intro: converse_rtranclp_into_rtranclp fire_fine)

lemma exec_reachable: "exec ord es (sys_init e) = Some z \<Longrightarrow> reachable e z"
  unfolding reachable_def by (rule exec_fine)

text \<open>The state a schedule ends in (the initial one, if some step of it is not enabled).\<close>

definition after :: "orders \<Rightarrow> sched list \<Rightarrow> sys" where
  "after ord es = (case exec ord es (sys_init False) of Some y \<Rightarrow> y | None \<Rightarrow> sys_init False)"

lemma after_reachable: "reachable False (after ord es)"
  using exec_reachable [of ord es False] by (auto simp: after_def reachable_def split: option.split)

text \<open>Calls are the same steps in both relations.\<close>

fun is_call :: "sched \<Rightarrow> bool" where
  "is_call (SCall now c) = True"
| "is_call e = False"

lemma exec_coarse: "list_all is_call es \<Longrightarrow> exec ord es y = Some z \<Longrightarrow> coarse\<^sup>*\<^sup>* y z"
proof (induction es arbitrary: y)
  case Nil
  then show ?case by simp
next
  case (Cons e es)
  obtain now c where e: "e = SCall now c" using Cons.prems(1) by (cases e) auto
  obtain x where x: "fire ord e y = Some x" "exec ord es x = Some z"
    using Cons.prems(2) by (auto simp: bind_eq_Some_conv)
  have "coarse y x" using x(1) e coarse_call by (auto split: if_splits)
  then show ?case using Cons x(2) by (auto intro: converse_rtranclp_into_rtranclp)
qed

lemma after_coarse: "list_all is_call es \<Longrightarrow> coarse\<^sup>*\<^sup>* (sys_init False) (after ord es)"
  using exec_coarse [of es ord "sys_init False"] by (auto simp: after_def split: option.split)

end
