(* ===== verification/Mz_LeaseFair.thy ===== *)
theory Mz_LeaseFair
  imports Mz_LeaseSys
begin

text \<open>
  Two behaviours of the lease manager beyond its invariant: the order in which promotion serves a
  queue, and the completeness of an expiry pass.
\<close>

section \<open>First come, first served\<close>

text \<open>Why promotion may pass over a waiting lease.\<close>

definition passed_over :: "instant \<Rightarrow> target \<Rightarrow> string \<Rightarrow> manager \<Rightarrow> lease \<Rightarrow> bool" where
  "passed_over now tgt udid s l \<longleftrightarrow>
     \<not> matchesRequest tgt (l_Labels l) (l_RequestedUDID l) \<or>
     (wantsReset (l_Reset l) \<and> t_Kind tgt = TargetDevice) \<or>
     queueOwnerSilentLocked now s (l_ID l) \<or>
     (preGrantEraseNeededLocked s l udid \<and> m_preGrant s (l_ID l) \<noteq> None)"

text \<open>A state change that does not concern a lease.\<close>

definition unconcerned :: "manager \<Rightarrow> manager \<Rightarrow> string \<Rightarrow> bool" where
  "unconcerned s t lid \<longleftrightarrow> m_leases t lid = m_leases s lid \<and> m_queueDeadline t lid = m_queueDeadline s lid \<and>
     (lid \<in> m_queuePolled t \<longleftrightarrow> lid \<in> m_queuePolled s) \<and> m_preGrant t lid = m_preGrant s lid"

lemma unconcerned_refl [simp]: "unconcerned s s lid"
  by (simp add: unconcerned_def)

lemma unconcerned_trans: "unconcerned s t lid \<Longrightarrow> unconcerned t u lid \<Longrightarrow> unconcerned s u lid"
  by (simp add: unconcerned_def)

lemma unconcerned_retire: "lid \<noteq> l_ID l \<Longrightarrow> unconcerned s (retire_queued now st i l s) lid"
  by (simp add: unconcerned_def retire_queued_def set_queue_def Let_def)

lemma passed_over_cong:
  assumes "unconcerned s t (l_ID l)" "m_dirty t = m_dirty s" "m_resetFn t = m_resetFn s"
  shows "passed_over now tgt udid t l = passed_over now tgt udid s l"
  using assms by (simp add: passed_over_def unconcerned_def queueOwnerSilentLocked_def
      preGrantEraseNeededLocked_def)

text \<open>The lease a promotion granted was queued, and everyone ahead of it was passed over.\<close>

definition served :: "instant \<Rightarrow> target \<Rightarrow> string \<Rightarrow> string \<Rightarrow> nat \<Rightarrow> manager \<Rightarrow> string \<Rightarrow> bool" where
  "served now tgt udid key i s lid \<longleftrightarrow> (\<exists>j < length (queue_of s key). queue_of s key ! j = lid \<and> i \<le> j \<and>
     (\<forall>k l. i \<le> k \<and> k < j \<longrightarrow> m_leases s (queue_of s key ! k) = Some l \<longrightarrow> passed_over now tgt udid s l))"

definition newly_active :: "manager \<Rightarrow> manager \<Rightarrow> string \<Rightarrow> bool" where
  "newly_active s t lid \<longleftrightarrow> (\<exists>l l'. m_leases s lid = Some l \<and> is_queued l \<and> m_leases t lid = Some l' \<and> is_active l')"

lemma served_Suc:
  assumes "served now tgt udid key (Suc i) s lid" "\<And>l. m_leases s (queue_of s key ! i) = Some l \<Longrightarrow> passed_over now tgt udid s l"
  shows "served now tgt udid key i s lid"
proof -
  obtain j where j: "j < length (queue_of s key)" "queue_of s key ! j = lid" "Suc i \<le> j"
    "\<forall>k l. Suc i \<le> k \<and> k < j \<longrightarrow> m_leases s (queue_of s key ! k) = Some l \<longrightarrow> passed_over now tgt udid s l"
    using assms(1) unfolding served_def by blast
  have "passed_over now tgt udid s l" if "i \<le> k" "k < j" "m_leases s (queue_of s key ! k) = Some l" for k l
  proof (cases "k = i")
    case True
    then show ?thesis using that assms(2) by simp
  next
    case False
    then have "Suc i \<le> k \<and> k < j" using that by simp
    then show ?thesis using j(4) that(3) by blast
  qed
  then show ?thesis using j unfolding served_def by (intro exI [of _ j]) auto
qed

lemma nth_remove_at: "i < length xs \<Longrightarrow> remove_at i xs ! k = (if k < i then xs ! k else xs ! Suc k)"
  by (auto simp: remove_at_def nth_append)

lemma served_retire:
  assumes inv: "mgr_inv s" and i: "i < length (queue_of s key)" "queue_of s key ! i = l_ID l"
    and l: "m_leases s (l_ID l) = Some l" "leaseQueueKey l = key"
    and silent: "queueOwnerSilentLocked now s (l_ID l)"
    and sv: "served now tgt udid key i (retire_queued now LeaseExpired i l s) lid"
  shows "served now tgt udid key i s lid"
proof -
  let ?t = "retire_queued now LeaseExpired i l s" and ?q = "queue_of s key"
  have qt: "queue_of ?t key = remove_at i ?q" using l(2) by simp
  obtain j where j: "j < length (remove_at i ?q)" "remove_at i ?q ! j = lid" "i \<le> j"
    "\<forall>k m. i \<le> k \<and> k < j \<longrightarrow> m_leases ?t (remove_at i ?q ! k) = Some m \<longrightarrow> passed_over now tgt udid ?t m"
    using sv unfolding served_def qt by blast
  have "passed_over now tgt udid s m" if k: "i \<le> k" "k < Suc j" "m_leases s (?q ! k) = Some m" for k m
  proof (cases "k = i")
    case True
    then show ?thesis using i l silent k(3) by (simp add: passed_over_def)
  next
    case False
    then obtain k' where k': "k = Suc k'" "i \<le> k'" "k' < j" using k by (cases k) auto
    have "?q ! k \<noteq> l_ID l"
      using nth_eq_iff_index_eq [OF distinct_queue [OF inv, of key], of k i] i False k(2) j(1) by simp
    then have u: "unconcerned s ?t (?q ! k)" by (rule unconcerned_retire)
    have "l_ID m = ?q ! k" using inv k(3) by (rule lease_at)
    moreover have "passed_over now tgt udid ?t m"
      using j(4) k' k(3) u i(1) by (auto simp: nth_remove_at unconcerned_def)
    ultimately show ?thesis
      using u by (subst (asm) passed_over_cong [of s]) (auto simp: retire_queued_def set_queue_def Let_def)
  qed
  then show ?thesis unfolding served_def using j i(1) by (intro exI [of _ "Suc j"]) (auto simp: nth_remove_at)
qed

lemma newly_active_retire:
  "newly_active s t lid \<Longrightarrow> lid \<noteq> l_ID l \<Longrightarrow> newly_active (retire_queued now LeaseExpired i l s) t lid"
  by (simp add: newly_active_def)

text \<open>Once a lease is not queued, the rest of a promotion leaves it alone.\<close>

lemma promotion_not_queued:
  "promotion now tgt udid s t \<Longrightarrow> m_leases s lid = Some l \<Longrightarrow> \<not> is_queued l \<Longrightarrow> m_leases t lid = Some l"
  unfolding promotion_def lease_promoted_def by (metis option.inject)

definition queue_served ::
  "instant \<Rightarrow> target \<Rightarrow> string \<Rightarrow> string \<Rightarrow> nat \<Rightarrow> manager \<Rightarrow> manager \<times> lease list \<times> bool \<Rightarrow> bool" where
  "queue_served now tgt udid key i s r \<longleftrightarrow> (case r of (t, _, stop) \<Rightarrow>
     (\<forall>lid. newly_active s t lid \<longrightarrow> stop \<and> served now tgt udid key i s lid) \<and>
     (\<not> stop \<longrightarrow> m_dirty t = m_dirty s \<and> m_resetFn t = m_resetFn s \<and>
        (\<forall>k. k \<noteq> key \<longrightarrow> queue_of t k = queue_of s k) \<and>
        (\<forall>lid. lid \<notin> set (queue_of s key) \<longrightarrow> unconcerned s t lid)))"

lemma newly_active_refl [simp]: "\<not> newly_active s s lid"
  by (auto simp: newly_active_def)

lemma queue_served_Suc:
  assumes "queue_served now tgt udid key (Suc i) s r"
    "\<And>l. m_leases s (queue_of s key ! i) = Some l \<Longrightarrow> passed_over now tgt udid s l"
  shows "queue_served now tgt udid key i s r"
proof -
  obtain t ev stop where r: "r = (t, ev, stop)" by (cases r)
  have "stop \<and> served now tgt udid key i s lid" if "newly_active s t lid" for lid
    using that assms(1) served_Suc [OF _ assms(2)] unfolding queue_served_def r by simp
  then show ?thesis using assms(1) unfolding queue_served_def r prod.case by blast
qed

lemma queue_served_retire:
  assumes inv: "linv False R s" and free: "m_byTarget s udid = None"
    and i: "i < length (queue_of s key)" "queue_of s key ! i = l_ID l"
    and l: "m_leases s (l_ID l) = Some l" "is_queued l" "leaseQueueKey l = key"
    and silent: "queueOwnerSilentLocked now s (l_ID l)"
    and r: "queue_served now tgt udid key i (retire_queued now LeaseExpired i l s) r"
    and p: "promotion now tgt udid (retire_queued now LeaseExpired i l s) (fst r)"
  shows "queue_served now tgt udid key i s r"
proof -
  let ?t = "retire_queued now LeaseExpired i l s"
  obtain t ev stop where r_eq: "r = (t, ev, stop)" by (cases r)
  have m: "mgr_inv s" using inv by (rule invD)
  have gone: "m_leases t (l_ID l) = Some (l\<lparr>l_State := LeaseExpired\<rparr>)"
  proof (rule promotion_not_queued)
    show "promotion now tgt udid ?t t" using p r_eq by simp
  qed simp_all
  have "stop \<and> served now tgt udid key i s lid" if na: "newly_active s t lid" for lid
  proof -
    have "lid \<noteq> l_ID l" using na gone by (auto simp: newly_active_def)
    then have "newly_active ?t t lid" using na by (intro newly_active_retire)
    then have "stop" "served now tgt udid key i ?t lid" using r by (auto simp: queue_served_def r_eq)
    then show ?thesis using served_retire [OF m i l(1,3) silent] by blast
  qed
  moreover have "m_dirty t = m_dirty s" "m_resetFn t = m_resetFn s"
      "\<And>k. k \<noteq> key \<Longrightarrow> queue_of t k = queue_of s k" if "\<not> stop"
    using r that l(3) by (auto simp: queue_served_def r_eq retire_queued_def set_queue_def Let_def queue_of_def)
  moreover have "unconcerned s t lid" if ns: "\<not> stop" and out: "lid \<notin> set (queue_of s key)" for lid
  proof -
    have "lid \<noteq> l_ID l" using out i nth_mem [OF i(1)] by metis
    then have "unconcerned s ?t lid" by (rule unconcerned_retire)
    moreover have "lid \<notin> set (queue_of ?t key)" using out set_remove_at_subset l(3) by fastforce
    then have "unconcerned ?t t lid" using r ns by (auto simp: queue_served_def r_eq)
    ultimately show ?thesis by (rule unconcerned_trans)
  qed
  ultimately show ?thesis by (auto simp: queue_served_def r_eq)
qed

lemma promoteQueue_served:
  assumes "linv False R s" "m_byTarget s udid = None"
    "promoteQueue now tgt udid key i s events = Some r"
  shows "queue_served now tgt udid key i s r"
  using assms
proof (induction now tgt udid key i s events arbitrary: r rule: promoteQueue.induct)
  case (1 now tgt udid key i s events)
  have m: "mgr_inv s" using "1.prems"(1) by (rule invD)
  show ?case
  proof (cases "i < length (queue_of s key)")
    case False
    then show ?thesis using "1.prems"(3) by (auto simp: promoteQueue.simps queue_served_def)
  next
    case i: True
    obtain l where l: "m_leases s (queue_of s key ! i) = Some l"
      using queue_entry [OF m, of "queue_of s key ! i" key] i by auto
    note q = queue_nth_lease [OF m i l]
    have skip: "queue_served now tgt udid key i s r"
      if "queue_served now tgt udid key (Suc i) s r" "passed_over now tgt udid s l"
      using that(1) by (rule queue_served_Suc) (use that(2) l in simp)
    note eq = promoteQueue.simps [of now tgt udid key i s events]
    let ?dev = "l_Reset l \<noteq> [] \<and> l_Reset l \<noteq> ''none'' \<and> t_Kind tgt = TargetDevice"
    let ?match = "matchesRequest tgt (l_Labels l) (l_RequestedUDID l)"
    consider (nomatch) "\<not> ?match" | (device) "?match" ?dev
      | (silent) ?match "\<not> ?dev" "queueOwnerSilentLocked now s (queue_of s key ! i)"
      | (erase) ?match "\<not> ?dev" "\<not> queueOwnerSilentLocked now s (queue_of s key ! i)" "preGrantEraseNeededLocked s l udid"
      | (grant) ?match "\<not> ?dev" "\<not> queueOwnerSilentLocked now s (queue_of s key ! i)" "\<not> preGrantEraseNeededLocked s l udid"
      by blast
    then show ?thesis
    proof cases
      case nomatch
      then have "promoteQueue now tgt udid key (Suc i) s events = Some r" using "1.prems"(3) i l eq by simp
      from "1.IH"(1) [OF i l nomatch "1.prems"(1,2) this] show ?thesis
        using nomatch by (intro skip) (auto simp: passed_over_def)
    next
      case device
      then have "promoteQueue now tgt udid key (Suc i) s events = Some r" using "1.prems"(3) i l eq by auto
      from "1.IH"(2) [OF i l _ device(2) "1.prems"(1,2) this] show ?thesis
        using device by (intro skip) (auto simp: passed_over_def wantsReset_def)
    next
      case silent
      let ?t = "retire_queued now LeaseExpired i l s" and ?ev = "events @ [l\<lparr>l_State := LeaseExpired\<rparr>]"
      have ret: "expire_silent now key i l s = ?t" using q(3) by (intro expire_silent_retire) simp
      have "mgr_inv ?t" using m i l q by (intro retire_queued_inv) auto
      then have inv_t: "linv False R ?t" "m_byTarget ?t udid = None" using "1.prems"(2) by (simp_all add: linv_False)
      have r: "promoteQueue now tgt udid key i ?t ?ev = Some r" using "1.prems"(3) i l silent eq ret by auto
      have sv: "queue_served now tgt udid key i ?t r"
        using "1.IH"(3) [OF i l _ silent(2,3)] silent(1) inv_t r ret by simp
      have "promotion now tgt udid ?t (fst r)"
        using promoteQueue_inv [OF inv_t, of now tgt key i ?ev] r by (auto simp: promoted_def)
      moreover have "queue_of s key ! i = l_ID l" "m_leases s (l_ID l) = Some l"
          "queueOwnerSilentLocked now s (l_ID l)"
        using q(1) l silent(3) by simp_all
      ultimately show ?thesis using queue_served_retire [OF "1.prems"(1,2) i _ _ q(2,3) _ sv] by blast
    next
      case erase
      show ?thesis
      proof (cases "m_preGrant s (l_ID l) \<noteq> None")
        case True
        then have "promoteQueue now tgt udid key (Suc i) s events = Some r" using "1.prems"(3) i l erase eq by auto
        from "1.IH"(4) [OF i l _ erase(2,3,4) True "1.prems"(1,2) this] show ?thesis
          using erase True by (intro skip) (auto simp: passed_over_def)
      next
        case False
        then have "r = (startPreGrantEraseLocked l udid s, events, True)" using "1.prems"(3) i l erase eq by auto
        moreover have "\<not> newly_active s (startPreGrantEraseLocked l udid s) lid" for lid
          by (auto simp: newly_active_def startPreGrantEraseLocked_def)
        ultimately show ?thesis by (simp add: queue_served_def)
      qed
    next
      case grant
      then have "r = (grant_queued now key i udid l s, events @ [granted_lease now udid l], True)"
        using "1.prems"(3) i l eq by auto
      moreover have "served now tgt udid key i s lid" if "newly_active s (grant_queued now key i udid l s) lid" for lid
      proof -
        have "lid = l_ID l" using that q(3) by (auto simp: newly_active_def grant_queued_fields split: if_splits)
        then show ?thesis using i q(1) by (auto simp: served_def)
      qed
      ultimately show ?thesis by (simp add: queue_served_def)
    qed
  qed
qed

lemma served_cong:
  assumes "mgr_inv s" "queue_of t key = queue_of s key" "\<And>lid. lid \<in> set (queue_of s key) \<Longrightarrow> unconcerned s t lid"
    "m_dirty t = m_dirty s" "m_resetFn t = m_resetFn s" "served now tgt udid key 0 t lid"
  shows "served now tgt udid key 0 s lid"
proof -
  obtain j where j: "j < length (queue_of s key)" "queue_of s key ! j = lid"
    "\<forall>k l. k < j \<longrightarrow> m_leases t (queue_of s key ! k) = Some l \<longrightarrow> passed_over now tgt udid t l"
    using assms(6) unfolding served_def assms(2) by blast
  have "passed_over now tgt udid s l" if k: "k < j" "m_leases s (queue_of s key ! k) = Some l" for k l
  proof -
    have u: "unconcerned s t (queue_of s key ! k)" using assms(3) k j(1) by simp
    then have "passed_over now tgt udid t l" using j(3) k by (auto simp: unconcerned_def)
    moreover have "l_ID l = queue_of s key ! k" using assms(1) k(2) by (rule lease_at)
    ultimately show ?thesis using passed_over_cong [of s t l] u assms(4,5) by simp
  qed
  then show ?thesis using j unfolding served_def by (intro exI [of _ j]) auto
qed

lemma newly_active_unconcerned: "unconcerned s t lid \<Longrightarrow> newly_active t u lid = newly_active s u lid"
  by (simp add: newly_active_def unconcerned_def)

lemma promoteQueues_served:
  assumes "linv False R s" "m_byTarget s udid = None" "distinct keys"
    "promoteQueues now tgt udid keys s events = Some (u, ev)" "newly_active s u lid"
  shows "\<exists>key \<in> set keys. served now tgt udid key 0 s lid"
  using assms
proof (induction keys arbitrary: s events)
  case Nil
  then show ?case by simp
next
  case (Cons key keys)
  have m: "mgr_inv s" using Cons.prems(1) by (rule invD)
  obtain t ev1 stop where t: "promoteQueue now tgt udid key 0 s events = Some (t, ev1, stop)"
      "promoted False R now tgt udid s t" "\<not> stop \<longrightarrow> m_byTarget t udid = None"
    using promoteQueue_inv [OF Cons.prems(1,2), of now tgt key 0 events] by (auto simp: succeeds_iff)
  have qs: "queue_served now tgt udid key 0 s (t, ev1, stop)"
    using Cons.prems(1,2) t(1) by (rule promoteQueue_served)
  show ?case
  proof (cases stop)
    case True
    then have "u = t" using Cons.prems(4) t(1) by simp
    then show ?thesis using qs Cons.prems(5) by (auto simp: queue_served_def)
  next
    case False
    have F: "m_dirty t = m_dirty s" "m_resetFn t = m_resetFn s" "\<And>k. k \<noteq> key \<Longrightarrow> queue_of t k = queue_of s k"
      "\<And>j. j \<notin> set (queue_of s key) \<Longrightarrow> unconcerned s t j" "\<And>j. \<not> newly_active s t j"
      using qs False by (simp_all add: queue_served_def)
    have ut: "promoteQueues now tgt udid keys t ev1 = Some (u, ev)" using Cons.prems(4) t(1) False by simp
    have inv_t: "linv False R t" using t(2) by (simp add: promoted_def)
    obtain l l' where l: "m_leases s lid = Some l" "is_queued l" "m_leases u lid = Some l'" "is_active l'"
      using Cons.prems(5) unfolding newly_active_def by blast
    have pr: "promotion now tgt udid t u"
      using promoteQueues_inv [OF inv_t, of udid now tgt keys ev1] t(3) False ut by (simp add: promoted_def)
    obtain k where k: "m_leases t lid = Some k"
      using promotion_evolves [OF _ _, of now tgt udid s t] t(2) l(1) unfolding promoted_def evolves_def by blast
    have "is_queued k"
    proof (rule ccontr)
      assume nq: "\<not> is_queued k"
      then have "m_leases u lid = Some k" using promotion_not_queued [OF pr k] by blast
      then have "newly_active s t lid" using l k by (auto simp: newly_active_def)
      then show False using F(5) by blast
    qed
    then have "newly_active t u lid" using k l by (auto simp: newly_active_def)
    then obtain key' where key': "key' \<in> set keys" "served now tgt udid key' 0 t lid"
      using Cons.IH [OF inv_t _ _ ut] t(3) False Cons.prems(3) by auto
    then have ne: "key' \<noteq> key" using Cons.prems(3) by auto
    have "unconcerned s t j" if "j \<in> set (queue_of s key')" for j
    proof (rule F(4))
      show "j \<notin> set (queue_of s key)"
        using queue_entry [OF m, of j key] queue_entry [OF m that] ne by auto
    qed
    then have "served now tgt udid key' 0 s lid"
      using served_cong [OF m F(3) [OF ne] _ F(1,2) key'(2)] by blast
    then show ?thesis using key'(1) by auto
  qed
qed

section \<open>An expiry pass is complete\<close>

text \<open>
  An active lease past its expiry that is not inside an open grace window; a queued lease past its
  abandonment deadline; a terminal lease past its retention.
\<close>

definition overdue :: "instant \<Rightarrow> manager \<Rightarrow> string \<Rightarrow> bool" where
  "overdue now s lid \<longleftrightarrow> (\<exists>l e. m_leases s lid = Some l \<and> is_active l \<and> l_ExpiresAt l = Some e \<and> now > e \<and>
     \<not> (m_grace s > 0 \<and> (\<exists>g. l_GraceUntil l = Some g \<and> now \<le> g)))"

definition abandoned :: "instant \<Rightarrow> manager \<Rightarrow> string \<Rightarrow> bool" where
  "abandoned now s lid \<longleftrightarrow> (\<exists>d. m_queueDeadline s lid = Some d \<and> now > d)"

definition stale :: "instant \<Rightarrow> manager \<Rightarrow> string \<Rightarrow> bool" where
  "stale now s lid \<longleftrightarrow> (\<exists>at. m_terminalAt s lid = Some at \<and> now - at > TerminalRetention)"

lemma clampTTL_pos: "Second \<le> clampTTL n" "clampTTL n \<le> MaxTTL"
  by (simp_all add: clampTTL_cases MaxTTL_def)

lemma promotion_overdue:
  assumes "promotion now tgt udid s t" "same_cfg s t" "overdue now t lid"
  shows "overdue now s lid"
proof -
  obtain l e where l: "m_leases t lid = Some l" "is_active l" "l_ExpiresAt l = Some e" "now > e"
    "\<not> (m_grace t > 0 \<and> (\<exists>g. l_GraceUntil l = Some g \<and> now \<le> g))"
    using assms(3) unfolding overdue_def by blast
  have "l \<noteq> granted_lease now udid k" for k
    using l(3,4) clampTTL_pos(1) [of "l_TTLSeconds k"] by (auto simp: granted_lease_def)
  moreover have "lease_promoted now tgt udid s t lid" using assms(1) by (simp add: promotion_def)
  ultimately have "m_leases s lid = Some l" using l(1,2) unfolding lease_promoted_def by auto
  then show ?thesis using l assms(2) unfolding overdue_def same_cfg_def by auto
qed

lemma promoteLocked_overdue:
  assumes "linv b R s" "m_byTarget s udid = None" "promoteLocked ord now udid s = Some (t, ev)" "overdue now t lid"
  shows "overdue now s lid"
  using promoteLocked_inv [OF assms(1,2), of ord now] assms(3,4)
  by (cases "m_targets s udid") (auto intro: promotion_overdue)

lemma overdue_frame: "m_leases t = m_leases s \<Longrightarrow> m_grace t = m_grace s \<Longrightarrow> overdue now t lid = overdue now s lid"
  by (simp add: overdue_def)

lemma overdue_put:
  "m_leases t = (m_leases s)(k \<mapsto> l) \<Longrightarrow> m_grace t = m_grace s \<Longrightarrow> lid \<noteq> k \<Longrightarrow> overdue now t lid = overdue now s lid"
  by (simp add: overdue_def)

text \<open>One visit of the second pass deals with its lease and makes no other lease overdue.\<close>

lemma expire_active_overdue:
  assumes inv: "linv False R s" and x: "expire_active ord now lid (s, ev) = Some (t, ev')"
    and od: "overdue now t j"
  shows "j \<noteq> lid \<and> overdue now s j"
proof (cases "\<exists>l e. m_leases s lid = Some l \<and> is_active l \<and> l_ExpiresAt l = Some e \<and> now > e")
  case False
  then have "t = s" using x by (auto simp: expire_active_def split: option.splits)
  moreover have "\<not> overdue now s lid" using False by (auto simp: overdue_def)
  ultimately show ?thesis using od by auto
next
  case True
  then obtain l e where l: "m_leases s lid = Some l" "is_active l" "l_ExpiresAt l = Some e" "now > e" by blast
  have m: "mgr_inv s" using inv by (rule invD)
  have lid: "l_ID l = lid" using m l(1) by (rule lease_at)
  let ?l = "enter_grace s e l" let ?s = "put_lease ?l s"
  have le: "l_ID ?l = lid" "is_active ?l" using lid l(2) by (auto simp: enter_grace_def)
  have ms: "m_leases ?s = (m_leases s)(lid \<mapsto> ?l)" "m_grace ?s = m_grace s" using le by (simp_all add: put_lease_def)
  have inv_s: "linv False R ?s" using inv l(1,2) by (rule grace_inv)
  have at: "m_leases ?s (l_ID ?l) = Some ?l" by (simp add: ms le)
  show ?thesis
  proof (cases "grace_open ?s now ?l")
    case True
    then have t: "t = ?s" using x l by (simp add: expire_active_def Let_def)
    have "m_grace s > 0 \<and> (\<exists>g. l_GraceUntil ?l = Some g \<and> now \<le> g)"
      using True by (auto simp: grace_open_def put_lease_def enter_grace_def split: option.splits if_splits)
    then have "\<not> overdue now ?s lid" unfolding overdue_def ms by auto
    then show ?thesis using od t overdue_put [OF ms, of j] by auto
  next
    case False
    let ?t = "end_active now LeaseExpired ?l ?s" and ?l' = "(clearPause ?l)\<lparr>l_State := LeaseExpired\<rparr>"
    have mt: "m_leases ?t = (m_leases ?s)(lid \<mapsto> ?l')" "m_grace ?t = m_grace ?s"
      using le by (simp_all add: end_active_def put_lease_def clearPause_def)
    have "\<not> overdue now ?t lid" by (simp add: overdue_def mt)
    moreover have "overdue now ?t k = overdue now s k" if "k \<noteq> lid" for k
      using overdue_put [OF mt that] overdue_put [OF ms that] by simp
    moreover have "overdue now ?t j"
    proof (cases "needsResetLocked ?t ?l'")
      case True
      then have "t = (hold_for_reset ?l' ?t)\<lparr>m_pendingResets := m_pendingResets ?t @ [?l']\<rparr>"
        using x l False by (simp add: expire_active_def Let_def)
      then have "m_leases t = m_leases ?t" "m_grace t = m_grace ?t" by (simp_all add: hold_for_reset_def)
      then show ?thesis using od overdue_frame by blast
    next
      case nr: False
      have u: "l_TargetUDID ?l' = l_TargetUDID ?l" by (simp add: clearPause_def)
      obtain gr where p: "promoteLocked ord now (l_TargetUDID ?l) ?t = Some (t, gr)"
        using x l False nr u by (auto simp: expire_active_def Let_def split: option.splits)
      have "linv False R ?t" using inv_s at le(2) by (rule inv_end_active) simp
      moreover have "m_byTarget ?t (l_TargetUDID ?l) = None"
        using invD(1) [OF inv_s] at le(2) by (rule end_active_inv) simp
      ultimately show ?thesis using p od by (rule promoteLocked_overdue)
    qed
    ultimately show ?thesis by (cases "j = lid") auto
  qed
qed

lemma expire_queued_abandoned:
  assumes "linv False R s" "expire_queued now lid (s, ev) = Some (t, ev')" "abandoned now t j"
  shows "j \<noteq> lid \<and> abandoned now s j"
proof (cases "abandoned now s lid")
  case False
  then have "t = s" using assms(2) by (auto simp: expire_queued_def abandoned_def split: option.splits)
  then show ?thesis using assms(3) False by auto
next
  case True
  then obtain d where d: "m_queueDeadline s lid = Some d" "now > d" by (auto simp: abandoned_def)
  have m: "mgr_inv s" using assms(1) by (rule invD)
  obtain l where l: "m_leases s lid = Some l" "is_queued l" using queued_has_lease [OF m d(1)] by blast
  obtain i where "expire_queued now lid (s, ev) =
       Some (retire_queued now LeaseExpired i l s, ev @ [l\<lparr>l_State := LeaseExpired\<rparr>])"
    using expire_queued_retire [OF m l d] by blast
  then have "t = retire_queued now LeaseExpired i l s" using assms(2) by simp
  then show ?thesis using assms(3) lease_at [OF m l(1)] by (auto simp: abandoned_def split: if_splits)
qed

text \<open>A loop whose body deals with its key and spoils no other key deals with all keys.\<close>

lemma foldM_clears:
  assumes "linv False R s" "foldM f ks (s, ev) = Some (t, ev')"
    and adv: "\<And>k s ev. linv False R s \<Longrightarrow> succeeds (f k (s, ev)) (advances False R now s)"
    and step: "\<And>k s ev t ev' j. linv False R s \<Longrightarrow> f k (s, ev) = Some (t, ev') \<Longrightarrow> B t j \<Longrightarrow> j \<noteq> k \<and> B s j"
  shows "B t j \<Longrightarrow> j \<notin> set ks \<and> B s j"
  using assms(1,2)
proof (induction ks arbitrary: s ev)
  case Nil
  then show ?case by simp
next
  case (Cons k ks)
  obtain u eu where u: "f k (s, ev) = Some (u, eu)" "linv False R u \<and> evolves now s u"
    using adv [OF Cons.prems(2), of k ev] by (rule succeeds_passE)
  then have "foldM f ks (u, eu) = Some (t, ev')" using Cons.prems(3) by simp
  then have "j \<notin> set ks \<and> B u j" using Cons.IH [OF Cons.prems(1)] u(2) by blast
  then show ?case using step [OF Cons.prems(2) u(1)] by simp
qed

lemma collect_fold_stale:
  "stale now (fold (collect_terminal now) ks s) lid \<Longrightarrow> lid \<notin> set ks \<and> stale now s lid"
proof (induction ks arbitrary: s)
  case Nil
  then show ?case by simp
next
  case (Cons k ks)
  then have "lid \<notin> set ks \<and> stale now (collect_terminal now k s) lid" by simp
  then show ?case by (auto simp: stale_def collect_terminal_def split: option.splits if_splits)
qed

lemma expireLocked_complete:
  assumes inv: "linv False R s" and cover: "\<And>n. dom (m_leases s) \<subseteq> set (ord n)"
    and x: "expireLocked ord now s = Some (t, ev)"
  shows "\<not> overdue now t lid" "\<not> abandoned now t lid" "\<not> stale now t lid"
    "m_queueDeadline t lid = m_queueDeadline s lid \<or> m_queueDeadline t lid = None"
proof -
  let ?s0 = "next_range s" and ?k1 = "range_over (m_queueDeadline s) (ord (m_ranges s))"
  have i0: "linv False R ?s0" using inv by simp
  have "succeeds (foldM (expire_queued now) ?k1 (?s0, [])) (advances False R now ?s0)"
    using i0 by (intro foldM_advances expire_queued_inv) simp_all
  then obtain s1 e1 where s1: "foldM (expire_queued now) ?k1 (?s0, []) = Some (s1, e1)"
      "linv False R s1 \<and> evolves now ?s0 s1"
    by (rule succeeds_passE)
  let ?k2 = "range_over (m_leases s1) (ord (m_ranges s1))"
  have i1: "linv False R (next_range s1)" using s1(2) by simp
  have "succeeds (foldM (expire_active ord now) ?k2 (next_range s1, e1)) (advances False R now (next_range s1))"
    using i1 by (intro foldM_advances expire_active_inv) simp_all
  then obtain s2 e2 where s2: "foldM (expire_active ord now) ?k2 (next_range s1, e1) = Some (s2, e2)"
      "linv False R s2 \<and> evolves now (next_range s1) s2"
    by (rule succeeds_passE)
  let ?k3 = "range_over (m_terminalAt s2) (ord (m_ranges s2))"
  have t: "t = fold (collect_terminal now) ?k3 (next_range s2)"
    using x s1(1) s2(1) by (simp add: expireLocked_def)
  have d1: "dom (m_leases s1) = dom (m_leases s)" using s1(2) by (simp add: evolves_def next_range_def)
  have d2: "dom (m_leases s2) = dom (m_leases s)" using s2(2) d1 by (simp add: evolves_def next_range_def)
  have k1: "set ?k1 = dom (m_queueDeadline s)"
    using cover [of "m_ranges s"] queued_has_lease [OF invD(1) [OF inv]] by (intro range_over_complete) blast
  have k2: "set ?k2 = dom (m_leases s1)" using cover d1 by (intro range_over_complete) simp
  have "dom (m_terminalAt s2) \<subseteq> dom (m_leases s2)"
    using mgr_invD(7) [OF invD(1)] s2(2) unfolding terminal_ok_def by blast
  then have k3: "set ?k3 = dom (m_terminalAt s2)" using cover d2 by (intro range_over_complete) blast
  have col: "collected now (next_range s2) t" using collect_fold [of False R "next_range s2"] s2(2) t by simp
  have nr: "m_leases (next_range u) = m_leases u" "m_terminalAt (next_range u) = m_terminalAt u"
    "m_queueDeadline (next_range u) = m_queueDeadline u" "m_grace (next_range u) = m_grace u" for u
    by (simp_all add: next_range_def)
  show "\<not> overdue now t lid"
  proof
    assume "overdue now t lid"
    then have "overdue now s2 lid"
      using col unfolding collected_def overdue_def same_cfg_def nr by (metis option.distinct(1))
    then have "lid \<notin> set ?k2 \<and> overdue now (next_range s1) lid"
      by (rule foldM_clears [OF i1 s2(1) expire_active_inv expire_active_overdue, rotated -1])
    then show False using k2 by (auto simp: overdue_def nr)
  qed
  have dl: "m_queueDeadline (fold (collect_terminal now) ks u) = m_queueDeadline u" for ks u
    by (induction ks arbitrary: u) (simp_all add: collect_terminal_def split: option.split)
  show "m_queueDeadline t lid = m_queueDeadline s lid \<or> m_queueDeadline t lid = None"
    using s1(2) s2(2) unfolding t dl nr evolves_def stamps_now_def by metis
  show "\<not> abandoned now t lid"
  proof
    assume "abandoned now t lid"
    then have "abandoned now s2 lid" by (simp add: t abandoned_def nr dl)
    then have "abandoned now s1 lid"
      using s2(2) unfolding abandoned_def evolves_def stamps_now_def nr by (metis option.distinct(1))
    then have "lid \<notin> set ?k1 \<and> abandoned now ?s0 lid"
      by (rule foldM_clears [OF i0 s1(1) expire_queued_inv expire_queued_abandoned, rotated -1])
    then show False using k1 by (auto simp: abandoned_def nr)
  qed
  show "\<not> stale now t lid"
    using collect_fold_stale [of now ?k3 "next_range s2" lid] k3 t by (auto simp: stale_def nr)
qed

end
