(* ===== verification/Mz_LeaseProps.thy ===== *)
theory Mz_LeaseProps
  imports Mz_LeaseFair
begin

text \<open>
  The properties of the lease manager, with a concrete scenario that instantiates them: one
  simulator, three callers and their requests.
\<close>

section \<open>A concrete daemon\<close>

definition sim1 :: target where
  "sim1 = \<lparr>t_UDID = ''U1'', t_Kind = TargetSimulator, t_Name = ''sim'', t_Runtime = ''iOS-18'',
     t_DeviceType = ''iPhone'', t_State = StateBooted, t_Labels = [''ios''], t_Host = [], t_Warm = False,
     t_Recording = False\<rparr>"

definition want :: "string \<Rightarrow> string \<Rightarrow> acquire_req" where
  "want agent reset = \<lparr>r_Labels = [''ios''], r_UDID = [], r_AgentID = agent, r_SessionID = [],
     r_Purpose = [], r_TTLSeconds = 60, r_Reset = reset, r_Record = []\<rparr>"

definition acq :: "8 word \<Rightarrow> string \<Rightarrow> string \<Rightarrow> call" where
  "acq n agent reset = CAcquire [n] (Inr [sim1]) (want agent reset)"

definition all_keys :: orders where
  "all_keys n = [''ios'', newID [1], newID [2], newID [3]]"

definition two_callers :: "sched list" where
  "two_callers = [SCall 1 (acq 1 ''a'' []), SCall 2 (acq 2 ''b'' [])]"

definition two_state :: sys where
  "two_state = after all_keys two_callers"

lemma two_state_reachable: "reachable False two_state"
  unfolding two_state_def by (rule after_reachable)

text \<open>The state of a lease, or none; evaluable where a quantifier over leases is not.\<close>

definition state_of :: "sys \<Rightarrow> string \<Rightarrow> LeaseState option" where
  "state_of y lid = map_option l_State (m_leases (y_mgr y) lid)"

lemma state_ofE:
  assumes "state_of y lid = Some st"
  obtains l where "m_leases (y_mgr y) lid = Some l" "l_State l = st"
  using assms by (auto simp: state_of_def)

definition answer :: "(lease_error + lease) outcome option \<Rightarrow> LeaseState option" where
  "answer f = (case f of None \<Rightarrow> None | Some out \<Rightarrow> (case o_result out of Inl e \<Rightarrow> None | Inr l \<Rightarrow> Some (l_State l)))"

lemma answerE:
  assumes "answer f = Some st"
  obtains out l where "f = Some out" "o_result out = Inr l" "l_State l = st"
  using assms by (auto simp: answer_def split: option.splits sum.splits)

section \<open>Safety in every interleaving\<close>

text \<open>
  C1. Exclusive use: in every state any interleaving of the manager's critical sections can reach,
  an active lease is the recorded holder of its target, and two active leases never share one.
\<close>

theorem lease_exclusive:
  assumes "reachable e y"
    and "m_leases (y_mgr y) a = Some la" "is_active la"
    and "m_leases (y_mgr y) b = Some lb" "is_active lb"
    and "l_TargetUDID la = l_TargetUDID lb"
  shows "a = b \<and> m_byTarget (y_mgr y) (l_TargetUDID la) = Some a"
proof -
  have "mgr_inv (y_mgr y)" using reachable_settled [OF assms(1)] by (simp add: settled_def linv_False)
  then show ?thesis using activeD [of "y_mgr y" a la] activeD [of "y_mgr y" b lb] assms by auto
qed

theorem lease_exclusive_witness:
  "\<exists>l. m_leases (y_mgr two_state) (newID [1]) = Some l \<and> is_active l \<and>
       m_byTarget (y_mgr two_state) (l_TargetUDID l) = Some (newID [1])"
proof -
  have "state_of two_state (newID [1]) = Some LeaseActive" by code_simp
  then obtain l where l: "m_leases (y_mgr two_state) (newID [1]) = Some l" "is_active l" by (rule state_ofE)
  then show ?thesis using lease_exclusive [OF two_state_reachable l l refl] by auto
qed

text \<open>
  C2. No reachable state makes a method dereference a nil lease: every call whose random ID is
  fresh runs to its end, and so do the second critical sections of \<^verbatim>\<open>ClearQuarantine\<close> and of the
  reset goroutines.
\<close>

theorem lease_no_panic:
  assumes "reachable e y" "fresh c (y_mgr y)"
  shows "\<exists>t rs out. run ord now c (y_mgr y) = Some (t, rs) \<and> FinishReset ord now udid (y_mgr y) = Some out"
proof -
  have s: "linv False [] (y_mgr y)" "m_pendingResets (y_mgr y) = []"
    using reachable_settled [OF assms(1)] by (simp_all add: settled_def linv_False)
  show ?thesis
    using run_kept [OF s assms(2), of ord now] FinishReset_ok [OF s, of udid ord now]
    by (auto simp: succeeds_iff)
qed

theorem lease_no_panic_witness:
  "\<exists>t rs out. run all_keys 70 (CRelease (newID [1])) (y_mgr two_state) = Some (t, rs) \<and>
     FinishReset all_keys 70 ''U1'' (y_mgr two_state) = Some out"
  using lease_no_panic [OF two_state_reachable, of "CRelease (newID [1])" all_keys 70 "''U1''"] by simp

text \<open>
  C3. The life cycle of a lease: one step keeps its ID, labels, owner and creation time; an active
  lease keeps its target and never goes back to the queue; a released or expired lease keeps its
  state; and only a released or expired lease disappears from the table.
\<close>

theorem lease_lifecycle:
  assumes "reachable e y" "fine y z" "m_leases (y_mgr y) lid = Some l"
  shows "case m_leases (y_mgr z) lid of
      None \<Rightarrow> l_State l = LeaseExpired \<or> l_State l = LeaseReleased
    | Some l' \<Rightarrow> l_ID l' = l_ID l \<and> l_Labels l' = l_Labels l \<and> l_AgentID l' = l_AgentID l \<and>
        l_CreatedAt l' = l_CreatedAt l \<and>
        (l_State l = LeaseActive \<longrightarrow> l_TargetUDID l' = l_TargetUDID l \<and> l_State l' \<noteq> LeaseQueued) \<and>
        (l_State l = LeaseExpired \<or> l_State l = LeaseReleased \<longrightarrow> l_State l' = l_State l)"
proof -
  have "lives (y_mgr y) (y_mgr z)" using fine_step [OF assms(2)] reachable_settled [OF assms(1)] by blast
  then have L: "case m_leases (y_mgr z) lid of None \<Rightarrow> is_terminal l | Some l' \<Rightarrow> life_le l l'"
    using assms(3) by (simp add: lives_def)
  show ?thesis
    by (cases "m_leases (y_mgr z) lid") (use L in \<open>auto simp: life_le_def\<close>)
qed

definition released_state :: sys where
  "released_state = (case fire all_keys (SCall 3 (CRelease (newID [1]))) two_state of Some z \<Rightarrow> z | None \<Rightarrow> two_state)"

theorem lease_lifecycle_witness:
  "fine two_state released_state \<and> state_of two_state (newID [2]) = Some LeaseQueued \<and>
   state_of two_state (newID [1]) = Some LeaseActive \<and>
   state_of released_state (newID [2]) = Some LeaseActive \<and>
   state_of released_state (newID [1]) \<noteq> Some LeaseQueued"
proof -
  have "fire all_keys (SCall 3 (CRelease (newID [1]))) two_state \<noteq> None" by code_simp
  then obtain z where z: "fire all_keys (SCall 3 (CRelease (newID [1]))) two_state = Some z" by blast
  then have "released_state = z" by (simp only: released_state_def option.case)
  then have f: "fine two_state released_state" using fire_fine [OF z] by simp
  have s1: "state_of two_state (newID [1]) = Some LeaseActive" by code_simp
  then obtain l where l: "m_leases (y_mgr two_state) (newID [1]) = Some l" "is_active l" by (rule state_ofE)
  have "state_of released_state (newID [1]) \<noteq> Some LeaseQueued"
    using lease_lifecycle [OF two_state_reachable f l(1)] l(2) by (auto simp: state_of_def)
  moreover have "state_of two_state (newID [2]) = Some LeaseQueued"
    "state_of released_state (newID [2]) = Some LeaseActive" by code_simp+
  ultimately show ?thesis using f s1 by blast
qed


definition resetting :: sys where
  "resetting = after all_keys [SCall 0 (CSetResetFunc True), SCall 1 (acq 1 ''a'' ''erase''),
     SCall 2 (CRelease (newID [1]))]"


text \<open>The schedule of the race between two operators and a reset.\<close>

definition clear_race :: sys where
  "clear_race = after all_keys
    [SCall 0 (CSetResetFunc True), SCall 1 (acq 1 ''a'' ''erase''), SCall 2 (acq 2 ''q'' ''erase''),
     SCall 3 (acq 3 ''r'' []), SCall 4 (CRelease (newID [1])), SResetReturned 0 False,
     SClearCheck ''U1'', SClearCheck ''U1'', SClearFinish 5 0, SClearFinish 6 0]"


section \<open>Who is served\<close>

text \<open>
  C6. Promotion onto a free target is first come, first served: a lease that becomes active was
  waiting in a queue, every lease ahead of it in that queue was passed over for a reason the code
  names (it does not match, it carries a reset and the target is a device, its owner went silent,
  its own erase is already running elsewhere), it matches the target itself, and it is not an
  erase-carrying lease on a target still dirty from another lease.
\<close>

theorem promotion_fifo:
  assumes "mgr_inv s" "m_byTarget s udid = None" "m_targets s udid = Some tgt"
    and "promoteLocked ord now udid s = Some (t, ev)"
    and "m_leases s lid = Some l" "is_queued l" "m_leases t lid = Some l'" "is_active l'"
  shows "(\<exists>key. served now tgt udid key 0 s lid) \<and> grantable s tgt udid l \<and> l_TargetUDID l' = udid"
proof -
  let ?s' = "s\<lparr>m_ranges := Suc (m_ranges s)\<rparr>"
  have i: "linv False [] s" using assms(1) by (simp add: linv_False)
  have pq: "promoteQueues now tgt udid (range_over (m_queues s) (ord (m_ranges s))) ?s' [] = Some (t, ev)"
    using assms(3,4) by (simp add: promoteLocked_def)
  have "newly_active ?s' t lid" using assms(5-8) by (simp add: newly_active_def)
  then obtain key where "served now tgt udid key 0 ?s' lid"
    using promoteQueues_served [OF _ _ distinct_range_over pq, of "[]"] i assms(2) by auto
  then have "served now tgt udid key 0 s lid"
    by (rule served_cong [OF assms(1), rotated -1]) (simp_all add: queue_of_def unconcerned_def)
  moreover have "promotion now tgt udid s t"
    using promoteLocked_inv [OF i assms(2), of ord now] assms(3,4) by simp
  then have "lease_promoted now tgt udid s t lid" by (simp add: promotion_def)
  then have "l' = granted_lease now udid l \<and> grantable s tgt udid l"
    using assms(5-8) unfolding lease_promoted_def by auto
  ultimately show ?thesis by (auto simp: granted_lease_def)
qed

text \<open>The state inside \<^verbatim>\<open>Release\<close> just before it promotes.\<close>

definition before_promote :: manager where
  "before_promote = (case m_leases (y_mgr two_state) (newID [1]) of
      Some l \<Rightarrow> end_active 3 LeaseReleased l (y_mgr two_state) | None \<Rightarrow> y_mgr two_state)"

lemma before_promote_inv: "mgr_inv before_promote"
proof -
  have m: "mgr_inv (y_mgr two_state)"
    using reachable_settled [OF two_state_reachable] by (simp add: settled_def linv_False)
  have "state_of two_state (newID [1]) = Some LeaseActive" by code_simp
  then obtain l where l: "m_leases (y_mgr two_state) (newID [1]) = Some l" "is_active l" by (rule state_ofE)
  have "l_ID l = newID [1]" using m l(1) by (rule lease_at)
  then have "m_leases (y_mgr two_state) (l_ID l) = Some l" using l(1) by simp
  then have "mgr_inv (end_active 3 LeaseReleased l (y_mgr two_state))" by (rule end_active_inv [OF m _ l(2)]) simp
  then show ?thesis using l(1) by (simp only: before_promote_def option.case)
qed

theorem promotion_fifo_witness:
  "\<exists>t ev key. promoteLocked all_keys 3 ''U1'' before_promote = Some (t, ev) \<and>
     served 3 sim1 ''U1'' key 0 before_promote (newID [2])"
proof -
  have free: "m_byTarget before_promote ''U1'' = None" "m_targets before_promote ''U1'' = Some sim1" by code_simp+
  have "map_option (\<lambda>(t, _). map_option l_State (m_leases t (newID [2]))) (promoteLocked all_keys 3 ''U1'' before_promote)
      = Some (Some LeaseActive)" by code_simp
  then obtain t ev l' where t: "promoteLocked all_keys 3 ''U1'' before_promote = Some (t, ev)"
      "m_leases t (newID [2]) = Some l'" "is_active l'" by auto
  have "map_option l_State (m_leases before_promote (newID [2])) = Some LeaseQueued" by code_simp
  then obtain l where l: "m_leases before_promote (newID [2]) = Some l" "is_queued l" by auto
  show ?thesis using promotion_fifo [OF before_promote_inv free t(1) l t(2,3)] t(1) by blast
qed

text \<open>The decision of \<^verbatim>\<open>Acquire\<close>, read off its result.\<close>

definition acquired :: "instant \<Rightarrow> string \<Rightarrow> acquire_req \<Rightarrow> target list \<Rightarrow> manager \<Rightarrow> lease_error + lease \<Rightarrow> bool" where
  "acquired now lid req ts s r \<longleftrightarrow> (case r of
      Inl err \<Rightarrow> err = ErrNoMatch \<and> (\<forall>t \<in> set ts. \<not> suits req t)
    | Inr l \<Rightarrow> l_ID l = lid \<and> (\<exists>t \<in> set ts. suits req t) \<and>
        (is_active l \<and> l_ExpiresAt l = Some (now + clampTTL (r_TTLSeconds req)) \<and>
           queue_of s (queueKey (r_Labels req) (r_UDID req)) = [] \<and>
           (\<exists>t \<in> set ts. suits req t \<and> l_TargetUDID l = t_UDID t \<and> m_byTarget s (t_UDID t) = Some lid) \<or>
         is_queued l \<and> queue_of s (queueKey (r_Labels req) (r_UDID req)) \<noteq> [] \<and>
           last (queue_of s (queueKey (r_Labels req) (r_UDID req))) = lid \<and>
           l_QueuePosition l = length (queue_of s (queueKey (r_Labels req) (r_UDID req))) \<and>
           (l_QueuePosition l = 1 \<longrightarrow> (\<forall>t \<in> set ts. suits req t \<longrightarrow>
              m_byTarget s (t_UDID t) \<noteq> None \<or> r_Reset req = ''erase'' \<and> t_UDID t \<in> m_dirty s))))"

lemma viewLocked_fields [simp]:
  "l_ID (viewLocked now l) = l_ID l" "l_State (viewLocked now l) = l_State l"
  "l_TargetUDID (viewLocked now l) = l_TargetUDID l" "l_ExpiresAt (viewLocked now l) = l_ExpiresAt l"
  "l_QueuePosition (viewLocked now l) = l_QueuePosition l"
  by (simp_all add: viewLocked_def split: option.split)

lemma queue_of_pending [simp]: "queue_of (s\<lparr>m_pendingResets := p\<rparr>) k = queue_of s k"
  by (simp add: queue_of_def)

lemma enqueue_new_fields:
  assumes "enqueue_new now (new_lease now lid req) s = (t, l)"
  shows "l_ID l = lid" "is_queued l" "l_QueuePosition l = length (queue_of t (queueKey (r_Labels req) (r_UDID req)))"
    "queue_of t (queueKey (r_Labels req) (r_UDID req)) = queue_of s (queueKey (r_Labels req) (r_UDID req)) @ [lid]"
    "m_byTarget t = m_byTarget s" "m_dirty t = m_dirty s"
  using assms by (auto simp: enqueue_new_def Let_def put_lease_def leaseQueueKey_def queue_of_def)

lemma acquire_decide_acquired:
  assumes "acquire_decide now lid req ts s = (t, g, r)"
  shows "acquired now lid req ts t r"
proof -
  let ?key = "queueKey (r_Labels req) (r_UDID req)" let ?l = "new_lease now lid req"
  obtain free0 any where sc: "scan_targets s req ts = (free0, any)" by fastforce
  have any: "any \<longleftrightarrow> (\<exists>t \<in> set ts. suits req t)" using scan_any [of s req ts] sc by simp
  consider (nomatch) "\<not> any" | (waiting) any "queue_of s ?key \<noteq> []"
    | (busy) any "queue_of s ?key = []" "free0 = None"
    | (erase) f where any "queue_of s ?key = []" "free0 = Some f" "preGrantEraseNeededLocked s ?l (t_UDID f)"
    | (grant) f where any "queue_of s ?key = []" "free0 = Some f" "\<not> preGrantEraseNeededLocked s ?l (t_UDID f)"
    by (cases free0) blast+
  then show ?thesis
  proof cases
    case nomatch
    then show ?thesis using assms sc any by (auto simp: acquire_decide_def acquired_def)
  next
    case waiting
    obtain l where l: "enqueue_new now ?l s = (t, l)" "r = Inr (viewLocked now l)"
      using assms sc waiting by (auto simp: acquire_decide_def Let_def split: prod.splits)
    show ?thesis using waiting any enqueue_new_fields [OF l(1)] l(2) by (auto simp: acquired_def)
  next
    case busy
    obtain l where l: "enqueue_new now ?l s = (t, l)" "r = Inr (viewLocked now l)"
      using assms sc busy by (auto simp: acquire_decide_def Let_def split: prod.splits)
    show ?thesis
      using busy any enqueue_new_fields [OF l(1)] l(2) scan_none [of s req ts any] sc by (auto simp: acquired_def)
  next
    case erase
    let ?s = "startPreGrantEraseLocked ?l (t_UDID f) s"
    obtain l where l: "enqueue_new now ?l ?s = (t, l)" "r = Inr (viewLocked now l)"
      using assms sc erase by (auto simp: acquire_decide_def Let_def split: prod.splits)
    have F: "queue_of ?s ?key = []" "m_dirty ?s = m_dirty s" "m_byTarget ?s = (m_byTarget s)(t_UDID f \<mapsto> resetSentinel)"
      "r_Reset req = ''erase''" "t_UDID f \<in> m_dirty s"
      using erase by (simp_all add: startPreGrantEraseLocked_def queue_of_def preGrantEraseNeededLocked_def)
    have "t_UDID x \<in> m_dirty s" if "x \<in> set ts" "suits req x" "m_byTarget s (t_UDID x) = None" for x
      using scan_free(5) [of s req ts f any x] sc erase F that by simp
    then show ?thesis using erase any enqueue_new_fields [OF l(1)] l(2) F by (auto simp: acquired_def)
  next
    case grant
    obtain l where l: "grant_now now (clampTTL (r_TTLSeconds req)) (t_UDID f) ?l s = (t, l)" "r = Inr (viewLocked now l)"
      using assms sc grant by (auto simp: acquire_decide_def Let_def split: prod.splits)
    have "f \<in> set ts" "suits req f" using scan_free [of s req ts f any] sc grant by simp_all
    then show ?thesis
      using grant any l by (auto simp: acquired_def grant_now_def Let_def put_lease_def queue_of_def)
  qed
qed

text \<open>
  C7. What \<^verbatim>\<open>Acquire\<close> answers: \<^verbatim>\<open>ErrNoMatch\<close> exactly when no listed target can ever serve the request
  (a reset-carrying request is never served by a device); an active lease only on a listed target
  that suits the request, with nobody waiting under the same key (no queue jumping); otherwise a
  queued lease at the tail of its queue, and at the head only if every suitable target is taken
  or, for an erase-carrying request, dirty.
\<close>

theorem acquire_answer:
  assumes "mgr_inv s" "Acquire ord now rnd (Inr ts) req s = Some out"
  shows "acquired now (newID rnd) req ts (o_state out) (o_result out)"
proof -
  have i: "linv False [] s" using assms(1) by (simp add: linv_False)
  obtain s1 ev1 s2 ev2 where A:
    "expireLocked ord now (s\<lparr>m_targets := target_table ts\<rparr>) = Some (s1, ev1)"
    "foldM (offer_target ord now) ts (s1, ev1) = Some (s2, ev2)"
    using acquire_prepare [OF i] .
  obtain t g r where d: "acquire_decide now (newID rnd) req ts s2 = (t, g, r)" by (metis prod_cases3)
  have out: "o_state out = t\<lparr>m_pendingResets := []\<rparr>" "o_result out = r"
    using assms(2) A d by (auto simp: Acquire_def Let_def)
  have "acquired now (newID rnd) req ts t r" using d by (rule acquire_decide_acquired)
  then show ?thesis unfolding out acquired_def by (cases r) simp_all
qed

theorem acquire_answer_witness:
  "\<exists>out. Acquire all_keys 1 [1] (Inr [sim1]) (want ''a'' []) (newManager False) = Some out \<and>
     acquired 1 (newID [1]) (want ''a'' []) [sim1] (o_state out) (o_result out)"
proof -
  have "Acquire all_keys 1 [1] (Inr [sim1]) (want ''a'' []) (newManager False) \<noteq> None" by code_simp
  then obtain out where "Acquire all_keys 1 [1] (Inr [sim1]) (want ''a'' []) (newManager False) = Some out" by blast
  then show ?thesis using acquire_answer [OF mgr_inv_newManager] by blast
qed

section \<open>Expiry, renewal and release\<close>

text \<open>
  C8. An expiry pass is complete: after \<^verbatim>\<open>ExpireNow\<close>, whatever order its range statements visit the
  leases in, no active lease is past its expiry outside an open grace window, no queued lease is
  past its abandonment deadline, and no terminal lease is past its retention.
\<close>

theorem expire_now_complete:
  assumes "mgr_inv s" "\<And>n. dom (m_leases s) \<subseteq> set (ord n)" "ExpireNow ord now s = Some out"
  shows "\<not> overdue now (o_state out) lid \<and> \<not> abandoned now (o_state out) lid \<and> \<not> stale now (o_state out) lid"
proof -
  have i: "linv False [] s" using assms(1) by (simp add: linv_False)
  obtain t ev where t: "expireLocked ord now s = Some (t, ev)" "o_state out = t\<lparr>m_pendingResets := []\<rparr>"
    using assms(3) by (auto simp: ExpireNow_def bind_eq_Some_conv)
  have "\<not> overdue now t lid" "\<not> abandoned now t lid" "\<not> stale now t lid"
    using expireLocked_complete [OF i assms(2) t(1)] by auto
  then show ?thesis unfolding t(2) overdue_def abandoned_def stale_def by simp
qed

definition much_later :: instant where "much_later = 3600 * Second"

definition one_lease :: manager where
  "one_lease = fst (grant_now 0 (60 * Second) ''U1'' (new_lease 0 (newID [1]) (want ''a'' [])) (newManager False))"

lemma one_lease_inv: "mgr_inv one_lease"
  unfolding one_lease_def
  by (intro grant_now_inv mgr_inv_newManager) (simp_all add: newID_not_sentinel, simp_all add: newManager_def)

theorem expire_now_complete_witness:
  "\<exists>out. ExpireNow all_keys much_later one_lease = Some out \<and> \<not> overdue much_later (o_state out) (newID [1]) \<and>
     map_option l_State (m_leases (o_state out) (newID [1])) = Some LeaseExpired"
proof -
  have "dom (m_leases one_lease) = {newID [1]}"
    by (simp add: one_lease_def grant_now_def put_lease_def newManager_def Let_def)
  then have c: "dom (m_leases one_lease) \<subseteq> set (all_keys n)" for n by (simp add: all_keys_def)
  have e: "map_option (\<lambda>out. map_option l_State (m_leases (o_state out) (newID [1])))
      (ExpireNow all_keys much_later one_lease) = Some (Some LeaseExpired)" by code_simp
  then obtain out where out: "ExpireNow all_keys much_later one_lease = Some out" by auto
  show ?thesis using expire_now_complete [OF one_lease_inv c out, of "newID [1]"] out e by auto
qed

text \<open>
  A successful \<^verbatim>\<open>Renew\<close> closes the grace window and sets the expiry between one second and one
  hour ahead, as many seconds as the lease's TTL, which is the requested one capped at an hour.
\<close>

theorem renew_extends:
  assumes "mgr_inv s" "Renew ord now lid n s = Some out" "o_result out = Inr l"
  shows "is_active l \<and> l_ExpiresAt l = Some (now + l_TTLSeconds l * Second) \<and> l_GraceUntil l = None \<and>
    1 \<le> l_TTLSeconds l \<and> l_TTLSeconds l \<le> 3600 \<and> (0 < n \<longrightarrow> l_TTLSeconds l = min n 3600) \<and>
    m_byTarget (o_state out) (l_TargetUDID l) = Some lid"
proof -
  have i: "linv False [] s" using assms(1) by (simp add: linv_False)
  obtain t ev where t: "expireLocked ord now s = Some (t, ev)" "linv False [] t" using expireLockedE [OF i] .
  obtain k where k: "m_leases t lid = Some k" "is_active k" "l = viewLocked now (renewed now n k)"
      "o_state out = (put_lease (renewed now n k) t)\<lparr>m_pendingResets := []\<rparr>"
    using assms(2,3) t(1) by (auto simp: Renew_def with_active_def split: option.splits if_splits)
  have m: "mgr_inv t" using t(2) by (rule invD)
  have wf: "1 \<le> l_TTLSeconds k" "l_TTLSeconds k \<le> 3600" using lease_wf_at [OF m k(1)] by (simp_all add: lease_wf_def)
  have v: "l_TTLSeconds l = l_TTLSeconds (renewed now n k)" "l_GraceUntil l = l_GraceUntil (renewed now n k)"
    unfolding k(3) by (simp_all add: viewLocked_def split: option.split)
  have r: "l_TTLSeconds (renewed now n k) = (if n \<le> 0 then l_TTLSeconds k else min n 3600)"
    "l_ExpiresAt (renewed now n k) = Some (now + (if n \<le> 0 then l_TTLSeconds k else min n 3600) * Second)"
    using wf by (auto simp: renewed_def Let_def clampTTL_cases)
  have "m_byTarget t (l_TargetUDID k) = Some lid" using activeD [OF m k(1,2)] by simp
  then show ?thesis using v r wf k(2) unfolding k(3,4) by (auto simp: renewed_def Let_def put_lease_def)
qed

theorem renew_extends_witness:
  "\<exists>out l. Renew all_keys 5 (newID [1]) 9000 (y_mgr two_state) = Some out \<and> o_result out = Inr l \<and> l_TTLSeconds l = 3600"
proof -
  have m: "mgr_inv (y_mgr two_state)"
    using reachable_settled [OF two_state_reachable] by (simp add: settled_def linv_False)
  have "answer (Renew all_keys 5 (newID [1]) 9000 (y_mgr two_state)) = Some LeaseActive" by code_simp
  then obtain out l where "Renew all_keys 5 (newID [1]) 9000 (y_mgr two_state) = Some out" "o_result out = Inr l"
    by (rule answerE)
  then show ?thesis using renew_extends [OF m, of all_keys 5 "newID [1]" 9000 out l] by auto
qed

lemma release_result:
  assumes "mgr_inv s" "Release ord now lid s = Some out" "o_result out = Inr l"
  shows "is_terminal l \<and> m_leases (o_state out) lid = Some l"
proof -
  have i: "linv False [] s" using assms(1) by (simp add: linv_False)
  obtain t ev where t: "expireLocked ord now s = Some (t, ev)" "linv False [] t" using expireLockedE [OF i] .
  have m: "mgr_inv t" using t(2) by (rule invD)
  obtain k where k: "m_leases t lid = Some k"
    using assms(2,3) t(1) by (cases "m_leases t lid") (auto simp: Release_def)
  have lid: "l_ID k = lid" using m k by (rule lease_at)
  consider (active) "is_active k" | (queued) "is_queued k" | (other) "l_State k \<notin> {LeaseActive, LeaseQueued}" by blast
  then show ?thesis
  proof cases
    case active
    let ?k = "(clearPause k)\<lparr>l_State := LeaseReleased\<rparr>" let ?t = "end_active now LeaseReleased k t"
    have kt: "m_leases ?t lid = Some ?k" using lid by (simp add: end_active_def put_lease_def clearPause_def)
    show ?thesis
    proof (cases "needsResetLocked ?t ?k")
      case True
      then have "out = (settle (hold_for_reset ?k ?t) ev (Inr ?k))\<lparr>o_resets := ?k # m_pendingResets (hold_for_reset ?k ?t)\<rparr>"
        using assms(2) t(1) k active by (simp add: Release_def Let_def)
      then show ?thesis using assms(3) kt by (auto simp: hold_for_reset_def)
    next
      case False
      have u: "l_TargetUDID ?k = l_TargetUDID k" by (simp add: clearPause_def)
      have at: "m_leases t (l_ID k) = Some k" using k lid by simp
      have inv_t: "linv False [] ?t" using t(2) at active by (rule inv_end_active) simp
      have free: "m_byTarget ?t (l_TargetUDID k) = None" using m at active by (rule end_active_inv) simp
      obtain v gr where v: "promoteLocked ord now (l_TargetUDID k) ?t = Some (v, gr)"
          "out = settle v (ev @ gr) (Inr ?k)"
        using assms(2) t(1) k active False u by (auto simp: Release_def Let_def bind_eq_Some_conv)
      have "m_leases v lid = Some ?k"
        using promoteLocked_inv [OF inv_t free, of ord now] v(1) kt promotion_not_queued [OF _ kt]
        by (cases "m_targets ?t (l_TargetUDID k)") auto
      then show ?thesis using v(2) assms(3) by auto
    qed
  next
    case queued
    then have "out = settle (release_queued now k t) ev (Inr (k\<lparr>l_State := LeaseReleased\<rparr>))"
      using assms(2) t(1) k by (simp add: Release_def)
    then show ?thesis using assms(3) lid by (auto simp: release_queued_def put_lease_def Let_def)
  next
    case other
    have "l_State k \<noteq> LeaseUnset" using lease_wf_at [OF m k] by (simp add: lease_wf_def)
    then have "is_terminal k" using other by (cases "l_State k") auto
    moreover from this have "out = settle t ev (Inr k)" using assms(2) t(1) k by (auto simp: Release_def)
    ultimately show ?thesis using assms(3) k by auto
  qed
qed

text \<open>
  \<^verbatim>\<open>Release\<close> ends a lease whatever state it was in: the lease it returns is terminal and is the
  one in the table, it holds no target and waits in no queue.
\<close>

theorem release_ends:
  assumes "mgr_inv s" "m_pendingResets s = []" "Release ord now lid s = Some out" "o_result out = Inr l"
  shows "is_terminal l \<and> m_leases (o_state out) lid = Some l \<and>
    (\<forall>u. m_byTarget (o_state out) u \<noteq> Some lid) \<and> (\<forall>key. lid \<notin> set (queue_of (o_state out) key))"
proof -
  have r: "is_terminal l" "m_leases (o_state out) lid = Some l"
    using release_result [OF assms(1,3,4)] by simp_all
  have "linv False [] s" using assms(1) by (simp add: linv_False)
  from Release_ok [OF this, of ord now lid] have m: "mgr_inv (o_state out)"
    using assms(3) by (simp add: method_ok_def linv_False)
  show ?thesis
    using r holderD [OF m, of _ lid] queue_entry [OF m, of lid] not_sentinel [OF m r(2)] by fastforce
qed

theorem release_ends_witness:
  "\<exists>out l. Release all_keys 3 (newID [1]) (y_mgr two_state) = Some out \<and> o_result out = Inr l \<and>
     l_State l = LeaseReleased \<and> m_byTarget (o_state out) ''U1'' \<noteq> Some (newID [1])"
proof -
  have m: "mgr_inv (y_mgr two_state)" "m_pendingResets (y_mgr two_state) = []"
    using reachable_settled [OF two_state_reachable] by (simp_all add: settled_def linv_False)
  have "answer (Release all_keys 3 (newID [1]) (y_mgr two_state)) = Some LeaseReleased" by code_simp
  then obtain out l where o: "Release all_keys 3 (newID [1]) (y_mgr two_state) = Some out" "o_result out = Inr l"
      "l_State l = LeaseReleased"
    by (rule answerE)
  then show ?thesis using release_ends [OF m o(1,2)] by blast
qed

section \<open>Counting\<close>

lemma queues_dom:
  assumes "mgr_inv s"
  shows "(\<Union>key \<in> dom (m_queues s). set (queue_of s key)) = {lid. \<exists>l. m_leases s lid = Some l \<and> is_queued l}"
proof -
  have "key \<in> dom (m_queues s)" if "lid \<in> set (queue_of s key)" for lid key
    using that queue_of_Some [of s key] by fastforce
  then have "(\<Union>key \<in> dom (m_queues s). set (queue_of s key)) = (\<Union>key. set (queue_of s key))" by blast
  also have "\<dots> = {lid. \<exists>l. m_leases s lid = Some l \<and> is_queued l}"
  proof (intro equalityI subsetI)
    fix lid assume "lid \<in> (\<Union>key. set (queue_of s key))"
    then obtain key where "lid \<in> set (queue_of s key)" by blast
    from queue_entry [OF assms this] show "lid \<in> {lid. \<exists>l. m_leases s lid = Some l \<and> is_queued l}" by blast
  next
    fix lid assume "lid \<in> {lid. \<exists>l. m_leases s lid = Some l \<and> is_queued l}"
    then obtain l where "m_leases s lid = Some l" "is_queued l" by blast
    from queuedD [OF assms this] show "lid \<in> (\<Union>key. set (queue_of s key))" by blast
  qed
  finally show ?thesis .
qed

lemma queues_disjoint:
  assumes "mgr_inv s" "a \<noteq> b"
  shows "set (queue_of s a) \<inter> set (queue_of s b) = {}"
proof (rule ccontr)
  assume "set (queue_of s a) \<inter> set (queue_of s b) \<noteq> {}"
  then obtain lid where "lid \<in> set (queue_of s a)" "lid \<in> set (queue_of s b)" by auto
  then show False using queue_entry [OF assms(1), of lid a] queue_entry [OF assms(1), of lid b] assms(2) by auto
qed

text \<open>
  The gauges the broker places by are exact: \<^verbatim>\<open>QueuedCount\<close>, which adds up queue lengths, is
  the number of queued leases, and \<^verbatim>\<open>ActiveCount\<close> is the number of targets under an active lease.
\<close>

theorem counts_exact:
  assumes "mgr_inv s" "dom (m_queues s) \<subseteq> set ks" "dom (m_leases s) \<subseteq> set ls"
  shows "QueuedCount ks s = card {lid. \<exists>l. m_leases s lid = Some l \<and> is_queued l} \<and>
    ActiveCount ls s = card {u. \<exists>lid l. m_byTarget s u = Some lid \<and> m_leases s lid = Some l \<and> is_active l}"
proof
  let ?K = "range_over (m_queues s) ks"
  have K: "set ?K = dom (m_queues s)" using assms(2) by (rule range_over_complete)
  have "QueuedCount ks s = (\<Sum>key \<in> dom (m_queues s). card (set (queue_of s key)))"
    by (simp add: QueuedCount_def sum_list_distinct_conv_sum_set K distinct_card [OF distinct_queue [OF assms(1)]])
  also have "\<dots> = card (\<Union>key \<in> dom (m_queues s). set (queue_of s key))"
    using queues_disjoint [OF assms(1)] K by (intro card_UN_disjoint [symmetric]) (auto simp: K [symmetric])
  finally show "QueuedCount ks s = card {lid. \<exists>l. m_leases s lid = Some l \<and> is_queued l}"
    by (simp only: queues_dom [OF assms(1)])
next
  let ?L = "range_over (m_leases s) ls"
  let ?A = "{lid. \<exists>l. m_leases s lid = Some l \<and> is_active l}"
  let ?T = "{u. \<exists>lid l. m_byTarget s u = Some lid \<and> m_leases s lid = Some l \<and> is_active l}"
  let ?f = "\<lambda>lid. l_TargetUDID (the (m_leases s lid))"
  have L: "set ?L = dom (m_leases s)" using assms(3) by (rule range_over_complete)
  have "ActiveCount ls s = card (set (filter (\<lambda>lid. case m_leases s lid of Some l \<Rightarrow> is_active l | None \<Rightarrow> False) ?L))"
    unfolding ActiveCount_def by (rule distinct_card [symmetric]) simp
  also have "set (filter (\<lambda>lid. case m_leases s lid of Some l \<Rightarrow> is_active l | None \<Rightarrow> False) ?L) = ?A"
    using L by (auto split: option.splits)
  also have "card ?A = card (?f ` ?A)"
  proof (rule card_image [symmetric], rule inj_onI)
    fix a b assume "a \<in> ?A" "b \<in> ?A" "?f a = ?f b"
    then show "a = b" using activeD [OF assms(1), of a] activeD [OF assms(1), of b] by auto
  qed
  also have "?f ` ?A = ?T"
  proof
    show "?f ` ?A \<subseteq> ?T" using activeD [OF assms(1)] by fastforce
    show "?T \<subseteq> ?f ` ?A"
    proof
      fix u assume "u \<in> ?T"
      then obtain lid l where "m_byTarget s u = Some lid" "m_leases s lid = Some l" "is_active l" by blast
      moreover from this have "l_TargetUDID l = u"
        using holderD [OF assms(1), of u lid] not_sentinel [OF assms(1), of lid l] by auto
      ultimately show "u \<in> ?f ` ?A" by (intro image_eqI [of _ _ lid]) auto
    qed
  qed
  finally show "ActiveCount ls s = card ?T" .
qed

theorem counts_exact_witness:
  "ActiveCount [newID [1]] one_lease = 1 \<and>
   card {u. \<exists>lid l. m_byTarget one_lease u = Some lid \<and> m_leases one_lease lid = Some l \<and> is_active l} = 1"
proof -
  have d: "dom (m_leases one_lease) \<subseteq> set [newID [1]]" "dom (m_queues one_lease) \<subseteq> set []"
    by (simp_all add: one_lease_def grant_now_def put_lease_def newManager_def Let_def)
  have "ActiveCount [newID [1]] one_lease = 1" by code_simp
  then show ?thesis using counts_exact [OF one_lease_inv d(2,1)] by simp
qed

end
