(* ===== verification/Mz_BrokerProps.thy ===== *)
theory Mz_BrokerProps
  imports Mz_BrokerInv Mz_LeaseProps
begin

text \<open>
  The properties of the broker, and the two that tie it to the lease manager behind each daemon.
\<close>

section \<open>Placement\<close>

lemma rank_run:
  assumes "sorted (map rank_key (r # rs))"
  shows "\<forall>x \<in> set (dropWhile (\<lambda>x. rank_key x = rank_key r) rs). rank_key r \<le> rank_key x"
    "sorted (map rank_key (dropWhile (\<lambda>x. rank_key x = rank_key r) rs))"
proof -
  have "\<forall>x \<in> set rs. rank_key r \<le> rank_key x" "sorted (map rank_key rs)" using assms by simp_all
  then show "\<forall>x \<in> set (dropWhile (\<lambda>x. rank_key x = rank_key r) rs). rank_key r \<le> rank_key x"
    by (auto dest: set_dropWhileD)
  have "rs = takeWhile (\<lambda>x. rank_key x = rank_key r) rs @ dropWhile (\<lambda>x. rank_key x = rank_key r) rs" by simp
  then show "sorted (map rank_key (dropWhile (\<lambda>x. rank_key x = rank_key r) rs))"
    using \<open>sorted (map rank_key rs)\<close> by (metis map_append sorted_append)
qed

text \<open>Rotation permutes runs of equal rank only.\<close>

lemma mset_rotated: "mset (drop k xs @ take k xs) = mset xs"
  by (metis append_take_drop_id mset_append union_commute)

lemma rotate_runs_mset: "mset (rotate_runs rr rs) = mset rs"
proof (induction rr rs rule: rotate_runs.induct)
  case (1 rr)
  then show ?case by simp
next
  case (2 rr r rs)
  let ?run = "r # takeWhile (\<lambda>x. rank_key x = rank_key r) rs"
  let ?rest = "dropWhile (\<lambda>x. rank_key x = rank_key r) rs"
  have "mset (rotate_runs rr (r # rs)) = mset ?run + mset ?rest"
    using 2 by (simp add: Let_def mset_rotated del: mset_append take_Suc_Cons drop_Suc_Cons) (simp add: mset_append mset_rotated [unfolded mset_append])
  also have "\<dots> = mset (r # rs)" by (metis append_Cons mset_append takeWhile_dropWhile_id)
  finally show ?case .
qed

lemma sorted_block:
  assumes "\<forall>x \<in> set xs. f x = k" "sorted (map f ys)" "\<forall>y \<in> set ys. k \<le> f y"
  shows "sorted (map f (xs @ ys))"
  using assms by (induction xs) auto

lemma rotate_runs_sorted: "sorted (map rank_key rs) \<Longrightarrow> sorted (map rank_key (rotate_runs rr rs))"
proof (induction rr rs rule: rotate_runs.induct)
  case (1 rr)
  then show ?case by simp
next
  case (2 rr r rs)
  let ?run = "r # takeWhile (\<lambda>x. rank_key x = rank_key r) rs"
  let ?rest = "dropWhile (\<lambda>x. rank_key x = rank_key r) rs"
  let ?rot = "if length ?run > 1 then drop (rr mod length ?run) ?run @ take (rr mod length ?run) ?run else ?run"
  note R = rank_run [OF 2(2)]
  have srt: "sorted (map rank_key (rotate_runs rr ?rest))" using 2(1) R(2) by simp
  have run: "\<forall>x \<in> set ?run. rank_key x = rank_key r" by (auto dest: set_takeWhileD)
  have "mset ?rot = mset ?run" by (simp only: mset_rotated split: if_split) blast
  then have "set_mset (mset ?rot) = set_mset (mset ?run)" by (rule arg_cong)
  then have rot: "set ?rot = set ?run" by (simp only: set_mset_mset)
  have same: "\<forall>x \<in> set ?rot. rank_key x = rank_key r" unfolding rot by (rule run)
  have "set (rotate_runs rr ?rest) = set ?rest" using rotate_runs_mset [of rr ?rest] by (metis set_mset_mset)
  then have ge: "\<forall>y \<in> set (rotate_runs rr ?rest). rank_key r \<le> rank_key y" using R(1) by metis
  have "sorted (map rank_key (?rot @ rotate_runs rr ?rest))" by (rule sorted_block [OF same srt ge])
  then show ?case by (simp add: Let_def)
qed

text \<open>The entry a candidate host gets.\<close>

definition entry :: "string list \<Rightarrow> host list \<Rightarrow> nat \<Rightarrow> ranked_host" where
  "entry labels hosts i = (let h = hosts ! i in
     \<lparr>rk_host = i, rk_tier = hostTier h labels, rk_load = effectiveLoad h, rk_warmIdle = warmIdleCount h labels\<rparr>)"

definition eligible :: "string list \<Rightarrow> host list \<Rightarrow> nat \<Rightarrow> bool" where
  "eligible labels hosts i \<longleftrightarrow> h_up (hosts ! i) \<and> hostMatches (hosts ! i) labels"

lemma ranked_hosts_entries:
  "ranked_hosts hosts labels = map (entry labels hosts) (filter (eligible labels hosts) [0 ..< length hosts])"
proof -
  have "concat (map (\<lambda>(i, h). if h_up h \<and> hostMatches h labels
       then [\<lparr>rk_host = i, rk_tier = hostTier h labels, rk_load = effectiveLoad h, rk_warmIdle = warmIdleCount h labels\<rparr>]
       else []) (zip is (map ((!) hosts) is))) = map (entry labels hosts) (filter (eligible labels hosts) is)" for "is"
    by (induction "is") (simp_all add: entry_def eligible_def Let_def)
  from this [of "[0 ..< length hosts]"] show ?thesis
    by (simp add: ranked_hosts_def enumerate_eq_zip map_nth)
qed

text \<open>
  C26. Placement considers every healthy host with a matching target and no other, each once, with
  the tier, load and warm depth it has now, in order of tier, then load, then warm depth: the
  rotation for fairness never moves a host past one of a better rank.
\<close>

theorem placement_order:
  assumes "rankCandidates labels b = (b', rs)"
  shows "sorted (map (\<lambda>r. [int (rk_tier r), rk_load r, - int (rk_warmIdle r)]) rs) \<and>
    mset rs = mset (map (entry labels (bk_hosts b)) (filter (eligible labels (bk_hosts b)) [0 ..< length (bk_hosts b)])) \<and>
    distinct (map rk_host rs)"
proof -
  let ?es = "map (entry labels (bk_hosts b)) (filter (eligible labels (bk_hosts b)) [0 ..< length (bk_hosts b)])"
  have rs: "rs = rotate_runs (bk_rr b + 1) (sort_key rank_key ?es)"
    using assms by (simp add: rankCandidates_def nextRR_def ranked_hosts_entries)
  have m: "mset rs = mset ?es" unfolding rs by (simp only: rotate_runs_mset mset_sort)
  have "map rk_host ?es = filter (eligible labels (bk_hosts b)) [0 ..< length (bk_hosts b)]"
    by (simp add: entry_def Let_def comp_def)
  then have "distinct (map rk_host ?es)" by simp
  moreover have "mset (map rk_host rs) = mset (map rk_host ?es)" using m by (simp only: mset_map)
  ultimately have "distinct (map rk_host rs)" by (metis mset_eq_imp_distinct_iff)
  moreover have "sorted (map rank_key rs)" unfolding rs by (rule rotate_runs_sorted [OF sorted_sort_key])
  ultimately show ?thesis using m by (simp add: rank_key_def [abs_def])
qed

lemma candidates_valid:
  assumes "rankCandidates labels b = (b', rs)" "h \<in> set (map rk_host rs)"
  shows "h < length (bk_hosts b)"
proof -
  let ?es = "map (entry labels (bk_hosts b)) (filter (eligible labels (bk_hosts b)) [0 ..< length (bk_hosts b)])"
  have rs: "rs = rotate_runs (bk_rr b + 1) (sort_key rank_key ?es)"
    using assms(1) by (simp add: rankCandidates_def nextRR_def ranked_hosts_entries)
  have "mset rs = mset ?es" unfolding rs by (simp only: rotate_runs_mset mset_sort)
  then have eq: "set rs = set ?es" by (metis set_mset_mset)
  obtain r where r: "r \<in> set rs" "rk_host r = h" using assms(2) by auto
  then have "r \<in> set ?es" using eq by simp
  then show ?thesis using r(2) by (auto simp: entry_def Let_def)
qed

text \<open>A fleet of two daemons with one simulator each.\<close>

definition fleet_daemon :: daemon where
  "fleet_daemon =
     \<lparr>d_healthz = (\<lambda>i. Inr (True, ''v1'')), d_targets = (\<lambda>i. Inr [sim1]), d_leases = (\<lambda>i. Inr []),
      d_status = (\<lambda>i. Inl (DaemonError 404 ''not_found'')),
      d_acquire = (\<lambda>i r. if i = 0 then Inr ((new_lease 0 ''lse_a'' r)\<lparr>l_State := LeaseQueued\<rparr>)
         else if i = 1 then Inr ((new_lease 0 ''lse_b'' r)\<lparr>l_State := LeaseQueued\<rparr>) else Inl (TransportError ''none'')),
      d_get = (\<lambda>i lid. Inl (TransportError ''timeout'')),
      d_delete = (\<lambda>i lid. if i = 0 then None else Some (TransportError ''timeout''))\<rparr>"

definition fleet_cfg :: "host_config list" where
  "fleet_cfg = [\<lparr>c_Name = ''a'', c_Addr = ''http://a'', c_Labels = [''intel''], c_Token = []\<rparr>,
     \<lparr>c_Name = ''b'', c_Addr = ''http://b'', c_Labels = [], c_Token = []\<rparr>]"

definition fleet :: broker where
  "fleet = probe fleet_daemon 5 [] [] 1 (probe fleet_daemon 5 [] [] 0 (NewBroker [] 0 fleet_cfg))"

theorem placement_order_witness:
  "sorted (map (\<lambda>r. [int (rk_tier r), rk_load r, - int (rk_warmIdle r)]) (snd (rankCandidates [''ios''] fleet))) \<and> map rk_host (snd (rankCandidates [''ios''] fleet)) = [1, 0]"
proof -
  have "map rk_host (snd (rankCandidates [''ios''] fleet)) = [1, 0]" by code_simp
  then show ?thesis using placement_order [of "[''ios'']" fleet "fst (rankCandidates [''ios''] fleet)" "snd (rankCandidates [''ios''] fleet)"] by simp
qed

section \<open>Routing table\<close>

inductive broker_step :: "broker \<Rightarrow> broker \<Rightarrow> bool" where
  step_acquire: "daemon_laws d b \<Longrightarrow> broker_step b (fst (fst (handleAcquireLease d now gone digest req b)))"
| step_proxy: "broker_step b (fst (proxyLeaseOp now f lid b))"
| step_targets: "broker_step b (fst (handleListTargets d b))"
| step_probe: "broker_step b (probe d now oks ks i b)"
| step_advise: "broker_step b (adviseHosts fp push now b)"

lemma rankCandidates_state: "rankCandidates labels b = (b', rs) \<Longrightarrow> b' = b\<lparr>bk_rr := bk_rr b + 1\<rparr>"
  by (simp add: rankCandidates_def nextRR_def)

lemma handleAcquireLease_done:
  assumes laws: "daemon_laws d b" and inv: "load_ok b"
  shows "acquire_done d (fst (handleAcquireLease d now gone digest req b)) (snd (handleAcquireLease d now gone digest req b))"
proof -
  obtain b' ranked where r: "rankCandidates (r_Labels req) b = (b', ranked)" by fastforce
  have b': "b' = b\<lparr>bk_rr := bk_rr b + 1\<rparr>" using rankCandidates_state [OF r] .
  let ?q = "\<lparr>q_daemon = d, q_now = now, q_gone = gone, q_digest = digest, q_req = req, q_ranked = ranked\<rparr>"
  show ?thesis
  proof (cases "ranked = []")
    case True
    then show ?thesis using r inv b'
      by (simp add: handleAcquireLease_def Let_def acquire_done_def)
  next
    case False
    have laws': "daemon_laws (q_daemon ?q) b'" using laws by (simp add: daemon_laws_def b')
    have ih: "in_hand (q_daemon ?q) b' (b', []) (held None)"
      using inv by (simp add: in_hand_def accounted_def held_def b')
    have hs: "\<forall>h \<in> set (map rk_host ranked). h < length (bk_hosts b')"
      using candidates_valid [OF r] by (simp add: b')
    show ?thesis
      using acquire_loop_done [OF laws' ih hs, of None None] r False by (simp add: handleAcquireLease_def Let_def)
  qed
qed

lemma broker_step_load: "broker_step b c \<Longrightarrow> load_ok b \<Longrightarrow> load_ok c"
proof (induction rule: broker_step.induct)
  case (step_acquire d b now gone digest req)
  then show ?case using handleAcquireLease_done [of d b now gone digest req] by (simp add: acquire_done_def)
qed (auto intro: proxyLeaseOp_ok handleListTargets_ok probe_ok adviseHosts_ok)


lemma fleet_laws: "daemon_laws fleet_daemon fleet"
proof -
  have "bk_leases fleet ''lse_a'' = None" "bk_leases fleet ''lse_b'' = None" by code_simp+
  then show ?thesis by (auto simp: daemon_laws_def fleet_daemon_def new_lease_def split: if_splits)
qed

definition fleet_acquire :: "wired \<times> response" where
  "fleet_acquire = handleAcquireLease fleet_daemon 6 False (\<lambda>x. x) (want ''a'' []) fleet"

lemma fleet_reachable: "broker_step\<^sup>*\<^sup>* (NewBroker [] 0 fleet_cfg) (fst (fst fleet_acquire))"
proof -
  have 1: "broker_step (NewBroker [] 0 fleet_cfg) (probe fleet_daemon 5 [] [] 0 (NewBroker [] 0 fleet_cfg))"
    by (rule step_probe)
  have 2: "broker_step (probe fleet_daemon 5 [] [] 0 (NewBroker [] 0 fleet_cfg)) fleet"
    unfolding fleet_def by (rule step_probe)
  have "broker_step\<^sup>*\<^sup>* (NewBroker [] 0 fleet_cfg) fleet"
    using 1 r_into_rtranclp [of broker_step, OF 2] by (rule converse_rtranclp_into_rtranclp)
  moreover have "broker_step fleet (fst (fst fleet_acquire))"
    unfolding fleet_acquire_def using fleet_laws by (rule step_acquire)
  ultimately show ?thesis by (rule rtranclp.rtrancl_into_rtrancl)
qed



definition hung_up :: "wired \<times> response" where
  "hung_up = handleAcquireLease fleet_daemon 6 True (\<lambda>x. x) (want ''a'' []) fleet"


section \<open>The placement log\<close>

text \<open>
  What a log of recent items promises: the newest items first, at most \<open>cap\<close> of them, and a bounded
  request is a prefix.
\<close>

locale recent_log =
  fixes add :: "'a \<Rightarrow> 's \<Rightarrow> 's" and recent :: "nat \<Rightarrow> 's \<Rightarrow> 'b list" and empty :: 's and cap :: nat
    and ok :: "'s \<Rightarrow> bool" and shown_as :: "'a \<Rightarrow> 'b"
  assumes ok_empty: "ok empty" and ok_add: "ok s \<Longrightarrow> ok (add x s)"
    and recent_empty: "recent 0 empty = []"
    and recent_add: "ok s \<Longrightarrow> recent 0 (add x s) = take cap (shown_as x # recent 0 s)"
    and recent_n: "ok s \<Longrightarrow> 0 < n \<Longrightarrow> recent n s = take n (recent 0 s)"
begin

lemma ok_all: "ok (foldl (\<lambda>s x. add x s) empty xs)"
  by (induction xs rule: rev_induct) (simp_all add: ok_empty ok_add)

lemma recent_all: "recent 0 (foldl (\<lambda>s x. add x s) empty xs) = take cap (rev (map shown_as xs))"
proof (induction xs rule: rev_induct)
  case Nil
  then show ?case by (simp add: recent_empty)
next
  case (snoc x xs)
  then show ?case by (cases cap) (simp_all add: recent_add ok_all min_def)
qed

lemma recent_some: "0 < n \<Longrightarrow> recent n (foldl (\<lambda>s x. add x s) empty xs) = take (min n cap) (rev (map shown_as xs))"
  by (simp add: recent_n ok_all recent_all)

end

definition ring_ok :: "decision_log \<Rightarrow> bool" where
  "ring_ok d \<longleftrightarrow> d = empty_log \<or> (length (dl_buf d) = decisionRingCap \<and> dl_next d < decisionRingCap)"

lemma cap_pos: "0 < decisionRingCap" by (simp add: decisionRingCap_def)

lemma log_add_fields:
  assumes "ring_ok d"
  shows "dl_next d < decisionRingCap" "length (dl_buf (log_add pd d)) = decisionRingCap"
    "dl_next (log_add pd d) = (dl_next d + 1) mod decisionRingCap"
    "dl_full (log_add pd d) = (dl_full d \<or> (dl_next d + 1) mod decisionRingCap = 0)"
    "dl_buf (log_add pd d) ! dl_next d = Some pd"
    "j < decisionRingCap \<Longrightarrow> j \<noteq> dl_next d \<Longrightarrow> dl_buf d \<noteq> [] \<Longrightarrow> dl_buf (log_add pd d) ! j = dl_buf d ! j"
proof -
  show n: "dl_next d < decisionRingCap" using assms cap_pos by (auto simp: ring_ok_def empty_log_def)
  have len: "length (if dl_buf d = [] then replicate decisionRingCap None else dl_buf d) = decisionRingCap"
    using assms by (auto simp: ring_ok_def empty_log_def)
  show "length (dl_buf (log_add pd d)) = decisionRingCap"
    "dl_next (log_add pd d) = (dl_next d + 1) mod decisionRingCap"
    "dl_full (log_add pd d) = (dl_full d \<or> (dl_next d + 1) mod decisionRingCap = 0)"
    using len by (simp_all add: log_add_def Let_def)
  show "dl_buf (log_add pd d) ! dl_next d = Some pd" using len n by (simp add: log_add_def Let_def)
  show "j < decisionRingCap \<Longrightarrow> j \<noteq> dl_next d \<Longrightarrow> dl_buf d \<noteq> [] \<Longrightarrow> dl_buf (log_add pd d) ! j = dl_buf d ! j"
    by (simp add: log_add_def Let_def)
qed

lemma ring_ok_add: "ring_ok d \<Longrightarrow> ring_ok (log_add pd d)"
  using log_add_fields(2,3) [of d pd] cap_pos by (simp add: ring_ok_def)

lemma log_size_add:
  assumes "ring_ok d"
  shows "log_size (log_add pd d) = min decisionRingCap (Suc (log_size d))"
proof -
  note F = log_add_fields(1) [OF assms] log_add_fields(2-4) [OF assms, of pd]
  have full: "dl_full d \<Longrightarrow> length (dl_buf d) = decisionRingCap" using assms by (auto simp: ring_ok_def empty_log_def)
  show ?thesis
  proof (cases "dl_next d + 1 = decisionRingCap")
    case True
    then show ?thesis using F(2-4) full by (auto simp: log_size_def)
  next
    case False
    then have "(dl_next d + 1) mod decisionRingCap = dl_next d + 1" using F(1) by simp
    then show ?thesis using F full by (auto simp: log_size_def)
  qed
qed

lemma slot_back:
  assumes "1 \<le> i" "i \<le> decisionRingCap"
  shows "((n + 1) mod decisionRingCap + decisionRingCap - i) mod decisionRingCap = (n + (decisionRingCap - (i - 1))) mod decisionRingCap"
proof -
  have "(n + 1) mod decisionRingCap + decisionRingCap - i = (n + 1) mod decisionRingCap + (decisionRingCap - i)"
    using assms(2) by simp
  also have "\<dots> mod decisionRingCap = (n + 1 + (decisionRingCap - i)) mod decisionRingCap" by (simp add: mod_add_left_eq)
  also have "n + 1 + (decisionRingCap - i) = n + (decisionRingCap - (i - 1))" using assms by simp
  finally show ?thesis .
qed

lemma slot_other: "n < N \<Longrightarrow> 0 < k \<Longrightarrow> k < N \<Longrightarrow> (n + k) mod N \<noteq> (n :: nat)"
  by (cases "n + k < N") (auto simp: le_mod_geq)

lemma log_recent_0:
  assumes "ring_ok d"
  shows "log_recent 0 d = map (\<lambda>i. dl_buf d ! ((dl_next d + (decisionRingCap - i)) mod decisionRingCap)) [1 ..< Suc (log_size d)]"
proof (cases "d = empty_log")
  case True
  then show ?thesis by (simp add: log_recent_def log_size_def empty_log_def)
next
  case False
  then have len: "length (dl_buf d) = decisionRingCap" "dl_next d < decisionRingCap" using assms by (auto simp: ring_ok_def)
  then have "log_size d \<le> decisionRingCap" by (simp add: log_size_def)
  then show ?thesis using len by (auto simp: log_recent_def Let_def intro!: map_cong)
qed

lemma log_recent_add:
  assumes "ring_ok d"
  shows "log_recent 0 (log_add pd d) = take decisionRingCap (Some pd # log_recent 0 d)"
proof (rule nth_equalityI)
  note F = log_add_fields(1) [OF assms] log_add_fields(2,3,5) [OF assms, of pd]
  note R = log_recent_0 [OF ring_ok_add [OF assms], of pd] log_recent_0 [OF assms]
  have size: "length (log_recent 0 d) = log_size d" by (simp add: R(2))
  show "length (log_recent 0 (log_add pd d)) = length (take decisionRingCap (Some pd # log_recent 0 d))"
    using size cap_pos by (simp add: R(1) log_size_add [OF assms] min.commute)
  fix k assume "k < length (log_recent 0 (log_add pd d))"
  then have k: "k < decisionRingCap" "k < Suc (log_size d)" by (simp_all add: R(1) log_size_add [OF assms] del: upt_Suc)
  have at: "log_recent 0 (log_add pd d) ! k =
      dl_buf (log_add pd d) ! ((dl_next d + (decisionRingCap - k)) mod decisionRingCap)"
    using k slot_back [of "Suc k" "dl_next d"] F(3) by (simp add: R(1) log_size_add [OF assms] nth_upt del: upt_Suc)
  show "log_recent 0 (log_add pd d) ! k = take decisionRingCap (Some pd # log_recent 0 d) ! k"
  proof (cases k)
    case 0
    then show ?thesis using at F(1,4) cap_pos by simp
  next
    case (Suc j)
    then have ne: "dl_buf d \<noteq> []" using k(2) assms cap_pos by (auto simp: log_size_def ring_ok_def empty_log_def)
    have "(dl_next d + (decisionRingCap - k)) mod decisionRingCap \<noteq> dl_next d"
      using F(1) k(1) Suc by (intro slot_other) simp_all
    then have "dl_buf (log_add pd d) ! ((dl_next d + (decisionRingCap - k)) mod decisionRingCap) =
        dl_buf d ! ((dl_next d + (decisionRingCap - k)) mod decisionRingCap)"
      using log_add_fields(6) [OF assms] ne cap_pos by simp
    also have "\<dots> = log_recent 0 d ! j" using Suc k(2) by (simp add: R(2) nth_upt del: upt_Suc)
    finally show ?thesis using at Suc k(1) by simp
  qed
qed

lemma log_recent_n:
  assumes "0 < n"
  shows "log_recent n d = take n (log_recent 0 d)"
proof -
  have "take n [1 ..< Suc (log_size d)] = [1 ..< Suc (if n > log_size d then log_size d else n)]"
    using take_upt [of 1 n "Suc (log_size d)"] by (cases "n > log_size d") (simp_all del: upt_Suc)
  then show ?thesis using assms by (auto simp: log_recent_def Let_def take_map simp del: upt_Suc)
qed

interpretation placements: recent_log log_add log_recent empty_log decisionRingCap ring_ok Some
proof
  show "ring_ok empty_log" by (simp add: ring_ok_def)
  show "log_recent 0 empty_log = []" by (simp add: log_recent_def log_size_def empty_log_def)
qed (simp_all add: ring_ok_add log_recent_add log_recent_n)

text \<open>
  C27. The ring behind \<^verbatim>\<open>GET /v0/fleet/placements\<close> implements a plain list of decisions: after any
  sequence of additions it answers the newest decisions first, all of them up to the capacity, and
  a request for \<open>n\<close> of them is the first \<open>n\<close> of that list.
\<close>

theorem placement_log_refines:
  "log_recent n (foldl (\<lambda>d pd. log_add pd d) empty_log pds) =
     map Some (take (if n = 0 then decisionRingCap else min n decisionRingCap) (rev pds))"
  using placements.recent_all [of pds] placements.recent_some [of n pds]
  by (cases "n = 0") (simp_all add: take_map rev_map)

section \<open>The broker and the lease manager\<close>

lemma containsAll_iff: "containsAll hs ws \<longleftrightarrow> set ws \<subseteq> set hs"
  by (auto simp: containsAll_def list_all_iff)

text \<open>
  A host the broker routes to can serve the request: when a host matches the requested labels
  through the target list it fetched, the labels forwarded to its daemon (host-level labels
  stripped) match one of the daemon's own targets in the lease manager's sense.
\<close>

theorem routed_labels_match:
  assumes "fetchTargets d h i = Inr ts" "hostMatches (setCachedTargets ts h) labels"
  shows "\<exists>raw t. d_targets d i = Inr raw \<and> t \<in> set raw \<and> matchesRequest t (stripHostLabels labels h) []"
proof -
  obtain raw where raw: "d_targets d i = Inr raw"
      "ts = map (\<lambda>t. t\<lparr>t_Host := c_Name (h_cfg h), t_Labels := t_Labels t @ c_Labels (h_cfg h)\<rparr>) raw"
    using assms(1) by (auto simp: fetchTargets_def split: sum.splits)
  obtain t where t: "t \<in> set raw" "set labels \<subseteq> insert (c_Name (h_cfg h)) (set (t_Labels t) \<union> set (c_Labels (h_cfg h)))"
    using assms(2) by (auto simp: hostMatches_def list_ex_iff setCachedTargets_def raw(2) containsAll_iff)
  then have "matchesRequest t (stripHostLabels labels h) []"
    by (auto simp: matchesRequest_def label_match_def stripHostLabels_def list_all_iff)
  then show ?thesis using raw(1) t(1) by blast
qed

theorem routed_labels_match_witness:
  "\<exists>raw t. d_targets fleet_daemon 0 = Inr raw \<and> t \<in> set raw \<and>
     matchesRequest t (stripHostLabels [''a'', ''intel'', ''ios''] (bk_hosts fleet ! 0)) []"
proof -
  define ts where "ts = (case fetchTargets fleet_daemon (bk_hosts fleet ! 0) 0 of Inr ts \<Rightarrow> ts | Inl e \<Rightarrow> [])"
  have "fetchTargets fleet_daemon (bk_hosts fleet ! 0) 0 = Inr ts"
    by (simp add: ts_def fetchTargets_def fleet_daemon_def)
  moreover have "hostMatches (setCachedTargets ts (bk_hosts fleet ! 0)) [''a'', ''intel'', ''ios'']"
    unfolding ts_def by code_simp
  ultimately show ?thesis by (rule routed_labels_match)
qed

text \<open>
  Reconciliation never keeps an abandoned queue slot alive. The broker asks a daemon about a
  queued lease only after the client was silent for the whole abandonment window and two minutes;
  by then the lease manager's own expiry, which opens every \<^verbatim>\<open>Get\<close>, has retired the lease, so the
  query observes a terminal or forgotten lease and does not refresh its deadline.
\<close>

theorem reconcile_never_revives:
  assumes "mgr_inv s" "\<And>n. dom (m_leases s) \<subseteq> set (ord n)"
    and "reconcilable now h e" "e_state e = LeaseQueued"
    and "m_queueDeadline s lid = Some dl" "dl \<le> e_lastPoll e + QueueWaitTTL"
    and "Get ord now lid s = Some out"
  shows "m_queueDeadline (o_state out) lid = None \<and>
    (case o_result out of Inl err \<Rightarrow> err = ErrNotFound | Inr l \<Rightarrow> l_State l \<noteq> LeaseQueued)"
proof -
  have i: "linv False [] s" using assms(1) by (simp add: linv_False)
  obtain t ev where t: "expireLocked ord now s = Some (t, ev)" "linv False [] t" using expireLockedE [OF i] .
  note C = expireLocked_complete [OF i assms(2) t(1), of lid]
  have late: "now > dl" using assms(3,4,6) by (simp add: reconcilable_def queuedReconcileAfter_def)
  then have dl: "m_queueDeadline t lid = None"
    using C(2,4) assms(5) by (auto simp: abandoned_def)
  have "\<not> is_queued l" if "m_leases t lid = Some l" for l
  proof
    assume "is_queued l"
    then have "m_queueDeadline t lid \<noteq> None"
      using mgr_invD(6) [OF invD(1) [OF t(2)]] that unfolding deadlines_ok_def by blast
    then show False using dl by simp
  qed
  then show ?thesis
    using assms(7) t(1) dl by (cases "m_leases t lid") (auto simp: Get_def)
qed

definition queued_mgr :: manager where
  "queued_mgr = fst (enqueue_new 0 (new_lease 0 (newID [1]) (want ''a'' [])) (newManager False))"

lemma queued_mgr_inv: "mgr_inv queued_mgr"
  unfolding queued_mgr_def
  by (intro enqueue_new_inv mgr_inv_newManager) (simp_all add: newID_not_sentinel, simp_all add: newManager_def)

theorem reconcile_never_revives_witness:
  "\<exists>out. Get all_keys (33 * Minute) (newID [1]) queued_mgr = Some out \<and> m_queueDeadline (o_state out) (newID [1]) = None"
proof -
  let ?e = "\<lparr>e_host = 0, e_state = LeaseQueued, e_lastPoll = 0, e_terminalAt = None\<rparr>"
  have d: "dom (m_leases queued_mgr) \<subseteq> set (all_keys n)" for n
    by (simp add: queued_mgr_def enqueue_new_def put_lease_def newManager_def Let_def all_keys_def)
  have r: "reconcilable (33 * Minute) 0 ?e"
    by (simp add: reconcilable_def queuedReconcileAfter_def QueueWaitTTL_def)
  have q: "m_queueDeadline queued_mgr (newID [1]) = Some (30 * Minute)" by code_simp
  have "Get all_keys (33 * Minute) (newID [1]) queued_mgr \<noteq> None" by code_simp
  then obtain out where out: "Get all_keys (33 * Minute) (newID [1]) queued_mgr = Some out" by blast
  from reconcile_never_revives [OF queued_mgr_inv d r _ q _ out] show ?thesis
    using out by (simp add: QueueWaitTTL_def)
qed

section \<open>Advice and configuration\<close>

text \<open>
  Warm-pool advice is sound: it goes to healthy hosts only; a host is told to grow only for a
  class that fell to cold tiers at least three times, in labels its daemon can match (no host-level
  label, never an empty set); and a host is told to shrink only when it is told nothing else, has
  parked simulators, and served no warm placement although the window saw at least three.
\<close>

theorem hints_sound:
  assumes "(hname, cs) \<in> set (computeHints now b)" "c \<in> set cs"
  shows "\<exists>h \<in> set (bk_hosts b). h_up h \<and> c_Name (h_cfg h) = hname \<and>
    (case ca_Action c of
       AdviceGrow \<Rightarrow> 3 \<le> ca_ColdPlacements c \<and> ca_Labels c \<noteq> [] \<and>
         (\<forall>l \<in> set (ca_Labels c). l \<noteq> hname \<and> l \<notin> set (c_Labels (h_cfg h)))
     | AdviceShrink \<Rightarrow> cs = [c] \<and> (\<exists>st. h_stats h = Some st \<and> hs_Parked st > 0) \<and>
         3 \<le> length (placed_decisions now b) \<and> host_warm (placed_decisions now b) hname = 0)"
proof -
  obtain h where h: "h \<in> set (bk_hosts b)" "h_up h" "c_Name (h_cfg h) = hname"
      "cs = host_hints now (bk_demandWindow b) (placed_decisions now b) h"
    using assms(1) by (auto simp: computeHints_def Let_def split: if_splits)
  let ?pds = "placed_decisions now b"
  show ?thesis
  proof (cases "grow_advice ?pds h = [] \<and> shrink_due now (bk_demandWindow b) ?pds h")
    case True
    then have "cs = [c]" "ca_Action c = AdviceShrink" using assms(2) h(4) by (auto simp: host_hints_def)
    then show ?thesis
      using h True by (intro bexI [of _ h]) (auto simp: shrink_due_def shrinkMinDemand_def split: option.splits)
  next
    case False
    then have "c \<in> set (grow_advice ?pds h)" using assms(2) h(4) by (auto simp: host_hints_def Let_def)
    then obtain key where "c = \<lparr>ca_Labels = stripHostLabels (class_labels ?pds key) h, ca_Action = AdviceGrow,
         ca_ColdPlacements = class_cold ?pds key, ca_WarmHits = class_warm ?pds key (c_Name (h_cfg h))\<rparr>"
        "\<not> class_cold ?pds key < growColdThreshold" "stripHostLabels (class_labels ?pds key) h \<noteq> []"
      by (auto simp: grow_advice_def Let_def split: if_splits)
    then show ?thesis
      using h by (intro bexI [of _ h]) (auto simp: growColdThreshold_def stripHostLabels_def)
  qed
qed

definition demanded :: broker where
  "demanded = fst (fst (handleAcquireLease fleet_daemon 8 False (\<lambda>x. x) (want ''c'' [])
     (fst (fst (handleAcquireLease fleet_daemon 7 False (\<lambda>x. x) (want ''b'' []) (fst (fst fleet_acquire)))))))"

theorem hints_sound_witness:
  "\<exists>c cs. (''a'', cs) \<in> set (computeHints 9 demanded) \<and> c \<in> set cs \<and> ca_Labels c = [''ios''] \<and>
     ca_Action c = AdviceGrow \<and> 3 \<le> ca_ColdPlacements c"
proof -
  have "map (\<lambda>(n, cs). (n, map (\<lambda>c. (ca_Labels c, ca_Action c)) cs)) (computeHints 9 demanded) =
      [(''a'', [([''ios''], AdviceGrow)]), (''b'', [([''ios''], AdviceGrow)])]" by code_simp
  then obtain cs rest where cs: "computeHints 9 demanded = (''a'', cs) # rest" "map (\<lambda>c. (ca_Labels c, ca_Action c)) cs = [([''ios''], AdviceGrow)]"
    by auto
  then obtain c where c: "cs = [c]" "ca_Labels c = [''ios'']" "ca_Action c = AdviceGrow" by auto
  have "3 \<le> ca_ColdPlacements c" using hints_sound [of "''a''" cs 9 demanded c] cs(1) c by auto
  then show ?thesis using cs(1) c by (intro exI [of _ c] exI [of _ cs]) simp
qed

lemma validate_from_iff:
  "validate_from names addrs hs = None \<longleftrightarrow> distinct (map c_Name hs) \<and> distinct (map c_Addr hs) \<and>
     set (map c_Name hs) \<inter> names = {} \<and> set (map c_Addr hs) \<inter> addrs = {}"
  by (induction names addrs hs rule: validate_from.induct) auto

text \<open>
  \<^verbatim>\<open>Validate\<close> accepts exactly the configurations with at least one host, no two hosts of the same
  name and none of the same address, which is what host routing by name and the per-host hints rely
  on.
\<close>

theorem validate_iff:
  "Validate hosts = None \<longleftrightarrow> hosts \<noteq> [] \<and> distinct (map c_Name hosts) \<and> distinct (map c_Addr hosts)"
  by (simp add: Validate_def validate_from_iff)

end
