(* ===== verification/Mz_Tree.thy ===== *)
theory Mz_Tree
  imports Complex_Main "HOL-Library.Sublist" Mz_Prelude
begin

text \<open>
  The accessibility tree the actions look at (\<^verbatim>\<open>internal/actions/observe.go\<close>), the decoded JSON
  payloads they read (\<^verbatim>\<open>strField\<close>, \<^verbatim>\<open>enumField\<close>, \<^verbatim>\<open>toNum\<close>, \<^verbatim>\<open>numField\<close>, \<^verbatim>\<open>boolFlag\<close>), frames, the
  depth-first walk, system chrome (\<^verbatim>\<open>chrome.go\<close>) and the tree filter (\<^verbatim>\<open>tree_filter.go\<close>).

  Coordinates are rationals: every finite \<^verbatim>\<open>float64\<close> is one; the rounding of sums and the
  infinities, which no frame of a screen has, are not modelled. A node pointer \<^verbatim>\<open>*Node\<close> is the path
  of child indices from the roots: the tree is decoded from one JSON document, so each node is
  reached in one way and two pointers are equal exactly when their paths are.
\<close>

section \<open>Payloads\<close>

text \<open>
  What \<^verbatim>\<open>encoding/json\<close> decodes into an \<^verbatim>\<open>any\<close>. An object is its list of entries, keys
  distinct, in the order a range over the map visits them.
\<close>

datatype json = JNull | JBool bool | JNum rat | JStr string | JArr "json list" | JObj "(string \<times> json) list"

type_synonym payload = "(string \<times> json) list"

definition strField :: "payload \<Rightarrow> string \<Rightarrow> string" where
  "strField p key = (case map_of p key of Some (JStr s) \<Rightarrow> s | _ \<Rightarrow> [])"

text \<open>\<^verbatim>\<open>enumField\<close>: absent is the empty string, a value that is not a string is an error.\<close>

definition enumField :: "payload \<Rightarrow> string \<Rightarrow> unit + string" where
  "enumField p key = (case map_of p key of None \<Rightarrow> Inr [] | Some (JStr s) \<Rightarrow> Inr s | Some v \<Rightarrow> Inl ())"

definition toNum :: "json \<Rightarrow> rat option" where
  "toNum v = (case v of JNum n \<Rightarrow> Some n | _ \<Rightarrow> None)"

definition numField :: "payload \<Rightarrow> string \<Rightarrow> rat option" where
  "numField p key = (case map_of p key of None \<Rightarrow> None | Some v \<Rightarrow> toNum v)"

definition boolFlag :: "payload \<Rightarrow> string \<Rightarrow> bool \<Rightarrow> bool option" where
  "boolFlag p key dflt = (case map_of p key of None \<Rightarrow> Some dflt | Some (JBool b) \<Rightarrow> Some b | Some v \<Rightarrow> None)"

section \<open>Frames and nodes\<close>

record frame =
  f_X :: rat
  f_Y :: rat
  f_W :: rat
  f_H :: rat

definition Center :: "frame \<Rightarrow> rat \<times> rat" where
  "Center f = (f_X f + f_W f / 2, f_Y f + f_H f / 2)"

record attrs =
  a_Role :: string
  a_Label :: string
  a_Value :: string
  a_Placeholder :: string
  a_Identifier :: string
  a_Frame :: "frame option"
  a_Interactable :: bool
  a_Disabled :: bool

datatype node = Node (n_attrs: attrs) (n_Children: "node list")

abbreviation n_Role :: "node \<Rightarrow> string" where "n_Role n \<equiv> a_Role (n_attrs n)"
abbreviation n_Label :: "node \<Rightarrow> string" where "n_Label n \<equiv> a_Label (n_attrs n)"
abbreviation n_Value :: "node \<Rightarrow> string" where "n_Value n \<equiv> a_Value (n_attrs n)"
abbreviation n_Placeholder :: "node \<Rightarrow> string" where "n_Placeholder n \<equiv> a_Placeholder (n_attrs n)"
abbreviation n_Identifier :: "node \<Rightarrow> string" where "n_Identifier n \<equiv> a_Identifier (n_attrs n)"
abbreviation n_Frame :: "node \<Rightarrow> frame option" where "n_Frame n \<equiv> a_Frame (n_attrs n)"

type_synonym path = "nat list"
type_synonym located = "path \<times> node"

text \<open>The test \<^verbatim>\<open>n.Frame == nil || n.Frame.W <= 0 || n.Frame.H <= 0\<close>, negated.\<close>

definition usable_frame :: "node \<Rightarrow> frame option" where
  "usable_frame n = (case n_Frame n of
      None \<Rightarrow> None
    | Some f \<Rightarrow> if f_W f \<le> 0 \<or> f_H f \<le> 0 then None else Some f)"

text \<open>\<^verbatim>\<open>walkNodes\<close>: every node depth-first, with the path that identifies it.\<close>

fun walk_from :: "path \<Rightarrow> nat \<Rightarrow> node list \<Rightarrow> located list" where
  "walk_from p i [] = []"
| "walk_from p i (Node a cs # ns) =
     (p @ [i], Node a cs) # walk_from (p @ [i]) 0 cs @ walk_from p (Suc i) ns"

definition walkNodes :: "node list \<Rightarrow> located list" where
  "walkNodes nodes = walk_from [] 0 nodes"

definition offFrame :: "frame \<Rightarrow> frame option \<Rightarrow> bool" where
  "offFrame f vp = (case vp of
      None \<Rightarrow> False
    | Some v \<Rightarrow> (case Center f of (cx, cy) \<Rightarrow>
        cx < f_X v \<or> cx \<ge> f_X v + f_W v \<or> cy < f_Y v \<or> cy \<ge> f_Y v + f_H v))"

section \<open>System chrome and the tree filter\<close>

text \<open>\<^verbatim>\<open>chrome.go\<close>: elements the OS draws, recognised by role, identifier and shape.\<close>

definition chromeScrollbarMaxThickness :: rat where "chromeScrollbarMaxThickness = 12"
definition chromeScrollbarMinElongation :: rat where "chromeScrollbarMinElongation = 3"

definition isScrollIndicator :: "node \<Rightarrow> bool" where
  "isScrollIndicator n =
     (if n_Role n \<noteq> ''Slider'' \<and> n_Role n \<noteq> ''ScrollBar'' then False
      else if strings_HasPrefix (ToLower (n_Label n)) ''vertical scroll bar'' \<or>
              strings_HasPrefix (ToLower (n_Label n)) ''horizontal scroll bar'' then True
      else if n_Label n \<noteq> [] \<or> n_Identifier n \<noteq> [] \<or> n_Children n \<noteq> [] then False
      else (case usable_frame n of
              None \<Rightarrow> False
            | Some f \<Rightarrow>
                min (f_W f) (f_H f) \<le> chromeScrollbarMaxThickness \<and>
                max (f_W f) (f_H f) \<ge> chromeScrollbarMinElongation * min (f_W f) (f_H f)))"

definition isChromeContainer :: "node \<Rightarrow> bool" where
  "isChromeContainer n \<longleftrightarrow>
     n_Role n = ''Keyboard'' \<or> n_Role n = ''StatusBar'' \<or>
     n_Identifier n = ''SystemInputAssistantView'' \<or>
     strings_HasPrefix (n_Identifier n) ''UIStatusBar'' \<or> strings_HasPrefix (n_Identifier n) ''StatusBar''"

definition isChromeNode :: "node \<Rightarrow> bool" where
  "isChromeNode n \<longleftrightarrow> isChromeContainer n \<or> isScrollIndicator n \<or> n_Role n = ''Key''"

record treeFilter =
  tf_interactiveOnly :: bool
  tf_roles :: "string list"      \<comment> \<open>the keys of the role set; empty for any role\<close>
  tf_excludeChrome :: bool

definition keep_node :: "treeFilter \<Rightarrow> node \<Rightarrow> bool" where
  "keep_node f n \<longleftrightarrow>
     \<not> (tf_interactiveOnly f \<and> \<not> a_Interactable (n_attrs n)) \<and>
     \<not> (tf_roles f \<noteq> [] \<and> n_Role n \<notin> set (tf_roles f))"

fun filterNodes :: "treeFilter \<Rightarrow> node list \<Rightarrow> node list" where
  "filterNodes f [] = []"
| "filterNodes f (Node a cs # ns) =
     (if tf_excludeChrome f \<and> isChromeNode (Node a cs) then filterNodes f ns
      else if \<not> keep_node f (Node a cs) \<and> filterNodes f cs = [] then filterNodes f ns
      else Node a (filterNodes f cs) # filterNodes f ns)"

datatype tree_error = NotBoolean string | RolesNotArray | RoleNotString

definition bool_field :: "payload \<Rightarrow> string \<Rightarrow> tree_error + bool" where
  "bool_field p key = (case boolFlag p key False of None \<Rightarrow> Inl (NotBoolean key) | Some b \<Rightarrow> Inr b)"

definition roles_field :: "payload \<Rightarrow> tree_error + string list" where
  "roles_field p =
     (case map_of p ''roles'' of
        None \<Rightarrow> Inr []
      | Some (JArr vs) \<Rightarrow>
          if vs = [] then Inl RolesNotArray
          else if list_ex (\<lambda>v. case v of JStr s \<Rightarrow> s = [] | _ \<Rightarrow> True) vs then Inl RoleNotString
          else Inr (map (\<lambda>v. case v of JStr s \<Rightarrow> s | _ \<Rightarrow> []) vs)
      | Some v \<Rightarrow> Inl RolesNotArray)"

definition treeFilterFromPayload :: "payload \<Rightarrow> tree_error + treeFilter" where
  "treeFilterFromPayload p =
     bindE (bool_field p ''interactive_only'') (\<lambda>io.
     bindE (bool_field p ''exclude_system_chrome'') (\<lambda>ec.
     bindE (roles_field p) (\<lambda>rs.
     Inr \<lparr>tf_interactiveOnly = io, tf_roles = rs, tf_excludeChrome = ec\<rparr>)))"

definition countNodes :: "node list \<Rightarrow> nat" where
  "countNodes nodes = length (walkNodes nodes)"

section \<open>Where a node sits\<close>

text \<open>\<^verbatim>\<open>parentMap\<close>: child to parent, for the children below one node.\<close>

fun parent_pairs :: "located \<Rightarrow> nat \<Rightarrow> node list \<Rightarrow> (path \<times> located) list" where
  "parent_pairs par i [] = []"
| "parent_pairs par i (Node a cs # ns) =
     (fst par @ [i], par) # parent_pairs (fst par @ [i], Node a cs) 0 cs @ parent_pairs par (Suc i) ns"

fun parents_from :: "nat \<Rightarrow> node list \<Rightarrow> (path \<times> located) list" where
  "parents_from i [] = []"
| "parents_from i (n # ns) = parent_pairs ([i], n) 0 (n_Children n) @ parents_from (Suc i) ns"

definition parentMap :: "node list \<Rightarrow> path \<rightharpoonup> located" where
  "parentMap nodes = map_of (rev (parents_from 0 nodes))"

text \<open>\<^verbatim>\<open>containsAny\<close>: some strict descendant of the node at \<open>p\<close> is in the set.\<close>

fun contains_in :: "path set \<Rightarrow> path \<Rightarrow> nat \<Rightarrow> node list \<Rightarrow> bool" where
  "contains_in S p i [] = False"
| "contains_in S p i (Node a cs # ns) =
     (p @ [i] \<in> S \<or> contains_in S (p @ [i]) 0 cs \<or> contains_in S p (Suc i) ns)"

definition containsAny :: "path set \<Rightarrow> located \<Rightarrow> bool" where
  "containsAny S n = contains_in S (fst n) 0 (n_Children (snd n))"

lemma walk_from_path: "(q, n) \<in> set (walk_from p i ns) \<Longrightarrow> \<exists>j r. i \<le> j \<and> q = p @ j # r"
proof (induction p i ns arbitrary: q n rule: walk_from.induct)
  case (2 p i a cs ns)
  then consider "(q, n) = (p @ [i], Node a cs)" | "(q, n) \<in> set (walk_from (p @ [i]) 0 cs)"
    | "(q, n) \<in> set (walk_from p (Suc i) ns)" by auto
  then show ?case
  proof cases
    case 2
    then obtain j r where "q = (p @ [i]) @ j # r" using "2.IH"(1) by blast
    then show ?thesis by auto
  next
    case 3
    then obtain j r where "Suc i \<le> j" "q = p @ j # r" using "2.IH"(2) by blast
    then show ?thesis by (metis Suc_leD)
  qed auto
qed simp

lemma walk_from_distinct: "distinct (map fst (walk_from p i ns))"
proof (induction p i ns rule: walk_from.induct)
  case (2 p i a cs ns)
  have "p @ [i] \<notin> set (map fst (walk_from (p @ [i]) 0 cs))"
    using walk_from_path [of _ _ "p @ [i]" 0 cs] by fastforce
  moreover have "p @ [i] \<notin> set (map fst (walk_from p (Suc i) ns))"
    using walk_from_path [of _ _ p "Suc i" ns] by fastforce
  moreover have "set (map fst (walk_from (p @ [i]) 0 cs)) \<inter> set (map fst (walk_from p (Suc i) ns)) = {}"
    using walk_from_path [of _ _ "p @ [i]" 0 cs] walk_from_path [of _ _ p "Suc i" ns] by fastforce
  ultimately show ?case using 2 by simp
qed simp

lemma walkNodes_distinct: "distinct (map fst (walkNodes nodes))"
  unfolding walkNodes_def by (rule walk_from_distinct)

lemma walkNodes_fun: "(q, n) \<in> set (walkNodes nodes) \<Longrightarrow> (q, m) \<in> set (walkNodes nodes) \<Longrightarrow> n = m"
  using walkNodes_distinct [of nodes] by (metis eq_key_imp_eq_value)

lemma contains_in_iff:
  "contains_in S p i ns \<longleftrightarrow> (\<exists>q n. (q, n) \<in> set (walk_from p i ns) \<and> q \<in> S)"
  by (induction S p i ns rule: contains_in.induct) auto

text \<open>The walk of a subtree is the part of the walk below its path.\<close>

lemma walk_from_sub:
  assumes "(q, n) \<in> set (walk_from p i ns)"
  shows "(q', m) \<in> set (walk_from q 0 (n_Children n)) \<longleftrightarrow>
     (q', m) \<in> set (walk_from p i ns) \<and> strict_prefix q q'"
  using assms
proof (induction p i ns arbitrary: q n rule: walk_from.induct)
  case (2 p i a cs ns)
  let ?here = "set (walk_from (p @ [i]) 0 cs)" and ?rest = "set (walk_from p (Suc i) ns)"
  have here: "\<exists>j r. x = p @ i # j # r" if "(x, y) \<in> ?here" for x y
    using walk_from_path [OF that] by auto
  have rest: "\<exists>j r. i < j \<and> x = p @ j # r" if "(x, y) \<in> ?rest" for x y
    using walk_from_path [OF that] by (auto simp: Suc_le_eq)
  consider "(q, n) = (p @ [i], Node a cs)" | "(q, n) \<in> ?here" | "(q, n) \<in> ?rest" using "2.prems" by auto
  then show ?case
  proof cases
    case 1
    then show ?thesis using here rest by (fastforce simp: strict_prefix_def prefix_def)
  next
    case q: 2
    then obtain j r where "q = p @ i # j # r" using here by blast
    then have "\<not> strict_prefix q (p @ [i])" "(q', m) \<in> ?rest \<Longrightarrow> \<not> strict_prefix q q'"
      using rest by (fastforce simp: strict_prefix_def prefix_def)+
    then show ?thesis using "2.IH"(1) [OF q] by auto
  next
    case q: 3
    then obtain j r where "i < j" "q = p @ j # r" using rest by blast
    then have "\<not> strict_prefix q (p @ [i])" "(q', m) \<in> ?here \<Longrightarrow> \<not> strict_prefix q q'"
      using here by (fastforce simp: strict_prefix_def prefix_def)+
    then show ?thesis using "2.IH"(2) [OF q] by auto
  qed
qed simp

text \<open>\<^verbatim>\<open>containsAny\<close> looks at exactly the nodes strictly below.\<close>

lemma containsAny_iff:
  assumes "n \<in> set (walkNodes nodes)"
  shows "containsAny S n \<longleftrightarrow> (\<exists>m \<in> set (walkNodes nodes). fst m \<in> S \<and> strict_prefix (fst n) (fst m))"
proof -
  obtain q x where n: "n = (q, x)" by (cases n)
  show ?thesis
    using walk_from_sub [of q x "[]" 0 nodes] assms
    unfolding n containsAny_def contains_in_iff walkNodes_def by force
qed

text \<open>\<^verbatim>\<open>parentMap\<close> maps a path to the node one index shorter.\<close>

lemma parent_pairs_iff:
  "(q, par') \<in> set (parent_pairs par i ns) \<longleftrightarrow>
     q \<in> fst ` set (walk_from (fst par) i ns) \<and> fst par' = butlast q \<and>
     par' \<in> insert par (set (walk_from (fst par) i ns))"
proof (induction par i ns arbitrary: q par' rule: parent_pairs.induct)
  case (2 par i a cs ns)
  let ?p = "fst par" and ?x = "(fst par @ [i], Node a cs)"
  let ?here = "set (walk_from (?p @ [i]) 0 cs)" and ?rest = "set (walk_from ?p (Suc i) ns)"
  have here: "\<exists>j r. fst x = ?p @ i # j # r" if "x \<in> ?here" for x
    using walk_from_path [of "fst x" "snd x" "?p @ [i]" 0 cs] that by auto
  have rest: "\<exists>j r. i < j \<and> fst x = ?p @ j # r" if "x \<in> ?rest" for x
    using walk_from_path [of "fst x" "snd x" ?p "Suc i" ns] that by (auto simp: Suc_le_eq)
  have 1: "fst par' = ?p \<and> par' \<in> insert par (insert ?x (?here \<union> ?rest)) \<longleftrightarrow> par' = par"
    using here [of par'] rest [of par'] by auto
  have 2: "fst par' = butlast q \<and> par' \<in> insert par (insert ?x (?here \<union> ?rest)) \<longleftrightarrow>
      fst par' = butlast q \<and> par' \<in> insert ?x ?here" if q: "q \<in> fst ` ?here"
  proof -
    obtain j r where "q = ?p @ i # j # r" using q here by force
    then have "butlast q = ?p @ i # butlast (j # r)" by (simp add: butlast_append)
    then have "fst par' = butlast q \<Longrightarrow> par' \<noteq> par \<and> par' \<notin> ?rest" using rest [of par'] by auto
    then show ?thesis by blast
  qed
  have 3: "fst par' = butlast q \<and> par' \<in> insert par (insert ?x (?here \<union> ?rest)) \<longleftrightarrow>
      fst par' = butlast q \<and> par' \<in> insert par ?rest" if q: "q \<in> fst ` ?rest"
  proof -
    obtain j r where "i < j" "q = ?p @ j # r" using q rest by force
    then have "butlast q = ?p \<or> (\<exists>r'. butlast q = ?p @ j # r')" by (cases r) (auto simp: butlast_append)
    then have "fst par' = butlast q \<Longrightarrow> par' \<noteq> ?x \<and> par' \<notin> ?here" using here [of par'] \<open>i < j\<close> by auto
    then show ?thesis by blast
  qed
  have "(q, par') \<in> set (parent_pairs par i (Node a cs # ns)) \<longleftrightarrow>
      (q = ?p @ [i] \<and> par' = par) \<or>
      (q \<in> fst ` ?here \<and> fst par' = butlast q \<and> par' \<in> insert ?x ?here) \<or>
      (q \<in> fst ` ?rest \<and> fst par' = butlast q \<and> par' \<in> insert par ?rest)"
    using "2.IH" by auto
  also have "\<dots> \<longleftrightarrow> q \<in> insert (?p @ [i]) (fst ` ?here \<union> fst ` ?rest) \<and> fst par' = butlast q \<and>
      par' \<in> insert par (insert ?x (?here \<union> ?rest))"
    using 1 2 3 by auto
  finally show ?case by (auto simp: image_Un)
qed simp

lemma parents_from_iff:
  "(q, par) \<in> set (parents_from i ns) \<longleftrightarrow>
     q \<in> fst ` set (walk_from [] i ns) \<and> par \<in> set (walk_from [] i ns) \<and> fst par = butlast q"
proof (induction i ns rule: parents_from.induct)
  case (2 i n ns)
  obtain a cs where n: "n = Node a cs" by (cases n)
  let ?here = "set (walk_from [i] 0 cs)" and ?rest = "set (walk_from [] (Suc i) ns)"
  have here: "\<exists>j r. fst x = i # j # r" if "x \<in> ?here" for x
    using walk_from_path [of "fst x" "snd x" "[i]" 0 cs] that by auto
  have rest: "\<exists>j r. i < j \<and> fst x = j # r" if "x \<in> ?rest" for x
    using walk_from_path [of "fst x" "snd x" "[]" "Suc i" ns] that by (auto simp: Suc_le_eq)
  have split: "par \<in> insert ([i], n) ?here \<longleftrightarrow> par \<in> insert ([i], n) (?here \<union> ?rest)"
      if q: "q \<in> fst ` ?here" and b: "fst par = butlast q"
  proof -
    obtain j r where "q = i # j # r" using q here by force
    then have "butlast q = i # butlast (j # r)" by simp
    then have "par \<notin> ?rest" using rest [of par] b by auto
    then show ?thesis by blast
  qed
  have split': "par \<in> ?rest \<longleftrightarrow> par \<in> insert ([i], n) (?here \<union> ?rest)"
      if q: "q \<in> fst ` ?rest" and b: "fst par = butlast q"
  proof -
    obtain j r where "i < j" "q = j # r" using q rest by force
    then have "butlast q = [] \<or> (\<exists>r'. butlast q = j # r')" by (cases r) auto
    then have "par \<noteq> ([i], n) \<and> par \<notin> ?here" using here [of par] \<open>i < j\<close> b by auto
    then show ?thesis by blast
  qed
  have "(q, par) \<in> set (parents_from i (n # ns)) \<longleftrightarrow>
      (q \<in> fst ` ?here \<and> fst par = butlast q \<and> par \<in> insert ([i], n) ?here) \<or>
      (q \<in> fst ` ?rest \<and> fst par = butlast q \<and> par \<in> ?rest)"
    using 2 by (auto simp: n parent_pairs_iff)
  also have "\<dots> \<longleftrightarrow> q \<in> insert [i] (fst ` ?here \<union> fst ` ?rest) \<and>
      par \<in> insert ([i], n) (?here \<union> ?rest) \<and> fst par = butlast q"
    using split split' here [of par] rest [of par] by auto
  finally show ?case by (auto simp: n image_Un)
qed simp

lemma parentMap_iff:
  "parentMap nodes q = Some par \<longleftrightarrow>
     q \<in> fst ` set (walkNodes nodes) \<and> par \<in> set (walkNodes nodes) \<and> fst par = butlast q"
proof -
  let ?ps = "rev (parents_from 0 nodes)"
  have mem: "(q, x) \<in> set ?ps \<longleftrightarrow>
      q \<in> fst ` set (walkNodes nodes) \<and> x \<in> set (walkNodes nodes) \<and> fst x = butlast q" for x
    by (simp add: parents_from_iff walkNodes_def)
  show ?thesis
  proof
    assume "parentMap nodes q = Some par"
    then have "(q, par) \<in> set ?ps" unfolding parentMap_def by (rule map_of_SomeD)
    then show "q \<in> fst ` set (walkNodes nodes) \<and> par \<in> set (walkNodes nodes) \<and> fst par = butlast q"
      using mem by blast
  next
    assume r: "q \<in> fst ` set (walkNodes nodes) \<and> par \<in> set (walkNodes nodes) \<and> fst par = butlast q"
    then have "(q, par) \<in> set ?ps" using mem by blast
    then obtain x where x: "map_of ?ps q = Some x" by (metis map_of_eq_None_iff fst_conv imageI not_None_eq)
    then have "(q, x) \<in> set ?ps" by (rule map_of_SomeD)
    then have "x = par" using mem [of x] r walkNodes_fun [of "fst x" "snd x" nodes "snd par"]
      by (metis prod.collapse)
    then show "parentMap nodes q = Some par" using x by (simp add: parentMap_def)
  qed
qed

end
