(* ===== verification/Mz_Predicate.thy ===== *)
theory Mz_Predicate
  imports Mz_Tree
begin

text \<open>
  How an action names an element: the structured predicate language
  (\<^verbatim>\<open>internal/actions/predicate_dsl.go\<close>), the flat matcher with its best-match ranking
  (\<^verbatim>\<open>predicate.go\<close>), the choice between the two (\<^verbatim>\<open>matcher.go\<close>) and the off-screen candidates a
  failed match reports (\<^verbatim>\<open>offscreen.go\<close>).

  \<^verbatim>\<open>regexp.Compile\<close> and \<^verbatim>\<open>MatchString\<close> are one parameter: a pattern compiles to a test on strings or
  not at all. \<^verbatim>\<open>int(n)\<close> on a \<^verbatim>\<open>float64\<close> beyond the range of \<^verbatim>\<open>int\<close> is implementation-defined in Go:
  what it gives there is a parameter too, and may be negative. An index out of range panics; the
  panic is a value of the error type.
\<close>

section \<open>The predicate language\<close>

definition dslMaxDepth :: nat where "dslMaxDepth = 4"
definition dslMaxRegexLen :: nat where "dslMaxRegexLen = 512"
definition dslCandidateCap :: nat where "dslCandidateCap = 8"

definition boundsHints :: "string list" where
  "boundsHints = [''top_half'', ''bottom_half'', ''left_half'', ''right_half'', ''center'']"

definition nearDirections :: "(string \<times> string) list" where
  "nearDirections = [(''left'', ''left''), (''right'', ''right''), (''above'', ''above''), (''below'', ''below''),
     (''up'', ''above''), (''down'', ''below'')]"

definition dslPredicateKeys :: "string list" where
  "dslPredicateKeys = [''text'', ''text_contains'', ''text_regex'', ''type'', ''accessibility_id'', ''index'',
     ''bounds_hint'', ''near'', ''parent_of'']"

text \<open>The fields of \<^verbatim>\<open>dslPredicate\<close> that are not predicates themselves.\<close>

record dsl_fields =
  d_Text :: string
  d_TextContains :: string
  d_TextRegexSrc :: string
  d_Type :: string
  d_AccessibilityID :: string
  d_Index :: "int option"
  d_BoundsHint :: string

datatype dslPredicate = Dsl (d_fields: dsl_fields) (d_Near: "nearSpec option") (d_ParentOf: "dslPredicate option")
  and nearSpec = Near (nr_Predicate: dslPredicate) (nr_Direction: string) (nr_MaxDistance: rat)

datatype pred_error =
    NestingLimit | UnknownField string | NotAString string | TextFormsExclusive | RegexTooLong | RegexInvalid
  | BadIndex | BadHint | NearNotObject | ParentNotObject | NoSelector
  | UnknownNearField string | NearPredicateNotObject | BadDirection | BadDistance
  | BadMatch | NoFlatField | InFrameNotObject | InFrameNotNumber string | InFrameEmpty
  | FormsCombined string | PredicateNotObject
  | NoElement                          \<comment> \<open>\<^verbatim>\<open>errNoMatch\<close>\<close>
  | AmbiguousMatch "located list"      \<comment> \<open>\<^verbatim>\<open>ambiguousMatch\<close>, with the candidates it lists\<close>
  | IndexPanic                         \<comment> \<open>index out of range\<close>

type_synonym regexps = "string \<Rightarrow> (string \<Rightarrow> bool) option"

text \<open>\<^verbatim>\<open>int(n)\<close> for \<^verbatim>\<open>n float64\<close>: truncation in the range of a 64-bit \<^verbatim>\<open>int\<close>, \<open>cv n\<close> beyond.\<close>

definition go_int :: "(rat \<Rightarrow> int) \<Rightarrow> rat \<Rightarrow> int" where
  "go_int cv n = (if - (2 ^ 63) \<le> n \<and> n < 2 ^ 63 then (if n < 0 then \<lceil>n\<rceil> else \<lfloor>n\<rfloor>) else cv n)"

section \<open>Parsing a predicate\<close>

definition is_string :: "json \<Rightarrow> bool" where
  "is_string v = (case v of JStr s \<Rightarrow> True | _ \<Rightarrow> False)"

definition bad_string :: "payload \<Rightarrow> string option" where
  "bad_string m = find (\<lambda>k. case map_of m k of None \<Rightarrow> False | Some v \<Rightarrow> \<not> is_string v)
     [''text'', ''text_contains'', ''text_regex'', ''type'', ''accessibility_id'', ''bounds_hint'']"

definition textForms :: "payload \<Rightarrow> nat" where
  "textForms m = length (filter (\<lambda>v. v \<noteq> [])
     [strField m ''text'', strField m ''text_contains'', strField m ''text_regex''])"

definition parse_regex :: "regexps \<Rightarrow> payload \<Rightarrow> pred_error + unit" where
  "parse_regex re m =
     (let src = strField m ''text_regex'' in
      if src = [] then Inr ()
      else if length src > dslMaxRegexLen then Inl RegexTooLong
      else if re src = None then Inl RegexInvalid else Inr ())"

definition parse_index :: "(rat \<Rightarrow> int) \<Rightarrow> payload \<Rightarrow> pred_error + int option" where
  "parse_index cv m =
     (case map_of m ''index'' of
        None \<Rightarrow> Inr None
      | Some v \<Rightarrow>
          (case toNum v of
             None \<Rightarrow> Inl BadIndex
           | Some n \<Rightarrow> if n < 0 \<or> n \<noteq> of_int \<lfloor>n\<rfloor> then Inl BadIndex else Inr (Some (go_int cv n))))"

definition parse_hint :: "payload \<Rightarrow> pred_error + string" where
  "parse_hint m =
     (let hint = strField m ''bounds_hint'' in
      if hint \<noteq> [] \<and> hint \<notin> set boundsHints then Inl BadHint else Inr hint)"

text \<open>\<^verbatim>\<open>dslFromMap\<close> up to the nested predicates.\<close>

definition parse_fields :: "regexps \<Rightarrow> (rat \<Rightarrow> int) \<Rightarrow> payload \<Rightarrow> pred_error + dsl_fields" where
  "parse_fields re cv m =
     (case find (\<lambda>k. k \<notin> set dslPredicateKeys) (map fst m) of
        Some k \<Rightarrow> Inl (UnknownField k)
      | None \<Rightarrow>
          (case bad_string m of
             Some k \<Rightarrow> Inl (NotAString k)
           | None \<Rightarrow>
               if textForms m > 1 then Inl TextFormsExclusive
               else
                 bindE (parse_regex re m) (\<lambda>_.
                 bindE (parse_index cv m) (\<lambda>i.
                 bindE (parse_hint m) (\<lambda>hint.
                 Inr \<lparr>d_Text = strField m ''text'', d_TextContains = strField m ''text_contains'',
                      d_TextRegexSrc = strField m ''text_regex'', d_Type = strField m ''type'',
                      d_AccessibilityID = strField m ''accessibility_id'', d_Index = i,
                      d_BoundsHint = hint\<rparr>)))))"

definition constrained :: "dsl_fields \<Rightarrow> bool" where
  "constrained f \<longleftrightarrow> d_Text f \<noteq> [] \<or> d_TextContains f \<noteq> [] \<or> d_TextRegexSrc f \<noteq> [] \<or> d_Type f \<noteq> [] \<or>
     d_AccessibilityID f \<noteq> [] \<or> d_BoundsHint f \<noteq> []"

definition hasSelector :: "dslPredicate \<Rightarrow> bool" where
  "hasSelector d \<longleftrightarrow> constrained (d_fields d) \<or> d_Near d \<noteq> None \<or> d_ParentOf d \<noteq> None"

definition near_keys :: "string list" where "near_keys = [''predicate'', ''direction'', ''max_distance'']"

definition parse_direction :: "payload \<Rightarrow> pred_error + string" where
  "parse_direction m =
     (case enumField m ''direction'' of
        Inl e \<Rightarrow> Inl BadDirection
      | Inr dir \<Rightarrow> (case map_of nearDirections dir of None \<Rightarrow> Inl BadDirection | Some dn \<Rightarrow> Inr dn))"

definition parse_distance :: "payload \<Rightarrow> pred_error + rat" where
  "parse_distance m =
     (case map_of m ''max_distance'' of
        None \<Rightarrow> Inr 0
      | Some v \<Rightarrow> (case toNum v of None \<Rightarrow> Inl BadDistance | Some n \<Rightarrow> if n \<le> 0 then Inl BadDistance else Inr n))"

text \<open>The end of \<^verbatim>\<open>dslFromMap\<close>: the outcomes of the nested predicates in order, then the selector check.\<close>

definition finish_dsl ::
  "dsl_fields \<Rightarrow> pred_error + nearSpec option \<Rightarrow> pred_error + dslPredicate option \<Rightarrow> pred_error + dslPredicate"
where
  "finish_dsl f near par =
     bindE near (\<lambda>n. bindE par (\<lambda>q.
       let d = Dsl f n q in if \<not> hasSelector d then Inl NoSelector else Inr d))"

text \<open>
  The nesting bound is what makes the recursion end: every level of \<^verbatim>\<open>near\<close> or \<^verbatim>\<open>parent_of\<close> spends
  one of the \<^const>\<open>dslMaxDepth\<close> levels.
\<close>

function dslFromMap :: "regexps \<Rightarrow> (rat \<Rightarrow> int) \<Rightarrow> payload \<Rightarrow> nat \<Rightarrow> pred_error + dslPredicate"
  and nearFromMap :: "regexps \<Rightarrow> (rat \<Rightarrow> int) \<Rightarrow> payload \<Rightarrow> nat \<Rightarrow> pred_error + nearSpec"
where
  "dslFromMap re cv m depth =
     (if depth \<ge> dslMaxDepth then Inl NestingLimit
      else
        (case parse_fields re cv m of
           Inl e \<Rightarrow> Inl e
         | Inr f \<Rightarrow>
             finish_dsl f
               (case map_of m ''near'' of
                  None \<Rightarrow> Inr None
                | Some (JObj nm) \<Rightarrow> map_sum id Some (nearFromMap re cv nm (depth + 1))
                | Some v \<Rightarrow> Inl NearNotObject)
               (case map_of m ''parent_of'' of
                  None \<Rightarrow> Inr None
                | Some (JObj pm) \<Rightarrow> map_sum id Some (dslFromMap re cv pm (depth + 1))
                | Some v \<Rightarrow> Inl ParentNotObject)))"
| "nearFromMap re cv m depth =
     (case find (\<lambda>k. k \<notin> set near_keys) (map fst m) of
        Some k \<Rightarrow> Inl (UnknownNearField k)
      | None \<Rightarrow>
          (case map_of m ''predicate'' of
             Some (JObj pm) \<Rightarrow>
               bindE (dslFromMap re cv pm depth) (\<lambda>inner.
               bindE (parse_direction m) (\<lambda>dir.
               bindE (parse_distance m) (\<lambda>maxd.
               Inr (Near inner dir maxd))))
           | _ \<Rightarrow> Inl NearPredicateNotObject))"
  by pat_completeness auto
termination
  by (relation "measure (\<lambda>x. case x of
        Inl (re, cv, m, depth) \<Rightarrow> 2 * (dslMaxDepth - depth) + 1
      | Inr (re, cv, m, depth) \<Rightarrow> 2 * (dslMaxDepth - depth) + 2)") auto

declare dslFromMap.simps [simp del] nearFromMap.simps [simp del]

section \<open>Matching\<close>

definition inBoundsRegion :: "rat \<Rightarrow> rat \<Rightarrow> frame \<Rightarrow> string \<Rightarrow> bool" where
  "inBoundsRegion x y r hint =
     (if hint = ''top_half'' then y < f_Y r + f_H r / 2
      else if hint = ''bottom_half'' then y \<ge> f_Y r + f_H r / 2
      else if hint = ''left_half'' then x < f_X r + f_W r / 2
      else if hint = ''right_half'' then x \<ge> f_X r + f_W r / 2
      else if hint = ''center'' then
        x \<ge> f_X r + f_W r / 4 \<and> x < f_X r + 3 * f_W r / 4 \<and> y \<ge> f_Y r + f_H r / 4 \<and> y < f_Y r + 3 * f_H r / 4
      else False)"

definition frame_union :: "frame option \<Rightarrow> frame \<Rightarrow> frame option" where
  "frame_union u f = (case u of
      None \<Rightarrow> Some f
    | Some g \<Rightarrow>
        let x1 = min (f_X g) (f_X f); y1 = min (f_Y g) (f_Y f);
            x2 = max (f_X g + f_W g) (f_X f + f_W f); y2 = max (f_Y g + f_H g) (f_Y f + f_H f)
        in Some \<lparr>f_X = x1, f_Y = y1, f_W = x2 - x1, f_H = y2 - y1\<rparr>)"

definition boundsRegion :: "dsl_fields \<Rightarrow> node list \<Rightarrow> frame option \<Rightarrow> frame option" where
  "boundsRegion d nodes viewport =
     (if d_BoundsHint d = [] then None
      else if viewport \<noteq> None then viewport
      else foldl (\<lambda>u n. case usable_frame (snd n) of None \<Rightarrow> u | Some f \<Rightarrow> frame_union u f) None (walkNodes nodes))"

definition matchesFields :: "regexps \<Rightarrow> dsl_fields \<Rightarrow> frame option \<Rightarrow> node \<Rightarrow> bool" where
  "matchesFields re d region n \<longleftrightarrow>
     \<not> (d_Type d \<noteq> [] \<and> n_Role n \<noteq> d_Type d) \<and>
     \<not> (d_AccessibilityID d \<noteq> [] \<and> n_Identifier n \<noteq> d_AccessibilityID d) \<and>
     \<not> (d_Text d \<noteq> [] \<and> n_Label n \<noteq> d_Text d \<and> n_Value n \<noteq> d_Text d) \<and>
     \<not> (d_TextContains d \<noteq> [] \<and> \<not> strings_Contains (n_Label n) (d_TextContains d) \<and>
        \<not> strings_Contains (n_Value n) (d_TextContains d)) \<and>
     (case (if d_TextRegexSrc d = [] then None else re (d_TextRegexSrc d)) of
        None \<Rightarrow> True | Some rx \<Rightarrow> rx (n_Label n) \<or> rx (n_Value n)) \<and>
     (d_BoundsHint d \<noteq> [] \<longrightarrow>
        (case (region, usable_frame n) of
           (Some r, Some f) \<Rightarrow> (case Center f of (cx, cy) \<Rightarrow> inBoundsRegion cx cy r (d_BoundsHint d))
         | _ \<Rightarrow> False))"

definition spansOverlap :: "rat \<Rightarrow> rat \<Rightarrow> rat \<Rightarrow> rat \<Rightarrow> bool" where
  "spansOverlap p1 l1 p2 l2 \<longleftrightarrow> p1 < p2 + l2 \<and> p2 < p1 + l1"

text \<open>
  One candidate of \<^verbatim>\<open>filterNear\<close>. The comparison of \<^verbatim>\<open>math.Hypot(dx, dy)\<close> with a positive distance is
  made on the squares.
\<close>

definition near_ok :: "located \<Rightarrow> string \<Rightarrow> rat \<Rightarrow> located \<Rightarrow> bool" where
  "near_ok anchor dir maxd c =
     (case (n_Frame (snd anchor), usable_frame (snd c)) of
        (Some a, Some f) \<Rightarrow>
          (case (Center a, Center f) of ((ax, ay), (cx, cy)) \<Rightarrow>
             fst c \<noteq> fst anchor \<and>
             (if dir = ''left'' then cx - ax < 0 \<and> spansOverlap (f_Y f) (f_H f) (f_Y a) (f_H a)
              else if dir = ''right'' then cx - ax > 0 \<and> spansOverlap (f_Y f) (f_H f) (f_Y a) (f_H a)
              else if dir = ''above'' then cy - ay < 0 \<and> spansOverlap (f_X f) (f_W f) (f_X a) (f_W a)
              else if dir = ''below'' then cy - ay > 0 \<and> spansOverlap (f_X f) (f_W f) (f_X a) (f_W a)
              else False) \<and>
             \<not> (maxd > 0 \<and> (cx - ax)\<^sup>2 + (cy - ay)\<^sup>2 > maxd\<^sup>2))
      | _ \<Rightarrow> False)"

definition filterNear :: "located list \<Rightarrow> located \<Rightarrow> string \<Rightarrow> rat \<Rightarrow> located list" where
  "filterNear cands anchor dir maxd = filter (near_ok anchor dir maxd) cands"

text \<open>First occurrences by path: the \<^verbatim>\<open>seen\<close> set of \<^verbatim>\<open>parentsOf\<close>.\<close>

fun first_seen :: "path set \<Rightarrow> located list \<Rightarrow> located list" where
  "first_seen seen [] = []"
| "first_seen seen (n # ns) =
     (if fst n \<in> seen then first_seen seen ns else n # first_seen (insert (fst n) seen) ns)"

definition parentsOf :: "regexps \<Rightarrow> dsl_fields \<Rightarrow> node list \<Rightarrow> located list \<Rightarrow> frame option \<Rightarrow> located list" where
  "parentsOf re d nodes desc region =
     (if desc = [] then []
      else
        let descSet = set (map fst desc) in
        if constrained d
        then first_seen {} (filter (\<lambda>n. matchesFields re d region (snd n) \<and> containsAny descSet n) (walkNodes nodes))
        else first_seen {} (List.map_filter (\<lambda>n. if fst n \<in> descSet then parentMap nodes (fst n) else None)
               (walkNodes nodes)))"

text \<open>\<^verbatim>\<open>resolve\<close> after the candidates are known: the index, or the only candidate.\<close>

definition pick :: "dsl_fields \<Rightarrow> located list \<Rightarrow> pred_error + located" where
  "pick d cands =
     (case d_Index d of
        Some i \<Rightarrow>
          if i \<ge> int (length cands) then Inl NoElement
          else if i < 0 then Inl IndexPanic
          else Inr (cands ! nat i)
      | None \<Rightarrow>
          (case cands of [] \<Rightarrow> Inl NoElement | [n] \<Rightarrow> Inr n | _ \<Rightarrow> Inl (AmbiguousMatch cands)))"

text \<open>The slice of the descendants an indexed \<^verbatim>\<open>parent_of\<close> keeps.\<close>

definition indexed :: "dsl_fields \<Rightarrow> located list \<Rightarrow> pred_error + located list" where
  "indexed d desc =
     (case d_Index d of
        None \<Rightarrow> Inr desc
      | Some i \<Rightarrow>
          if i \<ge> int (length desc) then Inr []
          else if i < 0 then Inl IndexPanic
          else Inr [desc ! nat i])"

definition narrow :: "(located \<times> string \<times> rat) option \<Rightarrow> located list \<Rightarrow> located list" where
  "narrow near cands = (case near of None \<Rightarrow> cands | Some (anchor, dir, maxd) \<Rightarrow> filterNear cands anchor dir maxd)"

text \<open>The candidates of the node itself, given the outcome of its \<^verbatim>\<open>parent_of\<close> and its \<^verbatim>\<open>near\<close> anchor.\<close>

definition own_candidates ::
  "regexps \<Rightarrow> node list \<Rightarrow> frame option \<Rightarrow> dsl_fields \<Rightarrow>
   (pred_error + located list) option \<Rightarrow> pred_error + (located \<times> string \<times> rat) option \<Rightarrow> pred_error + located list"
where
  "own_candidates re nodes viewport d desc near =
     (let region = boundsRegion d nodes viewport in
      bindE (case desc of
               None \<Rightarrow> Inr (filter (\<lambda>n. matchesFields re d region (snd n)) (walkNodes nodes))
             | Some ds \<Rightarrow> bindE ds (\<lambda>ds'. Inr (parentsOf re d nodes ds' region))) (\<lambda>cands.
      bindE near (\<lambda>nr. Inr (narrow nr cands))))"

fun candidates :: "regexps \<Rightarrow> node list \<Rightarrow> frame option \<Rightarrow> dslPredicate \<Rightarrow> pred_error + located list" where
  "candidates re nodes viewport (Dsl d near par) =
     own_candidates re nodes viewport d
       (case par of
          None \<Rightarrow> None
        | Some q \<Rightarrow> Some (bindE (candidates re nodes viewport q) (indexed (d_fields q))))
       (case near of
          None \<Rightarrow> Inr None
        | Some (Near q dir maxd) \<Rightarrow>
            bindE (bindE (candidates re nodes viewport q) (pick (d_fields q))) (\<lambda>anchor.
            Inr (Some (anchor, dir, maxd))))"

declare candidates.simps [simp del]

definition resolve :: "regexps \<Rightarrow> node list \<Rightarrow> frame option \<Rightarrow> dslPredicate \<Rightarrow> pred_error + located" where
  "resolve re nodes viewport d = bindE (candidates re nodes viewport d) (pick (d_fields d))"

section \<open>The flat matcher\<close>

record predicate =
  p_Label :: string
  p_Role :: string
  p_Value :: string
  p_ID :: string
  p_Placeholder :: string
  p_Exact :: bool
  p_InFrame :: "frame option"

definition in_frame_field :: "payload \<Rightarrow> pred_error + frame option" where
  "in_frame_field p =
     (case map_of p ''in_frame'' of
        None \<Rightarrow> Inr None
      | Some (JObj m) \<Rightarrow>
          (case find (\<lambda>k. numField m k = None) [''x'', ''y'', ''w'', ''h''] of
             Some k \<Rightarrow> Inl (InFrameNotNumber k)
           | None \<Rightarrow>
               let f = \<lparr>f_X = the (numField m ''x''), f_Y = the (numField m ''y''),
                        f_W = the (numField m ''w''), f_H = the (numField m ''h'')\<rparr>
               in if f_W f \<le> 0 \<or> f_H f \<le> 0 then Inl InFrameEmpty else Inr (Some f))
      | Some v \<Rightarrow> Inl InFrameNotObject)"

definition exact_field :: "payload \<Rightarrow> pred_error + bool" where
  "exact_field p =
     (let ex = (map_of p ''exact'' = Some (JBool True)) in
      case enumField p ''match'' of
        Inl e \<Rightarrow> Inl BadMatch
      | Inr mt \<Rightarrow>
          if mt = [] \<or> mt = ''substring'' then Inr ex
          else if mt = ''exact'' then Inr True
          else Inl BadMatch)"

definition predicateFromPayload :: "payload \<Rightarrow> pred_error + predicate" where
  "predicateFromPayload p =
     bindE (exact_field p) (\<lambda>ex.
     bindE (guardE (strField p ''label'' \<noteq> [] \<or> strField p ''role'' \<noteq> [] \<or> strField p ''value'' \<noteq> [] \<or>
              strField p ''id'' \<noteq> [] \<or> strField p ''placeholder'' \<noteq> []) NoFlatField) (\<lambda>_.
     bindE (in_frame_field p) (\<lambda>fr.
     Inr \<lparr>p_Label = strField p ''label'', p_Role = strField p ''role'', p_Value = strField p ''value'',
          p_ID = strField p ''id'', p_Placeholder = strField p ''placeholder'', p_Exact = ex, p_InFrame = fr\<rparr>)))"

definition matchText :: "string \<Rightarrow> string \<Rightarrow> bool \<Rightarrow> bool" where
  "matchText have' want exact =
     (if want = [] then True else if exact then have' = want else strings_Contains have' want)"

definition pred_matches :: "predicate \<Rightarrow> node \<Rightarrow> bool" where
  "pred_matches pr n \<longleftrightarrow>
     \<not> (p_Role pr \<noteq> [] \<and> n_Role n \<noteq> p_Role pr) \<and>
     \<not> (p_ID pr \<noteq> [] \<and> n_Identifier n \<noteq> p_ID pr) \<and>
     matchText (n_Label n) (p_Label pr) (p_Exact pr) \<and> matchText (n_Value n) (p_Value pr) (p_Exact pr) \<and>
     \<not> (p_Placeholder pr \<noteq> [] \<and> \<not> matchText (n_Placeholder n) (p_Placeholder pr) (p_Exact pr) \<and>
        \<not> matchText (n_Value n) (p_Placeholder pr) (p_Exact pr)) \<and>
     (case p_InFrame pr of
        None \<Rightarrow> True
      | Some g \<Rightarrow>
          (case n_Frame n of
             None \<Rightarrow> False
           | Some f \<Rightarrow> (case Center f of (cx, cy) \<Rightarrow>
               \<not> (cx < f_X g \<or> cx > f_X g + f_W g \<or> cy < f_Y g \<or> cy > f_Y g + f_H g))))"

text \<open>\<^verbatim>\<open>find\<close>: the first match, depth first.\<close>

fun find_from :: "predicate \<Rightarrow> path \<Rightarrow> nat \<Rightarrow> node list \<Rightarrow> located option" where
  "find_from pr p i [] = None"
| "find_from pr p i (Node a cs # ns) =
     (if pred_matches pr (Node a cs) then Some (p @ [i], Node a cs)
      else (case find_from pr (p @ [i]) 0 cs of
              Some hit \<Rightarrow> Some hit
            | None \<Rightarrow> find_from pr p (Suc i) ns))"

definition MaxFloat64 :: rat where "MaxFloat64 = (2 ^ 53 - 1) * 2 ^ 971"

record matchRank =
  k_untappable :: nat
  k_offscreen :: nat
  k_exact :: nat
  k_inter :: nat
  k_area :: rat
  k_order :: nat

definition rank_less :: "matchRank \<Rightarrow> matchRank \<Rightarrow> bool" where
  "rank_less r o' =
     (if k_untappable r \<noteq> k_untappable o' then k_untappable r < k_untappable o'
      else if k_offscreen r \<noteq> k_offscreen o' then k_offscreen r < k_offscreen o'
      else if k_exact r \<noteq> k_exact o' then k_exact r < k_exact o'
      else if k_inter r \<noteq> k_inter o' then k_inter r < k_inter o'
      else if k_area r \<noteq> k_area o' then k_area r < k_area o'
      else k_order r < k_order o')"

definition exactHit :: "predicate \<Rightarrow> node \<Rightarrow> bool" where
  "exactHit pr n \<longleftrightarrow>
     \<not> (p_Label pr \<noteq> [] \<and> n_Label n \<noteq> p_Label pr) \<and>
     \<not> (p_Value pr \<noteq> [] \<and> n_Value n \<noteq> p_Value pr) \<and>
     \<not> (p_Placeholder pr \<noteq> [] \<and> n_Placeholder n \<noteq> p_Placeholder pr \<and> n_Value n \<noteq> p_Placeholder pr)"

definition rank :: "predicate \<Rightarrow> frame option \<Rightarrow> nat \<Rightarrow> node \<Rightarrow> matchRank" where
  "rank pr viewport order n =
     \<lparr>k_untappable = (if usable_frame n = None then 1 else 0),
      k_offscreen = (case usable_frame n of Some f \<Rightarrow> if offFrame f viewport then 1 else 0 | None \<Rightarrow> 0),
      k_exact = (if exactHit pr n then 0 else 1),
      k_inter = (if a_Interactable (n_attrs n) then 0 else 1),
      k_area = (case usable_frame n of Some f \<Rightarrow> f_W f * f_H f | None \<Rightarrow> MaxFloat64),
      k_order = order\<rparr>"

text \<open>The walk of \<^verbatim>\<open>findBest\<close>: the best match so far with its rank, and the number of matches seen.\<close>

type_synonym best = "(located \<times> matchRank) option \<times> nat"

definition consider_best :: "predicate \<Rightarrow> frame option \<Rightarrow> located \<Rightarrow> best \<Rightarrow> best" where
  "consider_best pr viewport n b =
     (case b of (cur, order) \<Rightarrow>
        if pred_matches pr (snd n) then
          let r = rank pr viewport order (snd n) in
          ((case cur of
              None \<Rightarrow> Some (n, r)
            | Some (m, br) \<Rightarrow> if rank_less r br then Some (n, r) else Some (m, br)), order + 1)
        else (cur, order))"

fun best_walk :: "predicate \<Rightarrow> frame option \<Rightarrow> path \<Rightarrow> nat \<Rightarrow> node list \<Rightarrow> best \<Rightarrow> best" where
  "best_walk pr viewport p i [] b = b"
| "best_walk pr viewport p i (Node a cs # ns) b =
     best_walk pr viewport p (Suc i) ns
       (best_walk pr viewport (p @ [i]) 0 cs (consider_best pr viewport (p @ [i], Node a cs) b))"

definition findBest :: "predicate \<Rightarrow> node list \<Rightarrow> frame option \<Rightarrow> located option" where
  "findBest pr nodes viewport = map_option fst (fst (best_walk pr viewport [] 0 nodes (None, 0)))"

section \<open>Choosing the matcher\<close>

datatype elementMatcher = Flat predicate | Structured dslPredicate

text \<open>Values of a flat field that clients spell out at their defaults.\<close>

definition no_op :: "json \<Rightarrow> bool" where
  "no_op v = (case v of JNull \<Rightarrow> True | JStr s \<Rightarrow> s = [] | JBool b \<Rightarrow> \<not> b | _ \<Rightarrow> False)"

definition combined_with :: "payload \<Rightarrow> string option" where
  "combined_with p = find (\<lambda>k. case map_of p k of None \<Rightarrow> False | Some v \<Rightarrow> \<not> no_op v)
     [''label'', ''role'', ''value'', ''id'', ''placeholder'', ''exact'', ''match'', ''in_frame'']"

definition matcherFromPayload :: "regexps \<Rightarrow> (rat \<Rightarrow> int) \<Rightarrow> payload \<Rightarrow> pred_error + elementMatcher" where
  "matcherFromPayload re cv p =
     (if map_of p ''predicate'' = None \<or> map_of p ''predicate'' = Some JNull
      then map_sum id Flat (predicateFromPayload p)
      else
        (case combined_with p of
           Some k \<Rightarrow> Inl (FormsCombined k)
         | None \<Rightarrow>
             (case map_of p ''predicate'' of
                Some (JObj m) \<Rightarrow> map_sum id Structured (dslFromMap re cv m 0)
              | _ \<Rightarrow> Inl PredicateNotObject)))"

definition resolveElement :: "regexps \<Rightarrow> elementMatcher \<Rightarrow> node list \<Rightarrow> frame option \<Rightarrow> pred_error + located" where
  "resolveElement re m nodes viewport =
     (case m of
        Flat pr \<Rightarrow> (case findBest pr nodes viewport of Some hit \<Rightarrow> Inr hit | None \<Rightarrow> Inl NoElement)
      | Structured d \<Rightarrow> resolve re nodes viewport d)"

section \<open>Off-screen candidates\<close>

definition flat_offscreen :: "predicate \<Rightarrow> node list \<Rightarrow> frame option \<Rightarrow> located list" where
  "flat_offscreen pr nodes viewport =
     filter (\<lambda>n. pred_matches (pr\<lparr>p_InFrame := None\<rparr>) (snd n) \<and>
         (case usable_frame (snd n) of
            None \<Rightarrow> False
          | Some f \<Rightarrow> offFrame f viewport \<or> p_InFrame pr \<noteq> None \<and> \<not> pred_matches pr (snd n)))
       (walkNodes nodes)"

text \<open>A panic inside \<^verbatim>\<open>candidates\<close> is not an error value: it passes through.\<close>

definition dsl_offscreen :: "regexps \<Rightarrow> dslPredicate \<Rightarrow> node list \<Rightarrow> frame option \<Rightarrow> located list option" where
  "dsl_offscreen re d nodes viewport =
     (let relaxed = Dsl ((d_fields d)\<lparr>d_BoundsHint := []\<rparr>) (d_Near d) (d_ParentOf d) in
      case candidates re nodes viewport relaxed of
        Inl IndexPanic \<Rightarrow> None
      | Inl e \<Rightarrow> Some []
      | Inr cands \<Rightarrow>
          (case candidates re nodes viewport d of
             Inl IndexPanic \<Rightarrow> None
           | strict \<Rightarrow>
               let strictSet = (case strict of Inl e \<Rightarrow> {} | Inr cs \<Rightarrow> set (map fst cs)) in
               Some (filter (\<lambda>n. case usable_frame (snd n) of
                     None \<Rightarrow> False | Some f \<Rightarrow> offFrame f viewport \<or> fst n \<notin> strictSet) cands)))"

definition offDirection :: "frame \<Rightarrow> frame option \<Rightarrow> string" where
  "offDirection f vp = (case vp of
      None \<Rightarrow> []
    | Some v \<Rightarrow> (case Center f of (cx, cy) \<Rightarrow>
        if cy \<ge> f_Y v + f_H v then ''below the viewport''
        else if cy < f_Y v then ''above the viewport''
        else if cx \<ge> f_X v + f_W v then ''right of the viewport''
        else if cx < f_X v then ''left of the viewport''
        else []))"

end
