(* ===== verification/Mz_PredicateProps.thy ===== *)
theory Mz_PredicateProps
  imports Mz_Predicate
begin

text \<open>
  What the predicate language and the flat matcher promise: exactness and strictness of the
  resolution, the type of a parsed predicate and its round trip, the source of index panics, and
  the optimality of the ranked match.
\<close>

section \<open>Candidates\<close>

lemma first_seen_set: "set (first_seen seen ns) \<subseteq> set ns"
  by (induction seen ns rule: first_seen.induct) auto

lemma first_seen_paths: "fst ` set (first_seen seen ns) = fst ` set ns - seen"
  by (induction seen ns rule: first_seen.induct) auto

lemma first_seen_distinct: "distinct (map fst (first_seen seen ns)) \<and> fst ` set (first_seen seen ns) \<inter> seen = {}"
proof (induction seen ns rule: first_seen.induct)
  case (2 seen n ns)
  then show ?case by (auto simp: first_seen_paths)
qed simp

text \<open>On a list where a path determines the node, nothing but repetitions is dropped.\<close>

lemma first_seen_set_eq:
  assumes "\<And>x y. x \<in> set ns \<Longrightarrow> y \<in> set ns \<Longrightarrow> fst x = fst y \<Longrightarrow> x = y"
  shows "set (first_seen {} ns) = set ns"
proof
  show "set ns \<subseteq> set (first_seen {} ns)"
  proof
    fix x assume x: "x \<in> set ns"
    then have "fst x \<in> fst ` set (first_seen {} ns)" by (simp add: first_seen_paths)
    then obtain y where y: "y \<in> set (first_seen {} ns)" "fst x = fst y" by auto
    then have "x = y" using assms x first_seen_set by (metis subsetD)
    then show "x \<in> set (first_seen {} ns)" using y(1) by simp
  qed
qed (rule first_seen_set)

lemma walkNodes_path_eq:
  "x \<in> set (walkNodes nodes) \<Longrightarrow> y \<in> set (walkNodes nodes) \<Longrightarrow> fst x = fst y \<Longrightarrow> x = y"
  by (metis prod.collapse walkNodes_fun)

lemma first_seen_walk:
  assumes "set ns \<subseteq> set (walkNodes nodes)"
  shows "set (first_seen {} ns) = set ns"
proof (rule first_seen_set_eq)
  fix x y assume "x \<in> set ns" "y \<in> set ns" "fst x = fst y"
  then show "x = y" using assms by (intro walkNodes_path_eq) auto
qed

lemma walkNodes_nonempty: "n \<in> set (walkNodes nodes) \<Longrightarrow> fst n \<noteq> []"
  using walk_from_path [of "fst n" "snd n" "[]" 0 nodes] by (auto simp: walkNodes_def)

text \<open>What \<^verbatim>\<open>parent_of\<close> selects, in terms of paths.\<close>

lemma parentsOf_exact:
  assumes "set desc \<subseteq> set (walkNodes nodes)"
  shows "distinct (map fst (parentsOf re d nodes desc region)) \<and>
    set (parentsOf re d nodes desc region) =
      {n \<in> set (walkNodes nodes).
         if constrained d
         then matchesFields re d region (snd n) \<and> (\<exists>m \<in> set desc. strict_prefix (fst n) (fst m))
         else \<exists>m \<in> set desc. fst n = butlast (fst m)}"
    (is "?distinct \<and> ?set")
proof (cases "desc = []")
  case True
  then show ?thesis by (auto simp: parentsOf_def)
next
  case False
  let ?S = "set (map fst desc)"
  have in_desc: "fst m \<in> ?S \<longleftrightarrow> m \<in> set desc" if "m \<in> set (walkNodes nodes)" for m
  proof
    assume "fst m \<in> ?S"
    then obtain x where x: "x \<in> set desc" "fst x = fst m" by auto
    then have "x = m" using that assms by (intro walkNodes_path_eq [of x nodes m]) auto
    then show "m \<in> set desc" using x(1) by simp
  qed simp
  show ?thesis
  proof (cases "constrained d")
    case True
    let ?f = "filter (\<lambda>n. matchesFields re d region (snd n) \<and> containsAny ?S n) (walkNodes nodes)"
    have eq: "parentsOf re d nodes desc region = first_seen {} ?f"
      using False True by (simp add: parentsOf_def Let_def)
    have sub: "set ?f \<subseteq> set (walkNodes nodes)" by auto
    have "set (first_seen {} ?f) = set ?f" by (rule first_seen_walk [OF sub])
    moreover have "containsAny ?S n \<longleftrightarrow> (\<exists>m \<in> set desc. strict_prefix (fst n) (fst m))"
      if "n \<in> set (walkNodes nodes)" for n
    proof -
      have "containsAny ?S n \<longleftrightarrow> (\<exists>m \<in> set (walkNodes nodes). m \<in> set desc \<and> strict_prefix (fst n) (fst m))"
        unfolding containsAny_iff [OF that] using in_desc by blast
      then show ?thesis using assms by blast
    qed
    ultimately show ?thesis using True first_seen_distinct [of "{}" ?f] by (auto simp: eq)
  next
    case nc: False
    let ?g = "\<lambda>n. if fst n \<in> ?S then parentMap nodes (fst n) else None"
    let ?l = "List.map_filter ?g (walkNodes nodes)"
    have eq: "parentsOf re d nodes desc region = first_seen {} ?l"
      using False nc by (simp add: parentsOf_def Let_def)
    have l: "x \<in> set ?l \<longleftrightarrow> (\<exists>m \<in> set desc. x \<in> set (walkNodes nodes) \<and> fst x = butlast (fst m))" for x
    proof -
      have "x \<in> set ?l \<longleftrightarrow> (\<exists>n \<in> set (walkNodes nodes). ?g n = Some x)"
        by (force simp: map_filter_def)
      also have "\<dots> \<longleftrightarrow> (\<exists>n \<in> set desc. parentMap nodes (fst n) = Some x)"
        using in_desc assms by (metis (no_types, lifting) option.distinct(1) subsetD)
      also have "\<dots> \<longleftrightarrow> (\<exists>m \<in> set desc. x \<in> set (walkNodes nodes) \<and> fst x = butlast (fst m))"
        using assms by (auto simp: parentMap_iff)
      finally show ?thesis .
    qed
    have sub: "set ?l \<subseteq> set (walkNodes nodes)" using l by blast
    have "set (first_seen {} ?l) = set ?l" by (rule first_seen_walk [OF sub])
    then show ?thesis using nc l first_seen_distinct [of "{}" ?l] by (auto simp: eq)
  qed
qed

lemma indexed_subset: "indexed d desc = Inr ds \<Longrightarrow> set ds \<subseteq> set desc"
  by (auto simp: indexed_def split: option.splits if_splits)

lemma pick_member: "pick d cs = Inr n \<Longrightarrow> n \<in> set cs"
  by (auto simp: pick_def split: option.splits if_splits list.splits)

lemma parentsOf_walk: "set desc \<subseteq> set (walkNodes nodes) \<Longrightarrow> set (parentsOf re d nodes desc region) \<subseteq> set (walkNodes nodes)"
  using parentsOf_exact by blast

lemma narrow_subset: "set (narrow nr cs) \<subseteq> set cs"
  by (auto simp: narrow_def filterNear_def split: option.split)

text \<open>The equation of \<^const>\<open>candidates\<close> in terms of \<^const>\<open>resolve\<close>.\<close>

lemma candidates_Dsl:
  "candidates re nodes vp (Dsl d near par) =
     bindE (case par of
              None \<Rightarrow> Inr (filter (\<lambda>n. matchesFields re d (boundsRegion d nodes vp) (snd n)) (walkNodes nodes))
            | Some q \<Rightarrow> bindE (bindE (candidates re nodes vp q) (indexed (d_fields q)))
                (\<lambda>ds. Inr (parentsOf re d nodes ds (boundsRegion d nodes vp)))) (\<lambda>cs0.
     bindE (case near of
              None \<Rightarrow> Inr None
            | Some nr \<Rightarrow> bindE (resolve re nodes vp (nr_Predicate nr))
                (\<lambda>a. Inr (Some (a, nr_Direction nr, nr_MaxDistance nr)))) (\<lambda>nr.
     Inr (narrow nr cs0)))"
  by (auto simp: candidates.simps [of re nodes vp] own_candidates_def resolve_def Let_def
      split: option.split nearSpec.split)

lemma candidates_walk: "candidates re nodes vp q = Inr cs \<Longrightarrow> set cs \<subseteq> set (walkNodes nodes)"
proof (induction re nodes vp q arbitrary: cs rule: candidates.induct)
  case (1 re nodes vp d near par)
  obtain cs0 nr where cs: "cs = narrow nr cs0" and cs0:
    "(case par of None \<Rightarrow> Inr (filter (\<lambda>n. matchesFields re d (boundsRegion d nodes vp) (snd n)) (walkNodes nodes))
      | Some q \<Rightarrow> bindE (bindE (candidates re nodes vp q) (indexed (d_fields q)))
          (\<lambda>ds. Inr (parentsOf re d nodes ds (boundsRegion d nodes vp)))) = Inr cs0"
    using "1.prems" by (auto simp only: candidates_Dsl bindE_Inr sum.inject)
  have "set cs0 \<subseteq> set (walkNodes nodes)"
  proof (cases par)
    case None
    then show ?thesis using cs0 by auto
  next
    case (Some q)
    then obtain ds0 ds where "candidates re nodes vp q = Inr ds0" "indexed (d_fields q) ds0 = Inr ds"
        "cs0 = parentsOf re d nodes ds (boundsRegion d nodes vp)"
      using cs0 by (auto simp: bindE_Inr)
    then show ?thesis using "1.IH"(1) [OF Some] indexed_subset parentsOf_walk by (metis subset_trans)
  qed
  then show ?case using narrow_subset cs by blast
qed

text \<open>
  What a predicate asks of a node: its own fields (a pure \<^verbatim>\<open>parent_of\<close> has none), a selected
  descendant for \<^verbatim>\<open>parent_of\<close> (any depth below a constrained predicate, a direct child otherwise),
  and the anchor of \<^verbatim>\<open>near\<close>.
\<close>

definition selected :: "regexps \<Rightarrow> node list \<Rightarrow> frame option \<Rightarrow> dslPredicate \<Rightarrow> located set" where
  "selected re nodes vp q =
     (case bindE (candidates re nodes vp q) (indexed (d_fields q)) of Inl e \<Rightarrow> {} | Inr ds \<Rightarrow> set ds)"

fun meets :: "regexps \<Rightarrow> node list \<Rightarrow> frame option \<Rightarrow> dslPredicate \<Rightarrow> located \<Rightarrow> bool" where
  "meets re nodes vp (Dsl d near par) n \<longleftrightarrow>
     (par = None \<or> constrained d \<longrightarrow> matchesFields re d (boundsRegion d nodes vp) (snd n)) \<and>
     (case par of
        None \<Rightarrow> True
      | Some q \<Rightarrow> \<exists>m \<in> selected re nodes vp q.
          if constrained d then strict_prefix (fst n) (fst m) else fst n = butlast (fst m)) \<and>
     (case near of
        None \<Rightarrow> True
      | Some nr \<Rightarrow> \<exists>a. resolve re nodes vp (nr_Predicate nr) = Inr a \<and>
          near_ok a (nr_Direction nr) (nr_MaxDistance nr) n)"

lemma candidates_exact:
  assumes "candidates re nodes vp q = Inr cs"
  shows "distinct (map fst cs) \<and> set cs = {n \<in> set (walkNodes nodes). meets re nodes vp q n}"
proof (cases q)
  case (Dsl d near par)
  let ?r = "boundsRegion d nodes vp"
  obtain cs0 nr where cs: "cs = narrow nr cs0" and cs0:
    "(case par of None \<Rightarrow> Inr (filter (\<lambda>n. matchesFields re d ?r (snd n)) (walkNodes nodes))
      | Some q \<Rightarrow> bindE (bindE (candidates re nodes vp q) (indexed (d_fields q)))
          (\<lambda>ds. Inr (parentsOf re d nodes ds ?r))) = Inr cs0" and
    nr: "(case near of None \<Rightarrow> Inr None
        | Some nr \<Rightarrow> bindE (resolve re nodes vp (nr_Predicate nr))
            (\<lambda>a. Inr (Some (a, nr_Direction nr, nr_MaxDistance nr)))) = Inr nr"
    using assms unfolding Dsl by (auto simp only: candidates_Dsl bindE_Inr sum.inject)
  have near: "narrow nr cs0 = filter (\<lambda>n. case near of None \<Rightarrow> True
      | Some nr \<Rightarrow> \<exists>a. resolve re nodes vp (nr_Predicate nr) = Inr a \<and>
          near_ok a (nr_Direction nr) (nr_MaxDistance nr) n) cs0"
    using nr by (auto simp: narrow_def filterNear_def bindE_Inr split: option.splits nearSpec.splits)
  have own: "distinct (map fst cs0) \<and> set cs0 = {n \<in> set (walkNodes nodes).
      (par = None \<or> constrained d \<longrightarrow> matchesFields re d ?r (snd n)) \<and>
      (case par of None \<Rightarrow> True
       | Some q \<Rightarrow> \<exists>m \<in> selected re nodes vp q.
           if constrained d then strict_prefix (fst n) (fst m) else fst n = butlast (fst m))}"
  proof (cases par)
    case None
    then show ?thesis using cs0 walkNodes_distinct [of nodes] by (auto intro: distinct_map_filter)
  next
    case (Some q')
    then obtain ds0 ds where ds: "candidates re nodes vp q' = Inr ds0" "indexed (d_fields q') ds0 = Inr ds"
        "cs0 = parentsOf re d nodes ds ?r"
      using cs0 by (auto simp: bindE_Inr)
    have "set ds \<subseteq> set (walkNodes nodes)" using candidates_walk indexed_subset ds by blast
    moreover have "selected re nodes vp q' = set ds" using ds by (simp add: selected_def)
    ultimately show ?thesis using parentsOf_exact [of ds nodes re d ?r] ds(3) Some
      by (cases "constrained d") simp_all
  qed
  then show ?thesis unfolding cs near Dsl by (auto intro: distinct_map_filter)
qed

section \<open>Strict resolution\<close>


definition leaf :: "string \<Rightarrow> string \<Rightarrow> node" where
  "leaf role label = Node \<lparr>a_Role = role, a_Label = label, a_Value = [], a_Placeholder = [], a_Identifier = [],
     a_Frame = Some \<lparr>f_X = 0, f_Y = 0, f_W = 10, f_H = 10\<rparr>, a_Interactable = True, a_Disabled = False\<rparr> []"

definition with_children :: "node \<Rightarrow> node list \<Rightarrow> node" where
  "with_children n cs = Node (n_attrs n) cs"

definition any_node :: dsl_fields where
  "any_node = \<lparr>d_Text = [], d_TextContains = [], d_TextRegexSrc = [], d_Type = [], d_AccessibilityID = [],
     d_Index = None, d_BoundsHint = []\<rparr>"

text \<open>A form: a row holding a Save button, and an Edit button beside the row.\<close>

definition form :: "node list" where
  "form = [with_children (leaf ''Group'' ''form'')
     [with_children (leaf ''Group'' ''row'') [leaf ''Button'' ''Save''], leaf ''Button'' ''Edit'']]"


text \<open>
  The candidates of a predicate without \<^verbatim>\<open>parent_of\<close>, and of one that constrains the ancestor
  itself, come in depth-first order. A bare \<^verbatim>\<open>parent_of\<close> does not keep that order: it lists parents
  in the order of their matching children, so an inner container can precede the container around
  it, and an index picks another element than the depth-first position names.
\<close>

theorem dsl_parent_order:
  "(constrained d \<or> par = None \<longrightarrow> (\<forall>cs. candidates re nodes vp (Dsl d near par) = Inr cs \<longrightarrow>
      subseq cs (walkNodes nodes))) \<and>
   (\<exists>tree q cs. candidates (\<lambda>_. None) tree None (Dsl any_node None (Some q)) = Inr cs \<and>
      map fst cs = [[0, 0], [0]] \<and> \<not> subseq cs (walkNodes tree))"
proof -
  have first: "subseq (first_seen seen ns) ns" for seen ns
    by (induction seen ns rule: first_seen.induct) auto
  have "subseq cs (walkNodes nodes)"
    if c: "constrained d \<or> par = None" and cs: "candidates re nodes vp (Dsl d near par) = Inr cs" for cs
  proof -
    obtain cs0 nr where "cs = narrow nr cs0" and cs0:
      "(case par of None \<Rightarrow> Inr (filter (\<lambda>n. matchesFields re d (boundsRegion d nodes vp) (snd n)) (walkNodes nodes))
        | Some q \<Rightarrow> bindE (bindE (candidates re nodes vp q) (indexed (d_fields q)))
          (\<lambda>ds. Inr (parentsOf re d nodes ds (boundsRegion d nodes vp)))) = Inr cs0"
      using cs by (auto simp only: candidates_Dsl bindE_Inr sum.inject)
    moreover have "subseq (narrow nr cs0) cs0" by (auto simp: narrow_def filterNear_def split: option.split)
    moreover have "subseq cs0 (walkNodes nodes)"
      using cs0 c by (auto simp: bindE_Inr parentsOf_def Let_def split: option.splits
          intro: subseq_order.order_trans [OF first subseq_filter_left])
    ultimately show ?thesis using subseq_order.order_trans by blast
  qed
  moreover
  let ?q = "Dsl (any_node\<lparr>d_Type := ''Button''\<rparr>) None None"
  have "map_sum id (map fst) (candidates (\<lambda>_. None) form None (Dsl any_node None (Some ?q))) = Inr [[0, 0], [0]]"
    by code_simp
  then obtain cs where cs: "candidates (\<lambda>_. None) form None (Dsl any_node None (Some ?q)) = Inr cs" "map fst cs = [[0, 0], [0]]"
    by (cases "candidates (\<lambda>_. None) form None (Dsl any_node None (Some ?q))") auto
  have "\<not> subseq (map fst cs) (map fst (walkNodes form))" unfolding cs(2) by code_simp
  then have "\<not> subseq cs (walkNodes form)" using subseq_map by blast
  then have "\<exists>tree q cs. candidates (\<lambda>_. None) tree None (Dsl any_node None (Some q)) = Inr cs \<and>
      map fst cs = [[0, 0], [0]] \<and> \<not> subseq cs (walkNodes tree)"
    using cs by (intro exI conjI)
  ultimately show ?thesis by (intro conjI impI allI) simp_all
qed

theorem dsl_parent_order_witness:
  "\<exists>cs. candidates (\<lambda>_. None) form None (Dsl (any_node\<lparr>d_Type := ''Button''\<rparr>) None None) = Inr cs \<and>
     length cs = 2 \<and> subseq cs (walkNodes form)"
proof -
  let ?q = "Dsl (any_node\<lparr>d_Type := ''Button''\<rparr>) None None"
  have "map_sum id length (candidates (\<lambda>_. None) form None ?q) = Inr 2" by code_simp
  then obtain cs where "candidates (\<lambda>_. None) form None ?q = Inr cs" "length cs = 2"
    by (cases "candidates (\<lambda>_. None) form None ?q") auto
  then show ?thesis
    using dsl_parent_order [of "any_node\<lparr>d_Type := ''Button''\<rparr>" None "\<lambda>_. None" form None None] by blast
qed

section \<open>Parsed predicates\<close>

definition wf_fields :: "regexps \<Rightarrow> dsl_fields \<Rightarrow> bool" where
  "wf_fields re f \<longleftrightarrow>
     length (filter (\<lambda>v. v \<noteq> []) [d_Text f, d_TextContains f, d_TextRegexSrc f]) \<le> 1 \<and>
     (d_TextRegexSrc f \<noteq> [] \<longrightarrow> length (d_TextRegexSrc f) \<le> 512 \<and> re (d_TextRegexSrc f) \<noteq> None) \<and>
     d_BoundsHint f \<in> {[], ''top_half'', ''bottom_half'', ''left_half'', ''right_half'', ''center''}"

definition directions :: "string set" where "directions = {''left'', ''right'', ''above'', ''below''}"

text \<open>Well-formed predicates of at most \<open>k\<close> levels.\<close>

fun wf_dsl :: "regexps \<Rightarrow> nat \<Rightarrow> dslPredicate \<Rightarrow> bool" where
  "wf_dsl re k (Dsl f near par) \<longleftrightarrow>
     k > 0 \<and> wf_fields re f \<and> hasSelector (Dsl f near par) \<and>
     (case near of None \<Rightarrow> True
      | Some (Near q dir maxd) \<Rightarrow> dir \<in> directions \<and> 0 \<le> maxd \<and> wf_dsl re (k - 1) q) \<and>
     (case par of None \<Rightarrow> True | Some q \<Rightarrow> wf_dsl re (k - 1) q)"

lemma parse_fields_Inr:
  "parse_fields re cv m = Inr f \<longleftrightarrow>
     find (\<lambda>k. k \<notin> set dslPredicateKeys) (map fst m) = None \<and> bad_string m = None \<and> textForms m \<le> 1 \<and>
     parse_regex re m = Inr () \<and> parse_index cv m = Inr (d_Index f) \<and> parse_hint m = Inr (d_BoundsHint f) \<and>
     d_Text f = strField m ''text'' \<and> d_TextContains f = strField m ''text_contains'' \<and>
     d_TextRegexSrc f = strField m ''text_regex'' \<and> d_Type f = strField m ''type'' \<and>
     d_AccessibilityID f = strField m ''accessibility_id''"
proof (cases "find (\<lambda>k. k \<notin> set dslPredicateKeys) (map fst m) = None \<and> bad_string m = None \<and> textForms m \<le> 1")
  case True
  then show ?thesis by (cases f) (auto simp: parse_fields_def bindE_Inr)
next
  case False
  then show ?thesis by (auto simp: parse_fields_def split: option.split)
qed

lemma parse_fields_wf:
  assumes "parse_fields re cv m = Inr f"
  shows "wf_fields re f"
proof -
  note f = assms [unfolded parse_fields_Inr]
  have "length (filter (\<lambda>v. v \<noteq> []) [d_Text f, d_TextContains f, d_TextRegexSrc f]) \<le> 1"
    using f by (simp only: textForms_def)
  moreover have "d_TextRegexSrc f \<noteq> [] \<longrightarrow> length (d_TextRegexSrc f) \<le> 512 \<and> re (d_TextRegexSrc f) \<noteq> None"
    using f by (auto simp: parse_regex_def Let_def dslMaxRegexLen_def split: if_splits)
  moreover have "d_BoundsHint f \<in> insert [] (set boundsHints)"
    using f by (auto simp: parse_hint_def Let_def split: if_splits)
  ultimately show ?thesis by (simp add: wf_fields_def boundsHints_def)
qed

lemma parse_direction_ok: "parse_direction m = Inr dir \<Longrightarrow> dir \<in> directions"
  by (auto simp: parse_direction_def nearDirections_def directions_def split: sum.splits option.splits if_splits)

lemma parse_distance_ok: "parse_distance m = Inr x \<Longrightarrow> 0 \<le> x"
  by (auto simp: parse_distance_def split: option.splits if_splits)

lemma map_sum_Inr: "map_sum f g x = Inr y \<longleftrightarrow> (\<exists>a. x = Inr a \<and> y = g a)"
  by (cases x) auto

lemma parse_wf:
  "dslFromMap re cv m depth = Inr d \<Longrightarrow> wf_dsl re (dslMaxDepth - depth) d"
  "nearFromMap re cv m depth = Inr nr \<Longrightarrow>
     nr_Direction nr \<in> directions \<and> 0 \<le> nr_MaxDistance nr \<and> wf_dsl re (dslMaxDepth - depth) (nr_Predicate nr)"
proof (induction re cv m depth and re cv m depth arbitrary: d and nr rule: dslFromMap_nearFromMap.induct)
  case (1 re cv m depth)
  from "1.prems" obtain f near par where depth: "depth < dslMaxDepth" and f: "parse_fields re cv m = Inr f"
    and d: "d = Dsl f near par" "hasSelector d"
    and near: "(case map_of m ''near'' of None \<Rightarrow> Inr None
        | Some (JObj nm) \<Rightarrow> map_sum id Some (nearFromMap re cv nm (depth + 1)) | Some v \<Rightarrow> Inl NearNotObject) = Inr near"
    and par: "(case map_of m ''parent_of'' of None \<Rightarrow> Inr None
        | Some (JObj pm) \<Rightarrow> map_sum id Some (dslFromMap re cv pm (depth + 1)) | Some v \<Rightarrow> Inl ParentNotObject) = Inr par"
    by (subst (asm) dslFromMap.simps)
      (auto simp: finish_dsl_def bindE_Inr Let_def split: if_splits sum.splits)
  have "nr_Direction x \<in> directions \<and> 0 \<le> nr_MaxDistance x \<and> wf_dsl re (dslMaxDepth - Suc depth) (nr_Predicate x)"
    if "near = Some x" for x
    using near that "1.IH"(1) [of f] f depth by (auto simp: map_sum_Inr split: option.splits json.splits)
  moreover have "wf_dsl re (dslMaxDepth - Suc depth) x" if "par = Some x" for x
    using par that "1.IH"(2) [of f] f depth by (auto simp: map_sum_Inr split: option.splits json.splits)
  ultimately show ?case using d depth parse_fields_wf [OF f]
    by (auto split: option.split nearSpec.split)
next
  case (2 re cv m depth)
  from "2.prems" obtain pm inner where "map_of m ''predicate'' = Some (JObj pm)"
      "find (\<lambda>k. k \<notin> set near_keys) (map fst m) = None"
      "dslFromMap re cv pm depth = Inr inner" and nr: "nr_Predicate nr = inner"
      "parse_direction m = Inr (nr_Direction nr)" "parse_distance m = Inr (nr_MaxDistance nr)"
    by (subst (asm) nearFromMap.simps) (auto simp: bindE_Inr split: option.splits json.splits)
  then show ?case using "2.IH" parse_direction_ok parse_distance_ok by blast
qed

text \<open>
  C38. A parsed predicate is well-formed: at most four levels deep, at most one of the three text
  forms in each, only regular expressions that compile and fit the length limit, only known bounds
  hints and directions, no negative distance, and a selector on every level.
\<close>

theorem dsl_parse_type:
  assumes "dslFromMap re cv m 0 = Inr d"
  shows "wf_dsl re 4 d"
  using parse_wf(1) [OF assms] by (simp add: dslMaxDepth_def)

definition str_entry :: "string \<Rightarrow> string \<Rightarrow> payload" where
  "str_entry key v = (if v = [] then [] else [(key, JStr v)])"

text \<open>The payload that spells a predicate out.\<close>

fun encode :: "dslPredicate \<Rightarrow> payload" where
  "encode (Dsl f near par) =
     str_entry ''text'' (d_Text f) @ str_entry ''text_contains'' (d_TextContains f) @
     str_entry ''text_regex'' (d_TextRegexSrc f) @ str_entry ''type'' (d_Type f) @
     str_entry ''accessibility_id'' (d_AccessibilityID f) @ str_entry ''bounds_hint'' (d_BoundsHint f) @
     (case d_Index f of None \<Rightarrow> [] | Some i \<Rightarrow> [(''index'', JNum (of_int i))]) @
     (case near of None \<Rightarrow> []
      | Some (Near q dir maxd) \<Rightarrow> [(''near'', JObj ([(''predicate'', JObj (encode q)), (''direction'', JStr dir)] @
          (if maxd = 0 then [] else [(''max_distance'', JNum maxd)])))]) @
     (case par of None \<Rightarrow> [] | Some q \<Rightarrow> [(''parent_of'', JObj (encode q))])"

declare encode.simps [simp del]

text \<open>Every index is one a \<^verbatim>\<open>float64\<close> represents exactly.\<close>

fun small_indices :: "dslPredicate \<Rightarrow> bool" where
  "small_indices (Dsl f near par) \<longleftrightarrow>
     (case d_Index f of None \<Rightarrow> True | Some i \<Rightarrow> 0 \<le> i \<and> i \<le> 2 ^ 53) \<and>
     (case near of None \<Rightarrow> True | Some (Near q dir maxd) \<Rightarrow> small_indices q) \<and>
     (case par of None \<Rightarrow> True | Some q \<Rightarrow> small_indices q)"

lemma map_of_str_entry: "map_of (str_entry key v) k = (if k = key \<and> v \<noteq> [] then Some (JStr v) else None)"
  by (simp add: str_entry_def)

lemma encode_lookup:
  "map_of (encode (Dsl f near par)) k =
     (if k = ''parent_of'' then map_option (\<lambda>q. JObj (encode q)) par
      else if k = ''near'' then
        map_option (\<lambda>nr. JObj ([(''predicate'', JObj (encode (nr_Predicate nr))), (''direction'', JStr (nr_Direction nr))] @
          (if nr_MaxDistance nr = 0 then [] else [(''max_distance'', JNum (nr_MaxDistance nr))]))) near
      else if k = ''index'' then map_option (\<lambda>i. JNum (of_int i)) (d_Index f)
      else if k = ''bounds_hint'' then (if d_BoundsHint f = [] then None else Some (JStr (d_BoundsHint f)))
      else if k = ''accessibility_id'' then (if d_AccessibilityID f = [] then None else Some (JStr (d_AccessibilityID f)))
      else if k = ''type'' then (if d_Type f = [] then None else Some (JStr (d_Type f)))
      else if k = ''text_regex'' then (if d_TextRegexSrc f = [] then None else Some (JStr (d_TextRegexSrc f)))
      else if k = ''text_contains'' then (if d_TextContains f = [] then None else Some (JStr (d_TextContains f)))
      else if k = ''text'' then (if d_Text f = [] then None else Some (JStr (d_Text f)))
      else None)"
proof -
  have near: "map_of (case near of None \<Rightarrow> []
      | Some (Near q dir maxd) \<Rightarrow> [(''near'', JObj ([(''predicate'', JObj (encode q)), (''direction'', JStr dir)] @
          (if maxd = 0 then [] else [(''max_distance'', JNum maxd)])))]) k =
      (if k = ''near'' then
        map_option (\<lambda>nr. JObj ([(''predicate'', JObj (encode (nr_Predicate nr))), (''direction'', JStr (nr_Direction nr))] @
          (if nr_MaxDistance nr = 0 then [] else [(''max_distance'', JNum (nr_MaxDistance nr))]))) near else None)"
    by (auto split: option.split nearSpec.split)
  have idx: "map_of (case d_Index f of None \<Rightarrow> [] | Some i \<Rightarrow> [(''index'', JNum (of_int i))]) k =
      (if k = ''index'' then map_option (\<lambda>i. JNum (of_int i)) (d_Index f) else None)"
    by (simp split: option.split)
  have par: "map_of (case par of None \<Rightarrow> [] | Some q \<Rightarrow> [(''parent_of'', JObj (encode q))]) k =
      (if k = ''parent_of'' then map_option (\<lambda>q. JObj (encode q)) par else None)"
    by (simp split: option.split)
  show ?thesis unfolding encode.simps map_of_append map_add_def map_of_str_entry near idx par
    by (cases "k = ''parent_of''"; cases "k = ''near''"; cases "k = ''index''") (auto split: option.split)
qed

lemma encode_strField:
  "strField (encode (Dsl f near par)) ''text'' = d_Text f"
  "strField (encode (Dsl f near par)) ''text_contains'' = d_TextContains f"
  "strField (encode (Dsl f near par)) ''text_regex'' = d_TextRegexSrc f"
  "strField (encode (Dsl f near par)) ''type'' = d_Type f"
  "strField (encode (Dsl f near par)) ''accessibility_id'' = d_AccessibilityID f"
  "strField (encode (Dsl f near par)) ''bounds_hint'' = d_BoundsHint f"
  by (simp_all add: strField_def encode_lookup)

lemma encode_keys: "set (map fst (encode (Dsl f near par))) \<subseteq> set dslPredicateKeys"
proof -
  have "k \<in> set dslPredicateKeys" if "map_of (encode (Dsl f near par)) k \<noteq> None" for k
    using that unfolding encode_lookup by (auto simp: dslPredicateKeys_def split: if_splits)
  then show ?thesis by (metis map_of_eq_None_iff set_map subsetI)
qed

lemma encode_bad_string: "bad_string (encode (Dsl f near par)) = None"
  by (simp add: bad_string_def encode_lookup is_string_def)

lemma encode_fields:
  assumes "wf_fields re f" "small_indices (Dsl f near par)"
  shows "parse_fields re cv (encode (Dsl f near par)) = Inr f"
proof -
  let ?m = "encode (Dsl f near par)"
  have "find (\<lambda>k. k \<notin> set dslPredicateKeys) (map fst ?m) = None"
    using encode_keys [of f near par] by (auto simp: find_None_iff)
  moreover have "textForms ?m \<le> 1"
    using assms(1) by (simp add: textForms_def wf_fields_def encode_strField)
  moreover have "parse_regex re ?m = Inr ()"
    using assms(1) unfolding parse_regex_def wf_fields_def encode_strField dslMaxRegexLen_def Let_def by auto
  moreover have "parse_hint ?m = Inr (d_BoundsHint f)"
    using assms(1) by (auto simp: parse_hint_def wf_fields_def encode_strField boundsHints_def Let_def)
  moreover have "parse_index cv ?m = Inr (d_Index f)"
  proof (cases "d_Index f")
    case (Some i)
    then have i: "0 \<le> i" "i \<le> 2 ^ 53" using assms(2) by auto
    then have "go_int cv (of_int i) = i" by (simp add: go_int_def)
    then show ?thesis using Some i(1) by (simp add: parse_index_def encode_lookup toNum_def)
  qed (simp add: parse_index_def encode_lookup)
  ultimately show ?thesis by (simp add: parse_fields_Inr encode_bad_string encode_strField)
qed

lemma encode_near:
  assumes "dslFromMap re cv (encode q) depth = Inr q" "dir \<in> directions" "0 \<le> maxd"
  shows "nearFromMap re cv ([(''predicate'', JObj (encode q)), (''direction'', JStr dir)] @
     (if maxd = 0 then [] else [(''max_distance'', JNum maxd)])) depth = Inr (Near q dir maxd)"
proof -
  let ?m = "[(''predicate'', JObj (encode q)), (''direction'', JStr dir)] @
     (if maxd = 0 then [] else [(''max_distance'', JNum maxd)])"
  have "parse_direction ?m = Inr dir"
    using assms(2) by (auto simp: parse_direction_def enumField_def directions_def nearDirections_def)
  moreover have "parse_distance ?m = Inr maxd" using assms(3) by (simp add: parse_distance_def toNum_def)
  moreover have "find (\<lambda>k. k \<notin> set near_keys) (map fst ?m) = None" by (simp add: near_keys_def)
  ultimately show ?thesis using assms(1) by (subst nearFromMap.simps) simp
qed

lemma encode_round_trip:
  "wf_dsl re (dslMaxDepth - depth) d \<Longrightarrow> small_indices d \<Longrightarrow> dslFromMap re cv (encode d) depth = Inr d"
proof (induction re "dslMaxDepth - depth" d arbitrary: depth rule: wf_dsl.induct)
  case (1 re f near par)
  have depth: "\<not> dslMaxDepth \<le> depth" and wf: "wf_fields re f" and sel: "hasSelector (Dsl f near par)"
    using "1.prems"(1) by auto
  have less: "dslMaxDepth - depth - 1 = dslMaxDepth - (depth + 1)" by simp
  have near: "(case map_of (encode (Dsl f near par)) ''near'' of None \<Rightarrow> Inr None
      | Some (JObj nm) \<Rightarrow> map_sum id Some (nearFromMap re cv nm (depth + 1)) | Some v \<Rightarrow> Inl NearNotObject) = Inr near"
  proof (cases near)
    case (Some nr)
    obtain q dir maxd where nr: "nr = Near q dir maxd" by (cases nr)
    have "dslFromMap re cv (encode q) (depth + 1) = Inr q"
      using "1.hyps"(1) [OF Some nr less] "1.prems" Some nr less by simp
    then have "nearFromMap re cv ([(''predicate'', JObj (encode q)), (''direction'', JStr dir)] @
       (if maxd = 0 then [] else [(''max_distance'', JNum maxd)])) (depth + 1) = Inr nr"
      using encode_near [of re cv q "depth + 1" dir maxd] "1.prems"(1) Some nr by simp
    then show ?thesis using Some nr by (cases "maxd = 0") (simp_all add: encode_lookup)
  qed (simp add: encode_lookup)
  have par: "(case map_of (encode (Dsl f near par)) ''parent_of'' of None \<Rightarrow> Inr None
      | Some (JObj pm) \<Rightarrow> map_sum id Some (dslFromMap re cv pm (depth + 1)) | Some v \<Rightarrow> Inl ParentNotObject) = Inr par"
  proof (cases par)
    case (Some q)
    have "dslFromMap re cv (encode q) (depth + 1) = Inr q"
      using "1.hyps"(2) [OF Some less] "1.prems" Some less by simp
    then show ?thesis using Some by (simp add: encode_lookup)
  qed (simp add: encode_lookup)
  have fields: "parse_fields re cv (encode (Dsl f near par)) = Inr f" using encode_fields [OF wf "1.prems"(2)] .
  show ?case
    by (subst dslFromMap.simps) (simp only: depth if_False fields sum.case near par, simp add: finish_dsl_def sel)
qed


definition beside_save :: dslPredicate where
  "beside_save = Dsl (any_node\<lparr>d_Type := ''Button'', d_Index := Some 1\<rparr>)
     (Some (Near (Dsl (any_node\<lparr>d_Text := ''Save''\<rparr>) None None) ''below'' 44))
     (Some (Dsl (any_node\<lparr>d_TextContains := ''x''\<rparr>) None None))"


theorem dsl_parse_type_witness:
  "dslFromMap (\<lambda>_. None) floor [(''text'', JStr ''Save'')] 0 = Inr (Dsl (any_node\<lparr>d_Text := ''Save''\<rparr>) None None) \<and>
   wf_dsl (\<lambda>_. None) 4 (Dsl (any_node\<lparr>d_Text := ''Save''\<rparr>) None None)"
proof -
  have "dslFromMap (\<lambda>_. None) floor [(''text'', JStr ''Save'')] 0 = Inr (Dsl (any_node\<lparr>d_Text := ''Save''\<rparr>) None None)"
    by (subst dslFromMap.simps)
      (simp add: dslMaxDepth_def parse_fields_def dslPredicateKeys_def bad_string_def is_string_def textForms_def
        strField_def parse_regex_def parse_index_def parse_hint_def finish_dsl_def hasSelector_def constrained_def any_node_def)
  then show ?thesis using dsl_parse_type by blast
qed

section \<open>Indices\<close>

fun nonneg_indices :: "dslPredicate \<Rightarrow> bool" where
  "nonneg_indices (Dsl f near par) \<longleftrightarrow>
     (case d_Index f of None \<Rightarrow> True | Some i \<Rightarrow> 0 \<le> i) \<and>
     (case near of None \<Rightarrow> True | Some (Near q dir maxd) \<Rightarrow> nonneg_indices q) \<and>
     (case par of None \<Rightarrow> True | Some q \<Rightarrow> nonneg_indices q)"

lemma parse_index_nonneg:
  assumes "\<And>n. n \<ge> 2 ^ 63 \<Longrightarrow> 0 \<le> cv n" "parse_index cv m = Inr (Some i)"
  shows "0 \<le> i"
proof -
  obtain n where n: "0 \<le> n" "i = go_int cv n"
    using assms(2) by (auto simp: parse_index_def not_less split: option.splits if_splits)
  show ?thesis
  proof (cases "n < 2 ^ 63")
    case True
    then show ?thesis using n by (auto simp: go_int_def)
  next
    case False
    then show ?thesis using n assms(1) [of n] by (auto simp: go_int_def)
  qed
qed

lemma parse_nonneg:
  assumes cv: "\<And>n. n \<ge> 2 ^ 63 \<Longrightarrow> 0 \<le> cv n"
  shows "dslFromMap re cv m depth = Inr d \<Longrightarrow> nonneg_indices d"
    and "nearFromMap re cv m depth = Inr nr \<Longrightarrow> nonneg_indices (nr_Predicate nr)"
  using cv
proof (induction re cv m depth and re cv m depth arbitrary: d and nr rule: dslFromMap_nearFromMap.induct)
  case (1 re cv m depth)
  from "1.prems"(1) obtain f near par where depth: "depth < dslMaxDepth" and f: "parse_fields re cv m = Inr f"
    and d: "d = Dsl f near par"
    and near: "(case map_of m ''near'' of None \<Rightarrow> Inr None
        | Some (JObj nm) \<Rightarrow> map_sum id Some (nearFromMap re cv nm (depth + 1)) | Some v \<Rightarrow> Inl NearNotObject) = Inr near"
    and par: "(case map_of m ''parent_of'' of None \<Rightarrow> Inr None
        | Some (JObj pm) \<Rightarrow> map_sum id Some (dslFromMap re cv pm (depth + 1)) | Some v \<Rightarrow> Inl ParentNotObject) = Inr par"
    by (subst (asm) dslFromMap.simps)
      (auto simp: finish_dsl_def bindE_Inr Let_def split: if_splits sum.splits)
  have "nonneg_indices (nr_Predicate x)" if "near = Some x" for x
    using near that "1.IH"(1) [of f] f depth "1.prems"(2) by (auto simp: map_sum_Inr split: option.splits json.splits)
  moreover have "nonneg_indices x" if "par = Some x" for x
    using par that "1.IH"(2) [of f] f depth "1.prems"(2) by (auto simp: map_sum_Inr split: option.splits json.splits)
  moreover have "0 \<le> i" if "d_Index f = Some i" for i
    using parse_index_nonneg [of cv m i] "1.prems"(2) f that by (simp add: parse_fields_Inr)
  ultimately show ?case using d by (auto split: option.split nearSpec.split)
next
  case (2 re cv m depth)
  from "2.prems"(1) obtain pm inner where "map_of m ''predicate'' = Some (JObj pm)"
      "find (\<lambda>k. k \<notin> set near_keys) (map fst m) = None"
      "dslFromMap re cv pm depth = Inr inner" "nr_Predicate nr = inner"
    by (subst (asm) nearFromMap.simps) (auto simp: bindE_Inr split: option.splits json.splits)
  then show ?case using "2.IH" "2.prems"(2) by blast
qed

lemma pick_no_panic: "nonneg_indices q \<Longrightarrow> pick (d_fields q) cs \<noteq> Inl IndexPanic"
  by (cases q) (auto simp: pick_def split: option.splits list.splits)

lemma indexed_no_panic: "nonneg_indices q \<Longrightarrow> indexed (d_fields q) cs \<noteq> Inl IndexPanic"
  by (cases q) (auto simp: indexed_def split: option.splits)

lemma candidates_no_panic: "nonneg_indices q \<Longrightarrow> candidates re nodes vp q \<noteq> Inl IndexPanic"
proof (induction re nodes vp q rule: candidates.induct)
  case (1 re nodes vp d near par)
  have "bindE (candidates re nodes vp q) (indexed (d_fields q)) \<noteq> Inl IndexPanic" if "par = Some q" for q
    using 1 that indexed_no_panic [of q] by (auto simp: bindE_Inl)
  moreover have "resolve re nodes vp q \<noteq> Inl IndexPanic" if "near = Some (Near q dir maxd)" for q dir maxd
    using 1 that pick_no_panic [of q] by (auto simp: bindE_Inl resolve_def)
  ultimately show ?case
    by (auto simp: candidates_Dsl bindE_Inl split: option.splits) (metis nearSpec.collapse)+
qed

text \<open>
  C40. The only way a resolved predicate runs out of a slice is the conversion of its index: a
  predicate the parser accepted panics with an index out of range only on a machine where the
  conversion of some number from \<open>2 ^ 63\<close> on to \<^verbatim>\<open>int\<close> is negative. The check
  \<^verbatim>\<open>n < 0 || n != math.Trunc(n)\<close> is made before the conversion and does not exclude such numbers:
  the witness runs \<^verbatim>\<open>{"text": "Save", "index": 1e19}\<close> with the conversion of 64-bit Intel machines,
  which gives the least integer.
\<close>

theorem index_panic_source:
  assumes "dslFromMap re cv m 0 = Inr d" "resolve re nodes vp d = Inl IndexPanic"
  shows "\<exists>n \<ge> 2 ^ 63. cv n < 0"
proof (rule ccontr)
  assume "\<not> ?thesis"
  then have cv: "0 \<le> cv n" if "n \<ge> 2 ^ 63" for n using that by (meson not_le)
  have "nonneg_indices d" using parse_nonneg(1) [OF cv assms(1)] .
  then have "resolve re nodes vp d \<noteq> Inl IndexPanic"
    using candidates_no_panic pick_no_panic [of d] by (auto simp: resolve_def bindE_Inl)
  then show False using assms(2) by simp
qed

definition huge_index :: payload where
  "huge_index = [(''text'', JStr ''Save''), (''index'', JNum (10 ^ 19))]"

definition least_int :: "rat \<Rightarrow> int" where "least_int n = - (2 ^ 63)"

theorem index_panic_source_witness:
  "\<exists>d. dslFromMap (\<lambda>_. None) least_int huge_index 0 = Inr d \<and>
     resolve (\<lambda>_. None) form None d = Inl IndexPanic \<and> (\<exists>n \<ge> 2 ^ 63. least_int n < 0)"
proof -
  let ?d = "Dsl (any_node\<lparr>d_Text := ''Save'', d_Index := Some (- (2 ^ 63))\<rparr>) None None"
  have p: "dslFromMap (\<lambda>_. None) least_int huge_index 0 = Inr ?d"
    by (subst dslFromMap.simps)
      (simp add: huge_index_def least_int_def dslMaxDepth_def parse_fields_def dslPredicateKeys_def bad_string_def
        is_string_def textForms_def strField_def parse_regex_def parse_index_def toNum_def go_int_def parse_hint_def
        finish_dsl_def hasSelector_def constrained_def any_node_def)
  have "map_sum id length (candidates (\<lambda>_. None) form None ?d) = Inr 1" by code_simp
  then obtain cs where "candidates (\<lambda>_. None) form None ?d = Inr cs" "length cs = 1"
    by (cases "candidates (\<lambda>_. None) form None ?d") auto
  then have r: "resolve (\<lambda>_. None) form None ?d = Inl IndexPanic"
    by (simp add: resolve_def pick_def any_node_def)
  show ?thesis using p r index_panic_source [OF p r] by blast
qed

section \<open>The best match\<close>

lemma best_walk_fold: "best_walk pr vp p i ns b = fold (consider_best pr vp) (walk_from p i ns) b"
  by (induction pr vp p i ns b rule: best_walk.induct) auto

lemma rank_less_trans: "rank_less a b \<Longrightarrow> rank_less b c \<Longrightarrow> rank_less a c"
  by (auto simp: rank_less_def split: if_splits)

lemma rank_less_total: "k_order a \<noteq> k_order b \<Longrightarrow> \<not> rank_less a b \<Longrightarrow> rank_less b a"
  by (auto simp: rank_less_def split: if_splits)

text \<open>Position \<open>i\<close> of a list of matches ranks strictly before every other.\<close>

definition top_ranked :: "predicate \<Rightarrow> frame option \<Rightarrow> located list \<Rightarrow> nat \<Rightarrow> bool" where
  "top_ranked pr vp ms i \<longleftrightarrow> i < length ms \<and>
     (\<forall>j < length ms. j \<noteq> i \<longrightarrow> rank_less (rank pr vp i (snd (ms ! i))) (rank pr vp j (snd (ms ! j))))"

lemma rank_order [simp]: "k_order (rank pr vp i n) = i"
  by (simp add: rank_def)

lemma top_ranked_snoc:
  assumes "top_ranked pr vp ms i"
  shows "if rank_less (rank pr vp (length ms) (snd n)) (rank pr vp i (snd (ms ! i)))
    then top_ranked pr vp (ms @ [n]) (length ms) else top_ranked pr vp (ms @ [n]) i"
proof -
  let ?new = "rank pr vp (length ms) (snd n)" and ?old = "rank pr vp i (snd (ms ! i))"
  have i: "i < length ms" using assms by (simp add: top_ranked_def)
  have other: "rank_less ?old (rank pr vp j (snd (ms ! j)))" if "j < length ms" "j \<noteq> i" for j
    using assms that by (simp add: top_ranked_def)
  show ?thesis
  proof (cases "rank_less ?new ?old")
    case True
    then have "rank_less ?new (rank pr vp j (snd (ms ! j)))" if "j < length ms" for j
      using that other rank_less_trans by (cases "j = i") blast+
    then show ?thesis using True by (simp add: top_ranked_def nth_append less_Suc_eq)
  next
    case False
    then have "rank_less ?old ?new" using i by (intro rank_less_total) auto
    then show ?thesis using False i other by (auto simp: top_ranked_def nth_append less_Suc_eq)
  qed
qed

definition best_of :: "predicate \<Rightarrow> frame option \<Rightarrow> located list \<Rightarrow> best \<Rightarrow> bool" where
  "best_of pr vp ms b \<longleftrightarrow> snd b = length ms \<and>
     (if ms = [] then fst b = None
      else \<exists>i. top_ranked pr vp ms i \<and> fst b = Some (ms ! i, rank pr vp i (snd (ms ! i))))"

lemma best_of_snoc:
  assumes "best_of pr vp ms b" "pred_matches pr (snd n)"
  shows "best_of pr vp (ms @ [n]) (consider_best pr vp n b)"
proof (cases "ms = []")
  case True
  then show ?thesis using assms by (cases b) (simp add: best_of_def consider_best_def top_ranked_def)
next
  case False
  then obtain i where i: "top_ranked pr vp ms i" and b: "b = (Some (ms ! i, rank pr vp i (snd (ms ! i))), length ms)"
    using assms(1) by (cases b) (auto simp: best_of_def)
  have len: "i < length ms" using i by (simp add: top_ranked_def)
  show ?thesis
  proof (cases "rank_less (rank pr vp (length ms) (snd n)) (rank pr vp i (snd (ms ! i)))")
    case True
    then have "top_ranked pr vp (ms @ [n]) (length ms)" using top_ranked_snoc [OF i, of n] by simp
    moreover have "consider_best pr vp n b = (Some (n, rank pr vp (length ms) (snd n)), Suc (length ms))"
      using True assms(2) unfolding b by (simp add: consider_best_def)
    ultimately show ?thesis by (auto simp: best_of_def intro!: exI [of _ "length ms"])
  next
    case False
    then have "top_ranked pr vp (ms @ [n]) i" using top_ranked_snoc [OF i, of n] by simp
    moreover have "consider_best pr vp n b = (Some (ms ! i, rank pr vp i (snd (ms ! i))), Suc (length ms))"
      using False assms(2) unfolding b by (simp add: consider_best_def)
    ultimately show ?thesis using len by (auto simp: best_of_def nth_append intro!: exI [of _ i])
  qed
qed

lemma best_fold:
  "best_of pr vp (filter (\<lambda>n. pred_matches pr (snd n)) xs) (fold (consider_best pr vp) xs (None, 0))"
proof (induction xs rule: rev_induct)
  case (snoc n xs)
  show ?case
  proof (cases "pred_matches pr (snd n)")
    case True
    then show ?thesis using best_of_snoc [OF snoc] by simp
  next
    case False
    then have "consider_best pr vp n b = b" for b by (simp add: consider_best_def split: prod.split)
    then show ?thesis using snoc False by simp
  qed
qed (simp add: best_of_def)

text \<open>
  The flat matcher picks the one best match: it returns nothing exactly if no node matches, and
  otherwise the match whose rank (tappable, inside the viewport, exact text, interactable, smallest
  area, first in depth-first order, in this priority) is strictly before the rank of every other
  match. The ranking is total, so the choice does not depend on how the tree is walked.
\<close>

theorem find_best_optimal:
  assumes "ms = filter (\<lambda>n. pred_matches pr (snd n)) (walkNodes nodes)"
  shows "(findBest pr nodes vp = None \<longleftrightarrow> ms = []) \<and>
    (\<forall>n. findBest pr nodes vp = Some n \<longrightarrow> (\<exists>i < length ms. n = ms ! i \<and>
      (\<forall>j < length ms. j \<noteq> i \<longrightarrow> rank_less (rank pr vp i (snd (ms ! i))) (rank pr vp j (snd (ms ! j))))))"
  using best_fold [of pr vp "walkNodes nodes"] assms
  by (auto simp: findBest_def best_walk_fold walkNodes_def top_ranked_def best_of_def split: if_splits)

definition save_pred :: predicate where
  "save_pred = \<lparr>p_Label = ''Save'', p_Role = [], p_Value = [], p_ID = [], p_Placeholder = [], p_Exact = False, p_InFrame = None\<rparr>"

text \<open>A heading that mentions the word, then the button itself.\<close>

theorem find_best_optimal_witness:
  "findBest save_pred [leaf ''Text'' ''Save your work'', leaf ''Button'' ''Save''] None = Some ([1], leaf ''Button'' ''Save'') \<and>
   rank_less (rank save_pred None 1 (leaf ''Button'' ''Save'')) (rank save_pred None 0 (leaf ''Text'' ''Save your work''))"
proof -
  let ?nodes = "[leaf ''Text'' ''Save your work'', leaf ''Button'' ''Save'']"
  let ?ms = "[([0 :: nat], leaf ''Text'' ''Save your work''), ([1], leaf ''Button'' ''Save'')]"
  have ms: "?ms = filter (\<lambda>n. pred_matches save_pred (snd n)) (walkNodes ?nodes)" by code_simp
  have f: "findBest save_pred ?nodes None = Some ([1], leaf ''Button'' ''Save'')" by code_simp
  obtain i where i: "i < length ?ms \<and> ([1 :: nat], leaf ''Button'' ''Save'') = ?ms ! i \<and>
    (\<forall>j < length ?ms. j \<noteq> i \<longrightarrow> rank_less (rank save_pred None i (snd (?ms ! i))) (rank save_pred None j (snd (?ms ! j))))"
    using conjunct2 [OF find_best_optimal [OF ms, of None], rule_format, OF f] by blast
  then have "i = 1" by (cases i) auto
  then show ?thesis using f conjunct2 [OF conjunct2 [OF i], rule_format, of 0] by simp
qed

end
