(* ===== verification/Mz_Procs.thy ===== *)
theory Mz_Procs
  imports Mz_Prelude
begin

text \<open>
  The process table of a simulator host (\<^verbatim>\<open>internal/warm/warm.go\<close>, \<^verbatim>\<open>internal/warm/pids.go\<close>): parsing
  the listing of \<^verbatim>\<open>ps\<close>, finding the \<^verbatim>\<open>launchd_sim\<close> tree of a simulator, and the process sets the
  pool derives from a listing. Command lines are ASCII strings.
\<close>

record Proc =
  pr_PID :: int
  pr_PPID :: int
  pr_RSSKB :: int
  pr_State :: string
  pr_Command :: string

section \<open>Parsing\<close>

text \<open>\<^verbatim>\<open>strings.Fields\<close>: the maximal runs without white space; \<open>cur\<close> is the run being read.\<close>

fun fields_from :: "string \<Rightarrow> string \<Rightarrow> string list" where
  "fields_from cur [] = (if cur = [] then [] else [cur])"
| "fields_from cur (c # cs) =
     (if is_space c then (if cur = [] then fields_from [] cs else cur # fields_from [] cs)
      else fields_from (cur @ [c]) cs)"

definition strings_Fields :: "string \<Rightarrow> string list" where
  "strings_Fields s = fields_from [] s"

text \<open>\<^verbatim>\<open>strconv.Atoi\<close> and \<^verbatim>\<open>strconv.ParseInt(s, 10, 64)\<close>: an optional sign, then digits, in 64 bits.\<close>

definition digits_value :: "string \<Rightarrow> int" where
  "digits_value ds = foldl (\<lambda>n c. 10 * n + (int (of_char c) - 48)) 0 ds"

definition parse_int :: "string \<Rightarrow> int option" where
  "parse_int s =
     (let (neg, ds) = (case s of
            c # cs \<Rightarrow> if c = CHR ''-'' then (True, cs) else if c = CHR ''+'' then (False, cs) else (False, s)
          | [] \<Rightarrow> (False, []));
          n = (if neg then - digits_value ds else digits_value ds)
      in if ds = [] \<or> \<not> list_all is_digit ds \<or> n < - (2 ^ 63) \<or> n > 2 ^ 63 - 1 then None else Some n)"

definition parse_row :: "string \<Rightarrow> Proc list" where
  "parse_row line =
     (case strings_Fields line of
        f0 # f1 # f2 # f3 # f4 # rest \<Rightarrow>
          (case (parse_int f0, parse_int f1, parse_int f2) of
             (Some pid, Some ppid, Some rss) \<Rightarrow>
               [\<lparr>pr_PID = pid, pr_PPID = ppid, pr_RSSKB = rss, pr_State = f3,
                 pr_Command = strings_Join (f4 # rest) '' ''\<rparr>]
           | _ \<Rightarrow> [])
      | _ \<Rightarrow> [])"

text \<open>\<^verbatim>\<open>parsePS\<close> on the lines of the output; rows that do not parse are skipped.\<close>

definition parsePS :: "string list \<Rightarrow> Proc list" where
  "parsePS lines = concat (map parse_row lines)"

section \<open>Trees\<close>

definition to_upper :: "char \<Rightarrow> char" where
  "to_upper c = (if is_lower c then char_of (of_char c - 32 :: nat) else c)"

definition ToUpper :: "string \<Rightarrow> string" where
  "ToUpper s = map to_upper s"

definition findLaunchdSim :: "Proc list \<Rightarrow> string \<Rightarrow> int" where
  "findLaunchdSim procs udid =
     (case find (\<lambda>p. strings_Contains (pr_Command p) ''launchd_sim'' \<and>
                     strings_Contains (ToUpper (pr_Command p)) (ToUpper udid)) procs of
        None \<Rightarrow> 0 | Some p \<Rightarrow> pr_PID p)"

definition children_of :: "Proc list \<Rightarrow> int \<Rightarrow> int list" where
  "children_of procs pid = map pr_PID (filter (\<lambda>p. pr_PPID p = pid) procs)"

text \<open>
  The loop of \<^verbatim>\<open>simTree\<close>: \<open>visited\<close> is \<^verbatim>\<open>tree[:i]\<close> and \<open>pending\<close> is \<^verbatim>\<open>tree[i:]\<close>. Whether it ends depends on
  the table (a table with a cycle of parents makes it run forever), so it is a partial function.
\<close>

partial_function (option) bfs :: "Proc list \<Rightarrow> int list \<Rightarrow> int list \<Rightarrow> int list option" where
  [code]: "bfs procs visited pending =
     (case pending of
        [] \<Rightarrow> Some visited
      | pid # rest \<Rightarrow> bfs procs (visited @ [pid]) (rest @ children_of procs pid))"

definition simTree :: "Proc list \<Rightarrow> string \<Rightarrow> int list option" where
  "simTree procs udid =
     (let root = findLaunchdSim procs udid in
      if root = 0 then Some [] else bfs procs [] [root])"

section \<open>Process sets\<close>

text \<open>\<^verbatim>\<open>byPID\<close>: a later row of the same PID wins.\<close>

definition byPID :: "Proc list \<Rightarrow> int \<rightharpoonup> Proc" where
  "byPID procs = map_of (rev (map (\<lambda>p. (pr_PID p, p)) procs))"

definition stoppedPIDs :: "Proc list \<Rightarrow> int list \<Rightarrow> int list" where
  "stoppedPIDs procs pids =
     filter (\<lambda>pid. case byPID procs pid of None \<Rightarrow> False | Some p \<Rightarrow> strings_Contains (pr_State p) ''T'') pids"

definition anyAlive :: "Proc list \<Rightarrow> int list \<Rightarrow> bool" where
  "anyAlive procs pids \<longleftrightarrow> list_ex (\<lambda>pid. pid \<in> set (map pr_PID procs)) pids"

text \<open>\<^verbatim>\<open>liveOwned\<close>, over the ledger's keys in any order: the result is sorted.\<close>

definition liveOwned :: "Proc list \<Rightarrow> (int \<times> string) list \<Rightarrow> int list" where
  "liveOwned procs owned =
     sort (map fst (filter (\<lambda>(pid, cmd). case byPID procs pid of None \<Rightarrow> False | Some p \<Rightarrow> pr_Command p = cmd) owned))"

definition sumRSSKB :: "Proc list \<Rightarrow> int list \<Rightarrow> int" where
  "sumRSSKB procs pids = sum_list (map pr_RSSKB (filter (\<lambda>p. pr_PID p \<in> set pids) procs))"

section \<open>The tree walk\<close>

definition parent_rel :: "Proc list \<Rightarrow> int \<Rightarrow> int \<Rightarrow> bool" where
  "parent_rel procs a b \<longleftrightarrow> (\<exists>p \<in> set procs. pr_PPID p = a \<and> pr_PID p = b)"

lemma children_of_iff: "b \<in> set (children_of procs a) \<longleftrightarrow> parent_rel procs a b"
  by (auto simp: children_of_def parent_rel_def)

text \<open>
  A table of distinct processes in which every process is younger than its parent, as the ages
  of a kernel's process table give.
\<close>

definition sound_table :: "(int \<Rightarrow> nat) \<Rightarrow> Proc list \<Rightarrow> bool" where
  "sound_table age procs \<longleftrightarrow> distinct (map pr_PID procs) \<and> (\<forall>p \<in> set procs. age (pr_PPID p) < age (pr_PID p))"

lemma children_distinct: "sound_table age procs \<Longrightarrow> distinct (children_of procs a)"
  unfolding sound_table_def children_of_def by (simp add: distinct_map_filter)

lemma parent_unique: "sound_table age procs \<Longrightarrow> parent_rel procs a c \<Longrightarrow> parent_rel procs b c \<Longrightarrow> a = b"
  unfolding sound_table_def parent_rel_def by (metis (no_types, lifting) distinct_map inj_onD)

lemma parent_older: "sound_table age procs \<Longrightarrow> parent_rel procs a b \<Longrightarrow> age a < age b"
  by (auto simp: sound_table_def parent_rel_def)

lemma ancestor_older:
  assumes "sound_table age procs" "(parent_rel procs)\<^sup>+\<^sup>+ a b"
  shows "age a < age b"
  using assms(2) by (induction rule: tranclp_induct) (auto dest: parent_older [OF assms(1)])

text \<open>
  The state of the walk: it starts at the root, no process twice, everything found descends from
  the root, the children of visited processes are found, and everything but the root comes after
  its visited parent.
\<close>

definition walk_ok :: "Proc list \<Rightarrow> int \<Rightarrow> int list \<Rightarrow> int list \<Rightarrow> bool" where
  "walk_ok procs root visited pending \<longleftrightarrow>
     (let found = visited @ pending in
      found \<noteq> [] \<and> found ! 0 = root \<and> distinct found \<and>
      (\<forall>x \<in> set found. (parent_rel procs)\<^sup>*\<^sup>* root x) \<and>
      (\<forall>x \<in> set visited. \<forall>y. parent_rel procs x y \<longrightarrow> y \<in> set found) \<and>
      (\<forall>i < length found. i \<noteq> 0 \<longrightarrow> (\<exists>j < i. j < length visited \<and> parent_rel procs (found ! j) (found ! i))))"

lemma walk_ok_new:
  assumes t: "sound_table age procs" and ok: "walk_ok procs root visited (pid # rest)" and c: "parent_rel procs pid c"
  shows "c \<notin> set (visited @ pid # rest)"
proof
  let ?found = "visited @ pid # rest"
  assume "c \<in> set ?found"
  then obtain i where i: "i < length ?found" "?found ! i = c" by (meson in_set_conv_nth)
  show False
  proof (cases "i = 0")
    case True
    then have "c = root" using i ok by (simp add: walk_ok_def Let_def)
    moreover have "(parent_rel procs)\<^sup>*\<^sup>* root pid" using ok by (simp add: walk_ok_def Let_def)
    ultimately have "(parent_rel procs)\<^sup>+\<^sup>+ c c" using c by (metis rtranclp_into_tranclp1)
    then show False using ancestor_older [OF t] by blast
  next
    case False
    then obtain j where j: "j < length visited" "parent_rel procs (?found ! j) c"
      using ok i unfolding walk_ok_def Let_def by metis
    then have "?found ! j = pid" using parent_unique [OF t] c by metis
    then have "pid \<in> set visited" using j(1) by (simp add: nth_append) (metis nth_mem)
    then show False using ok by (simp add: walk_ok_def Let_def)
  qed
qed

lemma walk_ok_step:
  assumes t: "sound_table age procs" and ok: "walk_ok procs root visited (pid # rest)"
  shows "walk_ok procs root (visited @ [pid]) (rest @ children_of procs pid)"
proof -
  let ?found = "visited @ pid # rest" and ?cs = "children_of procs pid"
  let ?found' = "(visited @ [pid]) @ rest @ ?cs"
  have eq: "?found' = ?found @ ?cs" by simp
  have old: "?found \<noteq> []" "?found ! 0 = root" "distinct ?found" "\<forall>x \<in> set ?found. (parent_rel procs)\<^sup>*\<^sup>* root x"
      "\<forall>x \<in> set visited. \<forall>y. parent_rel procs x y \<longrightarrow> y \<in> set ?found"
      "\<forall>i < length ?found. i \<noteq> 0 \<longrightarrow> (\<exists>j < i. j < length visited \<and> parent_rel procs (?found ! j) (?found ! i))"
    using ok unfolding walk_ok_def Let_def by blast+
  have pid: "(parent_rel procs)\<^sup>*\<^sup>* root pid" using old(4) by simp
  have "distinct ?found'" unfolding eq
    using old(3) walk_ok_new [OF t ok] children_distinct [OF t] by (auto simp: children_of_iff)
  moreover have "\<forall>x \<in> set ?found'. (parent_rel procs)\<^sup>*\<^sup>* root x" unfolding eq
    using old(4) pid by (auto simp: children_of_iff intro: rtranclp.rtrancl_into_rtrancl)
  moreover have "\<forall>x \<in> set (visited @ [pid]). \<forall>y. parent_rel procs x y \<longrightarrow> y \<in> set ?found'" unfolding eq
    using old(5) by (auto simp: children_of_iff)
  moreover have "\<exists>j < i. j < length (visited @ [pid]) \<and> parent_rel procs (?found' ! j) (?found' ! i)"
    if i: "i < length ?found'" "i \<noteq> 0" for i
  proof (cases "i < length ?found")
    case True
    then obtain j where "j < i" "j < length visited" "parent_rel procs (?found ! j) (?found ! i)" using old(6) i by blast
    moreover have "?found' ! i = ?found ! i" "?found' ! j = ?found ! j"
      unfolding eq using True calculation by (simp_all only: nth_append, simp_all)
    ultimately show ?thesis by (metis length_append less_SucI list.size(3,4) add.right_neutral add_Suc_right)
  next
    case False
    then have "?found' ! i = ?cs ! (i - length ?found)" unfolding eq by (simp only: nth_append if_False)
    moreover have "i - length ?found < length ?cs" using False i(1) unfolding eq by auto
    ultimately have "?found' ! i \<in> set ?cs" by simp
    moreover have "?found' ! length visited = pid" by (simp add: nth_append)
    ultimately show ?thesis using False by (intro exI [of _ "length visited"]) (auto simp: children_of_iff)
  qed
  moreover have "?found' ! 0 = root" using old(1,2) unfolding eq by (simp only: nth_append, simp)
  ultimately show ?thesis unfolding walk_ok_def Let_def by blast
qed

text \<open>Each step visits one more process of the finite table, so the walk ends.\<close>

lemma walk_ok_known:
  assumes "walk_ok procs root visited pending" "x \<in> set (visited @ pending)"
  shows "x \<in> insert root (set (map pr_PID procs))"
proof -
  have "(parent_rel procs)\<^sup>*\<^sup>* root x" using assms by (simp add: walk_ok_def Let_def)
  then show ?thesis by (cases rule: rtranclp.cases) (auto simp: parent_rel_def)
qed

lemma bfs_total:
  assumes "sound_table age procs"
  shows "walk_ok procs root visited pending \<Longrightarrow> \<exists>tree. bfs procs visited pending = Some tree \<and> walk_ok procs root tree []"
proof (induction "Suc (length procs) - length visited" arbitrary: visited pending rule: less_induct)
  case less
  show ?case
  proof (cases pending)
    case Nil
    then show ?thesis using less.prems by (subst bfs.simps) auto
  next
    case (Cons pid rest)
    have "distinct (visited @ [pid])" using less.prems Cons by (simp add: walk_ok_def Let_def)
    then have "length (visited @ [pid]) = card (set (visited @ [pid]))" by (simp only: distinct_card)
    also have "\<dots> \<le> card (insert root (set (map pr_PID procs)))"
      using walk_ok_known [OF less.prems] Cons by (intro card_mono) auto
    also have "\<dots> \<le> Suc (card (set (map pr_PID procs)))" by (simp add: card_insert_if)
    also have "\<dots> \<le> Suc (length procs)" using card_length [of "map pr_PID procs"] by simp
    finally have dec: "Suc (length procs) - length (visited @ [pid]) < Suc (length procs) - length visited" by simp
    have "walk_ok procs root (visited @ [pid]) (rest @ children_of procs pid)"
      using walk_ok_step [OF assms] less.prems Cons by simp
    then obtain tree where "bfs procs (visited @ [pid]) (rest @ children_of procs pid) = Some tree" "walk_ok procs root tree []"
      using less.hyps [OF dec] by blast
    then show ?thesis using Cons by (subst bfs.simps) auto
  qed
qed

text \<open>A closed set of descendants of the root is all of them.\<close>

lemma walk_ok_all:
  assumes "walk_ok procs root tree []"
  shows "set tree = {x. (parent_rel procs)\<^sup>*\<^sup>* root x}"
proof
  show "set tree \<subseteq> {x. (parent_rel procs)\<^sup>*\<^sup>* root x}" using assms by (auto simp: walk_ok_def Let_def)
  have "x \<in> set tree" if "(parent_rel procs)\<^sup>*\<^sup>* root x" for x
    using that
  proof (induction rule: rtranclp_induct)
    case base
    then show ?case using assms by (simp add: walk_ok_def Let_def) (metis length_greater_0_conv nth_mem)
  next
    case (step y z)
    then show ?case using assms by (simp add: walk_ok_def Let_def)
  qed
  then show "{x. (parent_rel procs)\<^sup>*\<^sup>* root x} \<subseteq> set tree" by blast
qed

text \<open>
  C34. On the table of a kernel, where no process is older than its parent, the tree walk ends and is
  exact: it starts with the \<^verbatim>\<open>launchd_sim\<close> of the simulator, lists every descendant once and nothing
  else, and lists a parent before its children, which is the order the parker stops them in.
\<close>

theorem sim_tree_exact:
  assumes "sound_table age procs" "findLaunchdSim procs udid = root" "root \<noteq> 0"
  shows "\<exists>tree. simTree procs udid = Some tree \<and> tree \<noteq> [] \<and> tree ! 0 = root \<and> distinct tree \<and>
    set tree = {x. (parent_rel procs)\<^sup>*\<^sup>* root x} \<and>
    (\<forall>i < length tree. i \<noteq> 0 \<longrightarrow> (\<exists>j < i. parent_rel procs (tree ! j) (tree ! i)))"
proof -
  have "walk_ok procs root [] [root]" by (simp add: walk_ok_def)
  then obtain tree where t: "bfs procs [] [root] = Some tree" "walk_ok procs root tree []"
    using bfs_total [OF assms(1)] by blast
  have "simTree procs udid = Some tree" using t(1) assms(2,3) by (simp add: simTree_def)
  then show ?thesis using t(2) walk_ok_all [OF t(2)] by (simp add: walk_ok_def Let_def) blast
qed

definition host_procs :: "Proc list" where
  "host_procs =
     [\<lparr>pr_PID = 1, pr_PPID = 0, pr_RSSKB = 9, pr_State = ''S'', pr_Command = ''/sbin/launchd''\<rparr>,
      \<lparr>pr_PID = 70, pr_PPID = 1, pr_RSSKB = 20, pr_State = ''S'', pr_Command = ''launchd_sim Devices/AB-1/data''\<rparr>,
      \<lparr>pr_PID = 72, pr_PPID = 71, pr_RSSKB = 30, pr_State = ''S'', pr_Command = ''SpringBoard''\<rparr>,
      \<lparr>pr_PID = 71, pr_PPID = 70, pr_RSSKB = 30, pr_State = ''T'', pr_Command = ''backboardd''\<rparr>]"

theorem sim_tree_exact_witness:
  "simTree host_procs ''ab-1'' = Some [70, 71, 72] \<and> {x. (parent_rel host_procs)\<^sup>*\<^sup>* 70 x} = {70, 71, 72}"
proof -
  have s: "simTree host_procs ''ab-1'' = Some [70, 71, 72]" by code_simp
  have t: "sound_table nat host_procs" by code_simp
  have f: "findLaunchdSim host_procs ''ab-1'' = 70" by code_simp
  show ?thesis using sim_tree_exact [OF t f] s by auto
qed

end
