(* ===== verification/Mz_Parker.thy ===== *)
theory Mz_Parker
  imports Mz_Procs
begin

text \<open>
  The parker (\<^verbatim>\<open>internal/warm/park.go\<close>): freezing and thawing the process tree of a simulator, with a
  ledger of what is frozen. The world is the set of stopped processes; whether the kernel lets the
  daemon signal a process is a parameter. Maps of process identifiers are association lists.
\<close>

datatype signal = SIGSTOP | SIGCONT | SIGKILL

record parker =
  pk_parked :: "string \<rightharpoonup> int list"
  pk_owned :: "string \<rightharpoonup> (int \<times> string) list"

definition NewParker :: parker where
  "NewParker = \<lparr>pk_parked = Map.empty, pk_owned = Map.empty\<rparr>"

datatype park_error = ProcessesFailed string | ErrNotRunning string | SignalFailed string int signal

type_synonym world = "parker \<times> int set"

text \<open>The effect of one signal on the set of stopped processes, when it is delivered.\<close>

definition send :: "(int \<Rightarrow> signal \<Rightarrow> bool) \<Rightarrow> signal \<Rightarrow> int \<Rightarrow> int set \<Rightarrow> int set" where
  "send allowed sig pid stopped =
     (if \<not> allowed pid sig then stopped else if sig = SIGSTOP then insert pid stopped else stopped - {pid})"

text \<open>
  The loop that stops a tree: on the first refusal every process of the tree is continued, the
  outcome of those signals being ignored.
\<close>

fun stop_tree :: "(int \<Rightarrow> signal \<Rightarrow> bool) \<Rightarrow> int list \<Rightarrow> int list \<Rightarrow> int set \<Rightarrow> int set \<times> int option" where
  "stop_tree allowed tree [] stopped = (stopped, None)"
| "stop_tree allowed tree (pid # pids) stopped =
     (if allowed pid SIGSTOP then stop_tree allowed tree pids (send allowed SIGSTOP pid stopped)
      else (fold (send allowed SIGCONT) tree stopped, Some pid))"

definition commands :: "Proc list \<Rightarrow> int \<rightharpoonup> string" where
  "commands procs = map_of (rev (map (\<lambda>p. (pr_PID p, pr_Command p)) procs))"

definition merge_owned :: "Proc list \<Rightarrow> int list \<Rightarrow> (int \<times> string) list \<Rightarrow> (int \<times> string) list" where
  "merge_owned procs tree owned =
     filter (\<lambda>(pid, cmd). commands procs pid = Some cmd \<and> pid \<notin> set tree) owned @
     map (\<lambda>pid. (pid, case commands procs pid of Some c \<Rightarrow> c | None \<Rightarrow> [])) (remdups tree)"

text \<open>\<^verbatim>\<open>Park\<close>; \<^const>\<open>None\<close> is a tree walk that does not end.\<close>

definition Park ::
  "(int \<Rightarrow> signal \<Rightarrow> bool) \<Rightarrow> string + Proc list \<Rightarrow> string \<Rightarrow> world \<Rightarrow> (world \<times> park_error option) option"
where
  "Park allowed listing udid w =
     (case (w, listing) of
        ((pk, stopped), Inl e) \<Rightarrow> Some (w, Some (ProcessesFailed e))
      | ((pk, stopped), Inr procs) \<Rightarrow>
          (case simTree procs udid of
             None \<Rightarrow> None
           | Some tree \<Rightarrow>
               if tree = [] then Some (w, Some (ErrNotRunning udid))
               else
                 (case stop_tree allowed tree tree stopped of
                    (stopped', Some pid) \<Rightarrow> Some ((pk, stopped'), Some (SignalFailed udid pid SIGSTOP))
                  | (stopped', None) \<Rightarrow>
                      let owned = (case pk_owned pk udid of None \<Rightarrow> [] | Some o' \<Rightarrow> o') in
                      Some ((pk\<lparr>pk_parked := (pk_parked pk)(udid \<mapsto> tree),
                                pk_owned := (pk_owned pk)(udid \<mapsto> merge_owned procs tree owned)\<rparr>, stopped'), None))))"

definition Thaw :: "(int \<Rightarrow> signal \<Rightarrow> bool) \<Rightarrow> string \<Rightarrow> world \<Rightarrow> world \<times> park_error option" where
  "Thaw allowed udid w =
     (case w of (pk, stopped) \<Rightarrow>
        (case pk_parked pk udid of
           None \<Rightarrow> (w, None)
         | Some tree \<Rightarrow>
             let stopped' = fold (send allowed SIGCONT) tree stopped in
             (case find (\<lambda>pid. \<not> allowed pid SIGCONT) tree of
                Some pid \<Rightarrow> ((pk, stopped'), Some (SignalFailed udid pid SIGCONT))
              | None \<Rightarrow> ((pk\<lparr>pk_parked := (pk_parked pk)(udid := None)\<rparr>, stopped'), None))))"

definition ForgetParked :: "string \<Rightarrow> parker \<Rightarrow> parker" where
  "ForgetParked udid pk = pk\<lparr>pk_parked := (pk_parked pk)(udid := None)\<rparr>"

definition IsParked :: "parker \<Rightarrow> string \<Rightarrow> bool" where
  "IsParked pk udid \<longleftrightarrow> pk_parked pk udid \<noteq> None"

definition ParkedCount :: "string list \<Rightarrow> parker \<Rightarrow> nat" where
  "ParkedCount ks pk = length (range_over (pk_parked pk) ks)"

definition ParkedTree :: "parker \<Rightarrow> string \<Rightarrow> int list" where
  "ParkedTree pk udid = (case pk_parked pk udid of None \<Rightarrow> [] | Some tree \<Rightarrow> tree)"

definition OwnedTree :: "parker \<Rightarrow> string \<Rightarrow> (int \<times> string) list" where
  "OwnedTree pk udid = (case pk_owned pk udid of None \<Rightarrow> [] | Some o' \<Rightarrow> o')"

definition ForgetOwned :: "string \<Rightarrow> parker \<Rightarrow> parker" where
  "ForgetOwned udid pk = pk\<lparr>pk_owned := (pk_owned pk)(udid := None)\<rparr>"

definition ThawAll :: "(int \<Rightarrow> signal \<Rightarrow> bool) \<Rightarrow> string list \<Rightarrow> world \<Rightarrow> world" where
  "ThawAll allowed ks w = fold (\<lambda>u w. fst (Thaw allowed u w)) (range_over (pk_parked (fst w)) ks) w"

section \<open>Nothing frozen is forgotten\<close>

lemma send_cont_fold:
  "fold (send allowed SIGCONT) tree stopped = stopped - {pid \<in> set tree. allowed pid SIGCONT}"
  by (induction tree arbitrary: stopped) (auto simp: send_def)

lemma stop_tree_ok:
  "stop_tree allowed tree pids stopped = (stopped', None) \<Longrightarrow> stopped' = stopped \<union> set pids"
  by (induction allowed tree pids stopped rule: stop_tree.induct) (auto simp: send_def split: if_splits)

lemma stop_tree_fail:
  assumes "\<forall>pid. allowed pid SIGSTOP \<longrightarrow> allowed pid SIGCONT" "set pids \<subseteq> set tree"
  shows "stop_tree allowed tree pids stopped = (stopped', Some x) \<Longrightarrow> stopped' \<subseteq> stopped"
  using assms(2)
proof (induction pids arbitrary: stopped)
  case (Cons pid pids)
  show ?case
  proof (cases "allowed pid SIGSTOP")
    case False
    then show ?thesis using Cons.prems by (auto simp: send_cont_fold)
  next
    case True
    have tail: "stop_tree allowed tree pids (insert pid stopped) = (stopped', Some x)"
      using Cons.prems True by (simp add: send_def)
    have "stop_tree allowed tree qs S = (S', Some x) \<Longrightarrow> set qs \<subseteq> set tree \<Longrightarrow>
        S' \<inter> {q \<in> set tree. allowed q SIGCONT} = {}" for qs S S'
      by (induction qs arbitrary: S) (auto simp: send_cont_fold split: if_splits)
    from this [OF tail] have "pid \<notin> stopped'" using Cons.prems(2) assms(1) True by auto
    moreover have "stopped' \<subseteq> insert pid stopped" using Cons.IH [OF tail] Cons.prems(2) by simp
    ultimately show ?thesis by blast
  qed
qed simp

text \<open>Every stopped process is in a tree of the ledger.\<close>

definition frozen_known :: "world \<Rightarrow> bool" where
  "frozen_known w \<longleftrightarrow> snd w \<subseteq> (\<Union>tree \<in> ran (pk_parked (fst w)). set tree)"

lemma frozen_known_iff:
  "frozen_known (pk, stopped) \<longleftrightarrow> (\<forall>pid \<in> stopped. \<exists>u tree. pk_parked pk u = Some tree \<and> pid \<in> set tree)"
  unfolding frozen_known_def ran_def subset_iff UN_iff by (auto; metis)

lemma frozen_knownI:
  "(\<And>pid. pid \<in> stopped \<Longrightarrow> \<exists>u tree. pk_parked pk u = Some tree \<and> pid \<in> set tree) \<Longrightarrow> frozen_known (pk, stopped)"
  by (simp add: frozen_known_iff)

lemma frozen_knownD:
  "frozen_known (pk, stopped) \<Longrightarrow> pid \<in> stopped \<Longrightarrow> \<exists>u tree. pk_parked pk u = Some tree \<and> pid \<in> set tree"
  by (simp add: frozen_known_iff)

lemma Park_known:
  assumes perm: "\<forall>pid. allowed pid SIGSTOP \<longrightarrow> allowed pid SIGCONT"
    and known: "frozen_known w" and fresh: "\<not> IsParked (fst w) udid"
    and park: "Park allowed listing udid w = Some (w', r)"
  shows "frozen_known w'"
proof -
  obtain pk stopped where w: "w = (pk, stopped)" by (cases w)
  consider "w' = w" | tree stopped' pid where "w' = (pk, stopped')" "stop_tree allowed tree tree stopped = (stopped', Some pid)"
    | tree pk' where "w' = (pk', stopped \<union> set tree)" "pk_parked pk' = (pk_parked pk)(udid \<mapsto> tree)"
    using park w by (auto simp: Park_def Let_def dest: stop_tree_ok split: sum.splits option.splits if_splits prod.splits)
  then show ?thesis
  proof cases
    case 2
    then have "stopped' \<subseteq> stopped" using stop_tree_fail [OF perm] by blast
    then show ?thesis using known 2(1) w by (auto simp: frozen_known_def)
  next
    case 3
    show ?thesis unfolding 3(1)
    proof (rule frozen_knownI)
      fix pid assume "pid \<in> stopped \<union> set tree"
      then show "\<exists>u t. pk_parked pk' u = Some t \<and> pid \<in> set t"
        using frozen_knownD [of pk stopped pid] known fresh w 3(2) by (auto simp: IsParked_def split: if_splits)
          (metis option.distinct(1))
    qed
  qed (use known in simp)
qed

lemma Thaw_known:
  assumes "frozen_known w"
  shows "frozen_known (fst (Thaw allowed udid w))"
proof -
  obtain pk stopped where w: "w = (pk, stopped)" by (cases w)
  show ?thesis
  proof (cases "pk_parked pk udid")
    case None
    then show ?thesis using assms w by (simp add: Thaw_def)
  next
    case (Some tree)
    let ?left = "stopped - {pid \<in> set tree. allowed pid SIGCONT}"
    show ?thesis
    proof (cases "find (\<lambda>pid. \<not> allowed pid SIGCONT) tree")
      case None
      then have "?left = stopped - set tree" by (auto simp: find_None_iff)
      moreover have "fst (Thaw allowed udid w) = (pk\<lparr>pk_parked := (pk_parked pk)(udid := None)\<rparr>, ?left)"
        using Some None w by (simp add: Thaw_def send_cont_fold)
      moreover have "\<exists>u t. ((pk_parked pk)(udid := None)) u = Some t \<and> pid \<in> set t" if left: "pid \<in> stopped - set tree" for pid
      proof -
        obtain u t where "pk_parked pk u = Some t" "pid \<in> set t" using frozen_knownD [of pk stopped pid] assms w left by blast
        moreover from this have "u \<noteq> udid" using Some left by auto
        ultimately show ?thesis by (intro exI [of _ u] exI [of _ t]) simp
      qed
      ultimately show ?thesis by (auto intro!: frozen_knownI)
    next
      case (Some pid)
      then show ?thesis using \<open>pk_parked pk udid = Some tree\<close> assms w
        by (auto simp: Thaw_def send_cont_fold frozen_known_def)
    qed
  qed
qed

lemma Thaw_all_allowed:
  assumes "\<And>pid. allowed pid SIGCONT" "pk_parked pk udid = Some tree"
  shows "fst (Thaw allowed udid (pk, stopped)) = (pk\<lparr>pk_parked := (pk_parked pk)(udid := None)\<rparr>, stopped - set tree)"
proof -
  have "find (\<lambda>pid. \<not> allowed pid SIGCONT) tree = None" using assms(1) by (simp add: find_None_iff)
  then show ?thesis using assms by (simp add: Thaw_def send_cont_fold)
qed

lemma ThawAll_ledger:
  assumes allowed: "\<And>pid. allowed pid SIGCONT"
  shows "pk_parked (fst (fold (\<lambda>u w. fst (Thaw allowed u w)) us w)) = (pk_parked (fst w)) |` (- set us)"
proof (induction us arbitrary: w)
  case (Cons u us)
  obtain pk stopped where w: "w = (pk, stopped)" by (cases w)
  have "pk_parked (fst (fst (Thaw allowed u w))) = (pk_parked pk)(u := None)"
  proof (cases "pk_parked pk u")
    case None
    then show ?thesis using w by (auto simp: Thaw_def)
  next
    case (Some tree)
    then show ?thesis using Thaw_all_allowed [of allowed] allowed w by simp
  qed
  then show ?case using Cons.IH w by (auto simp: restrict_map_def)
qed (simp add: restrict_map_def)

text \<open>
  The parker over time: parks of sims that are not parked, thaws, processes that exit, and ledger
  entries dropped once no process of the tree is left.
\<close>

inductive parker_step :: "(int \<Rightarrow> signal \<Rightarrow> bool) \<Rightarrow> world \<Rightarrow> world \<Rightarrow> bool" for allowed where
  ps_park: "\<not> IsParked (fst w) udid \<Longrightarrow> Park allowed listing udid w = Some (w', r) \<Longrightarrow> parker_step allowed w w'"
| ps_thaw: "parker_step allowed w (fst (Thaw allowed udid w))"
| ps_exit: "parker_step allowed (pk, stopped) (pk, stopped - {pid})"
| ps_forget: "set (ParkedTree pk udid) \<inter> stopped = {} \<Longrightarrow> parker_step allowed (pk, stopped) (ForgetParked udid pk, stopped)"

lemma parker_step_known:
  assumes perm: "\<forall>pid. allowed pid SIGSTOP \<longrightarrow> allowed pid SIGCONT"
  shows "parker_step allowed w w' \<Longrightarrow> frozen_known w \<Longrightarrow> frozen_known w'"
proof (induction rule: parker_step.induct)
  case (ps_park w udid listing w' r)
  then show ?case using Park_known [OF perm] by blast
next
  case (ps_thaw w udid)
  then show ?case by (rule Thaw_known)
next
  case (ps_exit pk stopped pid)
  then show ?case by (auto simp: frozen_known_def)
next
  case (ps_forget pk udid stopped)
  show ?case
  proof (rule frozen_knownI)
    fix pid assume pid: "pid \<in> stopped"
    then obtain u t where "pk_parked pk u = Some t" "pid \<in> set t" using frozen_knownD ps_forget(2) by blast
    moreover from this have "u \<noteq> udid" using ps_forget(1) pid by (auto simp: ParkedTree_def)
    ultimately show "\<exists>u t. pk_parked (ForgetParked udid pk) u = Some t \<and> pid \<in> set t"
      by (intro exI [of _ u] exI [of _ t]) (simp add: ForgetParked_def)
  qed
qed



end
