(* ===== verification/Mz_ParkRace.thy ===== *)
theory Mz_ParkRace
  imports Mz_Parker
begin

text \<open>
  Parking against granting: the interleavings of \<^verbatim>\<open>parkIdle\<close>, \<^verbatim>\<open>OnGrant\<close> and \<^verbatim>\<open>Parker.Thaw\<close>
  (\<^verbatim>\<open>internal/warm/pool.go\<close>, \<^verbatim>\<open>internal/warm/park.go\<close>) on one simulator. Each thread is the
  point it has reached; one step is one access to shared state, a section under the mutex or one
  signal. The tree of the simulator is fixed and the kernel accepts the signals; refused signals
  are treated in the theory of the parker.
\<close>

section \<open>Threads and their steps\<close>

datatype pc =
    PStart                     \<comment> \<open>\<^verbatim>\<open>parkIdle\<close>, before \<^verbatim>\<open>isLeased\<close>\<close>
  | PSeq                       \<comment> \<open>before \<^verbatim>\<open>seq := grantSeqOf\<close>\<close>
  | PPark "int list" nat       \<comment> \<open>in the SIGSTOP loop\<close>
  | PLedger nat                \<comment> \<open>before the ledger entry is written\<close>
  | PCheckSeq nat              \<comment> \<open>before \<^verbatim>\<open>grantSeqOf(udid) != seq\<close>\<close>
  | PCheckLeased               \<comment> \<open>before the second \<^verbatim>\<open>isLeased\<close>\<close>
  | GSeq                       \<comment> \<open>\<^verbatim>\<open>OnGrant\<close>, before \<^verbatim>\<open>grantSeq++\<close>\<close>
  | GIsParked                  \<comment> \<open>before \<^verbatim>\<open>IsParked\<close>\<close>
  | TRead                      \<comment> \<open>\<^verbatim>\<open>Thaw\<close>, before the ledger is read\<close>
  | TCont "int list"           \<comment> \<open>in the SIGCONT loop\<close>
  | TForget                    \<comment> \<open>before the ledger entry is deleted\<close>
  | PDone

record race =
  r_leased :: bool
  r_seq :: nat
  r_ledger :: bool
  r_stopped :: "int set"
  r_threads :: "pc list"

definition race_init :: race where
  "race_init = \<lparr>r_leased = False, r_seq = 0, r_ledger = False, r_stopped = {}, r_threads = []\<rparr>"

text \<open>
  The second disjunction of \<^verbatim>\<open>parkIdle\<close> has more disjuncts (closed, busy, awake, streaming,
  recording): \<open>other\<close> stands for them.
\<close>

fun thread_step :: "int list \<Rightarrow> bool \<Rightarrow> pc \<Rightarrow> race \<Rightarrow> pc \<times> race" where
  "thread_step tree other PStart s = (if r_leased s \<or> other then PDone else PSeq, s)"
| "thread_step tree other PSeq s = (PPark tree (r_seq s), s)"
| "thread_step tree other (PPark [] seq) s = (PLedger seq, s)"
| "thread_step tree other (PPark (pid # pids) seq) s = (PPark pids seq, s\<lparr>r_stopped := insert pid (r_stopped s)\<rparr>)"
| "thread_step tree other (PLedger seq) s = (PCheckSeq seq, s\<lparr>r_ledger := True\<rparr>)"
| "thread_step tree other (PCheckSeq seq) s = (if r_seq s \<noteq> seq then TRead else PCheckLeased, s)"
| "thread_step tree other PCheckLeased s = (if r_leased s \<or> other then TRead else PDone, s)"
| "thread_step tree other GSeq s = (GIsParked, s\<lparr>r_seq := r_seq s + 1\<rparr>)"
| "thread_step tree other GIsParked s = (if r_ledger s then TRead else PDone, s)"
| "thread_step tree other TRead s = (if r_ledger s then TCont tree else PDone, s)"
| "thread_step tree other (TCont []) s = (TForget, s)"
| "thread_step tree other (TCont (pid # pids)) s = (TCont pids, s\<lparr>r_stopped := r_stopped s - {pid}\<rparr>)"
| "thread_step tree other TForget s = (PDone, s\<lparr>r_ledger := False\<rparr>)"
| "thread_step tree other PDone s = (PDone, s)"

datatype race_act =
    Grant            \<comment> \<open>a lease becomes active; its \<^verbatim>\<open>OnGrant\<close> starts\<close>
  | LeaseEnd
  | StartPark        \<comment> \<open>the watchdog or \<^verbatim>\<open>rePark\<close> calls \<^verbatim>\<open>parkIdle\<close> on a sim that is not parked\<close>
  | StartThaw        \<comment> \<open>\<^verbatim>\<open>EnsureThawed\<close>, \<^verbatim>\<open>SafeShutdown\<close> or a boot calls \<^verbatim>\<open>Thaw\<close>\<close>
  | Step nat bool

definition spawn :: "pc \<Rightarrow> race \<Rightarrow> race" where
  "spawn pc s = s\<lparr>r_threads := r_threads s @ [pc]\<rparr>"

definition quiet :: "race \<Rightarrow> bool" where
  "quiet s \<longleftrightarrow> (\<forall>pc \<in> set (r_threads s). pc = PDone)"

text \<open>
  With \<open>strict\<close>, a park starts only when no earlier park, thaw or grant is still running; the code
  only asks that the sim is not in the ledger. \<^const>\<open>None\<close> is an action that is not enabled.
\<close>

fun perform :: "int list \<Rightarrow> bool \<Rightarrow> race_act \<Rightarrow> race \<Rightarrow> race option" where
  "perform tree strict Grant s = (if r_leased s then None else Some (spawn GSeq (s\<lparr>r_leased := True\<rparr>)))"
| "perform tree strict LeaseEnd s = Some (s\<lparr>r_leased := False\<rparr>)"
| "perform tree strict StartPark s =
     (if r_ledger s \<or> strict \<and> \<not> quiet s then None else Some (spawn PStart s))"
| "perform tree strict StartThaw s = Some (spawn TRead s)"
| "perform tree strict (Step i other) s =
     (if i < length (r_threads s)
      then (case thread_step tree other (r_threads s ! i) s of (pc, s') \<Rightarrow> Some (s'\<lparr>r_threads := (r_threads s)[i := pc]\<rparr>))
      else None)"

abbreviation run_race :: "int list \<Rightarrow> bool \<Rightarrow> race_act list \<Rightarrow> race \<Rightarrow> race option" where
  "run_race tree strict \<equiv> foldM (perform tree strict)"

section \<open>A leased simulator is awake\<close>

text \<open>Threads between the first signal and the ledger entry, and threads that end in a thaw.\<close>

fun stopping :: "pc \<Rightarrow> bool" where
  "stopping (PPark _ _) = True"
| "stopping (PLedger _) = True"
| "stopping _ = False"

fun parking :: "pc \<Rightarrow> bool" where
  "parking PStart = True"
| "parking PSeq = True"
| "parking (PPark _ _) = True"
| "parking (PLedger _) = True"
| "parking _ = False"

fun responsible :: "pc \<Rightarrow> bool" where
  "responsible PStart = False"
| "responsible PSeq = False"
| "responsible PDone = False"
| "responsible _ = True"

fun thawing :: "pc \<Rightarrow> bool" where
  "thawing (TCont _) = True"
| "thawing TForget = True"
| "thawing _ = False"

text \<open>What a thread that has reached a point of the thaw says of the stopped processes.\<close>

fun stays :: "int set \<Rightarrow> pc \<Rightarrow> bool" where
  "stays stopped (TCont pids) = (stopped \<subseteq> set pids)"
| "stays stopped TForget = (stopped = {})"
| "stays stopped _ = True"

fun within :: "int set \<Rightarrow> pc \<Rightarrow> bool" where
  "within tree (PPark pids _) = (set pids \<subseteq> tree)"
| "within tree _ = True"

definition race_inv :: "int list \<Rightarrow> race \<Rightarrow> bool" where
  "race_inv tree s \<longleftrightarrow>
     r_stopped s \<subseteq> set tree \<and>
     (r_stopped s = {} \<or> r_ledger s \<or> list_ex stopping (r_threads s)) \<and>
     list_all (stays (r_stopped s)) (r_threads s) \<and>
     (\<not> r_leased s \<or> r_stopped s = {} \<or> list_ex responsible (r_threads s)) \<and>
     (list_all (Not \<circ> parking) (r_threads s) \<or> \<not> r_ledger s \<and> list_all (Not \<circ> thawing) (r_threads s)) \<and>
     length (filter parking (r_threads s)) \<le> 1 \<and>
     list_all (within (set tree)) (r_threads s)"

lemma race_init_inv: "race_inv tree race_init"
  by (simp add: race_inv_def race_init_def)

lemma list_all_weaken: "list_all P xs \<Longrightarrow> (\<And>x. P x \<Longrightarrow> Q x) \<Longrightarrow> list_all Q xs"
  by (simp add: list_all_iff)

lemma stays_fewer: "list_all (stays S) ts \<Longrightarrow> S' \<subseteq> S \<Longrightarrow> list_all (stays S') ts"
  by (rule list_all_weaken, assumption) (auto elim!: stays.elims)

lemma stays_idle: "list_all (Not \<circ> thawing) ts \<Longrightarrow> list_all (stays S) ts"
proof (rule list_all_weaken)
  show "stays S pc" if "(Not \<circ> thawing) pc" for pc using that by (cases pc) auto
qed

lemma not_parking_not_stopping: "list_all (Not \<circ> parking) ts \<Longrightarrow> \<not> list_ex stopping ts"
  by (induction ts) (auto elim!: stopping.elims)

lemma stopping_responsible: "list_ex stopping ts \<Longrightarrow> list_ex responsible ts"
  by (induction ts) (auto elim!: stopping.elims)

lemma parking_none_iff: "length (filter parking ts) = 0 \<longleftrightarrow> list_all (Not \<circ> parking) ts"
  by (auto simp: filter_empty_conv list_all_iff)

lemmas race_inv_simps = race_inv_def list_all_append list_ex_append

text \<open>The thread that steps stands between the threads \<open>as\<close> and \<open>bs\<close>.\<close>

lemma thread_step_inv:
  assumes inv: "race_inv tree (s\<lparr>r_threads := as @ pc # bs\<rparr>)" and step: "thread_step tree other pc s = (pc', s')"
  shows "race_inv tree (s'\<lparr>r_threads := as @ pc' # bs\<rparr>)"
proof (cases "parking pc")
  case True
  then have alone: "list_all (Not \<circ> parking) as" "list_all (Not \<circ> parking) bs"
    using inv by (simp_all add: race_inv_def flip: parking_none_iff)
  have idle: "list_all (Not \<circ> thawing) as" "list_all (Not \<circ> thawing) bs" "\<not> r_ledger s"
    using inv True by (simp_all add: race_inv_simps)
  have none: "length (filter parking as) = 0" "length (filter parking bs) = 0"
    using alone by (simp_all only: parking_none_iff)
  show ?thesis
    using inv step True alone idle none stays_idle [OF idle(1)] stays_idle [OF idle(2)]
      not_parking_not_stopping [OF alone(1)] not_parking_not_stopping [OF alone(2)]
    by (cases "(tree, other, pc, s)" rule: thread_step.cases) (auto simp: race_inv_simps split: if_splits)
next
  case False
  have fewer: "list_all (stays (r_stopped s - {pid})) as" "list_all (stays (r_stopped s - {pid})) bs" for pid
    using inv by (auto simp: race_inv_simps intro: stays_fewer)
  show ?thesis
    using inv step False fewer stopping_responsible [of as] stopping_responsible [of bs]
    by (cases "(tree, other, pc, s)" rule: thread_step.cases) (auto simp: race_inv_simps split: if_splits)
qed

lemma quiet_none:
  assumes "quiet s"
  shows "list_all (Not \<circ> parking) (r_threads s)" "list_all (Not \<circ> thawing) (r_threads s)"
    "\<not> list_ex stopping (r_threads s)" "\<not> list_ex responsible (r_threads s)"
  using assms by (auto simp: quiet_def list_all_iff list_ex_iff)

lemma spawn_inv:
  assumes "race_inv tree s" "\<not> parking pc" "\<not> thawing pc"
  shows "race_inv tree (spawn pc s)"
proof -
  have "stays (r_stopped s) pc" "within (set tree) pc" "\<not> stopping pc"
    using assms(2,3) by (cases pc; simp)+
  then show ?thesis using assms by (auto simp: race_inv_simps spawn_def)
qed

lemma perform_inv:
  assumes inv: "race_inv tree s" and "perform tree True act s = Some s'"
  shows "race_inv tree s'"
proof (cases act)
  case Grant
  then have "s' = spawn GSeq s\<lparr>r_leased := True\<rparr>" using assms(2) by (auto simp: spawn_def split: if_splits)
  then show ?thesis using inv by (auto simp: race_inv_simps spawn_def)
next
  case LeaseEnd
  then show ?thesis using assms by (auto simp: race_inv_def)
next
  case StartPark
  then have s': "s' = spawn PStart s" "\<not> r_ledger s" "quiet s" using assms(2) by (auto split: if_splits)
  have "filter parking (r_threads s) = []"
    using quiet_none(1) [OF s'(3)] by (simp flip: parking_none_iff)
  then show ?thesis using inv s'(1,2) quiet_none [OF s'(3)] by (auto simp: race_inv_simps spawn_def)
next
  case StartThaw
  then show ?thesis using assms by (auto intro: spawn_inv)
next
  case (Step i other)
  then have i: "i < length (r_threads s)" using assms(2) by (auto split: if_splits)
  obtain pc s'' where step: "thread_step tree other (r_threads s ! i) s = (pc, s'')" by fastforce
  have "s = s\<lparr>r_threads := take i (r_threads s) @ r_threads s ! i # drop (Suc i) (r_threads s)\<rparr>"
    using split_at_nth [OF i] by simp
  then have "race_inv tree (s''\<lparr>r_threads := take i (r_threads s) @ pc # drop (Suc i) (r_threads s)\<rparr>)"
    using thread_step_inv [OF _ step] inv by metis
  moreover have "s' = s''\<lparr>r_threads := take i (r_threads s) @ pc # drop (Suc i) (r_threads s)\<rparr>"
    using assms(2) Step step i by (simp add: upd_conv_take_nth_drop)
  ultimately show ?thesis by simp
qed

lemma run_race_inv: "run_race tree True acts s = Some s' \<Longrightarrow> race_inv tree s \<Longrightarrow> race_inv tree s'"
  by (induction acts arbitrary: s) (auto simp: bind_eq_Some_conv intro: perform_inv)


definition mid_park_grant :: "race_act list" where
  "mid_park_grant =
     [StartPark, Step 0 False, Step 0 False, Step 0 False, Grant, Step 1 False, Step 1 False] @
     replicate 9 (Step 0 False)"


text \<open>A schedule in which a late deletion hits a newer ledger entry.\<close>

definition late_delete :: "race_act list" where
  "late_delete =
     [StartPark] @ replicate 8 (Step 0 False) @
     [Grant] @ replicate 6 (Step 1 False) @
     [LeaseEnd, StartThaw] @ replicate 5 (Step 2 False) @
     [StartPark] @ replicate 8 (Step 3 False) @
     [Step 1 False, Grant, Step 4 False, Step 4 False]"


end
