(* ===== verification/Mz_Pool.thy ===== *)
theory Mz_Pool
  imports Mz_Parker Mz_Registry Complex_Main
begin

text \<open>
  The warm pool (\<^verbatim>\<open>internal/warm/pool.go\<close>, \<^verbatim>\<open>gates.go\<close>, \<^verbatim>\<open>class.go\<close>): boots behind safety gates, parked
  members, adoption, recycling and shutdown. Every operation takes the answers of the outside (the
  raw registry, \<^verbatim>\<open>simctl\<close>, the process table, the kernel's gauges, the lease manager) from an
  environment, indexed by a counter of calls, so that two calls may be answered differently. What
  other goroutines add to the shared state while an operation runs (grants, transitions, wake
  marks, the closing of the pool) also comes from the environment, at the moment it is read.

  An operation returns \<^const>\<open>None\<close> when it does not return: the tree walk does not end on a process table
  with a cycle. Effects on the outside are recorded in a trace, newest first.
\<close>

section \<open>Configuration\<close>

record CapacityClass =
  MaxBootedRunning :: int
  MaxParked :: int
  MaxConcurrentBoots :: int

definition IntelClass :: CapacityClass where
  "IntelClass = \<lparr>MaxBootedRunning = 2, MaxParked = 6, MaxConcurrentBoots = 1\<rparr>"

definition AppleSiliconClass :: CapacityClass where
  "AppleSiliconClass = \<lparr>MaxBootedRunning = 4, MaxParked = 4, MaxConcurrentBoots = 2\<rparr>"

definition DetectClass :: "string \<Rightarrow> CapacityClass" where
  "DetectClass arch = (if arch = ''arm64'' then AppleSiliconClass else IntelClass)"

definition DefaultLoadFactor :: rat where "DefaultLoadFactor = 2"
definition DefaultMinFreeDisk :: int where "DefaultMinFreeDisk = 5 * 2 ^ 30"
definition bootWait :: duration where "bootWait = 5 * Minute"
definition bootPoll :: duration where "bootPoll = 2 * Second"
definition wakeGrace :: duration where "wakeGrace = 15 * Minute"
definition runningCacheTTL :: duration where "runningCacheTTL = 15 * Second"

record pool_config =
  cf_Class :: CapacityClass
  cf_LoadFactor :: rat
  cf_MinFreeDisk :: int
  cf_Slim :: bool                   \<comment> \<open>a slim function is wired\<close>
  cf_ReapStaleLocks :: bool

text \<open>\<^verbatim>\<open>NewPool\<close>: the configuration with its defaults.\<close>

definition pool_defaults :: "string \<Rightarrow> pool_config \<Rightarrow> pool_config" where
  "pool_defaults arch cf =
     (let zero = \<lparr>MaxBootedRunning = 0, MaxParked = 0, MaxConcurrentBoots = 0\<rparr>;
          c0 = (if cf_Class cf = zero then DetectClass arch else cf_Class cf);
          c1 = (if MaxConcurrentBoots c0 \<le> 0 then c0\<lparr>MaxConcurrentBoots := 1\<rparr> else c0);
          c2 = (if MaxParked c1 \<le> 0 then c1\<lparr>MaxParked := MaxParked (DetectClass arch)\<rparr> else c1)
      in cf\<lparr>cf_Class := c2,
            cf_LoadFactor := (if cf_LoadFactor cf = 0 then DefaultLoadFactor else cf_LoadFactor cf),
            cf_MinFreeDisk := (if cf_MinFreeDisk cf = 0 then DefaultMinFreeDisk else cf_MinFreeDisk cf)\<rparr>)"

section \<open>State\<close>

datatype pool_error =
    HostFailed string
  | RegistryFailed reg_error
  | ErrLoadTooHigh rat rat
  | ErrDiskTooLow int int
  | ErrTooManyRunning nat int
  | ErrPoolFull nat int
  | ParkFailed park_error
  | TargetLeased string
  | RecordingFinalizing string
  | ToolFailed string string        \<comment> \<open>erase or slim\<close>
  | ContextDone
  | NoBootSlot
  | NeverBooted string
  | PreviousBootFailed string pool_error
  | In string pool_error            \<comment> \<open>\<^verbatim>\<open>fmt.Errorf("...: %w", err)\<close>\<close>

text \<open>What an operation does to the outside.\<close>

datatype effect =
    Reserved string bool            \<comment> \<open>a hold taken, and whether it displaced a quarantine\<close>
  | Released string bool            \<comment> \<open>a hold released, and whether as rebuilt\<close>
  | MarkedClean string
  | Parked string                   \<comment> \<open>a ledger entry written\<close>
  | Thawed string                   \<comment> \<open>a ledger entry dropped\<close>
  | Gated string                    \<comment> \<open>the gates let a boot of the target pass\<close>
  | BootCall string
  | DeviceBootCall string
  | ShutdownCall string
  | ErasedCall string bool          \<comment> \<open>an erase, and whether it succeeded\<close>
  | SlimCall string
  | Killed int
  | NotedShutdown string
  | ReportedShutdown string string string
  | ReportedBoot string

text \<open>What the file system says of a lock file: its modification time and up to 4096 bytes of it.\<close>

datatype lock_file = NoLockFile | LockUnreadable | LockFile instant string

record host_env =
  e_list :: "nat \<Rightarrow> reg_error + target list"
  e_get :: "nat \<Rightarrow> string \<Rightarrow> reg_error + target"
  e_health :: "nat \<Rightarrow> string \<Rightarrow> TargetState \<times> reg_error option"
  e_boot :: "nat \<Rightarrow> string \<Rightarrow> reg_error option"
  e_shutdown :: "nat \<Rightarrow> string \<Rightarrow> reg_error option"
  e_erase :: "nat \<Rightarrow> string \<Rightarrow> string option"
  e_slim :: "nat \<Rightarrow> string \<Rightarrow> string option"
  e_procs :: "nat \<Rightarrow> string + Proc list"
  e_allowed :: "nat \<Rightarrow> int \<Rightarrow> signal \<Rightarrow> bool"
  e_load :: "nat \<Rightarrow> string + rat"
  e_cpus :: nat
  e_disk :: "nat \<Rightarrow> string + int"
  e_footprint :: "nat \<Rightarrow> int list \<Rightarrow> string + int"
  e_reserve :: "nat \<Rightarrow> string \<Rightarrow> bool option"
  e_leased :: "nat \<Rightarrow> string \<Rightarrow> bool"
  e_streaming :: "nat \<Rightarrow> string \<Rightarrow> bool"
  e_recording :: "nat \<Rightarrow> string \<Rightarrow> bool"
  e_slot :: "nat \<Rightarrow> bool"
  e_expired :: "nat \<Rightarrow> bool"
  e_delay :: "nat \<Rightarrow> nat"
  e_order :: "nat \<Rightarrow> string list"
  e_lockdir :: "nat \<Rightarrow> bool"
  e_lockfile :: "nat \<Rightarrow> string \<Rightarrow> lock_file"
  e_others :: "nat \<Rightarrow> string \<Rightarrow> nat"
  e_grants :: "nat \<Rightarrow> string \<Rightarrow> nat"
  e_awake :: "nat \<Rightarrow> string \<Rightarrow> bool"
  e_closing :: "nat \<Rightarrow> bool"

record pool =
  wp_parker :: parker
  wp_stopped :: "int set"
  wp_members :: "string set"
  wp_busy :: "string \<Rightarrow> nat"
  wp_grantSeq :: "string \<Rightarrow> 64 word"
  wp_closed :: bool
  wp_parking :: nat
  wp_awakeUntil :: "string \<rightharpoonup> instant"
  wp_down :: "string set"
  wp_rebuildNext :: "string \<rightharpoonup> instant"
  wp_rebuildWait :: "string \<rightharpoonup> duration"
  wp_daemonBooted :: "string set"
  wp_idleSince :: "string \<rightharpoonup> instant"
  wp_staleSince :: "string \<rightharpoonup> instant"
  wp_lastLockDecision :: "string \<rightharpoonup> string"
  wp_reapedN :: nat
  wp_lockDirWarned :: bool
  wp_configuredPool :: "string set"
  wp_lastUnmanaged :: string
  wp_unmanagedN :: nat
  wp_bootErr :: "string \<rightharpoonup> pool_error"
  wp_running :: nat
  wp_runningAt :: "instant option"
  wp_slots :: nat
  wp_jobs :: "string list"          \<comment> \<open>background boots that were accepted\<close>
  wp_tick :: nat
  wp_now :: instant
  wp_trace :: "effect list"

definition NewPool :: "instant \<Rightarrow> pool" where
  "NewPool now =
     \<lparr>wp_parker = NewParker, wp_stopped = {}, wp_members = {}, wp_busy = (\<lambda>_. 0), wp_grantSeq = (\<lambda>_. 0),
      wp_closed = False, wp_parking = 0, wp_awakeUntil = Map.empty, wp_down = {},
      wp_rebuildNext = Map.empty, wp_rebuildWait = Map.empty, wp_daemonBooted = {},
      wp_idleSince = Map.empty, wp_staleSince = Map.empty, wp_lastLockDecision = Map.empty,
      wp_reapedN = 0, wp_lockDirWarned = False, wp_configuredPool = {}, wp_lastUnmanaged = [],
      wp_unmanagedN = 0, wp_bootErr = Map.empty, wp_running = 0, wp_runningAt = None, wp_slots = 0,
      wp_jobs = [], wp_tick = 0, wp_now = now, wp_trace = []\<rparr>"

text \<open>One call to the outside: the answer at this moment; the call takes some time.\<close>

definition ask :: "host_env \<Rightarrow> (nat \<Rightarrow> 'a) \<Rightarrow> pool \<Rightarrow> 'a \<times> pool" where
  "ask E f s =
     (f (wp_tick s), s\<lparr>wp_tick := Suc (wp_tick s), wp_now := wp_now s + int (e_delay E (wp_tick s))\<rparr>)"

definition noted :: "effect \<Rightarrow> pool \<Rightarrow> pool" where
  "noted e s = s\<lparr>wp_trace := e # wp_trace s\<rparr>"

section \<open>Small methods\<close>

definition IsMember :: "pool \<Rightarrow> string \<Rightarrow> bool" where
  "IsMember s udid \<longleftrightarrow> udid \<in> wp_members s"

definition SetConfiguredPool :: "string list \<Rightarrow> pool \<Rightarrow> pool" where
  "SetConfiguredPool udids s = s\<lparr>wp_configuredPool := set (filter (\<lambda>u. u \<noteq> []) (map TrimSpace udids))\<rparr>"

definition isConfiguredPool :: "pool \<Rightarrow> string \<Rightarrow> bool" where
  "isConfiguredPool s udid \<longleftrightarrow> udid \<in> wp_configuredPool s"

definition BeginTransition :: "string \<Rightarrow> pool \<Rightarrow> pool" where
  "BeginTransition udid s = s\<lparr>wp_busy := (wp_busy s)(udid := wp_busy s udid + 1)\<rparr>"

definition EndTransition :: "string \<Rightarrow> pool \<Rightarrow> pool" where
  "EndTransition udid s = s\<lparr>wp_busy := (wp_busy s)(udid := wp_busy s udid - 1)\<rparr>"

definition busyLevel :: "host_env \<Rightarrow> pool \<Rightarrow> string \<Rightarrow> nat" where
  "busyLevel E s udid = wp_busy s udid + e_others E (wp_tick s) udid"

definition isBusy :: "host_env \<Rightarrow> pool \<Rightarrow> string \<Rightarrow> bool" where
  "isBusy E s udid \<longleftrightarrow> busyLevel E s udid > 0"

definition reserveTarget :: "host_env \<Rightarrow> string \<Rightarrow> pool \<Rightarrow> bool option \<times> pool" where
  "reserveTarget E udid s =
     (case ask E (\<lambda>t. e_reserve E t udid) s of
        (None, s) \<Rightarrow> (None, s)
      | (Some takeover, s) \<Rightarrow> (Some takeover, noted (Reserved udid takeover) s))"

definition isLeased :: "host_env \<Rightarrow> string \<Rightarrow> pool \<Rightarrow> bool \<times> pool" where
  "isLeased E udid s = ask E (\<lambda>t. e_leased E t udid) s"

definition isStreaming :: "host_env \<Rightarrow> string \<Rightarrow> pool \<Rightarrow> bool \<times> pool" where
  "isStreaming E udid s = ask E (\<lambda>t. e_streaming E t udid) s"

definition isRecording :: "host_env \<Rightarrow> string \<Rightarrow> pool \<Rightarrow> bool \<times> pool" where
  "isRecording E udid s = ask E (\<lambda>t. e_recording E t udid) s"

text \<open>\<^verbatim>\<open>a || b\<close> where evaluating \<^verbatim>\<open>b\<close> calls out.\<close>

definition or_else :: "bool \<times> pool \<Rightarrow> (pool \<Rightarrow> bool \<times> pool) \<Rightarrow> bool \<times> pool" where
  "or_else x f = (case x of (True, s) \<Rightarrow> (True, s) | (False, s) \<Rightarrow> f s)"

definition MarkAwake :: "string \<Rightarrow> pool \<Rightarrow> pool" where
  "MarkAwake udid s = s\<lparr>wp_awakeUntil := (wp_awakeUntil s)(udid \<mapsto> wp_now s + wakeGrace)\<rparr>"

definition isAwake :: "host_env \<Rightarrow> pool \<Rightarrow> string \<Rightarrow> bool" where
  "isAwake E s udid \<longleftrightarrow>
     (case wp_awakeUntil s udid of None \<Rightarrow> False | Some d \<Rightarrow> wp_now s < d) \<or> e_awake E (wp_tick s) udid"

definition clearAwake :: "string \<Rightarrow> pool \<Rightarrow> pool" where
  "clearAwake udid s = s\<lparr>wp_awakeUntil := (wp_awakeUntil s)(udid := None)\<rparr>"

definition isDown :: "pool \<Rightarrow> string \<Rightarrow> bool" where
  "isDown s udid \<longleftrightarrow> udid \<in> wp_down s"

definition clearDown :: "string \<Rightarrow> pool \<Rightarrow> pool" where
  "clearDown udid s = s\<lparr>wp_down := wp_down s - {udid}\<rparr>"

definition grantSeqOf :: "host_env \<Rightarrow> pool \<Rightarrow> string \<Rightarrow> 64 word" where
  "grantSeqOf E s udid = wp_grantSeq s udid + of_nat (e_grants E (wp_tick s) udid)"

definition isClosed :: "host_env \<Rightarrow> pool \<Rightarrow> bool" where
  "isClosed E s \<longleftrightarrow> wp_closed s \<or> e_closing E (wp_tick s)"

definition setBootErr :: "string \<Rightarrow> pool_error \<Rightarrow> pool \<Rightarrow> pool" where
  "setBootErr udid err s = s\<lparr>wp_bootErr := (wp_bootErr s)(udid \<mapsto> err)\<rparr>"

definition takeBootErr :: "string \<Rightarrow> pool \<Rightarrow> pool_error option \<times> pool" where
  "takeBootErr udid s = (wp_bootErr s udid, s\<lparr>wp_bootErr := (wp_bootErr s)(udid := None)\<rparr>)"

definition clearBootErr :: "string \<Rightarrow> pool \<Rightarrow> pool" where
  "clearBootErr udid s = s\<lparr>wp_bootErr := (wp_bootErr s)(udid := None)\<rparr>"

definition markDaemonBooted :: "string \<Rightarrow> pool \<Rightarrow> pool" where
  "markDaemonBooted udid s =
     (if udid \<in> wp_members s then s else s\<lparr>wp_daemonBooted := insert udid (wp_daemonBooted s)\<rparr>)"

definition forgetDaemonBooted :: "string \<Rightarrow> pool \<Rightarrow> pool" where
  "forgetDaemonBooted udid s =
     s\<lparr>wp_daemonBooted := wp_daemonBooted s - {udid}, wp_idleSince := (wp_idleSince s)(udid := None)\<rparr>"


section \<open>Park and thaw\<close>

definition prk_Park :: "host_env \<Rightarrow> string \<Rightarrow> pool \<Rightarrow> (pool_error option \<times> pool) option" where
  "prk_Park E udid s =
     (let (listing, s) = ask E (e_procs E) s;
          (allowed, s) = ask E (e_allowed E) s
      in do {
        ((pk, stopped), r) \<leftarrow> Park allowed listing udid (wp_parker s, wp_stopped s);
        let s = s\<lparr>wp_parker := pk, wp_stopped := stopped\<rparr>;
        Some (case r of None \<Rightarrow> (None, noted (Parked udid) s) | Some e \<Rightarrow> (Some (ParkFailed e), s))
      })"

definition prk_Thaw :: "host_env \<Rightarrow> string \<Rightarrow> pool \<Rightarrow> pool_error option \<times> pool" where
  "prk_Thaw E udid s =
     (let (allowed, s) = ask E (e_allowed E) s;
          ((pk, stopped), r) = Thaw allowed udid (wp_parker s, wp_stopped s);
          s = s\<lparr>wp_parker := pk, wp_stopped := stopped\<rparr>
      in case r of None \<Rightarrow> (None, noted (Thawed udid) s) | Some e \<Rightarrow> (Some (ParkFailed e), s))"

definition pool_IsParked :: "pool \<Rightarrow> string \<Rightarrow> bool" where
  "pool_IsParked s udid \<longleftrightarrow> IsParked (wp_parker s) udid"

text \<open>\<^verbatim>\<open>parkIdle\<close> between the registration of the park and its deferred end.\<close>

definition park_checked :: "host_env \<Rightarrow> string \<Rightarrow> pool \<Rightarrow> ((bool \<times> pool_error option) \<times> pool) option" where
  "park_checked E udid s =
     (let busy0 = busyLevel E s udid;
          (blocked, s) = or_else (or_else (isLeased E udid s) (isStreaming E udid)) (isRecording E udid)
      in
      if blocked then Some ((False, None), s)
      else
        let seq = grantSeqOf E s udid in do {
          (r, s) \<leftarrow> prk_Park E udid s;
          case r of
            Some e \<Rightarrow> Some ((False, Some e), s)
          | None \<Rightarrow>
              let (back, s) =
                    or_else (or_else (or_else (isClosed E s \<or> grantSeqOf E s udid \<noteq> seq, s) (isLeased E udid))
                               (\<lambda>s. or_else (busyLevel E s udid > busy0 \<or> isAwake E s udid, s) (isStreaming E udid)))
                            (isRecording E udid)
              in
              if back then
                (case prk_Thaw E udid s of
                   (Some e, s) \<Rightarrow> Some ((True, Some e), s)
                 | (None, s) \<Rightarrow> Some ((False, None), s))
              else Some ((True, None), s)
        })"

definition parkIdle :: "host_env \<Rightarrow> string \<Rightarrow> pool \<Rightarrow> ((bool \<times> pool_error option) \<times> pool) option" where
  "parkIdle E udid s =
     (if isClosed E s then Some ((False, None), s)
      else do {
        (r, s) \<leftarrow> park_checked E udid (s\<lparr>wp_parking := wp_parking s + 1\<rparr>);
        Some (r, s\<lparr>wp_parking := wp_parking s - 1\<rparr>)
      })"

section \<open>Gates\<close>

definition checkLoad :: "host_env \<Rightarrow> rat \<Rightarrow> pool \<Rightarrow> pool_error option \<times> pool" where
  "checkLoad E factor s =
     (case ask E (e_load E) s of
        (Inl e, s) \<Rightarrow> (Some (HostFailed e), s)
      | (Inr load, s) \<Rightarrow>
          (if load > factor * of_nat (e_cpus E) then Some (ErrLoadTooHigh load (factor * of_nat (e_cpus E))) else None, s))"

definition checkDisk :: "host_env \<Rightarrow> int \<Rightarrow> pool \<Rightarrow> pool_error option \<times> pool" where
  "checkDisk E minFree s =
     (case ask E (e_disk E) s of
        (Inl e, s) \<Rightarrow> (Some (HostFailed e), s)
      | (Inr free, s) \<Rightarrow> (if free < minFree then Some (ErrDiskTooLow free minFree) else None, s))"

fun is_gate_refusal :: "pool_error \<Rightarrow> bool" where
  "is_gate_refusal (ErrDiskTooLow _ _) = True"
| "is_gate_refusal (ErrLoadTooHigh _ _) = True"
| "is_gate_refusal _ = False"

text \<open>A gate whose measurement failed lets the boot pass: only a confirmed refusal counts.\<close>

definition refusal :: "pool_error option \<times> pool \<Rightarrow> pool_error option \<times> pool" where
  "refusal x = (case x of (Some e, s) \<Rightarrow> (if is_gate_refusal e then Some e else None, s) | (None, s) \<Rightarrow> (None, s))"

definition disk_gate :: "pool_config \<Rightarrow> host_env \<Rightarrow> pool \<Rightarrow> pool_error option \<times> pool" where
  "disk_gate cf E s = (if cf_MinFreeDisk cf > 0 then refusal (checkDisk E (cf_MinFreeDisk cf) s) else (None, s))"

definition load_gate :: "pool_config \<Rightarrow> host_env \<Rightarrow> pool \<Rightarrow> pool_error option \<times> pool" where
  "load_gate cf E s = (if cf_LoadFactor cf > 0 then refusal (checkLoad E (cf_LoadFactor cf) s) else (None, s))"

definition running_sim :: "pool \<Rightarrow> target \<Rightarrow> bool" where
  "running_sim s t \<longleftrightarrow> t_Kind t = TargetSimulator \<and> t_State t = StateBooted \<and> \<not> pool_IsParked s (t_UDID t)"

definition runningCount :: "host_env \<Rightarrow> string \<Rightarrow> pool \<Rightarrow> (reg_error + nat) \<times> pool" where
  "runningCount E exclude s =
     (case ask E (e_list E) s of
        (Inl e, s) \<Rightarrow> (Inl e, s)
      | (Inr targets, s) \<Rightarrow>
          let up = filter (running_sim s) targets;
              n = length (filter (\<lambda>t. t_UDID t \<noteq> exclude) up);
              unmanaged = length (filter (\<lambda>t. t_UDID t \<notin> wp_members s \<and> t_UDID t \<notin> wp_daemonBooted s \<and> t_UDID t \<noteq> exclude) up)
          in (Inr n, s\<lparr>wp_running := length up, wp_runningAt := Some (wp_now s),
                       wp_unmanagedN := (if exclude = [] then unmanaged else wp_unmanagedN s)\<rparr>))"

definition running_gate :: "pool_config \<Rightarrow> host_env \<Rightarrow> string \<Rightarrow> pool \<Rightarrow> pool_error option \<times> pool" where
  "running_gate cf E udid s =
     (if MaxBootedRunning (cf_Class cf) > 0 then
        (case runningCount E udid s of
           (Inl e, s) \<Rightarrow> (Some (RegistryFailed e), s)
         | (Inr n, s) \<Rightarrow>
             (if int n \<ge> MaxBootedRunning (cf_Class cf) then Some (ErrTooManyRunning n (MaxBootedRunning (cf_Class cf))) else None, s))
      else (None, s))"

text \<open>\<^verbatim>\<open>GateBoot\<close>; letting a boot pass is recorded in the trace.\<close>

definition GateBoot :: "pool_config \<Rightarrow> host_env \<Rightarrow> string \<Rightarrow> pool \<Rightarrow> pool_error option \<times> pool" where
  "GateBoot cf E udid s =
     (case disk_gate cf E s of
        (Some e, s) \<Rightarrow> (Some e, s)
      | (None, s) \<Rightarrow>
          (case load_gate cf E s of
             (Some e, s) \<Rightarrow> (Some e, s)
           | (None, s) \<Rightarrow>
               (case running_gate cf E udid s of
                  (Some e, s) \<Rightarrow> (Some e, s)
                | (None, s) \<Rightarrow> (None, noted (Gated udid) s))))"

definition GateBootCheap :: "pool_config \<Rightarrow> host_env \<Rightarrow> pool \<Rightarrow> pool_error option \<times> pool" where
  "GateBootCheap cf E s =
     (case disk_gate cf E s of
        (Some e, s) \<Rightarrow> (Some e, s)
      | (None, s) \<Rightarrow>
          (case load_gate cf E s of
             (Some e, s) \<Rightarrow> (Some e, s)
           | (None, s) \<Rightarrow>
               let cap = MaxBootedRunning (cf_Class cf) in
               (case wp_runningAt s of
                  None \<Rightarrow> (None, s)
                | Some seen \<Rightarrow>
                    (if cap > 0 \<and> wp_now s - seen \<le> runningCacheTTL \<and> int (wp_running s) \<ge> cap
                     then Some (ErrTooManyRunning (wp_running s) cap) else None, s))))"

section \<open>Boots\<close>

definition reg_Boot :: "host_env \<Rightarrow> string \<Rightarrow> pool \<Rightarrow> pool_error option \<times> pool" where
  "reg_Boot E udid s =
     (case ask E (\<lambda>t. e_boot E t udid) (noted (BootCall udid) s) of (r, s) \<Rightarrow> (map_option RegistryFailed r, s))"

definition reg_Shutdown :: "host_env \<Rightarrow> string \<Rightarrow> pool \<Rightarrow> pool_error option \<times> pool" where
  "reg_Shutdown E udid s =
     (case ask E (\<lambda>t. e_shutdown E t udid) (noted (ShutdownCall udid) s) of (r, s) \<Rightarrow> (map_option RegistryFailed r, s))"

definition do_Erase :: "host_env \<Rightarrow> string \<Rightarrow> pool \<Rightarrow> pool_error option \<times> pool" where
  "do_Erase E udid s =
     (case ask E (\<lambda>t. e_erase E t udid) s of
        (None, s) \<Rightarrow> (None, noted (ErasedCall udid True) s)
      | (Some e, s) \<Rightarrow> (Some (ToolFailed ''erase'' e), noted (ErasedCall udid False) s))"

text \<open>Slimming: its failure is logged and the sim is parked as it is.\<close>

definition do_Slim :: "pool_config \<Rightarrow> host_env \<Rightarrow> string \<Rightarrow> pool \<Rightarrow> pool" where
  "do_Slim cf E udid s =
     (if cf_Slim cf then snd (ask E (\<lambda>t. e_slim E t udid) (noted (SlimCall udid) s)) else s)"

definition reg_Get :: "host_env \<Rightarrow> string \<Rightarrow> pool \<Rightarrow> (reg_error + target) \<times> pool" where
  "reg_Get E udid s = ask E (\<lambda>t. e_get E t udid) s"

definition reg_Health :: "host_env \<Rightarrow> string \<Rightarrow> pool \<Rightarrow> (TargetState \<times> reg_error option) \<times> pool" where
  "reg_Health E udid s = ask E (\<lambda>t. e_health E t udid) s"

text \<open>
  The poll of \<^verbatim>\<open>waitBooted\<close>. A wait takes at least \<^verbatim>\<open>bootPoll\<close>, so the deadline ends the loop.
\<close>

definition poll_wait :: "host_env \<Rightarrow> pool \<Rightarrow> bool \<times> pool" where
  "poll_wait E s = (case ask E (e_expired E) s of (done', s') \<Rightarrow> (done', s'\<lparr>wp_now := wp_now s' + bootPoll\<rparr>))"

lemma ask_now: "wp_now (snd (ask E f s)) \<ge> wp_now s"
  by (simp add: ask_def)

lemma poll_wait_now: "wp_now s < wp_now (snd (poll_wait E s))"
  by (simp add: poll_wait_def ask_def bootPoll_def)

function waitBooted_from :: "host_env \<Rightarrow> string \<Rightarrow> instant \<Rightarrow> pool \<Rightarrow> pool_error option \<times> pool" where
  "waitBooted_from E udid deadline s =
     (let (h, s1) = reg_Health E udid s in
      if h = (StateBooted, None) then (None, s1)
      else if deadline < wp_now s1 then (Some (NeverBooted udid), s1)
      else let (expired, s2) = poll_wait E s1 in
        if expired then (Some ContextDone, s2) else waitBooted_from E udid deadline s2)"
  by pat_completeness auto
termination
proof (relation "measure (\<lambda>(E, udid, deadline, s). nat (deadline + 1 - wp_now s))", simp)
  fix E udid deadline s x h s1 y expired s2
  assume x: "x = reg_Health E udid s" "(h, s1) = x" "\<not> deadline < wp_now s1"
    and y: "y = poll_wait E s1" "(expired, s2) = y"
  have "wp_now s \<le> wp_now s1" using ask_now [of s E] x(1,2) by (metis reg_Health_def snd_conv)
  moreover have "wp_now s1 < wp_now s2" using poll_wait_now [of s1 E] y by (metis snd_conv)
  ultimately show "((E, udid, deadline, s2), E, udid, deadline, s) \<in> measure (\<lambda>(E, udid, deadline, s). nat (deadline + 1 - wp_now s))"
    using x(3) by simp
qed

declare waitBooted_from.simps [simp del]

definition waitBooted :: "host_env \<Rightarrow> string \<Rightarrow> pool \<Rightarrow> pool_error option \<times> pool" where
  "waitBooted E udid s = waitBooted_from E udid (wp_now s + bootWait) s"


definition reportBoot :: "string \<Rightarrow> pool \<Rightarrow> pool" where
  "reportBoot udid s = noted (ReportedBoot udid) s"

definition take_slot :: "host_env \<Rightarrow> pool \<Rightarrow> bool \<times> pool" where
  "take_slot E s = (case ask E (e_slot E) s of (got, s) \<Rightarrow> (got, if got then s\<lparr>wp_slots := wp_slots s + 1\<rparr> else s))"

definition free_slot :: "pool \<Rightarrow> pool" where
  "free_slot s = s\<lparr>wp_slots := wp_slots s - 1\<rparr>"

text \<open>\<^verbatim>\<open>BootAsync\<close> up to the start of the background boot.\<close>

definition BootAsync :: "pool_config \<Rightarrow> host_env \<Rightarrow> string \<Rightarrow> pool \<Rightarrow> pool_error option \<times> pool" where
  "BootAsync cf E udid s =
     (case reg_Get E udid s of
        (Inl e, s) \<Rightarrow> (Some (RegistryFailed e), s)
      | (Inr t, s) \<Rightarrow>
          if t_Kind t = TargetDevice then
            (case ask E (\<lambda>k. e_boot E k udid) (noted (DeviceBootCall udid) s) of (r, s) \<Rightarrow> (map_option RegistryFailed r, s))
          else if t_State t = StateBooted then (None, clearBootErr udid s)
          else
            (case takeBootErr udid s of
               (Some e, s) \<Rightarrow> (Some (PreviousBootFailed udid e), s)
             | (None, s) \<Rightarrow>
                 (case GateBoot cf E udid s of
                    (Some e, s) \<Rightarrow> (Some e, s)
                  | (None, s) \<Rightarrow>
                      (None, (BeginTransition udid s)\<lparr>wp_jobs := wp_jobs s @ [udid]\<rparr>))))"

text \<open>The background boot with its slot held.\<close>

definition boot_with_slot :: "pool_config \<Rightarrow> host_env \<Rightarrow> string \<Rightarrow> pool \<Rightarrow> pool" where
  "boot_with_slot cf E udid s =
     (case GateBoot cf E udid s of
        (Some e, s) \<Rightarrow> setBootErr udid e s
      | (None, s) \<Rightarrow>
          (case reg_Boot E udid s of
             (Some e, s) \<Rightarrow> setBootErr udid e s
           | (None, s) \<Rightarrow>
               (case waitBooted E udid (markDaemonBooted udid s) of
                  (Some e, s) \<Rightarrow> setBootErr udid e s
                | (None, s) \<Rightarrow> reportBoot udid (clearBootErr udid s))))"

definition boot_job :: "pool_config \<Rightarrow> host_env \<Rightarrow> string \<Rightarrow> pool \<Rightarrow> pool" where
  "boot_job cf E udid s =
     EndTransition udid
       (case take_slot E s of
          (False, s) \<Rightarrow> setBootErr udid NoBootSlot s
        | (True, s) \<Rightarrow> free_slot (boot_with_slot cf E udid s))"

text \<open>\<^verbatim>\<open>bootGated\<close> with its slot held.\<close>

definition boot_sync :: "pool_config \<Rightarrow> host_env \<Rightarrow> string \<Rightarrow> pool \<Rightarrow> pool_error option \<times> pool" where
  "boot_sync cf E udid s =
     (case reg_Get E udid s of
        (Inl e, s) \<Rightarrow> (Some (RegistryFailed e), s)
      | (Inr t, s) \<Rightarrow>
          if t_State t = StateBooted then
            (case (if pool_IsParked s udid then prk_Thaw E udid s else (None, s)) of
               (Some e, s) \<Rightarrow> (Some (In ''thaw parked'' e), s)
             | (None, s) \<Rightarrow> (None, reportBoot udid (clearBootErr udid s)))
          else
            (case GateBoot cf E udid s of
               (Some e, s) \<Rightarrow> (Some e, s)
             | (None, s) \<Rightarrow>
                 (case reg_Boot E udid s of
                    (Some e, s) \<Rightarrow> (Some e, s)
                  | (None, s) \<Rightarrow>
                      (case waitBooted E udid s of
                         (Some e, s) \<Rightarrow> (Some e, s)
                       | (None, s) \<Rightarrow> (None, reportBoot udid (clearBootErr udid s))))))"

definition bootGated :: "pool_config \<Rightarrow> host_env \<Rightarrow> string \<Rightarrow> pool \<Rightarrow> pool_error option \<times> pool" where
  "bootGated cf E udid s =
     (case take_slot E s of
        (False, s) \<Rightarrow> (Some ContextDone, s)
      | (True, s) \<Rightarrow> (case boot_sync cf E udid s of (r, s) \<Rightarrow> (r, free_slot s)))"

section \<open>Life of a member\<close>

definition notifyShutdown :: "string \<Rightarrow> pool \<Rightarrow> pool" where
  "notifyShutdown udid s = noted (NotedShutdown udid) s"

definition reportShutdown :: "string \<Rightarrow> string \<Rightarrow> string \<Rightarrow> pool \<Rightarrow> pool" where
  "reportShutdown udid actor reason s = noted (ReportedShutdown udid actor reason) s"

definition notifyClean :: "string \<Rightarrow> pool \<Rightarrow> pool" where
  "notifyClean udid s = noted (MarkedClean udid) s"

definition release_hold :: "string \<Rightarrow> bool \<Rightarrow> pool \<Rightarrow> pool" where
  "release_hold udid rebuilt s = noted (Released udid rebuilt) s"

text \<open>
  The kill loop of \<^verbatim>\<open>ReapOrphans\<close>: SIGCONT, whose outcome is ignored, then SIGKILL; the first refusal
  is the result.
\<close>

definition kill_one :: "(int \<Rightarrow> signal \<Rightarrow> bool) \<Rightarrow> int \<Rightarrow> pool_error option \<times> pool \<Rightarrow> pool_error option \<times> pool" where
  "kill_one allowed pid x =
     (case x of (r, s) \<Rightarrow>
        let stopped = send allowed SIGKILL pid (send allowed SIGCONT pid (wp_stopped s)) in
        (if allowed pid SIGKILL \<or> r \<noteq> None then r else Some (ParkFailed (SignalFailed [] pid SIGKILL)),
         noted (Killed pid) (s\<lparr>wp_stopped := stopped\<rparr>)))"

definition ReapOrphans :: "host_env \<Rightarrow> string \<Rightarrow> pool \<Rightarrow> pool_error option \<times> pool" where
  "ReapOrphans E udid s =
     (let owned = OwnedTree (wp_parker s) udid in
      if owned = [] then (None, s)
      else
        (case ask E (e_procs E) s of
           (Inl e, s) \<Rightarrow> (Some (HostFailed e), s)
         | (Inr procs, s) \<Rightarrow>
             let live = liveOwned procs owned;
                 forget = (\<lambda>s. s\<lparr>wp_parker := ForgetOwned udid (wp_parker s)\<rparr>)
             in
             if live = [] then (None, forget s)
             else
               let (allowed, s) = ask E (e_allowed E) s;
                   (r, s) = fold (kill_one allowed) live (None, s)
               in (r, if r = None then forget s else s)))"

definition rePark :: "pool_config \<Rightarrow> host_env \<Rightarrow> string \<Rightarrow> pool \<Rightarrow> (pool_error option \<times> pool) option" where
  "rePark cf E udid s =
     (let (got, s) = reg_Get E udid (clearDown udid (clearAwake udid s));
          s = (case got of Inl _ \<Rightarrow> s | Inr t \<Rightarrow> if t_State t \<noteq> StateBooted then snd (ReapOrphans E udid s) else s)
      in
      case bootGated cf E udid s of
        (Some e, s) \<Rightarrow> Some (Some (In ''pool re-boot'' e), s)
      | (None, s) \<Rightarrow> do {
          ((_, r), s) \<leftarrow> parkIdle E udid (do_Slim cf E udid s);
          Some (r, s)
        })"

text \<open>
  The wipe of an adopted target whose hold displaced a quarantine: thaw, shut down, erase.
\<close>

definition add_wipe :: "host_env \<Rightarrow> string \<Rightarrow> pool \<Rightarrow> pool_error option \<times> pool" where
  "add_wipe E udid s =
     (case prk_Thaw E udid s of
        (Some e, s) \<Rightarrow> (Some (In ''thaw'' e), s)
      | (None, s) \<Rightarrow>
          (case reg_Get E udid s of
             (got, s) \<Rightarrow>
               (case (if (case got of Inl _ \<Rightarrow> False | Inr t \<Rightarrow> t_State t = StateBooted)
                      then (case reg_Shutdown E udid s of
                              (Some e, s) \<Rightarrow> (Some (In ''shutdown'' e), s)
                            | (None, s) \<Rightarrow> (None, notifyShutdown udid s))
                      else (None, s)) of
                  (Some e, s) \<Rightarrow> (Some e, s)
                | (None, s) \<Rightarrow>
                    (case do_Erase E udid s of
                       (Some e, s) \<Rightarrow> (Some (In ''erase'' e), s)
                     | (None, s) \<Rightarrow> (None, s)))))"

definition add_held :: "pool_config \<Rightarrow> host_env \<Rightarrow> bool \<Rightarrow> string \<Rightarrow> pool \<Rightarrow> (pool_error option \<times> pool) option" where
  "add_held cf E takeover udid s =
     (let n = card (dom (pk_parked (wp_parker s))) in
      if int n \<ge> MaxParked (cf_Class cf) \<and> \<not> pool_IsParked s udid
      then Some (Some (ErrPoolFull n (MaxParked (cf_Class cf))), s)
      else
        (case (if takeover then add_wipe E udid s else (None, s)) of
           (Some e, s) \<Rightarrow> Some (Some e, s)
         | (None, s) \<Rightarrow>
             (case bootGated cf E udid s of
                (Some e, s) \<Rightarrow> Some (Some e, s)
              | (None, s) \<Rightarrow>
                  let s = s\<lparr>wp_members := insert udid (wp_members s), wp_daemonBooted := wp_daemonBooted s - {udid},
                            wp_idleSince := (wp_idleSince s)(udid := None)\<rparr>
                  in do {
                    ((_, r), s) \<leftarrow> parkIdle E udid (do_Slim cf E udid s);
                    Some (r, s)
                  })))"

definition Add :: "pool_config \<Rightarrow> host_env \<Rightarrow> string \<Rightarrow> pool \<Rightarrow> (pool_error option \<times> pool) option" where
  "Add cf E udid s =
     (case reserveTarget E udid s of
        (None, s) \<Rightarrow> Some (Some (TargetLeased udid), s)
      | (Some takeover, s) \<Rightarrow> do {
          (r, s) \<leftarrow> add_held cf E takeover udid (BeginTransition udid s);
          Some (r, release_hold udid (\<not> takeover \<or> r = None) (EndTransition udid s))
        })"

definition OnGrant :: "host_env \<Rightarrow> string \<Rightarrow> pool \<Rightarrow> pool" where
  "OnGrant E udid s =
     (if udid = [] then s
      else
        let s = s\<lparr>wp_grantSeq := (wp_grantSeq s)(udid := wp_grantSeq s udid + 1),
                  wp_awakeUntil := (wp_awakeUntil s)(udid := None)\<rparr>
        in if \<not> pool_IsParked s udid then s else snd (prk_Thaw E udid s))"

definition EnsureThawed :: "host_env \<Rightarrow> string \<Rightarrow> pool \<Rightarrow> pool_error option \<times> pool" where
  "EnsureThawed E udid s =
     (if udid = [] \<or> \<not> pool_IsParked s udid then (None, s) else prk_Thaw E udid s)"

definition OnReleased :: "pool_config \<Rightarrow> host_env \<Rightarrow> string \<Rightarrow> pool \<Rightarrow> (pool_error option \<times> pool) option" where
  "OnReleased cf E udid s =
     (if \<not> IsMember s udid then Some (None, s)
      else do {
        (r, s) \<leftarrow> rePark cf E udid (BeginTransition udid s);
        Some (r, EndTransition udid s)
      })"

definition recycle_held :: "pool_config \<Rightarrow> host_env \<Rightarrow> string \<Rightarrow> pool \<Rightarrow> (pool_error option \<times> pool) option" where
  "recycle_held cf E udid s =
     (case prk_Thaw E udid s of
        (Some e, s) \<Rightarrow> Some (Some (In ''thaw'' e), s)
      | (None, s) \<Rightarrow>
          (case reg_Shutdown E udid s of
             (Some e, s) \<Rightarrow> Some (Some (In ''shutdown'' e), s)
           | (None, s) \<Rightarrow>
               let s = reportShutdown udid ''watchdog'' ''footprint recycle (erase + rebuild)'' (notifyShutdown udid s);
                   s = snd (ReapOrphans E udid s)
               in
               (case do_Erase E udid s of
                  (Some e, s) \<Rightarrow> Some (Some (In ''erase'' e), s)
                | (None, s) \<Rightarrow> rePark cf E udid s)))"

text \<open>The deferred calls run in the reverse order: the transition ends, the target is marked clean,
  the hold is released.\<close>

definition Recycle :: "pool_config \<Rightarrow> host_env \<Rightarrow> string \<Rightarrow> pool \<Rightarrow> (pool_error option \<times> pool) option" where
  "Recycle cf E udid s =
     (case reserveTarget E udid s of
        (None, s) \<Rightarrow> Some (Some (TargetLeased udid), s)
      | (Some takeover, s) \<Rightarrow>
          (case isRecording E udid s of
             (True, s) \<Rightarrow> Some (Some (RecordingFinalizing udid), release_hold udid (\<not> takeover) s)
           | (False, s) \<Rightarrow> do {
               (r, s) \<leftarrow> recycle_held cf E udid (BeginTransition udid s);
               let s = EndTransition udid s;
               let s = (if r = None then notifyClean udid s else s);
               Some (r, release_hold udid (r = None) s)
             }))"

definition shutdown_body :: "host_env \<Rightarrow> string \<Rightarrow> pool \<Rightarrow> pool_error option \<times> pool" where
  "shutdown_body E udid s =
     (case prk_Thaw E udid s of
        (Some e, s) \<Rightarrow> (Some (In ''thaw'' e), s)
      | (None, s) \<Rightarrow>
          (case reg_Shutdown E udid s of
             (Some e, s) \<Rightarrow> (Some e, s)
           | (None, s) \<Rightarrow>
               let s = snd (ReapOrphans E udid (notifyShutdown udid s)) in
               (None, s\<lparr>wp_down := (if udid \<in> wp_members s then insert udid (wp_down s) else wp_down s),
                        wp_awakeUntil := (wp_awakeUntil s)(udid := None),
                        wp_daemonBooted := wp_daemonBooted s - {udid},
                        wp_idleSince := (wp_idleSince s)(udid := None)\<rparr>)))"

definition SafeShutdown :: "host_env \<Rightarrow> string \<Rightarrow> pool \<Rightarrow> pool_error option \<times> pool" where
  "SafeShutdown E udid s =
     (case shutdown_body E udid (BeginTransition udid s) of (r, s) \<Rightarrow> (r, EndTransition udid s))"

fun recover_each :: "host_env \<Rightarrow> Proc list \<Rightarrow> string list \<Rightarrow> pool \<Rightarrow> pool option" where
  "recover_each E procs [] s = Some s"
| "recover_each E procs (u # us) s =
     (let udid = TrimSpace u in
      if udid = [] then recover_each E procs us s
      else do {
        tree \<leftarrow> simTree procs udid;
        let frozen = stoppedPIDs procs tree;
        if frozen = [] then recover_each E procs us s
        else
          let (allowed, s) = ask E (e_allowed E) s in
          recover_each E procs us (s\<lparr>wp_stopped := fold (send allowed SIGCONT) frozen (wp_stopped s)\<rparr>)
      })"

definition RecoverFrozenParks :: "host_env \<Rightarrow> string list \<Rightarrow> pool \<Rightarrow> pool option" where
  "RecoverFrozenParks E udids s =
     (case ask E (e_procs E) s of (Inl e, s) \<Rightarrow> Some s | (Inr procs, s) \<Rightarrow> recover_each E procs udids s)"

text \<open>\<^verbatim>\<open>Close\<close>: the pool is closed at once, and thaws everything when no park is in flight.\<close>

definition Close_begin :: "pool \<Rightarrow> pool" where
  "Close_begin s = s\<lparr>wp_closed := True\<rparr>"

fun thaw_each :: "host_env \<Rightarrow> string list \<Rightarrow> pool \<Rightarrow> pool" where
  "thaw_each E [] s = s"
| "thaw_each E (u # us) s = thaw_each E us (snd (prk_Thaw E u s))"

definition Close_finish :: "host_env \<Rightarrow> pool \<Rightarrow> pool option" where
  "Close_finish E s =
     (if wp_parking s > 0 then None
      else case ask E (e_order E) s of (ks, s) \<Rightarrow> Some (thaw_each E (range_over (pk_parked (wp_parker s)) ks) s))"

end
