(* ===== verification/Mz_Janitor.thy ===== *)
theory Mz_Janitor
  imports Mz_Pool
begin

text \<open>
  The background reconcilers of the warm pool and its guarded registry: the janitor that reclaims
  idle and abandoned simulators (\<^verbatim>\<open>internal/warm/janitor.go\<close>, \<^verbatim>\<open>lockreap.go\<close>), the footprint watchdog
  (\<^verbatim>\<open>watchdog.go\<close>), the registry wrapper (\<^verbatim>\<open>guard.go\<close>) and the status report (\<^verbatim>\<open>status.go\<close>). One sweep is
  one operation; the tickers that call it are steps of the pool's step relation.
\<close>

section \<open>Idle simulators the daemon booted\<close>

definition janitorIdleGrace :: duration where "janitorIdleGrace = 90 * Second"
definition lockStaleAge :: duration where "lockStaleAge = 120 * Minute"
definition lockReapGrace :: duration where "lockReapGrace = 10 * Minute"

text \<open>Leased, busy, awake, streaming or recording, in the order the code asks.\<close>

definition in_use :: "host_env \<Rightarrow> string \<Rightarrow> pool \<Rightarrow> bool \<times> pool" where
  "in_use E udid s =
     or_else (or_else (or_else (isLeased E udid s) (\<lambda>s. (isBusy E s udid \<or> isAwake E s udid, s))) (isStreaming E udid)) (isRecording E udid)"

text \<open>The second look with the hold taken: streaming, recording or busy.\<close>

definition in_use_held :: "host_env \<Rightarrow> string \<Rightarrow> pool \<Rightarrow> bool \<times> pool" where
  "in_use_held E udid s =
     or_else (or_else (isStreaming E udid s) (isRecording E udid)) (\<lambda>s. (isBusy E s udid, s))"

text \<open>
  The end both reclaims share: take the hold, look again, shut down, release. A hold that displaced
  a quarantine goes back to quarantine, because nothing is erased here.
\<close>

definition shutdown_held :: "host_env \<Rightarrow> string \<Rightarrow> string \<Rightarrow> (pool \<Rightarrow> pool) \<Rightarrow> pool \<Rightarrow> bool \<times> pool" where
  "shutdown_held E udid reason after s =
     (case reserveTarget E udid s of
        (None, s) \<Rightarrow> (False, s)
      | (Some takeover, s) \<Rightarrow>
          (case in_use_held E udid s of
             (True, s) \<Rightarrow> (False, release_hold udid (\<not> takeover) s)
           | (False, s) \<Rightarrow>
               (case SafeShutdown E udid s of
                  (Some e, s) \<Rightarrow> (False, release_hold udid (\<not> takeover) s)
                | (None, s) \<Rightarrow>
                    (True, release_hold udid (\<not> takeover) (after (reportShutdown udid ''janitor'' reason s))))))"

definition reclaimIdle :: "host_env \<Rightarrow> string \<Rightarrow> pool \<Rightarrow> bool \<times> pool" where
  "reclaimIdle E udid s =
     (case or_else (IsMember s udid, s) (in_use E udid) of
        (True, s) \<Rightarrow> (False, s)
      | (False, s) \<Rightarrow>
          (case reg_Health E udid s of
             ((st, err), s) \<Rightarrow>
               if (case err of None \<Rightarrow> False | Some e \<Rightarrow> is_not_found e) then (False, forgetDaemonBooted udid s)
               else if err \<noteq> None \<or> st \<noteq> StateBooted
               then (False, if err = None \<and> st = StateShutdown then forgetDaemonBooted udid s else s)
               else shutdown_held E udid ''idle daemon-booted sim reclaimed (no lease, stream, or recording)''
                      (forgetDaemonBooted udid) s))"

definition IsDaemonBooted :: "pool \<Rightarrow> string \<Rightarrow> bool" where
  "IsDaemonBooted s udid \<longleftrightarrow> udid \<in> wp_daemonBooted s"

definition OnLeaseEnd :: "host_env \<Rightarrow> string \<Rightarrow> pool \<Rightarrow> pool" where
  "OnLeaseEnd E udid s =
     (if udid = [] \<or> IsMember s udid then s
      else
        let s = clearAwake udid s in
        if \<not> IsDaemonBooted s udid then s else snd (reclaimIdle E udid s))"

definition idleSinceOrMark :: "string \<Rightarrow> instant \<Rightarrow> pool \<Rightarrow> instant \<times> pool" where
  "idleSinceOrMark udid now s =
     (case wp_idleSince s udid of
        Some t \<Rightarrow> (t, s) | None \<Rightarrow> (now, s\<lparr>wp_idleSince := (wp_idleSince s)(udid \<mapsto> now)\<rparr>))"

definition clearIdleSince :: "string \<Rightarrow> pool \<Rightarrow> pool" where
  "clearIdleSince udid s = s\<lparr>wp_idleSince := (wp_idleSince s)(udid := None)\<rparr>"

definition sweep_idle :: "host_env \<Rightarrow> instant \<Rightarrow> string \<Rightarrow> pool \<Rightarrow> pool" where
  "sweep_idle E now udid s =
     (case in_use E udid s of
        (True, s) \<Rightarrow> clearIdleSince udid s
      | (False, s) \<Rightarrow>
          (case idleSinceOrMark udid now s of
             (since, s) \<Rightarrow>
               if now - since < janitorIdleGrace then s
               else (case reclaimIdle E udid s of (reclaimed, s) \<Rightarrow> if reclaimed then clearIdleSince udid s else s)))"

definition daemonBootedList :: "host_env \<Rightarrow> pool \<Rightarrow> string list \<times> pool" where
  "daemonBootedList E s =
     (case ask E (e_order E) s of (ks, s) \<Rightarrow> (remdups (filter (\<lambda>u. u \<in> wp_daemonBooted s) ks), s))"

section \<open>Abandoned simulators\<close>

datatype lockState = lockFresh | lockStale | lockMissing | lockMalformed

fun lockState_String :: "lockState \<Rightarrow> string" where
  "lockState_String lockFresh = ''fresh''"
| "lockState_String lockStale = ''stale''"
| "lockState_String lockMissing = ''missing''"
| "lockState_String lockMalformed = ''malformed''"

text \<open>
  \<^verbatim>\<open>simLockState\<close> on what was read of the lock file. Parsing an RFC 3339 time stamp is a parameter.
\<close>

definition simLockState :: "(string \<Rightarrow> instant option) \<Rightarrow> lock_file \<Rightarrow> instant \<Rightarrow> lockState" where
  "simLockState rfc3339 f now =
     (case f of
        NoLockFile \<Rightarrow> lockMissing
      | LockUnreadable \<Rightarrow> lockMalformed
      | LockFile mtime data \<Rightarrow>
          (case strings_Fields (takeWhile (\<lambda>c. c \<noteq> CHR 0x0A) (TrimSpace data)) of
             _ # f1 # _ \<Rightarrow>
               (case rfc3339 f1 of
                  None \<Rightarrow> lockMalformed
                | Some ts \<Rightarrow>
                    (let newest = (if mtime > ts then mtime else ts) in
                     if now - newest < lockStaleAge then lockFresh else lockStale))
           | _ \<Rightarrow> lockMalformed))"

definition lockDirUsable :: "host_env \<Rightarrow> pool \<Rightarrow> bool \<times> pool" where
  "lockDirUsable E s =
     (case ask E (e_lockdir E) s of (usable, s) \<Rightarrow> (usable, s\<lparr>wp_lockDirWarned := \<not> usable\<rparr>))"

definition resetReapMarks :: "pool \<Rightarrow> pool" where
  "resetReapMarks s = s\<lparr>wp_staleSince := Map.empty, wp_lastLockDecision := Map.empty\<rparr>"

definition staleSinceOrMark :: "string \<Rightarrow> instant \<Rightarrow> pool \<Rightarrow> instant \<times> pool" where
  "staleSinceOrMark udid now s =
     (case wp_staleSince s udid of
        Some t \<Rightarrow> (t, s) | None \<Rightarrow> (now, s\<lparr>wp_staleSince := (wp_staleSince s)(udid \<mapsto> now)\<rparr>))"

definition clearStaleSince :: "string \<Rightarrow> pool \<Rightarrow> pool" where
  "clearStaleSince udid s = s\<lparr>wp_staleSince := (wp_staleSince s)(udid := None)\<rparr>"

definition logLockDecision :: "string \<Rightarrow> lockState \<Rightarrow> string \<Rightarrow> pool \<Rightarrow> pool" where
  "logLockDecision udid st msg s =
     s\<lparr>wp_lastLockDecision := (wp_lastLockDecision s)(udid \<mapsto> lockState_String st @ '':'' @ msg)\<rparr>"

definition reapUnmanaged :: "(string \<Rightarrow> instant option) \<Rightarrow> host_env \<Rightarrow> string \<Rightarrow> pool \<Rightarrow> bool \<times> pool" where
  "reapUnmanaged rfc3339 E udid s =
     (case or_else (isConfiguredPool s udid \<or> IsMember s udid \<or> IsDaemonBooted s udid, s) (in_use E udid) of
        (True, s) \<Rightarrow> (False, s)
      | (False, s) \<Rightarrow>
          (case lockDirUsable E s of
             (False, s) \<Rightarrow> (False, s)
           | (True, s) \<Rightarrow>
               let now = wp_now s in
               (case ask E (\<lambda>t. e_lockfile E t udid) s of
                  (f, s) \<Rightarrow>
                    if simLockState rfc3339 f now \<in> {lockFresh, lockMalformed} then (False, s)
                    else
                      (case reg_Health E udid s of
                         ((st, err), s) \<Rightarrow>
                           if err \<noteq> None \<or> st \<noteq> StateBooted then (False, s)
                           else shutdown_held E udid ''unmanaged sim reaped: fleet lock stale or missing'' (\<lambda>s. s) s))))"

definition reap_locked :: "(string \<Rightarrow> instant option) \<Rightarrow> host_env \<Rightarrow> instant \<Rightarrow> string \<Rightarrow> lockState \<Rightarrow> pool \<Rightarrow> pool" where
  "reap_locked rfc3339 E now udid st s =
     (case in_use E udid s of
        (True, s) \<Rightarrow> logLockDecision udid st ''in active use; grace reset'' (clearStaleSince udid s)
      | (False, s) \<Rightarrow>
          (case staleSinceOrMark udid now s of
             (since, s) \<Rightarrow>
               if now - since < lockReapGrace then logLockDecision udid st ''reap grace pending'' s
               else
                 (case reapUnmanaged rfc3339 E udid s of
                    (reaped, s) \<Rightarrow>
                      if reaped
                      then (clearStaleSince udid s)\<lparr>wp_reapedN := wp_reapedN s + 1,
                             wp_lastLockDecision := (wp_lastLockDecision s)(udid := None)\<rparr>
                      else s)))"

definition reap_one :: "(string \<Rightarrow> instant option) \<Rightarrow> host_env \<Rightarrow> instant \<Rightarrow> string \<Rightarrow> pool \<Rightarrow> pool" where
  "reap_one rfc3339 E now udid s =
     (if isConfiguredPool s udid then s
      else
        (case ask E (\<lambda>t. e_lockfile E t udid) s of
           (f, s) \<Rightarrow>
             (case simLockState rfc3339 f now of
                lockFresh \<Rightarrow> logLockDecision udid lockFresh ''fresh lock; not touched'' (clearStaleSince udid s)
              | lockMalformed \<Rightarrow>
                  logLockDecision udid lockMalformed ''malformed lock; failing closed (treated as fresh)'' (clearStaleSince udid s)
              | st \<Rightarrow> reap_locked rfc3339 E now udid st s)))"

definition reapStaleLocked :: "(string \<Rightarrow> instant option) \<Rightarrow> host_env \<Rightarrow> string list \<Rightarrow> instant \<Rightarrow> pool \<Rightarrow> pool" where
  "reapStaleLocked rfc3339 E unmanaged now s =
     (case lockDirUsable E s of
        (False, s) \<Rightarrow> resetReapMarks s
      | (True, s) \<Rightarrow>
          let current = set (filter (\<lambda>u. \<not> isConfiguredPool s u) unmanaged);
              s = fold (reap_one rfc3339 E now) unmanaged s
          in s\<lparr>wp_staleSince := wp_staleSince s |` current, wp_lastLockDecision := wp_lastLockDecision s |` current\<rparr>)"

definition unmanagedBooted :: "host_env \<Rightarrow> pool \<Rightarrow> (reg_error + target list) \<times> pool" where
  "unmanagedBooted E s =
     (case ask E (e_list E) s of
        (Inl e, s) \<Rightarrow> (Inl e, s)
      | (Inr targets, s) \<Rightarrow>
          (Inr (filter (\<lambda>t. t_Kind t = TargetSimulator \<and> t_State t = StateBooted \<and> t_UDID t \<notin> wp_members s \<and>
                            t_UDID t \<notin> wp_daemonBooted s \<and> \<not> pool_IsParked s (t_UDID t)) targets), s))"

definition logUnmanaged :: "target list \<Rightarrow> pool \<Rightarrow> pool" where
  "logUnmanaged unmanaged s = s\<lparr>wp_lastUnmanaged := strings_Join (sort (map t_UDID unmanaged)) '',''\<rparr>"

definition sweepJanitor :: "(string \<Rightarrow> instant option) \<Rightarrow> pool_config \<Rightarrow> host_env \<Rightarrow> pool \<Rightarrow> pool" where
  "sweepJanitor rfc3339 cf E s =
     (let now = wp_now s;
          (udids, s) = daemonBootedList E s;
          s = fold (sweep_idle E now) udids s
      in case unmanagedBooted E s of
           (Inl e, s) \<Rightarrow> resetReapMarks s
         | (Inr unmanaged, s) \<Rightarrow>
             let s = logUnmanaged unmanaged s in
             if cf_ReapStaleLocks cf then reapStaleLocked rfc3339 E (map t_UDID unmanaged) now s else s)"


section \<open>The footprint watchdog\<close>

definition DefaultFootprintCapKB :: int where "DefaultFootprintCapKB = 3 * 2 ^ 20"
definition rebuildBackoffMin :: duration where "rebuildBackoffMin = 2 * Minute"
definition rebuildBackoffMax :: duration where "rebuildBackoffMax = 30 * Minute"

definition rebuildDue :: "pool \<Rightarrow> string \<Rightarrow> bool" where
  "rebuildDue s udid \<longleftrightarrow> (case wp_rebuildNext s udid of None \<Rightarrow> True | Some t \<Rightarrow> t \<le> wp_now s)"

definition deferRebuild :: "string \<Rightarrow> pool \<Rightarrow> duration \<times> pool" where
  "deferRebuild udid s =
     (let d0 = 2 * (case wp_rebuildWait s udid of None \<Rightarrow> 0 | Some d \<Rightarrow> d);
          d1 = (if d0 < rebuildBackoffMin then rebuildBackoffMin else d0);
          d2 = (if d1 > rebuildBackoffMax then rebuildBackoffMax else d1)
      in (d2, s\<lparr>wp_rebuildWait := (wp_rebuildWait s)(udid \<mapsto> d2),
                wp_rebuildNext := (wp_rebuildNext s)(udid \<mapsto> wp_now s + d2)\<rparr>))"

definition clearRebuildBackoff :: "string \<Rightarrow> pool \<Rightarrow> pool" where
  "clearRebuildBackoff udid s =
     s\<lparr>wp_rebuildWait := (wp_rebuildWait s)(udid := None), wp_rebuildNext := (wp_rebuildNext s)(udid := None)\<rparr>"

text \<open>\<^verbatim>\<open>leased == nil || !leased(udid)\<close>: the watchdog's own callback.\<close>

definition watchdog_free :: "host_env \<Rightarrow> string \<Rightarrow> pool \<Rightarrow> bool \<times> pool" where
  "watchdog_free E udid s = (case ask E (\<lambda>t. e_leased E t udid) s of (l, s) \<Rightarrow> (\<not> l, s))"

text \<open>The rebuild of a shut-down member, inside its hold and transition: erase, then re-park.\<close>

definition rebuild_held :: "pool_config \<Rightarrow> host_env \<Rightarrow> string \<Rightarrow> pool \<Rightarrow> (pool_error option \<times> pool) option" where
  "rebuild_held cf E udid s =
     (case do_Erase E udid s of
        (Some e, s) \<Rightarrow> Some (Some e, snd (deferRebuild udid s))
      | (None, s) \<Rightarrow> do {
          (r, s) \<leftarrow> rePark cf E udid s;
          Some (r, case r of Some e \<Rightarrow> snd (deferRebuild udid s) | None \<Rightarrow> clearRebuildBackoff udid s)
        })"

definition rebuild_member :: "pool_config \<Rightarrow> host_env \<Rightarrow> string \<Rightarrow> pool \<Rightarrow> pool option" where
  "rebuild_member cf E udid s =
     (case reserveTarget E udid s of
        (None, s) \<Rightarrow> Some s
      | (Some _, s) \<Rightarrow> do {
          (r, s) \<leftarrow> rebuild_held cf E udid (BeginTransition udid s);
          let s = EndTransition udid s;
          let s = (if r = None then notifyClean udid s else s);
          Some (release_hold udid (r = None) s)
        })"

text \<open>A member without a tree; the flag says whether the process table is stale afterwards.\<close>

definition sweep_gone :: "pool_config \<Rightarrow> host_env \<Rightarrow> string \<Rightarrow> pool \<Rightarrow> (bool \<times> pool) option" where
  "sweep_gone cf E udid s =
     (case watchdog_free E udid s of
        (free, s) \<Rightarrow>
          if free \<and> \<not> isAwake E s udid \<and> \<not> isDown s udid \<and> rebuildDue s udid then
            (case GateBoot cf E udid s of
               (Some e, s) \<Rightarrow> Some (False, snd (deferRebuild udid s))
             | (None, s) \<Rightarrow> do { s \<leftarrow> rebuild_member cf E udid s; Some (True, s) })
          else Some (False, s))"

text \<open>A member within its footprint: an idle one that is Booted goes back to parked.\<close>

definition sweep_within :: "host_env \<Rightarrow> bool \<Rightarrow> string \<Rightarrow> pool \<Rightarrow> (bool \<times> pool) option" where
  "sweep_within E parked udid s =
     (if parked then Some (False, s)
      else
        (case watchdog_free E udid s of
           (free, s) \<Rightarrow>
             if free \<and> \<not> isAwake E s udid \<and> \<not> isDown s udid then
               (case reg_Health E udid s of
                  ((st, err), s) \<Rightarrow>
                    if (case err of None \<Rightarrow> st \<noteq> StateBooted | Some e \<Rightarrow> is_not_found e) then Some (False, s)
                    else do { (_, s) \<leftarrow> parkIdle E udid s; Some (True, s) })
             else Some (False, s)))"

definition sweep_over :: "pool_config \<Rightarrow> host_env \<Rightarrow> string \<Rightarrow> pool \<Rightarrow> (bool \<times> pool) option" where
  "sweep_over cf E udid s =
     (case watchdog_free E udid s of
        (False, s) \<Rightarrow> Some (False, s)
      | (True, s) \<Rightarrow> do { (_, s) \<leftarrow> Recycle cf E udid s; Some (True, s) })"

definition sweep_tree :: "pool_config \<Rightarrow> host_env \<Rightarrow> int \<Rightarrow> bool \<Rightarrow> int list \<Rightarrow> string \<Rightarrow> pool \<Rightarrow> (bool \<times> pool) option" where
  "sweep_tree cf E capKB parked tree udid s =
     (if tree = [] then sweep_gone cf E udid s
      else
        (case ask E (\<lambda>t. e_footprint E t tree) s of
           (fp, s) \<Rightarrow>
             let kb = (case fp of Inl _ \<Rightarrow> 0 | Inr kb \<Rightarrow> kb) in
             if kb \<le> capKB then sweep_within E parked udid s else sweep_over cf E udid s))"

text \<open>
  The tree of a parked member is the cached one; when none of it is alive, also in a fresh listing,
  the ledger entry is dropped. \<^const>\<open>None\<close> inside is a failed listing, which ends the sweep.
\<close>

definition parked_tree_checked :: "host_env \<Rightarrow> Proc list \<Rightarrow> string \<Rightarrow> pool \<Rightarrow> (Proc list \<times> int list) option \<times> pool" where
  "parked_tree_checked E procs udid s =
     (let tree = ParkedTree (wp_parker s) udid in
      if tree \<noteq> [] \<and> \<not> anyAlive procs tree then
        (case ask E (e_procs E) s of
           (Inl e, s) \<Rightarrow> (None, s)
         | (Inr fresh, s) \<Rightarrow>
             if \<not> anyAlive fresh tree
             then (Some (fresh, []), noted (Thawed udid) (s\<lparr>wp_parker := ForgetParked udid (wp_parker s)\<rparr>))
             else (Some (fresh, ParkedTree (wp_parker s) udid), s))
      else (Some (procs, tree), s))"

fun sweep_members :: "pool_config \<Rightarrow> host_env \<Rightarrow> int \<Rightarrow> bool \<Rightarrow> Proc list \<Rightarrow> string list \<Rightarrow> pool \<Rightarrow> pool option" where
  "sweep_members cf E capKB stale procs [] s = Some s"
| "sweep_members cf E capKB stale procs (udid # us) s =
     (case (if stale then ask E (e_procs E) s else (Inr procs, s)) of
        (Inl e, s) \<Rightarrow> Some s
      | (Inr procs, s) \<Rightarrow>
          if isBusy E s udid then sweep_members cf E capKB False procs us s
          else
            (case parked_tree_checked E procs udid s of
               (None, s) \<Rightarrow> Some s
             | (Some (procs, tree), s) \<Rightarrow> do {
                 tree' \<leftarrow> (if tree = [] then simTree procs udid else Some tree);
                 (stale, s) \<leftarrow> sweep_tree cf E capKB (tree \<noteq> []) tree' udid s;
                 sweep_members cf E capKB stale procs us s
               }))"

definition sweepFootprints :: "pool_config \<Rightarrow> host_env \<Rightarrow> int \<Rightarrow> pool \<Rightarrow> pool option" where
  "sweepFootprints cf E capKB s =
     (case ask E (e_order E) s of
        (ks, s) \<Rightarrow>
          let members = remdups (filter (\<lambda>u. u \<in> wp_members s) ks) in
          if members = [] then Some s
          else
            (case ask E (e_procs E) s of
               (Inl e, s) \<Rightarrow> Some s
             | (Inr procs, s) \<Rightarrow> sweep_members cf E capKB False procs members s))"

section \<open>The guarded registry\<close>

definition Guard_Boot :: "pool_config \<Rightarrow> host_env \<Rightarrow> string \<Rightarrow> pool \<Rightarrow> pool_error option \<times> pool" where
  "Guard_Boot cf E udid s =
     (if pool_IsParked s udid then
        (case prk_Thaw E udid s of
           (Some e, s) \<Rightarrow> (Some e, s)
         | (None, s) \<Rightarrow> (None, MarkAwake udid (clearBootErr udid (clearDown udid s))))
      else
        (case BootAsync cf E udid s of
           (Some e, s) \<Rightarrow> (Some e, s)
         | (None, s) \<Rightarrow> (None, MarkAwake udid (if IsMember s udid then clearDown udid s else s))))"

definition Guard_Shutdown :: "host_env \<Rightarrow> string \<Rightarrow> pool \<Rightarrow> pool_error option \<times> pool" where
  "Guard_Shutdown E udid s = SafeShutdown E udid s"

definition Guard_Health :: "host_env \<Rightarrow> string \<Rightarrow> pool \<Rightarrow> (TargetState \<times> reg_error option) \<times> pool" where
  "Guard_Health E udid s = (if pool_IsParked s udid then ((StateBooted, None), s) else reg_Health E udid s)"

section \<open>Status\<close>

record PoolStatus =
  ps_Class :: CapacityClass
  ps_Running :: nat
  ps_Unmanaged :: nat
  ps_ReapedStaleLocks :: nat
  ps_Parked :: nat
  ps_BootsInFlight :: nat
  ps_LoadAvg1 :: rat
  ps_CPUs :: nat
  ps_FreeDiskBytes :: int
  ps_LoadOK :: bool
  ps_DiskOK :: bool

definition Running :: "host_env \<Rightarrow> pool \<Rightarrow> (reg_error + nat) \<times> pool" where
  "Running E s =
     (case wp_runningAt s of
        Some seen \<Rightarrow> if wp_now s - seen < runningCacheTTL then (Inr (wp_running s), s) else runningCount E [] s
      | None \<Rightarrow> runningCount E [] s)"

definition Status :: "pool_config \<Rightarrow> host_env \<Rightarrow> pool \<Rightarrow> PoolStatus \<times> pool" where
  "Status cf E s0 =
     (let (n, s1) = Running E s0;
          (load, s2) = ask E (e_load E) s1;
          (free, s3) = ask E (e_disk E) s2
      in (\<lparr>ps_Class = cf_Class cf,
           ps_Running = (case n of Inl _ \<Rightarrow> 0 | Inr k \<Rightarrow> k),
           ps_Unmanaged = (case n of Inl _ \<Rightarrow> 0 | Inr _ \<Rightarrow> wp_unmanagedN s1),
           ps_ReapedStaleLocks = wp_reapedN s1,
           ps_Parked = card (dom (pk_parked (wp_parker s0))),
           ps_BootsInFlight = wp_slots s0,
           ps_LoadAvg1 = (case load of Inl _ \<Rightarrow> 0 | Inr l \<Rightarrow> l),
           ps_CPUs = e_cpus E,
           ps_FreeDiskBytes = (case free of Inl _ \<Rightarrow> 0 | Inr f \<Rightarrow> f),
           ps_LoadOK = (case load of Inl _ \<Rightarrow> True
                        | Inr l \<Rightarrow> \<not> (cf_LoadFactor cf > 0 \<and> l > cf_LoadFactor cf * of_nat (e_cpus E))),
           ps_DiskOK = (case free of Inl _ \<Rightarrow> True
                        | Inr f \<Rightarrow> \<not> (cf_MinFreeDisk cf > 0 \<and> f < cf_MinFreeDisk cf))\<rparr>, s3))"

end
