(* ===== verification/Mz_PoolProps.thy ===== *)
theory Mz_PoolProps
  imports Mz_Janitor
begin

text \<open>
  What the warm pool promises the rest of the daemon, over every sequence of its operations and every
  behaviour of the outside. The promises are monitors over the trace of effects: how the pool uses the
  holds of the lease manager, that no parked simulator is shut down, and that every boot passed the
  gates.
\<close>

section \<open>Monitors\<close>

text \<open>
  Holds: a target is held once at a time; erasing and marking clean happen under a hold, marking clean
  only after an erase that succeeded; a hold that displaced a quarantine is released as rebuilt only
  after an erase that succeeded. The state is, per held target, whether the hold displaced a
  quarantine and whether its last erase succeeded.
\<close>

type_synonym holds = "string \<rightharpoonup> bool \<times> bool"

fun hold_watch :: "effect \<Rightarrow> holds \<Rightarrow> holds option" where
  "hold_watch (Reserved u takeover) H = (if H u = None then Some (H(u \<mapsto> (takeover, False))) else None)"
| "hold_watch (Released u rebuilt) H =
     (case H u of
        None \<Rightarrow> None
      | Some (takeover, erased) \<Rightarrow> if rebuilt \<and> takeover \<and> \<not> erased then None else Some (H(u := None)))"
| "hold_watch (ErasedCall u ok) H = (case H u of None \<Rightarrow> None | Some (takeover, _) \<Rightarrow> Some (H(u \<mapsto> (takeover, ok))))"
| "hold_watch (MarkedClean u) H = (case H u of Some (_, True) \<Rightarrow> Some H | _ \<Rightarrow> None)"
| "hold_watch _ H = Some H"

fun hold_mon :: "effect list \<Rightarrow> holds option" where
  "hold_mon [] = Some Map.empty"
| "hold_mon (e # es) = Option.bind (hold_mon es) (hold_watch e)"

text \<open>Parks: the state is the set of parked targets; none of them is shut down.\<close>

fun park_watch :: "effect \<Rightarrow> string set \<Rightarrow> string set option" where
  "park_watch (Parked u) F = Some (insert u F)"
| "park_watch (Thawed u) F = Some (F - {u})"
| "park_watch (ShutdownCall u) F = (if u \<in> F then None else Some F)"
| "park_watch _ F = Some F"

fun park_mon :: "effect list \<Rightarrow> string set option" where
  "park_mon [] = Some {}"
| "park_mon (e # es) = Option.bind (park_mon es) (park_watch e)"

text \<open>Boots: a boot directly follows the passing of the gates for the same target.\<close>

fun boots_gated :: "effect list \<Rightarrow> bool" where
  "boots_gated [] = True"
| "boots_gated (BootCall u # es) = ((case es of Gated v # _ \<Rightarrow> u = v | _ \<Rightarrow> False) \<and> boots_gated es)"
| "boots_gated (_ # es) = boots_gated es"

definition safe :: "holds \<Rightarrow> pool \<Rightarrow> bool" where
  "safe H s \<longleftrightarrow> hold_mon (wp_trace s) = Some H \<and>
     park_mon (wp_trace s) = Some (dom (pk_parked (wp_parker s))) \<and> boots_gated (wp_trace s)"

text \<open>The process tables the outside answers with are those of a kernel.\<close>

definition sound_env :: "host_env \<Rightarrow> bool" where
  "sound_env E \<longleftrightarrow> (\<forall>t ps. e_procs E t = Inr ps \<longrightarrow> (\<exists>age. sound_table age ps))"

lemma simTree_total: "sound_table age procs \<Longrightarrow> \<exists>tree. simTree procs udid = Some tree"
  using bfs_total [of age procs "findLaunchdSim procs udid" "[]" "[findLaunchdSim procs udid]"]
  by (auto simp: simTree_def walk_ok_def Let_def)

section \<open>Bookkeeping leaves the monitors alone\<close>

lemma safe_frame:
  "safe H s \<Longrightarrow> wp_trace s' = wp_trace s \<Longrightarrow> dom (pk_parked (wp_parker s')) = dom (pk_parked (wp_parker s)) \<Longrightarrow> safe H s'"
  by (simp add: safe_def)

lemma safe_fields [simp]:
  "safe H (s\<lparr>wp_stopped := a1\<rparr>) = safe H s" "safe H (s\<lparr>wp_members := a2\<rparr>) = safe H s"
  "safe H (s\<lparr>wp_busy := a3\<rparr>) = safe H s" "safe H (s\<lparr>wp_grantSeq := a4\<rparr>) = safe H s"
  "safe H (s\<lparr>wp_closed := a5\<rparr>) = safe H s" "safe H (s\<lparr>wp_parking := a6\<rparr>) = safe H s"
  "safe H (s\<lparr>wp_awakeUntil := a7\<rparr>) = safe H s" "safe H (s\<lparr>wp_down := a8\<rparr>) = safe H s"
  "safe H (s\<lparr>wp_rebuildNext := a9\<rparr>) = safe H s" "safe H (s\<lparr>wp_rebuildWait := b1\<rparr>) = safe H s"
  "safe H (s\<lparr>wp_daemonBooted := b2\<rparr>) = safe H s" "safe H (s\<lparr>wp_idleSince := b3\<rparr>) = safe H s"
  "safe H (s\<lparr>wp_staleSince := b4\<rparr>) = safe H s" "safe H (s\<lparr>wp_lastLockDecision := b5\<rparr>) = safe H s"
  "safe H (s\<lparr>wp_reapedN := b6\<rparr>) = safe H s" "safe H (s\<lparr>wp_lockDirWarned := b7\<rparr>) = safe H s"
  "safe H (s\<lparr>wp_configuredPool := b8\<rparr>) = safe H s" "safe H (s\<lparr>wp_lastUnmanaged := b9\<rparr>) = safe H s"
  "safe H (s\<lparr>wp_unmanagedN := c1\<rparr>) = safe H s" "safe H (s\<lparr>wp_bootErr := c2\<rparr>) = safe H s"
  "safe H (s\<lparr>wp_running := c3\<rparr>) = safe H s" "safe H (s\<lparr>wp_runningAt := c4\<rparr>) = safe H s"
  "safe H (s\<lparr>wp_slots := c5\<rparr>) = safe H s" "safe H (s\<lparr>wp_jobs := c6\<rparr>) = safe H s"
  "safe H (s\<lparr>wp_tick := c7\<rparr>) = safe H s" "safe H (s\<lparr>wp_now := c8\<rparr>) = safe H s"
  by (simp_all add: safe_def)

lemmas bookkeeping = BeginTransition_def EndTransition_def clearAwake_def clearDown_def MarkAwake_def
  setBootErr_def takeBootErr_def clearBootErr_def markDaemonBooted_def forgetDaemonBooted_def
  free_slot_def SetConfiguredPool_def

text \<open>Effects no monitor reacts to.\<close>

fun plain_effect :: "effect \<Rightarrow> bool" where
  "plain_effect (Reserved _ _) = False"
| "plain_effect (Released _ _) = False"
| "plain_effect (ErasedCall _ _) = False"
| "plain_effect (MarkedClean _) = False"
| "plain_effect (Parked _) = False"
| "plain_effect (Thawed _) = False"
| "plain_effect (ShutdownCall _) = False"
| "plain_effect (BootCall _) = False"
| "plain_effect _ = True"

lemma safe_plain: "plain_effect e \<Longrightarrow> safe H s \<Longrightarrow> safe H (noted e s)"
  by (cases e) (auto simp: safe_def noted_def)

lemma safe_plains [simp]:
  "safe H s \<Longrightarrow> safe H (noted (Gated u) s)" "safe H s \<Longrightarrow> safe H (noted (DeviceBootCall u) s)"
  "safe H s \<Longrightarrow> safe H (noted (SlimCall u) s)" "safe H s \<Longrightarrow> safe H (noted (Killed k) s)"
  "safe H s \<Longrightarrow> safe H (noted (NotedShutdown u) s)" "safe H s \<Longrightarrow> safe H (noted (ReportedShutdown u a b) s)"
  "safe H s \<Longrightarrow> safe H (noted (ReportedBoot u) s)"
  by (simp_all add: safe_plain)

lemma noted_simps [simp]: "wp_trace (noted e s) = e # wp_trace s" "wp_parker (noted e s) = wp_parker s"
  by (simp_all add: noted_def)

lemma ask_safe: "ask E f s = (a, s') \<Longrightarrow> safe H s \<Longrightarrow> safe H s' \<and> wp_parker s' = wp_parker s \<and> wp_trace s' = wp_trace s"
  by (auto simp: ask_def)

section \<open>Each operation keeps the promises\<close>

lemma Thaw_ledger:
  assumes "Thaw allowed udid (pk, stopped) = ((pk', stopped'), r)"
  shows "pk_parked pk' = (if r = None then (pk_parked pk)(udid := None) else pk_parked pk)"
  using assms by (auto simp: Thaw_def Let_def fun_eq_iff split: option.splits if_splits)

lemma prk_Thaw_safe:
  assumes "prk_Thaw E udid s = (r, s')" "safe H s"
  shows "safe H s'" "r = None \<Longrightarrow> pk_parked (wp_parker s') udid = None"
proof -
  obtain allowed s1 where a: "ask E (e_allowed E) s = (allowed, s1)" by fastforce
  have s1: "safe H s1" using ask_safe [OF a assms(2)] by blast
  obtain pk stopped q where t: "Thaw allowed udid (wp_parker s1, wp_stopped s1) = ((pk, stopped), q)" by (metis prod.exhaust)
  note led = Thaw_ledger [OF t]
  show "safe H s'" "r = None \<Longrightarrow> pk_parked (wp_parker s') udid = None"
    using assms(1) a t led s1 by (auto simp: prk_Thaw_def safe_def noted_def dom_def split: option.splits if_splits)
qed

lemma Park_ledger:
  assumes "Park allowed listing udid (pk, stopped) = Some ((pk', stopped'), r)"
  shows "dom (pk_parked pk') = (if r = None then insert udid (dom (pk_parked pk)) else dom (pk_parked pk))"
  using assms by (auto simp: Park_def Let_def split: sum.splits option.splits if_splits prod.splits)

lemma Park_total:
  assumes "\<And>procs. listing = Inr procs \<Longrightarrow> \<exists>age. sound_table age procs"
  shows "\<exists>w r. Park allowed listing udid w' = Some (w, r)"
proof (cases listing)
  case (Inl e)
  then show ?thesis by (cases w') (simp add: Park_def)
next
  case (Inr procs)
  then obtain tree where "simTree procs udid = Some tree" using assms simTree_total by blast
  then show ?thesis using Inr by (cases w') (auto simp: Park_def Let_def split: prod.splits option.splits)
qed

lemma prk_Park_safe:
  assumes "sound_env E" "safe H s"
  shows "succeeds (prk_Park E udid s) (\<lambda>(r, s'). safe H s')"
proof -
  obtain listing s1 where a: "ask E (e_procs E) s = (listing, s1)" by fastforce
  obtain allowed s2 where b: "ask E (e_allowed E) s1 = (allowed, s2)" by fastforce
  have s2: "safe H s2" using ask_safe [OF a assms(2)] ask_safe [OF b] by blast
  have "\<exists>age. sound_table age procs" if "listing = Inr procs" for procs
    using assms(1) a that by (auto simp: sound_env_def ask_def)
  then obtain pk stopped r where p: "Park allowed listing udid (wp_parker s2, wp_stopped s2) = Some ((pk, stopped), r)"
    using Park_total [of listing allowed udid "(wp_parker s2, wp_stopped s2)"] by auto
  show ?thesis using a b p Park_ledger [OF p] s2
    by (auto simp: prk_Park_def safe_def noted_def Let_def split: option.splits)
qed


lemma isLeased_safe: "isLeased E u s = (b, s') \<Longrightarrow> safe H s \<Longrightarrow> safe H s'"
  by (auto simp: isLeased_def dest: ask_safe)

lemma isStreaming_safe: "isStreaming E u s = (b, s') \<Longrightarrow> safe H s \<Longrightarrow> safe H s'"
  by (auto simp: isStreaming_def dest: ask_safe)

lemma isRecording_safe: "isRecording E u s = (b, s') \<Longrightarrow> safe H s \<Longrightarrow> safe H s'"
  by (auto simp: isRecording_def dest: ask_safe)

lemma or_else_safe:
  assumes "or_else x f = (b, s')" "\<And>b s1. x = (b, s1) \<Longrightarrow> safe H s1"
    "\<And>s b s'. f s = (b, s') \<Longrightarrow> safe H s \<Longrightarrow> safe H s'"
  shows "safe H s'"
  using assms by (auto simp: or_else_def split: prod.splits bool.splits)

lemmas flag_safe = isLeased_safe isStreaming_safe isRecording_safe

lemma first_look_safe:
  "or_else (or_else (isLeased E u s) (isStreaming E u)) (isRecording E u) = (b, s') \<Longrightarrow> safe H s \<Longrightarrow> safe H s'"
  by (auto elim!: or_else_safe intro: flag_safe)

lemma second_look_safe:
  "or_else (or_else (or_else (c, s) (isLeased E u)) (\<lambda>s. or_else (P s, s) (isStreaming E u))) (isRecording E u) = (b, s') \<Longrightarrow>
   safe H s \<Longrightarrow> safe H s'"
  by (auto elim!: or_else_safe intro: flag_safe)

lemma park_checked_safe:
  assumes env: "sound_env E" and s: "safe H s"
  shows "succeeds (park_checked E u s) (\<lambda>(r, s'). safe H s')"
proof -
  obtain b s1 where c: "or_else (or_else (isLeased E u s) (isStreaming E u)) (isRecording E u) = (b, s1)" by fastforce
  have s1: "safe H s1" using first_look_safe [OF c s] .
  then obtain r s2 where p: "prk_Park E u s1 = Some (r, s2)" and s2: "safe H s2"
    using prk_Park_safe [OF env s1, of u] by (auto simp: succeeds_iff)
  show ?thesis
    using c s1 p s2
    by (auto simp: park_checked_def Let_def dest!: second_look_safe [OF _ s2] prk_Thaw_safe(1) split: option.splits prod.splits)
qed

lemma parkIdle_safe:
  assumes env: "sound_env E" and s: "safe H s"
  shows "succeeds (parkIdle E u s) (\<lambda>(r, s'). safe H s')"
proof (cases "isClosed E s")
  case False
  let ?s = "s\<lparr>wp_parking := wp_parking s + 1\<rparr>"
  have "safe H ?s" using s by simp
  then obtain r s' where "park_checked E u ?s = Some (r, s')" "safe H s'"
    using park_checked_safe [OF env, of H ?s u] by (auto simp: succeeds_iff)
  then show ?thesis using False by (simp add: parkIdle_def)
qed (simp add: parkIdle_def s)

lemma checkDisk_safe: "checkDisk E m s = (r, s') \<Longrightarrow> safe H s \<Longrightarrow> safe H s'"
  by (auto simp: checkDisk_def dest: ask_safe split: prod.splits sum.splits)

lemma checkLoad_safe: "checkLoad E m s = (r, s') \<Longrightarrow> safe H s \<Longrightarrow> safe H s'"
  by (auto simp: checkLoad_def dest: ask_safe split: prod.splits sum.splits)

lemma refusal_safe: "refusal x = (r, s') \<Longrightarrow> (\<And>r s1. x = (r, s1) \<Longrightarrow> safe H s1) \<Longrightarrow> safe H s'"
  by (auto simp: refusal_def split: prod.splits option.splits)

lemma disk_gate_safe: "disk_gate cf E s = (r, s') \<Longrightarrow> safe H s \<Longrightarrow> safe H s'"
  by (auto simp: disk_gate_def split: if_splits elim!: refusal_safe intro: checkDisk_safe)

lemma load_gate_safe: "load_gate cf E s = (r, s') \<Longrightarrow> safe H s \<Longrightarrow> safe H s'"
  by (auto simp: load_gate_def split: if_splits elim!: refusal_safe intro: checkLoad_safe)

lemma runningCount_safe: "runningCount E u s = (r, s') \<Longrightarrow> safe H s \<Longrightarrow> safe H s'"
  by (auto simp: runningCount_def Let_def dest: ask_safe split: prod.splits sum.splits)

lemma running_gate_safe: "running_gate cf E u s = (r, s') \<Longrightarrow> safe H s \<Longrightarrow> safe H s'"
  by (auto simp: running_gate_def dest: runningCount_safe split: if_splits prod.splits sum.splits)

lemma GateBoot_safe:
  assumes "GateBoot cf E u s = (r, s')" "safe H s"
  shows "safe H s' \<and> (r = None \<longrightarrow> (\<exists>es. wp_trace s' = Gated u # es))"
  using assms
  by (auto simp: GateBoot_def split: prod.splits option.splits
      dest!: disk_gate_safe [where H = H] load_gate_safe [where H = H] running_gate_safe [where H = H])


lemma reg_Boot_safe:
  assumes "reg_Boot E u s = (r, s')" "safe H s" "wp_trace s = Gated u # es"
  shows "safe H s'"
proof -
  have "safe H (noted (BootCall u) s)" using assms(2,3) by (auto simp: safe_def)
  then show ?thesis using assms(1) by (auto simp: reg_Boot_def dest: ask_safe split: prod.splits)
qed

lemma reg_Shutdown_safe:
  assumes "reg_Shutdown E u s = (r, s')" "safe H s" "pk_parked (wp_parker s) u = None"
  shows "safe H s'"
proof -
  have "safe H (noted (ShutdownCall u) s)" using assms(2,3) by (auto simp: safe_def)
  then show ?thesis using assms(1) by (auto simp: reg_Shutdown_def dest: ask_safe split: prod.splits)
qed

lemma do_Erase_safe:
  assumes "do_Erase E u s = (r, s')" "safe H s" "H u = Some (takeover, erased)"
  shows "safe (H(u \<mapsto> (takeover, r = None))) s'"
  using assms by (auto simp: do_Erase_def safe_def dest!: ask_safe [where H = H] split: prod.splits option.splits)

lemma do_Slim_safe: "safe H s \<Longrightarrow> safe H (do_Slim cf E u s)"
  by (cases "ask E (\<lambda>t. e_slim E t u) (noted (SlimCall u) s)") (auto simp: do_Slim_def dest!: ask_safe [where H = H])

lemma reg_Get_safe: "reg_Get E u s = (r, s') \<Longrightarrow> safe H s \<Longrightarrow> safe H s' \<and> wp_parker s' = wp_parker s"
  by (auto simp: reg_Get_def dest: ask_safe)

lemma reg_Health_safe: "reg_Health E u s = (r, s') \<Longrightarrow> safe H s \<Longrightarrow> safe H s' \<and> wp_parker s' = wp_parker s"
  by (auto simp: reg_Health_def dest: ask_safe)

lemma poll_wait_safe: "poll_wait E s = (b, s') \<Longrightarrow> safe H s \<Longrightarrow> safe H s'"
  by (auto simp: poll_wait_def dest: ask_safe split: prod.splits)

lemma waitBooted_from_safe: "safe H s \<Longrightarrow> waitBooted_from E u d s = (r, s') \<Longrightarrow> safe H s'"
proof (induction E u d s rule: waitBooted_from.induct)
  case (1 E u d s)
  obtain h s1 where h: "reg_Health E u s = (h, s1)" by fastforce
  obtain b s2 where w: "poll_wait E s1 = (b, s2)" by fastforce
  have s1: "safe H s1" using reg_Health_safe [OF h 1(2)] by blast
  have s2: "safe H s2" using poll_wait_safe [OF w s1] .
  show ?case
    using 1(3) h w s1 s2 1(1) [OF h [symmetric] refl _ _ w [symmetric] refl _ s2]
    by (subst (asm) waitBooted_from.simps) (auto split: if_splits)
qed

lemma waitBooted_safe: "waitBooted E u s = (r, s') \<Longrightarrow> safe H s \<Longrightarrow> safe H s'"
  by (auto simp: waitBooted_def dest: waitBooted_from_safe)

lemma take_slot_safe: "take_slot E s = (b, s') \<Longrightarrow> safe H s \<Longrightarrow> safe H s'"
  by (auto simp: take_slot_def dest: ask_safe split: prod.splits if_splits)

lemma kill_loop_safe: "fold (kill_one allowed) live (r, s) = (r', s') \<Longrightarrow> safe H s \<Longrightarrow> safe H s' \<and> wp_parker s' = wp_parker s"
proof (induction live arbitrary: r s)
  case (Cons pid live)
  obtain r1 s1 where k: "kill_one allowed pid (r, s) = (r1, s1)" by fastforce
  then have "safe H s1 \<and> wp_parker s1 = wp_parker s" using Cons.prems(2) by (auto simp: kill_one_def Let_def)
  then show ?case using Cons.IH [of r1 s1] Cons.prems(1) k by simp
qed simp

lemma safe_ForgetOwned [simp]: "wp_parker s = pk \<Longrightarrow> safe H (s\<lparr>wp_parker := ForgetOwned u pk\<rparr>) = safe H s"
  by (auto simp: safe_def ForgetOwned_def)

lemma ReapOrphans_safe:
  assumes "ReapOrphans E u s = (r, s')" "safe H s"
  shows "safe H s'"
  using assms
  by (auto simp: ReapOrphans_def Let_def split: prod.splits sum.splits if_splits
      dest!: ask_safe [where H = H] kill_loop_safe [where H = H])

text \<open>Facts about calls that returned, for the proofs of the operations that make them.\<close>

lemmas call_safe = ask_safe prk_Thaw_safe(1) reg_Get_safe reg_Health_safe waitBooted_safe take_slot_safe ReapOrphans_safe
  disk_gate_safe load_gate_safe running_gate_safe runningCount_safe isRecording_safe isLeased_safe isStreaming_safe

lemma reportBoot_safe [simp]: "safe H s \<Longrightarrow> safe H (reportBoot u s)"
  by (simp add: reportBoot_def)

lemma boot_with_slot_safe: "safe H s \<Longrightarrow> safe H (boot_with_slot cf E u s)"
  by (auto simp: boot_with_slot_def bookkeeping split: prod.splits option.splits
      dest!: GateBoot_safe [where H = H] reg_Boot_safe [where H = H] waitBooted_safe [where H = H])

lemma boot_job_safe: "safe H s \<Longrightarrow> safe H (boot_job cf E u s)"
  by (auto simp: boot_job_def bookkeeping boot_with_slot_safe split: prod.splits bool.splits
      dest!: take_slot_safe [where H = H])

lemma boot_sync_safe:
  assumes "boot_sync cf E u s = (r, s')" "safe H s"
  shows "safe H s'"
  using assms
  by (auto simp: boot_sync_def bookkeeping split: prod.splits option.splits sum.splits if_splits
      dest!: reg_Get_safe [where H = H] prk_Thaw_safe(1) [where H = H] GateBoot_safe [where H = H]
        reg_Boot_safe [where H = H] waitBooted_safe [where H = H])

lemma bootGated_safe: "bootGated cf E u s = (r, s') \<Longrightarrow> safe H s \<Longrightarrow> safe H s'"
  by (auto simp: bootGated_def bookkeeping split: prod.splits bool.splits
      dest!: take_slot_safe [where H = H] boot_sync_safe [where H = H])

lemma BootAsync_safe: "BootAsync cf E u s = (r, s') \<Longrightarrow> safe H s \<Longrightarrow> safe H s'"
  by (auto simp: BootAsync_def bookkeeping split: prod.splits option.splits sum.splits if_splits
      dest!: reg_Get_safe [where H = H] GateBoot_safe [where H = H] ask_safe [where H = H])

lemma rePark_safe:
  assumes env: "sound_env E" and s: "safe H s"
  shows "succeeds (rePark cf E u s) (\<lambda>(r, s'). safe H s')"
proof -
  obtain got s1 where g: "reg_Get E u (clearDown u (clearAwake u s)) = (got, s1)" by fastforce
  have s1: "safe H s1" using reg_Get_safe [OF g, of H] s by (simp add: bookkeeping)
  define s2 where "s2 = (case got of Inl _ \<Rightarrow> s1 | Inr t \<Rightarrow> if t_State t \<noteq> StateBooted then snd (ReapOrphans E u s1) else s1)"
  have s2: "safe H s2"
    using s1 ReapOrphans_safe [of E u s1 _ _ H] by (auto simp: s2_def split: sum.splits intro: prod.exhaust_sel)
  obtain r s3 where b: "bootGated cf E u s2 = (r, s3)" by fastforce
  have s3: "safe H s3" using bootGated_safe [OF b s2] .
  show ?thesis
  proof (cases r)
    case None
    obtain q s4 where "parkIdle E u (do_Slim cf E u s3) = Some (q, s4)" "safe H s4"
      using parkIdle_safe [OF env do_Slim_safe [OF s3], of u cf E u] by (auto simp: succeeds_iff)
    then show ?thesis using g b None by (simp add: rePark_def s2_def [symmetric] split: prod.splits)
  qed (use g b s3 in \<open>simp add: rePark_def s2_def [symmetric]\<close>)
qed


text \<open>
  Operations inside a hold on the target: what they leave of the hold. \<open>erased\<close> asks that the last
  erase succeeded.
\<close>

definition hold_at :: "holds \<Rightarrow> string \<Rightarrow> bool \<Rightarrow> bool \<Rightarrow> pool \<Rightarrow> bool" where
  "hold_at H u takeover erased s \<longleftrightarrow> (\<exists>e. safe (H(u \<mapsto> (takeover, e))) s \<and> (erased \<longrightarrow> e))"

lemma held_fields [simp]:
  "hold_at H u t e (s\<lparr>wp_busy := a\<rparr>) = hold_at H u t e s" "hold_at H u t e (s\<lparr>wp_rebuildWait := b\<rparr>) = hold_at H u t e s"
  "hold_at H u t e (s\<lparr>wp_rebuildNext := c\<rparr>) = hold_at H u t e s"
  by (simp_all add: hold_at_def)

lemma held_EndTransition [simp]: "hold_at H u t e (EndTransition v s) = hold_at H u t e s"
  by (simp add: EndTransition_def)

lemma held_weaken: "hold_at H u takeover True s \<Longrightarrow> hold_at H u takeover e s"
  by (auto simp: hold_at_def)

lemma held_here: "safe (H(u \<mapsto> (takeover, e))) s \<Longrightarrow> hold_at H u takeover False s"
  by (auto simp: hold_at_def)

lemma held_erased: "safe (H(u \<mapsto> (takeover, e))) s \<Longrightarrow> do_Erase E u s = (r, s') \<Longrightarrow> hold_at H u takeover (r = None) s'"
  using do_Erase_safe [of E u s r s' "H(u \<mapsto> (takeover, e))"] by (auto simp: hold_at_def)

lemma add_wipe_held:
  assumes w: "add_wipe E u s = (r, s')" and s: "safe (H(u \<mapsto> (takeover, e))) s"
  shows "hold_at H u takeover (r = None) s'"
proof -
  obtain r1 s1 where t: "prk_Thaw E u s = (r1, s1)" by fastforce
  note s1 = prk_Thaw_safe [OF t s]
  obtain got s2 where g: "reg_Get E u s1 = (got, s2)" by fastforce
  note s2 = reg_Get_safe [OF g s1(1)]
  obtain r3 s3 where d: "reg_Shutdown E u s2 = (r3, s3)" by fastforce
  have s3: "safe (H(u \<mapsto> (takeover, e))) s3" if "r1 = None" using reg_Shutdown_safe [OF d] s2 s1(2) [OF that] by simp
  show ?thesis
    using w t g d s1(1) s2 s3
    by (auto simp: add_wipe_def notifyShutdown_def split: option.splits prod.splits if_splits sum.splits
        intro: held_here dest!: held_erased [where H = H and takeover = takeover and e = e, rotated])
qed

lemma add_held_held:
  assumes env: "sound_env E" and s: "safe (H(u \<mapsto> (takeover, False))) s"
  shows "succeeds (add_held cf E takeover u s) (\<lambda>(r, s'). hold_at H u takeover (takeover \<and> r = None) s')"
proof -
  obtain r1 s1 where w: "(if takeover then add_wipe E u s else (None, s)) = (r1, s1)" by fastforce
  have s1: "hold_at H u takeover (takeover \<and> r1 = None) s1"
    using w s add_wipe_held [OF _ s] held_here [OF s] by (auto split: if_splits)
  then obtain e where e: "safe (H(u \<mapsto> (takeover, e))) s1" "takeover \<and> r1 = None \<longrightarrow> e" by (auto simp: hold_at_def)
  obtain r2 s2 where b: "bootGated cf E u s1 = (r2, s2)" by fastforce
  have s2: "safe (H(u \<mapsto> (takeover, e))) s2" using bootGated_safe [OF b e(1)] .
  let ?s3 = "s2\<lparr>wp_members := insert u (wp_members s2), wp_daemonBooted := wp_daemonBooted s2 - {u},
                 wp_idleSince := (wp_idleSince s2)(u := None)\<rparr>"
  obtain q s4 where p: "parkIdle E u (do_Slim cf E u ?s3) = Some (q, s4)" "safe (H(u \<mapsto> (takeover, e))) s4"
    using parkIdle_safe [OF env do_Slim_safe, of "H(u \<mapsto> (takeover, e))" ?s3 u cf E u] s2 by (auto simp: succeeds_iff)
  show ?thesis
    using w b p e s2 held_here [OF s] held_here [OF e(1)] held_here [OF s2]
    by (auto simp: add_held_def Let_def hold_at_def split: option.splits prod.splits)
qed

lemma reserve_safe:
  assumes "reserveTarget E u s = (r, s')" "safe Map.empty s"
  shows "case r of None \<Rightarrow> safe Map.empty s' | Some takeover \<Rightarrow> safe [u \<mapsto> (takeover, False)] s'"
  using assms by (auto simp: reserveTarget_def safe_def dest!: ask_safe [where H = Map.empty] split: prod.splits option.splits)

lemma release_safe:
  assumes "hold_at Map.empty u takeover erased s" "rebuilt \<and> takeover \<longrightarrow> erased"
  shows "safe Map.empty (release_hold u rebuilt s)"
  using assms by (auto simp: hold_at_def release_hold_def safe_def)

lemma clean_safe: "hold_at H u takeover True s \<Longrightarrow> hold_at H u takeover True (notifyClean u s)"
  by (auto simp: hold_at_def notifyClean_def safe_def)

lemma Add_safe:
  assumes env: "sound_env E" and s: "safe Map.empty s"
  shows "succeeds (Add cf E u s) (\<lambda>(r, s'). safe Map.empty s')"
proof -
  obtain r1 s1 where r: "reserveTarget E u s = (r1, s1)" by fastforce
  note s1 = reserve_safe [OF r s]
  show ?thesis
  proof (cases r1)
    case (Some takeover)
    have "safe [u \<mapsto> (takeover, False)] (BeginTransition u s1)" using s1 Some by (simp add: bookkeeping)
    from add_held_held [OF env this, of cf] obtain q s2
      where "add_held cf E takeover u (BeginTransition u s1) = Some (q, s2)"
        and "hold_at Map.empty u takeover (takeover \<and> q = None) s2" by (auto simp: succeeds_iff)
    then show ?thesis using r Some
      by (auto simp: Add_def EndTransition_def intro!: release_safe [where takeover = takeover and erased = "takeover \<and> q = None"])
  qed (use r s1 in \<open>simp add: Add_def\<close>)
qed


text \<open>Destructive rebuilds release as rebuilt exactly when they succeeded, and mark clean first.\<close>

lemma rebuilt_safe:
  assumes "hold_at Map.empty u takeover (r = None) s"
  shows "safe Map.empty (release_hold u (r = None) (if r = None then notifyClean u s else s))"
  using assms clean_safe [of Map.empty u takeover s] by (auto intro: release_safe)

lemma rePark_held:
  assumes "sound_env E" "safe (H(u \<mapsto> (takeover, e))) s"
  shows "succeeds (rePark cf E u s) (\<lambda>(r, s'). hold_at H u takeover e s')"
  using rePark_safe [OF assms, of cf u] by (fastforce simp: succeeds_iff hold_at_def)

lemma erase_rePark_held:
  assumes env: "sound_env E" and s: "safe (H(u \<mapsto> (takeover, e))) s" and d: "do_Erase E u s = (None, s')"
  shows "succeeds (rePark cf E u s') (\<lambda>(r, s''). hold_at H u takeover (r = None) s'')"
proof -
  have "safe (H(u \<mapsto> (takeover, True))) s'" using do_Erase_safe [OF d s, of takeover e] by simp
  then show ?thesis using rePark_held [OF env, of H u takeover True s' cf] by (auto simp: succeeds_iff dest: held_weaken)
qed

lemma recycle_held_held:
  assumes env: "sound_env E" and s: "safe (H(u \<mapsto> (takeover, e))) s"
  shows "succeeds (recycle_held cf E u s) (\<lambda>(r, s'). hold_at H u takeover (r = None) s')"
proof -
  obtain r1 s1 where t: "prk_Thaw E u s = (r1, s1)" by fastforce
  note s1 = prk_Thaw_safe [OF t s]
  obtain r2 s2 where d: "reg_Shutdown E u s1 = (r2, s2)" by fastforce
  obtain r3 s3 where o: "ReapOrphans E u (reportShutdown u ''watchdog'' ''footprint recycle (erase + rebuild)'' (notifyShutdown u s2)) = (r3, s3)"
    by fastforce
  obtain r4 s4 where er: "do_Erase E u s3 = (r4, s4)" by fastforce
  show ?thesis
  proof (cases "r1 = None \<and> r2 = None")
    case True
    have "safe (H(u \<mapsto> (takeover, e))) s2" using reg_Shutdown_safe [OF d s1(1) s1(2)] True by simp
    then have s3: "safe (H(u \<mapsto> (takeover, e))) s3"
      using ReapOrphans_safe [OF o] by (simp add: reportShutdown_def notifyShutdown_def)
    show ?thesis
      using True t d o er held_erased [OF s3 er] erase_rePark_held [OF env s3, of s4 cf]
      by (cases r4) (auto simp: recycle_held_def Let_def)
  next
    case False
    have "hold_at H u takeover False s2" if "r1 = None"
      using held_here [OF reg_Shutdown_safe [OF d s1(1) s1(2) [OF that]]] .
    then show ?thesis using False t d held_here [OF s1(1)]
      by (auto simp: recycle_held_def split: option.splits)
  qed
qed

lemma Recycle_safe:
  assumes env: "sound_env E" and s: "safe Map.empty s"
  shows "succeeds (Recycle cf E u s) (\<lambda>(r, s'). safe Map.empty s')"
proof -
  obtain r1 s1 where r: "reserveTarget E u s = (r1, s1)" by fastforce
  note s1 = reserve_safe [OF r s]
  show ?thesis
  proof (cases r1)
    case (Some takeover)
    obtain rec s2 where q: "isRecording E u s1 = (rec, s2)" by fastforce
    have s2: "safe [u \<mapsto> (takeover, False)] s2" using isRecording_safe [OF q] s1 Some by simp
    show ?thesis
    proof (cases rec)
      case True
      then show ?thesis using r q Some release_safe [OF held_here [OF s2], of "\<not> takeover"] by (simp add: Recycle_def)
    next
      case False
      have "safe [u \<mapsto> (takeover, False)] (BeginTransition u s2)" using s2 by (simp add: bookkeeping)
      from recycle_held_held [OF env this, of cf] obtain z s3
        where "recycle_held cf E u (BeginTransition u s2) = Some (z, s3)" "hold_at Map.empty u takeover (z = None) s3"
        by (auto simp: succeeds_iff)
      then show ?thesis using r q Some False rebuilt_safe [of u takeover z "EndTransition u s3"]
        by (simp add: Recycle_def Let_def split: if_splits)
    qed
  qed (use r s1 in \<open>simp add: Recycle_def\<close>)
qed

lemma deferRebuild_held: "hold_at H u t e s \<Longrightarrow> hold_at H u t e (snd (deferRebuild v s))"
  by (simp add: deferRebuild_def Let_def)

lemma rebuild_held_held:
  assumes env: "sound_env E" and s: "safe (H(u \<mapsto> (takeover, e))) s"
  shows "succeeds (rebuild_held cf E u s) (\<lambda>(r, s'). hold_at H u takeover (r = None) s')"
proof -
  obtain r1 s1 where er: "do_Erase E u s = (r1, s1)" by fastforce
  show ?thesis
  proof (cases r1)
    case None
    obtain r2 s2 where "rePark cf E u s1 = Some (r2, s2)" "hold_at H u takeover (r2 = None) s2"
      using erase_rePark_held [OF env s, of s1 cf] er None by (auto simp: succeeds_iff)
    then show ?thesis using er None
      by (auto simp: rebuild_held_def deferRebuild_held clearRebuildBackoff_def split: option.splits)
  qed (use er held_erased [OF s er] in \<open>simp add: rebuild_held_def deferRebuild_held\<close>)
qed

lemma rebuild_member_safe:
  assumes env: "sound_env E" and s: "safe Map.empty s"
  shows "succeeds (rebuild_member cf E u s) (safe Map.empty)"
proof -
  obtain r1 s1 where r: "reserveTarget E u s = (r1, s1)" by fastforce
  note s1 = reserve_safe [OF r s]
  show ?thesis
  proof (cases r1)
    case (Some takeover)
    have "safe [u \<mapsto> (takeover, False)] (BeginTransition u s1)" using s1 Some by (simp add: bookkeeping)
    from rebuild_held_held [OF env this, of cf] obtain z s2
      where "rebuild_held cf E u (BeginTransition u s1) = Some (z, s2)" "hold_at Map.empty u takeover (z = None) s2"
      by (auto simp: succeeds_iff)
    then show ?thesis using r Some rebuilt_safe [of u takeover z "EndTransition u s2"]
      by (simp add: rebuild_member_def Let_def split: if_splits)
  qed (use r s1 in \<open>simp add: rebuild_member_def\<close>)
qed


lemma SafeShutdown_safe:
  assumes d: "SafeShutdown E u s = (r, s')" and s: "safe H s"
  shows "safe H s'"
proof -
  let ?s = "BeginTransition u s"
  have b: "safe H ?s" using s by (simp add: bookkeeping)
  obtain r1 s1 where t: "prk_Thaw E u ?s = (r1, s1)" by fastforce
  note s1 = prk_Thaw_safe [OF t b]
  obtain r2 s2 where d2: "reg_Shutdown E u s1 = (r2, s2)" by fastforce
  have s2: "safe H s2" if "r1 = None" using reg_Shutdown_safe [OF d2 s1(1) s1(2) [OF that]] .
  obtain r3 s3 where o: "ReapOrphans E u (notifyShutdown u s2) = (r3, s3)" by fastforce
  have s3: "safe H s3" if "r1 = None" using ReapOrphans_safe [OF o] s2 [OF that] by (simp add: notifyShutdown_def)
  show ?thesis using d t d2 o s1(1) s2 s3
    by (auto simp: SafeShutdown_def shutdown_body_def EndTransition_def Let_def split: prod.splits option.splits)
qed

lemma in_use_safe: "in_use E u s = (b, s') \<Longrightarrow> safe H s \<Longrightarrow> safe H s'"
  unfolding in_use_def by (auto elim!: or_else_safe intro: flag_safe)

lemma in_use_held_safe: "in_use_held E u s = (b, s') \<Longrightarrow> safe H s \<Longrightarrow> safe H s'"
  unfolding in_use_held_def by (auto elim!: or_else_safe intro: flag_safe)

lemma shutdown_held_safe:
  assumes d: "shutdown_held E u reason after s = (r, s')" and s: "safe Map.empty s"
    and after: "\<And>H s. safe H s \<Longrightarrow> safe H (after s)"
  shows "safe Map.empty s'"
proof -
  obtain r1 s1 where r: "reserveTarget E u s = (r1, s1)" by fastforce
  note s1 = reserve_safe [OF r s]
  show ?thesis
  proof (cases r1)
    case (Some takeover)
    let ?H = "[u \<mapsto> (takeover, False)]"
    obtain b s2 where i: "in_use_held E u s1 = (b, s2)" by fastforce
    obtain q s3 where d3: "SafeShutdown E u s2 = (q, s3)" by fastforce
    have s2: "safe ?H s2" using in_use_held_safe [OF i] s1 Some by simp
    have s3: "safe ?H s3" using SafeShutdown_safe [OF d3 s2] .
    have rel: "safe Map.empty (release_hold u (\<not> takeover) v)" if "safe ?H v" for v
      using release_safe [OF held_here [OF that]] by simp
    show ?thesis using d r Some i d3 rel [OF s2] rel [OF s3] rel [OF after [of ?H "reportShutdown u ''janitor'' reason s3"]] s3
      by (auto simp: shutdown_held_def reportShutdown_def split: bool.splits option.splits)
  qed (use d r s1 in \<open>simp add: shutdown_held_def\<close>)
qed

lemma reclaimIdle_safe: "reclaimIdle E u s = (b, s') \<Longrightarrow> safe Map.empty s \<Longrightarrow> safe Map.empty s'"
  unfolding reclaimIdle_def
  by (auto split: prod.splits bool.splits if_splits elim!: shutdown_held_safe
      dest!: reg_Health_safe [where H = Map.empty] simp: forgetDaemonBooted_def
      dest: or_else_safe [where H = Map.empty] intro: in_use_safe)


lemma OnLeaseEnd_safe: "safe Map.empty s \<Longrightarrow> safe Map.empty (OnLeaseEnd E u s)"
  using reclaimIdle_safe [of E u "clearAwake u s"]
  by (cases "reclaimIdle E u (clearAwake u s)") (auto simp: OnLeaseEnd_def clearAwake_def Let_def)

lemma sweep_idle_safe: "safe Map.empty s \<Longrightarrow> safe Map.empty (sweep_idle E now u s)"
  unfolding sweep_idle_def
  by (auto split: prod.splits bool.splits option.splits simp: clearIdleSince_def idleSinceOrMark_def
      dest!: in_use_safe [where H = Map.empty] reclaimIdle_safe)

lemma lockDirUsable_safe: "lockDirUsable E s = (b, s') \<Longrightarrow> safe H s \<Longrightarrow> safe H s'"
  by (auto simp: lockDirUsable_def dest: ask_safe split: prod.splits)

lemma reapUnmanaged_safe: "reapUnmanaged p E u s = (b, s') \<Longrightarrow> safe Map.empty s \<Longrightarrow> safe Map.empty s'"
  unfolding reapUnmanaged_def Let_def
  by (auto split: prod.splits bool.splits if_splits elim!: shutdown_held_safe
      dest!: reg_Health_safe [where H = Map.empty] ask_safe [where H = Map.empty] lockDirUsable_safe [where H = Map.empty]
      dest: or_else_safe [where H = Map.empty] intro: in_use_safe)

lemma reap_locked_safe: "safe Map.empty s \<Longrightarrow> safe Map.empty (reap_locked p E now u st s)"
  unfolding reap_locked_def
  by (auto split: prod.splits bool.splits option.splits simp: logLockDecision_def clearStaleSince_def staleSinceOrMark_def
      dest!: in_use_safe [where H = Map.empty] reapUnmanaged_safe)

lemma reap_one_safe: "safe Map.empty s \<Longrightarrow> safe Map.empty (reap_one p E now u s)"
  unfolding reap_one_def
  by (auto split: prod.splits lockState.splits simp: logLockDecision_def clearStaleSince_def
      dest!: ask_safe [where H = Map.empty] intro: reap_locked_safe)

lemma fold_safe: "(\<And>x s. safe H s \<Longrightarrow> safe H (f x s)) \<Longrightarrow> safe H s \<Longrightarrow> safe H (fold f xs s)"
  by (induction xs arbitrary: s) auto

lemma reapStaleLocked_safe: "safe Map.empty s \<Longrightarrow> safe Map.empty (reapStaleLocked p E us now s)"
  unfolding reapStaleLocked_def Let_def
  by (auto split: prod.splits bool.splits simp: resetReapMarks_def fold_safe reap_one_safe
      dest!: lockDirUsable_safe [where H = Map.empty])

lemma sweepJanitor_safe:
  assumes "safe Map.empty s"
  shows "safe Map.empty (sweepJanitor p cf E s)"
proof -
  obtain us s1 where d: "daemonBootedList E s = (us, s1)" by fastforce
  have s1: "safe Map.empty s1" using d assms by (auto simp: daemonBootedList_def dest: ask_safe split: prod.splits)
  have s2: "safe Map.empty (fold (sweep_idle E (wp_now s)) us s1)" using s1 by (auto intro: fold_safe sweep_idle_safe)
  show ?thesis using d s2
    by (auto simp: sweepJanitor_def Let_def unmanagedBooted_def resetReapMarks_def logUnmanaged_def reapStaleLocked_safe
        dest!: ask_safe [where H = Map.empty] split: prod.splits sum.splits)
qed

lemma watchdog_free_safe: "watchdog_free E u s = (b, s') \<Longrightarrow> safe H s \<Longrightarrow> safe H s'"
  by (auto simp: watchdog_free_def dest: ask_safe split: prod.splits)

lemma deferRebuild_safe [simp]: "safe H (snd (deferRebuild u s)) = safe H s"
  by (simp add: deferRebuild_def Let_def)

abbreviation sweep_ok :: "(bool \<times> pool) option \<Rightarrow> bool" where
  "sweep_ok x \<equiv> succeeds x (\<lambda>(b, s). safe Map.empty s)"

lemma sweep_gone_safe:
  assumes env: "sound_env E" and s: "safe Map.empty s"
  shows "sweep_ok (sweep_gone cf E u s)"
proof -
  obtain free s1 where n: "watchdog_free E u s = (free, s1)" by fastforce
  have s1: "safe Map.empty s1" using watchdog_free_safe [OF n s] .
  obtain r s2 where g: "GateBoot cf E u s1 = (r, s2)" by fastforce
  have s2: "safe Map.empty s2" using GateBoot_safe [OF g s1] by blast
  obtain s3 where "rebuild_member cf E u s2 = Some s3" "safe Map.empty s3"
    using rebuild_member_safe [OF env s2, of cf u] by (auto simp: succeeds_iff)
  then show ?thesis using n s1 g s2 by (auto simp: sweep_gone_def split: option.splits)
qed

lemma sweep_within_safe:
  assumes env: "sound_env E" and s: "safe Map.empty s"
  shows "sweep_ok (sweep_within E parked u s)"
proof -
  obtain free s1 where n: "watchdog_free E u s = (free, s1)" by fastforce
  have s1: "safe Map.empty s1" using watchdog_free_safe [OF n s] .
  obtain st err s2 where h: "reg_Health E u s1 = ((st, err), s2)" by (metis prod.exhaust)
  have s2: "safe Map.empty s2" using reg_Health_safe [OF h s1] by blast
  obtain r s3 where "parkIdle E u s2 = Some (r, s3)" "safe Map.empty s3"
    using parkIdle_safe [OF env s2, of u] by (auto simp: succeeds_iff)
  then show ?thesis using n s s1 h s2 by (auto simp: sweep_within_def split: option.splits)
qed

lemma sweep_over_safe:
  assumes env: "sound_env E" and s: "safe Map.empty s"
  shows "sweep_ok (sweep_over cf E u s)"
proof -
  obtain free s1 where n: "watchdog_free E u s = (free, s1)" by fastforce
  have s1: "safe Map.empty s1" using watchdog_free_safe [OF n s] .
  obtain r s2 where "Recycle cf E u s1 = Some (r, s2)" "safe Map.empty s2"
    using Recycle_safe [OF env s1, of cf u] by (auto simp: succeeds_iff)
  then show ?thesis using n s1 by (auto simp: sweep_over_def split: bool.splits)
qed

lemma sweep_tree_safe:
  assumes env: "sound_env E" and s: "safe Map.empty s"
  shows "sweep_ok (sweep_tree cf E capKB parked tree u s)"
proof -
  obtain fp s1 where f: "ask E (\<lambda>t. e_footprint E t tree) s = (fp, s1)" by fastforce
  have s1: "safe Map.empty s1" using ask_safe [OF f s] by blast
  show ?thesis using f s s1 sweep_gone_safe [OF env s] sweep_within_safe [OF env s1] sweep_over_safe [OF env s1]
    by (auto simp: sweep_tree_def Let_def)
qed

lemma parked_tree_checked_safe:
  assumes "parked_tree_checked E procs u s = (r, s')" "safe H s" "sound_env E" "sound_table age procs"
  shows "safe H s'" "r = Some (procs', tree) \<Longrightarrow> \<exists>age. sound_table age procs'"
proof -
  obtain ps s1 where a: "ask E (e_procs E) s = (ps, s1)" by fastforce
  have sound: "\<exists>age. sound_table age l" if "ps = Inr l" for l using assms(3) a that by (auto simp: sound_env_def ask_def)
  note s1 = ask_safe [OF a assms(2)]
  then have "safe H (noted (Thawed u) (s1\<lparr>wp_parker := ForgetParked u (wp_parker s1)\<rparr>))"
    by (auto simp: safe_def ForgetParked_def noted_def)
  then show "safe H s'" "r = Some (procs', tree) \<Longrightarrow> \<exists>age. sound_table age procs'"
    using assms a s1 sound by (auto simp: parked_tree_checked_def Let_def split: if_splits sum.splits)
qed

lemma sweep_members_safe:
  assumes env: "sound_env E"
  shows "safe Map.empty s \<Longrightarrow> \<exists>age. sound_table age procs \<Longrightarrow> succeeds (sweep_members cf E capKB stale procs us s) (safe Map.empty)"
proof (induction us arbitrary: stale procs s)
  case (Cons u us)
  obtain l s1 where l: "(if stale then ask E (e_procs E) s else (Inr procs, s)) = (l, s1)" by fastforce
  have s1: "safe Map.empty s1" using l Cons.prems(1) by (auto dest: ask_safe split: if_splits)
  have sound: "\<exists>age. sound_table age ps" if "l = Inr ps" for ps
    using l Cons.prems(2) env that by (auto simp: sound_env_def ask_def split: if_splits)
  show ?case
  proof (cases l)
    case (Inr ps)
    obtain age where age: "sound_table age ps" using sound Inr by blast
    obtain r s2 where c: "parked_tree_checked E ps u s1 = (r, s2)" by fastforce
    note s2 = parked_tree_checked_safe [OF c s1 env age]
    show ?thesis
    proof (cases "isBusy E s1 u \<or> r = None")
      case True
      then show ?thesis using l Inr c s1 s2(1) Cons.IH [OF s1, of ps False] age by auto
    next
      case False
      then obtain ps' tree where r: "r = Some (ps', tree)" by auto
      obtain age' where age': "sound_table age' ps'" using s2(2) r by blast
      obtain tree' where t: "(if tree = [] then simTree ps' u else Some tree) = Some tree'"
        using simTree_total [OF age', of u] by (cases "tree = []") auto
      obtain b s3 where w: "sweep_tree cf E capKB (tree \<noteq> []) tree' u s2 = Some (b, s3)" "safe Map.empty s3"
        using sweep_tree_safe [OF env s2(1), of cf capKB "tree \<noteq> []" tree' u] by (auto simp: succeeds_iff)
      show ?thesis using l Inr False c r t w Cons.IH [OF w(2), of ps' b] age' by auto
    qed
  qed (use l s1 in simp)
qed simp

lemma sweepFootprints_safe:
  assumes env: "sound_env E" and s: "safe Map.empty s"
  shows "succeeds (sweepFootprints cf E capKB s) (safe Map.empty)"
proof -
  obtain ks s1 where k: "ask E (e_order E) s = (ks, s1)" by fastforce
  have s1: "safe Map.empty s1" using ask_safe [OF k s] by blast
  obtain l s2 where l: "ask E (e_procs E) s1 = (l, s2)" by fastforce
  have s2: "safe Map.empty s2" using ask_safe [OF l s1] by blast
  have "\<exists>age. sound_table age ps" if "l = Inr ps" for ps using l env that by (auto simp: sound_env_def ask_def)
  then show ?thesis using k s1 l s2 sweep_members_safe [OF env s2]
    by (auto simp: sweepFootprints_def Let_def split: sum.splits)
qed


lemma OnGrant_safe: "safe H s \<Longrightarrow> safe H (OnGrant E u s)"
  by (auto simp: OnGrant_def Let_def prod_eq_iff intro: prk_Thaw_safe(1) [OF surjective_pairing])

lemma EnsureThawed_safe: "safe H s \<Longrightarrow> safe H (snd (EnsureThawed E u s))"
  by (auto simp: EnsureThawed_def intro: prk_Thaw_safe(1) [OF surjective_pairing])

lemma OnReleased_safe:
  assumes env: "sound_env E" and s: "safe H s"
  shows "succeeds (OnReleased cf E u s) (\<lambda>(r, s'). safe H s')"
proof -
  have "safe H (BeginTransition u s)" using s by (simp add: bookkeeping)
  from rePark_safe [OF env this, of cf u] show ?thesis using s
    by (auto simp: OnReleased_def succeeds_iff EndTransition_def)
qed

lemma Guard_Boot_safe: "Guard_Boot cf E u s = (r, s') \<Longrightarrow> safe H s \<Longrightarrow> safe H s'"
  by (auto simp: Guard_Boot_def bookkeeping split: prod.splits option.splits if_splits
      dest!: prk_Thaw_safe(1) [where H = H] BootAsync_safe [where H = H])

lemma recover_each_safe:
  assumes "\<exists>age. sound_table age procs"
  shows "safe H s \<Longrightarrow> succeeds (recover_each E procs us s) (safe H)"
proof (induction us arbitrary: s)
  case (Cons u us)
  obtain tree where t: "simTree procs (TrimSpace u) = Some tree" using assms simTree_total by blast
  obtain allowed s1 where a: "ask E (e_allowed E) s = (allowed, s1)" by fastforce
  have "safe H s1" using ask_safe [OF a Cons.prems] by blast
  then show ?case using Cons t a by (auto simp: Let_def)
qed simp

lemma RecoverFrozenParks_safe:
  assumes "sound_env E" "safe H s"
  shows "succeeds (RecoverFrozenParks E us s) (safe H)"
proof -
  obtain l s1 where l: "ask E (e_procs E) s = (l, s1)" by fastforce
  have s1: "safe H s1" using ask_safe [OF l assms(2)] by blast
  have "\<exists>age. sound_table age ps" if "l = Inr ps" for ps using l assms(1) that by (auto simp: sound_env_def ask_def)
  then show ?thesis using l s1 recover_each_safe [OF _ s1] by (auto simp: RecoverFrozenParks_def split: sum.splits)
qed

lemma thaw_each_safe: "safe H s \<Longrightarrow> safe H (thaw_each E us s)"
  by (induction us arbitrary: s) (auto intro: prk_Thaw_safe(1) [OF surjective_pairing])

lemma Close_finish_safe: "Close_finish E s = Some s' \<Longrightarrow> safe H s \<Longrightarrow> safe H s'"
  by (auto simp: Close_finish_def thaw_each_safe dest!: ask_safe [where H = H] split: prod.splits if_splits)

lemma Status_safe: "safe H s \<Longrightarrow> safe H (snd (Status cf E s))"
proof -
  assume s: "safe H s"
  obtain n s1 where n: "Running E s = (n, s1)" by fastforce
  have "safe H s1" using n s by (auto simp: Running_def dest: runningCount_safe split: option.splits if_splits)
  then show ?thesis using n by (auto simp: Status_def Let_def dest!: ask_safe [where H = H] split: prod.splits)
qed

section \<open>The pool over time\<close>

datatype pool_call =
    CAdd string | CBoot string | CShutdown string | CHealth string | CGrant string | CEnsureThawed string
  | CReleased string | CRecycle string | CLeaseEnd string | CJanitor | CWatchdog int | CBootJob string
  | CGateCheap | CRecover "string list" | CConfigure "string list" | CStatus | CClose | CCloseEnd

text \<open>A background boot runs only if it was accepted, and \<^verbatim>\<open>Close\<close> ends only with no park in flight.\<close>

fun enabled :: "pool_call \<Rightarrow> pool \<Rightarrow> bool" where
  "enabled (CBootJob u) s = (u \<in> set (wp_jobs s))"
| "enabled CCloseEnd s = (wp_parking s = 0)"
| "enabled _ s = True"

fun pool_run :: "(string \<Rightarrow> instant option) \<Rightarrow> pool_config \<Rightarrow> host_env \<Rightarrow> pool_call \<Rightarrow> pool \<Rightarrow> pool option" where
  "pool_run p cf E (CAdd u) s = map_option snd (Add cf E u s)"
| "pool_run p cf E (CBoot u) s = Some (snd (Guard_Boot cf E u s))"
| "pool_run p cf E (CShutdown u) s = Some (snd (Guard_Shutdown E u s))"
| "pool_run p cf E (CHealth u) s = Some (snd (Guard_Health E u s))"
| "pool_run p cf E (CGrant u) s = Some (OnGrant E u s)"
| "pool_run p cf E (CEnsureThawed u) s = Some (snd (EnsureThawed E u s))"
| "pool_run p cf E (CReleased u) s = map_option snd (OnReleased cf E u s)"
| "pool_run p cf E (CRecycle u) s = map_option snd (Recycle cf E u s)"
| "pool_run p cf E (CLeaseEnd u) s = Some (OnLeaseEnd E u s)"
| "pool_run p cf E CJanitor s = Some (sweepJanitor p cf E s)"
| "pool_run p cf E (CWatchdog capKB) s = sweepFootprints cf E capKB s"
| "pool_run p cf E (CBootJob u) s =
     (if u \<in> set (wp_jobs s) then Some (boot_job cf E u (s\<lparr>wp_jobs := remove1 u (wp_jobs s)\<rparr>)) else None)"
| "pool_run p cf E CGateCheap s = Some (snd (GateBootCheap cf E s))"
| "pool_run p cf E (CRecover us) s = RecoverFrozenParks E us s"
| "pool_run p cf E (CConfigure us) s = Some (SetConfiguredPool us s)"
| "pool_run p cf E CStatus s = Some (snd (Status cf E s))"
| "pool_run p cf E CClose s = Some (Close_begin s)"
| "pool_run p cf E CCloseEnd s = Close_finish E s"

lemma GateBootCheap_safe: "safe H s \<Longrightarrow> safe H (snd (GateBootCheap cf E s))"
  by (auto simp: GateBootCheap_def Let_def split: prod.splits option.splits
      dest!: disk_gate_safe [where H = H] load_gate_safe [where H = H])

text \<open>Every call of an enabled operation returns, and keeps the promises.\<close>

lemma pool_run_safe:
  assumes env: "sound_env E" and s: "safe Map.empty s" and en: "enabled call s"
  shows "succeeds (pool_run p cf E call s) (safe Map.empty)"
proof (cases call)
  case (CAdd u)
  then show ?thesis using Add_safe [OF env s, of cf u] by (auto simp: succeeds_iff)
next
  case (CBoot u)
  then show ?thesis using Guard_Boot_safe [OF surjective_pairing s] by simp
next
  case (CShutdown u)
  then show ?thesis using SafeShutdown_safe [OF surjective_pairing s] by (simp add: Guard_Shutdown_def)
next
  case (CHealth u)
  then show ?thesis using reg_Health_safe [OF surjective_pairing s] s by (simp add: Guard_Health_def)
next
  case (CReleased u)
  then show ?thesis using OnReleased_safe [OF env s, of cf u] by (auto simp: succeeds_iff)
next
  case (CRecycle u)
  then show ?thesis using Recycle_safe [OF env s, of cf u] by (auto simp: succeeds_iff)
next
  case CCloseEnd
  then show ?thesis using en s
    by (auto simp: Close_finish_def thaw_each_safe dest!: ask_safe [where H = Map.empty] split: prod.splits)
qed (use en s env in \<open>auto simp: OnGrant_safe EnsureThawed_safe OnLeaseEnd_safe sweepJanitor_safe sweepFootprints_safe
  boot_job_safe GateBootCheap_safe RecoverFrozenParks_safe SetConfiguredPool_def Status_safe Close_begin_def\<close>)

inductive pool_step :: "(string \<Rightarrow> instant option) \<Rightarrow> pool_config \<Rightarrow> pool \<Rightarrow> pool \<Rightarrow> bool" for p cf where
  "sound_env E \<Longrightarrow> pool_run p cf E call s = Some s' \<Longrightarrow> pool_step p cf s s'"

lemma run_enabled: "pool_run p cf E call s = Some s' \<Longrightarrow> enabled call s"
  by (cases call) (auto simp: Close_finish_def split: if_splits)

lemma reachable_safe: "(pool_step p cf)\<^sup>*\<^sup>* (NewPool now) s \<Longrightarrow> safe Map.empty s"
proof (induction rule: rtranclp_induct)
  case base
  then show ?case by (simp add: safe_def NewPool_def NewParker_def)
next
  case (step s s')
  from step.hyps(2) obtain E call where "sound_env E" "pool_run p cf E call s = Some s'" by (auto elim: pool_step.cases)
  then show ?case using pool_run_safe [of E s call p cf] step.IH run_enabled by (fastforce simp: succeeds_iff)
qed


text \<open>What the monitors say of a trace.\<close>

definition no_hold_event :: "string \<Rightarrow> effect list \<Rightarrow> bool" where
  "no_hold_event u es \<longleftrightarrow> (\<forall>b. Reserved u b \<notin> set es \<and> Released u b \<notin> set es)"

lemma hold_mon_suffix: "hold_mon (a @ b) = Some H \<Longrightarrow> \<exists>H'. hold_mon b = Some H'"
  by (induction a arbitrary: H) (auto simp: bind_eq_Some_conv)

lemma hold_watch_keeps:
  assumes "hold_watch x H = Some H'" "H u = Some (takeover, e)" "\<forall>r. x \<noteq> Reserved u r \<and> x \<noteq> Released u r"
  shows "H' u = Some (takeover, e) \<or> (\<exists>ok. x = ErasedCall u ok \<and> H' u = Some (takeover, ok))"
  using assms by (cases x) (auto split: if_splits option.splits bool.splits)

lemma hold_mon_since:
  assumes "hold_mon (b @ Reserved u takeover # c) = Some H" "no_hold_event u b"
  shows "\<exists>e. H u = Some (takeover, e) \<and> (e \<longrightarrow> ErasedCall u True \<in> set b)"
  using assms
proof (induction b arbitrary: H)
  case Nil
  then show ?case by (auto simp: bind_eq_Some_conv split: if_splits)
next
  case (Cons x b)
  have nh: "no_hold_event u b" using Cons.prems(2) by (auto simp: no_hold_event_def)
  obtain H1 where h: "hold_mon (b @ Reserved u takeover # c) = Some H1" "hold_watch x H1 = Some H"
    using Cons.prems(1) by (auto simp: bind_eq_Some_conv)
  have nx: "\<forall>r. x \<noteq> Reserved u r \<and> x \<noteq> Released u r" using Cons.prems(2) by (auto simp: no_hold_event_def)
  obtain e where "H1 u = Some (takeover, e)" "e \<longrightarrow> ErasedCall u True \<in> set b" using Cons.IH [OF h(1) nh] by blast
  then show ?case using hold_watch_keeps [OF h(2) _ nx] by fastforce
qed

lemma takeover_erased:
  assumes "hold_mon (a @ Released u True # b @ Reserved u True # c) = Some H" "no_hold_event u b"
  shows "ErasedCall u True \<in> set b"
proof -
  obtain H1 where "hold_mon (Released u True # b @ Reserved u True # c) = Some H1" using hold_mon_suffix [OF assms(1)] by blast
  then obtain H2 where h: "hold_mon (b @ Reserved u True # c) = Some H2" "hold_watch (Released u True) H2 = Some H1"
    by (auto simp: bind_eq_Some_conv)
  then show ?thesis using hold_mon_since [OF h(1) assms(2)] by (auto split: if_splits)
qed

lemma park_mon_suffix: "park_mon (a @ b) = Some F \<Longrightarrow> \<exists>F'. park_mon b = Some F'"
  by (induction a arbitrary: F) (auto simp: bind_eq_Some_conv)

lemma park_mon_since:
  "park_mon (b @ Parked u # c) = Some F \<Longrightarrow> Thawed u \<notin> set b \<Longrightarrow> u \<in> F"
proof (induction b arbitrary: F)
  case (Cons x b)
  then obtain F1 where "park_mon (b @ Parked u # c) = Some F1" "park_watch x F1 = Some F" by (auto simp: bind_eq_Some_conv)
  then show ?case using Cons.IH [of F1] Cons.prems(2) by (cases x) (auto split: if_splits)
qed (auto simp: bind_eq_Some_conv)

lemma shutdown_thawed:
  assumes "park_mon (a @ ShutdownCall u # b @ Parked u # c) = Some F"
  shows "Thawed u \<in> set b"
proof (rule ccontr)
  assume no: "Thawed u \<notin> set b"
  obtain F1 where "park_mon (ShutdownCall u # b @ Parked u # c) = Some F1" using park_mon_suffix [OF assms] by blast
  then obtain F2 where "park_mon (b @ Parked u # c) = Some F2" "park_watch (ShutdownCall u) F2 = Some F1"
    by (auto simp: bind_eq_Some_conv)
  then show False using park_mon_since [OF _ no] by (auto split: if_splits)
qed

lemma boots_gated_suffix: "boots_gated (a @ b) \<Longrightarrow> boots_gated b"
proof (induction a)
  case (Cons x a)
  then show ?case by (cases x) auto
qed simp

lemma boot_after_gate: "boots_gated (a @ BootCall u # b) \<Longrightarrow> \<exists>c. b = Gated u # c"
  using boots_gated_suffix [of a "BootCall u # b"] by (auto split: list.splits effect.splits)

text \<open>
  C29. The data of one lease holder never reaches the next through the pool. From every state the
  pool can reach, every call of an operation that may run returns, whatever the registry, the tools,
  the kernel and the lease manager answer; afterwards every hold it took is released; and between
  taking a hold that displaced a quarantine and releasing it as rebuilt there is an erase that
  succeeded. (The monitor also rules out an erase without a hold, and marking a target clean without
  a successful erase under the current hold.)
\<close>

theorem hold_discipline:
  assumes "(pool_step p cf)\<^sup>*\<^sup>* (NewPool now) s" "sound_env E" "enabled call s"
  shows "\<exists>s'. pool_run p cf E call s = Some s' \<and> hold_mon (wp_trace s') = Some Map.empty \<and>
    (\<forall>a b c u. wp_trace s' = a @ Released u True # b @ Reserved u True # c \<and> no_hold_event u b \<longrightarrow>
       ErasedCall u True \<in> set b)"
proof -
  obtain s' where s': "pool_run p cf E call s = Some s'" "safe Map.empty s'"
    using pool_run_safe [OF assms(2) reachable_safe [OF assms(1)] assms(3)] by (auto simp: succeeds_iff)
  then have "hold_mon (wp_trace s') = Some Map.empty" by (simp add: safe_def)
  then show ?thesis using s'(1) by (metis takeover_erased)
qed

text \<open>
  The two rules of the guarded registry hold on every path, the pool's own included: a simulator
  that was parked is thawed before it is shut down, and every boot directly follows a pass of the
  safety gates for that target. The ledger of the parker agrees with the trace.
\<close>

theorem thaw_first_boots_gated:
  assumes "(pool_step p cf)\<^sup>*\<^sup>* (NewPool now) s"
  shows "(\<forall>a b c u. wp_trace s = a @ ShutdownCall u # b @ Parked u # c \<longrightarrow> Thawed u \<in> set b) \<and>
    (\<forall>a b u. wp_trace s = a @ BootCall u # b \<longrightarrow> (\<exists>c. b = Gated u # c)) \<and>
    park_mon (wp_trace s) = Some {u. IsParked (wp_parker s) u}"
proof -
  have s: "safe Map.empty s" using reachable_safe [OF assms] .
  then have "park_mon (wp_trace s) = Some {u. IsParked (wp_parker s) u}" by (simp add: safe_def IsParked_def dom_def)
  moreover have "boots_gated (wp_trace s)" using s by (simp add: safe_def)
  ultimately show ?thesis by (metis shutdown_thawed boot_after_gate)
qed

lemma running_sim_ask [simp]: "running_sim (s\<lparr>wp_tick := a\<rparr>) = running_sim s" "running_sim (s\<lparr>wp_now := b\<rparr>) = running_sim s"
  by (simp_all add: running_sim_def fun_eq_iff pool_IsParked_def)

lemma all_but_one:
  "distinct (map f xs) \<Longrightarrow> length (filter P xs) \<le> length (filter (\<lambda>x. P x \<and> f x \<noteq> u) xs) + 1"
proof (induction xs)
  case (Cons x xs)
  show ?case
  proof (cases "f x = u")
    case True
    then have "filter (\<lambda>y. P y \<and> f y \<noteq> u) xs = filter P xs" using Cons.prems by (intro filter_cong) (auto simp: image_iff)
    then show ?thesis using True by simp
  qed (use Cons in auto)
qed simp

lemmas gate_defs = GateBoot_def disk_gate_def load_gate_def running_gate_def runningCount_def checkDisk_def checkLoad_def
  refusal_def ask_def

text \<open>
  What \<^verbatim>\<open>GateBoot\<close> decides with all three gates on: it refuses exactly when the measured free
  space is below the minimum, the measured load is above the factor times the cores, the targets
  cannot be listed, or as many simulators other than the target run un-parked as the class allows.
  A disk or load gauge that cannot be read lets the boot pass. The count it caches for the cheap check
  is at most one above the count it decides by, when the listing names the target once.
\<close>

theorem gate_boot_exact:
  assumes "cf_MinFreeDisk cf > 0" "cf_LoadFactor cf > 0" "MaxBootedRunning (cf_Class cf) > 0"
    and "GateBoot cf E u s = (r, s')"
  defines "t \<equiv> wp_tick s"
  shows "(r = None \<longleftrightarrow>
      (case e_disk E t of Inl _ \<Rightarrow> True | Inr free \<Rightarrow> free \<ge> cf_MinFreeDisk cf) \<and>
      (case e_load E (t + 1) of Inl _ \<Rightarrow> True | Inr load \<Rightarrow> load \<le> cf_LoadFactor cf * of_nat (e_cpus E)) \<and>
      (case e_list E (t + 2) of
         Inl _ \<Rightarrow> False
       | Inr ts \<Rightarrow> int (length (filter (\<lambda>x. running_sim s x \<and> t_UDID x \<noteq> u) ts)) < MaxBootedRunning (cf_Class cf))) \<and>
    (\<forall>ts. r = None \<longrightarrow> e_list E (t + 2) = Inr ts \<longrightarrow> distinct (map t_UDID ts) \<longrightarrow>
       wp_running s' \<le> length (filter (\<lambda>x. running_sim s x \<and> t_UDID x \<noteq> u) ts) + 1)"
proof -
  have count: "length (filter P ts) \<le> Suc (length (filter (\<lambda>x. P x \<and> t_UDID x \<noteq> u) ts))"
    if "distinct (map t_UDID ts)" for P and ts :: "target list" using all_but_one [OF that, of P u] by simp
  show ?thesis
    using assms(1-4) count
    by (auto simp: gate_defs t_def Let_def noted_def not_less not_le split: sum.splits if_splits)
qed


section \<open>Concrete runs\<close>

definition sim_target :: "TargetState \<Rightarrow> target" where
  "sim_target st = plain_target ''ab-1'' TargetSimulator ''iPhone'' ''iOS 17'' ''iPhone 15'' st []"

text \<open>A host on which everything succeeds and every hold displaces a quarantine.\<close>

definition calm_env :: "TargetState \<Rightarrow> host_env" where
  "calm_env st =
     \<lparr>e_list = (\<lambda>_. Inr [sim_target st]), e_get = (\<lambda>_ _. Inr (sim_target st)), e_health = (\<lambda>_ _. (StateBooted, None)),
      e_boot = (\<lambda>_ _. None), e_shutdown = (\<lambda>_ _. None), e_erase = (\<lambda>_ _. None), e_slim = (\<lambda>_ _. None),
      e_procs = (\<lambda>_. Inr host_procs), e_allowed = (\<lambda>_ _ _. True), e_load = (\<lambda>_. Inr 1), e_cpus = 8,
      e_disk = (\<lambda>_. Inr (2 ^ 40)), e_footprint = (\<lambda>_ _. Inr 1), e_reserve = (\<lambda>_ _. Some True),
      e_leased = (\<lambda>_ _. False), e_streaming = (\<lambda>_ _. True), e_recording = (\<lambda>_ _. False), e_slot = (\<lambda>_. True),
      e_expired = (\<lambda>_. False), e_delay = (\<lambda>_. 1), e_order = (\<lambda>_. [''ab-1'']), e_lockdir = (\<lambda>_. True),
      e_lockfile = (\<lambda>_ _. NoLockFile), e_others = (\<lambda>_ _. 0), e_grants = (\<lambda>_ _. 0), e_awake = (\<lambda>_ _. False),
      e_closing = (\<lambda>_. False)\<rparr>"

definition intel_cf :: pool_config where
  "intel_cf = pool_defaults ''amd64''
     \<lparr>cf_Class = \<lparr>MaxBootedRunning = 0, MaxParked = 0, MaxConcurrentBoots = 0\<rparr>,
      cf_LoadFactor = 0, cf_MinFreeDisk = 0, cf_Slim = False, cf_ReapStaleLocks = True\<rparr>"

lemma calm_sound: "sound_env (calm_env st)"
proof -
  have "sound_table nat host_procs" by code_simp
  then show ?thesis by (auto simp: sound_env_def calm_env_def)
qed

lemmas pool_eval = Let_def ask_def noted_def or_else_def reg_Get_def reg_Shutdown_def reg_Boot_def BeginTransition_def
  EndTransition_def clearBootErr_def takeBootErr_def clearDown_def clearAwake_def free_slot_def take_slot_def
  isClosed_def busyLevel_def pool_IsParked_def IsParked_def isLeased_def isStreaming_def isRecording_def
  sim_target_def plain_target_def NewPool_def NewParker_def calm_env_def intel_cf_def pool_defaults_def reportBoot_def

definition recycle_trace :: "effect list" where
  "recycle_trace =
     [Released ''ab-1'' True, MarkedClean ''ab-1'', ReportedBoot ''ab-1'', ErasedCall ''ab-1'' True,
      ReportedShutdown ''ab-1'' ''watchdog'' ''footprint recycle (erase + rebuild)'', NotedShutdown ''ab-1'',
      ShutdownCall ''ab-1'', Thawed ''ab-1'', Reserved ''ab-1'' True]"

lemma recycle_run:
  "map_option (\<lambda>(r, s). wp_trace s) (Recycle intel_cf (calm_env StateBooted) ''ab-1'' (NewPool 0)) = Some recycle_trace"
  by (simp add: pool_eval Recycle_def recycle_held_def rePark_def reserveTarget_def prk_Thaw_def Thaw_def recycle_trace_def
      do_Erase_def ReapOrphans_def OwnedTree_def bootGated_def boot_sync_def do_Slim_def parkIdle_def park_checked_def
      reportShutdown_def notifyShutdown_def notifyClean_def release_hold_def)

theorem hold_discipline_witness:
  "\<exists>s. pool_run (\<lambda>_. None) intel_cf (calm_env StateBooted) (CRecycle ''ab-1'') (NewPool 0) = Some s \<and>
     wp_trace s = recycle_trace \<and> hold_mon recycle_trace = Some Map.empty \<and>
     ErasedCall ''ab-1'' True \<in> set (take 7 (drop 1 recycle_trace))"
proof -
  obtain s where s: "pool_run (\<lambda>_. None) intel_cf (calm_env StateBooted) (CRecycle ''ab-1'') (NewPool 0) = Some s"
      "hold_mon (wp_trace s) = Some Map.empty"
      "\<forall>a b c u. wp_trace s = a @ Released u True # b @ Reserved u True # c \<and> no_hold_event u b \<longrightarrow> ErasedCall u True \<in> set b"
    using hold_discipline [OF rtranclp.rtrancl_refl calm_sound, of "CRecycle ''ab-1''" 0 "\<lambda>_. None" intel_cf StateBooted]
    by auto
  have t: "wp_trace s = recycle_trace" using s(1) recycle_run by auto
  then have "wp_trace s = [] @ Released ''ab-1'' True # take 7 (drop 1 recycle_trace) @ Reserved ''ab-1'' True # []"
    by (simp add: recycle_trace_def numeral_eq_Suc)
  moreover have "no_hold_event ''ab-1'' (take 7 (drop 1 recycle_trace))" by (simp add: no_hold_event_def recycle_trace_def numeral_eq_Suc)
  ultimately have "ErasedCall ''ab-1'' True \<in> set (take 7 (drop 1 recycle_trace))" using s(3) by blast
  then show ?thesis using s(1,2) t by metis
qed

lemma waitBooted_now: "reg_Health E u s = ((StateBooted, None), s') \<Longrightarrow> waitBooted E u s = (None, s')"
  by (simp add: waitBooted_def waitBooted_from.simps)

text \<open>An accepted client boot, then its background job.\<close>

lemma boot_run:
  "map_option wp_trace
     (Option.bind (pool_run (\<lambda>_. None) intel_cf (calm_env StateShutdown) (CBoot ''ab-1'') (NewPool 0))
        (pool_run (\<lambda>_. None) intel_cf (calm_env StateShutdown) (CBootJob ''ab-1''))) =
   Some [ReportedBoot ''ab-1'', BootCall ''ab-1'', Gated ''ab-1'', Gated ''ab-1'']"
  by (simp add: pool_eval Guard_Boot_def BootAsync_def gate_defs running_sim_def MarkAwake_def IsMember_def boot_job_def
      boot_with_slot_def markDaemonBooted_def reg_Health_def waitBooted_now DetectClass_def IntelClass_def
      DefaultLoadFactor_def DefaultMinFreeDisk_def)

theorem thaw_first_boots_gated_witness:
  "\<exists>s. (pool_step (\<lambda>_. None) intel_cf)\<^sup>*\<^sup>* (NewPool 0) s \<and>
     wp_trace s = [ReportedBoot ''ab-1'', BootCall ''ab-1'', Gated ''ab-1'', Gated ''ab-1''] \<and>
     park_mon (wp_trace s) = Some {u. IsParked (wp_parker s) u}"
proof -
  obtain s1 s2 where r: "pool_run (\<lambda>_. None) intel_cf (calm_env StateShutdown) (CBoot ''ab-1'') (NewPool 0) = Some s1"
      "pool_run (\<lambda>_. None) intel_cf (calm_env StateShutdown) (CBootJob ''ab-1'') s1 = Some s2"
      "wp_trace s2 = [ReportedBoot ''ab-1'', BootCall ''ab-1'', Gated ''ab-1'', Gated ''ab-1'']"
    using boot_run unfolding map_option_eq_Some bind_eq_Some_conv by blast
  have "(pool_step (\<lambda>_. None) intel_cf)\<^sup>*\<^sup>* (NewPool 0) s2"
    using pool_step.intros [OF calm_sound r(1)] pool_step.intros [OF calm_sound r(2)] by (meson r_into_rtranclp rtranclp.rtrancl_into_rtrancl)
  then show ?thesis using thaw_first_boots_gated r(3) by blast
qed

theorem gate_boot_exact_witness:
  "fst (GateBoot intel_cf (calm_env StateShutdown) ''ab-1'' (NewPool 0)) = None \<and>
   MaxBootedRunning (cf_Class intel_cf) = 2"
proof -
  have c: "cf_MinFreeDisk intel_cf > 0" "cf_LoadFactor intel_cf > 0" "MaxBootedRunning (cf_Class intel_cf) = 2" by code_simp+
  have "case e_disk (calm_env StateShutdown) 0 of Inl _ \<Rightarrow> True | Inr free \<Rightarrow> free \<ge> cf_MinFreeDisk intel_cf"
       "case e_load (calm_env StateShutdown) (0 + 1) of Inl _ \<Rightarrow> True | Inr load \<Rightarrow> load \<le> cf_LoadFactor intel_cf * of_nat (e_cpus (calm_env StateShutdown))"
    by code_simp+
  then show ?thesis
    using gate_boot_exact [OF c(1,2) _ surjective_pairing, of "calm_env StateShutdown" "''ab-1''" "NewPool 0"] c(3)
    by (simp add: NewPool_def [of 0] calm_env_def sim_target_def plain_target_def)
qed

end
