(* ===== verification/Mz_JanitorProps.thy ===== *)
theory Mz_JanitorProps
  imports Mz_PoolProps
begin

text \<open>
  Which simulators a janitor sweep may shut down. \<open>calm X\<close> relates two states of the pool between which
  only targets of \<open>X\<close> were shut down, membership did not change, and marks and ownership records were
  only dropped.
\<close>

definition calm :: "string set \<Rightarrow> pool \<Rightarrow> pool \<Rightarrow> bool" where
  "calm X s s' \<longleftrightarrow> wp_members s' = wp_members s \<and> wp_configuredPool s' = wp_configuredPool s \<and>
     wp_daemonBooted s' \<subseteq> wp_daemonBooted s \<and> wp_idleSince s' \<subseteq>\<^sub>m wp_idleSince s \<and> wp_staleSince s' \<subseteq>\<^sub>m wp_staleSince s \<and>
     (\<exists>new. wp_trace s' = new @ wp_trace s \<and> (\<forall>v. ShutdownCall v \<in> set new \<longrightarrow> v \<in> X))"

lemma calm_refl [simp]: "calm X s s"
  by (simp add: calm_def)

lemma calm_trans [trans]: "calm X s s1 \<Longrightarrow> calm X s1 s2 \<Longrightarrow> calm X s s2"
  by (auto simp: calm_def intro: map_le_trans)

lemma calm_mono: "calm X s s' \<Longrightarrow> X \<subseteq> Y \<Longrightarrow> calm Y s s'"
  unfolding calm_def by blast

lemma calm_noted: "calm X s s1 \<Longrightarrow> (\<And>v. e = ShutdownCall v \<Longrightarrow> v \<in> X) \<Longrightarrow> calm X s (noted e s1)"
  by (auto simp: calm_def noted_def)

text \<open>Fields a calm step may set freely.\<close>

lemma calm_fields [simp]:
  "calm X s (s1\<lparr>wp_parker := a1\<rparr>) = calm X s s1" "calm X s (s1\<lparr>wp_stopped := a2\<rparr>) = calm X s s1"
  "calm X s (s1\<lparr>wp_busy := a3\<rparr>) = calm X s s1" "calm X s (s1\<lparr>wp_tick := a4\<rparr>) = calm X s s1"
  "calm X s (s1\<lparr>wp_now := a5\<rparr>) = calm X s s1" "calm X s (s1\<lparr>wp_awakeUntil := a6\<rparr>) = calm X s s1"
  "calm X s (s1\<lparr>wp_down := a7\<rparr>) = calm X s s1" "calm X s (s1\<lparr>wp_lockDirWarned := a8\<rparr>) = calm X s s1"
  "calm X s (s1\<lparr>wp_lastLockDecision := a9\<rparr>) = calm X s s1" "calm X s (s1\<lparr>wp_reapedN := b1\<rparr>) = calm X s s1"
  "calm X s (s1\<lparr>wp_lastUnmanaged := b2\<rparr>) = calm X s s1"
  by (simp_all add: calm_def)

lemma calm_ask: "ask E f s1 = (a, s') \<Longrightarrow> calm X s s1 \<Longrightarrow> calm X s s'"
  by (auto simp: ask_def)

lemma calm_forget: "calm X s s1 \<Longrightarrow> calm X s (forgetDaemonBooted u s1)"
  by (auto simp: calm_def forgetDaemonBooted_def map_le_def)

lemma calm_clearIdle: "calm X s s1 \<Longrightarrow> calm X s (clearIdleSince u s1)"
  by (auto simp: calm_def clearIdleSince_def map_le_def)

lemma calm_clearStale: "calm X s s1 \<Longrightarrow> calm X s (clearStaleSince u s1)"
  by (auto simp: calm_def clearStaleSince_def map_le_def)

lemma calm_or_else:
  assumes "or_else x f = (b, s')" "\<And>b s1. x = (b, s1) \<Longrightarrow> calm X s s1"
    "\<And>s1 b s'. f s1 = (b, s') \<Longrightarrow> calm X s s1 \<Longrightarrow> calm X s s'"
  shows "calm X s s'"
  using assms by (auto simp: or_else_def split: prod.splits bool.splits)

lemma calm_flags:
  "isLeased E u s1 = (b, s') \<Longrightarrow> calm X s s1 \<Longrightarrow> calm X s s'"
  "isStreaming E u s1 = (b, s') \<Longrightarrow> calm X s s1 \<Longrightarrow> calm X s s'"
  "isRecording E u s1 = (b, s') \<Longrightarrow> calm X s s1 \<Longrightarrow> calm X s s'"
  by (auto simp: isLeased_def isStreaming_def isRecording_def dest: calm_ask)

lemma calm_in_use: "in_use E u s1 = (b, s') \<Longrightarrow> calm X s s1 \<Longrightarrow> calm X s s'"
  unfolding in_use_def by (auto elim!: calm_or_else intro: calm_flags)

lemma calm_in_use_held: "in_use_held E u s1 = (b, s') \<Longrightarrow> calm X s s1 \<Longrightarrow> calm X s s'"
  unfolding in_use_held_def by (auto elim!: calm_or_else intro: calm_flags)

lemma calm_reserve: "reserveTarget E u s1 = (r, s') \<Longrightarrow> calm X s s1 \<Longrightarrow> calm X s s'"
  by (auto simp: reserveTarget_def intro: calm_noted dest!: calm_ask [where X = X and s = s] split: prod.splits option.splits)

lemma calm_Thaw: "prk_Thaw E u s1 = (r, s') \<Longrightarrow> calm X s s1 \<Longrightarrow> calm X s s'"
  by (auto simp: prk_Thaw_def Let_def intro!: calm_noted dest!: calm_ask [where X = X and s = s] split: prod.splits option.splits)

lemma calm_Shutdown: "reg_Shutdown E u s1 = (r, s') \<Longrightarrow> calm X s s1 \<Longrightarrow> u \<in> X \<Longrightarrow> calm X s s'"
  by (auto simp: reg_Shutdown_def intro!: calm_noted dest!: calm_ask [where X = X and s = s] split: prod.splits)

lemma calm_kill: "fold (kill_one allowed) live (r, s1) = (r', s') \<Longrightarrow> calm X s s1 \<Longrightarrow> calm X s s'"
proof (induction live arbitrary: r s1)
  case (Cons pid live)
  obtain r1 s2 where k: "kill_one allowed pid (r, s1) = (r1, s2)" by fastforce
  then have "calm X s s2" using Cons.prems(2) by (auto simp: kill_one_def Let_def intro!: calm_noted)
  then show ?case using Cons.IH [of r1 s2] Cons.prems(1) k by simp
qed simp

lemma calm_Reap: "ReapOrphans E u s1 = (r, s') \<Longrightarrow> calm X s s1 \<Longrightarrow> calm X s s'"
  by (auto simp: ReapOrphans_def Let_def split: prod.splits sum.splits if_splits
      dest!: calm_ask [where X = X and s = s] calm_kill [where X = X and s = s])

lemma calm_SafeShutdown:
  assumes d: "SafeShutdown E u s1 = (r, s')" and s: "calm X s s1" and u: "u \<in> X"
  shows "calm X s s'"
proof -
  let ?s = "BeginTransition u s1"
  have b: "calm X s ?s" using s by (simp add: BeginTransition_def)
  obtain r1 s2 where t: "prk_Thaw E u ?s = (r1, s2)" by fastforce
  have s2: "calm X s s2" using calm_Thaw [OF t b] .
  obtain r2 s3 where d2: "reg_Shutdown E u s2 = (r2, s3)" by fastforce
  have s3: "calm X s s3" using calm_Shutdown [OF d2 s2 u] .
  obtain r3 s4 where o: "ReapOrphans E u (notifyShutdown u s3) = (r3, s4)" by fastforce
  have s4: "calm X s s4" using calm_Reap [OF o] calm_noted [OF s3, of "NotedShutdown u"] by (simp add: notifyShutdown_def)
  have "calm X s (forgetDaemonBooted u s4)" using calm_forget [OF s4] .
  then show ?thesis using d t d2 o s2 s3
    by (auto simp: SafeShutdown_def shutdown_body_def EndTransition_def Let_def forgetDaemonBooted_def calm_def
        split: prod.splits option.splits)
qed

lemma calm_shutdown_held:
  assumes d: "shutdown_held E u reason after s1 = (r, s')" and s: "calm X s s1" and u: "u \<in> X"
    and after: "\<And>s1. calm X s s1 \<Longrightarrow> calm X s (after s1)"
  shows "calm X s s'"
  using d
  by (auto simp: shutdown_held_def release_hold_def reportShutdown_def split: prod.splits bool.splits option.splits
      intro!: calm_noted after dest!: calm_reserve [OF _ s] calm_in_use_held [where X = X and s = s]
        calm_SafeShutdown [where X = X and s = s, OF _ _ u])


lemma calm_Health: "reg_Health E u s1 = (r, s') \<Longrightarrow> calm X s s1 \<Longrightarrow> calm X s s'"
  by (auto simp: reg_Health_def dest: calm_ask)

lemma calm_reclaim:
  assumes r: "reclaimIdle E u s = (b, s')" and u: "u \<notin> wp_members s \<longrightarrow> u \<in> X"
  shows "calm X s s'"
proof (cases "u \<in> wp_members s")
  case True
  then show ?thesis using r by (auto simp: reclaimIdle_def IsMember_def or_else_def)
next
  case False
  obtain b1 s1 where i: "or_else (IsMember s u, s) (in_use E u) = (b1, s1)" by fastforce
  have s1: "calm X s s1" by (rule calm_or_else [OF i]) (auto intro: calm_in_use)
  show ?thesis using r i False u s1
    by (auto simp: reclaimIdle_def split: prod.splits bool.splits if_splits intro: calm_forget
        elim!: calm_shutdown_held dest!: calm_Health [OF _ s1] intro!: s1)
qed

lemma calm_lockDir: "lockDirUsable E s1 = (b, s') \<Longrightarrow> calm X s s1 \<Longrightarrow> calm X s s'"
  by (auto simp: lockDirUsable_def dest: calm_ask split: prod.splits)

lemma calm_reapUnmanaged:
  assumes r: "reapUnmanaged p E u s = (b, s')" and u: "u \<notin> wp_members s \<longrightarrow> u \<in> X"
  shows "calm X s s'"
proof (cases "u \<in> wp_members s")
  case True
  then show ?thesis using r by (auto simp: reapUnmanaged_def IsMember_def or_else_def)
next
  case False
  obtain b1 s1 where i: "or_else (isConfiguredPool s u \<or> IsMember s u \<or> IsDaemonBooted s u, s) (in_use E u) = (b1, s1)" by fastforce
  have s1: "calm X s s1" by (rule calm_or_else [OF i]) (auto intro: calm_in_use)
  show ?thesis using r i False u s1
    by (auto simp: reapUnmanaged_def Let_def split: prod.splits bool.splits if_splits
        elim!: calm_shutdown_held dest!: calm_lockDir [OF _ s1] calm_ask [where X = X and s = s] calm_Health [where X = X and s = s] intro!: s1)
qed

section \<open>A sweep\<close>

text \<open>
  The targets a sweep at time \<open>now\<close> may shut down, given the pool before it: a sim the daemon booted and
  that an earlier sweep saw idle, or one whose lock reads stale or missing and did so for an earlier
  sweep, each at least a grace period ago; never a member of the pool.
\<close>

definition may_reclaim :: "pool \<Rightarrow> instant \<Rightarrow> string \<Rightarrow> bool" where
  "may_reclaim s now u \<longleftrightarrow> u \<notin> wp_members s \<and> u \<in> wp_daemonBooted s \<and>
     (\<exists>t. wp_idleSince s u = Some t \<and> now - t \<ge> janitorIdleGrace)"

definition may_reap :: "(string \<Rightarrow> instant option) \<Rightarrow> host_env \<Rightarrow> pool \<Rightarrow> instant \<Rightarrow> string \<Rightarrow> bool" where
  "may_reap p E s now u \<longleftrightarrow> u \<notin> wp_members s \<and> u \<notin> wp_configuredPool s \<and>
     (\<exists>t. wp_staleSince s u = Some t \<and> now - t \<ge> lockReapGrace) \<and>
     (\<exists>k. simLockState p (e_lockfile E k u) now \<in> {lockStale, lockMissing})"

text \<open>The state of a running sweep: marks are old or were made by this sweep.\<close>

definition sweeping :: "string set \<Rightarrow> pool \<Rightarrow> instant \<Rightarrow> pool \<Rightarrow> bool" where
  "sweeping X s0 now s \<longleftrightarrow> wp_members s = wp_members s0 \<and> wp_configuredPool s = wp_configuredPool s0 \<and>
     wp_daemonBooted s \<subseteq> wp_daemonBooted s0 \<and>
     (\<forall>v t. wp_idleSince s v = Some t \<longrightarrow> wp_idleSince s0 v = Some t \<or> t = now) \<and>
     (\<forall>v t. wp_staleSince s v = Some t \<longrightarrow> wp_staleSince s0 v = Some t \<or> t = now) \<and>
     (\<exists>new. wp_trace s = new @ wp_trace s0 \<and> (\<forall>v. ShutdownCall v \<in> set new \<longrightarrow> v \<in> X))"

lemma map_le_SomeD: "m \<subseteq>\<^sub>m m' \<Longrightarrow> m v = Some t \<Longrightarrow> m' v = Some t"
  by (force simp: map_le_def)

lemma sweeping_calm:
  assumes sw: "sweeping X s0 now s" and c: "calm X s s'"
  shows "sweeping X s0 now s'"
proof -
  have i: "wp_idleSince s v = Some t" if "wp_idleSince s' v = Some t" for v t
    using c that map_le_SomeD unfolding calm_def by metis
  have st: "wp_staleSince s v = Some t" if "wp_staleSince s' v = Some t" for v t
    using c that map_le_SomeD unfolding calm_def by metis
  obtain a b where "wp_trace s = a @ wp_trace s0" "wp_trace s' = b @ wp_trace s"
      "\<forall>v. ShutdownCall v \<in> set a \<longrightarrow> v \<in> X" "\<forall>v. ShutdownCall v \<in> set b \<longrightarrow> v \<in> X"
    using sw c unfolding sweeping_def calm_def by blast
  then have "\<exists>new. wp_trace s' = new @ wp_trace s0 \<and> (\<forall>v. ShutdownCall v \<in> set new \<longrightarrow> v \<in> X)"
    by (intro exI [of _ "b @ a"]) auto
  moreover have "wp_members s' = wp_members s0" "wp_configuredPool s' = wp_configuredPool s0"
      "wp_daemonBooted s' \<subseteq> wp_daemonBooted s0"
    using sw c by (auto simp: sweeping_def calm_def)
  moreover have "\<forall>v t. wp_idleSince s' v = Some t \<longrightarrow> wp_idleSince s0 v = Some t \<or> t = now"
      "\<forall>v t. wp_staleSince s' v = Some t \<longrightarrow> wp_staleSince s0 v = Some t \<or> t = now"
    using sw i st unfolding sweeping_def by blast+
  ultimately show ?thesis unfolding sweeping_def by blast
qed

lemma sweeping_fields [simp]:
  "sweeping X s0 now (s\<lparr>wp_lastLockDecision := a\<rparr>) = sweeping X s0 now s"
  "sweeping X s0 now (s\<lparr>wp_reapedN := b\<rparr>) = sweeping X s0 now s"
  "sweeping X s0 now (s\<lparr>wp_lastUnmanaged := c\<rparr>) = sweeping X s0 now s"
  by (simp_all add: sweeping_def)

lemma sweeping_mark:
  assumes "sweeping X s0 now s"
  shows "sweeping X s0 now (s\<lparr>wp_idleSince := (wp_idleSince s)(u \<mapsto> now)\<rparr>)"
    "sweeping X s0 now (s\<lparr>wp_staleSince := (wp_staleSince s)(u \<mapsto> now)\<rparr>)"
  using assms by (simp_all add: sweeping_def)

lemma sweep_idle_sweeping:
  assumes s: "sweeping X s0 now s" and u: "u \<in> wp_daemonBooted s0" "may_reclaim s0 now u \<longrightarrow> u \<in> X"
  shows "sweeping X s0 now (sweep_idle E now u s)"
proof -
  obtain b s1 where i: "in_use E u s = (b, s1)" by fastforce
  have s1: "sweeping X s0 now s1" using sweeping_calm [OF s calm_in_use [OF i calm_refl]] .
  obtain since s2 where m: "idleSinceOrMark u now s1 = (since, s2)" by fastforce
  have s2: "sweeping X s0 now s2" "wp_idleSince s2 u = Some since"
    using m s1 sweeping_mark(1) [OF s1, of u] by (auto simp: idleSinceOrMark_def split: option.splits)
  then have s2m: "wp_members s2 = wp_members s0" by (simp add: sweeping_def)
  obtain r s3 where c: "reclaimIdle E u s2 = (r, s3)" by fastforce
  have s3: "sweeping X s0 now s3" if old: "\<not> now - since < janitorIdleGrace"
  proof (rule sweeping_calm [OF s2(1) calm_reclaim [OF c]])
    have "since \<noteq> now" using old by (auto simp: janitorIdleGrace_def)
    then have "wp_idleSince s0 u = Some since" using s2(1,2) by (auto simp: sweeping_def)
    then show "u \<notin> wp_members s2 \<longrightarrow> u \<in> X" using u s2m old by (auto simp: may_reclaim_def)
  qed
  show ?thesis using i m c s2(1) s3 sweeping_calm [OF s1 calm_clearIdle [OF calm_refl]] sweeping_calm [OF s3 calm_clearIdle [OF calm_refl]]
    by (auto simp: sweep_idle_def split: bool.splits)
qed


lemma reap_one_sweeping:
  assumes s: "sweeping X s0 now s" and u: "may_reap p E s0 now u \<longrightarrow> u \<in> X"
  shows "sweeping X s0 now (reap_one p E now u s)"
proof (cases "isConfiguredPool s u")
  case False
  obtain f s1 where a: "ask E (\<lambda>t. e_lockfile E t u) s = (f, s1)" by fastforce
  have s1: "sweeping X s0 now s1" using sweeping_calm [OF s calm_ask [OF a calm_refl]] .
  have f: "\<exists>k. f = e_lockfile E k u" using a by (auto simp: ask_def)
  have conf: "u \<notin> wp_configuredPool s0" using False s by (simp add: isConfiguredPool_def sweeping_def)
  obtain b s2 where i: "in_use E u s1 = (b, s2)" by fastforce
  have s2: "sweeping X s0 now s2" using sweeping_calm [OF s1 calm_in_use [OF i calm_refl]] .
  obtain since s3 where m: "staleSinceOrMark u now s2 = (since, s3)" by fastforce
  have s3: "sweeping X s0 now s3" "wp_staleSince s3 u = Some since"
    using m s2 sweeping_mark(2) [OF s2, of u] by (auto simp: staleSinceOrMark_def split: option.splits)
  then have s3m: "wp_members s3 = wp_members s0" by (simp add: sweeping_def)
  obtain r s4 where c: "reapUnmanaged p E u s3 = (r, s4)" by fastforce
  have s4: "sweeping X s0 now s4" if old: "\<not> now - since < lockReapGrace"
    and st: "simLockState p f now \<in> {lockStale, lockMissing}"
  proof (rule sweeping_calm [OF s3(1) calm_reapUnmanaged [OF c]])
    have "since \<noteq> now" using old by (auto simp: lockReapGrace_def)
    then have "wp_staleSince s0 u = Some since" using s3 by (auto simp: sweeping_def)
    then show "u \<notin> wp_members s3 \<longrightarrow> u \<in> X" using u s3m old conf st f by (auto simp: may_reap_def)
  qed
  have clear: "sweeping X s0 now (clearStaleSince u v)" if "sweeping X s0 now v" for v
    using sweeping_calm [OF that calm_clearStale [OF calm_refl]] .
  show ?thesis using a False i m c s2 s3(1) s4 clear [OF s1] clear [OF s2] clear [of s4]
    by (auto simp: reap_one_def reap_locked_def logLockDecision_def split: lockState.splits bool.splits)
qed (use s in \<open>simp add: reap_one_def\<close>)

lemma sweeping_fold:
  "(\<And>x s. x \<in> set xs \<Longrightarrow> sweeping X s0 now s \<Longrightarrow> sweeping X s0 now (f x s)) \<Longrightarrow> sweeping X s0 now s \<Longrightarrow> sweeping X s0 now (fold f xs s)"
  by (induction xs arbitrary: s) auto

lemma reapStaleLocked_sweeping:
  assumes s: "sweeping X s0 now s" and X: "\<And>u. may_reap p E s0 now u \<Longrightarrow> u \<in> X"
  shows "sweeping X s0 now (reapStaleLocked p E us now s)"
proof -
  obtain b s1 where l: "lockDirUsable E s = (b, s1)" by fastforce
  have s1: "sweeping X s0 now s1" using sweeping_calm [OF s calm_lockDir [OF l calm_refl]] .
  let ?s2 = "fold (reap_one p E now) us s1"
  have s2: "sweeping X s0 now ?s2" using s1 X by (auto intro!: sweeping_fold reap_one_sweeping)
  have "sweeping X s0 now (?s2\<lparr>wp_staleSince := wp_staleSince ?s2 |` c\<rparr>)" for c
    using s2 by (simp add: sweeping_def restrict_map_def)
  moreover have "sweeping X s0 now (resetReapMarks s1)" using s1 by (simp add: resetReapMarks_def sweeping_def)
  ultimately show ?thesis using l by (simp add: reapStaleLocked_def Let_def split: bool.splits)
qed

text \<open>
  C35. What a janitor sweep may shut down: only simulators outside the pool, each of them either
  booted by this daemon and marked idle by an earlier sweep at least 90 seconds ago, or, when
  reaping by lock files is on, not configured for the pool, with a lock that reads stale or missing
  now and was marked so by an earlier sweep at least ten minutes ago. So no simulator is shut down by
  the first sweep that finds it idle or unlocked, and pool membership never changes.
\<close>

theorem janitor_shuts_only:
  fixes p cf E s
  defines "s' \<equiv> sweepJanitor p cf E s"
  shows "\<exists>new. wp_trace s' = new @ wp_trace s \<and> wp_members s' = wp_members s \<and>
    (\<forall>u. ShutdownCall u \<in> set new \<longrightarrow>
       may_reclaim s (wp_now s) u \<or> cf_ReapStaleLocks cf \<and> may_reap p E s (wp_now s) u)"
proof -
  define X where "X = {u. may_reclaim s (wp_now s) u \<or> cf_ReapStaleLocks cf \<and> may_reap p E s (wp_now s) u}"
  obtain us s1 where d: "daemonBootedList E s = (us, s1)" by fastforce
  have us: "set us \<subseteq> wp_daemonBooted s" using d by (auto simp: daemonBootedList_def ask_def)
  have s1: "sweeping X s (wp_now s) s1" using d by (auto simp: daemonBootedList_def ask_def sweeping_def)
  let ?s2 = "fold (sweep_idle E (wp_now s)) us s1"
  have s2: "sweeping X s (wp_now s) ?s2"
    using s1 us by (auto intro!: sweeping_fold sweep_idle_sweeping simp: X_def)
  obtain l s3 where u: "unmanagedBooted E ?s2 = (l, s3)" by fastforce
  have "calm X ?s2 s3" using u by (auto simp: unmanagedBooted_def dest: calm_ask [OF _ calm_refl] split: prod.splits sum.splits)
  then have s3: "sweeping X s (wp_now s) s3" using sweeping_calm [OF s2] by blast
  have s3': "sweeping X s (wp_now s) (logUnmanaged ts s3)" "sweeping X s (wp_now s) (resetReapMarks s3)" for ts
    using s3 by (simp_all add: logUnmanaged_def resetReapMarks_def sweeping_def)
  have s4: "sweeping X s (wp_now s) (reapStaleLocked p E vs (wp_now s) (logUnmanaged ts s3))" if "cf_ReapStaleLocks cf" for vs ts
    using reapStaleLocked_sweeping [OF s3'(1)] that by (auto simp: X_def)
  have "sweeping X s (wp_now s) s'"
    using d u s3' s4 by (auto simp: s'_def sweepJanitor_def Let_def split: sum.splits if_splits)
  then show ?thesis by (auto simp: sweeping_def X_def)
qed


definition idle_pool :: pool where
  "idle_pool = (NewPool (100 * Second))\<lparr>wp_daemonBooted := {''ab-1''}, wp_idleSince := [''ab-1'' \<mapsto> 0]\<rparr>"

definition idle_env :: host_env where
  "idle_env = (calm_env StateBooted)\<lparr>e_streaming := (\<lambda>_ _. False), e_list := (\<lambda>_. Inr [])\<rparr>"

lemma idle_sweep:
  "wp_trace (sweepJanitor (\<lambda>_. None) (intel_cf\<lparr>cf_ReapStaleLocks := False\<rparr>) idle_env idle_pool) =
   [Released ''ab-1'' False, ReportedShutdown ''ab-1'' ''janitor'' ''idle daemon-booted sim reclaimed (no lease, stream, or recording)'',
    NotedShutdown ''ab-1'', ShutdownCall ''ab-1'', Thawed ''ab-1'', Reserved ''ab-1'' True]"
  by (simp add: sweepJanitor_def daemonBootedList_def sweep_idle_def in_use_def in_use_held_def idleSinceOrMark_def
      janitorIdleGrace_def reclaimIdle_def shutdown_held_def SafeShutdown_def shutdown_body_def prk_Thaw_def Thaw_def
      ReapOrphans_def OwnedTree_def unmanagedBooted_def logUnmanaged_def clearIdleSince_def forgetDaemonBooted_def
      reportShutdown_def notifyShutdown_def release_hold_def reserveTarget_def reg_Health_def isBusy_def isAwake_def
      IsMember_def idle_pool_def idle_env_def pool_eval)

theorem janitor_shuts_only_witness:
  "ShutdownCall ''ab-1'' \<in> set (wp_trace (sweepJanitor (\<lambda>_. None) (intel_cf\<lparr>cf_ReapStaleLocks := False\<rparr>) idle_env idle_pool)) \<and>
   may_reclaim idle_pool (100 * Second) ''ab-1''"
proof -
  have "wp_trace idle_pool = []" "wp_now idle_pool = 100 * Second" by (simp_all add: idle_pool_def NewPool_def)
  then show ?thesis
    using janitor_shuts_only [of "\<lambda>_. None" "intel_cf\<lparr>cf_ReapStaleLocks := False\<rparr>" idle_env idle_pool] by (simp add: idle_sweep)
qed

end
