(* ===== verification/Mz_Hold.thy ===== *)
theory Mz_Hold
  imports Mz_PoolProps Mz_Lease
begin

text \<open>
  The interface between the warm pool and the lease manager: the hold on a target, wired in
  \<^verbatim>\<open>cmd/manzanasd/main.go\<close> (\<^verbatim>\<open>SetReserveFunc\<close>, \<^verbatim>\<open>SetMarkCleanFunc\<close>). The pool's trace of hold events is replayed
  against the provider of the holds, interleaved with what others do to it.
\<close>

section \<open>The interface\<close>

datatype hold_state = InQuarantine | OnHold | Elsewhere   \<comment> \<open>elsewhere: free, leased or being reset\<close>

text \<open>
  One effect of the pool as the calls it makes to the provider: \<^verbatim>\<open>Reserve\<close>, then \<^verbatim>\<open>Unreserve\<close> for a target
  released as rebuilt and \<^verbatim>\<open>Quarantine\<close> for one that is not.
\<close>

fun served ::
  "(string \<Rightarrow> 'm \<Rightarrow> 'm \<times> bool \<times> bool) \<Rightarrow> (string \<Rightarrow> 'm \<Rightarrow> 'm) \<Rightarrow> (string \<Rightarrow> 'm \<Rightarrow> 'm \<Rightarrow> bool) \<Rightarrow> (string \<Rightarrow> 'm \<Rightarrow> 'm) \<Rightarrow>
   effect \<Rightarrow> 'm \<Rightarrow> 'm \<Rightarrow> bool"
where
  "served reserve quarantine freed clean (Reserved u takeover) m m' = (reserve u m = (m', takeover, True))"
| "served reserve quarantine freed clean (Released u rebuilt) m m' = (if rebuilt then freed u m m' else m' = quarantine u m)"
| "served reserve quarantine freed clean (MarkedClean u) m m' = (m' = clean u m)"
| "served reserve quarantine freed clean _ m m' = (m' = m)"

text \<open>A trace, newest first, served in order, with steps of others after each effect.\<close>

fun replayed :: "(effect \<Rightarrow> 'm \<Rightarrow> 'm \<Rightarrow> bool) \<Rightarrow> ('m \<Rightarrow> 'm \<Rightarrow> bool) \<Rightarrow> effect list \<Rightarrow> 'm \<Rightarrow> 'm \<Rightarrow> bool" where
  "replayed serve others [] m m' = (m' = m)"
| "replayed serve others (e # es) m m' = (\<exists>m1 m2. replayed serve others es m m1 \<and> serve e m1 m2 \<and> others\<^sup>*\<^sup>* m2 m')"

locale target_hold =
  fixes reserve :: "string \<Rightarrow> 'm \<Rightarrow> 'm \<times> bool \<times> bool"
    and quarantine :: "string \<Rightarrow> 'm \<Rightarrow> 'm"
    and freed :: "string \<Rightarrow> 'm \<Rightarrow> 'm \<Rightarrow> bool"
    and clean :: "string \<Rightarrow> 'm \<Rightarrow> 'm"
    and state :: "'m \<Rightarrow> string \<Rightarrow> hold_state"
  assumes reserve_takes: "reserve u m = (m', takeover, True) \<Longrightarrow>
      state m' u = OnHold \<and> (takeover \<longleftrightarrow> state m u = InQuarantine)"
    and reserve_other: "reserve u m = (m', takeover, ok) \<Longrightarrow> v \<noteq> u \<Longrightarrow> state m' v = state m v"
    and quarantine_puts: "state m u = OnHold \<Longrightarrow> state (quarantine u m) u = InQuarantine"
    and quarantine_other: "v \<noteq> u \<Longrightarrow> state (quarantine u m) v = state m v"
    and freed_other: "freed u m m' \<Longrightarrow> v \<noteq> u \<Longrightarrow> state m' v = state m v"
    and clean_keeps: "state (clean u m) v = state m v"
begin

lemma served_other:
  assumes "served reserve quarantine freed clean e m m'" "\<forall>b. e \<noteq> Reserved v b \<and> e \<noteq> Released v b"
  shows "state m' v = state m v"
  using assms reserve_other quarantine_other freed_other clean_keeps
  by (cases e) (auto split: if_splits)

text \<open>A target in quarantine leaves it only into the pool's hands until an erase succeeds.\<close>

definition untouched :: "string \<Rightarrow> holds \<Rightarrow> 'm \<Rightarrow> bool" where
  "untouched u H m \<longleftrightarrow> state m u = InQuarantine \<and> H u = None \<or> state m u = OnHold \<and> H u = Some (True, False)"

lemma untouched_step:
  assumes un: "untouched u H m" and w: "hold_watch e H = Some H'" and s: "served reserve quarantine freed clean e m m'"
    and e: "e \<noteq> ErasedCall u True"
  shows "untouched u H' m'"
proof (cases "\<exists>b. e = Reserved u b \<or> e = Released u b")
  case True
  then obtain b where "e = Reserved u b \<or> e = Released u b" by blast
  then show ?thesis
  proof
    assume "e = Reserved u b"
    then show ?thesis using un w s reserve_takes [of u m m' b] by (auto simp: untouched_def split: if_splits)
  next
    assume "e = Released u b"
    then show ?thesis using un w s quarantine_puts [of m u] by (auto simp: untouched_def split: if_splits)
  qed
next
  case False
  have "state m' u = state m u" using served_other [OF s] False by blast
  moreover have "H' u = H u"
  proof (cases "H u")
    case (Some p)
    then show ?thesis using hold_watch_keeps [OF w, of u "fst p" "snd p"] False e un
      by (cases p) (auto simp: untouched_def)
  next
    case None
    then show ?thesis using w False by (cases e) (auto split: if_splits option.splits bool.splits)
  qed
  ultimately show ?thesis using un by (simp add: untouched_def)
qed

lemma quarantine_kept:
  assumes others: "\<And>m m'. others m m' \<Longrightarrow> state m' u = state m u"
    and run: "replayed (served reserve quarantine freed clean) others es m m'"
    and mon: "hold_mon es = Some H" and q: "state m u = InQuarantine" and no: "ErasedCall u True \<notin> set es"
  shows "untouched u H m'"
  using run mon no
proof (induction es arbitrary: m' H)
  case Nil
  then show ?case using q by (auto simp: untouched_def)
next
  case (Cons e es)
  obtain m1 m2 where r: "replayed (served reserve quarantine freed clean) others es m m1"
      "served reserve quarantine freed clean e m1 m2" "others\<^sup>*\<^sup>* m2 m'" using Cons.prems(1) by auto
  obtain H1 where h: "hold_mon es = Some H1" "hold_watch e H1 = Some H" using Cons.prems(2) by (auto simp: bind_eq_Some_conv)
  have "untouched u H m2" using untouched_step [OF Cons.IH [OF r(1) h(1)] h(2) r(2)] Cons.prems(3) by auto
  moreover have "state m' u = state m2 u" using r(3) by (induction rule: rtranclp_induct) (auto dest: others)
  ultimately show ?case by (simp add: untouched_def)
qed

end

section \<open>The lease manager provides it\<close>

definition hold_owner :: "manager \<Rightarrow> string \<Rightarrow> hold_state" where
  "hold_owner m u =
     (if m_byTarget m u = Some resetSentinel then InQuarantine
      else if m_byTarget m u = Some reserveSentinel then OnHold else Elsewhere)"

text \<open>\<^verbatim>\<open>Unreserve\<close> at some time, its range statements in some order.\<close>

definition unreserved :: "string \<Rightarrow> manager \<Rightarrow> manager \<Rightarrow> bool" where
  "unreserved u m m' \<longleftrightarrow> (\<exists>ord now out. Unreserve ord now u m = Some out \<and> o_state out = m')"

lemma byTarget_updates:
  "m_byTarget (expire_silent now key i l s) = m_byTarget s"
  "m_byTarget (startPreGrantEraseLocked l u s) v = (if v = u then Some resetSentinel else m_byTarget s v)"
  "m_byTarget (grant_queued now key i u l s) v = (if v = u then Some (l_ID l) else m_byTarget s v)"
  by (simp_all add: expire_silent_def dequeue_at_def set_queue_def put_lease_def startPreGrantEraseLocked_def grant_queued_def Let_def)

lemma promoteQueue_other:
  "promoteQueue now tgt u key i s ev = Some (t, ev', stop) \<Longrightarrow> v \<noteq> u \<Longrightarrow> m_byTarget t v = m_byTarget s v"
proof (induction now tgt u key i s ev rule: promoteQueue.induct)
  case (1 now tgt u key i s ev)
  note run = "1.prems"(1) [unfolded promoteQueue.simps [of now tgt u key i s ev]]
  show ?case
    using run "1.IH" "1.prems"(2) by (auto simp: byTarget_updates split: if_splits option.splits)
qed

lemma promoteQueues_other:
  "promoteQueues now tgt u keys s ev = Some (t, ev') \<Longrightarrow> v \<noteq> u \<Longrightarrow> m_byTarget t v = m_byTarget s v"
  by (induction now tgt u keys s ev rule: promoteQueues.induct)
    (auto split: option.splits if_splits prod.splits dest: promoteQueue_other)

lemma promoteLocked_other:
  "promoteLocked ord now u s = Some (t, ev) \<Longrightarrow> v \<noteq> u \<Longrightarrow> m_byTarget t v = m_byTarget s v"
  by (auto simp: promoteLocked_def split: option.splits dest: promoteQueues_other)

lemma Unreserve_other:
  "Unreserve ord now u s = Some out \<Longrightarrow> v \<noteq> u \<Longrightarrow> m_byTarget (o_state out) v = m_byTarget s v"
  by (auto simp: Unreserve_def Let_def settle_def bind_eq_Some_conv dest!: promoteLocked_other split: if_splits)

interpretation lm: target_hold Reserve Quarantine unreserved MarkClean hold_owner
proof
  fix u v m m' takeover ok
  show "Reserve u m = (m', takeover, True) \<Longrightarrow> hold_owner m' u = OnHold \<and> (takeover \<longleftrightarrow> hold_owner m u = InQuarantine)"
    by (auto simp: Reserve_def hold_owner_def resetSentinel_def reserveSentinel_def split: option.splits if_splits)
  show "Reserve u m = (m', takeover, ok) \<Longrightarrow> v \<noteq> u \<Longrightarrow> hold_owner m' v = hold_owner m v"
    by (auto simp: Reserve_def hold_owner_def split: option.splits if_splits)
  show "hold_owner m u = OnHold \<Longrightarrow> hold_owner (Quarantine u m) u = InQuarantine"
    by (auto simp: Quarantine_def hold_owner_def split: if_splits)
  show "v \<noteq> u \<Longrightarrow> hold_owner (Quarantine u m) v = hold_owner m v"
    by (auto simp: Quarantine_def hold_owner_def)
  show "unreserved u m m' \<Longrightarrow> v \<noteq> u \<Longrightarrow> hold_owner m' v = hold_owner m v"
    by (auto simp: unreserved_def hold_owner_def Unreserve_other)
  show "hold_owner (MarkClean u m) v = hold_owner m v"
    by (simp add: MarkClean_def hold_owner_def)
qed

text \<open>
  C30. A quarantined target comes back only through a successful erase. Take any run of the pool and
  replay its holds on the lease manager as the daemon wires them, interleaved with any steps of others
  that leave this target's entry alone. A target that was in quarantine at the start and is neither in
  quarantine nor held by the pool at the end, so that it can be leased, was erased successfully by
  the pool in between.
\<close>

theorem quarantine_needs_erase:
  assumes "(pool_step p cf)\<^sup>*\<^sup>* (NewPool now) s"
    and "replayed (served Reserve Quarantine unreserved MarkClean) others (wp_trace s) m m'"
    and "\<forall>x y. others x y \<longrightarrow> m_byTarget y u = m_byTarget x u"
    and "m_byTarget m u = Some resetSentinel"
    and "m_byTarget m' u \<noteq> Some resetSentinel" "m_byTarget m' u \<noteq> Some reserveSentinel"
  shows "ErasedCall u True \<in> set (wp_trace s)"
proof (rule ccontr)
  assume no: "ErasedCall u True \<notin> set (wp_trace s)"
  have "hold_mon (wp_trace s) = Some Map.empty" using reachable_safe [OF assms(1)] by (simp add: safe_def)
  moreover have "hold_owner y u = hold_owner x u" if "others x y" for x y using assms(3) that by (auto simp: hold_owner_def)
  moreover have "hold_owner m u = InQuarantine" using assms(4) by (simp add: hold_owner_def)
  ultimately have "lm.untouched u Map.empty m'" using lm.quarantine_kept [OF _ assms(2)] no by blast
  then show False using assms(5,6) by (auto simp: lm.untouched_def hold_owner_def split: if_splits)
qed

definition quarantine_mgr :: manager where
  "quarantine_mgr = (newManager True)\<lparr>m_byTarget := [''ab-1'' \<mapsto> resetSentinel]\<rparr>"

theorem quarantine_needs_erase_witness:
  "\<exists>s m'. (pool_step (\<lambda>_. None) intel_cf)\<^sup>*\<^sup>* (NewPool 0) s \<and> wp_trace s = recycle_trace \<and>
     replayed (served Reserve Quarantine unreserved MarkClean) (=) (wp_trace s) quarantine_mgr m' \<and>
     m_byTarget m' ''ab-1'' = None \<and> ErasedCall ''ab-1'' True \<in> set (wp_trace s)"
proof -
  obtain s where run: "pool_run (\<lambda>_. None) intel_cf (calm_env StateBooted) (CRecycle ''ab-1'') (NewPool 0) = Some s"
      and t: "wp_trace s = recycle_trace" using recycle_run by auto
  have reach: "(pool_step (\<lambda>_. None) intel_cf)\<^sup>*\<^sup>* (NewPool 0) s"
    using pool_step.intros [OF calm_sound run] by blast
  have eq: "(=)\<^sup>*\<^sup>* x y \<longleftrightarrow> x = y" for x y :: manager
  proof
    show "(=)\<^sup>*\<^sup>* x y \<Longrightarrow> x = y" by (induction rule: rtranclp_induct) auto
  qed simp
  define m1 where "m1 = fst (Reserve ''ab-1'' quarantine_mgr)"
  define m2 where "m2 = MarkClean ''ab-1'' m1"
  have r: "Reserve ''ab-1'' quarantine_mgr = (m1, True, True)"
    by (simp add: m1_def Reserve_def quarantine_mgr_def newManager_def)
  obtain out where u: "Unreserve (\<lambda>_. []) 0 ''ab-1'' m2 = Some out" "m_byTarget (o_state out) ''ab-1'' = None"
    by (simp add: m2_def m1_def MarkClean_def Reserve_def quarantine_mgr_def newManager_def Unreserve_def promoteLocked_def settle_def Let_def)
  have rep: "replayed (served Reserve Quarantine unreserved MarkClean) (=) (wp_trace s) quarantine_mgr (o_state out)"
    using r u(1) by (auto simp: t recycle_trace_def eq m2_def unreserved_def)
  have "m_byTarget quarantine_mgr ''ab-1'' = Some resetSentinel" by (simp add: quarantine_mgr_def)
  then have "ErasedCall ''ab-1'' True \<in> set (wp_trace s)"
    using quarantine_needs_erase [OF reach rep] u(2) by auto
  then show ?thesis using reach rep u(2) t by blast
qed

end
