(* ===== verification/Mz_Journal.thy ===== *)
theory Mz_Journal
  imports Mz_Tree Mz_Proto
begin

text \<open>
  The run journal (\<^verbatim>\<open>internal/journal\<close>): \<^verbatim>\<open>file.go\<close> (the on-disk store), \<^verbatim>\<open>gc.go\<close>, \<^verbatim>\<open>artifacts.go\<close> and
  \<^verbatim>\<open>recorder.go\<close>.

  The disk is a map from run directories to their files, each with its bytes and its modification
  time. The in-memory state of a run is an object at an address, as the code compares pointers
  (\<^verbatim>\<open>s.runs[runID] == st\<close>). The encoders of \<^verbatim>\<open>encoding/json\<close>, the time format and SHA-256 are the
  fields of a \<open>codec\<close>. The answers of the operating system that may fail are arguments: creating a
  directory, opening a file, a write that stops short, a removal that leaves files behind. Reading a
  file that exists does not fail. The sequence numbers are unbounded integers except where a number is
  read digit by digit, which wraps at 64 bits.
\<close>

section \<open>Data\<close>

definition FormatVersion :: string where "FormatVersion = ''journal/v0''"

record journal_ref =
  j_RunID :: string
  j_Seq :: int

abbreviation no_ref :: journal_ref where "no_ref \<equiv> \<lparr>j_RunID = [], j_Seq = 0\<rparr>"

record run_meta =
  rm_FormatVersion :: string
  rm_RunID :: string
  rm_LeaseID :: string
  rm_AgentID :: string
  rm_Purpose :: string
  rm_TargetUDID :: string
  rm_TargetName :: string
  rm_Runtime :: string
  rm_DeviceType :: string
  rm_AppVersions :: "(string \<times> string) list"
  rm_DaemonVersion :: string
  rm_CreatedAt :: instant
  rm_Verdict :: string

text \<open>\<^verbatim>\<open>time.Time{}\<close>, the first of January of year one.\<close>
definition zero_time :: instant where "zero_time = - 62135596800000000000"

definition zero_meta :: run_meta where
  "zero_meta = \<lparr>rm_FormatVersion = [], rm_RunID = [], rm_LeaseID = [], rm_AgentID = [], rm_Purpose = [],
     rm_TargetUDID = [], rm_TargetName = [], rm_Runtime = [], rm_DeviceType = [], rm_AppVersions = [],
     rm_DaemonVersion = [], rm_CreatedAt = zero_time, rm_Verdict = []\<rparr>"

record run_summary =
  rs_RunID :: string
  rs_LastSeq :: int
  rs_UpdatedAt :: instant
  rs_Meta :: run_meta

record artifact_ref =
  ar_Path :: string
  ar_SHA256 :: string
  ar_Bytes :: int

record entry =
  e_Ref :: journal_ref
  e_Kind :: string
  e_Payload :: payload

datatype journal_error =
    InvalidRunID string | ErrRunNotFound | ErrUnknownFormat string | MkdirFailed | MarshalFailed
  | OpenFailed | WriteFailed | BadMeta | InvalidArtifactPath string | RemoveFailed | UploadFailed

text \<open>What the code uses of \<^verbatim>\<open>encoding/json\<close>, \<^verbatim>\<open>time.Format\<close> and \<^verbatim>\<open>crypto/sha256\<close> (in hex).\<close>

record codec =
  marshal :: "entry \<Rightarrow> string option"
  unmarshal :: "string \<Rightarrow> entry option"
  marshal_meta :: "run_meta \<Rightarrow> string option"
  unmarshal_meta :: "string \<Rightarrow> run_meta option"
  format_time :: "instant \<Rightarrow> string"
  sha256_hex :: "string \<Rightarrow> string"

record disk_file =
  fl_data :: string
  fl_mtime :: instant

record run_dir =
  dr_entries :: "disk_file option"
  dr_meta :: "disk_file option"
  dr_has_artifacts :: bool  \<comment> \<open>the artifacts directory exists\<close>
  dr_artifacts :: "(string \<times> disk_file) list"
  dr_mtime :: instant

definition empty_dir :: "instant \<Rightarrow> run_dir" where
  "empty_dir now = \<lparr>dr_entries = None, dr_meta = None, dr_has_artifacts = False, dr_artifacts = [], dr_mtime = now\<rparr>"

text \<open>A watcher's channel: its identity and the entries it buffers.\<close>

record runState =
  nextSeq :: int
  watch :: "(nat \<times> entry list) list"

record file_store =
  fs_runs :: "string \<rightharpoonup> nat"
  fs_states :: "nat \<Rightarrow> runState"
  fs_open :: "string set"
  fs_reclaimed :: "string \<rightharpoonup> int"
  fs_disk :: "string \<rightharpoonup> run_dir"
  fs_fresh :: nat  \<comment> \<open>the next unused address of a run state\<close>
  fs_chan :: nat   \<comment> \<open>the next unused channel\<close>

text \<open>\<^verbatim>\<open>NewFileStore\<close> over what is on disk.\<close>

definition NewFileStore :: "(string \<rightharpoonup> run_dir) \<Rightarrow> file_store" where
  "NewFileStore d = \<lparr>fs_runs = Map.empty, fs_states = (\<lambda>_. \<lparr>nextSeq = 1, watch = []\<rparr>), fs_open = {},
     fs_reclaimed = Map.empty, fs_disk = d, fs_fresh = 0, fs_chan = 0\<rparr>"

section \<open>Lines\<close>

definition runDir :: "string \<Rightarrow> journal_error + string" where
  "runDir runID =
     (if runID = [] \<or> list_ex (\<lambda>c. c \<in> {CHR ''/'', CHR 0x5C}) runID \<or> strings_Contains runID ''..''
      then Inl (InvalidRunID runID) else Inr runID)"

definition maxLineBytes :: nat where "maxLineBytes = 4 * 1024 * 1024"
definition truncPrefixBytes :: nat where "truncPrefixBytes = 4096"
definition readerSize :: nat where "readerSize = 64 * 1024"

abbreviation newline :: char where "newline \<equiv> CHR 0x0A"
abbreviation carriage :: char where "carriage \<equiv> CHR 0x0D"

text \<open>
  \<^verbatim>\<open>bufio.Reader.ReadLine\<close> on the bytes that are left: the part, whether the line goes on, and the
  rest. A part is at most the buffer; one that ends in a carriage return gives it back. At the end of
  the file it answers \<^const>\<open>None\<close>.
\<close>

definition ReadLine :: "string \<Rightarrow> (string \<times> bool \<times> string) option" where
  "ReadLine bs =
     (let line = takeWhile (\<lambda>c. c \<noteq> newline) bs in
      if length line \<ge> readerSize then
        (let part = take readerSize bs in
         if last part = carriage then Some (butlast part, True, carriage # drop readerSize bs)
         else Some (part, True, drop readerSize bs))
      else if bs = [] then None
      else if length line = length bs then Some (line, False, [])
      else Some (if line \<noteq> [] \<and> last line = carriage then butlast line else line, False,
                 drop (Suc (length line)) bs))"

text \<open>The accumulation step of \<^verbatim>\<open>forEachLine\<close>: append a part, or cut the line to its prefix.\<close>

definition add_part :: "string \<Rightarrow> string \<times> bool \<Rightarrow> string \<times> bool" where
  "add_part part acc = (case acc of (buf, tooLong) \<Rightarrow>
     if part \<noteq> [] \<and> \<not> tooLong then
       if length buf + length part > maxLineBytes then
         (if length buf > truncPrefixBytes then take truncPrefixBytes buf
          else if truncPrefixBytes - length buf < length part
            then buf @ take (truncPrefixBytes - length buf) part
          else buf @ part, True)
       else (buf @ part, False)
     else (buf, tooLong))"

lemma ReadLine_shorter: "ReadLine bs = Some (part, isPrefix, rest) \<Longrightarrow> length rest < length bs"
proof -
  assume a: "ReadLine bs = Some (part, isPrefix, rest)"
  have le: "length (takeWhile (\<lambda>c. c \<noteq> newline) bs) \<le> length bs"
    by (rule length_takeWhile_le)
  show ?thesis
    using a le by (auto simp: ReadLine_def Let_def readerSize_def split: if_splits)
qed

text \<open>
  \<^verbatim>\<open>forEachLine\<close>: the lines of a file and whether each was cut, in order. The callbacks of the code see
  one line at a time and may stop early; they are folds over this list.
\<close>

function lines_from :: "string \<times> bool \<Rightarrow> string \<Rightarrow> (string \<times> bool) list" where
  "lines_from acc bs = (case ReadLine bs of
      None \<Rightarrow> (if fst acc \<noteq> [] then [acc] else [])
    | Some (part, isPrefix, rest) \<Rightarrow>
        let acc' = add_part part acc in
        if isPrefix then lines_from acc' rest
        else (if fst acc' \<noteq> [] then [acc'] else []) @ lines_from ([], False) rest)"
  by pat_completeness auto
termination
  by (relation "measure (\<lambda>(acc, bs). length bs)") (auto dest: ReadLine_shorter)

declare lines_from.simps [simp del]

definition forEachLine :: "string \<Rightarrow> (string \<times> bool) list" where
  "forEachLine bs = lines_from ([], False) bs"

text \<open>\<^verbatim>\<open>int64\<close> arithmetic wraps.\<close>
definition wrap64 :: "int \<Rightarrow> int" where
  "wrap64 n = (n + 2 ^ 63) mod 2 ^ 64 - 2 ^ 63"

text \<open>\<^verbatim>\<open>bytes.Index\<close>, answering what follows the first occurrence.\<close>
fun after_first :: "string \<Rightarrow> string \<Rightarrow> string option" where
  "after_first sub [] = (if sub = [] then Some [] else None)"
| "after_first sub (c # cs) =
     (if strings_HasPrefix (c # cs) sub then Some (drop (length sub) (c # cs)) else after_first sub cs)"

fun read_digits :: "int \<Rightarrow> string \<Rightarrow> int" where
  "read_digits n [] = n"
| "read_digits n (c # cs) =
     (if \<not> is_digit c then n else read_digits (wrap64 (n * 10 + int (of_char c - 48))) cs)"

definition seq_key :: string where "seq_key = [CHR 0x22] @ ''seq'' @ [CHR 0x22, CHR '':'']"

definition seqFromPrefix :: "string \<Rightarrow> int" where
  "seqFromPrefix pre = (case after_first seq_key pre of None \<Rightarrow> 0 | Some rest \<Rightarrow> read_digits 0 rest)"

definition line_seq :: "codec \<Rightarrow> string \<times> bool \<Rightarrow> int" where
  "line_seq cd l = (if snd l then seqFromPrefix (fst l)
     else (case unmarshal cd (fst l) of Some e \<Rightarrow> j_Seq (e_Ref e) | None \<Rightarrow> 0))"

definition max_seq :: "int list \<Rightarrow> int" where
  "max_seq ss = fold (\<lambda>s m. if s > m then s else m) ss 0"

text \<open>\<^verbatim>\<open>lastSeq\<close>: the highest number of the file and whether it could be opened.\<close>

definition lastSeq :: "codec \<Rightarrow> disk_file option \<Rightarrow> int \<times> bool" where
  "lastSeq cd f = (case f of
      None \<Rightarrow> (0, False)
    | Some f \<Rightarrow> (max_seq (map (line_seq cd) (forEachLine (fl_data f))), True))"

section \<open>The store\<close>

definition entries_of :: "file_store \<Rightarrow> string \<Rightarrow> disk_file option" where
  "entries_of s d = Option.bind (fs_disk s d) dr_entries"

text \<open>The critical section of \<^verbatim>\<open>state\<close>: the run's object, made and filled from disk when there is none.\<close>

definition state_op :: "codec \<Rightarrow> string \<Rightarrow> file_store \<Rightarrow> (journal_error + nat) \<times> file_store" where
  "state_op cd runID s = (case runDir runID of
      Inl e \<Rightarrow> (Inl e, s)
    | Inr dir \<Rightarrow>
        (case fs_runs s runID of
           Some a \<Rightarrow> (Inr a, s)
         | None \<Rightarrow>
             (let (l, ok) = lastSeq cd (entries_of s dir);
                  n1 = (if l > 0 \<or> ok then l + 1 else 1);
                  hw = (case fs_reclaimed s runID of Some h \<Rightarrow> h | None \<Rightarrow> 0);
                  n2 = (if hw \<ge> n1 then hw + 1 else n1);
                  a = fs_fresh s
              in (Inr a, s\<lparr>fs_runs := (fs_runs s)(runID \<mapsto> a),
                           fs_states := (fs_states s)(a := \<lparr>nextSeq = n2, watch = []\<rparr>),
                           fs_reclaimed := (fs_reclaimed s)(runID := None),
                           fs_fresh := Suc a\<rparr>))))"

definition lastSeqTailWindow :: nat where "lastSeqTailWindow = 64 * 1024"

text \<open>\<^verbatim>\<open>strings.Split(s, "\n")\<close>\<close>
fun split_newline :: "string \<Rightarrow> string \<Rightarrow> string list" where
  "split_newline acc [] = [rev acc]"
| "split_newline acc (c # cs) = (if c = newline then rev acc # split_newline [] cs else split_newline (c # acc) cs)"

definition tail_seq :: "codec \<Rightarrow> string \<Rightarrow> int" where
  "tail_seq cd bs = max_seq (map (\<lambda>l. case unmarshal cd l of Some e \<Rightarrow> j_Seq (e_Ref e) | None \<Rightarrow> 0)
     (split_newline [] (drop (length bs - lastSeqTailWindow) bs)))"

text \<open>\<^verbatim>\<open>lastSeqFast\<close>; \<^const>\<open>None\<close> is the error of a file that does not exist.\<close>

definition lastSeqFast :: "codec \<Rightarrow> file_store \<Rightarrow> string \<Rightarrow> int option" where
  "lastSeqFast cd s runID = (case fs_runs s runID of
      Some a \<Rightarrow> Some (nextSeq (fs_states s a) - 1)
    | None \<Rightarrow>
        (case entries_of s runID of
           None \<Rightarrow> None
         | Some f \<Rightarrow>
             (let l = tail_seq cd (fl_data f) in
              if l > 0 then Some l else Some (fst (lastSeq cd (Some f))))))"

definition LastSeq :: "codec \<Rightarrow> file_store \<Rightarrow> string \<Rightarrow> journal_error + int" where
  "LastSeq cd s runID = bindE (runDir runID) (\<lambda>dir.
     case lastSeqFast cd s runID of Some l \<Rightarrow> Inr l | None \<Rightarrow> Inr 0)"

section \<open>Appending\<close>

text \<open>
  What the operating system answers during one call: \<open>io_write\<close> is the number of bytes written when
  the write fails.
\<close>

record sys_io =
  io_now :: instant
  io_mkdir :: bool
  io_open :: bool
  io_write :: "nat option"

definition mkdir_all :: "string \<Rightarrow> instant \<Rightarrow> file_store \<Rightarrow> file_store" where
  "mkdir_all dir now s = (case fs_disk s dir of
      Some _ \<Rightarrow> s | None \<Rightarrow> s\<lparr>fs_disk := (fs_disk s)(dir \<mapsto> empty_dir now)\<rparr>)"

text \<open>Opening with \<^verbatim>\<open>O_CREATE|O_APPEND\<close> and writing: the file exists afterwards, whatever the write did.\<close>

definition append_bytes :: "string \<Rightarrow> instant \<Rightarrow> string \<Rightarrow> file_store \<Rightarrow> file_store" where
  "append_bytes dir now bs s = (case fs_disk s dir of
      None \<Rightarrow> s
    | Some d \<Rightarrow>
        (let old = (case dr_entries d of Some f \<Rightarrow> fl_data f | None \<Rightarrow> [])
         in s\<lparr>fs_disk := (fs_disk s)(dir \<mapsto> d\<lparr>dr_entries := Some \<lparr>fl_data = old @ bs, fl_mtime = now\<rparr>,
                 dr_mtime := (if dr_entries d = None then now else dr_mtime d)\<rparr>)\<rparr>))"

definition watchBuffer :: nat where "watchBuffer = 64"

text \<open>The sends to the watchers: a full channel loses the entry.\<close>
definition notify :: "entry \<Rightarrow> nat \<times> entry list \<Rightarrow> nat \<times> entry list" where
  "notify e w = (if length (snd w) < watchBuffer then (fst w, snd w @ [e]) else w)"

definition stamp :: "codec \<Rightarrow> instant \<Rightarrow> payload \<Rightarrow> payload" where
  "stamp cd now p = (if map_of p ''ts'' \<noteq> None then p else p @ [(''ts'', JStr (format_time cd now))])"

text \<open>The part of \<^verbatim>\<open>Append\<close> under the run's lock.\<close>

definition append_locked ::
  "codec \<Rightarrow> sys_io \<Rightarrow> nat \<Rightarrow> string \<Rightarrow> string \<Rightarrow> payload \<Rightarrow> file_store \<Rightarrow> (journal_error + journal_ref) \<times> file_store"
where
  "append_locked cd io a runID kind p s =
     (if \<not> io_mkdir io then (Inl MkdirFailed, s)
      else
        (let s1 = mkdir_all runID (io_now io) s;
             st = fs_states s a;
             e = \<lparr>e_Ref = \<lparr>j_RunID = runID, j_Seq = nextSeq st\<rparr>, e_Kind = kind, e_Payload = stamp cd (io_now io) p\<rparr>
         in case marshal cd e of
              None \<Rightarrow> (Inl MarshalFailed, s1)
            | Some line \<Rightarrow>
                if \<not> io_open io then (Inl OpenFailed, s1)
                else (case io_write io of
                        Some k \<Rightarrow> (Inl WriteFailed, append_bytes runID (io_now io) (take k (line @ [newline])) s1)
                      | None \<Rightarrow>
                          (Inr (e_Ref e),
                           (append_bytes runID (io_now io) (line @ [newline]) s1)
                             \<lparr>fs_states := (fs_states s1)(a := \<lparr>nextSeq = nextSeq st + 1, watch = map (notify e) (watch st)\<rparr>)\<rparr>))))"

definition Append ::
  "codec \<Rightarrow> sys_io \<Rightarrow> string \<Rightarrow> string \<Rightarrow> payload \<Rightarrow> file_store \<Rightarrow> (journal_error + journal_ref) \<times> file_store"
where
  "Append cd io runID kind p s = (case state_op cd runID s of
      (Inl e, s1) \<Rightarrow> (Inl e, s1)
    | (Inr a, s1) \<Rightarrow> append_locked cd io a runID kind p s1)"

section \<open>Reading\<close>

definition ReadMeta :: "codec \<Rightarrow> file_store \<Rightarrow> string \<Rightarrow> journal_error + run_meta" where
  "ReadMeta cd s runID = bindE (runDir runID) (\<lambda>dir.
     case Option.bind (fs_disk s dir) dr_meta of
       None \<Rightarrow> (if fs_disk s dir = None then Inl ErrRunNotFound
                else Inr (zero_meta\<lparr>rm_FormatVersion := FormatVersion, rm_RunID := runID\<rparr>))
     | Some f \<Rightarrow> (case unmarshal_meta cd (fl_data f) of None \<Rightarrow> Inl BadMeta | Some m \<Rightarrow> Inr m))"

definition checkFormat :: "codec \<Rightarrow> file_store \<Rightarrow> string \<Rightarrow> journal_error + unit" where
  "checkFormat cd s runID = (case ReadMeta cd s runID of
      Inl ErrRunNotFound \<Rightarrow> Inr ()
    | Inl e \<Rightarrow> Inl e
    | Inr m \<Rightarrow> if rm_FormatVersion m \<noteq> [] \<and> rm_FormatVersion m \<noteq> FormatVersion
              then Inl (ErrUnknownFormat (rm_FormatVersion m)) else Inr ())"

text \<open>The callback of \<^verbatim>\<open>Read\<close>, over the lines, with the entries collected so far.\<close>

fun collect :: "codec \<Rightarrow> int \<Rightarrow> int \<Rightarrow> entry list \<Rightarrow> (string \<times> bool) list \<Rightarrow> entry list" where
  "collect cd fromSeq limit out [] = out"
| "collect cd fromSeq limit out (l # ls) =
     (if snd l then collect cd fromSeq limit out ls
      else (case unmarshal cd (fst l) of
              None \<Rightarrow> collect cd fromSeq limit out ls
            | Some e \<Rightarrow>
                if j_Seq (e_Ref e) < fromSeq then collect cd fromSeq limit out ls
                else if limit \<le> 0 \<or> int (length (out @ [e])) < limit
                  then collect cd fromSeq limit (out @ [e]) ls
                else out @ [e]))"

definition Read :: "codec \<Rightarrow> file_store \<Rightarrow> string \<Rightarrow> int \<Rightarrow> int \<Rightarrow> journal_error + entry list" where
  "Read cd s runID fromSeq limit = bindE (runDir runID) (\<lambda>dir. bindE (checkFormat cd s runID) (\<lambda>_.
     case entries_of s dir of
       None \<Rightarrow> (if fs_disk s dir = None then Inl ErrRunNotFound else Inr [])
     | Some f \<Rightarrow> Inr (collect cd fromSeq limit [] (forEachLine (fl_data f)))))"

definition WriteMeta :: "codec \<Rightarrow> sys_io \<Rightarrow> string \<Rightarrow> run_meta \<Rightarrow> file_store \<Rightarrow> (journal_error + unit) \<times> file_store" where
  "WriteMeta cd io runID m s = (case state_op cd runID s of
      (Inl e, s1) \<Rightarrow> (Inl e, s1)
    | (Inr a, s1) \<Rightarrow>
        if \<not> io_mkdir io then (Inl MkdirFailed, s1)
        else
          (let s2 = mkdir_all runID (io_now io) s1 in
           case marshal_meta cd m of
             None \<Rightarrow> (Inl MarshalFailed, s2)
           | Some raw \<Rightarrow>
               if \<not> io_open io then (Inl OpenFailed, s2)
               else
                 (let put = (\<lambda>bs. s2\<lparr>fs_disk := (fs_disk s2)(runID := map_option
                              (\<lambda>d. d\<lparr>dr_meta := Some \<lparr>fl_data = bs, fl_mtime = io_now io\<rparr>,
                                    dr_mtime := (if dr_meta d = None then io_now io else dr_mtime d)\<rparr>) (fs_disk s2 runID))\<rparr>)
                  in case io_write io of
                       Some k \<Rightarrow> (Inl WriteFailed, put (take k raw))
                     | None \<Rightarrow> (Inr (), put raw))))"

text \<open>\<^verbatim>\<open>List\<close>: \<open>names\<close> is the directory listing; ties of the sort stay in its order.\<close>

definition summary_of :: "codec \<Rightarrow> file_store \<Rightarrow> string \<Rightarrow> run_summary" where
  "summary_of cd s runID =
     \<lparr>rs_RunID = runID,
      rs_LastSeq = (case lastSeqFast cd s runID of Some l \<Rightarrow> l | None \<Rightarrow> 0),
      rs_UpdatedAt = (case fs_disk s runID of
           None \<Rightarrow> zero_time
         | Some d \<Rightarrow> (case dr_entries d of Some f \<Rightarrow> fl_mtime f | None \<Rightarrow> dr_mtime d)),
      rs_Meta = (case ReadMeta cd s runID of Inr m \<Rightarrow> m | Inl _ \<Rightarrow> zero_meta)\<rparr>"

definition List :: "codec \<Rightarrow> file_store \<Rightarrow> string list \<Rightarrow> run_summary list" where
  "List cd s names = sort_key (\<lambda>r. - rs_UpdatedAt r) (map (summary_of cd s) (range_over (fs_disk s) names))"

section \<open>Leases, watchers\<close>

definition MarkOpen :: "string \<Rightarrow> file_store \<Rightarrow> file_store" where
  "MarkOpen runID s = s\<lparr>fs_open := insert runID (fs_open s)\<rparr>"

definition MarkClosed :: "string \<Rightarrow> file_store \<Rightarrow> file_store" where
  "MarkClosed runID s = s\<lparr>fs_open := fs_open s - {runID}\<rparr>"

definition hasWatchers :: "file_store \<Rightarrow> string \<Rightarrow> bool" where
  "hasWatchers s runID = (case fs_runs s runID of None \<Rightarrow> False | Some a \<Rightarrow> watch (fs_states s a) \<noteq> [])"

text \<open>\<^verbatim>\<open>Watch\<close> answers the channel and what its cancel function closes over: the run and its object.\<close>

definition Watch :: "codec \<Rightarrow> string \<Rightarrow> file_store \<Rightarrow> (journal_error + nat \<times> string \<times> nat) \<times> file_store" where
  "Watch cd runID s = (case state_op cd runID s of
      (Inl e, s1) \<Rightarrow> (Inl e, s1)
    | (Inr a, s1) \<Rightarrow>
        (let ch = fs_chan s1; st = fs_states s1 a in
         (Inr (a, runID, ch),
          s1\<lparr>fs_states := (fs_states s1)(a := st\<lparr>watch := watch st @ [(ch, [])]\<rparr>), fs_chan := Suc ch\<rparr>)))"

text \<open>Retiring a run's object: its high-water mark stays in \<^verbatim>\<open>reclaimed\<close>.\<close>

definition retire :: "string \<Rightarrow> nat \<Rightarrow> file_store \<Rightarrow> file_store" where
  "retire runID a s =
     (if fs_runs s runID = Some a \<and> watch (fs_states s a) = [] then
        s\<lparr>fs_reclaimed := (if nextSeq (fs_states s a) > 1
                            then (fs_reclaimed s)(runID \<mapsto> nextSeq (fs_states s a) - 1) else fs_reclaimed s),
          fs_runs := (fs_runs s)(runID := None)\<rparr>
      else s)"

definition cancel :: "nat \<times> string \<times> nat \<Rightarrow> file_store \<Rightarrow> file_store" where
  "cancel w s = (case w of (a, runID, ch) \<Rightarrow>
     let st = fs_states s a;
         left = filter (\<lambda>x. fst x \<noteq> ch) (watch st);
         s1 = s\<lparr>fs_states := (fs_states s)(a := st\<lparr>watch := left\<rparr>)\<rparr>
     in if left \<noteq> [] then s1
        else if fs_disk s1 runID = None then retire runID a s1
        else s1)"

text \<open>A client taking the oldest entry off its channel.\<close>

definition receive :: "nat \<Rightarrow> nat \<Rightarrow> file_store \<Rightarrow> file_store" where
  "receive a ch s = (let st = fs_states s a in
     s\<lparr>fs_states := (fs_states s)(a := st\<lparr>watch := map (\<lambda>w. if fst w = ch then (ch, tl (snd w)) else w) (watch st)\<rparr>)\<rparr>)"

section \<open>Collection\<close>

definition templatesDirName :: string where "templatesDirName = ''templates''"

record gc_config =
  gc_MaxAge :: duration
  gc_MaxBytes :: int

record gc_run =
  g_id :: string
  g_mtime :: instant
  g_bytes :: int

definition files_of :: "run_dir \<Rightarrow> disk_file list" where
  "files_of d = (case dr_entries d of Some f \<Rightarrow> [f] | None \<Rightarrow> []) @
                (case dr_meta d of Some f \<Rightarrow> [f] | None \<Rightarrow> []) @ map snd (dr_artifacts d)"

definition newest :: "disk_file list \<Rightarrow> instant" where
  "newest fs = fold (\<lambda>f m. if fl_mtime f > m then fl_mtime f else m) fs zero_time"

definition measure_run :: "instant \<Rightarrow> string \<Rightarrow> run_dir \<Rightarrow> gc_run" where
  "measure_run now i d =
     \<lparr>g_id = i,
      g_mtime = (let m = newest (files_of d) in if m = zero_time then now else m),
      g_bytes = sum_list (map (\<lambda>f. int (length (fl_data f))) (files_of d))\<rparr>"

definition gc_runs :: "instant \<Rightarrow> file_store \<Rightarrow> string list \<Rightarrow> gc_run list" where
  "gc_runs now s names = sort_key g_mtime
     (map (\<lambda>n. measure_run now n (the (fs_disk s n)))
        (filter (\<lambda>n. n \<noteq> templatesDirName) (range_over (fs_disk s) names)))"

definition protected_run :: "file_store \<Rightarrow> string \<Rightarrow> bool" where
  "protected_run s i \<longleftrightarrow> i \<in> fs_open s \<or> hasWatchers s i"

text \<open>
  The removal of one run. \<open>rm\<close> answers for \<^verbatim>\<open>os.RemoveAll\<close>: \<^const>\<open>None\<close> removes the directory, \<open>Some d\<close>
  fails and leaves \<open>d\<close>.
\<close>

definition gc_remove :: "(string \<Rightarrow> run_dir option) \<Rightarrow> string \<Rightarrow> file_store \<Rightarrow> bool \<times> file_store" where
  "gc_remove rm i s = (case rm i of
      Some d \<Rightarrow> (False, s\<lparr>fs_disk := (fs_disk s)(i \<mapsto> d)\<rparr>)
    | None \<Rightarrow>
        (let s1 = s\<lparr>fs_disk := (fs_disk s)(i := None)\<rparr> in
         (True, case fs_runs s i of None \<Rightarrow> s1 | Some a \<Rightarrow> retire i a s1)))"

definition gc_due :: "gc_config \<Rightarrow> instant \<Rightarrow> int \<Rightarrow> gc_run \<Rightarrow> bool" where
  "gc_due cfg now tot r \<longleftrightarrow>
     gc_MaxAge cfg > 0 \<and> now - g_mtime r > gc_MaxAge cfg \<or> gc_MaxBytes cfg > 0 \<and> tot > gc_MaxBytes cfg"

text \<open>The sweep: what was removed, the error that stopped it, and the store.\<close>

fun gc_loop ::
  "gc_config \<Rightarrow> instant \<Rightarrow> (string \<Rightarrow> run_dir option) \<Rightarrow> int \<Rightarrow> gc_run list \<Rightarrow> file_store
     \<Rightarrow> string list \<times> journal_error option \<times> file_store"
where
  "gc_loop cfg now rm tot [] s = ([], None, s)"
| "gc_loop cfg now rm tot (r # rs) s =
     (if \<not> gc_due cfg now tot r then gc_loop cfg now rm tot rs s
      else if protected_run s (g_id r) then gc_loop cfg now rm tot rs s
      else (case gc_remove rm (g_id r) s of
              (False, s1) \<Rightarrow> ([], Some RemoveFailed, s1)
            | (True, s1) \<Rightarrow>
                (case gc_loop cfg now rm (tot - g_bytes r) rs s1 of
                   (removed, err, s2) \<Rightarrow> (g_id r # removed, err, s2))))"

definition GC ::
  "gc_config \<Rightarrow> instant \<Rightarrow> (string \<Rightarrow> run_dir option) \<Rightarrow> string list \<Rightarrow> file_store
     \<Rightarrow> string list \<times> journal_error option \<times> file_store"
where
  "GC cfg now rm names s =
     (let runs = gc_runs now s names in gc_loop cfg now rm (sum_list (map g_bytes runs)) runs s)"

section \<open>Artifacts\<close>

text \<open>
  \<^verbatim>\<open>filepath.Clean\<close> of a path: elements are taken left to right, \<^verbatim>\<open>.\<close> and empty ones are dropped, \<^verbatim>\<open>..\<close>
  drops the element before it unless that is \<^verbatim>\<open>..\<close> or there is none.
\<close>

fun split_slash :: "string \<Rightarrow> string \<Rightarrow> string list" where
  "split_slash acc [] = [rev acc]"
| "split_slash acc (c # cs) = (if c = CHR ''/'' then rev acc # split_slash [] cs else split_slash (c # acc) cs)"

fun clean_elems :: "bool \<Rightarrow> string list \<Rightarrow> string list \<Rightarrow> string list" where
  "clean_elems rooted out [] = rev out"
| "clean_elems rooted out (x # xs) =
     (if x = [] \<or> x = ''.'' then clean_elems rooted out xs
      else if x = ''..'' then
        (if out \<noteq> [] \<and> hd out \<noteq> ''..'' then clean_elems rooted (tl out) xs
         else if rooted then clean_elems rooted out xs
         else clean_elems rooted (x # out) xs)
      else clean_elems rooted (x # out) xs)"

definition filepath_Clean :: "string \<Rightarrow> string" where
  "filepath_Clean p =
     (let rooted = strings_HasPrefix p ''/''; es = clean_elems rooted [] (split_slash [] p) in
      if rooted then CHR ''/'' # strings_Join es ''/''
      else if es = [] then ''.'' else strings_Join es ''/'')"

text \<open>\<^verbatim>\<open>filepath.Base\<close> and \<^verbatim>\<open>filepath.Ext\<close>\<close>

definition filepath_Base :: "string \<Rightarrow> string" where
  "filepath_Base p =
     (if p = [] then ''.''
      else (let q = rev (dropWhile (\<lambda>c. c = CHR ''/'') (rev p));
                b = rev (takeWhile (\<lambda>c. c \<noteq> CHR ''/'') (rev q))
            in if b = [] then ''/'' else b))"

definition filepath_Ext :: "string \<Rightarrow> string" where
  "filepath_Ext p =
     (let r = rev p; e = takeWhile (\<lambda>c. c \<noteq> CHR ''.'' \<and> c \<noteq> CHR ''/'') r; rest = drop (length e) r in
      if rest \<noteq> [] \<and> hd rest = CHR ''.'' then CHR ''.'' # rev e else [])"

definition safeExt :: "string \<Rightarrow> string" where
  "safeExt name = (let ext = ToLower (filepath_Ext (filepath_Base name)) in
     if length ext < 2 \<or> length ext > 16 then []
     else if \<not> list_all (\<lambda>c. is_lower c \<or> is_digit c) (tl ext) then []
     else ext)"

abbreviation artifactsDir :: string where "artifactsDir \<equiv> ''artifacts''"

definition mkdir_artifacts :: "string \<Rightarrow> instant \<Rightarrow> file_store \<Rightarrow> file_store" where
  "mkdir_artifacts dir now s =
     (let s1 = mkdir_all dir now s in
      s1\<lparr>fs_disk := (fs_disk s1)(dir := map_option
           (\<lambda>d. if dr_has_artifacts d then d else d\<lparr>dr_has_artifacts := True, dr_mtime := now\<rparr>) (fs_disk s1 dir))\<rparr>)"

text \<open>
  \<^verbatim>\<open>PutArtifact\<close>. The upload goes to a temporary file that is gone at the end; \<open>io_open\<close> and \<open>io_write\<close>
  answer for it, \<open>io_rename\<close> for the final rename.
\<close>

definition PutArtifact ::
  "codec \<Rightarrow> sys_io \<Rightarrow> bool \<Rightarrow> string \<Rightarrow> string \<Rightarrow> string \<Rightarrow> file_store
     \<Rightarrow> (journal_error + artifact_ref) \<times> file_store"
where
  "PutArtifact cd io io_rename runID name data s = (case state_op cd runID s of
      (Inl e, s1) \<Rightarrow> (Inl e, s1)
    | (Inr a, s1) \<Rightarrow>
        if \<not> io_mkdir io then (Inl MkdirFailed, s1)
        else
          (let s2 = mkdir_artifacts runID (io_now io) s1 in
           if \<not> io_open io then (Inl OpenFailed, s2)
           else if io_write io \<noteq> None then (Inl UploadFailed, s2)
           else
             (let sum = sha256_hex cd data; fname = sum @ safeExt name;
                  ref = \<lparr>ar_Path = artifactsDir @ ''/'' @ fname, ar_SHA256 = sum, ar_Bytes = int (length data)\<rparr>
              in case fs_disk s2 runID of
                   None \<Rightarrow> (Inl UploadFailed, s2)
                 | Some d \<Rightarrow>
                     if map_of (dr_artifacts d) fname \<noteq> None then (Inr ref, s2)
                     else if \<not> io_rename then (Inl UploadFailed, s2)
                     else (Inr ref, s2\<lparr>fs_disk := (fs_disk s2)(runID \<mapsto>
                            d\<lparr>dr_artifacts := (fname, \<lparr>fl_data = data, fl_mtime = io_now io\<rparr>) # dr_artifacts d\<rparr>)\<rparr>))))"

definition OpenArtifact :: "file_store \<Rightarrow> string \<Rightarrow> string \<Rightarrow> journal_error + string" where
  "OpenArtifact s runID relPath = bindE (runDir runID) (\<lambda>dir.
     let c = filepath_Clean relPath in
     if c \<noteq> relPath \<and> c @ ''/'' \<noteq> relPath then Inl (InvalidArtifactPath relPath)
     else if \<not> strings_HasPrefix c (artifactsDir @ ''/'') then Inl (InvalidArtifactPath relPath)
     else (case Option.bind (fs_disk s dir) (\<lambda>d. map_of (dr_artifacts d) (drop (length (artifactsDir @ ''/'')) c)) of
             None \<Rightarrow> Inl ErrRunNotFound
           | Some f \<Rightarrow> Inr (fl_data f)))"

section \<open>The recorder\<close>

definition StartRun :: "lease \<Rightarrow> target option \<Rightarrow> string \<Rightarrow> codec \<Rightarrow> sys_io \<Rightarrow> file_store \<Rightarrow> file_store" where
  "StartRun l tgt daemonVersion cd io s =
     (let m = zero_meta\<lparr>rm_FormatVersion := FormatVersion, rm_RunID := l_ID l, rm_LeaseID := l_ID l,
                rm_AgentID := l_AgentID l, rm_Purpose := l_Purpose l, rm_DaemonVersion := daemonVersion,
                rm_CreatedAt := l_CreatedAt l\<rparr>;
          m2 = (case tgt of None \<Rightarrow> m
                | Some t \<Rightarrow> m\<lparr>rm_TargetUDID := t_UDID t, rm_TargetName := t_Name t,
                              rm_Runtime := t_Runtime t, rm_DeviceType := t_DeviceType t\<rparr>)
      in snd (WriteMeta cd io (l_ID l) m2 s))"

record event =
  ev_Kind :: string
  ev_LeaseID :: string
  ev_AgentID :: string
  ev_Action :: string
  ev_Params :: payload
  ev_Status :: string
  ev_Error :: string
  ev_AXBefore :: string
  ev_AXAfter :: string
  ev_Artifacts :: "artifact_ref list"
  ev_Extra :: payload

text \<open>Assignment to a key of a payload.\<close>

definition pset :: "string \<Rightarrow> json \<Rightarrow> payload \<Rightarrow> payload" where
  "pset k v p = filter (\<lambda>x. fst x \<noteq> k) p @ [(k, v)]"

definition pset_if :: "bool \<Rightarrow> string \<Rightarrow> json \<Rightarrow> payload \<Rightarrow> payload" where
  "pset_if b k v p = (if b then pset k v p else p)"

definition artifact_json :: "artifact_ref \<Rightarrow> json" where
  "artifact_json a = JObj [(''path'', JStr (ar_Path a)), (''sha256'', JStr (ar_SHA256 a)), (''bytes'', JNum (of_int (ar_Bytes a)))]"

definition event_payload :: "event \<Rightarrow> payload" where
  "event_payload ev =
     fold (\<lambda>(k, v). pset k v) (ev_Extra ev)
       (pset_if (ev_Artifacts ev \<noteq> []) ''artifacts'' (JArr (map artifact_json (ev_Artifacts ev)))
       (pset_if (ev_AXAfter ev \<noteq> []) ''ax_after'' (JStr (ev_AXAfter ev))
       (pset_if (ev_AXBefore ev \<noteq> []) ''ax_before'' (JStr (ev_AXBefore ev))
       (pset_if (ev_Error ev \<noteq> []) ''error'' (JStr (ev_Error ev))
       (pset_if (ev_Params ev \<noteq> []) ''params'' (JObj (ev_Params ev))
       (pset_if (ev_AgentID ev \<noteq> []) ''agent_id'' (JStr (ev_AgentID ev))
       [(''lease_id'', JStr (ev_LeaseID ev)), (''action'', JStr (ev_Action ev)), (''status'', JStr (ev_Status ev))]))))))"

definition Record :: "codec \<Rightarrow> sys_io \<Rightarrow> event \<Rightarrow> file_store \<Rightarrow> journal_ref \<times> file_store" where
  "Record cd io ev s =
     (if ev_LeaseID ev = [] then (no_ref, s)
      else (case Append cd io (ev_LeaseID ev) (if ev_Kind ev = [] then ''action'' else ev_Kind ev) (event_payload ev) s of
              (Inl _, s1) \<Rightarrow> (no_ref, s1)
            | (Inr r, s1) \<Rightarrow> (r, s1)))"

end
