(* ===== verification/Mz_JournalLines.thy ===== *)
theory Mz_JournalLines
  imports Mz_Journal
begin

text \<open>
  Lemmas on the line reader of the journal: it reads the same lines whatever the size of its buffer, a
  file that ends in a newline can be read in two halves, an appended line is the one line it adds, and
  the number of a line that was too long to keep is found in its prefix.
\<close>

lemma takeWhile_newline_append [simp]:
  "newline \<in> set f \<Longrightarrow> takeWhile (\<lambda>c. c \<noteq> newline) (f @ x) = takeWhile (\<lambda>c. c \<noteq> newline) f"
  by (rule takeWhile_append1 [of newline]) auto

lemma takeWhile_newline_less:
  "newline \<in> set f \<Longrightarrow> length (takeWhile (\<lambda>c. c \<noteq> newline) f) < length f"
  by (induction f) auto

definition line_ended :: "string \<Rightarrow> bool" where
  "line_ended f \<longleftrightarrow> f = [] \<or> last f = newline"

lemma line_ended_drop: "line_ended f \<Longrightarrow> line_ended (drop n f)"
  by (cases "n < length f") (auto simp: line_ended_def last_drop)

lemma line_ended_snoc [simp]: "line_ended (f @ l @ [newline])" "line_ended []"
  by (auto simp: line_ended_def)

lemma ReadLine_append:
  assumes "line_ended f" "f \<noteq> []"
  shows "\<exists>part isPrefix rest. ReadLine f = Some (part, isPrefix, rest) \<and> line_ended rest \<and>
    (isPrefix \<longrightarrow> rest \<noteq> []) \<and> ReadLine (f @ x) = Some (part, isPrefix, rest @ x)"
proof -
  let ?line = "takeWhile (\<lambda>c. c \<noteq> newline) f"
  have mem: "newline \<in> set f"
    using assms by (metis last_in_set line_ended_def)
  have less: "length ?line < length f" by (rule takeWhile_newline_less [OF mem])
  show ?thesis
  proof (cases "length ?line \<ge> readerSize")
    case True
    then have le: "readerSize < length f" using less by simp
    then have "line_ended (drop readerSize f)" "drop readerSize f \<noteq> []"
      using assms(1) by (auto intro: line_ended_drop)
    then show ?thesis
      using True le mem by (auto simp: ReadLine_def Let_def line_ended_def)
  next
    case False
    have "line_ended (drop (Suc (length ?line)) f)"
      using assms(1) by (rule line_ended_drop)
    then show ?thesis
      using False less mem assms(2) by (auto simp: ReadLine_def Let_def)
  qed
qed

lemma lines_from_append:
  "line_ended f \<Longrightarrow> f \<noteq> [] \<Longrightarrow> lines_from acc (f @ x) = lines_from acc f @ lines_from ([], False) x"
proof (induction acc f rule: lines_from.induct)
  case (1 acc f)
  obtain part isPrefix rest where
    r: "ReadLine f = Some (part, isPrefix, rest)" "line_ended rest" "isPrefix \<longrightarrow> rest \<noteq> []"
       "ReadLine (f @ x) = Some (part, isPrefix, rest @ x)"
    using ReadLine_append [OF 1(3,4)] by blast
  have nil: "lines_from ([], False) [] = []"
    by (simp add: lines_from.simps ReadLine_def readerSize_def)
  show ?case
  proof (cases isPrefix)
    case True
    then have "lines_from (add_part part acc) (rest @ x) = lines_from (add_part part acc) rest @ lines_from ([], False) x"
      using 1(1) [OF r(1) refl refl refl] r(2,3) by simp
    then show ?thesis
      using True r(1,4) by (simp add: lines_from.simps [of acc f] lines_from.simps [of acc "f @ x"] Let_def)
  next
    case False
    have "lines_from ([], False) (rest @ x) = lines_from ([], False) rest @ lines_from ([], False) x"
      using 1(2) [OF r(1) refl refl refl] False r(2) nil by (cases "rest = []") simp_all
    then show ?thesis
      using False r(1,4) by (simp add: lines_from.simps [of acc f] lines_from.simps [of acc "f @ x"] Let_def)
  qed
qed

lemma forEachLine_append:
  "line_ended f \<Longrightarrow> forEachLine (f @ x) = forEachLine f @ forEachLine x"
proof (cases "f = []")
  case True
  then show ?thesis by (simp add: forEachLine_def lines_from.simps [of _ "[]"] ReadLine_def readerSize_def)
qed (simp add: forEachLine_def lines_from_append)

section \<open>One line\<close>

text \<open>What the accumulator holds after a prefix of a line.\<close>

definition cut_line :: "string \<Rightarrow> string \<times> bool" where
  "cut_line l = (if length l \<le> maxLineBytes then (l, False) else (take truncPrefixBytes l, True))"

lemma limits: "truncPrefixBytes < maxLineBytes" "2 \<le> readerSize"
  by (simp_all add: truncPrefixBytes_def maxLineBytes_def readerSize_def)

lemma add_part_cut: "add_part p (cut_line l) = cut_line (l @ p)"
proof (cases "length l \<le> maxLineBytes")
  case True
  then show ?thesis
    using limits(1) by (auto simp: add_part_def cut_line_def)
next
  case False
  then show ?thesis
    using limits(1) by (auto simp: add_part_def cut_line_def)
qed

lemma cut_line_Nil: "cut_line [] = ([], False)"
  by (simp add: cut_line_def)

lemma lines_from_line:
  assumes "newline \<notin> set l" "carriage \<notin> set l"
  shows "lines_from (cut_line q) (l @ newline # x) =
    (if q @ l = [] then [] else [cut_line (q @ l)]) @ lines_from ([], False) x"
  using assms
proof (induction "length l" arbitrary: l q rule: less_induct)
  case less
  let ?bs = "l @ newline # x"
  have tw: "takeWhile (\<lambda>c. c \<noteq> newline) ?bs = l"
    using less.prems(1) by (simp add: takeWhile_append)
  have ne: "fst (cut_line y) = [] \<longleftrightarrow> y = []" for y
    using limits(1) by (auto simp: cut_line_def truncPrefixBytes_def)
  show ?case
  proof (cases "length l \<ge> readerSize")
    case True
    let ?p = "take readerSize l" and ?r = "drop readerSize l"
    have p: "?p \<noteq> []" "last ?p \<noteq> carriage"
    proof -
      show "?p \<noteq> []" using True limits(2) by auto
      then have "last ?p \<in> set ?p" by (rule last_in_set)
      then show "last ?p \<noteq> carriage" using less.prems(2) in_set_takeD by metis
    qed
    have rl: "ReadLine ?bs = Some (?p, True, ?r @ newline # x)"
      using True p tw by (simp add: ReadLine_def Let_def)
    have smaller: "length ?r < length l" using True limits(2) by simp
    have "newline \<notin> set ?r" "carriage \<notin> set ?r"
      using less.prems by (auto dest: in_set_dropD)
    from less.hyps [OF smaller this, of "q @ ?p"]
    have "lines_from (cut_line (q @ ?p)) (?r @ newline # x) =
      (if q @ l = [] then [] else [cut_line (q @ l)]) @ lines_from ([], False) x" by auto
    then show ?thesis
      using rl by (simp add: lines_from.simps [of _ ?bs] add_part_cut)
  next
    case False
    have lc: "l \<noteq> [] \<longrightarrow> last l \<noteq> carriage" using less.prems(2) by (metis last_in_set)
    have rl: "ReadLine ?bs = Some (l, False, x)"
      using False lc tw by (auto simp: ReadLine_def Let_def)
    show ?thesis
      using rl by (auto simp: lines_from.simps [of _ ?bs] add_part_cut ne)
  qed
qed

lemma forEachLine_line:
  assumes "newline \<notin> set l" "carriage \<notin> set l" "l \<noteq> []"
  shows "forEachLine (l @ [newline]) = [cut_line l]"
proof -
  have nil: "lines_from ([], False) [] = []"
    by (simp add: lines_from.simps ReadLine_def readerSize_def)
  show ?thesis
    using lines_from_line [OF assms(1,2), of "[]" "[]"] assms(3) nil by (simp add: forEachLine_def cut_line_Nil)
qed

section \<open>Numbers of lines\<close>

lemma max_seq_append: "max_seq (xs @ [x]) = max (max_seq xs) x"
  by (simp add: max_seq_def max_def)

lemma max_seq_nonneg [simp]: "0 \<le> max_seq xs"
  by (induction xs rule: rev_induct) (auto simp: max_seq_append, simp add: max_seq_def)

lemma after_first_at:
  assumes "\<not> strings_Contains a sub" "a \<noteq> [] \<Longrightarrow> last a \<notin> set sub"
  shows "after_first sub (a @ sub @ b) = Some b"
  using assms
proof (induction a)
  case Nil
  have pre: "strings_HasPrefix (sub @ b) sub" by (auto simp: strings_HasPrefix_iff)
  show ?case
  proof (cases "sub @ b")
    case (Cons c cs)
    then have "after_first sub (sub @ b) = Some (drop (length sub) (sub @ b))" using pre by simp
    then show ?thesis by simp
  qed simp
next
  case (Cons c a)
  have no: "\<not> strings_HasPrefix (c # a @ sub @ b) sub"
  proof
    assume "strings_HasPrefix (c # a @ sub @ b) sub"
    then obtain r where r: "(c # a) @ sub @ b = sub @ r"
      by (auto simp: strings_HasPrefix_iff)
    show False
    proof (cases "length sub \<le> length (c # a)")
      case True
      then have "take (length sub) (c # a) = sub"
        using r by (metis append_eq_append_conv_if)
      then have "c # a = [] @ sub @ drop (length sub) (c # a)"
        by (metis append_Nil append_take_drop_id)
      then have "strings_Contains (c # a) sub"
        unfolding strings_Contains_iff by blast
      with Cons.prems(1) show False by simp
    next
      case False
      then have "c # a = take (length (c # a)) sub"
        using r by (metis append_eq_append_conv_if nat_le_linear)
      then have "set (c # a) \<subseteq> set sub" by (metis set_take_subset)
      with Cons.prems(2) show False by (metis last_in_set list.distinct(1) subsetD)
    qed
  qed
  have "after_first sub (a @ sub @ b) = Some b"
    by (rule Cons.IH) (use Cons.prems in \<open>auto split: if_splits\<close>)
  with no show ?case by simp
qed

lemma digit_char: "n < 10 \<Longrightarrow> is_digit (char_of (48 + n :: nat)) \<and> of_char (char_of (48 + n :: nat)) = 48 + n"
  by (simp add: is_digit_def)

lemma wrap64_id: "0 \<le> n \<Longrightarrow> n < 2 ^ 63 \<Longrightarrow> wrap64 n = n"
  by (simp add: wrap64_def)

lemma read_digits_dec:
  "int n < 2 ^ 63 \<Longrightarrow> read_digits 0 (dec_nat n @ r) = read_digits (int n) r"
proof (induction n arbitrary: r rule: less_induct)
  case (less n)
  show ?case
  proof (cases "n < 10")
    case True
    then show ?thesis
      using digit_char [OF True] less.prems by (simp add: dec_nat.simps [of n] wrap64_id)
  next
    case False
    have m: "n mod 10 < 10" by simp
    have d: "n div 10 < n" using False by simp
    have b: "int (n div 10) < 2 ^ 63" using less.prems by linarith
    have "read_digits 0 (dec_nat n @ r) = read_digits 0 (dec_nat (n div 10) @ char_of (48 + n mod 10) # r)"
      using False by (subst dec_nat.simps) simp
    also have "\<dots> = read_digits (int (n div 10)) (char_of (48 + n mod 10) # r)"
      by (rule less.IH [OF d b])
    also have "\<dots> = read_digits (wrap64 (int (n div 10) * 10 + int (n mod 10))) r"
      using digit_char [OF m] by simp
    also have "int (n div 10) * 10 + int (n mod 10) = int n"
      by presburger
    finally show ?thesis using less.prems by (simp add: wrap64_id)
  qed
qed

end
