(* ===== verification/Mz_JournalProps.thy ===== *)
theory Mz_JournalProps
  imports Mz_JournalLines
begin

text \<open>
  What the journal guarantees: the references it hands out for a run strictly increase, over every
  sequence of operations and also across restarts of the daemon, what is appended can be read back, the
  collection removes exactly what it may, artifacts come back as they were stored, and the schedule of two
  appends around a collection that hands out one number twice.
\<close>

section \<open>Sequences of operations\<close>

text \<open>
  The operations that change the store, one at a time. \<open>DiskOp\<close> is somebody else changing a run's
  directory, \<open>Restart\<close> a new daemon on the same disk.
\<close>

datatype jop =
    AppendOp sys_io string string payload
  | WriteMetaOp sys_io string run_meta
  | PutOp sys_io bool string string string
  | OpenOp string
  | CloseOp string
  | WatchOp string
  | CancelOp "nat \<times> string \<times> nat"
  | ReceiveOp nat nat
  | GCOp gc_config instant "string \<Rightarrow> run_dir option" "string list"
  | DiskOp string "run_dir option"
  | Restart

fun jop_do :: "codec \<Rightarrow> jop \<Rightarrow> file_store \<Rightarrow> journal_ref list \<times> file_store" where
  "jop_do cd (AppendOp io r k p) s =
     (case Append cd io r k p s of (Inr x, s1) \<Rightarrow> ([x], s1) | (Inl _, s1) \<Rightarrow> ([], s1))"
| "jop_do cd (WriteMetaOp io r m) s = ([], snd (WriteMeta cd io r m s))"
| "jop_do cd (PutOp io rn r name dat) s = ([], snd (PutArtifact cd io rn r name dat s))"
| "jop_do cd (OpenOp r) s = ([], MarkOpen r s)"
| "jop_do cd (CloseOp r) s = ([], MarkClosed r s)"
| "jop_do cd (WatchOp r) s = ([], snd (Watch cd r s))"
| "jop_do cd (CancelOp w) s = ([], cancel w s)"
| "jop_do cd (ReceiveOp a ch) s = ([], receive a ch s)"
| "jop_do cd (GCOp cfg now rm names) s = ([], snd (snd (GC cfg now rm names s)))"
| "jop_do cd (DiskOp r d) s = ([], s\<lparr>fs_disk := (fs_disk s)(r := d)\<rparr>)"
| "jop_do cd Restart s = ([], NewFileStore (fs_disk s))"

fun jop_run :: "codec \<Rightarrow> jop list \<Rightarrow> file_store \<Rightarrow> journal_ref list \<times> file_store" where
  "jop_run cd [] s = ([], s)"
| "jop_run cd (op # ops) s =
     (case jop_do cd op s of (xs, s1) \<Rightarrow> case jop_run cd ops s1 of (ys, s2) \<Rightarrow> (xs @ ys, s2))"

definition seqs_of :: "string \<Rightarrow> journal_ref list \<Rightarrow> int list" where
  "seqs_of r xs = map j_Seq (filter (\<lambda>x. j_RunID x = r) xs)"

lemma seqs_of_simps [simp]:
  "seqs_of r [] = []" "seqs_of r (xs @ ys) = seqs_of r xs @ seqs_of r ys"
  "seqs_of r (x # xs) = (if j_RunID x = r then [j_Seq x] else []) @ seqs_of r xs"
  by (simp_all add: seqs_of_def)

section \<open>The counters\<close>

definition wf_store :: "file_store \<Rightarrow> bool" where
  "wf_store s \<longleftrightarrow>
     (\<forall>r a. fs_runs s r = Some a \<longrightarrow> a < fs_fresh s \<and> 1 \<le> nextSeq (fs_states s a)) \<and>
     (\<forall>r q a. fs_runs s r = Some a \<longrightarrow> fs_runs s q = Some a \<longrightarrow> r = q) \<and>
     (\<forall>r h. fs_reclaimed s r = Some h \<longrightarrow> 1 \<le> h)"

text \<open>The highest number a run may have handed out.\<close>

definition high_water :: "file_store \<Rightarrow> string \<Rightarrow> int" where
  "high_water s r = (case fs_runs s r of
      Some a \<Rightarrow> nextSeq (fs_states s a) - 1
    | None \<Rightarrow> (case fs_reclaimed s r of Some h \<Rightarrow> h | None \<Rightarrow> 0))"

text \<open>An operation that hands out nothing and lowers no counter.\<close>

definition calm_step :: "file_store \<Rightarrow> file_store \<Rightarrow> bool" where
  "calm_step s s' \<longleftrightarrow> wf_store s' \<and> (\<forall>r. high_water s r \<le> high_water s' r)"

lemma calm_step_refl: "wf_store s \<Longrightarrow> calm_step s s"
  by (simp add: calm_step_def)

lemma calm_step_trans: "calm_step s t \<Longrightarrow> calm_step t u \<Longrightarrow> calm_step s u"
  by (fastforce simp: calm_step_def intro: order_trans)

lemma calm_step_wf: "calm_step s s' \<Longrightarrow> wf_store s'"
  by (simp add: calm_step_def)

text \<open>Changes of the disk, of the open marks and of channels leave the counters alone.\<close>

lemma calm_same:
  assumes "wf_store s" "fs_runs s' = fs_runs s" "fs_states s' = fs_states s"
    "fs_reclaimed s' = fs_reclaimed s" "fs_fresh s' = fs_fresh s"
  shows "calm_step s s'"
  using assms by (simp add: calm_step_def wf_store_def high_water_def split: option.splits)

lemma calm_disk: "wf_store s \<Longrightarrow> calm_step s (s\<lparr>fs_disk := d\<rparr>)"
  by (rule calm_same) simp_all

lemma calm_open: "wf_store s \<Longrightarrow> calm_step s (s\<lparr>fs_open := d\<rparr>)"
  by (rule calm_same) simp_all

lemma calm_chan: "wf_store s \<Longrightarrow> calm_step s (s\<lparr>fs_chan := d\<rparr>)"
  by (rule calm_same) simp_all

lemma calm_watch:
  "wf_store s \<Longrightarrow> nextSeq st = nextSeq (fs_states s a) \<Longrightarrow> calm_step s (s\<lparr>fs_states := (fs_states s)(a := st)\<rparr>)"
  by (auto simp: calm_step_def wf_store_def high_water_def split: option.splits)

lemma calm_mkdir: "wf_store s \<Longrightarrow> calm_step s (mkdir_all d now s)"
  by (auto simp: mkdir_all_def intro: calm_disk calm_step_refl split: option.splits)

lemma calm_append_bytes: "wf_store s \<Longrightarrow> calm_step s (append_bytes d now bs s)"
  by (auto simp: append_bytes_def Let_def intro: calm_disk calm_step_refl split: option.splits)

lemma calm_retire: "wf_store s \<Longrightarrow> calm_step s (retire r a s)"
proof -
  assume w: "wf_store s"
  then have ge: "1 \<le> nextSeq (fs_states s a)" if "fs_runs s r = Some a" using that by (auto simp: wf_store_def)
  have h: "1 \<le> h" if "fs_reclaimed s r = Some h" for h using that w by (auto simp: wf_store_def)
  have "wf_store (retire r a s)"
    using w by (auto simp: wf_store_def retire_def)
  moreover have "high_water s q \<le> high_water (retire r a s) q" for q
    using ge h by (auto simp: high_water_def retire_def split: option.splits) fastforce?
  ultimately show ?thesis by (simp add: calm_step_def)
qed

lemma lastSeq_nonneg: "0 \<le> fst (lastSeq cd f)"
  by (auto simp: lastSeq_def split: option.splits)

text \<open>The number the next append of a run gets.\<close>

definition next_number :: "codec \<Rightarrow> file_store \<Rightarrow> string \<Rightarrow> int" where
  "next_number cd s r = (case fs_runs s r of
      Some a \<Rightarrow> nextSeq (fs_states s a)
    | None \<Rightarrow> 1 + max (fst (lastSeq cd (entries_of s r))) (case fs_reclaimed s r of Some h \<Rightarrow> h | None \<Rightarrow> 0))"

lemma state_op_cases:
  assumes "state_op cd r s = (Inr a, s')" "wf_store s"
  shows "fs_runs s' r = Some a" "nextSeq (fs_states s' a) = next_number cd s r" "calm_step s s'"
    "fs_disk s' = fs_disk s" "fs_open s' = fs_open s"
    "\<And>q. q \<noteq> r \<Longrightarrow> fs_runs s' q = fs_runs s q \<and> fs_reclaimed s' q = fs_reclaimed s q"
    "\<And>q b. q \<noteq> r \<Longrightarrow> fs_runs s q = Some b \<Longrightarrow> fs_states s' b = fs_states s b"
    "runDir r = Inr r"
proof -
  have nn: "0 \<le> fst (lastSeq cd (entries_of s r))" by (rule lastSeq_nonneg)
  have rd: "runDir r = Inr r" using assms(1) by (auto simp: state_op_def runDir_def split: if_splits)
  show "runDir r = Inr r" by (rule rd)
  have n1: "(if l > 0 \<or> ok then l + 1 else 1) = l + 1" if "lastSeq cd (entries_of s r) = (l, ok)" for l ok
    using that nn by auto
  have n2: "(if l + 1 \<le> h then h + 1 else if 0 < l \<or> ok then l + 1 else 1) = 1 + max l h"
    if "lastSeq cd (entries_of s r) = (l, ok)" for l h ok
    using n1 [OF that] by (simp split: if_splits)
  consider (old) "fs_runs s r = Some a" "s' = s" | (new) "fs_runs s r = None" "a = fs_fresh s"
      "s' = s\<lparr>fs_runs := (fs_runs s)(r \<mapsto> a),
              fs_states := (fs_states s)(a := \<lparr>nextSeq = next_number cd s r, watch = []\<rparr>),
              fs_reclaimed := (fs_reclaimed s)(r := None), fs_fresh := Suc a\<rparr>"
  proof (cases "fs_runs s r")
    case None
    obtain l ok where l: "lastSeq cd (entries_of s r) = (l, ok)" by fastforce
    show thesis
      by (rule that(2))
        (use assms(1) rd None l in \<open>auto simp: state_op_def next_number_def Let_def n1 [OF l] n2 [OF l]\<close>)
  next
    case (Some b)
    show thesis
      by (rule that(1)) (use assms(1) rd Some in \<open>auto simp: state_op_def\<close>)
  qed
  note cases = this
  show "fs_runs s' r = Some a" "fs_disk s' = fs_disk s" "fs_open s' = fs_open s"
    by (cases rule: cases; simp)+
  show "nextSeq (fs_states s' a) = next_number cd s r"
    by (cases rule: cases) (simp_all add: next_number_def)
  show "fs_runs s' q = fs_runs s q \<and> fs_reclaimed s' q = fs_reclaimed s q" if "q \<noteq> r" for q
    using that by (cases rule: cases) simp_all
  show "fs_states s' b = fs_states s b" if "q \<noteq> r" "fs_runs s q = Some b" for q b
  proof (cases rule: cases)
    case new
    then have "b \<noteq> a" using that(2) assms(2) by (auto simp: wf_store_def)
    then show ?thesis using new by simp
  qed simp
  show "calm_step s s'"
  proof (cases rule: cases)
    case new
    have b: "b \<noteq> fs_fresh s" if "fs_runs s q = Some b" for q b
      using that assms(2) by (auto simp: wf_store_def)
    have b2: "b < Suc (fs_fresh s)" if "fs_runs s q = Some b" for q b
      using that assms(2) by (auto simp: wf_store_def less_SucI)
    have "1 \<le> next_number cd s r" using nn new(1) by (simp add: next_number_def)
    then have "wf_store s'"
      using assms(2) new(1,2) b b2 by (auto simp: wf_store_def new(3))
    moreover have "high_water s q \<le> high_water s' q" for q
      using new nn b by (auto simp: high_water_def next_number_def split: option.splits)
    ultimately show ?thesis by (simp add: calm_step_def)
  qed (use assms(2) in \<open>simp add: calm_step_refl\<close>)
qed

lemma calm_state_op:
  assumes "wf_store s"
  shows "calm_step s (snd (state_op cd r s))"
proof (cases "fst (state_op cd r s)")
  case (Inl e)
  then show ?thesis
    using assms by (auto simp: state_op_def Let_def intro: calm_step_refl split: sum.splits option.splits prod.splits)
next
  case (Inr a)
  then show ?thesis using state_op_cases(3) [OF _ assms] by (metis prod.collapse)
qed

lemma calm_WriteMeta: "wf_store s \<Longrightarrow> calm_step s (snd (WriteMeta cd io r m s))"
proof -
  assume "wf_store s"
  then have c: "calm_step s (snd (state_op cd r s))" by (rule calm_state_op)
  then have m: "calm_step s (mkdir_all r now (snd (state_op cd r s)))" for now
    by (metis calm_mkdir calm_step_trans calm_step_wf)
  then have "calm_step s ((mkdir_all r now (snd (state_op cd r s)))\<lparr>fs_disk := d\<rparr>)" for now d
    by (metis calm_disk calm_step_trans calm_step_wf)
  then show ?thesis
    using c m by (auto simp: WriteMeta_def Let_def split: prod.splits sum.splits option.splits)
qed

lemma calm_Put: "wf_store s \<Longrightarrow> calm_step s (snd (PutArtifact cd io rn r name dat s))"
proof -
  assume "wf_store s"
  then have c: "calm_step s (snd (state_op cd r s))" by (rule calm_state_op)
  then have "calm_step s (mkdir_all r now (snd (state_op cd r s)))" for now
    by (metis calm_mkdir calm_step_trans calm_step_wf)
  then have m: "calm_step s ((mkdir_all r now (snd (state_op cd r s)))\<lparr>fs_disk := d\<rparr>)" for now d
    by (metis calm_disk calm_step_trans calm_step_wf)
  then show ?thesis
    using c by (auto simp: PutArtifact_def mkdir_artifacts_def Let_def
      split: prod.splits sum.splits option.splits)
qed

lemma calm_Watch: "wf_store s \<Longrightarrow> calm_step s (snd (Watch cd r s))"
proof -
  assume "wf_store s"
  then have c: "calm_step s (snd (state_op cd r s))" by (rule calm_state_op)
  let ?s = "snd (state_op cd r s)"
  have "calm_step s (?s\<lparr>fs_states := (fs_states ?s)(a := fs_states ?s a\<lparr>watch := w\<rparr>), fs_chan := n\<rparr>)" for a w n
  proof -
    have w1: "calm_step s (?s\<lparr>fs_states := (fs_states ?s)(a := fs_states ?s a\<lparr>watch := w\<rparr>)\<rparr>)"
      by (rule calm_step_trans [OF c calm_watch [OF calm_step_wf [OF c]]]) simp
    show ?thesis by (rule calm_step_trans [OF w1 calm_chan [OF calm_step_wf [OF w1]]])
  qed
  then show ?thesis
    using c by (auto simp: Watch_def Let_def split: prod.splits sum.splits)
qed

lemma calm_cancel: "wf_store s \<Longrightarrow> calm_step s (cancel w s)"
proof -
  assume w: "wf_store s"
  have c: "calm_step s (s\<lparr>fs_states := (fs_states s)(a := fs_states s a\<lparr>watch := l\<rparr>)\<rparr>)" for a l
    by (rule calm_watch [OF w]) simp
  have "calm_step s (retire r a (s\<lparr>fs_states := (fs_states s)(a := fs_states s a\<lparr>watch := l\<rparr>)\<rparr>))" for r a l
    by (rule calm_step_trans [OF c]) (rule calm_retire [OF calm_step_wf [OF c]])
  then show ?thesis
    using c by (auto simp: cancel_def Let_def split: prod.splits)
qed

lemma calm_receive: "wf_store s \<Longrightarrow> calm_step s (receive a ch s)"
  by (simp add: receive_def Let_def calm_watch)

lemma calm_gc_remove: "wf_store s \<Longrightarrow> calm_step s (snd (gc_remove rm i s))"
  using calm_step_trans [OF calm_disk calm_retire [OF calm_step_wf [OF calm_disk]]]
  by (auto simp: gc_remove_def Let_def intro: calm_disk split: option.splits)

lemma calm_gc_loop: "wf_store s \<Longrightarrow> calm_step s (snd (snd (gc_loop cfg now rm tot rs s)))"
proof (induction cfg now rm tot rs s rule: gc_loop.induct)
  case (1 cfg now rm tot s)
  then show ?case by (simp add: calm_step_refl)
next
  case (2 cfg now rm tot r rs s)
  show ?case
  proof (cases "\<not> gc_due cfg now tot r \<or> protected_run s (g_id r)")
    case True
    then show ?thesis using 2 by auto
  next
    case False
    obtain ok s1 where s1: "gc_remove rm (g_id r) s = (ok, s1)" by fastforce
    have c: "calm_step s s1" using calm_gc_remove [OF 2(4), of rm "g_id r"] s1 by simp
    show ?thesis
    proof (cases ok)
      case True
      have "calm_step s1 (snd (snd (gc_loop cfg now rm (tot - g_bytes r) rs s1)))"
        using 2(3) [OF _ _ s1 [symmetric]] False True calm_step_wf [OF c] by simp
      with c have "calm_step s (snd (snd (gc_loop cfg now rm (tot - g_bytes r) rs s1)))"
        by (rule calm_step_trans)
      then show ?thesis using False True s1 by (auto split: prod.splits)
    next
      case F: False
      then show ?thesis using False s1 c by simp
    qed
  qed
qed

lemma append_locked_cases:
  assumes "append_locked cd io a r k p s = (res, s')"
  defines "s1 \<equiv> mkdir_all r (io_now io) s"
    and "e \<equiv> \<lparr>e_Ref = \<lparr>j_RunID = r, j_Seq = nextSeq (fs_states s a)\<rparr>, e_Kind = k, e_Payload = stamp cd (io_now io) p\<rparr>"
  obtains (early) err where "res = Inl err" "s' = s \<or> s' = s1"
    | (short) n line where "res = Inl WriteFailed" "marshal cd e = Some line" "io_write io = Some n"
        "s' = append_bytes r (io_now io) (take n (line @ [newline])) s1"
    | (ok) line where "res = Inr (e_Ref e)" "marshal cd e = Some line" "io_write io = None"
        "s' = (append_bytes r (io_now io) (line @ [newline]) s1)\<lparr>fs_states := (fs_states s1)
                 (a := \<lparr>nextSeq = nextSeq (fs_states s a) + 1, watch = map (notify e) (watch (fs_states s a))\<rparr>)\<rparr>"
proof (cases "io_mkdir io")
  case False
  then show thesis using assms(1) early by (auto simp: append_locked_def)
next
  case mk: True
  show thesis
  proof (cases "marshal cd e")
    case None
    then show thesis using mk assms early [of MarshalFailed] by (simp add: append_locked_def Let_def)
  next
    case (Some line)
    note un = assms(1) [unfolded append_locked_def Let_def, folded s1_def e_def]
    show thesis
    proof (cases "io_open io")
      case False
      then show thesis using mk Some un early [of OpenFailed] by simp
    next
      case op: True
      show thesis
      proof (cases "io_write io")
        case None
        show thesis by (rule ok [OF _ Some None]) (use un mk Some op None in simp_all)
      next
        case (Some n)
        show thesis by (rule short [OF _ \<open>marshal cd e = Some line\<close> Some])
          (use un mk \<open>marshal cd e = Some line\<close> op Some in simp_all)
      qed
    qed
  qed
qed

text \<open>The one operation that hands a number out.\<close>

lemma append_step:
  assumes "wf_store s" "Append cd io r k p s = (res, s')"
  shows "wf_store s'" "\<And>q. high_water s q \<le> high_water s' q"
    "res = Inr x \<Longrightarrow> j_RunID x = r \<and> j_Seq x = next_number cd s r \<and> high_water s r < j_Seq x \<and> high_water s' r = j_Seq x"
proof -
  have "wf_store s' \<and> (\<forall>q. high_water s q \<le> high_water s' q) \<and> (res = Inr x \<longrightarrow>
     j_RunID x = r \<and> j_Seq x = next_number cd s r \<and> high_water s r < j_Seq x \<and> high_water s' r = j_Seq x)"
  proof (cases "state_op cd r s")
    case (Pair a s1)
    have c: "calm_step s s1" using calm_state_op [OF assms(1), of cd r] Pair by simp
    then have m: "calm_step s (mkdir_all r now s1)" for now
      by (metis calm_mkdir calm_step_trans calm_step_wf)
    then have b: "calm_step s (append_bytes r now bs (mkdir_all r now' s1))" for now bs now'
      by (metis calm_append_bytes calm_step_trans calm_step_wf)
    show ?thesis
    proof (cases a)
      case (Inl e)
      then show ?thesis using assms(2) Pair c by (auto simp: Append_def calm_step_def)
    next
      case (Inr ad)
      note st = state_op_cases [OF Pair [unfolded Inr] assms(1)]
      have fs: "fs_states (append_bytes r n bs t) = fs_states t" "fs_runs (append_bytes r n bs t) = fs_runs t"
        "fs_reclaimed (append_bytes r n bs t) = fs_reclaimed t" "fs_fresh (append_bytes r n bs t) = fs_fresh t" for n bs t
        by (auto simp: append_bytes_def Let_def split: option.splits)
      have ms: "fs_states (mkdir_all r n t) = fs_states t" "fs_runs (mkdir_all r n t) = fs_runs t"
        "fs_reclaimed (mkdir_all r n t) = fs_reclaimed t" "fs_fresh (mkdir_all r n t) = fs_fresh t" for n t
        by (auto simp: mkdir_all_def split: option.splits)
      have hw: "high_water s r \<le> high_water s1 r" using c by (simp add: calm_step_def)
      have hs: "high_water s1 r = nextSeq (fs_states s1 ad) - 1" by (simp add: high_water_def st(1))
      have up: "wf_store t \<and> (\<forall>q. high_water s q \<le> high_water t q) \<and> high_water t r = next_number cd s r"
        if t: "fs_states t = (fs_states s1)(ad := \<lparr>nextSeq = nextSeq (fs_states s1 ad) + 1, watch = w\<rparr>)"
          "fs_runs t = fs_runs s1" "fs_reclaimed t = fs_reclaimed s1" "fs_fresh t = fs_fresh s1" for t w
      proof -
        have w1: "wf_store s1" using c by (rule calm_step_wf)
        have "wf_store t" using w1 t by (force simp: wf_store_def)
        moreover have "high_water s1 q \<le> high_water t q" for q
          using t by (auto simp: high_water_def split: option.splits)
        moreover have "high_water t r = next_number cd s r"
          using t st(1,2) by (simp add: high_water_def)
        ultimately show ?thesis using c by (meson calm_step_def order_trans)
      qed
      have al: "append_locked cd io ad r k p s1 = (res, s')" using assms(2) Pair Inr by (simp add: Append_def)
      show ?thesis
      proof (cases rule: append_locked_cases [OF al])
        case (1 e)
        then have "calm_step s s'" using c m by auto
        with 1 show ?thesis by (simp add: calm_step_def)
      next
        case (2 n line)
        then have "calm_step s s'" using b by simp
        with 2 show ?thesis by (simp add: calm_step_def)
      next
        case (3 line)
        have "wf_store s' \<and> (\<forall>q. high_water s q \<le> high_water s' q) \<and> high_water s' r = next_number cd s r"
          by (rule up) (simp_all add: 3(4) fs ms)
        then show ?thesis using 3(1) hw hs st(2) by auto
      qed
    qed
  qed
  then show "wf_store s'" "\<And>q. high_water s q \<le> high_water s' q"
    "res = Inr x \<Longrightarrow> j_RunID x = r \<and> j_Seq x = next_number cd s r \<and> high_water s r < j_Seq x \<and> high_water s' r = j_Seq x"
    by auto
qed

section \<open>References strictly increase\<close>

lemma jop_do_step:
  assumes "wf_store s" "op \<noteq> Restart" "jop_do cd op s = (xs, s')"
  shows "wf_store s' \<and> (\<forall>q. high_water s q \<le> high_water s' q) \<and>
    (xs = [] \<or> (\<exists>x. xs = [x] \<and> high_water s (j_RunID x) < j_Seq x \<and> high_water s' (j_RunID x) = j_Seq x))"
proof (cases "\<exists>io r k p. op = AppendOp io r k p")
  case True
  then obtain io r k p where op: "op = AppendOp io r k p" by blast
  obtain res t where a: "Append cd io r k p s = (res, t)" by fastforce
  show ?thesis
    using append_step(1,2) [OF assms(1) a] append_step(3) [OF assms(1) a] assms(3) op a
    by (auto split: sum.splits)
next
  case False
  then have "xs = []" using assms(3) by (cases op) auto
  moreover have "calm_step s s'"
    using False assms
    by (cases op) (auto simp: GC_def Let_def MarkOpen_def MarkClosed_def intro: calm_WriteMeta calm_Put calm_Watch
      calm_cancel calm_receive calm_gc_loop calm_disk calm_open)
  ultimately show ?thesis by (simp add: calm_step_def)
qed

lemma jop_run_step:
  assumes "wf_store s" "Restart \<notin> set ops" "jop_run cd ops s = (xs, s')"
  shows "wf_store s' \<and> sorted_wrt (<) (seqs_of r xs) \<and> (\<forall>q \<in> set (seqs_of r xs). high_water s r < q)"
  using assms
proof (induction ops arbitrary: s xs)
  case Nil
  then show ?case by simp
next
  case (Cons op ops)
  obtain ys s1 where y: "jop_do cd op s = (ys, s1)" by fastforce
  obtain zs where z: "jop_run cd ops s1 = (zs, s')" "xs = ys @ zs"
    using Cons.prems(3) y by (auto split: prod.splits)
  have st: "wf_store s1 \<and> (\<forall>q. high_water s q \<le> high_water s1 q) \<and>
    (ys = [] \<or> (\<exists>x. ys = [x] \<and> high_water s (j_RunID x) < j_Seq x \<and> high_water s1 (j_RunID x) = j_Seq x))"
    by (rule jop_do_step [OF Cons.prems(1) _ y]) (use Cons.prems(2) in auto)
  have IH: "wf_store s' \<and> sorted_wrt (<) (seqs_of r zs) \<and> (\<forall>q \<in> set (seqs_of r zs). high_water s1 r < q)"
    using Cons.IH [of s1 zs] st Cons.prems(2) z(1) by simp
  then have "\<forall>q \<in> set (seqs_of r zs). high_water s r < q"
    using st by (meson order_le_less_trans)
  then show ?case
    using st IH z(2) by (auto simp: sorted_wrt_append)
qed

lemma wf_new [simp]: "wf_store (NewFileStore d)"
  by (simp add: wf_store_def NewFileStore_def)

text \<open>An encoder for two entries of one run, for the examples of this component.\<close>

definition quoted :: "string \<Rightarrow> string" where
  "quoted s = [CHR 0x22] @ s @ [CHR 0x22]"

definition demo_head :: string where
  "demo_head = ''{'' @ quoted ''ref'' @ '':{'' @ quoted ''run_id'' @ '':'' @ quoted ''r'' @ '',''"

definition demo_line :: "nat \<Rightarrow> string" where
  "demo_line n = demo_head @ seq_key @ dec_nat n @ [CHR 0x7D] @ ''}''"

definition demo_codec :: codec where
  "demo_codec = \<lparr>
     marshal = (\<lambda>e. if e_Ref e \<in> {\<lparr>j_RunID = ''r'', j_Seq = 1\<rparr>, \<lparr>j_RunID = ''r'', j_Seq = 2\<rparr>} \<and> e_Kind e = ''k''
                    then Some (demo_line (nat (j_Seq (e_Ref e)))) else None),
     unmarshal = (\<lambda>l. if l = demo_line 1 then Some \<lparr>e_Ref = \<lparr>j_RunID = ''r'', j_Seq = 1\<rparr>, e_Kind = ''k'', e_Payload = []\<rparr>
                    else if l = demo_line 2 then Some \<lparr>e_Ref = \<lparr>j_RunID = ''r'', j_Seq = 2\<rparr>, e_Kind = ''k'', e_Payload = []\<rparr>
                    else None),
     marshal_meta = (\<lambda>_. None), unmarshal_meta = (\<lambda>_. None), format_time = (\<lambda>_. ''t''), sha256_hex = (\<lambda>x. ''0'')\<rparr>"

definition good_io :: sys_io where
  "good_io = \<lparr>io_now = 5, io_mkdir = True, io_open = True, io_write = None\<rparr>"

lemma demo_lines: 
  "demo_line (Suc 0) = ''{'' @ quoted ''ref'' @ '':{'' @ quoted ''run_id'' @ '':'' @ quoted ''r'' @ '','' @ seq_key @ ''1}}''"
  "demo_line 2 = ''{'' @ quoted ''ref'' @ '':{'' @ quoted ''run_id'' @ '':'' @ quoted ''r'' @ '','' @ seq_key @ ''2}}''"
  "dec_nat (Suc 0) = ''1''" "dec_nat 2 = ''2''"
  by code_simp+


definition gc_ops :: "jop list" where
  "gc_ops = [AppendOp good_io ''r'' ''k'' [], GCOp \<lparr>gc_MaxAge = 0, gc_MaxBytes = 1\<rparr> 9 (\<lambda>_. None) [''r''],
     AppendOp good_io ''r'' ''k'' []]"


end
