(* ===== verification/Mz_JournalDisk.thy ===== *)
theory Mz_JournalDisk
  imports Mz_JournalProps
begin

text \<open>
  The journal and its disk: references keep increasing across restarts of the daemon, what was appended is
  read back in order, and the collection removes exactly the runs its bounds name and spares live ones.
\<close>

section \<open>What the encoders promise\<close>

text \<open>
  \<^verbatim>\<open>json.Marshal\<close> escapes control characters, so that a line has no newline and no carriage return.
\<close>
definition plain_lines :: "codec \<Rightarrow> bool" where
  "plain_lines cd \<longleftrightarrow> (\<forall>e l. marshal cd e = Some l \<longrightarrow> newline \<notin> set l \<and> carriage \<notin> set l \<and> l \<noteq> [])"

text \<open>Decoding an encoded entry gives its reference and kind back.\<close>
definition decodes :: "codec \<Rightarrow> bool" where
  "decodes cd \<longleftrightarrow> (\<forall>e l. marshal cd e = Some l \<longrightarrow>
     (\<exists>e'. unmarshal cd l = Some e' \<and> e_Ref e' = e_Ref e \<and> e_Kind e' = e_Kind e))"

text \<open>
  Fields are encoded in the order of the struct: the reference comes first, the quotes inside the run's
  name are escaped, and an escaped byte takes at most six.
\<close>
definition ref_first :: "codec \<Rightarrow> bool" where
  "ref_first cd \<longleftrightarrow> (\<forall>e l. marshal cd e = Some l \<longrightarrow> 0 \<le> j_Seq (e_Ref e) \<longrightarrow>
     (\<exists>h b. l = h @ seq_key @ dec_nat (nat (j_Seq (e_Ref e))) @ [CHR 0x7D] @ b \<and>
       \<not> strings_Contains h seq_key \<and> h \<noteq> [] \<and> last h = CHR '','' \<and>
       length h \<le> 20 + 6 * length (j_RunID (e_Ref e))))"

lemma length_dec_nat: "0 < k \<Longrightarrow> n < 10 ^ k \<Longrightarrow> length (dec_nat n) \<le> k"
proof (induction k arbitrary: n)
  case (Suc k)
  show ?case
  proof (cases "n < 10")
    case False
    then have k: "0 < k" using Suc.prems(2) by (cases k) auto
    have "n div 10 < 10 ^ k" using Suc.prems(2) by (simp add: div_less_iff_less_mult mult.commute)
    then have "length (dec_nat (n div 10)) \<le> k" by (rule Suc.IH [OF k])
    then show ?thesis using False by (subst dec_nat.simps) simp
  qed (simp add: dec_nat.simps [of n])
qed simp

text \<open>The number of a line survives the cut of lines that are too long.\<close>

lemma line_seq_marshal:
  assumes "marshal cd e = Some l" "decodes cd" "ref_first cd"
    "0 \<le> j_Seq (e_Ref e)" "j_Seq (e_Ref e) < 2 ^ 63" "length (j_RunID (e_Ref e)) \<le> 255"
  shows "line_seq cd (cut_line l) = j_Seq (e_Ref e)"
proof (cases "length l \<le> maxLineBytes")
  case True
  then show ?thesis using assms(1,2) by (force simp: line_seq_def cut_line_def decodes_def)
next
  case False
  let ?n = "nat (j_Seq (e_Ref e))"
  obtain h b where hb: "l = h @ seq_key @ dec_nat ?n @ [CHR 0x7D] @ b" "\<not> strings_Contains h seq_key"
      "h \<noteq> []" "last h = CHR '',''" "length h \<le> 20 + 6 * length (j_RunID (e_Ref e))"
    using assms(1,3,4) unfolding ref_first_def by blast
  have "?n < 10 ^ 19" using assms(5) by simp
  then have dl: "length (dec_nat ?n) \<le> 19" by (rule length_dec_nat [rotated]) simp
  have "length (h @ seq_key @ dec_nat ?n @ [CHR 0x7D]) \<le> truncPrefixBytes"
    using hb(5) assms(6) dl by (simp add: truncPrefixBytes_def seq_key_def)
  then have tk: "take truncPrefixBytes l = h @ seq_key @ dec_nat ?n @ CHR 0x7D #
      take (truncPrefixBytes - length (h @ seq_key @ dec_nat ?n @ [CHR 0x7D])) b"
    using take_append [of truncPrefixBytes "h @ seq_key @ dec_nat ?n @ [CHR 0x7D]" b] hb(1) by simp
  have "last h \<notin> set seq_key" using hb(4) by (simp add: seq_key_def)
  then have af: "after_first seq_key (take truncPrefixBytes l) = Some (dec_nat ?n @ CHR 0x7D #
      take (truncPrefixBytes - length (h @ seq_key @ dec_nat ?n @ [CHR 0x7D])) b)"
    unfolding tk by (intro after_first_at hb(2)) simp
  have "read_digits 0 (dec_nat ?n @ CHR 0x7D # r) = int ?n" for r
    using assms(4,5) by (subst read_digits_dec) (simp_all add: is_digit_def)
  with af show ?thesis
    using False assms(4) by (simp add: line_seq_def cut_line_def seqFromPrefix_def)
qed

section \<open>Restarts\<close>

definition entries_data :: "file_store \<Rightarrow> string \<Rightarrow> string" where
  "entries_data s r = (case entries_of s r of Some f \<Rightarrow> fl_data f | None \<Rightarrow> [])"

lemma next_same:
  assumes "fs_runs t = fs_runs s" "\<And>a. nextSeq (fs_states t a) = nextSeq (fs_states s a)"
    "fs_reclaimed t = fs_reclaimed s" "entries_of t r = entries_of s r"
  shows "next_number cd t r = next_number cd s r"
  using assms by (simp add: next_number_def split: option.splits)

lemma next_state_op:
  assumes "wf_store s"
  shows "next_number cd (snd (state_op cd q s)) r = next_number cd s r"
    "fs_disk (snd (state_op cd q s)) = fs_disk s"
proof -
  have "next_number cd (snd (state_op cd q s)) r = next_number cd s r \<and> fs_disk (snd (state_op cd q s)) = fs_disk s"
  proof (cases "fst (state_op cd q s)")
    case (Inl e)
    then show ?thesis
      by (auto simp: state_op_def Let_def split: sum.splits option.splits prod.splits)
  next
    case (Inr a)
    then have so: "state_op cd q s = (Inr a, snd (state_op cd q s))" by (metis prod.collapse)
    note c = state_op_cases [OF so assms]
    show ?thesis
    proof (cases "r = q")
      case True
      then show ?thesis using c(1,2,4) by (simp add: next_number_def)
    next
      case False
      then show ?thesis
        using c(4) c(6) [OF False] c(7) [OF False]
        by (auto simp: next_number_def entries_of_def split: option.splits)
    qed
  qed
  then show "next_number cd (snd (state_op cd q s)) r = next_number cd s r"
    "fs_disk (snd (state_op cd q s)) = fs_disk s" by auto
qed

lemma entries_mkdir [simp]: "entries_of (mkdir_all q now s) r = entries_of s r"
  by (auto simp: entries_of_def mkdir_all_def empty_dir_def split: option.splits)

lemma mkdir_fields [simp]:
  "fs_runs (mkdir_all q now s) = fs_runs s" "fs_states (mkdir_all q now s) = fs_states s"
  "fs_reclaimed (mkdir_all q now s) = fs_reclaimed s" "fs_fresh (mkdir_all q now s) = fs_fresh s"
  "fs_open (mkdir_all q now s) = fs_open s"
  by (auto simp: mkdir_all_def split: option.splits)

text \<open>A step that leaves the run's entries alone and does not lower its next number.\<close>

definition quiet_step :: "codec \<Rightarrow> string \<Rightarrow> file_store \<Rightarrow> file_store \<Rightarrow> bool" where
  "quiet_step cd r s s' \<longleftrightarrow> entries_of s' r = entries_of s r \<and> next_number cd s r \<le> next_number cd s' r"

lemma quiet_trans: "quiet_step cd r s t \<Longrightarrow> quiet_step cd r t u \<Longrightarrow> quiet_step cd r s u"
  by (auto simp: quiet_step_def)

lemma quiet_same:
  assumes "fs_runs t = fs_runs s" "\<And>a. nextSeq (fs_states t a) = nextSeq (fs_states s a)"
    "fs_reclaimed t = fs_reclaimed s" "entries_of t r = entries_of s r"
  shows "quiet_step cd r s t"
  using next_same [OF assms] assms(4) by (simp add: quiet_step_def)

lemma quiet_state_op: "wf_store s \<Longrightarrow> quiet_step cd r s (snd (state_op cd q s))"
  by (simp add: quiet_step_def next_state_op entries_of_def)

lemma quiet_after_state_op:
  assumes "wf_store s" "fs_runs t = fs_runs (snd (state_op cd q s))"
    "\<And>a. nextSeq (fs_states t a) = nextSeq (fs_states (snd (state_op cd q s)) a)"
    "fs_reclaimed t = fs_reclaimed (snd (state_op cd q s))" "entries_of t r = entries_of s r"
  shows "quiet_step cd r s t"
proof (rule quiet_trans [OF quiet_state_op [OF assms(1)]])
  show "quiet_step cd r (snd (state_op cd q s)) t"
    by (rule quiet_same) (use assms next_state_op(2) [OF assms(1)] in \<open>simp_all add: entries_of_def\<close>)
qed

lemma entries_upd:
  "entries_of (s\<lparr>fs_disk := (fs_disk s)(q := d)\<rparr>) r = (if r = q then Option.bind d dr_entries else entries_of s r)"
  by (simp add: entries_of_def)

lemma entries_state_op [simp]: "wf_store s \<Longrightarrow> entries_of (snd (state_op cd q s)) r = entries_of s r"
  by (simp add: entries_of_def next_state_op)

lemma WriteMeta_frame:
  defines "s1 \<equiv> \<lambda>cd q s. snd (state_op cd q s)"
  shows "fs_runs (snd (WriteMeta cd io q m s)) = fs_runs (s1 cd q s)"
    "fs_states (snd (WriteMeta cd io q m s)) = fs_states (s1 cd q s)"
    "fs_reclaimed (snd (WriteMeta cd io q m s)) = fs_reclaimed (s1 cd q s)"
    "entries_of (snd (WriteMeta cd io q m s)) r = entries_of (s1 cd q s) r"
proof -
  obtain x t where x: "state_op cd q s = (x, t)" by fastforce
  have e: "Option.bind (map_option (\<lambda>d. d\<lparr>dr_meta := mt, dr_mtime := g d\<rparr>) (fs_disk u q)) dr_entries = entries_of u q" for u mt g
    by (cases "fs_disk u q") (simp_all add: entries_of_def)
  show "fs_runs (snd (WriteMeta cd io q m s)) = fs_runs (s1 cd q s)"
    "fs_states (snd (WriteMeta cd io q m s)) = fs_states (s1 cd q s)"
    "fs_reclaimed (snd (WriteMeta cd io q m s)) = fs_reclaimed (s1 cd q s)"
    using x by (auto simp: WriteMeta_def s1_def Let_def split: sum.splits option.splits)
  show "entries_of (snd (WriteMeta cd io q m s)) r = entries_of (s1 cd q s) r"
    using x by (auto simp: WriteMeta_def s1_def Let_def entries_upd e split: sum.splits option.splits)
qed

lemma quiet_WriteMeta: "wf_store s \<Longrightarrow> quiet_step cd r s (snd (WriteMeta cd io q m s))"
  by (rule quiet_after_state_op) (simp_all add: WriteMeta_frame)

lemma Put_frame:
  defines "s1 \<equiv> \<lambda>cd q s. snd (state_op cd q s)"
  shows "fs_runs (snd (PutArtifact cd io rn q name dat s)) = fs_runs (s1 cd q s)"
    "fs_states (snd (PutArtifact cd io rn q name dat s)) = fs_states (s1 cd q s)"
    "fs_reclaimed (snd (PutArtifact cd io rn q name dat s)) = fs_reclaimed (s1 cd q s)"
    "entries_of (snd (PutArtifact cd io rn q name dat s)) r = entries_of (s1 cd q s) r"
proof -
  obtain x t where x: "state_op cd q s = (x, t)" by fastforce
  have m: "fs_runs (mkdir_artifacts q now u) = fs_runs u" "fs_states (mkdir_artifacts q now u) = fs_states u"
    "fs_reclaimed (mkdir_artifacts q now u) = fs_reclaimed u" for now u
    by (simp_all add: mkdir_artifacts_def Let_def)
  have em: "entries_of (mkdir_artifacts q now u) r = entries_of u r" for now u
    by (cases "fs_disk u q")
      (auto simp: entries_of_def mkdir_artifacts_def mkdir_all_def empty_dir_def Let_def split: option.splits)
  have e: "entries_of (u\<lparr>fs_disk := (fs_disk u)(q \<mapsto> d\<lparr>dr_artifacts := l\<rparr>)\<rparr>) r = entries_of u r" if "fs_disk u q = Some d" for u d l
    using that by (simp add: entries_of_def)
  show "fs_runs (snd (PutArtifact cd io rn q name dat s)) = fs_runs (s1 cd q s)"
    "fs_states (snd (PutArtifact cd io rn q name dat s)) = fs_states (s1 cd q s)"
    "fs_reclaimed (snd (PutArtifact cd io rn q name dat s)) = fs_reclaimed (s1 cd q s)"
    using x by (auto simp: PutArtifact_def s1_def Let_def m split: sum.splits option.splits)
  show "entries_of (snd (PutArtifact cd io rn q name dat s)) r = entries_of (s1 cd q s) r"
    using x by (auto simp: PutArtifact_def s1_def Let_def em e split: sum.splits option.splits)
qed

lemma quiet_Put: "wf_store s \<Longrightarrow> quiet_step cd r s (snd (PutArtifact cd io rn q name dat s))"
  by (rule quiet_after_state_op) (simp_all add: Put_frame)

lemma quiet_Watch:
  assumes "wf_store s"
  shows "quiet_step cd r s (snd (Watch cd q s))"
proof -
  obtain x t where x: "state_op cd q s = (x, t)" by fastforce
  have "entries_of t r = entries_of s r" using entries_state_op [OF assms, of cd q r] x by simp
  then show ?thesis
    by (intro quiet_after_state_op [OF assms, of _ cd q])
      (use x in \<open>auto simp: Watch_def Let_def entries_of_def split: sum.splits\<close>)
qed

lemma quiet_retire: "wf_store s \<Longrightarrow> quiet_step cd r s (retire q a s)"
  using lastSeq_nonneg [of cd "entries_of s r"]
  by (auto simp: quiet_step_def retire_def next_number_def entries_of_def wf_store_def split: option.splits)

lemma quiet_cancel:
  assumes "wf_store s"
  shows "quiet_step cd r s (cancel w s)"
proof -
  obtain a q ch where w: "w = (a, q, ch)" by (cases w) auto
  let ?t = "\<lambda>l. s\<lparr>fs_states := (fs_states s)(a := fs_states s a\<lparr>watch := l\<rparr>)\<rparr>"
  have t: "quiet_step cd r s (?t l)" for l
    by (rule quiet_same) (simp_all add: entries_of_def)
  have "wf_store (?t l)" for l
    using calm_step_wf [OF calm_watch [OF assms]] by simp
  then have "quiet_step cd r s (retire q a (?t l))" for l
    using t quiet_retire quiet_trans by blast
  then show ?thesis using t w by (auto simp: cancel_def Let_def)
qed

lemma quiet_gc_loop:
  assumes "wf_store s" "r \<notin> set (fst (gc_loop cfg now rm tot rs s))" "rm r = None"
  shows "quiet_step cd r s (snd (snd (gc_loop cfg now rm tot rs s)))"
  using assms
proof (induction cfg now rm tot rs s rule: gc_loop.induct)
  case (1 cfg now rm tot s)
  then show ?case by (simp add: quiet_step_def)
next
  case (2 cfg now rm tot g rs s)
  show ?case
  proof (cases "\<not> gc_due cfg now tot g \<or> protected_run s (g_id g)")
    case True
    then show ?thesis using 2 by auto
  next
    case False
    obtain ok s1 where s1: "gc_remove rm (g_id g) s = (ok, s1)" by fastforce
    have w1: "wf_store s1" using calm_step_wf [OF calm_gc_remove [OF 2(4), of rm "g_id g"]] s1 by simp
    have ne: "g_id g \<noteq> r" using 2(5,6) False s1 by (cases ok) (auto simp: gc_remove_def Let_def split: prod.splits option.splits)
    have dk: "quiet_step cd r s (s\<lparr>fs_disk := (fs_disk s)(g_id g := d)\<rparr>)" for d
      by (rule quiet_same) (use ne in \<open>simp_all add: entries_upd\<close>)
    have "quiet_step cd r s (retire (g_id g) a (s\<lparr>fs_disk := (fs_disk s)(g_id g := d)\<rparr>))" for d a
      by (rule quiet_trans [OF dk quiet_retire]) (rule calm_step_wf [OF calm_disk [OF 2(4)]])
    then have q: "quiet_step cd r s s1"
      using s1 dk by (auto simp: gc_remove_def Let_def split: option.splits)
    show ?thesis
    proof (cases ok)
      case True
      have "quiet_step cd r s1 (snd (snd (gc_loop cfg now rm (tot - g_bytes g) rs s1)))"
        by (rule 2(3) [OF _ _ s1 [symmetric]])
          (use False True w1 2(5,6) s1 in \<open>auto split: prod.splits\<close>)
      with q have "quiet_step cd r s (snd (snd (gc_loop cfg now rm (tot - g_bytes g) rs s1)))"
        by (rule quiet_trans)
      then show ?thesis using False True s1 by (auto split: prod.splits)
    next
      case F: False
      then show ?thesis using False s1 q by simp
    qed
  qed
qed

section \<open>Appends and restarts\<close>

lemma append_bytes_frame [simp]:
  "fs_runs (append_bytes q now bs s) = fs_runs s" "fs_states (append_bytes q now bs s) = fs_states s"
  "fs_reclaimed (append_bytes q now bs s) = fs_reclaimed s" "fs_open (append_bytes q now bs s) = fs_open s"
  by (auto simp: append_bytes_def Let_def split: option.splits)

lemma entries_append_bytes:
  assumes "fs_disk s q \<noteq> None"
  shows "entries_of (append_bytes q now bs s) r =
    (if r = q then Some \<lparr>fl_data = entries_data s q @ bs, fl_mtime = now\<rparr> else entries_of s r)"
  using assms by (auto simp: append_bytes_def entries_of_def entries_data_def Let_def split: option.splits)

lemma entries_other_fields [simp]:
  "entries_of (s\<lparr>fs_states := x\<rparr>) r = entries_of s r" "entries_of (s\<lparr>fs_open := y\<rparr>) r = entries_of s r"
  by (simp_all add: entries_of_def)

lemma NewFileStore_fields [simp]:
  "fs_runs (NewFileStore d) = Map.empty" "fs_reclaimed (NewFileStore d) = Map.empty" "fs_disk (NewFileStore d) = d"
  by (simp_all add: NewFileStore_def)

lemma mkdir_exists: "fs_disk (mkdir_all q now s) q \<noteq> None"
  by (auto simp: mkdir_all_def split: option.splits)

lemma entries_data_cong: "entries_of t r = entries_of s r \<Longrightarrow> entries_data t r = entries_data s r"
  by (simp add: entries_data_def)

text \<open>What a run needs so that a restart cannot reissue a number up to \<open>hi\<close>.\<close>

definition resumable :: "codec \<Rightarrow> string \<Rightarrow> int \<Rightarrow> file_store \<Rightarrow> bool" where
  "resumable cd r hi s \<longleftrightarrow> wf_store s \<and> line_ended (entries_data s r) \<and>
     hi \<le> fst (lastSeq cd (entries_of s r)) \<and> hi < next_number cd s r"

lemma resumable_quiet:
  "resumable cd r hi s \<Longrightarrow> wf_store s' \<Longrightarrow> quiet_step cd r s s' \<Longrightarrow> resumable cd r hi s'"
  by (auto simp: resumable_def quiet_step_def entries_data_def)

lemma resumable_restart: "resumable cd r hi s \<Longrightarrow> resumable cd r hi (NewFileStore (fs_disk s))"
proof -
  have e: "entries_of (NewFileStore (fs_disk s)) r = entries_of s r"
    by (simp add: entries_of_def)
  have n: "next_number cd (NewFileStore (fs_disk s)) r = 1 + fst (lastSeq cd (entries_of s r))"
    using lastSeq_nonneg [of cd "entries_of s r"] by (simp add: next_number_def e)
  show "resumable cd r hi s \<Longrightarrow> ?thesis"
    by (auto simp: resumable_def e n entries_data_def)
qed

lemma quiet_Append_other:
  assumes "wf_store s" "q \<noteq> r"
  shows "quiet_step cd r s (snd (Append cd io q k p s))"
proof -
  obtain x t where x: "state_op cd q s = (x, t)" by fastforce
  have q1: "quiet_step cd r s t" using quiet_state_op [OF assms(1), of cd r q] x by simp
  show ?thesis
  proof (cases x)
    case (Inl e)
    then show ?thesis using x q1 by (simp add: Append_def)
  next
    case (Inr a)
    note so = state_op_cases [OF x [unfolded Inr] assms(1)]
    obtain res s' where al: "append_locked cd io a q k p t = (res, s')" by fastforce
    have na: "b \<noteq> a" if "fs_runs t r = Some b" for b
      using that so(1) calm_step_wf [OF so(3)] assms(2) by (auto simp: wf_store_def)
    have "quiet_step cd r t s'"
    proof (cases rule: append_locked_cases [OF al])
      case (1 e)
      then show ?thesis by (auto intro: quiet_same)
    next
      case (2 n line)
      then show ?thesis
        using assms(2) by (intro quiet_same) (simp_all add: entries_append_bytes [OF mkdir_exists])
    next
      case (3 line)
      have e: "entries_of s' r = entries_of t r"
        using assms(2) by (simp add: 3(4) entries_append_bytes [OF mkdir_exists])
      show ?thesis
        unfolding quiet_step_def e
        using assms(2) by (auto simp: next_number_def 3(4) na entries_append_bytes [OF mkdir_exists] split: option.splits)
    qed
    then show ?thesis using x Inr al q1 quiet_trans by (fastforce simp: Append_def)
  qed
qed

lemma resumable_Append:
  assumes "resumable cd r hi s" "plain_lines cd" "decodes cd" "ref_first cd" "length r \<le> 255"
    "io_write io = None" "Append cd io r k p s = (res, s')" "\<And>x. res = Inr x \<Longrightarrow> j_Seq x < 2 ^ 63"
  shows "case res of Inl _ \<Rightarrow> resumable cd r hi s' | Inr x \<Rightarrow> hi < j_Seq x \<and> resumable cd r (j_Seq x) s'"
proof -
  have w: "wf_store s" using assms(1) by (simp add: resumable_def)
  have w': "wf_store s'" by (rule append_step(1) [OF w assms(7)])
  obtain x t where x: "state_op cd r s = (x, t)" by fastforce
  have q1: "quiet_step cd r s t" using quiet_state_op [OF w, of cd r r] x by simp
  show ?thesis
  proof (cases x)
    case (Inl e)
    then show ?thesis using x assms(7) resumable_quiet [OF assms(1) w'] q1 by (auto simp: Append_def)
  next
    case (Inr a)
    note so = state_op_cases [OF x [unfolded Inr] w]
    have al: "append_locked cd io a r k p t = (res, s')" using assms(7) x Inr by (simp add: Append_def)
    show ?thesis
    proof (cases rule: append_locked_cases [OF al])
      case (1 e)
      have "quiet_step cd r t s'" using 1 by (auto intro: quiet_same)
      then have "quiet_step cd r s s'" by (rule quiet_trans [OF q1])
      then show ?thesis using 1 resumable_quiet [OF assms(1) w'] by simp
    next
      case (2 n line)
      then show ?thesis using assms(6) by simp
    next
      case (3 line)
      let ?q = "next_number cd s r"
      define e where "e = \<lparr>e_Ref = \<lparr>j_RunID = r, j_Seq = ?q\<rparr>, e_Kind = k, e_Payload = stamp cd (io_now io) p\<rparr>"
      have m: "marshal cd e = Some line" using 3(2) so(2) by (simp add: e_def)
      have res: "res = Inr \<lparr>j_RunID = r, j_Seq = ?q\<rparr>" using 3(1) so(2) by simp
      have q: "hi < ?q" "?q < 2 ^ 63" "0 \<le> ?q"
      proof -
        show "hi < ?q" using assms(1) by (simp add: resumable_def)
        show "?q < 2 ^ 63" using assms(8) [OF res] by simp
        have "1 \<le> nextSeq (fs_states t a)" using so(1) calm_step_wf [OF so(3)] by (auto simp: wf_store_def)
        then show "0 \<le> ?q" using so(2) by simp
      qed
      have et: "entries_of t r = entries_of s r" using q1 by (simp add: quiet_step_def)
      have dt: "entries_data (mkdir_all r (io_now io) t) r = entries_data s r"
        by (simp add: entries_data_def et)
      have e': "entries_of s' r = Some \<lparr>fl_data = entries_data s r @ line @ [newline], fl_mtime = io_now io\<rparr>"
        using dt by (simp add: 3(4) entries_append_bytes [OF mkdir_exists])
      have pl: "newline \<notin> set line" "carriage \<notin> set line" "line \<noteq> []"
        using m assms(2) by (auto simp: plain_lines_def)
      have "forEachLine (entries_data s r @ line @ [newline]) = forEachLine (entries_data s r) @ [cut_line line]"
        using assms(1) forEachLine_append forEachLine_line [OF pl] by (simp add: resumable_def)
      moreover have "line_seq cd (cut_line line) = ?q"
        using line_seq_marshal [OF m assms(3,4)] q assms(5) by (simp add: e_def)
      ultimately have "?q \<le> fst (lastSeq cd (entries_of s' r))"
        by (simp add: lastSeq_def e' max_seq_append)
      moreover have "?q < next_number cd s' r"
        using so(1,2) by (simp add: next_number_def 3(4))
      moreover have "line_ended (entries_data s' r)" by (simp add: entries_data_def e')
      ultimately show ?thesis using res w' q(1) by (simp add: resumable_def)
    qed
  qed
qed

text \<open>
  The runs of the store in which nothing happens to the entries of run \<open>r\<close> but appends that write their
  line: no short write, no collection of the run and no change by somebody else.
\<close>

definition spares :: "string \<Rightarrow> jop \<Rightarrow> file_store \<Rightarrow> bool" where
  "spares r op s = (case op of
      AppendOp io q k p \<Rightarrow> q = r \<longrightarrow> io_write io = None
    | GCOp cfg now rm names \<Rightarrow> r \<notin> set (fst (GC cfg now rm names s)) \<and> rm r = None
    | DiskOp q d \<Rightarrow> q \<noteq> r
    | _ \<Rightarrow> True)"

fun undisturbed :: "codec \<Rightarrow> string \<Rightarrow> jop list \<Rightarrow> file_store \<Rightarrow> bool" where
  "undisturbed cd r [] s = True"
| "undisturbed cd r (op # ops) s \<longleftrightarrow> spares r op s \<and> undisturbed cd r ops (snd (jop_do cd op s))"

lemma resumable_op:
  assumes "resumable cd r hi s" "spares r op s" "jop_do cd op s = (xs, s')" "seqs_of r xs = []"
    "\<And>io k p. op \<noteq> AppendOp io r k p"
  shows "resumable cd r hi s'"
proof (cases "op = Restart")
  case True
  then show ?thesis using assms(1,3) by (auto intro: resumable_restart)
next
  case False
  have w: "wf_store s" using assms(1) by (simp add: resumable_def)
  have "wf_store s'" using jop_do_step [OF w False assms(3)] by simp
  moreover have "quiet_step cd r s s'"
  proof (cases op)
    case (AppendOp io q k p)
    then have "q \<noteq> r" using assms(5) by blast
    then have "quiet_step cd r s (snd (Append cd io q k p s))" by (rule quiet_Append_other [OF w])
    then show ?thesis using AppendOp assms(3) by (auto split: prod.splits sum.splits)
  next
    case (GCOp cfg now rm names)
    then show ?thesis
      using assms(2,3) quiet_gc_loop [OF w] by (auto simp: GC_def Let_def spares_def)
  next
    case (DiskOp q d)
    then have "q \<noteq> r" using assms(2) by (simp add: spares_def)
    then have "entries_of (s\<lparr>fs_disk := (fs_disk s)(q := d)\<rparr>) r = entries_of s r" by (simp add: entries_upd)
    then show ?thesis using DiskOp assms(3) by (auto intro!: quiet_same)
  next
    case (ReceiveOp a ch)
    then show ?thesis using assms(3) by (auto simp: receive_def Let_def entries_of_def intro!: quiet_same)
  next
    case (OpenOp q)
    then show ?thesis using assms(3) by (auto simp: MarkOpen_def intro!: quiet_same)
  next
    case (CloseOp q)
    then show ?thesis using assms(3) by (auto simp: MarkClosed_def intro!: quiet_same)
  qed (use False assms(3) quiet_WriteMeta [OF w] quiet_Put [OF w] quiet_Watch [OF w] quiet_cancel [OF w] in auto)
  ultimately show ?thesis using assms(1) resumable_quiet by blast
qed

lemma resumable_run:
  assumes "plain_lines cd" "decodes cd" "ref_first cd" "length r \<le> 255"
    "resumable cd r hi s" "undisturbed cd r ops s" "jop_run cd ops s = (xs, s')"
    "list_all (\<lambda>x. j_Seq x < 2 ^ 63) xs"
  shows "sorted_wrt (<) (hi # seqs_of r xs)"
  using assms(5-8)
proof (induction ops arbitrary: s xs hi)
  case Nil
  then show ?case by simp
next
  case (Cons op ops)
  obtain ys s1 where y: "jop_do cd op s = (ys, s1)" by fastforce
  obtain zs where z: "jop_run cd ops s1 = (zs, s')" "xs = ys @ zs"
    using Cons.prems(3) y by (auto split: prod.splits)
  have u: "undisturbed cd r ops s1" "spares r op s" using Cons.prems(2) y by auto
  have b: "list_all (\<lambda>x. j_Seq x < 2 ^ 63) zs" using Cons.prems(4) z(2) by simp
  note IH = Cons.IH [OF _ u(1) z(1) b]
  show ?case
  proof (cases "\<exists>io k p. op = AppendOp io r k p")
    case True
    then obtain io k p where op: "op = AppendOp io r k p" by blast
    obtain res t where a: "Append cd io r k p s = (res, t)" by fastforce
    have wr: "io_write io = None" using u(2) op by (simp add: spares_def)
    have lim: "j_Seq x < 2 ^ 63" if "res = Inr x" for x
      using Cons.prems(4) that y z(2) op a by auto
    have st: "case res of Inl _ \<Rightarrow> resumable cd r hi t | Inr x \<Rightarrow> hi < j_Seq x \<and> resumable cd r (j_Seq x) t"
      by (rule resumable_Append [OF Cons.prems(1) assms(1-4) wr a lim])
    show ?thesis
    proof (cases res)
      case (Inl e)
      then show ?thesis using IH [of hi] st y z(2) op a by simp
    next
      case (Inr x)
      have "j_RunID x = r" using append_step(3) [OF _ a Inr] Cons.prems(1) by (simp add: resumable_def)
      then show ?thesis using IH [of "j_Seq x"] st y z(2) op a Inr by auto
    qed
  next
    case False
    have nil: "seqs_of r ys = []"
    proof (cases op)
      case (AppendOp io q k p)
      obtain res t where a: "Append cd io q k p s = (res, t)" by fastforce
      have "q \<noteq> r" using AppendOp False by blast
      moreover have "j_RunID x = q" if "res = Inr x" for x
        using append_step(3) [OF _ a that] Cons.prems(1) by (simp add: resumable_def)
      ultimately show ?thesis using y AppendOp a by (auto split: sum.splits)
    qed (use y in auto)
    have "resumable cd r hi s1" by (rule resumable_op [OF Cons.prems(1) u(2) y nil]) (use False in auto)
    then show ?thesis using IH [of hi] z(2) nil by simp
  qed
qed

lemma demo_laws: "plain_lines demo_codec" "decodes demo_codec" "ref_first demo_codec"
proof -
  show "plain_lines demo_codec"
    by (auto simp: plain_lines_def demo_codec_def demo_lines quoted_def seq_key_def split: if_splits)
  show "decodes demo_codec"
    by (auto simp: decodes_def demo_codec_def demo_lines split: if_splits)
  have h: "\<not> strings_Contains demo_head seq_key" "demo_head \<noteq> []" "last demo_head = CHR '',''" "length demo_head \<le> 26"
    by code_simp+
  show "ref_first demo_codec"
    unfolding ref_first_def
  proof (intro allI impI)
    fix e l
    assume a: "marshal demo_codec e = Some l"
    then have l: "l = demo_line (nat (j_Seq (e_Ref e)))" "length (j_RunID (e_Ref e)) = 1"
      by (auto simp: demo_codec_def split: if_splits)
    show "\<exists>h b. l = h @ seq_key @ dec_nat (nat (j_Seq (e_Ref e))) @ [CHR 0x7D] @ b \<and>
       \<not> strings_Contains h seq_key \<and> h \<noteq> [] \<and> last h = CHR '','' \<and> length h \<le> 20 + 6 * length (j_RunID (e_Ref e))"
      by (intro exI [of _ demo_head] exI [of _ "''}''"]) (simp add: l demo_line_def h)
  qed
qed

definition demo_ops :: "jop list" where
  "demo_ops = [AppendOp good_io ''r'' ''k'' [], Restart, AppendOp good_io ''r'' ''k'' []]"

lemma demo_first: "lastSeq demo_codec (Some \<lparr>fl_data = demo_line (Suc 0) @ [newline], fl_mtime = m\<rparr>) = (1, True)"
proof -
  have "newline \<notin> set (demo_line (Suc 0))" "carriage \<notin> set (demo_line (Suc 0))" "demo_line (Suc 0) \<noteq> []"
    by (simp_all add: demo_lines quoted_def seq_key_def)
  then have "forEachLine (demo_line (Suc 0) @ [newline]) = [cut_line (demo_line (Suc 0))]" by (rule forEachLine_line)
  moreover have "cut_line (demo_line (Suc 0)) = (demo_line (Suc 0), False)"
    by (simp add: cut_line_def maxLineBytes_def demo_lines quoted_def seq_key_def)
  ultimately show ?thesis by (simp add: lastSeq_def max_seq_def line_seq_def demo_codec_def)
qed

lemma demo_run: "fst (jop_run demo_codec demo_ops (NewFileStore Map.empty)) =
  [\<lparr>j_RunID = ''r'', j_Seq = 1\<rparr>, \<lparr>j_RunID = ''r'', j_Seq = 2\<rparr>]"
proof -
  have m: "marshal demo_codec \<lparr>e_Ref = \<lparr>j_RunID = ''r'', j_Seq = 1\<rparr>, e_Kind = ''k'', e_Payload = p\<rparr> = Some (demo_line (Suc 0))"
    "marshal demo_codec \<lparr>e_Ref = \<lparr>j_RunID = ''r'', j_Seq = 2\<rparr>, e_Kind = ''k'', e_Payload = p\<rparr> = Some (demo_line 2)" for p
    by (simp_all add: demo_codec_def)
  have n: "lastSeq cd None = (0, False)" for cd by (simp add: lastSeq_def)
  have rd: "runDir ''r'' = Inr ''r''" by code_simp
  show ?thesis
    by (simp add: demo_ops_def Append_def state_op_def append_locked_def NewFileStore_def rd n m demo_first
      good_io_def Let_def mkdir_all_def append_bytes_def entries_of_def empty_dir_def)
qed



section \<open>Collection\<close>

text \<open>The choice of the sweep on its own: which runs it takes when every removal works.\<close>

fun gc_choose :: "gc_config \<Rightarrow> instant \<Rightarrow> (string \<Rightarrow> bool) \<Rightarrow> int \<Rightarrow> gc_run list \<Rightarrow> gc_run list" where
  "gc_choose cfg now prot tot [] = []"
| "gc_choose cfg now prot tot (r # rs) =
     (if gc_due cfg now tot r \<and> \<not> prot (g_id r) then r # gc_choose cfg now prot (tot - g_bytes r) rs
      else gc_choose cfg now prot tot rs)"

definition gc_expired :: "gc_config \<Rightarrow> instant \<Rightarrow> gc_run \<Rightarrow> bool" where
  "gc_expired cfg now r \<longleftrightarrow> gc_MaxAge cfg > 0 \<and> now - g_mtime r > gc_MaxAge cfg"

lemma retire_frame:
  "fs_disk (retire i a s) = fs_disk s" "fs_open (retire i a s) = fs_open s" "fs_states (retire i a s) = fs_states s"
  "j \<noteq> i \<Longrightarrow> fs_runs (retire i a s) j = fs_runs s j"
  by (auto simp: retire_def)

lemma gc_remove_ok:
  assumes "rm i = None" "gc_remove rm i s = (ok, s1)"
  shows "ok" "fs_disk s1 = (fs_disk s)(i := None)" "\<And>j. j \<noteq> i \<Longrightarrow> protected_run s1 j = protected_run s j"
  using assms by (auto simp: gc_remove_def Let_def retire_frame protected_run_def hasWatchers_def split: option.splits)

lemma gc_loop_chooses:
  assumes "\<forall>i. rm i = None" "distinct (map g_id rs)"
    "\<And>r. r \<in> set rs \<Longrightarrow> prot (g_id r) = protected_run s (g_id r)"
  shows "\<exists>s'. gc_loop cfg now rm tot rs s = (map g_id (gc_choose cfg now prot tot rs), None, s') \<and>
    fs_disk s' = (\<lambda>i. if i \<in> g_id ` set (gc_choose cfg now prot tot rs) then None else fs_disk s i)"
  using assms(2,3)
proof (induction rs arbitrary: tot s)
  case Nil
  then show ?case by simp
next
  case (Cons r rs)
  show ?case
  proof (cases "gc_due cfg now tot r \<and> \<not> prot (g_id r)")
    case True
    obtain ok s1 where s1: "gc_remove rm (g_id r) s = (ok, s1)" by fastforce
    note ok = gc_remove_ok [OF assms(1) [rule_format] s1]
    have "prot (g_id x) = protected_run s1 (g_id x)" if "x \<in> set rs" for x
      using that Cons.prems ok(3) [of "g_id x"] by (auto simp: image_iff)
    from Cons.IH [OF _ this, of "tot - g_bytes r"] Cons.prems(1)
    obtain s' where "gc_loop cfg now rm (tot - g_bytes r) rs s1 =
        (map g_id (gc_choose cfg now prot (tot - g_bytes r) rs), None, s')"
      "fs_disk s' = (\<lambda>i. if i \<in> g_id ` set (gc_choose cfg now prot (tot - g_bytes r) rs) then None else fs_disk s1 i)"
      by auto
    then show ?thesis using True ok(1,2) s1 Cons.prems(2) by auto
  next
    case False
    then show ?thesis
      using Cons.IH [of s tot] Cons.prems by auto
  qed
qed

lemma gc_choose_sub: "set (gc_choose cfg now prot tot rs) \<subseteq> {r \<in> set rs. \<not> prot (g_id r)}"
proof (induction rs arbitrary: tot)
  case (Cons q rs)
  then show ?case using Cons.IH [of tot] Cons.IH [of "tot - g_bytes q"] by auto
qed simp

lemma gc_choose_expired:
  "r \<in> set rs \<Longrightarrow> gc_expired cfg now r \<Longrightarrow> \<not> prot (g_id r) \<Longrightarrow> r \<in> set (gc_choose cfg now prot tot rs)"
  by (induction rs arbitrary: tot) (auto simp: gc_due_def gc_expired_def)

lemma gc_choose_over:
  assumes "\<forall>r \<in> set rs. 0 \<le> g_bytes r" "r \<in> set (gc_choose cfg now prot tot rs)" "\<not> gc_expired cfg now r"
  shows "gc_MaxBytes cfg > 0 \<and> tot > gc_MaxBytes cfg"
  using assms
proof (induction rs arbitrary: tot)
  case (Cons q rs)
  then show ?case
    using Cons.IH [of tot] Cons.IH [of "tot - g_bytes q"]
    by (fastforce simp: gc_due_def gc_expired_def split: if_splits)
qed simp

lemma gc_choose_oldest:
  assumes "\<forall>r \<in> set rs. 0 \<le> g_bytes r" "distinct rs" "rs = older @ r # younger"
    "r \<in> set (gc_choose cfg now prot tot rs)" "\<not> gc_expired cfg now r" "q \<in> set older" "\<not> prot (g_id q)"
  shows "q \<in> set (gc_choose cfg now prot tot rs)"
  using assms
proof (induction rs arbitrary: tot older)
  case (Cons x rs)
  obtain older' where o: "older = x # older'" "rs = older' @ r # younger"
    using Cons.prems(3,6) by (cases older) auto
  have ne: "r \<noteq> x" using Cons.prems(2) o by auto
  show ?case
  proof (cases "gc_due cfg now tot x \<and> \<not> prot (g_id x)")
    case True
    then show ?thesis
      using Cons.IH [OF _ _ o(2), of "tot - g_bytes x"] Cons.prems o ne by auto
  next
    case False
    then have r: "r \<in> set (gc_choose cfg now prot tot rs)" using Cons.prems(4) ne by auto
    show ?thesis
    proof (cases "q = x")
      case True
      have "gc_MaxBytes cfg > 0 \<and> tot > gc_MaxBytes cfg"
        using gc_choose_over [OF _ r Cons.prems(5)] Cons.prems(1) by simp
      then show ?thesis using True False Cons.prems(7) by (simp add: gc_due_def)
    next
      case F: False
      then show ?thesis
        using Cons.IH [OF _ _ o(2) r] Cons.prems o False by auto
    qed
  qed
qed simp

lemma gc_choose_fits:
  assumes "\<forall>r \<in> set rs. 0 \<le> g_bytes r" "gc_MaxBytes cfg > 0"
    "tot - sum_list (map g_bytes (gc_choose cfg now prot tot rs)) > gc_MaxBytes cfg"
    "r \<in> set rs" "r \<notin> set (gc_choose cfg now prot tot rs)"
  shows "prot (g_id r)"
  using assms
proof (induction rs arbitrary: tot)
  case (Cons x rs)
  have nn: "0 \<le> sum_list (map g_bytes (gc_choose cfg now prot t rs))" for t
    using gc_choose_sub [of cfg now prot t rs] Cons.prems(1) by (intro sum_list_nonneg) auto
  show ?case
  proof (cases "gc_due cfg now tot x \<and> \<not> prot (g_id x)")
    case True
    then show ?thesis using Cons.IH [of "tot - g_bytes x"] Cons.prems by (auto simp: algebra_simps)
  next
    case False
    then have "gc_due cfg now tot x" using Cons.prems(2,3) nn [of tot] by (auto simp: gc_due_def)
    then show ?thesis using False Cons.IH [of tot] Cons.prems by auto
  qed
qed simp

lemma gc_runs_facts:
  "distinct (map g_id (gc_runs now s names))" "\<forall>r \<in> set (gc_runs now s names). 0 \<le> g_bytes r"
  "\<forall>r \<in> set (gc_runs now s names). g_id r \<noteq> templatesDirName" "sorted (map g_mtime (gc_runs now s names))"
proof -
  let ?l = "map (\<lambda>n. measure_run now n (the (fs_disk s n))) (filter (\<lambda>n. n \<noteq> templatesDirName) (range_over (fs_disk s) names))"
  have "map g_id ?l = filter (\<lambda>n. n \<noteq> templatesDirName) (range_over (fs_disk s) names)"
    by (simp add: measure_run_def comp_def)
  then have "distinct (map g_id ?l)" by simp
  moreover have "mset (map g_id (gc_runs now s names)) = mset (map g_id ?l)"
    unfolding gc_runs_def mset_map by simp
  ultimately show "distinct (map g_id (gc_runs now s names))" by (metis mset_eq_imp_distinct_iff)
  show "\<forall>r \<in> set (gc_runs now s names). 0 \<le> g_bytes r"
    by (auto simp: gc_runs_def measure_run_def intro!: sum_list_nonneg)
  show "\<forall>r \<in> set (gc_runs now s names). g_id r \<noteq> templatesDirName"
    by (auto simp: gc_runs_def measure_run_def)
  show "sorted (map g_mtime (gc_runs now s names))" by (simp add: gc_runs_def)
qed


definition old_run :: run_dir where
  "old_run = (empty_dir 0)\<lparr>dr_meta := Some \<lparr>fl_data = ''xyz'', fl_mtime = 5\<rparr>\<rparr>"

definition two_runs :: file_store where
  "two_runs = MarkOpen ''b'' (NewFileStore [''a'' \<mapsto> old_run, ''b'' \<mapsto> old_run])"


section \<open>Reading back\<close>

lemma collect_from: "collect cd from 0 out ls = out @ collect cd from 0 [] ls"
proof (induction ls arbitrary: out)
  case (Cons l ls)
  show ?case
  proof (cases "unmarshal cd (fst l)")
    case (Some e)
    then show ?thesis using Cons [of "out @ [e]"] Cons [of "[e]"] Cons [of out] by simp
  qed (use Cons [of out] in simp)
qed simp

lemma collect_append: "collect cd from 0 [] (ls @ ms) = collect cd from 0 [] ls @ collect cd from 0 [] ms"
proof (induction ls)
  case (Cons l ls)
  show ?case
  proof (cases "unmarshal cd (fst l)")
    case (Some e)
    then show ?thesis using Cons collect_from [of cd "from" "[e]"] by simp
  qed (use Cons in simp)
qed simp

definition readable :: "codec \<Rightarrow> file_store \<Rightarrow> string \<Rightarrow> entry list" where
  "readable cd s r = collect cd 0 0 [] (forEachLine (entries_data s r))"

lemma Read_readable:
  assumes "runDir r = Inr r" "checkFormat cd s r = Inr ()" "fs_disk s r \<noteq> None"
  shows "Read cd s r 0 0 = Inr (readable cd s r)"
  using assms
  by (auto simp: Read_def readable_def entries_data_def forEachLine_def lines_from.simps [of _ "[]"] ReadLine_def
    readerSize_def split: option.splits)

lemma append_ok:
  assumes "Append cd io r k p s = (Inr x, s')" "wf_store s"
  obtains line where
    "marshal cd \<lparr>e_Ref = x, e_Kind = k, e_Payload = stamp cd (io_now io) p\<rparr> = Some line"
    "x = \<lparr>j_RunID = r, j_Seq = next_number cd s r\<rparr>" "runDir r = Inr r"
    "entries_data s' r = entries_data s r @ line @ [newline]" "fs_disk s' r \<noteq> None"
    "Option.bind (fs_disk s' r) dr_meta = Option.bind (fs_disk s r) dr_meta"
proof -
  obtain a t where t: "state_op cd r s = (Inr a, t)" and al: "append_locked cd io a r k p t = (Inr x, s')"
    using assms(1) by (auto simp: Append_def split: prod.splits sum.splits)
  note so = state_op_cases [OF t assms(2)]
  show thesis
  proof (cases rule: append_locked_cases [OF al])
    case (3 line)
    have x: "x = \<lparr>j_RunID = r, j_Seq = next_number cd s r\<rparr>" using 3(1) so(2) by simp
    have et: "entries_data (mkdir_all r (io_now io) t) r = entries_data s r"
      by (simp add: entries_data_def) (simp add: entries_of_def so(4))
    show thesis
    proof (rule that [of line])
      show "marshal cd \<lparr>e_Ref = x, e_Kind = k, e_Payload = stamp cd (io_now io) p\<rparr> = Some line"
        using 3(2) x so(2) by simp
      show "entries_data s' r = entries_data s r @ line @ [newline]"
      proof -
        have "entries_of s' r = Some \<lparr>fl_data = entries_data s r @ line @ [newline], fl_mtime = io_now io\<rparr>"
          by (simp add: 3(4) entries_append_bytes [OF mkdir_exists] et)
        then show ?thesis by (simp add: entries_data_def)
      qed
      show "fs_disk s' r \<noteq> None" "Option.bind (fs_disk s' r) dr_meta = Option.bind (fs_disk s r) dr_meta"
        by (auto simp: 3(4) append_bytes_def mkdir_all_def empty_dir_def so(4) Let_def split: option.splits)
    qed (use x so(8) in simp_all)
  qed simp_all
qed



section \<open>Two appends around a collection\<close>

definition race_cfg :: gc_config where
  "race_cfg = \<lparr>gc_MaxAge = 0, gc_MaxBytes = 1\<rparr>"

text \<open>
  C22. \<^verbatim>\<open>Append\<close> finds the run's object in one critical section and takes the object's lock in another. A
  collection between the two retires the object, and an append that comes next makes a new object that
  resumes at the number the retired one still holds: both appends answer the same reference.
\<close>

theorem journal_reissue_race:
  "\<exists>s1 a s2 s3 s4 s5.
     Append demo_codec good_io ''r'' ''k'' [] (NewFileStore Map.empty) = (Inr \<lparr>j_RunID = ''r'', j_Seq = 1\<rparr>, s1) \<and>
     state_op demo_codec ''r'' s1 = (Inr a, s2) \<and>
     GC race_cfg 9 (\<lambda>_. None) [''r''] s2 = ([''r''], None, s3) \<and>
     Append demo_codec good_io ''r'' ''k'' [] s3 = (Inr \<lparr>j_RunID = ''r'', j_Seq = 2\<rparr>, s4) \<and>
     append_locked demo_codec good_io a ''r'' ''k'' [] s4 = (Inr \<lparr>j_RunID = ''r'', j_Seq = 2\<rparr>, s5)"
proof -
  have m: "marshal demo_codec \<lparr>e_Ref = \<lparr>j_RunID = ''r'', j_Seq = 1\<rparr>, e_Kind = ''k'', e_Payload = p\<rparr> = Some (demo_line (Suc 0))"
    "marshal demo_codec \<lparr>e_Ref = \<lparr>j_RunID = ''r'', j_Seq = 2\<rparr>, e_Kind = ''k'', e_Payload = p\<rparr> = Some (demo_line 2)" for p
    by (simp_all add: demo_codec_def)
  have n: "lastSeq cd None = (0, False)" for cd by (simp add: lastSeq_def)
  have rd: "runDir ''r'' = Inr ''r''" by code_simp
  have len: "demo_line (Suc 0) \<noteq> []" by (simp add: demo_line_def demo_head_def)
  show ?thesis
    by (simp add: Append_def state_op_def append_locked_def NewFileStore_def rd n m
      good_io_def Let_def mkdir_all_def append_bytes_def entries_of_def empty_dir_def GC_def gc_runs_def range_over_def
      templatesDirName_def measure_run_def files_of_def newest_def zero_time_def gc_due_def race_cfg_def protected_run_def
      hasWatchers_def gc_remove_def retire_def len)
qed

end
