(* ===== verification/Mz_JournalArtifacts.thy ===== *)
theory Mz_JournalArtifacts
  imports Mz_JournalDisk
begin

text \<open>
  Artifacts of a run: a path the journal opens stays inside the run's artifacts directory, and what was
  stored is read back under the path that was answered.
\<close>

section \<open>Artifacts\<close>

definition plain_elem :: "string \<Rightarrow> bool" where
  "plain_elem x \<longleftrightarrow> x \<noteq> [] \<and> x \<noteq> ''.'' \<and> CHR ''/'' \<notin> set x"

lemma split_slash_no_slash: "x \<in> set (split_slash acc p) \<Longrightarrow> CHR ''/'' \<notin> set acc \<Longrightarrow> CHR ''/'' \<notin> set x"
  by (induction acc p rule: split_slash.induct) (auto split: if_splits)

text \<open>A cleaned path climbs only at its start.\<close>

lemma clean_elems_shape:
  assumes "\<forall>x \<in> set xs. CHR ''/'' \<notin> set x" "list_all plain_elem out"
    "\<exists>n ys. rev out = replicate n ''..'' @ ys \<and> ''..'' \<notin> set ys"
  shows "list_all plain_elem (clean_elems rooted out xs) \<and>
    (\<exists>n ys. clean_elems rooted out xs = replicate n ''..'' @ ys \<and> ''..'' \<notin> set ys)"
  using assms
proof (induction rooted out xs rule: clean_elems.induct)
  case (2 rooted out x xs)
  obtain n ys where ny: "rev out = replicate n ''..'' @ ys" "''..'' \<notin> set ys" using 2(8) by blast
  have out: "out = rev ys @ replicate n ''..''" using ny(1) by (metis rev_append rev_replicate rev_rev_ident)
  show ?case
  proof (cases "x = [] \<or> x = ''.''")
    case True
    then show ?thesis using 2 by auto
  next
    case ne: False
    show ?thesis
    proof (cases "x = ''..''")
      case dd: True
      show ?thesis
      proof (cases "out \<noteq> [] \<and> hd out \<noteq> ''..''")
        case True
        then obtain y zs where y: "rev ys = y # zs" using out by (cases "rev ys"; cases n) auto
        then have "set zs \<subseteq> set ys" by (metis set_rev set_subset_Cons)
        then have "rev (tl out) = replicate n ''..'' @ rev zs \<and> ''..'' \<notin> set (rev zs)"
          using y out ny(2) by auto
        then have "\<exists>m ws. rev (tl out) = replicate m ''..'' @ ws \<and> ''..'' \<notin> set ws" by blast
        moreover have "list_all plain_elem (tl out)" using 2(7) by (cases out) auto
        ultimately show ?thesis using 2(2) ne dd True 2(6) by auto
      next
        case False
        then have ys: "ys = []" using out ny(2) by (cases "rev ys") auto
        have "rev (x # out) = replicate (Suc n) ''..'' @ []"
          using ny(1) ys dd by (simp add: replicate_append_same)
        then have ex: "\<exists>m ws. rev (x # out) = replicate m ''..'' @ ws \<and> ''..'' \<notin> set ws"
          by (metis empty_iff empty_set)
        have pl: "list_all plain_elem (x # out)" using 2(7) dd by (simp add: plain_elem_def [of "''..''"])
        have sl: "\<forall>x \<in> set xs. CHR ''/'' \<notin> set x" using 2(6) by simp
        show ?thesis
        proof (cases rooted)
          case True
          then show ?thesis using 2(3) [OF ne dd False _ sl 2(7,8)] ne dd False by auto
        next
          case nr: False
          then show ?thesis using 2(4) [OF ne dd False _ sl pl ex] ne dd False by auto
        qed
      qed
    next
      case F: False
      have "rev (x # out) = replicate n ''..'' @ (ys @ [x]) \<and> ''..'' \<notin> set (ys @ [x])"
        using ny F by auto
      then have "\<exists>m ws. rev (x # out) = replicate m ''..'' @ ws \<and> ''..'' \<notin> set ws" by blast
      moreover have "list_all plain_elem (x # out)" using 2(6,7) ne by (auto simp: plain_elem_def [of x])
      ultimately show ?thesis using 2(5) ne F 2(6) by auto
    qed
  qed
qed auto

lemma takeWhile_slash: "CHR ''/'' \<notin> set a \<Longrightarrow> takeWhile (\<lambda>c. c \<noteq> CHR ''/'') (a @ CHR ''/'' # r) = a"
  by (induction a) auto

lemma join_hd_slash:
  assumes "list_all plain_elem es" "strings_Join es ''/'' = a @ CHR ''/'' # r" "CHR ''/'' \<notin> set a"
  shows "\<exists>es'. es = a # es' \<and> es' \<noteq> []"
proof (cases es rule: list.exhaust [case_names Nil Cons])
  case (Cons x xs)
  show ?thesis
  proof (cases xs)
    case Nil
    then show ?thesis using assms Cons by (auto simp: plain_elem_def)
  next
    case (Cons y ys)
    then have j: "x @ CHR ''/'' # strings_Join (y # ys) ''/'' = a @ CHR ''/'' # r"
      using assms(2) \<open>es = x # xs\<close> by simp
    have "CHR ''/'' \<notin> set x" using assms(1) \<open>es = x # xs\<close> by (simp add: plain_elem_def)
    then have "x = a" using arg_cong [OF j, of "takeWhile (\<lambda>c. c \<noteq> CHR ''/'')"] assms(3) by (simp add: takeWhile_slash)
    then show ?thesis using \<open>es = x # xs\<close> Cons by simp
  qed
qed (use assms in simp)

text \<open>
  Every path the journal opens is a sequence of elements below the run's artifacts directory, none of
  which climbs: no request reaches the metadata, the entries, another run or a file outside the journal.
\<close>

theorem artifact_confined:
  assumes "OpenArtifact s r rel = Inr dat"
  shows "\<exists>es. filepath_Clean rel = strings_Join (artifactsDir # es) ''/'' \<and> es \<noteq> [] \<and>
    list_all plain_elem es \<and> ''..'' \<notin> set es \<and> (rel = filepath_Clean rel \<or> rel = filepath_Clean rel @ ''/'')"
proof -
  let ?rooted = "strings_HasPrefix rel ''/''" and ?es = "clean_elems (strings_HasPrefix rel ''/'') [] (split_slash [] rel)"
  have sh: "list_all plain_elem ?es" "\<exists>n ys. ?es = replicate n ''..'' @ ys \<and> ''..'' \<notin> set ys"
    using clean_elems_shape [of "split_slash [] rel" "[]" ?rooted] split_slash_no_slash [of _ "[]" rel] by auto
  obtain rest where c: "filepath_Clean rel = artifactsDir @ CHR ''/'' # rest"
    and rel: "rel = filepath_Clean rel \<or> rel = filepath_Clean rel @ ''/''"
    using assms by (auto simp: OpenArtifact_def Let_def bindE_Inr strings_HasPrefix_iff split: if_splits)
  have join: "filepath_Clean rel = strings_Join ?es ''/''"
    using c by (auto simp: filepath_Clean_def Let_def split: if_splits)
  obtain es where es: "?es = artifactsDir # es" "es \<noteq> []"
    using join_hd_slash [OF sh(1), of artifactsDir rest] join c by auto
  have "''..'' \<notin> set es"
  proof -
    obtain n ys where ny: "?es = replicate n ''..'' @ ys" "''..'' \<notin> set ys" using sh(2) by blast
    then have "n = 0" using es(1) by (cases n) auto
    then show ?thesis using ny es(1) by auto
  qed
  then show ?thesis using es sh(1) join rel by auto
qed

section \<open>Round trip\<close>

text \<open>A hash in hex: not empty, only digits and the letters a to f.\<close>

definition hex_hash :: "codec \<Rightarrow> bool" where
  "hex_hash cd \<longleftrightarrow> (\<forall>x. sha256_hex cd x \<noteq> [] \<and> set (sha256_hex cd x) \<subseteq> set ''0123456789abcdef'')"

text \<open>Every stored artifact carries the hash of its content in its name, followed by an extension.\<close>

definition content_named :: "codec \<Rightarrow> (string \<times> disk_file) list \<Rightarrow> bool" where
  "content_named cd arts \<longleftrightarrow> (\<forall>(n, f) \<in> set arts. \<exists>ext. n = sha256_hex cd (fl_data f) @ ext \<and> (ext = [] \<or> hd ext = CHR ''.''))"

lemma safeExt_dot: "safeExt name = [] \<or> (hd (safeExt name) = CHR ''.'' \<and> CHR ''/'' \<notin> set (safeExt name))"
proof -
  have e: "filepath_Ext q = [] \<or> (hd (filepath_Ext q) = CHR ''.'' \<and> CHR ''/'' \<notin> set (filepath_Ext q))" for q
    by (auto simp: filepath_Ext_def Let_def dest: set_takeWhileD)
  have d: "to_lower CHR ''.'' = CHR ''.''" by code_simp
  have n: "to_lower c \<noteq> CHR ''/''" if "c \<noteq> CHR ''/''" for c
  proof
    assume a: "to_lower c = CHR ''/''"
    show False
    proof (cases "is_upper c")
      case True
      then have "of_char c + 32 = (47 :: nat)"
        using arg_cong [OF a, of "of_char :: char \<Rightarrow> nat"] by (simp add: to_lower_def is_upper_def Let_def)
      then show False using True by (simp add: is_upper_def Let_def)
    qed (use a that in \<open>simp add: to_lower_def\<close>)
  qed
  have "ToLower (filepath_Ext q) = [] \<or>
      (hd (ToLower (filepath_Ext q)) = CHR ''.'' \<and> CHR ''/'' \<notin> set (ToLower (filepath_Ext q)))" for q
  proof (cases "filepath_Ext q")
    case (Cons c cs)
    then have "c = CHR ''.''" "CHR ''/'' \<notin> set cs" using e [of q] by auto
    then have "CHR ''/'' \<notin> to_lower ` set cs" using n by (metis imageE)
    then show ?thesis using Cons \<open>c = CHR ''.''\<close> d by (simp add: ToLower_def)
  qed (simp add: ToLower_def)
  then show ?thesis by (simp add: safeExt_def Let_def)
qed

lemma split_slash_plain: "CHR ''/'' \<notin> set f \<Longrightarrow> split_slash acc f = [rev acc @ f]"
  by (induction acc f rule: split_slash.induct) auto

lemma clean_artifact_path:
  assumes "plain_elem f" "f \<noteq> ''..''"
  shows "filepath_Clean (artifactsDir @ ''/'' @ f) = artifactsDir @ ''/'' @ f"
proof -
  have "split_slash [] (artifactsDir @ ''/'' @ f) = [artifactsDir, f]"
    using split_slash_plain [of f "[]"] assms(1) by (simp add: plain_elem_def)
  then show ?thesis using assms by (simp add: filepath_Clean_def plain_elem_def)
qed

lemma hash_name_plain:
  assumes "hex_hash cd"
  shows "plain_elem (sha256_hex cd x @ safeExt name)" "sha256_hex cd x @ safeExt name \<noteq> ''..''"
proof -
  have h: "sha256_hex cd x \<noteq> []" "set (sha256_hex cd x) \<subseteq> set ''0123456789abcdef''"
    using assms by (auto simp: hex_hash_def)
  then have hd: "hd (sha256_hex cd x) \<in> set ''0123456789abcdef''" by (meson hd_in_set subsetD)
  then have ne: "hd (sha256_hex cd x @ safeExt name) \<noteq> CHR ''.''" using h(1) by auto
  then show "sha256_hex cd x @ safeExt name \<noteq> ''..''" by auto
  have nd: "sha256_hex cd x @ safeExt name \<noteq> ''.''" using ne by auto
  have "CHR ''/'' \<notin> set (sha256_hex cd x)" using h(2) by auto
  then show "plain_elem (sha256_hex cd x @ safeExt name)"
    using safeExt_dot [of name] h(1) nd by (auto simp: plain_elem_def)
qed

lemma hash_prefix_unique:
  assumes "hex_hash cd" "sha256_hex cd x @ e = sha256_hex cd y @ e'" "e = [] \<or> hd e = CHR ''.''" "e' = [] \<or> hd e' = CHR ''.''"
  shows "sha256_hex cd x = sha256_hex cd y"
proof -
  have tw: "takeWhile (\<lambda>c. c \<noteq> CHR ''.'') (sha256_hex cd z @ w) = sha256_hex cd z" if "w = [] \<or> hd w = CHR ''.''" for z w
  proof -
    have "\<forall>c \<in> set (sha256_hex cd z). c \<noteq> CHR ''.''" using assms(1) by (fastforce simp: hex_hash_def)
    then show ?thesis using that by (cases w) (simp_all add: takeWhile_append)
  qed
  show ?thesis using arg_cong [OF assms(2), of "takeWhile (\<lambda>c. c \<noteq> CHR ''.'')"] tw assms(3,4) by simp
qed

definition artifacts_at :: "file_store \<Rightarrow> string \<Rightarrow> (string \<times> disk_file) list" where
  "artifacts_at s r = (case fs_disk s r of None \<Rightarrow> [] | Some d \<Rightarrow> dr_artifacts d)"

lemma put_ok:
  assumes "PutArtifact cd io rn r name dat s = (Inr ref, s')" "wf_store s"
  defines "fname \<equiv> sha256_hex cd dat @ safeExt name"
  shows "ref = \<lparr>ar_Path = artifactsDir @ ''/'' @ fname, ar_SHA256 = sha256_hex cd dat, ar_Bytes = int (length dat)\<rparr>"
    "runDir r = Inr r" "fs_disk s' r \<noteq> None"
    "artifacts_at s' r = (if map_of (artifacts_at s r) fname \<noteq> None then artifacts_at s r
       else (fname, \<lparr>fl_data = dat, fl_mtime = io_now io\<rparr>) # artifacts_at s r)"
proof -
  obtain a t where t: "state_op cd r s = (Inr a, t)"
    using assms(1) by (auto simp: PutArtifact_def split: prod.splits sum.splits)
  note so = state_op_cases [OF t assms(2)]
  have ar: "artifacts_at (mkdir_artifacts r now t) r = artifacts_at s r" for now
    by (auto simp: artifacts_at_def mkdir_artifacts_def mkdir_all_def empty_dir_def so(4) Let_def split: option.splits)
  have "fs_disk (mkdir_artifacts r (io_now io) t) r \<noteq> None"
    using mkdir_exists [where q = r] by (simp add: mkdir_artifacts_def Let_def)
  then obtain d where d: "fs_disk (mkdir_artifacts r (io_now io) t) r = Some d" by blast
  have da: "dr_artifacts d = artifacts_at s r" using ar [of "io_now io"] d by (simp add: artifacts_at_def)
  have p: "(if map_of (dr_artifacts d) fname \<noteq> None then (Inr ref', mkdir_artifacts r (io_now io) t)
      else if \<not> rn then (Inl UploadFailed, mkdir_artifacts r (io_now io) t)
      else (Inr ref', (mkdir_artifacts r (io_now io) t)\<lparr>fs_disk := (fs_disk (mkdir_artifacts r (io_now io) t))(r \<mapsto>
             d\<lparr>dr_artifacts := (fname, \<lparr>fl_data = dat, fl_mtime = io_now io\<rparr>) # dr_artifacts d\<rparr>)\<rparr>)) = (Inr ref, s')"
    if "ref' = \<lparr>ar_Path = artifactsDir @ ''/'' @ fname, ar_SHA256 = sha256_hex cd dat, ar_Bytes = int (length dat)\<rparr>" for ref'
    using assms(1) t d that by (simp add: PutArtifact_def fname_def Let_def split: if_splits)
  show "runDir r = Inr r" by (rule so(8))
  show "ref = \<lparr>ar_Path = artifactsDir @ ''/'' @ fname, ar_SHA256 = sha256_hex cd dat, ar_Bytes = int (length dat)\<rparr>"
    using p [OF refl] by (auto split: if_splits)
  show "fs_disk s' r \<noteq> None" using p [OF refl] d by (auto split: if_splits)
  show "artifacts_at s' r = (if map_of (artifacts_at s r) fname \<noteq> None then artifacts_at s r
       else (fname, \<lparr>fl_data = dat, fl_mtime = io_now io\<rparr>) # artifacts_at s r)"
    using p [OF refl] da d by (auto simp: artifacts_at_def split: if_splits)
qed

text \<open>
  An artifact is read back as it was stored, under the path that was answered, whatever name the upload
  gave; names stay content addresses. The hash must not collide with that of an artifact already there.
\<close>

theorem artifact_round_trip:
  assumes "hex_hash cd" "wf_store s" "content_named cd (artifacts_at s r)"
    and "\<forall>(n, f) \<in> set (artifacts_at s r). sha256_hex cd (fl_data f) = sha256_hex cd dat \<longrightarrow> fl_data f = dat"
    and "PutArtifact cd io rn r name dat s = (Inr ref, s')"
  shows "OpenArtifact s' r (ar_Path ref) = Inr dat \<and> content_named cd (artifacts_at s' r)"
proof -
  let ?f = "sha256_hex cd dat @ safeExt name"
  note ok = put_ok [OF assms(5,2)]
  note pl = hash_name_plain [OF assms(1), of dat name]
  have ext: "safeExt name = [] \<or> hd (safeExt name) = CHR ''.''" using safeExt_dot [of name] by blast
  have found: "\<exists>g. map_of (artifacts_at s' r) ?f = Some g \<and> fl_data g = dat"
  proof (cases "map_of (artifacts_at s r) ?f")
    case None
    then show ?thesis using ok(4) by simp
  next
    case (Some g)
    then have m: "(?f, g) \<in> set (artifacts_at s r)" by (rule map_of_SomeD)
    then obtain e where "?f = sha256_hex cd (fl_data g) @ e" "e = [] \<or> hd e = CHR ''.''"
      using assms(3) by (fastforce simp: content_named_def)
    then have "sha256_hex cd (fl_data g) = sha256_hex cd dat"
      using hash_prefix_unique [OF assms(1)] ext by metis
    then show ?thesis using m assms(4) Some ok(4) by auto
  qed
  have "content_named cd (artifacts_at s' r)"
    using ok(4) assms(3) ext by (auto simp: content_named_def)
  moreover have "OpenArtifact s' r (ar_Path ref) = Inr dat"
    using found ok(1-3) clean_artifact_path [OF pl]
    by (auto simp: OpenArtifact_def artifacts_at_def strings_HasPrefix_iff Let_def split: option.splits)
  ultimately show ?thesis by simp
qed

end
