(* ===== verification/Mz_Stream.thy ===== *)
theory Mz_Stream
  imports Mz_Procs
begin

text \<open>
  The media streamer (\<^verbatim>\<open>internal/stream\<close>): \<^verbatim>\<open>config.go\<close>, \<^verbatim>\<open>hub.go\<close>, \<^verbatim>\<open>manager.go\<close> and the parameter checks of
  \<^verbatim>\<open>http.go\<close>.

  Hubs are objects at addresses, as the code compares pointers (\<^verbatim>\<open>m.byID[h.id] == h\<close>). Each critical section
  of the code is one function of the record \<open>streams\<close>. The goroutines are explicit: timers that are armed,
  timer callbacks that have started, reaps that a callback has called but that have not taken the
  manager's lock, pumps (with the set of cancelled ones), and hubs that were unregistered by
  \<^verbatim>\<open>Close\<close> and are still to be closed. Channels are numbers with the queue of frames they buffer; the
  closed ones are remembered, as a send to a closed channel and a second close would panic. A timer of a hub
  is identified by the idle generation it was armed with. The range over the viewers in a broadcast
  treats each viewer on its own, so that its order does not matter; a viewer takes frames between
  broadcasts and not during one. The image transcoder is a parameter.
\<close>

section \<open>Configuration\<close>

record stream_config =
  sc_MaxStreams :: int
  sc_MaxViewers :: int
  sc_DefaultFPS :: int
  sc_MaxFPS :: int
  sc_Linger :: duration

definition DefaultMaxStreams :: int where "DefaultMaxStreams = 8"
definition DefaultMaxViewers :: int where "DefaultMaxViewers = 16"
definition DefaultFPS :: int where "DefaultFPS = 10"
definition DefaultMaxFPS :: int where "DefaultMaxFPS = 30"
definition DefaultLinger :: duration where "DefaultLinger = 10 * Second"

definition withDefaults :: "stream_config \<Rightarrow> stream_config" where
  "withDefaults c =
     \<lparr>sc_MaxStreams = (if sc_MaxStreams c \<le> 0 then DefaultMaxStreams else sc_MaxStreams c),
      sc_MaxViewers = (if sc_MaxViewers c \<le> 0 then DefaultMaxViewers else sc_MaxViewers c),
      sc_DefaultFPS = (if sc_DefaultFPS c \<le> 0 then DefaultFPS else sc_DefaultFPS c),
      sc_MaxFPS = (if sc_MaxFPS c \<le> 0 then DefaultMaxFPS else sc_MaxFPS c),
      sc_Linger = (if sc_Linger c \<le> 0 then DefaultLinger else sc_Linger c)\<rparr>"

definition clampFPS :: "stream_config \<Rightarrow> int \<Rightarrow> int" where
  "clampFPS c fps = (let f = (if fps \<le> 0 then sc_DefaultFPS c else fps) in if f > sc_MaxFPS c then sc_MaxFPS c else f)"

section \<open>Hubs\<close>

definition maxCaptureErrors :: nat where "maxCaptureErrors = 5"
definition defaultStallTimeout :: duration where "defaultStallTimeout = 30 * Second"

record viewer =
  v_chan :: nat
  v_last :: instant           \<comment> \<open>when it last accepted a frame\<close>
  v_queue :: "string list"    \<comment> \<open>the frames its channel buffers, oldest first\<close>

definition viewerBuffer :: nat where "viewerBuffer = 4"

record hub =
  hb_id :: string
  hb_udid :: string
  hb_fps :: int
  hb_maxDim :: int
  hb_quality :: int
  hb_linger :: duration
  hb_maxViewers :: int
  hb_stall :: duration
  hb_idleGen :: nat
  hb_viewers :: "viewer list"
  hb_pump :: "nat option"     \<comment> \<open>\<^verbatim>\<open>pumpStop\<close> and \<^verbatim>\<open>pumpDone\<close>: the pump they belong to\<close>
  hb_lingerT :: "nat option"  \<comment> \<open>the timer last armed\<close>
  hb_closed :: bool

definition newHub :: "string \<Rightarrow> string \<Rightarrow> int \<Rightarrow> int \<Rightarrow> int \<Rightarrow> duration \<Rightarrow> int \<Rightarrow> hub" where
  "newHub i udid fps maxDim quality linger maxViewers =
     \<lparr>hb_id = i, hb_udid = udid, hb_fps = fps, hb_maxDim = maxDim, hb_quality = quality, hb_linger = linger,
      hb_maxViewers = maxViewers, hb_stall = defaultStallTimeout, hb_idleGen = 0, hb_viewers = [],
      hb_pump = None, hb_lingerT = None, hb_closed = False\<rparr>"

datatype stream_error =
    ErrViewerLimit | ErrStreamClosed | ErrStreamLimit | ErrUnsupportedFormat string | ErrBadStreamParam string
  | StreamNotFound string

record streams =
  sm_cfg :: stream_config
  sm_byID :: "string \<rightharpoonup> nat"
  sm_byUDID :: "string \<rightharpoonup> nat"
  sm_hubs :: "nat \<Rightarrow> hub"
  sm_fresh :: nat                    \<comment> \<open>the next unused address\<close>
  sm_chan :: nat                     \<comment> \<open>the next unused channel\<close>
  sm_pid :: nat                      \<comment> \<open>the next unused pump\<close>
  sm_timers :: "(nat \<times> nat) set"     \<comment> \<open>armed: hub and generation\<close>
  sm_fired :: "(nat \<times> nat) set"      \<comment> \<open>callbacks that have not run their critical section\<close>
  sm_reaps :: "(nat \<times> nat) set"      \<comment> \<open>calls of \<^verbatim>\<open>onIdle\<close> that wait for the manager\<close>
  sm_pumps :: "(nat \<times> nat) set"      \<comment> \<open>pump goroutines: hub and pump\<close>
  sm_errs :: "nat \<Rightarrow> nat"            \<comment> \<open>consecutive failed captures of a pump\<close>
  sm_cancelled :: "nat set"          \<comment> \<open>pumps whose context is cancelled\<close>
  sm_shut :: "nat set"               \<comment> \<open>closed channels\<close>
  sm_closing :: "nat set"            \<comment> \<open>hubs that a \<^verbatim>\<open>Close\<close> is about to close\<close>

definition set_hub :: "nat \<Rightarrow> hub \<Rightarrow> streams \<Rightarrow> streams" where
  "set_hub a h s = s\<lparr>sm_hubs := (sm_hubs s)(a := h)\<rparr>"

text \<open>\<^verbatim>\<open>if h.lingerT != nil { h.lingerT.Stop() }\<close>: an armed timer will not fire; one that fired goes on.\<close>

definition stop_timer :: "nat \<Rightarrow> streams \<Rightarrow> streams" where
  "stop_timer a s = (case hb_lingerT (sm_hubs s a) of
      None \<Rightarrow> s | Some g \<Rightarrow> s\<lparr>sm_timers := sm_timers s - {(a, g)}\<rparr>)"

definition armLingerLocked :: "nat \<Rightarrow> streams \<Rightarrow> streams" where
  "armLingerLocked a s =
     (if hb_closed (sm_hubs s a) then s
      else
        (let s1 = stop_timer a s; h = sm_hubs s1 a; gen = Suc (hb_idleGen h) in
         (set_hub a (h\<lparr>hb_idleGen := gen, hb_lingerT := Some gen\<rparr>) s1)
           \<lparr>sm_timers := insert (a, gen) (sm_timers s1)\<rparr>))"

definition startPumpLocked :: "nat \<Rightarrow> streams \<Rightarrow> streams" where
  "startPumpLocked a s =
     (set_hub a ((sm_hubs s a)\<lparr>hb_pump := Some (sm_pid s)\<rparr>) s)
       \<lparr>sm_pumps := insert (a, sm_pid s) (sm_pumps s), sm_errs := (sm_errs s)(sm_pid s := 0), sm_pid := Suc (sm_pid s)\<rparr>"

definition stopPumpLocked :: "nat \<Rightarrow> streams \<Rightarrow> streams" where
  "stopPumpLocked a s = (case hb_pump (sm_hubs s a) of
      None \<Rightarrow> s
    | Some p \<Rightarrow> (set_hub a ((sm_hubs s a)\<lparr>hb_pump := None\<rparr>) s)\<lparr>sm_cancelled := insert p (sm_cancelled s)\<rparr>)"

definition attach :: "nat \<Rightarrow> instant \<Rightarrow> streams \<Rightarrow> (stream_error + nat) \<times> streams" where
  "attach a now s =
     (let h = sm_hubs s a in
      if hb_closed h then (Inl ErrStreamClosed, s)
      else if int (length (hb_viewers h)) \<ge> hb_maxViewers h then (Inl ErrViewerLimit, s)
      else
        (let ch = sm_chan s;
             s1 = stop_timer a s;
             s2 = (set_hub a (h\<lparr>hb_viewers := hb_viewers h @ [\<lparr>v_chan = ch, v_last = now, v_queue = []\<rparr>],
                               hb_idleGen := Suc (hb_idleGen h), hb_lingerT := None\<rparr>) s1)\<lparr>sm_chan := Suc ch\<rparr>
         in (Inr ch, if hb_pump h = None then startPumpLocked a s2 else s2)))"

definition detach :: "nat \<Rightarrow> nat \<Rightarrow> streams \<Rightarrow> streams" where
  "detach a ch s =
     (let h = sm_hubs s a; vs = filter (\<lambda>v. v_chan v \<noteq> ch) (hb_viewers h);
          s1 = set_hub a (h\<lparr>hb_viewers := vs\<rparr>) s
      in if vs = [] then armLingerLocked a s1 else s1)"

text \<open>The runtime starts the callback of a timer that was not stopped.\<close>

definition timer_fires :: "nat \<Rightarrow> nat \<Rightarrow> streams \<Rightarrow> streams" where
  "timer_fires a gen s = s\<lparr>sm_timers := sm_timers s - {(a, gen)}, sm_fired := insert (a, gen) (sm_fired s)\<rparr>"

text \<open>The callback of \<^verbatim>\<open>armLingerLocked\<close>, up to its call of \<^verbatim>\<open>onIdle\<close>.\<close>

definition linger_callback :: "nat \<Rightarrow> nat \<Rightarrow> streams \<Rightarrow> streams" where
  "linger_callback a gen s =
     (let h = sm_hubs s a;
          idle = (gen = hb_idleGen h \<and> hb_viewers h = [] \<and> \<not> hb_closed h);
          s1 = s\<lparr>sm_fired := sm_fired s - {(a, gen)}\<rparr>
      in if idle then (stopPumpLocked a s1)\<lparr>sm_reaps := insert (a, gen) (sm_reaps s)\<rparr> else s1)"

definition idleGeneration :: "nat \<Rightarrow> streams \<Rightarrow> nat" where
  "idleGeneration a s = hb_idleGen (sm_hubs s a)"

definition closeIfStillIdle :: "nat \<Rightarrow> nat \<Rightarrow> streams \<Rightarrow> bool \<times> streams" where
  "closeIfStillIdle a gen s =
     (let h = sm_hubs s a in
      if hb_closed h \<or> gen \<noteq> hb_idleGen h \<or> hb_viewers h \<noteq> [] then (False, s)
      else
        (let s1 = stop_timer a s in
         (True, stopPumpLocked a (set_hub a (h\<lparr>hb_closed := True, hb_lingerT := None\<rparr>) s1))))"

definition viewerCount :: "nat \<Rightarrow> streams \<Rightarrow> nat" where
  "viewerCount a s = length (hb_viewers (sm_hubs s a))"

text \<open>The critical section of \<^verbatim>\<open>close\<close>; afterwards it waits for the pump to end.\<close>

definition close :: "nat \<Rightarrow> streams \<Rightarrow> streams" where
  "close a s =
     (let h = sm_hubs s a in
      if hb_closed h then s
      else
        (let s1 = stop_timer a s in
         stopPumpLocked a
           ((set_hub a (h\<lparr>hb_closed := True, hb_lingerT := None, hb_viewers := []\<rparr>) s1)
              \<lparr>sm_shut := sm_shut s \<union> v_chan ` set (hb_viewers h)\<rparr>)))"

section \<open>The pump\<close>

datatype capture = Frame string | CaptureFailed

datatype pump_act = PumpExit | PumpRetry nat | PumpSend string

text \<open>The \<^verbatim>\<open>switch\<close> of the capture loop: what to do with the answer of \<^verbatim>\<open>src.Next\<close>.\<close>

definition pump_next :: "bool \<Rightarrow> nat \<Rightarrow> capture \<Rightarrow> pump_act" where
  "pump_next cancelled errs r = (case r of
      Frame f \<Rightarrow> PumpSend f
    | CaptureFailed \<Rightarrow>
        if cancelled then PumpExit
        else if Suc errs \<ge> maxCaptureErrors then PumpExit
        else PumpRetry (Suc errs))"

definition transform :: "(string \<Rightarrow> int \<Rightarrow> int \<Rightarrow> string option) \<Rightarrow> hub \<Rightarrow> string \<Rightarrow> string" where
  "transform transcode h frame =
     (if hb_maxDim h \<le> 0 \<and> hb_quality h \<le> 0 then frame
      else (case transcode frame (hb_quality h) (hb_maxDim h) of None \<Rightarrow> frame | Some out \<Rightarrow> out))"

text \<open>One viewer of a broadcast: the frame is queued, or replaces the oldest one of a full queue.\<close>

definition offer :: "string \<Rightarrow> instant \<Rightarrow> viewer \<Rightarrow> viewer" where
  "offer frame now v =
     (if length (v_queue v) < viewerBuffer then v\<lparr>v_queue := v_queue v @ [frame], v_last := now\<rparr>
      else v\<lparr>v_queue := tl (v_queue v) @ [frame]\<rparr>)"

definition stalled :: "duration \<Rightarrow> instant \<Rightarrow> viewer \<Rightarrow> bool" where
  "stalled stall now v \<longleftrightarrow> length (v_queue v) \<ge> viewerBuffer \<and> now - v_last v > stall"

definition broadcast :: "nat \<Rightarrow> string \<Rightarrow> instant \<Rightarrow> streams \<Rightarrow> streams" where
  "broadcast a frame now s =
     (let h = sm_hubs s a;
          out = filter (stalled (hb_stall h) now) (hb_viewers h);
          keep = map (offer frame now) (filter (\<lambda>v. \<not> stalled (hb_stall h) now v) (hb_viewers h));
          s1 = (set_hub a (h\<lparr>hb_viewers := keep\<rparr>) s)\<lparr>sm_shut := sm_shut s \<union> v_chan ` set out\<rparr>
      in if out \<noteq> [] \<and> keep = [] then armLingerLocked a s1 else s1)"

text \<open>\<^verbatim>\<open>settlePump\<close>, run when the goroutine of pump \<open>p\<close> ends.\<close>

definition settlePump :: "nat \<Rightarrow> nat \<Rightarrow> streams \<Rightarrow> streams" where
  "settlePump a p s =
     (if p \<in> sm_cancelled s \<or> hb_pump (sm_hubs s a) \<noteq> Some p then s
      else
        (let h = sm_hubs s a in
         armLingerLocked a ((set_hub a (h\<lparr>hb_pump := None, hb_viewers := []\<rparr>) s)
           \<lparr>sm_shut := sm_shut s \<union> v_chan ` set (hb_viewers h)\<rparr>)))"

definition pump_exit :: "nat \<Rightarrow> nat \<Rightarrow> streams \<Rightarrow> streams" where
  "pump_exit a p s = (settlePump a p s)\<lparr>sm_pumps := sm_pumps s - {(a, p)}\<rparr>"

text \<open>One turn of the capture loop.\<close>

definition pump_turn :: "(string \<Rightarrow> int \<Rightarrow> int \<Rightarrow> string option) \<Rightarrow> nat \<Rightarrow> nat \<Rightarrow> capture \<Rightarrow> instant \<Rightarrow> streams \<Rightarrow> streams" where
  "pump_turn transcode a p r now s =
     (case pump_next (p \<in> sm_cancelled s) (sm_errs s p) r of
        PumpExit \<Rightarrow> pump_exit a p s
      | PumpRetry n \<Rightarrow> s\<lparr>sm_errs := (sm_errs s)(p := n)\<rparr>
      | PumpSend f \<Rightarrow> broadcast a (transform transcode (sm_hubs s a) f) now (s\<lparr>sm_errs := (sm_errs s)(p := 0)\<rparr>))"

section \<open>The manager\<close>

definition NewManager :: "stream_config \<Rightarrow> streams" where
  "NewManager cfg =
     \<lparr>sm_cfg = withDefaults cfg, sm_byID = Map.empty, sm_byUDID = Map.empty,
      sm_hubs = (\<lambda>_. newHub [] [] 0 0 0 0 0), sm_fresh = 0, sm_chan = 0, sm_pid = 0, sm_timers = {}, sm_fired = {},
      sm_reaps = {}, sm_pumps = {}, sm_errs = (\<lambda>_. 0), sm_cancelled = {}, sm_shut = {}, sm_closing = {}\<rparr>"

record stream_request =
  sq_Format :: string
  sq_MaxFPS :: int
  sq_MaxDim :: int
  sq_Quality :: int

record stream_offer =
  so_StreamID :: string
  so_Format :: string
  so_URL :: string
  so_MJPEGURL :: string
  so_ViewURL :: string
  so_FPS :: int
  so_MaxDim :: int
  so_Quality :: int

definition FormatMJPEG :: string where "FormatMJPEG = ''mjpeg''"

definition check_request :: "stream_request \<Rightarrow> stream_error + unit" where
  "check_request req =
     (let format = (if sq_Format req = [] then FormatMJPEG else sq_Format req) in
      if format \<noteq> FormatMJPEG then Inl (ErrUnsupportedFormat (sq_Format req))
      else if sq_Quality req < 0 \<or> sq_Quality req > 100 then Inl (ErrBadStreamParam ''quality'')
      else if sq_MaxDim req < 0 then Inl (ErrBadStreamParam ''max_dim'')
      else Inr ())"

text \<open>The hub of a target, made when there is none; \<open>i\<close> is the answer of \<^verbatim>\<open>newStreamID\<close>.\<close>

definition find_hub :: "string \<Rightarrow> stream_request \<Rightarrow> string \<Rightarrow> streams \<Rightarrow> (stream_error + nat) \<times> streams" where
  "find_hub udid req i s = (case sm_byUDID s udid of
      Some a \<Rightarrow> (Inr a, s)
    | None \<Rightarrow>
        if int (card (dom (sm_byID s))) \<ge> sc_MaxStreams (sm_cfg s) then (Inl ErrStreamLimit, s)
        else
          (let a = sm_fresh s;
               h = newHub i udid (clampFPS (sm_cfg s) (sq_MaxFPS req)) (sq_MaxDim req) (sq_Quality req)
                     (sc_Linger (sm_cfg s)) (sc_MaxViewers (sm_cfg s))
           in (Inr a, (set_hub a h s)\<lparr>sm_byID := (sm_byID s)(i \<mapsto> a), sm_byUDID := (sm_byUDID s)(udid \<mapsto> a),
                                      sm_fresh := Suc a\<rparr>)))"

definition offer_of :: "hub \<Rightarrow> string \<Rightarrow> stream_offer" where
  "offer_of h udid =
     \<lparr>so_StreamID = hb_id h, so_Format = FormatMJPEG, so_URL = ''/v0/streams/'' @ hb_id h @ ''/ws'',
      so_MJPEGURL = ''/v0/streams/'' @ hb_id h @ ''/mjpeg'', so_ViewURL = ''/view/'' @ udid,
      so_FPS = hb_fps h, so_MaxDim = hb_maxDim h, so_Quality = hb_quality h\<rparr>"

definition Open :: "string \<Rightarrow> stream_request \<Rightarrow> string \<Rightarrow> streams \<Rightarrow> (stream_error + stream_offer) \<times> streams" where
  "Open udid req i s = (case check_request req of
      Inl e \<Rightarrow> (Inl e, s)
    | Inr _ \<Rightarrow>
        (case find_hub udid req i s of
           (Inl e, s1) \<Rightarrow> (Inl e, s1)
         | (Inr a, s1) \<Rightarrow>
             (Inr (offer_of (sm_hubs s1 a) udid),
              if hb_viewers (sm_hubs s1 a) = [] then armLingerLocked a s1 else s1)))"

text \<open>\<^verbatim>\<open>Close\<close> up to the call of the hub's own \<^verbatim>\<open>close\<close>, which then runs under the hub's lock.\<close>

definition Close_stream :: "string \<Rightarrow> streams \<Rightarrow> stream_error option \<times> streams" where
  "Close_stream i s = (case sm_byID s i of
      None \<Rightarrow> (Some (StreamNotFound i), s)
    | Some a \<Rightarrow> (None, s\<lparr>sm_byID := (sm_byID s)(i := None), sm_byUDID := (sm_byUDID s)(hb_udid (sm_hubs s a) := None),
                         sm_closing := insert a (sm_closing s)\<rparr>))"

definition CloseAll :: "streams \<Rightarrow> streams" where
  "CloseAll s = s\<lparr>sm_byID := Map.empty, sm_byUDID := Map.empty, sm_closing := sm_closing s \<union> ran (sm_byID s)\<rparr>"

definition close_pending :: "nat \<Rightarrow> streams \<Rightarrow> streams" where
  "close_pending a s = (close a s)\<lparr>sm_closing := sm_closing s - {a}\<rparr>"

definition reap :: "nat \<Rightarrow> nat \<Rightarrow> streams \<Rightarrow> streams" where
  "reap a gen s =
     (let s0 = s\<lparr>sm_reaps := sm_reaps s - {(a, gen)}\<rparr>; h = sm_hubs s a in
      if sm_byID s (hb_id h) = Some a then
        (case closeIfStillIdle a gen s0 of
           (True, s1) \<Rightarrow> s1\<lparr>sm_byID := (sm_byID s)(hb_id h := None), sm_byUDID := (sm_byUDID s)(hb_udid h := None)\<rparr>
         | (False, s1) \<Rightarrow> s1)
      else s0)"

definition stream_get :: "string \<Rightarrow> streams \<Rightarrow> nat option" where
  "stream_get i s = sm_byID s i"

definition HasStream :: "string \<Rightarrow> streams \<Rightarrow> bool" where
  "HasStream udid s \<longleftrightarrow> sm_byUDID s udid \<noteq> None"

definition ViewerCount :: "string \<Rightarrow> streams \<Rightarrow> nat" where
  "ViewerCount i s = (case stream_get i s of Some a \<Rightarrow> viewerCount a s | None \<Rightarrow> 0)"

text \<open>A viewer taking the oldest frame off its channel.\<close>

definition take_frame :: "nat \<Rightarrow> nat \<Rightarrow> streams \<Rightarrow> streams" where
  "take_frame a ch s = (let h = sm_hubs s a in
     set_hub a (h\<lparr>hb_viewers := map (\<lambda>v. if v_chan v = ch then v\<lparr>v_queue := tl (v_queue v)\<rparr> else v) (hb_viewers h)\<rparr>) s)"

section \<open>Requests of viewers\<close>

definition maxViewerDim :: int where "maxViewerDim = 4096"

text \<open>\<^verbatim>\<open>queryInt\<close>: \<open>s\<close> is the first value of the parameter, empty when there is none.\<close>

definition queryInt :: "string \<Rightarrow> int \<Rightarrow> int \<Rightarrow> unit + int" where
  "queryInt s lo hi =
     (if s = [] then Inr 0
      else (case parse_int s of
              None \<Rightarrow> Inl ()
            | Some n \<Rightarrow> if n < lo \<or> n > hi then Inl () else Inr n))"

definition viewerTransform ::
  "(string \<Rightarrow> int \<Rightarrow> int \<Rightarrow> string option) \<Rightarrow> string \<Rightarrow> string \<Rightarrow> unit + (string \<Rightarrow> string)"
where
  "viewerTransform transcode qdim qquality =
     bindE (queryInt qdim 1 maxViewerDim) (\<lambda>maxDim. bindE (queryInt qquality 1 100) (\<lambda>quality.
       Inr (if maxDim = 0 \<and> quality = 0 then (\<lambda>f. f)
            else (\<lambda>f. case transcode f quality maxDim of None \<Rightarrow> f | Some out \<Rightarrow> out))))"

datatype attach_status = TooManyRequests | Gone | ServerError

definition writeAttachError :: "stream_error \<Rightarrow> attach_status" where
  "writeAttachError e = (case e of ErrViewerLimit \<Rightarrow> TooManyRequests | ErrStreamClosed \<Rightarrow> Gone | _ \<Rightarrow> ServerError)"

end
