(* ===== verification/Mz_StreamProps.thy ===== *)
theory Mz_StreamProps
  imports Mz_Stream
begin

text \<open>
  The streamer under every interleaving of viewers, timers, pumps and the manager's calls: the step relation,
  its invariant, and what a broadcast leaves in the queues of the viewers.
\<close>

section \<open>Steps\<close>

text \<open>
  Every critical section is a step. \<open>attach\<close> and \<open>detach\<close> may come from a viewer that looked its hub up long ago.
  A new stream's random ID is not one that is in use. \<open>pump_fail\<close> is a pump whose source could not be opened.
\<close>

inductive sstep :: "(string \<Rightarrow> int \<Rightarrow> int \<Rightarrow> string option) \<Rightarrow> streams \<Rightarrow> streams \<Rightarrow> bool" for tc where
  open_stream: "sm_byID s i = None \<Longrightarrow> sstep tc s (snd (Open udid req i s))"
| close_stream: "sstep tc s (snd (Close_stream i s))"
| close_all: "sstep tc s (CloseAll s)"
| hub_close: "a \<in> sm_closing s \<Longrightarrow> sstep tc s (close_pending a s)"
| viewer_attach: "a < sm_fresh s \<Longrightarrow> sstep tc s (snd (attach a now s))"
| viewer_detach: "a < sm_fresh s \<Longrightarrow> sstep tc s (detach a ch s)"
| viewer_take: "a < sm_fresh s \<Longrightarrow> sstep tc s (take_frame a ch s)"
| fire: "(a, g) \<in> sm_timers s \<Longrightarrow> sstep tc s (timer_fires a g s)"
| callback: "(a, g) \<in> sm_fired s \<Longrightarrow> sstep tc s (linger_callback a g s)"
| reaped: "(a, g) \<in> sm_reaps s \<Longrightarrow> sstep tc s (reap a g s)"
| turn: "(a, p) \<in> sm_pumps s \<Longrightarrow> sstep tc s (pump_turn tc a p r now s)"
| pump_end: "(a, p) \<in> sm_pumps s \<Longrightarrow> p \<in> sm_cancelled s \<Longrightarrow> sstep tc s (pump_exit a p s)"
| pump_fail: "(a, p) \<in> sm_pumps s \<Longrightarrow> sm_errs s p = 0 \<Longrightarrow> sstep tc s (pump_exit a p s)"

section \<open>The invariant\<close>

text \<open>The two indexes name the same hubs, none of them closed, at most as many as configured.\<close>

definition reg_inv :: "streams \<Rightarrow> bool" where
  "reg_inv s \<longleftrightarrow>
     (\<forall>i a. sm_byID s i = Some a \<longrightarrow> a < sm_fresh s \<and> hb_id (sm_hubs s a) = i \<and>
        sm_byUDID s (hb_udid (sm_hubs s a)) = Some a \<and> \<not> hb_closed (sm_hubs s a)) \<and>
     (\<forall>u a. sm_byUDID s u = Some a \<longrightarrow> hb_udid (sm_hubs s a) = u \<and> sm_byID s (hb_id (sm_hubs s a)) = Some a) \<and>
     finite (dom (sm_byID s)) \<and> int (card (dom (sm_byID s))) \<le> sc_MaxStreams (sm_cfg s) \<and>
     0 < sc_MaxViewers (sm_cfg s)"

text \<open>One hub: bounded viewers and queues, nothing left in a closed hub, and a running pump where there are viewers.\<close>

definition hub_ok :: "streams \<Rightarrow> nat \<Rightarrow> bool" where
  "hub_ok s a \<longleftrightarrow> (let h = sm_hubs s a in
     hb_maxViewers h = sc_MaxViewers (sm_cfg s) \<and> int (length (hb_viewers h)) \<le> hb_maxViewers h \<and>
     distinct (map v_chan (hb_viewers h)) \<and>
     (\<forall>v \<in> set (hb_viewers h). length (v_queue v) \<le> viewerBuffer \<and> v_chan v < sm_chan s \<and> v_chan v \<notin> sm_shut s) \<and>
     (hb_closed h \<longrightarrow> hb_viewers h = [] \<and> hb_pump h = None \<and> hb_lingerT h = None) \<and>
     (hb_viewers h \<noteq> [] \<longrightarrow> hb_pump h \<noteq> None) \<and>
     (\<forall>p. hb_pump h = Some p \<longrightarrow> (a, p) \<in> sm_pumps s \<and> p \<notin> sm_cancelled s))"

text \<open>Channels and pumps belong to one hub.\<close>

definition own_inv :: "streams \<Rightarrow> bool" where
  "own_inv s \<longleftrightarrow>
     (\<forall>a b. a < sm_fresh s \<longrightarrow> b < sm_fresh s \<longrightarrow> a \<noteq> b \<longrightarrow>
        v_chan ` set (hb_viewers (sm_hubs s a)) \<inter> v_chan ` set (hb_viewers (sm_hubs s b)) = {}) \<and>
     (\<forall>a b p. (a, p) \<in> sm_pumps s \<longrightarrow> (b, p) \<in> sm_pumps s \<longrightarrow> a = b) \<and>
     (\<forall>a p. (a, p) \<in> sm_pumps s \<longrightarrow> a < sm_fresh s \<and> p < sm_pid s) \<and>
     (\<forall>p \<in> sm_cancelled s. p < sm_pid s) \<and>
     (\<forall>c \<in> sm_shut s. c < sm_chan s) \<and>
     (\<forall>(a, g) \<in> sm_timers s \<union> sm_fired s \<union> sm_reaps s. a < sm_fresh s) \<and>
     (\<forall>a \<in> sm_closing s. a < sm_fresh s \<and> sm_byID s (hb_id (sm_hubs s a)) \<noteq> Some a)"

text \<open>A registered stream without viewers has its idle window open: a timer, its callback or a reap of this generation.\<close>

definition idle_inv :: "streams \<Rightarrow> bool" where
  "idle_inv s \<longleftrightarrow>
     (\<forall>i a. sm_byID s i = Some a \<longrightarrow> hb_viewers (sm_hubs s a) = [] \<longrightarrow>
        (a, hb_idleGen (sm_hubs s a)) \<in> sm_timers s \<union> sm_fired s \<union> sm_reaps s)"

definition stream_inv :: "streams \<Rightarrow> bool" where
  "stream_inv s \<longleftrightarrow> reg_inv s \<and> (\<forall>a < sm_fresh s. hub_ok s a) \<and> own_inv s \<and> idle_inv s"

section \<open>Changing one hub\<close>

text \<open>
  A step inside the lock of hub \<open>a\<close>: the indexes and the other hubs stay, the viewers of \<open>a\<close> are some of the
  old ones or have a new channel, and what is recorded about the other hubs stays.
\<close>

lemma inv_hub_step:
  assumes inv: "stream_inv s" and a: "a < sm_fresh s"
    and same: "sm_cfg s' = sm_cfg s" "sm_byID s' = sm_byID s" "sm_byUDID s' = sm_byUDID s" "sm_fresh s' = sm_fresh s"
      "sm_closing s' \<subseteq> sm_closing s"
    and others: "\<And>b. b \<noteq> a \<Longrightarrow> sm_hubs s' b = sm_hubs s b"
    and hub: "hb_id (sm_hubs s' a) = hb_id (sm_hubs s a)" "hb_udid (sm_hubs s' a) = hb_udid (sm_hubs s a)"
      "hb_closed (sm_hubs s' a) \<Longrightarrow> hb_closed (sm_hubs s a) \<or> sm_byID s (hb_id (sm_hubs s a)) \<noteq> Some a"
    and mono: "sm_chan s \<le> sm_chan s'" "sm_pid s \<le> sm_pid s'"
    and chans: "v_chan ` set (hb_viewers (sm_hubs s' a)) \<subseteq> v_chan ` set (hb_viewers (sm_hubs s a)) \<union> {sm_chan s ..< sm_chan s'}"
    and shut: "sm_shut s' \<subseteq> sm_shut s \<union> v_chan ` set (hb_viewers (sm_hubs s a))"
    and pumps: "\<And>b p. b \<noteq> a \<Longrightarrow> (b, p) \<in> sm_pumps s' \<longleftrightarrow> (b, p) \<in> sm_pumps s"
      "\<And>p. (a, p) \<in> sm_pumps s' \<Longrightarrow> (a, p) \<in> sm_pumps s \<or> sm_pid s \<le> p \<and> p < sm_pid s'"
    and cancelled: "sm_cancelled s' \<subseteq> sm_cancelled s \<union> {p. (a, p) \<in> sm_pumps s}"
    and timers: "\<And>b g. b \<noteq> a \<Longrightarrow> (b, g) \<in> sm_timers s \<union> sm_fired s \<union> sm_reaps s \<Longrightarrow> (b, g) \<in> sm_timers s' \<union> sm_fired s' \<union> sm_reaps s'"
      "\<And>b g. (b, g) \<in> sm_timers s' \<union> sm_fired s' \<union> sm_reaps s' \<Longrightarrow> b = a \<or> (b, g) \<in> sm_timers s \<union> sm_fired s \<union> sm_reaps s"
    and ok: "hub_ok s' a"
    and idle: "\<And>i. sm_byID s i = Some a \<Longrightarrow> hb_viewers (sm_hubs s' a) = [] \<Longrightarrow>
        (a, hb_idleGen (sm_hubs s' a)) \<in> sm_timers s' \<union> sm_fired s' \<union> sm_reaps s'"
  shows "stream_inv s'"
proof -
  have R: "reg_inv s" and H: "\<And>b. b < sm_fresh s \<Longrightarrow> hub_ok s b" and O: "own_inv s" and I: "idle_inv s"
    using inv by (auto simp: stream_inv_def)
  have hid: "hb_id (sm_hubs s' b) = hb_id (sm_hubs s b)" "hb_udid (sm_hubs s' b) = hb_udid (sm_hubs s b)" for b
    by (cases "b = a"; simp add: hub(1,2) others)+
  have reg: "reg_inv s'"
  proof -
    have "\<not> hb_closed (sm_hubs s' b)" if "sm_byID s i = Some b" for i b
    proof (cases "b = a")
      case True
      then show ?thesis using R that hub(3) by (auto simp: reg_inv_def)
    next
      case False
      then show ?thesis using R that others by (auto simp: reg_inv_def)
    qed
    then show ?thesis using R hid by (simp add: reg_inv_def same)
  qed
  have oc: "c \<notin> v_chan ` set (hb_viewers (sm_hubs s b))" if "b < sm_fresh s" "b \<noteq> a" "c \<in> v_chan ` set (hb_viewers (sm_hubs s a))" for b c
    using O that a unfolding own_inv_def by blast
  have lt: "c < sm_chan s" if "b < sm_fresh s" "c \<in> v_chan ` set (hb_viewers (sm_hubs s b))" for b c
    using H [OF that(1)] that(2) by (auto simp: hub_ok_def Let_def)
  have H': "hub_ok s' b" if "b < sm_fresh s" for b
  proof (cases "b = a")
    case False
    have p: "p \<notin> sm_cancelled s'" if "hb_pump (sm_hubs s b) = Some p" for p
    proof -
      have bp: "(b, p) \<in> sm_pumps s" "p \<notin> sm_cancelled s"
        using that H [OF \<open>b < sm_fresh s\<close>] by (auto simp: hub_ok_def Let_def)
      then have "(a, p) \<notin> sm_pumps s" using O False unfolding own_inv_def by blast
      then show ?thesis using cancelled bp by auto
    qed
    have "v_chan v \<notin> sm_shut s'" if "v \<in> set (hb_viewers (sm_hubs s b))" for v
      using shut oc [OF \<open>b < sm_fresh s\<close> False] H [OF \<open>b < sm_fresh s\<close>] that by (auto simp: hub_ok_def Let_def)
    then show ?thesis
      using H [OF that] others [OF False] pumps(1) [OF False] p mono(1) same(1)
      by (fastforce simp: hub_ok_def Let_def)
  qed (use ok in simp)
  have "own_inv s'"
    unfolding own_inv_def same
  proof (intro conjI allI impI ballI)
    fix x y
    assume xy: "x < sm_fresh s" "y < sm_fresh s" "x \<noteq> y"
    have D: "v_chan ` set (hb_viewers (sm_hubs s x)) \<inter> v_chan ` set (hb_viewers (sm_hubs s y)) = {}"
      using O xy unfolding own_inv_def by blast
    show "v_chan ` set (hb_viewers (sm_hubs s' x)) \<inter> v_chan ` set (hb_viewers (sm_hubs s' y)) = {}"
    proof (cases "x = a \<or> y = a")
      case True
      then obtain z where z: "{x, y} = {a, z}" "z \<noteq> a" "z < sm_fresh s" using xy by auto
      have "v_chan ` set (hb_viewers (sm_hubs s' a)) \<inter> v_chan ` set (hb_viewers (sm_hubs s z)) = {}"
        using chans oc [OF z(3,2)] lt [OF z(3)] by fastforce
      moreover have "x = a \<and> y = z \<or> x = z \<and> y = a" using z(1) by (simp add: doubleton_eq_iff)
      ultimately show ?thesis using others [OF z(2)] by (elim disjE conjE) (simp_all add: Int_commute)
    qed (use D others in auto)
  next
    fix x y p
    assume "(x, p) \<in> sm_pumps s'" "(y, p) \<in> sm_pumps s'"
    then show "x = y"
      using O pumps unfolding own_inv_def by (metis leD)
  next
    fix x p
    assume "(x, p) \<in> sm_pumps s'"
    then show "x < sm_fresh s" "p < sm_pid s'"
      using O pumps a mono(2) unfolding own_inv_def by (metis, metis order_less_le_trans)
  next
    fix p assume "p \<in> sm_cancelled s'"
    then show "p < sm_pid s'" using cancelled O mono(2) by (fastforce simp: own_inv_def)
  next
    fix c assume "c \<in> sm_shut s'"
    then have "c \<in> sm_shut s \<or> c \<in> v_chan ` set (hb_viewers (sm_hubs s a))" using shut by blast
    moreover have "c < sm_chan s" if "c \<in> sm_shut s" using that O by (simp add: own_inv_def)
    ultimately have "c < sm_chan s" using lt [OF a] by blast
    then show "c < sm_chan s'" using mono(1) by simp
  next
    fix x assume "x \<in> sm_timers s' \<union> sm_fired s' \<union> sm_reaps s'"
    then show "case x of (b, g) \<Rightarrow> b < sm_fresh s"
      using timers(2) O a unfolding own_inv_def by (cases x) blast
  next
    fix x assume "x \<in> sm_closing s'"
    then show "x < sm_fresh s" "sm_byID s (hb_id (sm_hubs s' x)) \<noteq> Some x"
      using same(5) O hid by (auto simp: own_inv_def)
  qed
  moreover have "idle_inv s'"
    unfolding idle_inv_def same
  proof (intro allI impI)
    fix i b
    assume b: "sm_byID s i = Some b" "hb_viewers (sm_hubs s' b) = []"
    show "(b, hb_idleGen (sm_hubs s' b)) \<in> sm_timers s' \<union> sm_fired s' \<union> sm_reaps s'"
    proof (cases "b = a")
      case False
      then show ?thesis using I b others timers(1) [OF False] by (simp add: idle_inv_def)
    qed (use b idle in blast)
  qed
  ultimately show ?thesis using reg H' same(4) by (simp add: stream_inv_def)
qed

section \<open>The critical sections\<close>

text \<open>What the small operations on a hub do to each field.\<close>

lemma stop_timer_fields [simp]:
  "sm_cfg (stop_timer a s) = sm_cfg s" "sm_byID (stop_timer a s) = sm_byID s" "sm_byUDID (stop_timer a s) = sm_byUDID s"
  "sm_fresh (stop_timer a s) = sm_fresh s" "sm_closing (stop_timer a s) = sm_closing s" "sm_hubs (stop_timer a s) = sm_hubs s"
  "sm_chan (stop_timer a s) = sm_chan s" "sm_pid (stop_timer a s) = sm_pid s" "sm_shut (stop_timer a s) = sm_shut s"
  "sm_pumps (stop_timer a s) = sm_pumps s" "sm_cancelled (stop_timer a s) = sm_cancelled s" "sm_fired (stop_timer a s) = sm_fired s"
  "sm_reaps (stop_timer a s) = sm_reaps s" "sm_errs (stop_timer a s) = sm_errs s"
  "sm_timers (stop_timer a s) = sm_timers s - {x. fst x = a \<and> hb_lingerT (sm_hubs s a) = Some (snd x)}"
  by (auto simp: stop_timer_def split: option.splits)

lemma set_hub_fields [simp]:
  "sm_cfg (set_hub a h s) = sm_cfg s" "sm_byID (set_hub a h s) = sm_byID s" "sm_byUDID (set_hub a h s) = sm_byUDID s"
  "sm_fresh (set_hub a h s) = sm_fresh s" "sm_closing (set_hub a h s) = sm_closing s" "sm_hubs (set_hub a h s) = (sm_hubs s)(a := h)"
  "sm_chan (set_hub a h s) = sm_chan s" "sm_pid (set_hub a h s) = sm_pid s" "sm_shut (set_hub a h s) = sm_shut s"
  "sm_pumps (set_hub a h s) = sm_pumps s" "sm_cancelled (set_hub a h s) = sm_cancelled s" "sm_fired (set_hub a h s) = sm_fired s"
  "sm_reaps (set_hub a h s) = sm_reaps s" "sm_errs (set_hub a h s) = sm_errs s" "sm_timers (set_hub a h s) = sm_timers s"
  by (simp_all add: set_hub_def)

lemma arm_fields [simp]:
  "sm_cfg (armLingerLocked a s) = sm_cfg s" "sm_byID (armLingerLocked a s) = sm_byID s" "sm_byUDID (armLingerLocked a s) = sm_byUDID s"
  "sm_fresh (armLingerLocked a s) = sm_fresh s" "sm_closing (armLingerLocked a s) = sm_closing s"
  "sm_chan (armLingerLocked a s) = sm_chan s" "sm_pid (armLingerLocked a s) = sm_pid s" "sm_shut (armLingerLocked a s) = sm_shut s"
  "sm_pumps (armLingerLocked a s) = sm_pumps s" "sm_cancelled (armLingerLocked a s) = sm_cancelled s"
  "sm_fired (armLingerLocked a s) = sm_fired s" "sm_reaps (armLingerLocked a s) = sm_reaps s" "sm_errs (armLingerLocked a s) = sm_errs s"
  by (simp_all add: armLingerLocked_def Let_def)

lemma arm_hubs: "\<not> hb_closed (sm_hubs s a) \<Longrightarrow> sm_hubs (armLingerLocked a s) =
    (sm_hubs s)(a := (sm_hubs s a)\<lparr>hb_idleGen := Suc (hb_idleGen (sm_hubs s a)), hb_lingerT := Some (Suc (hb_idleGen (sm_hubs s a)))\<rparr>)"
  "hb_closed (sm_hubs s a) \<Longrightarrow> armLingerLocked a s = s"
  by (simp_all add: armLingerLocked_def Let_def)

lemma arm_timers: "\<not> hb_closed (sm_hubs s a) \<Longrightarrow> sm_timers (armLingerLocked a s) =
    insert (a, Suc (hb_idleGen (sm_hubs s a))) (sm_timers s - {x. fst x = a \<and> hb_lingerT (sm_hubs s a) = Some (snd x)})"
  by (simp add: armLingerLocked_def Let_def)

lemma stopPump_fields [simp]:
  "sm_cfg (stopPumpLocked a s) = sm_cfg s" "sm_byID (stopPumpLocked a s) = sm_byID s" "sm_byUDID (stopPumpLocked a s) = sm_byUDID s"
  "sm_fresh (stopPumpLocked a s) = sm_fresh s" "sm_closing (stopPumpLocked a s) = sm_closing s"
  "sm_chan (stopPumpLocked a s) = sm_chan s" "sm_pid (stopPumpLocked a s) = sm_pid s" "sm_shut (stopPumpLocked a s) = sm_shut s"
  "sm_pumps (stopPumpLocked a s) = sm_pumps s" "sm_fired (stopPumpLocked a s) = sm_fired s" "sm_timers (stopPumpLocked a s) = sm_timers s"
  "sm_reaps (stopPumpLocked a s) = sm_reaps s" "sm_errs (stopPumpLocked a s) = sm_errs s"
  "sm_hubs (stopPumpLocked a s) = (sm_hubs s)(a := (sm_hubs s a)\<lparr>hb_pump := None\<rparr>)"
  "sm_cancelled (stopPumpLocked a s) = sm_cancelled s \<union> {p. hb_pump (sm_hubs s a) = Some p}"
  by (auto simp: stopPumpLocked_def split: option.splits)

lemma inv_parts:
  assumes "stream_inv s" "a < sm_fresh s"
  shows "hub_ok s a" "0 < sc_MaxViewers (sm_cfg s)"
    "\<And>c. c \<in> sm_shut s \<Longrightarrow> c < sm_chan s" "\<And>p. p \<in> sm_cancelled s \<Longrightarrow> p < sm_pid s"
    "\<And>i. sm_byID s i = Some a \<Longrightarrow> \<not> hb_closed (sm_hubs s a) \<and> hb_id (sm_hubs s a) = i"
    "\<And>i. sm_byID s i = Some a \<Longrightarrow> hb_viewers (sm_hubs s a) = [] \<Longrightarrow>
        (a, hb_idleGen (sm_hubs s a)) \<in> sm_timers s \<union> sm_fired s \<union> sm_reaps s"
  using assms by (auto simp: stream_inv_def reg_inv_def own_inv_def idle_inv_def)

lemma inv_arm:
  assumes "stream_inv s" "a < sm_fresh s"
  shows "stream_inv (armLingerLocked a s)"
proof (cases "hb_closed (sm_hubs s a)")
  case True
  then show ?thesis using assms by (simp add: arm_hubs)
next
  case False
  note h = inv_parts [OF assms]
  show ?thesis
    by (rule inv_hub_step [OF assms])
      (use False h(1) in \<open>auto simp: arm_hubs arm_timers hub_ok_def Let_def\<close>)
qed

lemma inv_detach:
  assumes "stream_inv s" "a < sm_fresh s"
  shows "stream_inv (detach a ch s)"
proof -
  note h = inv_parts [OF assms]
  let ?h = "sm_hubs s a"
  let ?vs = "filter (\<lambda>v. v_chan v \<noteq> ch) (hb_viewers ?h)"
  let ?s1 = "set_hub a (?h\<lparr>hb_viewers := ?vs\<rparr>) s"
  have "int (length (hb_viewers ?h)) \<le> sc_MaxViewers (sm_cfg s)" using h(1) by (simp add: hub_ok_def Let_def)
  then have len: "int (length ?vs) \<le> sc_MaxViewers (sm_cfg s)"
    using length_filter_le [of "\<lambda>v. v_chan v \<noteq> ch" "hb_viewers ?h"] by linarith
  have ok: "hub_ok ?s1 a"
    using h(1) len by (auto simp: hub_ok_def Let_def distinct_map_filter)
  show ?thesis
  proof (cases "?vs = [] \<and> \<not> hb_closed ?h")
    case True
    have eq: "detach a ch s = armLingerLocked a ?s1" using True by (simp add: detach_def Let_def)
    show ?thesis
      unfolding eq
      by (rule inv_hub_step [OF assms])
        (use True ok in \<open>auto simp: arm_hubs arm_timers hub_ok_def Let_def\<close>)
  next
    case False
    have "detach a ch s = ?s1 \<or> hb_closed ?h \<and> detach a ch s = ?s1"
      using False by (auto simp: detach_def Let_def arm_hubs)
    then have eq: "detach a ch s = ?s1" by blast
    show ?thesis
      unfolding eq
      by (rule inv_hub_step [OF assms]) (use False ok h(5) in \<open>auto simp del: filter_empty_conv\<close>)
  qed
qed

lemma inv_attach:
  assumes "stream_inv s" "a < sm_fresh s"
  shows "stream_inv (snd (attach a now s))"
proof -
  note h = inv_parts [OF assms]
  let ?h = "sm_hubs s a"
  show ?thesis
  proof (cases "hb_closed ?h \<or> int (length (hb_viewers ?h)) \<ge> hb_maxViewers ?h")
    case True
    then show ?thesis using assms(1) by (auto simp: attach_def Let_def)
  next
    case False
    let ?s2 = "(set_hub a (?h\<lparr>hb_viewers := hb_viewers ?h @ [\<lparr>v_chan = sm_chan s, v_last = now, v_queue = []\<rparr>],
                 hb_idleGen := Suc (hb_idleGen ?h), hb_lingerT := None\<rparr>) (stop_timer a s))\<lparr>sm_chan := Suc (sm_chan s)\<rparr>"
    have fresh: "sm_chan s \<notin> sm_shut s" "sm_pid s \<notin> sm_cancelled s" using h(3,4) by blast+
    show ?thesis
    proof (cases "hb_pump ?h")
      case None
      then have eq: "snd (attach a now s) = startPumpLocked a ?s2" using False by (simp add: attach_def Let_def)
      show ?thesis
        unfolding eq startPumpLocked_def
        by (rule inv_hub_step [OF assms])
          (use False h(1) None fresh in \<open>auto simp: hub_ok_def Let_def\<close>)
    next
      case (Some p)
      then have eq: "snd (attach a now s) = ?s2" using False by (simp add: attach_def Let_def)
      show ?thesis
        unfolding eq
        by (rule inv_hub_step [OF assms])
          (use False h(1) Some fresh in \<open>auto simp: hub_ok_def Let_def\<close>)
    qed
  qed
qed

lemma inv_take:
  assumes "stream_inv s" "a < sm_fresh s"
  shows "stream_inv (take_frame a ch s)"
proof -
  note h = inv_parts [OF assms]
  have m: "map v_chan (map (\<lambda>v. if v_chan v = ch then v\<lparr>v_queue := tl (v_queue v)\<rparr> else v) vs) = map v_chan vs" for vs
    by (induction vs) auto
  have "v_chan (if v_chan v = ch then v\<lparr>v_queue := tl (v_queue v)\<rparr> else v) = v_chan v" for v by simp
  then have i: "v_chan ` (\<lambda>v. if v_chan v = ch then v\<lparr>v_queue := tl (v_queue v)\<rparr> else v) ` V = v_chan ` V" for V
    unfolding image_image by (intro image_cong refl)
  show ?thesis
    by (rule inv_hub_step [OF assms])
      (use h(1,5,6) in \<open>auto simp: take_frame_def Let_def hub_ok_def m i simp del: map_map\<close>)
qed

lemma inv_fire:
  assumes "stream_inv s" "(a, g) \<in> sm_timers s"
  shows "stream_inv (timer_fires a g s)"
proof -
  have a: "a < sm_fresh s" using assms by (auto simp: stream_inv_def own_inv_def)
  note h = inv_parts [OF assms(1) a]
  show ?thesis
    by (rule inv_hub_step [OF assms(1) a])
      (use h(1,5,6) assms(2) in \<open>auto simp: timer_fires_def hub_ok_def Let_def\<close>)
qed

lemma inv_callback:
  assumes "stream_inv s" "(a, g) \<in> sm_fired s"
  shows "stream_inv (linger_callback a g s)"
proof -
  have a: "a < sm_fresh s" using assms by (auto simp: stream_inv_def own_inv_def)
  note h = inv_parts [OF assms(1) a]
  show ?thesis
  proof (cases "g = hb_idleGen (sm_hubs s a) \<and> hb_viewers (sm_hubs s a) = [] \<and> \<not> hb_closed (sm_hubs s a)")
    case True
    show ?thesis
      by (rule inv_hub_step [OF assms(1) a])
        (use h(1) True in \<open>auto simp: linger_callback_def hub_ok_def Let_def\<close>)
  next
    case False
    then have eq: "linger_callback a g s = s\<lparr>sm_fired := sm_fired s - {(a, g)}\<rparr>"
      by (auto simp: linger_callback_def Let_def)
    show ?thesis
      unfolding eq by (rule inv_hub_step [OF assms(1) a]) (use h(1,5,6) False in \<open>auto simp: hub_ok_def Let_def\<close>)
  qed
qed

lemma inv_close:
  assumes "stream_inv s" "a < sm_fresh s" "sm_byID s (hb_id (sm_hubs s a)) \<noteq> Some a"
  shows "stream_inv (close_pending a s)"
proof -
  note h = inv_parts [OF assms(1,2)]
  show ?thesis
  proof (cases "hb_closed (sm_hubs s a)")
    case True
    show ?thesis
      by (rule inv_hub_step [OF assms(1,2)])
        (use h(1,5,6) True in \<open>auto simp: close_pending_def close_def hub_ok_def Let_def\<close>)
  next
    case False
    show ?thesis
      by (rule inv_hub_step [OF assms(1,2)])
        (use h(1,5) False assms(3) in \<open>auto simp: close_pending_def close_def hub_ok_def Let_def\<close>)
  qed
qed

lemma inv_broadcast:
  assumes "stream_inv s" "a < sm_fresh s"
  shows "stream_inv (broadcast a f now s)"
proof -
  note h = inv_parts [OF assms]
  let ?h = "sm_hubs s a"
  let ?k = "map (offer f now) (filter (\<lambda>v. \<not> stalled (hb_stall ?h) now v) (hb_viewers ?h))"
  have oc: "v_chan (offer f now v) = v_chan v" for v by (simp add: offer_def)
  have oq: "length (v_queue v) \<le> viewerBuffer \<Longrightarrow> length (v_queue (offer f now v)) \<le> viewerBuffer" for v
    by (auto simp: offer_def viewerBuffer_def)
  have "int (length (hb_viewers ?h)) \<le> sc_MaxViewers (sm_cfg s)" using h(1) by (simp add: hub_ok_def Let_def)
  then have len: "int (length (filter (\<lambda>v. \<not> stalled (hb_stall ?h) now v) (hb_viewers ?h))) \<le> sc_MaxViewers (sm_cfg s)"
    using length_filter_le [of "\<lambda>v. \<not> stalled (hb_stall ?h) now v" "hb_viewers ?h"] by linarith
  have mk: "map v_chan ?k = map v_chan (filter (\<lambda>v. \<not> stalled (hb_stall ?h) now v) (hb_viewers ?h))"
    by (simp add: oc)
  have dis: "distinct (map v_chan ?k)"
    unfolding mk using h(1) by (simp add: hub_ok_def Let_def distinct_map_filter)
  have cl: "hb_closed ?h \<Longrightarrow> hb_viewers ?h = []" using h(1) by (simp add: hub_ok_def Let_def)
  have disj: "v_chan v \<noteq> v_chan w" if "v \<in> set (hb_viewers ?h)" "w \<in> set (hb_viewers ?h)"
      "stalled (hb_stall ?h) now v" "\<not> stalled (hb_stall ?h) now w" for v w
    using that h(1) by (auto simp: hub_ok_def Let_def distinct_map inj_on_def)
  let ?out = "filter (stalled (hb_stall ?h) now) (hb_viewers ?h)"
  have dset: "v_chan v \<notin> v_chan ` {x \<in> set (hb_viewers ?h). stalled (hb_stall ?h) now x}"
    if "v \<in> set (hb_viewers ?h)" "\<not> stalled (hb_stall ?h) now v" for v
    using disj that by (metis (no_types, lifting) imageE mem_Collect_eq)
  let ?s1 = "(set_hub a (?h\<lparr>hb_viewers := ?k\<rparr>) s)\<lparr>sm_shut := sm_shut s \<union> v_chan ` set ?out\<rparr>"
  have ok: "hub_ok ?s1 a"
    using h(1) len dis dset cl oq by (auto simp: hub_ok_def Let_def oc simp del: map_map)
  have nil: "?out = [] \<Longrightarrow> ?k = [] \<Longrightarrow> hb_viewers ?h = []" by (induction "hb_viewers ?h") (auto simp: filter_empty_conv)
  show ?thesis
  proof (cases "?out \<noteq> [] \<and> ?k = []")
    case True
    then have c: "\<not> hb_closed ?h" using cl by auto
    have eq: "broadcast a f now s = armLingerLocked a ?s1" using True by (simp add: broadcast_def Let_def)
    show ?thesis
      unfolding eq
      by (rule inv_hub_step [OF assms])
        (use ok c in \<open>auto simp: arm_hubs arm_timers hub_ok_def Let_def oc image_image\<close>)
  next
    case False
    then have eq: "broadcast a f now s = ?s1" by (auto simp: broadcast_def Let_def)
    show ?thesis
      unfolding eq
    proof (rule inv_hub_step [OF assms])
      show "(a, hb_idleGen (sm_hubs ?s1 a)) \<in> sm_timers ?s1 \<union> sm_fired ?s1 \<union> sm_reaps ?s1"
        if "sm_byID s i = Some a" "hb_viewers (sm_hubs ?s1 a) = []" for i
        using that False nil h(6) by auto
    qed (use ok in \<open>auto simp: oc image_image\<close>)
  qed
qed

lemma inv_pump_exit:
  assumes "stream_inv s" "(a, p) \<in> sm_pumps s"
  shows "stream_inv (pump_exit a p s)"
proof -
  have a: "a < sm_fresh s" using assms by (auto simp: stream_inv_def own_inv_def)
  note h = inv_parts [OF assms(1) a]
  show ?thesis
  proof (cases "p \<in> sm_cancelled s \<or> hb_pump (sm_hubs s a) \<noteq> Some p")
    case True
    then have ne: "hb_pump (sm_hubs s a) \<noteq> Some p" using h(1) by (auto simp: hub_ok_def Let_def)
    show ?thesis
      by (rule inv_hub_step [OF assms(1) a])
        (use True ne h(1,5,6) in \<open>auto simp: pump_exit_def settlePump_def hub_ok_def Let_def\<close>)
  next
    case False
    then have c: "\<not> hb_closed (sm_hubs s a)" using h(1) by (auto simp: hub_ok_def Let_def)
    show ?thesis
      by (rule inv_hub_step [OF assms(1) a])
        (use False c h(1,2) in \<open>auto simp: pump_exit_def settlePump_def arm_hubs arm_timers hub_ok_def Let_def\<close>)
  qed
qed

lemma inv_errs:
  assumes "stream_inv s"
  shows "stream_inv (s\<lparr>sm_errs := e\<rparr>)"
  using assms by (simp add: stream_inv_def reg_inv_def hub_ok_def own_inv_def idle_inv_def)

lemma inv_turn:
  assumes "stream_inv s" "(a, p) \<in> sm_pumps s"
  shows "stream_inv (pump_turn tc a p r now s)"
proof -
  have a: "a < sm_fresh s" using assms by (auto simp: stream_inv_def own_inv_def)
  show ?thesis
    using inv_pump_exit [OF assms] inv_errs [OF assms(1)] inv_broadcast [OF inv_errs [OF assms(1)]] a
    by (auto simp: pump_turn_def split: pump_act.splits)
qed

section \<open>The manager's calls\<close>

lemma reg_unique:
  assumes "reg_inv s" "sm_byID s i = Some a" "sm_byID s j = Some a"
  shows "i = j"
  using assms unfolding reg_inv_def by metis

lemma reg_byID:
  assumes "reg_inv s" "sm_byID s i = Some a"
  shows "a < sm_fresh s" "hb_id (sm_hubs s a) = i" "sm_byUDID s (hb_udid (sm_hubs s a)) = Some a" "\<not> hb_closed (sm_hubs s a)"
  using assms unfolding reg_inv_def by blast+

lemma reg_byUDID:
  assumes "reg_inv s" "sm_byUDID s u = Some a"
  shows "hb_udid (sm_hubs s a) = u" "sm_byID s (hb_id (sm_hubs s a)) = Some a"
  using assms unfolding reg_inv_def by blast+

lemma reg_invI:
  assumes "\<And>i a. sm_byID s i = Some a \<Longrightarrow> a < sm_fresh s \<and> hb_id (sm_hubs s a) = i \<and>
      sm_byUDID s (hb_udid (sm_hubs s a)) = Some a \<and> \<not> hb_closed (sm_hubs s a)"
    "\<And>u a. sm_byUDID s u = Some a \<Longrightarrow> hb_udid (sm_hubs s a) = u \<and> sm_byID s (hb_id (sm_hubs s a)) = Some a"
    "finite (dom (sm_byID s))" "int (card (dom (sm_byID s))) \<le> sc_MaxStreams (sm_cfg s)" "0 < sc_MaxViewers (sm_cfg s)"
  shows "reg_inv s"
  using assms unfolding reg_inv_def by blast

text \<open>Unregistering the hub at \<open>a\<close>; \<open>t\<close> changes at most that hub.\<close>

lemma inv_unregister:
  assumes inv: "stream_inv s" and r: "sm_byID s i = Some a"
    and s': "s' = s\<lparr>sm_byID := (sm_byID s)(i := None), sm_byUDID := (sm_byUDID s)(hb_udid (sm_hubs s a) := None),
                     sm_closing := C\<rparr>"
    and C: "C \<subseteq> insert a (sm_closing s)"
  shows "stream_inv s'"
proof -
  have R: "reg_inv s" and H: "\<And>b. b < sm_fresh s \<Longrightarrow> hub_ok s b" and O: "own_inv s" and I: "idle_inv s"
    using inv by (auto simp: stream_inv_def)
  have a: "a < sm_fresh s" "hb_id (sm_hubs s a) = i" using R r by (auto simp: reg_inv_def)
  have card: "int (card (dom (sm_byID s) - {i})) \<le> sc_MaxStreams (sm_cfg s)"
  proof -
    have "card (dom (sm_byID s) - {i}) \<le> card (dom (sm_byID s))"
      using R by (intro card_mono) (auto simp: reg_inv_def)
    then show ?thesis using R unfolding reg_inv_def by linarith
  qed
  have "reg_inv s'"
  proof (rule reg_invI)
    fix j b
    assume "sm_byID s' j = Some b"
    then have j: "sm_byID s j = Some b" "j \<noteq> i" by (auto simp: s' split: if_splits)
    have "hb_udid (sm_hubs s b) \<noteq> hb_udid (sm_hubs s a)"
    proof
      assume "hb_udid (sm_hubs s b) = hb_udid (sm_hubs s a)"
      then have "b = a" using reg_byID(3) [OF R j(1)] reg_byID(3) [OF R r] by (metis option.inject)
      then show False using reg_unique [OF R j(1)] r j(2) by blast
    qed
    then show "b < sm_fresh s' \<and> hb_id (sm_hubs s' b) = j \<and>
      sm_byUDID s' (hb_udid (sm_hubs s' b)) = Some b \<and> \<not> hb_closed (sm_hubs s' b)"
      using reg_byID [OF R j(1)] by (simp add: s')
  next
    fix u b
    assume "sm_byUDID s' u = Some b"
    then have u: "sm_byUDID s u = Some b" "u \<noteq> hb_udid (sm_hubs s a)" by (auto simp: s' split: if_splits)
    then have "b \<noteq> a" using reg_byUDID [OF R u(1)] by auto
    then have "hb_id (sm_hubs s b) \<noteq> i" using reg_byUDID [OF R u(1)] r by auto
    then show "hb_udid (sm_hubs s' b) = u \<and> sm_byID s' (hb_id (sm_hubs s' b)) = Some b"
      using reg_byUDID [OF R u(1)] by (simp add: s')
  qed (use R card in \<open>auto simp: reg_inv_def s'\<close>)
  moreover have "hub_ok s' b" if "b < sm_fresh s" for b
    using H [OF that] by (simp add: hub_ok_def s')
  moreover have "own_inv s'"
  proof -
    have "x < sm_fresh s \<and> ((sm_byID s)(i := None)) (hb_id (sm_hubs s x)) \<noteq> Some x" if "x \<in> C" for x
      using that C a O by (cases "x = a") (auto simp: own_inv_def)
    then show ?thesis using O unfolding own_inv_def s' by simp
  qed
  moreover have "idle_inv s'"
    using I unfolding idle_inv_def s' by (auto split: if_splits)
  ultimately show ?thesis by (simp add: stream_inv_def s')
qed

lemma inv_Close_stream: "stream_inv s \<Longrightarrow> stream_inv (snd (Close_stream i s))"
  by (auto simp: Close_stream_def split: option.splits intro: inv_unregister)

lemma inv_CloseAll:
  assumes "stream_inv s"
  shows "stream_inv (CloseAll s)"
proof -
  have R: "reg_inv s" and H: "\<And>b. b < sm_fresh s \<Longrightarrow> hub_ok s b" and O: "own_inv s"
    using assms by (auto simp: stream_inv_def)
  have "0 \<le> sc_MaxStreams (sm_cfg s)" using R by (auto simp: reg_inv_def)
  then have "reg_inv (CloseAll s)" using R by (simp add: reg_inv_def CloseAll_def)
  moreover have "hub_ok (CloseAll s) b" if "b < sm_fresh s" for b
    using H [OF that] by (simp add: hub_ok_def CloseAll_def)
  moreover have "a < sm_fresh s" if "a \<in> ran (sm_byID s)" for a
    using R that by (auto simp: reg_inv_def ran_def)
  then have "own_inv (CloseAll s)" using O unfolding own_inv_def CloseAll_def by auto
  moreover have "idle_inv (CloseAll s)" by (simp add: idle_inv_def CloseAll_def)
  ultimately show ?thesis by (simp add: stream_inv_def CloseAll_def)
qed

lemma inv_reap:
  assumes "stream_inv s" "(a, g) \<in> sm_reaps s"
  shows "stream_inv (reap a g s)"
proof -
  have a: "a < sm_fresh s" using assms by (auto simp: stream_inv_def own_inv_def)
  note h = inv_parts [OF assms(1) a]
  let ?h = "sm_hubs s a"
  show ?thesis
  proof (cases "sm_byID s (hb_id ?h) = Some a \<and> \<not> hb_closed ?h \<and> g = hb_idleGen ?h \<and> hb_viewers ?h = []")
    case True
    let ?u = "s\<lparr>sm_byID := (sm_byID s)(hb_id ?h := None), sm_byUDID := (sm_byUDID s)(hb_udid ?h := None), sm_closing := sm_closing s\<rparr>"
    have u: "stream_inv ?u"
      by (rule inv_unregister [OF assms(1), of "hb_id ?h" a]) (use True in auto)
    show ?thesis
      by (rule inv_hub_step [OF u, of a])
        (use True a h(1) in \<open>auto simp: reap_def closeIfStillIdle_def hub_ok_def Let_def split: if_splits dest!: h(5)\<close>)
  next
    case False
    then have eq: "reap a g s = s\<lparr>sm_reaps := sm_reaps s - {(a, g)}\<rparr>"
      by (auto simp: reap_def closeIfStillIdle_def Let_def)
    show ?thesis
      unfolding eq
    proof (rule inv_hub_step [OF assms(1) a])
      fix i
      assume i: "sm_byID s i = Some a" "hb_viewers (sm_hubs (s\<lparr>sm_reaps := sm_reaps s - {(a, g)}\<rparr>) a) = []"
      then have "g \<noteq> hb_idleGen ?h" using False h(5) by auto
      then show "(a, hb_idleGen (sm_hubs (s\<lparr>sm_reaps := sm_reaps s - {(a, g)}\<rparr>) a)) \<in>
          sm_timers (s\<lparr>sm_reaps := sm_reaps s - {(a, g)}\<rparr>) \<union> sm_fired (s\<lparr>sm_reaps := sm_reaps s - {(a, g)}\<rparr>) \<union>
          sm_reaps (s\<lparr>sm_reaps := sm_reaps s - {(a, g)}\<rparr>)"
        using h(6) [OF i(1)] i(2) by auto
    qed (use h(1) in \<open>auto simp: hub_ok_def Let_def\<close>)
  qed
qed

lemma inv_Open_new:
  assumes inv: "stream_inv s" and i: "sm_byID s i = None" and u: "sm_byUDID s udid = None"
    and room: "int (card (dom (sm_byID s))) < sc_MaxStreams (sm_cfg s)"
    and h: "hb_id h = i" "hb_udid h = udid" "\<not> hb_closed h" "hb_viewers h = []" "hb_pump h = None" "hb_lingerT h = None"
      "hb_maxViewers h = sc_MaxViewers (sm_cfg s)"
  defines "a \<equiv> sm_fresh s"
  shows "stream_inv (armLingerLocked a ((set_hub a h s)\<lparr>sm_byID := (sm_byID s)(i \<mapsto> a),
           sm_byUDID := (sm_byUDID s)(udid \<mapsto> a), sm_fresh := Suc a\<rparr>))" (is "stream_inv (armLingerLocked a ?u)")
proof -
  let ?t = "armLingerLocked a ?u"
  have R: "reg_inv s" and H: "\<And>b. b < sm_fresh s \<Longrightarrow> hub_ok s b" and O: "own_inv s" and I: "idle_inv s"
    using inv by (auto simp: stream_inv_def)
  have open_h: "\<not> hb_closed (sm_hubs ?u a)" using h(3) by simp
  note th = arm_hubs(1) [OF open_h] and tt = arm_timers [OF open_h]
  have other: "sm_hubs ?t b = sm_hubs s b" if "b < a" for b using that th by simp
  have lt: "b < a" if "sm_byID s j = Some b \<or> sm_byUDID s v = Some b" for b j v
    using that reg_byID(1) [OF R] reg_byUDID(2) [OF R] unfolding a_def by blast
  have "card (dom (sm_byID ?t)) = Suc (card (dom (sm_byID s)))"
    using R i by (auto simp: reg_inv_def card_insert_if)
  then have card: "int (card (dom (sm_byID ?t))) \<le> sc_MaxStreams (sm_cfg ?t)" using room by simp
  have reg: "reg_inv ?t"
  proof (rule reg_invI)
    fix j b
    assume j: "sm_byID ?t j = Some b"
    show "b < sm_fresh ?t \<and> hb_id (sm_hubs ?t b) = j \<and>
      sm_byUDID ?t (hb_udid (sm_hubs ?t b)) = Some b \<and> \<not> hb_closed (sm_hubs ?t b)"
    proof (cases "j = i")
      case True
      then show ?thesis using j h th by simp
    next
      case False
      then have sj: "sm_byID s j = Some b" using j by simp
      then have "b < a" "hb_udid (sm_hubs s b) \<noteq> udid" using lt reg_byID [OF R sj] u by auto
      then show ?thesis using reg_byID [OF R sj] other by simp
    qed
  next
    fix v b
    assume v: "sm_byUDID ?t v = Some b"
    show "hb_udid (sm_hubs ?t b) = v \<and> sm_byID ?t (hb_id (sm_hubs ?t b)) = Some b"
    proof (cases "v = udid")
      case True
      then show ?thesis using v h th by simp
    next
      case False
      then have sv: "sm_byUDID s v = Some b" using v by simp
      then have "b < a" "hb_id (sm_hubs s b) \<noteq> i" using lt reg_byUDID [OF R sv] i by auto
      then show ?thesis using reg_byUDID [OF R sv] other by simp
    qed
  qed (use R card in \<open>auto simp: reg_inv_def\<close>)
  have ok: "hub_ok ?t b" if "b < Suc a" for b
  proof (cases "b = a")
    case True
    then show ?thesis using h th R by (auto simp: hub_ok_def reg_inv_def Let_def)
  next
    case False
    then show ?thesis using H [of b] that other [of b] by (simp add: hub_ok_def Let_def a_def)
  qed
  have tl: "b < Suc a" if "(b, g) \<in> sm_timers s \<union> sm_fired s \<union> sm_reaps s" for b g
  proof -
    have "b < a" using that O unfolding own_inv_def a_def by blast
    then show ?thesis by simp
  qed
  have own: "own_inv ?t"
    unfolding own_inv_def
  proof (intro conjI allI impI ballI)
    fix x y
    assume "x < sm_fresh ?t" "y < sm_fresh ?t" "x \<noteq> y"
    then show "v_chan ` set (hb_viewers (sm_hubs ?t x)) \<inter> v_chan ` set (hb_viewers (sm_hubs ?t y)) = {}"
      using O th h(4) unfolding own_inv_def by (cases "x = a"; cases "y = a") (auto simp: a_def)
  next
    fix x y p
    assume "(x, p) \<in> sm_pumps ?t" "(y, p) \<in> sm_pumps ?t"
    then show "x = y" using O unfolding own_inv_def by simp
  next
    fix x p
    assume "(x, p) \<in> sm_pumps ?t"
    then have "x < a \<and> p < sm_pid s" using O unfolding own_inv_def a_def by simp
    then show "x < sm_fresh ?t" "p < sm_pid ?t" by simp_all
  next
    fix x assume "x \<in> sm_timers ?t \<union> sm_fired ?t \<union> sm_reaps ?t"
    then show "case x of (b, g) \<Rightarrow> b < sm_fresh ?t" using tl tt by (cases x) (auto simp: less_SucI)
  next
    fix x assume "x \<in> sm_closing ?t"
    then have x: "x < a" "sm_byID s (hb_id (sm_hubs s x)) \<noteq> Some x" using O unfolding own_inv_def a_def by auto
    then show "x < sm_fresh ?t" "sm_byID ?t (hb_id (sm_hubs ?t x)) \<noteq> Some x" using other [OF x(1)] by simp_all
  qed (use O in \<open>simp_all add: own_inv_def\<close>)
  have "idle_inv ?t"
    unfolding idle_inv_def
  proof (intro allI impI)
    fix j b
    assume j: "sm_byID ?t j = Some b" "hb_viewers (sm_hubs ?t b) = []"
    show "(b, hb_idleGen (sm_hubs ?t b)) \<in> sm_timers ?t \<union> sm_fired ?t \<union> sm_reaps ?t"
    proof (cases "b = a")
      case True
      then show ?thesis using th tt by simp
    next
      case False
      then have "sm_byID s j = Some b" using j(1) by (auto split: if_splits)
      then show ?thesis using I j(2) other [OF lt] tt False unfolding idle_inv_def by fastforce
    qed
  qed
  then show ?thesis using reg ok own by (simp add: stream_inv_def less_Suc_eq_le)
qed

lemma inv_Open:
  assumes "stream_inv s" "sm_byID s i = None"
  shows "stream_inv (snd (Open udid req i s))"
proof (cases "check_request req")
  case (Inl e)
  then show ?thesis using assms(1) by (simp add: Open_def)
next
  case (Inr u)
  show ?thesis
  proof (cases "sm_byUDID s udid")
    case (Some a)
    have "a < sm_fresh s"
      using assms(1) Some reg_byUDID(2) reg_byID(1) by (metis stream_inv_def)
    then show ?thesis
      using Inr Some assms(1) inv_arm by (simp add: Open_def find_hub_def)
  next
    case None
    show ?thesis
    proof (cases "int (card (dom (sm_byID s))) \<ge> sc_MaxStreams (sm_cfg s)")
      case True
      then show ?thesis using Inr None assms(1) by (simp add: Open_def find_hub_def)
    next
      case False
      let ?h = "newHub i udid (clampFPS (sm_cfg s) (sq_MaxFPS req)) (sq_MaxDim req) (sq_Quality req)
                  (sc_Linger (sm_cfg s)) (sc_MaxViewers (sm_cfg s))"
      have nv: "hb_viewers ?h = []" by (simp add: newHub_def)
      have "stream_inv (armLingerLocked (sm_fresh s) ((set_hub (sm_fresh s) ?h s)\<lparr>sm_byID := (sm_byID s)(i \<mapsto> sm_fresh s),
           sm_byUDID := (sm_byUDID s)(udid \<mapsto> sm_fresh s), sm_fresh := Suc (sm_fresh s)\<rparr>))"
        by (rule inv_Open_new [OF assms None]) (use False in \<open>simp_all add: newHub_def\<close>)
      then show ?thesis using Inr None False nv by (simp add: Open_def find_hub_def Let_def)
    qed
  qed
qed

lemma inv_sstep: "sstep tc s s' \<Longrightarrow> stream_inv s \<Longrightarrow> stream_inv s'"
proof (induction rule: sstep.induct)
  case (hub_close a s)
  then show ?case by (intro inv_close) (auto simp: stream_inv_def own_inv_def)
qed (auto intro: inv_Open inv_Close_stream inv_CloseAll inv_attach inv_detach inv_take inv_fire inv_callback
  inv_reap inv_turn inv_pump_exit)

lemma inv_NewManager: "stream_inv (NewManager cfg)"
  by (simp add: stream_inv_def reg_inv_def own_inv_def idle_inv_def NewManager_def withDefaults_def
    DefaultMaxStreams_def DefaultMaxViewers_def)

definition reachable_streams :: "(string \<Rightarrow> int \<Rightarrow> int \<Rightarrow> string option) \<Rightarrow> stream_config \<Rightarrow> streams \<Rightarrow> bool" where
  "reachable_streams tc cfg s \<longleftrightarrow> (sstep tc)\<^sup>*\<^sup>* (NewManager cfg) s"

lemma reachable_inv: "reachable_streams tc cfg s \<Longrightarrow> stream_inv s"
  unfolding reachable_streams_def
  by (induction rule: rtranclp_induct) (auto intro: inv_NewManager inv_sstep)

lemma cfg_sstep: "sstep tc s s' \<Longrightarrow> sm_cfg s' = sm_cfg s"
  by (induction rule: sstep.induct)
    (auto simp: Open_def find_hub_def Close_stream_def CloseAll_def close_pending_def close_def attach_def startPumpLocked_def
      detach_def take_frame_def timer_fires_def linger_callback_def reap_def closeIfStillIdle_def pump_turn_def
      broadcast_def pump_exit_def settlePump_def Let_def split: option.splits sum.splits pump_act.splits)

lemma reachable_cfg: "reachable_streams tc cfg s \<Longrightarrow> sm_cfg s = withDefaults cfg"
  unfolding reachable_streams_def
  by (induction rule: rtranclp_induct) (auto simp: NewManager_def cfg_sstep)

text \<open>
  C36. In every state the streamer reaches, under any interleaving of viewers, timer callbacks, reaps,
  pumps and the manager's calls: the two indexes name the same open hubs, at most as many as configured; no
  hub has more viewers than configured and no queue more than four frames; a viewer's channel is never a closed
  one, so that no send or second close panics; where a viewer waits, a pump runs that nobody has cancelled; and
  a registered stream without viewers has its idle window open, so that it cannot stay registered forever.
\<close>

theorem stream_safe:
  assumes "reachable_streams tc cfg s"
  shows "(\<forall>i a. sm_byID s i = Some a \<longleftrightarrow>
           hb_id (sm_hubs s a) = i \<and> sm_byUDID s (hb_udid (sm_hubs s a)) = Some a) \<and>
    int (card (dom (sm_byID s))) \<le> sc_MaxStreams (withDefaults cfg) \<and>
    (\<forall>i a. stream_get i s = Some a \<longrightarrow> \<not> hb_closed (sm_hubs s a) \<and>
       int (viewerCount a s) \<le> sc_MaxViewers (withDefaults cfg) \<and>
       (\<forall>v \<in> set (hb_viewers (sm_hubs s a)). length (v_queue v) \<le> viewerBuffer \<and> v_chan v \<notin> sm_shut s) \<and>
       (if hb_viewers (sm_hubs s a) \<noteq> []
        then \<exists>p. hb_pump (sm_hubs s a) = Some p \<and> (a, p) \<in> sm_pumps s \<and> p \<notin> sm_cancelled s
        else (a, idleGeneration a s) \<in> sm_timers s \<union> sm_fired s \<union> sm_reaps s))"
proof -
  have inv: "stream_inv s" by (rule reachable_inv [OF assms])
  have cfg: "sm_cfg s = withDefaults cfg" by (rule reachable_cfg [OF assms])
  have R: "reg_inv s" and H: "\<And>b. b < sm_fresh s \<Longrightarrow> hub_ok s b" and I: "idle_inv s"
    using inv by (auto simp: stream_inv_def)
  have "sm_byID s i = Some a \<longleftrightarrow> hb_id (sm_hubs s a) = i \<and> sm_byUDID s (hb_udid (sm_hubs s a)) = Some a" for i a
    using reg_byID [OF R] reg_byUDID [OF R] by metis
  moreover have "int (card (dom (sm_byID s))) \<le> sc_MaxStreams (withDefaults cfg)"
    using R cfg by (simp add: reg_inv_def)
  moreover have "\<not> hb_closed (sm_hubs s a) \<and> int (viewerCount a s) \<le> sc_MaxViewers (withDefaults cfg) \<and>
       (\<forall>v \<in> set (hb_viewers (sm_hubs s a)). length (v_queue v) \<le> viewerBuffer \<and> v_chan v \<notin> sm_shut s) \<and>
       (if hb_viewers (sm_hubs s a) \<noteq> []
        then \<exists>p. hb_pump (sm_hubs s a) = Some p \<and> (a, p) \<in> sm_pumps s \<and> p \<notin> sm_cancelled s
        else (a, idleGeneration a s) \<in> sm_timers s \<union> sm_fired s \<union> sm_reaps s)"
    if "stream_get i s = Some a" for i a
  proof -
    have r: "sm_byID s i = Some a" using that by (simp add: stream_get_def)
    have h: "hub_ok s a" by (rule H [OF reg_byID(1) [OF R r]])
    show ?thesis
      using reg_byID(4) [OF R r] h I r cfg
      by (auto simp: hub_ok_def Let_def viewerCount_def idleGeneration_def idle_inv_def)
  qed
  ultimately show ?thesis by blast
qed

definition demo_req :: stream_request where
  "demo_req = \<lparr>sq_Format = [], sq_MaxFPS = 0, sq_MaxDim = 0, sq_Quality = 0\<rparr>"

definition demo_streams :: streams where
  "demo_streams = snd (attach 0 5 (snd (Open ''u'' demo_req ''i'' (NewManager \<lparr>sc_MaxStreams = 0, sc_MaxViewers = 0,
     sc_DefaultFPS = 0, sc_MaxFPS = 0, sc_Linger = 0\<rparr>))))"

text \<open>A stream that was opened and has one viewer.\<close>

theorem stream_safe_witness:
  "stream_get ''i'' demo_streams = Some 0 \<and> viewerCount 0 demo_streams = 1 \<and>
   (\<exists>p. hb_pump (sm_hubs demo_streams 0) = Some p \<and> p \<notin> sm_cancelled demo_streams)"
proof -
  let ?cfg = "\<lparr>sc_MaxStreams = 0, sc_MaxViewers = 0, sc_DefaultFPS = 0, sc_MaxFPS = 0, sc_Linger = 0\<rparr>"
  let ?s1 = "snd (Open ''u'' demo_req ''i'' (NewManager ?cfg))"
  note defs = Open_def check_request_def demo_req_def FormatMJPEG_def find_hub_def NewManager_def withDefaults_def newHub_def
    DefaultMaxStreams_def DefaultMaxViewers_def Let_def stream_get_def viewerCount_def attach_def startPumpLocked_def arm_hubs
  have "sm_byID (NewManager ?cfg) ''i'' = None" "0 < sm_fresh ?s1"
    by (simp_all add: defs)
  then have reach: "reachable_streams (\<lambda>_ _ _. None) ?cfg demo_streams"
    unfolding reachable_streams_def demo_streams_def
    by (meson rtranclp.rtrancl_into_rtrancl rtranclp.rtrancl_refl sstep.open_stream sstep.viewer_attach)
  have g: "stream_get ''i'' demo_streams = Some 0" "viewerCount 0 demo_streams = 1"
    by (simp_all add: demo_streams_def defs)
  then have ne: "hb_viewers (sm_hubs demo_streams 0) \<noteq> []" by (auto simp: viewerCount_def)
  have "if hb_viewers (sm_hubs demo_streams 0) \<noteq> []
        then \<exists>p. hb_pump (sm_hubs demo_streams 0) = Some p \<and> (0, p) \<in> sm_pumps demo_streams \<and> p \<notin> sm_cancelled demo_streams
        else (0, idleGeneration 0 demo_streams) \<in> sm_timers demo_streams \<union> sm_fired demo_streams \<union> sm_reaps demo_streams"
    using stream_safe [OF reach] g(1) by blast
  then show ?thesis using g ne by auto
qed

section \<open>Reaping and broadcasting\<close>

text \<open>
  A reap unregisters a stream only when nothing happened to it since its timer fired: the generation is
  that of the timer, so no viewer attached and no \<^verbatim>\<open>Open\<close> re-armed it. A viewer that had looked the hub up is told
  that the stream is closed.
\<close>

lemma reap_only_idle:
  assumes "stream_inv s" "a < sm_fresh s" "reap a g s = s'" "sm_byID s (hb_id (sm_hubs s a)) = Some a"
  shows "(sm_byID s' (hb_id (sm_hubs s a)) = None \<longleftrightarrow> g = idleGeneration a s \<and> hb_viewers (sm_hubs s a) = []) \<and>
    (sm_byID s' (hb_id (sm_hubs s a)) = None \<longrightarrow> fst (attach a now s') = Inl ErrStreamClosed)"
proof -
  have c: "\<not> hb_closed (sm_hubs s a)" using inv_parts(5) [OF assms(1,2,4)] by simp
  show ?thesis
  proof (cases "g = hb_idleGen (sm_hubs s a) \<and> hb_viewers (sm_hubs s a) = []")
    case True
    then show ?thesis
      using assms(3,4) c by (auto simp: reap_def closeIfStillIdle_def idleGeneration_def attach_def Let_def)
  next
    case False
    then have "s' = s\<lparr>sm_reaps := sm_reaps s - {(a, g)}\<rparr>"
      using assms(3,4) c by (auto simp: reap_def closeIfStillIdle_def)
    then show ?thesis using False assms(4) by (auto simp: idleGeneration_def)
  qed
qed

lemma generation_moves:
  "\<not> hb_closed (sm_hubs s a) \<Longrightarrow> idleGeneration a (armLingerLocked a s) = Suc (idleGeneration a s)"
  "fst (attach a now s) = Inr ch \<Longrightarrow> idleGeneration a (snd (attach a now s)) = Suc (idleGeneration a s)"
  by (auto simp: idleGeneration_def arm_hubs attach_def startPumpLocked_def Let_def split: if_splits)

text \<open>The latest frame wins: who stays has it at the end of the queue, after frames in the order they were sent.\<close>

lemma offer_latest:
  "length (v_queue v) \<le> viewerBuffer \<Longrightarrow>
   last (v_queue (offer f now v)) = f \<and> length (v_queue (offer f now v)) \<le> viewerBuffer \<and>
   (\<exists>k \<le> 1. v_queue (offer f now v) = drop k (v_queue v) @ [f])"
proof -
  assume len: "length (v_queue v) \<le> viewerBuffer"
  show ?thesis
  proof (cases "length (v_queue v) < viewerBuffer")
    case True
    then have "v_queue (offer f now v) = drop 0 (v_queue v) @ [f]" by (simp add: offer_def)
    then show ?thesis using True by (metis Suc_leI last_snoc drop0 length_append_singleton zero_le)
  next
    case False
    then have "v_queue (offer f now v) = drop 1 (v_queue v) @ [f]" by (simp add: offer_def drop_Suc)
    then show ?thesis using len False
      by (auto simp: viewerBuffer_def intro: exI [of _ "1 :: nat"])
  qed
qed

lemma broadcast_viewers:
  "hb_viewers (sm_hubs (broadcast a f now s) a) =
     map (offer f now) (filter (\<lambda>v. \<not> stalled (hb_stall (sm_hubs s a)) now v) (hb_viewers (sm_hubs s a)))"
  by (cases "hb_closed (sm_hubs s a)") (auto simp: broadcast_def Let_def arm_hubs)

lemma broadcast_peers: "b \<noteq> a \<Longrightarrow> sm_hubs (broadcast a f now s) b = sm_hubs s b"
  by (cases "hb_closed (sm_hubs s a)") (auto simp: broadcast_def Let_def arm_hubs)

text \<open>A pump gives up after five failed captures in a row, and only then.\<close>

fun failed_turns :: "nat \<Rightarrow> nat \<Rightarrow> pump_act" where
  "failed_turns 0 errs = PumpRetry errs"
| "failed_turns (Suc n) errs = (case pump_next False errs CaptureFailed of PumpRetry e \<Rightarrow> failed_turns n e | r \<Rightarrow> r)"

lemma pump_gives_up: "failed_turns n 0 = (if n < maxCaptureErrors then PumpRetry n else PumpExit)"
proof -
  have "e \<le> 4 \<Longrightarrow> failed_turns n e = (if n + e < 5 then PumpRetry (n + e) else PumpExit)" for e
    by (induction n arbitrary: e) (auto simp: pump_next_def maxCaptureErrors_def)
  then show ?thesis by (simp add: maxCaptureErrors_def)
qed

lemma clampFPS_bounds:
  "1 \<le> clampFPS (withDefaults c) fps \<and> clampFPS (withDefaults c) fps \<le> sc_MaxFPS (withDefaults c)"
  by (simp add: clampFPS_def withDefaults_def DefaultFPS_def DefaultMaxFPS_def Let_def)

end
