(* ===== verification/Mz_RunSpec.thy ===== *)
theory Mz_RunSpec
  imports Mz_Journal Mz_Registry Mz_Lease
begin

text \<open>
  Run specifications and run resources (\<^verbatim>\<open>proto/runs.go\<close>), the client's checks (\<^verbatim>\<open>internal/runspec\<close>)
  and the daemon's (\<^verbatim>\<open>validateRunSpec\<close> of \<^verbatim>\<open>internal/server/runs.go\<close>), the resolution of timeouts and labels,
  and the verdict of a finished run (\<^verbatim>\<open>computeVerdict\<close> of \<^verbatim>\<open>runs_drift.go\<close>).

  The message of a wire error is the list of its parts: literal text and the arguments of the format,
  whose rendering (\<^verbatim>\<open>%q\<close>, the text of a duration or of an error value) is not modelled. A duration computed
  from a number of seconds wraps at 64 bits, as \<^verbatim>\<open>time.Duration(n) * time.Second\<close> does.
\<close>

section \<open>Wire errors\<close>

datatype mismatch = TextsBelow rat rat | HashBeyond nat int string "64 word"

datatype part =
    T string
  | Quoted string            \<comment> \<open>\<^verbatim>\<open>%q\<close>\<close>
  | Number int               \<comment> \<open>\<^verbatim>\<open>%d\<close>\<close>
  | Span duration            \<comment> \<open>\<^verbatim>\<open>%s\<close> of a duration\<close>
  | LeaseText lease_error    \<comment> \<open>\<^verbatim>\<open>err.Error()\<close>\<close>
  | RegText reg_error
  | StateText TargetState
  | Mismatches "mismatch list"

record wire_error =
  we_Code :: string
  we_Message :: "part list"
  we_Detail :: "part list"
  we_RetryAfterSeconds :: int

definition mk_error :: "string \<Rightarrow> part list \<Rightarrow> wire_error" where
  "mk_error code msg = \<lparr>we_Code = code, we_Message = msg, we_Detail = [], we_RetryAfterSeconds = 0\<rparr>"

definition prefixWireError :: "part list \<Rightarrow> wire_error \<Rightarrow> wire_error" where
  "prefixWireError p e = e\<lparr>we_Message := p @ T '': '' # we_Message e\<rparr>"

section \<open>Specifications and resources\<close>

record run_fixture =
  fx_Name :: string
  fx_Payload :: payload

record run_target =
  tg_Labels :: "string list"
  tg_UDID :: string
  tg_Runtime :: string
  tg_DeviceType :: string
  tg_Image :: string
  tg_Fixtures :: "run_fixture list"
  tg_Reset :: string

record run_app =
  ap_Path :: string
  ap_BundleID :: string
  ap_Launch :: "bool option"
  ap_TerminateRunning :: bool
  ap_Args :: "string list"

record run_expect =
  xp_Texts :: "string list"
  xp_JaccardMin :: rat
  xp_Fingerprint :: string
  xp_MaxHashDistance :: "int option"

record run_step =
  st_Name :: string
  st_Action :: string
  st_With :: payload
  st_TimeoutSeconds :: int
  st_ContinueOnError :: bool
  st_MaestroFlow :: string
  st_Expect :: "run_expect option"

record run_artifacts =
  af_FinalScreenshot :: "bool option"
  af_Export :: "bool option"

record run_timeouts =
  to_AcquireSeconds :: int
  to_RunSeconds :: int
  to_StepSeconds :: int

record run_spec =
  sp_Name :: string
  sp_Target :: run_target
  sp_App :: "run_app option"
  sp_Steps :: "run_step list"
  sp_Artifacts :: run_artifacts
  sp_Timeouts :: run_timeouts
  sp_StrictDrift :: bool
  sp_RecordExpectations :: bool

datatype run_state = RunPending | RunRunning | RunPassed | RunFailed
datatype step_status = StepOK | StepError | StepSkipped
datatype run_verdict = NoVerdict | VerdictTrusted | VerdictDegraded | VerdictUnverified

datatype run_stage = NoStage | StageAcquire | StageBoot | StageFixtures | StageInstall | StageLaunch
  | StageSteps | StageArtifacts | StageRelease

fun stage_text :: "run_stage \<Rightarrow> string" where
  "stage_text NoStage = []"
| "stage_text StageAcquire = ''acquire''"
| "stage_text StageBoot = ''boot''"
| "stage_text StageFixtures = ''fixtures''"
| "stage_text StageInstall = ''install''"
| "stage_text StageLaunch = ''launch''"
| "stage_text StageSteps = ''steps''"
| "stage_text StageArtifacts = ''artifacts''"
| "stage_text StageRelease = ''release''"

text \<open>Why a step drifted, or why its check was skipped.\<close>

datatype drift_detail = NoDetail | CheckSkipped "part list" | Drift "mismatch list"

record step_result =
  sr_Index :: nat
  sr_Name :: string
  sr_Action :: string
  sr_Status :: step_status
  sr_Error :: "wire_error option"
  sr_DurationMS :: int
  sr_JournalRef :: "journal_ref option"
  sr_Verified :: "bool option"
  sr_Drifted :: bool
  sr_DriftDetail :: drift_detail

record run =
  rn_ID :: string
  rn_State :: run_state
  rn_Spec :: run_spec
  rn_AgentID :: string
  rn_LeaseID :: string
  rn_TargetUDID :: string
  rn_Stage :: run_stage
  rn_Steps :: "step_result list"
  rn_Verdict :: run_verdict
  rn_Error :: "wire_error option"
  rn_CreatedAt :: instant
  rn_StartedAt :: "instant option"
  rn_FinishedAt :: "instant option"
  rn_ExportMD :: string
  rn_Host :: string
  rn_HostAddr :: string

section \<open>Checking a specification\<close>

text \<open>\<^verbatim>\<open>strconv.ParseUint(s, 16, 64)\<close>: \<^const>\<open>None\<close> on a syntax or range error.\<close>

definition hex_value :: "char \<Rightarrow> nat option" where
  "hex_value c = (let n = of_char c :: nat in
     if 48 \<le> n \<and> n \<le> 57 then Some (n - 48)
     else if 97 \<le> n \<and> n \<le> 102 then Some (n - 87)
     else if 65 \<le> n \<and> n \<le> 70 then Some (n - 55) else None)"

fun hex_digits :: "nat \<Rightarrow> string \<Rightarrow> nat option" where
  "hex_digits acc [] = Some acc"
| "hex_digits acc (c # cs) = (case hex_value c of
      None \<Rightarrow> None
    | Some d \<Rightarrow> if 16 * acc + d < 2 ^ 64 then hex_digits (16 * acc + d) cs else None)"

definition ParseUint16 :: "string \<Rightarrow> 64 word option" where
  "ParseUint16 s = (if s = [] then None else map_option of_nat (hex_digits 0 s))"

text \<open>The first failing check, if any, of a list of checks in order.\<close>

fun first_error :: "(bool \<times> 'e) list \<Rightarrow> 'e option" where
  "first_error [] = None"
| "first_error ((bad, e) # cs) = (if bad then Some e else first_error cs)"

text \<open>The first error of a loop over indexed elements.\<close>

fun first_bad :: "(nat \<Rightarrow> 'a \<Rightarrow> 'e option) \<Rightarrow> nat \<Rightarrow> 'a list \<Rightarrow> 'e option" where
  "first_bad f i [] = None"
| "first_bad f i (x # xs) = (case f i x of Some e \<Rightarrow> Some e | None \<Rightarrow> first_bad f (Suc i) xs)"

text \<open>\<^verbatim>\<open>validateExpect\<close> of \<^verbatim>\<open>runspec\<close>.\<close>

definition validateExpect :: "nat \<Rightarrow> run_expect option \<Rightarrow> (part list) option" where
  "validateExpect i e = (case e of None \<Rightarrow> None | Some e \<Rightarrow>
     let p = (\<lambda>field msg. [T ''run-spec: steps['', Number (int i), T (''].expect'' @ field @ '': '' @ msg)]) in
     first_error
       ([(xp_Texts e = [] \<and> xp_Fingerprint e = [], p [] ''requires texts and/or fingerprint''),
         (list_ex (\<lambda>t. TrimSpace t = []) (xp_Texts e), p ''.texts'' ''entries must be non-empty''),
         (xp_JaccardMin e < 0 \<or> xp_JaccardMin e > 1, p ''.jaccard_min'' ''must be in (0, 1] (0 = default)''),
         (xp_JaccardMin e \<noteq> 0 \<and> xp_Texts e = [], p ''.jaccard_min'' ''requires texts''),
         (xp_Fingerprint e \<noteq> [] \<and> ParseUint16 (xp_Fingerprint e) = None, p ''.fingerprint'' ''must be a 64-bit hex DHash'')] @
        (case xp_MaxHashDistance e of None \<Rightarrow> [] | Some d \<Rightarrow>
           [(d < 0 \<or> d > 64, p ''.max_hash_distance'' ''must be in [0, 64]''),
            (xp_Fingerprint e = [], p ''.max_hash_distance'' ''requires fingerprint'')])))"

text \<open>\<^verbatim>\<open>Validate\<close> of \<^verbatim>\<open>runspec\<close>, with the body of its loop over the steps.\<close>

definition check_step :: "nat \<Rightarrow> run_step \<Rightarrow> (part list) option" where
  "check_step i st =
     (case first_error
        [(st_Action st = [] \<and> st_MaestroFlow st = [], [T ''run-spec: steps['', Number (int i), T '']: action is required'']),
         (st_Action st \<noteq> [] \<and> st_MaestroFlow st \<noteq> [],
          [T ''run-spec: steps['', Number (int i), T '']: action and maestro_flow are mutually exclusive''])] of
        Some e \<Rightarrow> Some e
      | None \<Rightarrow> validateExpect i (st_Expect st))"

definition Validate_spec :: "run_spec \<Rightarrow> (part list) option" where
  "Validate_spec spec = (let t = sp_Target spec in
     if tg_Labels t = [] \<and> tg_UDID t = [] \<and> tg_Runtime t = [] \<and> tg_DeviceType t = [] \<and> tg_Image t = []
     then Some [T ''run-spec: target requires at least one of labels, udid, runtime, or device_type'']
     else
       (case first_bad check_step 0 (sp_Steps spec) of
          Some e \<Rightarrow> Some e
        | None \<Rightarrow>
            (case sp_App spec of
               None \<Rightarrow> None
             | Some app \<Rightarrow> if ap_Path app = [] \<and> ap_BundleID app = []
                 then Some [T ''run-spec: app requires path and/or bundle_id''] else None)))"

text \<open>\<^verbatim>\<open>state.ValidResetSpec\<close>\<close>

definition ResetSnapshotPrefix :: string where "ResetSnapshotPrefix = ''snapshot:''"

definition ValidResetSpec :: "string \<Rightarrow> bool" where
  "ValidResetSpec spec \<longleftrightarrow>
     spec = [] \<or> spec = ''none'' \<or> spec = ''erase'' \<or>
     length spec > length ResetSnapshotPrefix \<and> take (length ResetSnapshotPrefix) spec = ResetSnapshotPrefix"

text \<open>\<^verbatim>\<open>validateRunExpects\<close>: the daemon's checks of the expect blocks.\<close>

definition expect_error :: "nat \<Rightarrow> run_expect \<Rightarrow> wire_error option" where
  "expect_error i e =
     (let bad = (\<lambda>msg. mk_error ''bad_request'' [T ''steps['', Number (int i), T (''].expect: '' @ msg)]) in
      first_error
        ([(xp_Texts e = [] \<and> xp_Fingerprint e = [], bad ''requires texts and/or fingerprint''),
          (xp_JaccardMin e < 0 \<or> xp_JaccardMin e > 1, bad ''jaccard_min must be in (0, 1] (0 = default)''),
          (xp_JaccardMin e \<noteq> 0 \<and> xp_Texts e = [], bad ''jaccard_min requires texts''),
          (xp_Fingerprint e \<noteq> [] \<and> ParseUint16 (xp_Fingerprint e) = None, bad ''fingerprint must be a 64-bit hex DHash'')] @
         (case xp_MaxHashDistance e of None \<Rightarrow> [] | Some d \<Rightarrow>
            [(d < 0 \<or> d > 64, bad ''max_hash_distance must be in [0, 64]''),
             (xp_Fingerprint e = [], bad ''max_hash_distance requires fingerprint'')])))"

definition validateRunExpects :: "run_spec \<Rightarrow> wire_error option" where
  "validateRunExpects spec =
     first_bad (\<lambda>i st. case st_Expect st of None \<Rightarrow> None | Some e \<Rightarrow> expect_error i e) 0 (sp_Steps spec)"

text \<open>What the daemon has wired, as far as the checks read it.\<close>

record build =
  bd_actions :: bool    \<comment> \<open>\<^verbatim>\<open>s.actions != nil\<close>\<close>
  bd_state :: bool      \<comment> \<open>\<^verbatim>\<open>s.state != nil\<close>\<close>
  bd_journal :: bool    \<comment> \<open>\<^verbatim>\<open>s.journal.Store() != nil\<close>\<close>
  bd_recorder :: bool   \<comment> \<open>\<^verbatim>\<open>s.recorder != nil\<close>\<close>
  bd_gates :: bool      \<comment> \<open>\<^verbatim>\<open>s.bootGates != nil\<close>\<close>
  bd_pool :: bool       \<comment> \<open>\<^verbatim>\<open>s.onLeaseEnd != nil\<close>\<close>
  bd_dashReadonly :: bool
  bd_leases :: bool     \<comment> \<open>\<^verbatim>\<open>s.leases != nil\<close>\<close>

definition resetSpecSupported :: "build \<Rightarrow> string \<Rightarrow> bool" where
  "resetSpecSupported bd reset \<longleftrightarrow> bd_state bd \<or> reset = [] \<or> reset = ''none''"

definition target_checks :: "build \<Rightarrow> run_target \<Rightarrow> (bool \<times> wire_error) list" where
  "target_checks bd t =
     [(tg_Image t \<noteq> [], mk_error ''not_implemented'' [T ''target.image (golden-image requirement) is reserved and not yet implemented; stamp sims from the image first (POST /v0/images/{id}/stamp) and match them by labels/udid'']),
      (tg_Labels t = [] \<and> tg_UDID t = [] \<and> tg_Runtime t = [] \<and> tg_DeviceType t = [],
         mk_error ''bad_request'' [T ''target requires at least one of labels, udid, runtime, or device_type'']),
      (tg_Runtime t \<noteq> [] \<and> RequirementLabels (tg_Runtime t) [] = [],
         mk_error ''bad_request'' [T ''target.runtime '', Quoted (tg_Runtime t), T '' does not translate to a matchable label'']),
      (tg_DeviceType t \<noteq> [] \<and> RequirementLabels [] (tg_DeviceType t) = [],
         mk_error ''bad_request'' [T ''target.device_type '', Quoted (tg_DeviceType t), T '' does not translate to a matchable label'']),
      (\<not> ValidResetSpec (tg_Reset t), mk_error ''bad_request'' [T ''target.reset must be none, erase, or snapshot:<name>'']),
      (\<not> resetSpecSupported bd (tg_Reset t),
         mk_error ''not_implemented'' [T ''target.reset needs the state engine, which is not available in this build'']),
      (tg_Fixtures t \<noteq> [] \<and> \<not> bd_state bd,
         mk_error ''not_implemented'' [T ''target.fixtures need the state engine, which is not available in this build'']),
      (list_ex (\<lambda>f. fx_Name f = []) (tg_Fixtures t), mk_error ''bad_request'' [T ''every fixture requires a name''])]"

definition app_checks :: "run_app option \<Rightarrow> (bool \<times> wire_error) list" where
  "app_checks app = (case app of None \<Rightarrow> [] | Some app \<Rightarrow>
     let launch = (case ap_Launch app of None \<Rightarrow> True | Some b \<Rightarrow> b) in
     [(ap_Path app = [] \<and> ap_BundleID app = [], mk_error ''bad_request'' [T ''app requires path (install) and/or bundle_id (launch)'']),
      (launch \<and> ap_BundleID app = [] \<and> ap_Launch app \<noteq> None, mk_error ''bad_request'' [T ''app.launch=true requires app.bundle_id''])])"

definition step_error :: "nat \<Rightarrow> run_step \<Rightarrow> wire_error option" where
  "step_error i st = first_error
     [(st_MaestroFlow st \<noteq> [], mk_error ''not_implemented'' [T ''steps['', Number (int i), T '']: maestro_flow is reserved and not yet implemented (see docs/runs.md); use native steps'']),
      (st_Action st = [], mk_error ''bad_request'' [T ''steps['', Number (int i), T '']: action is required'']),
      (st_TimeoutSeconds st < 0, mk_error ''bad_request'' [T ''steps['', Number (int i), T '']: timeout_seconds must be >= 0''])]"

definition validateRunSpec :: "build \<Rightarrow> run_spec \<Rightarrow> wire_error option" where
  "validateRunSpec bd spec =
     (case first_error (target_checks bd (sp_Target spec) @ app_checks (sp_App spec) @
            [(\<not> bd_actions bd \<and> (sp_Steps spec \<noteq> [] \<or> sp_App spec \<noteq> None),
              mk_error ''not_implemented'' [T ''actions is not implemented in this build; a run may not declare steps or an app''])]) of
        Some e \<Rightarrow> Some e
      | None \<Rightarrow>
          (case first_bad step_error 0 (sp_Steps spec) of
             Some e \<Rightarrow> Some e
           | None \<Rightarrow>
               let t = sp_Timeouts spec in
               if to_AcquireSeconds t < 0 \<or> to_RunSeconds t < 0 \<or> to_StepSeconds t < 0
               then Some (mk_error ''bad_request'' [T ''timeouts must be >= 0''])
               else validateRunExpects spec))"

section \<open>Timeouts and labels\<close>

definition defaultRunAcquireSeconds :: int where "defaultRunAcquireSeconds = 60"
definition defaultRunSeconds :: int where "defaultRunSeconds = 600"
definition defaultRunStepSeconds :: int where "defaultRunStepSeconds = 60"
definition runLeaseTTLMargin :: int where "runLeaseTTLMargin = 120"
definition maxRunSeconds :: int where "maxRunSeconds = MaxTTL div Second - runLeaseTTLMargin"

text \<open>\<^verbatim>\<open>time.Duration(n) * time.Second\<close>: an \<^verbatim>\<open>int64\<close> product.\<close>

definition duration_of_seconds :: "int \<Rightarrow> duration" where
  "duration_of_seconds n = sint (word_of_int (n * Second) :: 64 word)"

definition runTimeouts :: "run_spec \<Rightarrow> duration \<times> duration \<times> duration" where
  "runTimeouts spec =
     (let t = sp_Timeouts spec;
          a = (if to_AcquireSeconds t = 0 then defaultRunAcquireSeconds else to_AcquireSeconds t);
          r0 = (if to_RunSeconds t = 0 then defaultRunSeconds else to_RunSeconds t);
          r = (if r0 > maxRunSeconds then maxRunSeconds else r0);
          st = (if to_StepSeconds t = 0 then defaultRunStepSeconds else to_StepSeconds t)
      in (duration_of_seconds a, duration_of_seconds r, duration_of_seconds st))"

text \<open>\<^verbatim>\<open>runTargetLabels\<close> of the daemon and \<^verbatim>\<open>runPlacementLabels\<close> of the broker are the same function.\<close>

definition add_label :: "string \<Rightarrow> string list \<Rightarrow> string list" where
  "add_label l labels = (if l \<in> set labels then labels else labels @ [l])"

definition runTargetLabels :: "run_target \<Rightarrow> string list" where
  "runTargetLabels t = fold add_label (RequirementLabels (tg_Runtime t) (tg_DeviceType t)) (tg_Labels t)"

section \<open>The verdict\<close>

definition readOnlyKinds :: "string list" where
  "readOnlyKinds = [''observe'', ''ui_tree'', ''screenshot'', ''audit'', ''pasteboard_get'', ''wait_for_element'',
     ''wait_tree_stable'', ''assert_text'', ''assert_no_text'', ''assert_template'', ''wait_for_stable'']"

definition ReadOnlyKind :: "string \<Rightarrow> bool" where "ReadOnlyKind a \<longleftrightarrow> a \<in> set readOnlyKinds"

definition mutatingStepKind :: "string \<Rightarrow> bool" where "mutatingStepKind kind \<longleftrightarrow> \<not> ReadOnlyKind kind"

definition verdictAssertKinds :: "string list" where
  "verdictAssertKinds = [''assert_text'', ''assert_no_text'', ''assert_template'']"

record tally =
  ta_signals :: nat
  ta_negatives :: nat
  ta_unverified :: nat

text \<open>
  The scan of the asserts that follow a mutating step: the signals and negatives it adds and
  whether one passed.
\<close>

fun follow_asserts :: "step_result list \<Rightarrow> nat \<times> nat \<times> bool" where
  "follow_asserts [] = (0, 0, False)"
| "follow_asserts (r # rs) =
     (if mutatingStepKind (sr_Action r) then (0, 0, False)
      else case follow_asserts rs of (s, n, p) \<Rightarrow>
        if sr_Action r \<notin> set verdictAssertKinds \<or> sr_Status r = StepSkipped then (s, n, p)
        else if sr_Status r = StepOK then (Suc s, n, True)
        else (Suc s, Suc n, p))"

text \<open>The expect check of one executed step: whether it is a signal, and whether it passed.\<close>

definition expect_signal :: "run_step \<Rightarrow> step_result \<Rightarrow> bool \<times> bool" where
  "expect_signal st r =
     (if st_Expect st \<noteq> None \<and> sr_DriftDetail r \<noteq> NoDetail \<and> \<not> sr_Drifted r then (False, False)
      else if st_Expect st \<noteq> None \<and> sr_Status r = StepOK then (True, \<not> sr_Drifted r)
      else (False, False))"

definition grade_step :: "run_step \<Rightarrow> step_result \<Rightarrow> step_result list \<Rightarrow> tally \<Rightarrow> tally" where
  "grade_step st r later t =
     (if sr_Status r = StepSkipped then t
      else
        let (signal, passed) = expect_signal st r;
            t = t\<lparr>ta_signals := ta_signals t + of_bool signal, ta_negatives := ta_negatives t + of_bool (signal \<and> \<not> passed)\<rparr>
        in if \<not> mutatingStepKind (sr_Action r) then t
           else
             let (s, n, p) = follow_asserts later;
                 positive = (passed \<or> sr_Verified r = Some True \<or> p)
             in \<lparr>ta_signals = ta_signals t + of_bool (sr_Verified r \<noteq> None) + s,
                 ta_negatives = ta_negatives t + of_bool (sr_Verified r = Some False) + n,
                 ta_unverified = ta_unverified t + of_bool (\<not> positive \<or> sr_Status r \<noteq> StepOK)\<rparr>)"

fun grade_steps :: "run_step list \<Rightarrow> step_result list \<Rightarrow> tally \<Rightarrow> tally" where
  "grade_steps (st # sts) (r # rs) t = grade_steps sts rs (grade_step st r rs t)"
| "grade_steps _ _ t = t"

definition computeVerdict :: "run_step list \<Rightarrow> step_result list \<Rightarrow> run_verdict" where
  "computeVerdict steps results =
     (let t = grade_steps steps results \<lparr>ta_signals = 0, ta_negatives = 0, ta_unverified = 0\<rparr> in
      if ta_signals t = 0 then VerdictUnverified
      else if ta_negatives t = 0 \<and> ta_unverified t = 0 then VerdictTrusted
      else VerdictDegraded)"

end
