(* ===== verification/Mz_Imgutil.thy ===== *)
theory Mz_Imgutil
  imports Complex_Main Mz_Prelude
begin

text \<open>
  The image comparisons of \<^verbatim>\<open>internal/imgutil\<close>: the luma of a pixel and the grayscale downscale
  (\<^verbatim>\<open>gray.go\<close>), the mean difference (\<^verbatim>\<open>diff.go\<close>) and the difference hash with its distance
  (\<^verbatim>\<open>fingerprint.go\<close>). An image is its bounds, the Go type it was decoded into and its channels. The
  \<^verbatim>\<open>uint64\<close> sums are natural numbers: a sum of 8-bit values would need more than \<open>2 ^ 56\<close> pixels to wrap.
  Decoding, encoding and drawing are not modelled.
\<close>

unbundle bit_operations_syntax

section \<open>Images\<close>

record rect =
  rc_MinX :: int
  rc_MinY :: int
  rc_MaxX :: int
  rc_MaxY :: int

text \<open>The decoded types \<^verbatim>\<open>luma16\<close> tells apart; the generic one answers 16-bit channels.\<close>

datatype pixel_format = RGBA | NRGBA | Gray | OtherFormat

record image =
  im_bounds :: rect
  im_format :: pixel_format
  im_pix :: "int \<Rightarrow> int \<Rightarrow> nat \<times> nat \<times> nat \<times> nat"   \<comment> \<open>red (or gray), green, blue, alpha\<close>

definition Dx :: "rect \<Rightarrow> int" where "Dx r = rc_MaxX r - rc_MinX r"
definition Dy :: "rect \<Rightarrow> int" where "Dy r = rc_MaxY r - rc_MinY r"

definition luma8 :: "nat \<Rightarrow> nat \<Rightarrow> nat \<Rightarrow> nat" where
  "luma8 r g b = (let v = drop_bit 16 (19595 * r + 38470 * g + 7471 * b) in push_bit 8 v OR v)"

definition luma16 :: "image \<Rightarrow> int \<Rightarrow> int \<Rightarrow> nat" where
  "luma16 img x y =
     (case im_pix img x y of (r, g, b, a) \<Rightarrow>
        (case im_format img of
           RGBA \<Rightarrow> luma8 r g b
         | NRGBA \<Rightarrow> if a \<noteq> 255 then luma8 (r * a div 255) (g * a div 255) (b * a div 255) else luma8 r g b
         | Gray \<Rightarrow> push_bit 8 r OR r
         | OtherFormat \<Rightarrow> drop_bit 16 (19595 * r + 38470 * g + 7471 * b)))"

definition pointMasked :: "int \<Rightarrow> int \<Rightarrow> rect list \<Rightarrow> bool" where
  "pointMasked x y masks \<longleftrightarrow>
     list_ex (\<lambda>m. x \<ge> rc_MinX m \<and> x < rc_MaxX m \<and> y \<ge> rc_MinY m \<and> y < rc_MaxY m) masks"

text \<open>The source range of one destination index: \<^verbatim>\<open>i*n/g\<close> to \<^verbatim>\<open>(i+1)*n/g\<close>, never empty.\<close>

definition box_span :: "int \<Rightarrow> int \<Rightarrow> int \<Rightarrow> int \<times> int" where
  "box_span i n g =
     (let lo = i * n div g; hi = (i + 1) * n div g in (lo, if hi \<le> lo then lo + 1 else hi))"

section \<open>The difference hash\<close>

definition gridW :: int where "gridW = 9"
definition gridH :: int where "gridH = 8"

text \<open>The unmasked pixels of one cell, and their average.\<close>

definition cell_pixels :: "image \<Rightarrow> rect list \<Rightarrow> int \<Rightarrow> int \<Rightarrow> nat list" where
  "cell_pixels img masks cy cx =
     (let b = im_bounds img; w = Dx b; h = Dy b;
          (sy0, sy1) = box_span cy h gridH;
          (sx0, sx1) = box_span cx w gridW
      in concat (map (\<lambda>sy. map (\<lambda>sx. drop_bit 8 (luma16 img (rc_MinX b + sx) (rc_MinY b + sy)))
           (filter (\<lambda>sx. \<not> pointMasked (rc_MinX b + sx) (rc_MinY b + sy) masks) [sx0..min sx1 w - 1]))
         [sy0..min sy1 h - 1]))"

definition cell_average :: "image \<Rightarrow> rect list \<Rightarrow> int \<Rightarrow> int \<Rightarrow> nat" where
  "cell_average img masks cy cx =
     (let px = cell_pixels img masks cy cx in if px = [] then 0 else sum_list px div length px)"

definition DHash :: "image \<Rightarrow> rect list \<Rightarrow> 64 word" where
  "DHash img masks =
     (if Dx (im_bounds img) \<le> 0 \<or> Dy (im_bounds img) \<le> 0 then 0
      else foldl (\<lambda>hash (cy, cx).
             (if cell_average img masks cy cx > cell_average img masks cy (cx + 1)
              then push_bit 1 hash OR 1 else push_bit 1 hash))
           0 (concat (map (\<lambda>cy. map (\<lambda>cx. (cy, cx)) [0..gridW - 2]) [0..gridH - 1])))"

text \<open>\<^verbatim>\<open>bits.OnesCount64(a ^ b)\<close>\<close>

definition HashDistance :: "64 word \<Rightarrow> 64 word \<Rightarrow> nat" where
  "HashDistance a b = length (filter (bit (a XOR b)) [0..<64])"

section \<open>Grayscale and differences\<close>

text \<open>A \<^verbatim>\<open>*image.Gray\<close>: its bounds and 8-bit pixels.\<close>

record gray =
  gy_bounds :: rect
  gy_pix :: "int \<Rightarrow> int \<Rightarrow> nat"

definition GrayDownscale :: "image \<Rightarrow> int \<Rightarrow> gray" where
  "GrayDownscale img maxDim =
     (let b = im_bounds img; w = Dx b; h = Dy b in
      if w \<le> 0 \<or> h \<le> 0 then \<lparr>gy_bounds = \<lparr>rc_MinX = 0, rc_MinY = 0, rc_MaxX = 0, rc_MaxY = 0\<rparr>, gy_pix = (\<lambda>_ _. 0)\<rparr>
      else
        let long = max w h;
            shrink = maxDim > 0 \<and> long > maxDim;
            dw = (if shrink then max 1 (w * maxDim div long) else w);
            dh = (if shrink then max 1 (h * maxDim div long) else h)
        in \<lparr>gy_bounds = \<lparr>rc_MinX = 0, rc_MinY = 0, rc_MaxX = dw, rc_MaxY = dh\<rparr>,
            gy_pix = (\<lambda>dx dy.
              let (sy0, sy1) = box_span dy h dh;
                  (sx0, sx1) = box_span dx w dw;
                  px = concat (map (\<lambda>sy. map (\<lambda>sx. luma16 img (rc_MinX b + sx) (rc_MinY b + sy)) [sx0..sx1 - 1]) [sy0..sy1 - 1])
              in drop_bit 8 (sum_list px div length px) mod 256)\<rparr>)"

text \<open>The absolute differences of the overlapping unmasked pixels.\<close>

definition diff_pixels :: "gray \<Rightarrow> gray \<Rightarrow> rect list \<Rightarrow> int list" where
  "diff_pixels a b masks =
     (let w = min (Dx (gy_bounds a)) (Dx (gy_bounds b)); h = min (Dy (gy_bounds a)) (Dy (gy_bounds b));
          ax = rc_MinX (gy_bounds a); ay = rc_MinY (gy_bounds a); bx = rc_MinX (gy_bounds b); by' = rc_MinY (gy_bounds b)
      in concat (map (\<lambda>y. map (\<lambda>x. \<bar>int (gy_pix a (ax + x) (ay + y)) - int (gy_pix b (bx + x) (by' + y))\<bar>)
           (filter (\<lambda>x. \<not> pointMasked (ax + x) (ay + y) masks) [0..w - 1])) [0..h - 1]))"

definition MeanAbsDiff :: "gray \<Rightarrow> gray \<Rightarrow> rect list \<Rightarrow> rat" where
  "MeanAbsDiff a b masks =
     (let px = diff_pixels a b masks in
      if px = [] then 0 else of_int (sum_list px) / of_nat (length px) / 255)"

section \<open>What the comparisons promise\<close>

lemma pointMasked_iff:
  "pointMasked x y masks \<longleftrightarrow>
     (\<exists>m \<in> set masks. rc_MinX m \<le> x \<and> x < rc_MaxX m \<and> rc_MinY m \<le> y \<and> y < rc_MaxY m)"
  by (auto simp: pointMasked_def list_ex_iff)

text \<open>What lies under a mask does not show in the hash.\<close>

lemma cell_pixels_masked:
  assumes "im_bounds a = im_bounds b"
    and "\<And>x y. \<not> pointMasked x y masks \<Longrightarrow> luma16 a x y = luma16 b x y"
  shows "cell_pixels a masks cy cx = cell_pixels b masks cy cx"
  using assms
  by (auto simp: cell_pixels_def Let_def split: prod.splits
      intro!: arg_cong [where f = concat] map_cong arg_cong [where f = "drop_bit 8"])

lemma DHash_masked:
  assumes "im_bounds a = im_bounds b"
    and "\<And>x y. \<not> pointMasked x y masks \<Longrightarrow> luma16 a x y = luma16 b x y"
  shows "DHash a masks = DHash b masks"
proof -
  have "cell_average a masks = cell_average b masks"
    using cell_pixels_masked [OF assms] by (simp add: cell_average_def fun_eq_iff)
  then show ?thesis using assms(1) by (simp add: DHash_def)
qed

text \<open>The distance of two hashes is a metric with values up to 64.\<close>

lemma HashDistance_card: "HashDistance a b = card {n. n < 64 \<and> bit a n \<noteq> bit b n}"
proof -
  have "HashDistance a b = card (set (filter (bit (a XOR b)) [0..<64]))"
    unfolding HashDistance_def by (subst distinct_card) simp_all
  moreover have "set (filter (bit (a XOR b)) [0..<64]) = {n. n < 64 \<and> bit a n \<noteq> bit b n}"
    by (auto simp: bit_xor_iff)
  ultimately show ?thesis by simp
qed

lemma HashDistance_le: "HashDistance a b \<le> 64"
  using length_filter_le [of "bit (a XOR b)" "[0..<64]"] by (simp add: HashDistance_def)

lemma HashDistance_zero: "HashDistance a b = 0 \<longleftrightarrow> a = b"
proof
  assume "HashDistance a b = 0"
  then have "\<forall>n < 64. bit a n = bit b n" by (auto simp: HashDistance_card)
  then have "bit a n = bit b n" for n
    using bit_imp_le_length [of a n] bit_imp_le_length [of b n] by (cases "n < 64") auto
  then show "a = b" by (simp add: bit_eq_iff)
qed (simp add: HashDistance_card)

lemma HashDistance_sym: "HashDistance a b = HashDistance b a"
  by (simp add: HashDistance_def xor.commute)

lemma HashDistance_triangle: "HashDistance a c \<le> HashDistance a b + HashDistance b c"
proof -
  have "{n. n < 64 \<and> bit a n \<noteq> bit c n} \<subseteq> {n. n < 64 \<and> bit a n \<noteq> bit b n} \<union> {n. n < 64 \<and> bit b n \<noteq> bit c n}"
    by auto
  then have "card {n. n < 64 \<and> bit a n \<noteq> bit c n}
      \<le> card ({n. n < 64 \<and> bit a n \<noteq> bit b n} \<union> {n. n < 64 \<and> bit b n \<noteq> bit c n})"
    by (intro card_mono) auto
  then show ?thesis using card_Un_le order_trans by (fastforce simp: HashDistance_card)
qed

text \<open>The mean difference of 8-bit images lies in the unit interval and vanishes on equal images.\<close>

lemma diff_pixels_range:
  assumes "\<And>x y. gy_pix a x y < 256" "\<And>x y. gy_pix b x y < 256" "d \<in> set (diff_pixels a b masks)"
  shows "0 \<le> d \<and> d \<le> 255"
proof -
  obtain x y x' y' where "d = \<bar>int (gy_pix a x y) - int (gy_pix b x' y')\<bar>"
    using assms(3) by (auto simp: diff_pixels_def Let_def)
  then show ?thesis using assms(1) [of x y] assms(2) [of x' y'] by linarith
qed

lemma sum_list_range:
  fixes xs :: "int list"
  shows "\<forall>x \<in> set xs. 0 \<le> x \<and> x \<le> c \<Longrightarrow> 0 \<le> sum_list xs \<and> sum_list xs \<le> c * int (length xs)"
  by (induction xs) (auto simp: algebra_simps)

lemma MeanAbsDiff_range:
  assumes "\<And>x y. gy_pix a x y < 256" "\<And>x y. gy_pix b x y < 256"
  shows "0 \<le> MeanAbsDiff a b masks \<and> MeanAbsDiff a b masks \<le> 1"
proof (cases "diff_pixels a b masks = []")
  case True
  then show ?thesis by (simp add: MeanAbsDiff_def)
next
  case False
  let ?px = "diff_pixels a b masks"
  have r: "0 \<le> sum_list ?px \<and> sum_list ?px \<le> 255 * int (length ?px)"
    using sum_list_range [of ?px 255] diff_pixels_range [OF assms] by blast
  have l: "(0 :: rat) < of_nat (length ?px)" using False by simp
  have "(of_int (sum_list ?px) :: rat) \<le> of_int (255 * int (length ?px))" using r of_int_le_iff by blast
  then have "(of_int (sum_list ?px) :: rat) \<le> 255 * of_nat (length ?px)" by simp
  then show ?thesis using r l False by (simp add: MeanAbsDiff_def Let_def field_simps)
qed

lemma MeanAbsDiff_same: "MeanAbsDiff a a masks = 0"
proof -
  have "d = 0" if "d \<in> set (diff_pixels a a masks)" for d using that by (auto simp: diff_pixels_def Let_def)
  then have "\<forall>d \<in> set (diff_pixels a a masks). 0 \<le> d \<and> d \<le> 0" by (metis order_refl)
  then have "sum_list (diff_pixels a a masks) = 0" using sum_list_range [of "diff_pixels a a masks" 0] by simp
  then show ?thesis by (simp add: MeanAbsDiff_def Let_def)
qed

end
