(* ===== verification/Mz_Server.thy ===== *)
theory Mz_Server
  imports Mz_RunSpec Mz_Pool Mz_Imgutil
begin

text \<open>
  The daemon's request handling (\<^verbatim>\<open>internal/server\<close>): the dispatch of actions and batches
  (\<^verbatim>\<open>handlers_actions.go\<close>), leases (\<^verbatim>\<open>handlers_leases.go\<close>), boots and shutdowns (\<^verbatim>\<open>handlers_targets.go\<close>), the
  state endpoints' guard and journal entry (\<^verbatim>\<open>handlers_state.go\<close>), the shutdown ledger, the
  run-open flag and run metadata (\<^verbatim>\<open>server.go\<close>).

  The parts the handlers call (lease manager, registry, pool, action backend, state engine, journal,
  recorder, clock) are the fields of \<open>services\<close>, over a world of any type: a call takes the world, in which
  everything else the daemon does meanwhile also happens, and gives an answer and the next world. A call
  that panics answers \<^const>\<open>None\<close>; the panic ends the handler unless the code defers something.
  What a handler does is also written to a trace, newest first, which the code does not have.
\<close>

section \<open>Calls and handlers\<close>

type_synonym ('a, 'w) call = "'w \<Rightarrow> 'a option \<times> 'w"

text \<open>\<^verbatim>\<open>proto.ActionRequest\<close> without its lease, and the backend's answers.\<close>

record action_result =
  az_Result :: payload
  az_Tree :: "node list"            \<comment> \<open>the value of the key \<^verbatim>\<open>tree\<close> of the result, a Go slice of nodes\<close>
  az_JournalRef :: "journal_ref option"

record act_error =
  ae_wire :: "(string \<times> string) option"      \<comment> \<open>code and message, for an \<^verbatim>\<open>*actions.Error\<close>\<close>
  ae_text :: string                          \<comment> \<open>\<^verbatim>\<open>err.Error()\<close>\<close>
  ae_escalation :: "(json \<times> string) option"  \<comment> \<open>the observation bundle and the capture\<close>

datatype state_error =
    ErrTargetBusy | ErrSnapshotNotFound | ErrBadFixture | ErrBadReset | StateDeadline | StateOther
  | StateReg reg_error      \<comment> \<open>an error of the registry that a reset passes on\<close>

record snapshot_info =
  ss_ID :: string
  ss_SourceUDID :: string
  ss_CloneUDID :: string
  ss_Label :: string
  ss_CreatedAt :: instant

record shutdown_note =
  sn_Actor :: string
  sn_Reason :: "part list"
  sn_At :: instant

text \<open>What the backends tell each other through the server, for the theorems.\<close>

datatype server_event =
    Acquired lease
  | Saw string "lease_error + lease"            \<comment> \<open>the answer of \<^verbatim>\<open>leases.Get\<close>\<close>
  | ReleaseSent string "lease_error + lease"
  | ResetDropped string
  | Sent string string string                   \<comment> \<open>lease, target, kind: an action handed to the backend\<close>
  | BootSent string string                      \<comment> \<open>lease, target\<close>
  | ShutdownSent string string
  | FixtureSent string string                   \<comment> \<open>target, fixture: sent by a run\<close>
  | StateSent string string string              \<comment> \<open>lease, target, operation of the state engine\<close>
  | ResetSent string string                     \<comment> \<open>target, specification of a reset\<close>
  | Reserved string "bool \<times> bool"               \<comment> \<open>the answer of \<^verbatim>\<open>leases.Reserve\<close>: took a quarantine over, granted\<close>
  | Quarantined string
  | Unreserved string
  | Journaled event
  | StepStarted nat duration                    \<comment> \<open>a step of a run and its budget\<close>

record 'w services =
  v_build :: build
  v_now :: "'w \<Rightarrow> instant \<times> 'w"
  v_Acquire :: "acquire_req \<Rightarrow> (lease_error + lease, 'w) call"
  v_Get :: "string \<Rightarrow> (lease_error + lease, 'w) call"
  v_Peek :: "string \<Rightarrow> (lease_error + lease, 'w) call"
  v_Release :: "string \<Rightarrow> (lease_error + lease, 'w) call"
  v_Renew :: "string \<Rightarrow> int \<Rightarrow> (lease_error + lease, 'w) call"
  v_Pause :: "string \<Rightarrow> string \<Rightarrow> (lease_error + lease, 'w) call"
  v_Resume :: "string \<Rightarrow> (lease_error + lease, 'w) call"
  v_Active :: "string \<Rightarrow> (lease option, 'w) call"
  v_DropReset :: "string \<Rightarrow> (unit, 'w) call"
  v_devices :: "(bool, 'w) call"                 \<comment> \<open>\<^verbatim>\<open>devicesEnabled.Load()\<close>\<close>
  v_reg_List :: "(reg_error + target list, 'w) call"
  v_reg_Get :: "string \<Rightarrow> (reg_error + target, 'w) call"
  v_Health :: "string \<Rightarrow> (TargetState \<times> reg_error option, 'w) call"
  v_Boot :: "string \<Rightarrow> (pool_error option, 'w) call"
  v_Shutdown :: "string \<Rightarrow> (pool_error option, 'w) call"
  v_gates :: "string \<Rightarrow> (pool_error option, 'w) call"
  v_slot :: "(bool, 'w) call"                    \<comment> \<open>a boot-wait slot is free\<close>
  v_polls :: "(nat, 'w) call"                    \<comment> \<open>how often a poll loop goes round before its context is done\<close>
  v_expired :: "(bool, 'w) call"                 \<comment> \<open>\<^verbatim>\<open>ctx.Err() != nil\<close>\<close>
  v_Dispatch :: "string \<Rightarrow> string \<Rightarrow> string \<Rightarrow> payload \<Rightarrow> (act_error + action_result, 'w) call"
  v_ApplyFixture :: "string \<Rightarrow> string \<Rightarrow> payload \<Rightarrow> (state_error option, 'w) call"
  v_Record :: "event \<Rightarrow> (journal_ref, 'w) call"
  v_StartRun :: "lease \<Rightarrow> target option \<Rightarrow> (unit, 'w) call"
  v_PutArtifact :: "string \<Rightarrow> string \<Rightarrow> string \<Rightarrow> (artifact_ref option, 'w) call"
  v_MarkOpen :: "string \<Rightarrow> (unit, 'w) call"
  v_MarkClosed :: "string \<Rightarrow> (unit, 'w) call"
  v_ReadMeta :: "string \<Rightarrow> (run_meta option, 'w) call"
  v_WriteMeta :: "string \<Rightarrow> run_meta \<Rightarrow> (bool, 'w) call"
  v_Export :: "string \<Rightarrow> (string option, 'w) call"
  v_autoRecord :: "lease \<Rightarrow> (unit, 'w) call"     \<comment> \<open>the recording goroutine of \<^verbatim>\<open>maybeAutoRecord\<close>\<close>
  v_stopRecording :: "lease \<Rightarrow> (unit, 'w) call"
  v_drainRecording :: "string \<Rightarrow> (unit, 'w) call"
  v_parked :: "string \<Rightarrow> (bool, 'w) call"         \<comment> \<open>\<^verbatim>\<open>false\<close> when no pool is wired\<close>
  v_recording :: "string \<Rightarrow> (bool, 'w) call"
  v_Reserve :: "string \<Rightarrow> (bool \<times> bool, 'w) call"
  v_Quarantine :: "string \<Rightarrow> (unit, 'w) call"
  v_Unreserve :: "string \<Rightarrow> (unit, 'w) call"
  v_ClearQuarantine :: "string \<Rightarrow> (lease_error + bool, 'w) call"
  v_Snapshot :: "string \<Rightarrow> string \<Rightarrow> (state_error + snapshot_info, 'w) call"
  v_Restore :: "string \<Rightarrow> string \<Rightarrow> bool \<Rightarrow> (state_error + bool, 'w) call"
  v_Erase :: "string \<Rightarrow> (state_error option, 'w) call"
  v_Reset :: "string \<Rightarrow> string \<Rightarrow> (state_error option, 'w) call"
  v_ListSnapshots :: "(state_error + snapshot_info list, 'w) call"
  v_DeleteSnapshot :: "string \<Rightarrow> (state_error option, 'w) call"
  v_ClearPoisoned :: "string \<Rightarrow> (unit, 'w) call"
  v_leaseEnd :: "string \<Rightarrow> (unit, 'w) call"
  v_broadcast :: "string \<Rightarrow> (unit, 'w) call"
  v_render :: "part list \<Rightarrow> string"
  v_pool_text :: "pool_error \<Rightarrow> string"
  v_state_text :: "state_error \<Rightarrow> string"
  v_redact :: "string \<Rightarrow> string"                 \<comment> \<open>eight hex digits of a SHA-256\<close>
  v_unbase64 :: "string \<Rightarrow> string option"
  v_marshalIndent :: "json \<Rightarrow> string option"
  v_decode :: "string \<Rightarrow> image option"

record 'w server =
  sv_world :: 'w
  sv_run :: run                                  \<comment> \<open>the handle of the run being executed\<close>
  sv_lastShutdown :: "string \<rightharpoonup> shutdown_note"
  sv_waitByLease :: "string set"
  sv_trace :: "server_event list"

type_synonym ('a, 'w) act = "'w server \<Rightarrow> 'a option \<times> 'w server"

definition ret :: "'a \<Rightarrow> ('a, 'w) act" where "ret x s = (Some x, s)"

definition seq :: "('a, 'w) act \<Rightarrow> ('a \<Rightarrow> ('b, 'w) act) \<Rightarrow> ('b, 'w) act" where
  "seq m k s = (case m s of (None, s') \<Rightarrow> (None, s') | (Some x, s') \<Rightarrow> k x s')"

definition call :: "('a, 'w) call \<Rightarrow> ('a, 'w) act" where
  "call f s = (case f (sv_world s) of (r, w) \<Rightarrow> (r, s\<lparr>sv_world := w\<rparr>))"

definition clock :: "'w services \<Rightarrow> (instant, 'w) act" where
  "clock V = call (\<lambda>w. map_prod Some id (v_now V w))"

definition update :: "('w server \<Rightarrow> 'w server) \<Rightarrow> (unit, 'w) act" where "update f s = (Some (), f s)"

definition gets :: "('w server \<Rightarrow> 'a) \<Rightarrow> ('a, 'w) act" where "gets f s = (Some (f s), s)"

definition emit_event :: "server_event \<Rightarrow> (unit, 'w) act" where
  "emit_event e = update (\<lambda>s. s\<lparr>sv_trace := e # sv_trace s\<rparr>)"

definition when_do :: "bool \<Rightarrow> (unit, 'w) act \<Rightarrow> (unit, 'w) act" where "when_do b m = (if b then m else ret ())"

fun each :: "('a \<Rightarrow> (unit, 'w) act) \<Rightarrow> 'a list \<Rightarrow> (unit, 'w) act" where
  "each f [] = ret ()"
| "each f (x # xs) = seq (f x) (\<lambda>_. each f xs)"

text \<open>\<^verbatim>\<open>defer d()\<close>: it runs whether or not the body panics; a panic of its own replaces the body's result.\<close>

definition deferred :: "('a, 'w) act \<Rightarrow> (unit, 'w) act \<Rightarrow> ('a, 'w) act" where
  "deferred m d s = (case m s of (r, s') \<Rightarrow> (case d s' of (None, s'') \<Rightarrow> (None, s'') | (Some _, s'') \<Rightarrow> (r, s'')))"

text \<open>\<^verbatim>\<open>recover()\<close>: a panic of the body is handled and the function returns.\<close>

definition recovered :: "(unit, 'w) act \<Rightarrow> (unit, 'w) act \<Rightarrow> (unit, 'w) act" where
  "recovered m h s = (case m s of (Some x, s') \<Rightarrow> (Some x, s') | (None, s') \<Rightarrow> h s')"

section \<open>Journal and ledger\<close>

definition mk_event :: "string \<Rightarrow> string \<Rightarrow> string \<Rightarrow> string \<Rightarrow> payload \<Rightarrow> event" where
  "mk_event kind leaseID agentID action params =
     \<lparr>ev_Kind = kind, ev_LeaseID = leaseID, ev_AgentID = agentID, ev_Action = action, ev_Params = params,
      ev_Status = ''ok'', ev_Error = [], ev_AXBefore = [], ev_AXAfter = [], ev_Artifacts = [], ev_Extra = []\<rparr>"

definition failed_event :: "string \<Rightarrow> event \<Rightarrow> event" where
  "failed_event msg ev = ev\<lparr>ev_Status := ''error'', ev_Error := msg\<rparr>"

definition record_ref :: "'w services \<Rightarrow> event \<Rightarrow> (journal_ref, 'w) act" where
  "record_ref V ev = seq (emit_event (Journaled ev)) (\<lambda>_. call (v_Record V ev))"

definition record_ev :: "'w services \<Rightarrow> event \<Rightarrow> (unit, 'w) act" where
  "record_ev V ev = seq (record_ref V ev) (\<lambda>_. ret ())"

definition leases_Get :: "'w services \<Rightarrow> string \<Rightarrow> (lease_error + lease, 'w) act" where
  "leases_Get V lid = seq (call (v_Get V lid)) (\<lambda>r. seq (emit_event (Saw lid r)) (\<lambda>_. ret r))"

definition leases_Release :: "'w services \<Rightarrow> string \<Rightarrow> (lease_error + lease, 'w) act" where
  "leases_Release V lid = seq (call (v_Release V lid)) (\<lambda>r. seq (emit_event (ReleaseSent lid r)) (\<lambda>_. ret r))"

text \<open>\<^verbatim>\<open>NoteShutdown\<close>, \<^verbatim>\<open>clearShutdownNote\<close> and \<^verbatim>\<open>targetDownDetail\<close>: the ledger of daemon-driven shutdowns.\<close>

definition NoteShutdown :: "'w services \<Rightarrow> string \<Rightarrow> string \<Rightarrow> part list \<Rightarrow> (unit, 'w) act" where
  "NoteShutdown V udid actor reason =
     (if udid = [] then ret () else
      seq (clock V) (\<lambda>now.
      seq (update (\<lambda>s. s\<lparr>sv_lastShutdown := (sv_lastShutdown s)(udid \<mapsto> \<lparr>sn_Actor = actor, sn_Reason = reason, sn_At = now\<rparr>)\<rparr>)) (\<lambda>_.
      seq (call (v_Active V udid)) (\<lambda>held.
      (case held of
         None \<Rightarrow> ret ()
       | Some l \<Rightarrow> record_ev V ((mk_event ''target'' (l_ID l) (l_AgentID l) ''target.shutdown'' [])
           \<lparr>ev_Extra := [(''udid'', JStr udid), (''actor'', JStr actor), (''reason'', JStr (v_render V reason))]\<rparr>))))))"

definition clearShutdownNote :: "string \<Rightarrow> (unit, 'w) act" where
  "clearShutdownNote udid = update (\<lambda>s. s\<lparr>sv_lastShutdown := (sv_lastShutdown s)(udid := None)\<rparr>)"

definition targetDownDetail :: "'w server \<Rightarrow> string \<Rightarrow> part list" where
  "targetDownDetail s udid = (case sv_lastShutdown s udid of
      None \<Rightarrow> [T ''the daemon has no record of shutting this target down; it was shut down externally (simctl, a crash, or before the daemon started)'']
    | Some n \<Rightarrow> [T ''target was shut down by '', T (sn_Actor n), T '' at '', Number (sn_At n), T '': ''] @ sn_Reason n)"

text \<open>\<^verbatim>\<open>redactLeaseID\<close>\<close>

definition redactLeaseID_daemon :: "'w services \<Rightarrow> string \<Rightarrow> string" where
  "redactLeaseID_daemon V lid = (if lid = [] then [] else ''sha:'' @ v_redact V lid)"

definition syncRunOpen :: "'w services \<Rightarrow> string \<Rightarrow> (unit, 'w) act" where
  "syncRunOpen V leaseID =
     (if \<not> bd_journal (v_build V) \<or> leaseID = [] then ret () else
      seq (call (v_Peek V leaseID)) (\<lambda>r.
      (case r of
         Inr l \<Rightarrow> if l_State l = LeaseActive then call (v_MarkOpen V leaseID) else call (v_MarkClosed V leaseID)
       | Inl _ \<Rightarrow> call (v_MarkClosed V leaseID))))"

definition startRun :: "'w services \<Rightarrow> lease \<Rightarrow> (unit, 'w) act" where
  "startRun V l =
     (if \<not> bd_journal (v_build V) \<or> l_State l \<noteq> LeaseActive then ret () else
      seq (call (v_reg_Get V (l_TargetUDID l))) (\<lambda>r.
      call (v_StartRun V l (case r of Inr t \<Rightarrow> Some t | Inl _ \<Rightarrow> None))))"

definition maybeAutoRecord :: "'w services \<Rightarrow> lease \<Rightarrow> (unit, 'w) act" where
  "maybeAutoRecord V l =
     (if \<not> bd_recorder (v_build V) \<or> l_Record l \<noteq> ''video'' \<or> l_State l \<noteq> LeaseActive then ret ()
      else call (v_autoRecord V l))"

section \<open>Dispatching actions\<close>

definition pausedAllowedKinds :: "string list" where "pausedAllowedKinds = [''observe'', ''screenshot'']"

text \<open>\<^verbatim>\<open>journal.ElideBlob\<close>, \<^verbatim>\<open>journalParams\<close>\<close>

definition ElideBlob :: "nat \<Rightarrow> string" where
  "ElideBlob n = ''<'' @ dec_nat n @ '' base64 bytes elided>''"

definition journalParams :: "payload \<Rightarrow> payload" where
  "journalParams p = (case map_of p ''template_base64'' of
      Some (JStr b64) \<Rightarrow> pset ''template_base64'' (JStr (ElideBlob (length b64))) p
    | _ \<Rightarrow> p)"

definition journalExtraKeys :: "string list" where
  "journalExtraKeys = [''resolver'', ''resolver_skipped'', ''input_mode'', ''verified'', ''verify'', ''fingerprint'']"

definition WireError :: "act_error \<Rightarrow> wire_error" where
  "WireError err = (case ae_wire err of
      Some (code, msg) \<Rightarrow> mk_error code [T msg]
    | None \<Rightarrow> mk_error ''internal'' [T (ae_text err)])"

text \<open>\<^verbatim>\<open>store.PutArtifact\<close> as the handlers use it: best effort, adding the reference to the event.\<close>

definition put_artifact :: "'w services \<Rightarrow> string \<Rightarrow> string \<Rightarrow> event \<Rightarrow> (event, 'w) act" where
  "put_artifact V name data ev =
     seq (call (v_PutArtifact V (ev_LeaseID ev) name data)) (\<lambda>r.
     ret (case r of Some a \<Rightarrow> ev\<lparr>ev_Artifacts := ev_Artifacts ev @ [a]\<rparr> | None \<Rightarrow> ev))"

definition journalImage :: "'w services \<Rightarrow> payload \<Rightarrow> payload \<Rightarrow> event \<Rightarrow> string \<Rightarrow> (payload \<times> event, 'w) act" where
  "journalImage V result req ev base =
     (let fmt = (if strField result ''format'' \<noteq> ''jpeg'' then ''png'' else strField result ''format'');
          key = fmt @ ''_base64'';
          b64 = strField result key in
      if b64 = [] then ret (result, ev) else
      seq (if bd_journal (v_build V)
           then (case v_unbase64 V b64 of Some img \<Rightarrow> put_artifact V (base @ ''.'' @ fmt) img ev | None \<Rightarrow> ret ev)
           else ret ev) (\<lambda>ev.
      ret (if map_of req ''inline'' = Some (JBool False) then filter (\<lambda>x. fst x \<noteq> key) result else result, ev)))"

definition journalAudit :: "'w services \<Rightarrow> payload \<Rightarrow> payload \<Rightarrow> event \<Rightarrow> (payload \<times> event, 'w) act" where
  "journalAudit V result req ev =
     seq (if bd_journal (v_build V)
          then (case map_of result ''findings'' of
                  None \<Rightarrow> ret ev
                | Some f \<Rightarrow> (case v_marshalIndent V f of None \<Rightarrow> ret ev | Some b \<Rightarrow> put_artifact V ''audit-findings.json'' b ev))
          else ret ev) (\<lambda>ev.
     journalImage V result req ev ''audit-annotated'')"

definition journalLogs :: "'w services \<Rightarrow> payload \<Rightarrow> event \<Rightarrow> (event, 'w) act" where
  "journalLogs V result ev =
     (if strField result ''logs'' = [] \<or> \<not> bd_journal (v_build V) then ret ev
      else put_artifact V ''action-logs.txt'' (strField result ''logs'') ev)"

text \<open>The evidence of a failed action: the not-booted detail and the escalation bundle.\<close>

definition failure_event :: "'w services \<Rightarrow> act_error \<Rightarrow> string \<Rightarrow> part list \<Rightarrow> event \<Rightarrow> (event, 'w) act" where
  "failure_event V err udid detail ev =
     (let ev = (if we_Code (WireError err) = ''target_not_booted''
                then ev\<lparr>ev_Extra := [(''udid'', JStr udid), (''detail'', JStr (v_render V detail))]\<rparr> else ev) in
      seq (case ae_escalation err of
             None \<Rightarrow> ret ev
           | Some (bundle, png) \<Rightarrow>
               let ev = ev\<lparr>ev_Extra := pset ''escalation'' bundle (ev_Extra ev)\<rparr> in
               if bd_journal (v_build V) \<and> png \<noteq> [] then put_artifact V ''escalation.png'' png ev else ret ev) (\<lambda>ev.
      ret (failed_event (ae_text err) ev)))"

text \<open>The accessibility hashes an action reports.\<close>

definition lift_hashes :: "payload \<Rightarrow> event \<Rightarrow> event" where
  "lift_hashes r ev =
     (let ev = (if strField r ''ax_before'' \<noteq> [] then ev\<lparr>ev_AXBefore := strField r ''ax_before''\<rparr> else ev) in
      if strField r ''ax_after'' \<noteq> [] then ev\<lparr>ev_AXAfter := strField r ''ax_after''\<rparr>
      else if strField r ''hash'' \<noteq> [] then ev\<lparr>ev_AXAfter := strField r ''hash''\<rparr> else ev)"

text \<open>The whitelisted keys of the result, copied into the entry.\<close>

definition lift_extra :: "payload \<Rightarrow> event \<Rightarrow> event" where
  "lift_extra r ev = fold (\<lambda>k ev. case map_of r k of
      Some v \<Rightarrow> ev\<lparr>ev_Extra := pset k v (ev_Extra ev)\<rparr> | None \<Rightarrow> ev) journalExtraKeys ev"

text \<open>The checks before the backend is called: what refuses the action, or the lease to act for.\<close>

definition action_guard :: "string \<Rightarrow> lease_error + lease \<Rightarrow> wire_error + lease" where
  "action_guard kind got =
     (case got of
        Inl _ \<Rightarrow> Inl (mk_error ''not_found'' [T ''lease not found''])
      | Inr l \<Rightarrow>
          if l_State l \<noteq> LeaseActive then Inl (mk_error ''lease_expired'' [T ''lease is not active''])
          else if l_TargetUDID l = [] then Inl (mk_error ''bad_request'' [T ''lease holds no target''])
          else if l_Paused l \<and> kind \<notin> set pausedAllowedKinds then
            Inl (mk_error ''lease_paused'' [T (''lease is paused'' @
              (if l_PausedReason l \<noteq> [] then '' ('' @ l_PausedReason l @ '')'' else []) @
              '': only read-only observation is allowed until POST /v0/leases/{id}/resume'')])
          else Inr l)"

definition backend_dispatch :: "'w services \<Rightarrow> lease \<Rightarrow> string \<Rightarrow> payload \<Rightarrow> (act_error + action_result, 'w) act" where
  "backend_dispatch V l kind req =
     seq (emit_event (Sent (l_ID l) (l_TargetUDID l) kind)) (\<lambda>_. call (v_Dispatch V (l_ID l) (l_TargetUDID l) kind req))"

definition dispatch_failed :: "'w services \<Rightarrow> lease \<Rightarrow> event \<Rightarrow> act_error \<Rightarrow> (wire_error + action_result, 'w) act" where
  "dispatch_failed V l ev err =
     seq (gets (\<lambda>s. targetDownDetail s (l_TargetUDID l))) (\<lambda>detail.
     seq (failure_event V err (l_TargetUDID l) detail ev) (\<lambda>ev.
     seq (record_ev V ev) (\<lambda>_.
     ret (Inl (if we_Code (WireError err) = ''target_not_booted''
               then (WireError err)\<lparr>we_Detail := detail\<rparr> else WireError err)))))"

definition dispatch_done :: "'w services \<Rightarrow> string \<Rightarrow> payload \<Rightarrow> event \<Rightarrow> action_result \<Rightarrow> (wire_error + action_result, 'w) act" where
  "dispatch_done V kind req ev res =
     seq (if kind = ''screenshot'' then journalImage V (az_Result res) req (lift_hashes (az_Result res) ev) ''screenshot''
          else if kind = ''audit'' then journalAudit V (az_Result res) req (lift_hashes (az_Result res) ev)
          else ret (az_Result res, lift_hashes (az_Result res) ev)) (\<lambda>(result, ev).
     seq (journalLogs V result ev) (\<lambda>ev.
     seq (record_ref V (lift_extra result ev)) (\<lambda>ref.
     ret (Inr (res\<lparr>az_Result := result,
        az_JournalRef := (if j_RunID ref \<noteq> [] \<and> az_JournalRef res = None then Some ref else az_JournalRef res)\<rparr>)))))"

definition dispatchAction :: "'w services \<Rightarrow> string \<Rightarrow> string \<Rightarrow> payload \<Rightarrow> (wire_error + action_result, 'w) act" where
  "dispatchAction V leaseID kind req =
     (if \<not> bd_actions (v_build V) then ret (Inl (mk_error ''not_implemented'' [T ''actions is not implemented in this build'']))
      else if kind = [] then ret (Inl (mk_error ''bad_request'' [T ''kind is required (action requests are {\"lease_id\",\"kind\",\"payload\"}; see proto/PROTOCOL.md '', T [CHR 0xC2, CHR 0xA7], T ''5)'']))
      else
        seq (leases_Get V leaseID) (\<lambda>got.
        (case action_guard kind got of
           Inl e \<Rightarrow> ret (Inl e)
         | Inr l \<Rightarrow>
             let ev = mk_event ''action'' (l_ID l) (l_AgentID l) kind (journalParams req) in
             seq (backend_dispatch V l kind req) (\<lambda>r.
             (case r of
                Inl err \<Rightarrow> dispatch_failed V l ev err
              | Inr res \<Rightarrow> dispatch_done V kind req ev res)))))"

text \<open>\<^verbatim>\<open>dispatchActionBatch\<close>\<close>

definition maxBatchActions :: nat where "maxBatchActions = 32"
definition batchBudget :: duration where "batchBudget = 5 * Minute"

record batch_item =
  bi_Result :: "(payload \<times> journal_ref option) option"
  bi_Error :: "wire_error option"

record batch_result =
  br_OK :: bool
  br_Results :: "batch_item list"
  br_Completed :: nat

fun batch_loop :: "'w services \<Rightarrow> string \<Rightarrow> bool \<Rightarrow> (string \<times> payload) list \<Rightarrow> batch_result \<Rightarrow> (batch_result, 'w) act" where
  "batch_loop V leaseID stop [] out = ret out"
| "batch_loop V leaseID stop ((kind, req) # as) out =
     seq (call (v_expired V)) (\<lambda>over.
     if over then
       ret (out\<lparr>br_OK := False, br_Results := br_Results out @
         [\<lparr>bi_Result = None, bi_Error = Some (mk_error ''timeout''
            [T ''batch budget ('', Span batchBudget, T '') exhausted; remaining actions not run''])\<rparr>]\<rparr>)
     else
       seq (dispatchAction V leaseID kind req) (\<lambda>r.
       (case r of
          Inl e \<Rightarrow>
            let out = out\<lparr>br_OK := False, br_Results := br_Results out @ [\<lparr>bi_Result = None, bi_Error = Some e\<rparr>],
                          br_Completed := Suc (br_Completed out)\<rparr>
            in if stop then ret out else batch_loop V leaseID stop as out
        | Inr res \<Rightarrow>
            batch_loop V leaseID stop as
              (out\<lparr>br_Results := br_Results out @ [\<lparr>bi_Result = Some (az_Result res, az_JournalRef res), bi_Error = None\<rparr>],
                   br_Completed := Suc (br_Completed out)\<rparr>))))"

definition dispatchActionBatch ::
  "'w services \<Rightarrow> string \<Rightarrow> bool \<Rightarrow> (string \<times> payload) list \<Rightarrow> (wire_error + batch_result, 'w) act"
where
  "dispatchActionBatch V leaseID stop as =
     (if \<not> bd_actions (v_build V) then ret (Inl (mk_error ''not_implemented'' [T ''actions is not implemented in this build'']))
      else if as = [] then ret (Inl (mk_error ''bad_request'' [T ''actions must be a non-empty array'']))
      else if length as > maxBatchActions then
        ret (Inl (mk_error ''bad_request'' [T ''too many actions in one batch (max '', Number (int maxBatchActions), T '')'']))
      else seq (batch_loop V leaseID stop as \<lparr>br_OK = True, br_Results = [], br_Completed = 0\<rparr>) (\<lambda>out. ret (Inr out)))"

end
