(* ===== verification/Mz_ServerOps.thy ===== *)
theory Mz_ServerOps
  imports Mz_Server
begin

text \<open>
  The handlers of \<^verbatim>\<open>internal/server\<close> that own a target's or a lease's life cycle: boots with their
  server-side wait, shutdowns, leases (acquire, renew, pause, resume, release), the dashboard's leaseless
  operations and the guard of the state endpoints. A response is its status and body.
\<close>

datatype 'a reply = Reply int 'a | Refuse int wire_error

definition refuse_with :: "int \<Rightarrow> string \<Rightarrow> part list \<Rightarrow> ('a reply, 'w) act" where
  "refuse_with status code msg = ret (Refuse status (mk_error code msg))"

section \<open>Status codes\<close>

definition actionStatus :: "string \<Rightarrow> int" where
  "actionStatus code =
     (case map_of [(''bad_request'', 400), (''not_found'', 404), (''unavailable'', 503), (''target_not_booted'', 409),
        (''timeout'', 408), (''off_viewport'', 409), (''ambiguous_match'', 409), (''focus_required'', 412),
        (''assertion_failed'', 417), (''forbidden'', 403), (''lease_paused'', 409), (''not_implemented'', 501)] code of
        Some n \<Rightarrow> n | None \<Rightarrow> 500)"

definition handleAction :: "'w services \<Rightarrow> string \<Rightarrow> string \<Rightarrow> payload \<Rightarrow> (action_result reply, 'w) act" where
  "handleAction V leaseID kind req =
     seq (dispatchAction V leaseID kind req) (\<lambda>r.
     ret (case r of
            Inl e \<Rightarrow> Refuse (if we_Code e = ''not_implemented'' then 501 else if we_Code e = ''lease_expired'' then 410
                             else actionStatus (we_Code e)) e
          | Inr res \<Rightarrow> Reply 200 res))"

definition handleActionBatch :: "'w services \<Rightarrow> string \<Rightarrow> bool \<Rightarrow> (string \<times> payload) list \<Rightarrow> (batch_result reply, 'w) act" where
  "handleActionBatch V leaseID stop as =
     seq (dispatchActionBatch V leaseID stop as) (\<lambda>r.
     ret (case r of Inl e \<Rightarrow> Refuse (actionStatus (we_Code e)) e | Inr res \<Rightarrow> Reply 200 res))"

text \<open>\<^verbatim>\<open>errors.Is\<close> and \<^verbatim>\<open>errors.As\<close> look through wrapped errors.\<close>

fun gate_refused :: "pool_error \<Rightarrow> bool" where
  "gate_refused (ErrLoadTooHigh _ _) = True"
| "gate_refused (ErrDiskTooLow _ _) = True"
| "gate_refused (ErrTooManyRunning _ _) = True"
| "gate_refused (PreviousBootFailed _ e) = gate_refused e"
| "gate_refused (In _ e) = gate_refused e"
| "gate_refused _ = False"

definition isOverloadErr :: "pool_error \<Rightarrow> bool" where "isOverloadErr = gate_refused"

fun reg_cause :: "pool_error \<Rightarrow> reg_error option" where
  "reg_cause (RegistryFailed e) = Some e"
| "reg_cause (PreviousBootFailed _ e) = reg_cause e"
| "reg_cause (In _ e) = reg_cause e"
| "reg_cause _ = None"

fun is_device_refusal :: "reg_error \<Rightarrow> bool" where
  "is_device_refusal (DeviceBootError _) = True"
| "is_device_refusal (DeviceShutdownError _) = True"
| "is_device_refusal (JoinedError es) = list_ex is_device_refusal es"
| "is_device_refusal _ = False"

definition targetOpErr :: "pool_error \<Rightarrow> int \<times> string" where
  "targetOpErr err =
     (if (case reg_cause err of Some e \<Rightarrow> is_not_found e | None \<Rightarrow> False) then (404, ''not_found'')
      else if (case reg_cause err of Some e \<Rightarrow> is_device_refusal e | None \<Rightarrow> False) then (501, ''not_implemented'')
      else if isOverloadErr err then (503, ''overloaded'')
      else (500, ''internal''))"

section \<open>Boots and shutdowns\<close>

definition overloadRetryAfter :: duration where "overloadRetryAfter = 30 * Second"

datatype boot_error =
    BootFailed pool_error
  | WaitLeaseGone
  | WaitBusy
  | NeverBootedRun TargetState "reg_error option"   \<comment> \<open>\<^verbatim>\<open>waitTargetBooted\<close> gave up\<close>

definition boot_text :: "'w services \<Rightarrow> boot_error \<Rightarrow> string" where
  "boot_text V err = (case err of
      BootFailed e \<Rightarrow> v_pool_text V e
    | WaitLeaseGone \<Rightarrow> ''lease is no longer active on this target; boot wait aborted''
    | WaitBusy \<Rightarrow> ''a boot wait is already in flight for this lease''
    | NeverBootedRun st (Some e) \<Rightarrow> v_render V [T ''target did not reach Booted: '', RegText e]
    | NeverBootedRun st None \<Rightarrow> v_render V [T ''target did not reach Booted (still '', StateText st, T '')''])"

definition requireLease :: "'w services \<Rightarrow> string \<Rightarrow> string \<Rightarrow> ((int \<times> wire_error) + lease, 'w) act" where
  "requireLease V leaseID udid =
     seq (leases_Get V leaseID) (\<lambda>got.
     ret (case got of
            Inl _ \<Rightarrow> Inl (404, mk_error ''not_found'' [T ''lease not found''])
          | Inr l \<Rightarrow>
              if l_State l \<noteq> LeaseActive then Inl (410, mk_error ''lease_expired'' [T ''lease is not active''])
              else if l_TargetUDID l \<noteq> udid then Inl (400, mk_error ''bad_request'' [T ''lease does not hold this target''])
              else Inr l))"

definition bootTarget :: "'w services \<Rightarrow> lease \<Rightarrow> string \<Rightarrow> (pool_error option, 'w) act" where
  "bootTarget V l udid =
     seq (call (v_reg_Get V udid)) (\<lambda>got.
     let wasBooted = (case got of Inr t \<Rightarrow> t_State t = StateBooted | Inl _ \<Rightarrow> False) in
     seq (emit_event (BootSent (l_ID l) udid)) (\<lambda>_.
     seq (call (v_Boot V udid)) (\<lambda>err.
     (case err of
        Some e \<Rightarrow> ret (Some e)
      | None \<Rightarrow>
          seq (clearShutdownNote udid) (\<lambda>_.
          seq (when_do (bd_recorder (v_build V) \<and> \<not> wasBooted) (call (v_ClearPoisoned V (l_TargetUDID l)))) (\<lambda>_.
          seq (maybeAutoRecord V l) (\<lambda>_. ret None)))))))"

definition shutdownTarget :: "'w services \<Rightarrow> lease \<Rightarrow> string \<Rightarrow> (pool_error option, 'w) act" where
  "shutdownTarget V l udid =
     seq (call (v_drainRecording V udid)) (\<lambda>_.
     seq (emit_event (ShutdownSent (l_ID l) udid)) (\<lambda>_.
     seq (call (v_Shutdown V udid)) (\<lambda>err.
     (case err of
        Some e \<Rightarrow> ret (Some e)
      | None \<Rightarrow>
          let (actor, reason) =
            (if l_ID l = [] then (''dashboard'', ''operator-requested shutdown'')
             else (''agent '' @ l_AgentID l, ''requested shutdown under lease '' @ redactLeaseID_daemon V (l_ID l)))
          in seq (NoteShutdown V udid actor [T reason]) (\<lambda>_.
             seq (when_do (bd_recorder (v_build V)) (call (v_ClearPoisoned V (l_TargetUDID l)))) (\<lambda>_. ret None))))))"

text \<open>
  The retry loop of \<^verbatim>\<open>bootTargetWait\<close>; \<open>n\<close> is how many more polls its context allows. Every attempt first
  looks the lease up again.
\<close>

definition boot_attempt :: "'w services \<Rightarrow> lease \<Rightarrow> string \<Rightarrow> bool \<Rightarrow> (boot_error option, 'w) act" where
  "boot_attempt V l udid first =
     seq (leases_Get V (l_ID l)) (\<lambda>cur.
     if (case cur of Inl _ \<Rightarrow> True | Inr c \<Rightarrow> l_State c \<noteq> LeaseActive \<or> l_TargetUDID c \<noteq> udid) then ret (Some WaitLeaseGone)
     else
       seq (if first \<or> \<not> bd_gates (v_build V) then bootTarget V l udid
            else seq (call (v_gates V udid)) (\<lambda>e. case e of Some e \<Rightarrow> ret (Some e) | None \<Rightarrow> bootTarget V l udid)) (\<lambda>err.
       ret (map_option BootFailed err)))"

fun boot_loop :: "'w services \<Rightarrow> lease \<Rightarrow> string \<Rightarrow> bool \<Rightarrow> nat \<Rightarrow> (boot_error option, 'w) act" where
  "boot_loop V l udid first n =
     seq (boot_attempt V l udid first) (\<lambda>err.
     (case err of
        Some (BootFailed e) \<Rightarrow>
          if \<not> isOverloadErr e then ret err
          else (case n of 0 \<Rightarrow> ret err | Suc m \<Rightarrow> boot_loop V l udid False m)
      | _ \<Rightarrow> ret err))"

declare boot_loop.simps [simp del]

definition bootTargetWait :: "'w services \<Rightarrow> lease \<Rightarrow> string \<Rightarrow> (boot_error option, 'w) act" where
  "bootTargetWait V l udid =
     seq (gets sv_waitByLease) (\<lambda>waits.
     if l_ID l \<in> waits then ret (Some WaitBusy)
     else
       seq (update (\<lambda>s. s\<lparr>sv_waitByLease := insert (l_ID l) (sv_waitByLease s)\<rparr>)) (\<lambda>_.
       deferred
         (seq (call (v_slot V)) (\<lambda>free.
          if \<not> free then seq (bootTarget V l udid) (\<lambda>err. ret (map_option BootFailed err))
          else seq (call (v_polls V)) (\<lambda>n. boot_loop V l udid True n)))
         (update (\<lambda>s. s\<lparr>sv_waitByLease := sv_waitByLease s - {l_ID l}\<rparr>))))"

definition overload_error :: "'w services \<Rightarrow> boot_error \<Rightarrow> wire_error" where
  "overload_error V err =
     (mk_error ''overloaded'' [T (boot_text V err)])\<lparr>we_RetryAfterSeconds := overloadRetryAfter div Second\<rparr>"

definition handleTargetOp ::
  "'w services \<Rightarrow> string \<Rightarrow> string \<Rightarrow> string \<Rightarrow> (lease \<Rightarrow> (boot_error option, 'w) act) \<Rightarrow> (target reply, 'w) act"
where
  "handleTargetOp V action udid leaseID op =
     seq (requireLease V leaseID udid) (\<lambda>got.
     (case got of
        Inl (status, e) \<Rightarrow> ret (Refuse status e)
      | Inr l \<Rightarrow>
          let ev = mk_event ''action'' leaseID (l_AgentID l) action [(''udid'', JStr udid)] in
          seq (op l) (\<lambda>err.
          (case err of
             Some err \<Rightarrow>
               seq (record_ev V (failed_event (boot_text V err) ev)) (\<lambda>_.
               ret (case err of
                      WaitLeaseGone \<Rightarrow> Refuse 410 (mk_error ''lease_expired'' [T (boot_text V err)])
                    | WaitBusy \<Rightarrow> Refuse 503 (overload_error V err)
                    | BootFailed e \<Rightarrow>
                        let (status, code) = targetOpErr e in
                        if code = ''overloaded'' then Refuse status (overload_error V err)
                        else Refuse status (mk_error code [T (boot_text V err)])
                    | _ \<Rightarrow> Refuse 500 (mk_error ''internal'' [T (boot_text V err)])))
           | None \<Rightarrow>
               seq (record_ev V ev) (\<lambda>_.
               seq (call (v_reg_Get V udid)) (\<lambda>t.
               (case t of
                  Inl e \<Rightarrow> refuse_with 500 ''internal'' [RegText e]
                | Inr t \<Rightarrow> seq (call (v_broadcast V ''target.state'')) (\<lambda>_. ret (Reply 202 t))))))))) "

definition handleBoot :: "'w services \<Rightarrow> bool \<Rightarrow> string \<Rightarrow> string \<Rightarrow> (target reply, 'w) act" where
  "handleBoot V wait udid leaseID =
     handleTargetOp V ''targets.boot'' udid leaseID (\<lambda>l.
       if wait then bootTargetWait V l udid
       else seq (bootTarget V l udid) (\<lambda>err. ret (map_option BootFailed err)))"

definition handleShutdown :: "'w services \<Rightarrow> string \<Rightarrow> string \<Rightarrow> (target reply, 'w) act" where
  "handleShutdown V udid leaseID =
     handleTargetOp V ''targets.shutdown'' udid leaseID (\<lambda>l.
       seq (shutdownTarget V l udid) (\<lambda>err. ret (map_option BootFailed err)))"

section \<open>The state endpoints\<close>

definition stateOpOnDevice :: "'w services \<Rightarrow> string \<Rightarrow> (bool, 'w) act" where
  "stateOpOnDevice V udid =
     seq (call (v_devices V)) (\<lambda>on.
     if \<not> on then ret False
     else seq (call (v_reg_Get V udid)) (\<lambda>t. ret (case t of Inr t \<Rightarrow> t_Kind t = TargetDevice | Inl _ \<Rightarrow> False)))"

definition recordState :: "'w services \<Rightarrow> string \<Rightarrow> string \<Rightarrow> payload \<Rightarrow> state_error option \<Rightarrow> (unit, 'w) act" where
  "recordState V leaseID action params err =
     seq (leases_Get V leaseID) (\<lambda>got.
     let agentID = (case got of Inr l \<Rightarrow> l_AgentID l | Inl _ \<Rightarrow> []);
         ev = mk_event ''state'' leaseID agentID action params
     in record_ev V (case err of None \<Rightarrow> ev | Some e \<Rightarrow> failed_event (v_state_text V e) ev))"

definition leasedTarget :: "'w services \<Rightarrow> string \<Rightarrow> ((int \<times> wire_error) + string, 'w) act" where
  "leasedTarget V leaseID =
     (if leaseID = [] then ret (Inl (400, mk_error ''bad_request'' [T ''lease_id is required'']))
      else
        seq (leases_Get V leaseID) (\<lambda>got.
        (case got of
           Inl _ \<Rightarrow> ret (Inl (404, mk_error ''not_found'' [T ''lease not found'']))
         | Inr l \<Rightarrow>
             if l_State l \<noteq> LeaseActive then ret (Inl (410, mk_error ''lease_expired'' [T ''lease is not active'']))
             else seq (stateOpOnDevice V (l_TargetUDID l)) (\<lambda>dev.
                  if dev then ret (Inl (501, mk_error ''not_implemented''
                    [T ''state operations are simulator-only; leased target is a physical device'']))
                  else ret (Inr (l_TargetUDID l))))))"

definition writeStateError :: "'w services \<Rightarrow> state_error \<Rightarrow> int \<times> wire_error" where
  "writeStateError V err =
     (let (status, code) = (case err of
         ErrTargetBusy \<Rightarrow> (409, ''target_busy'') | ErrSnapshotNotFound \<Rightarrow> (404, ''not_found'')
       | ErrBadFixture \<Rightarrow> (400, ''bad_request'') | ErrBadReset \<Rightarrow> (400, ''bad_request'')
       | _ \<Rightarrow> (500, ''internal''))
      in (status, mk_error code [T (v_state_text V err)]))"

definition handleStateFixture :: "'w services \<Rightarrow> string \<Rightarrow> string \<Rightarrow> payload \<Rightarrow> (unit reply, 'w) act" where
  "handleStateFixture V leaseID name fixture =
     (if name = [] then refuse_with 400 ''bad_request'' [T ''name is required''] else
      seq (leasedTarget V leaseID) (\<lambda>t.
      (case t of
         Inl (status, e) \<Rightarrow> ret (Refuse status e)
       | Inr udid \<Rightarrow>
           if udid = [] then ret (Reply 200 ()) else
           seq (emit_event (StateSent leaseID udid ''fixture'')) (\<lambda>_.
           seq (call (v_ApplyFixture V udid name fixture)) (\<lambda>err.
           seq (recordState V leaseID ''state.fixture'' [(''udid'', JStr udid), (''name'', JStr name)] err) (\<lambda>_.
           ret (case err of
                  Some e \<Rightarrow> (case writeStateError V e of (status, we) \<Rightarrow> Refuse status we)
                | None \<Rightarrow> Reply 200 ())))))))"

section \<open>Leases\<close>

definition noMatchMessage :: "acquire_req \<Rightarrow> part list" where
  "noMatchMessage req =
     (if r_UDID req \<noteq> [] \<and> r_Labels req \<noteq> [] then [T (''pinned target '' @ r_UDID req @ '' is unknown or does not match the requested labels'')]
      else if r_UDID req \<noteq> [] then [T (''pinned target '' @ r_UDID req @ '' is unknown'')]
      else [T ''no target matches the requested labels''])"

definition acquireParams :: "acquire_req \<Rightarrow> payload" where
  "acquireParams req =
     pset_if (r_Record req \<noteq> []) ''record'' (JStr (r_Record req))
       (pset_if (r_UDID req \<noteq> []) ''udid'' (JStr (r_UDID req))
          [(''labels'', JArr (map JStr (r_Labels req))), (''ttl_seconds'', JNum (of_int (r_TTLSeconds req)))])"

definition hasAllLabels :: "string list \<Rightarrow> string list \<Rightarrow> bool" where
  "hasAllLabels have want \<longleftrightarrow> list_all (\<lambda>w. w \<in> set have) want"

text \<open>\<^verbatim>\<open>deviceResetConflict\<close>: a reset asked for on what can only be a physical device.\<close>

definition only_devices_match :: "target list \<Rightarrow> string list \<Rightarrow> bool" where
  "only_devices_match ts labels \<longleftrightarrow>
     list_ex (\<lambda>t. hasAllLabels (t_Labels t) labels) ts \<and>
     list_all (\<lambda>t. hasAllLabels (t_Labels t) labels \<longrightarrow> t_Kind t = TargetDevice) ts"

definition deviceResetConflict :: "'w services \<Rightarrow> acquire_req \<Rightarrow> (bool, 'w) act" where
  "deviceResetConflict V req =
     (if \<not> wantsReset (r_Reset req) then ret False
      else if ''device'' \<in> set (r_Labels req) then ret True
      else
        seq (call (v_devices V)) (\<lambda>on.
        if \<not> on then ret False else
        seq (if r_UDID req = [] then ret False
             else seq (call (v_reg_Get V (r_UDID req))) (\<lambda>t. ret (case t of Inr t \<Rightarrow> t_Kind t = TargetDevice | Inl _ \<Rightarrow> False))) (\<lambda>pinned.
        if pinned then ret True
        else if r_Labels req = [] then ret False
        else seq (call (v_reg_List V)) (\<lambda>ts. ret (case ts of Inr ts \<Rightarrow> only_devices_match ts (r_Labels req) | Inl _ \<Rightarrow> False)))))"

definition refuseDeviceResetGrant :: "'w services \<Rightarrow> lease \<Rightarrow> (bool, 'w) act" where
  "refuseDeviceResetGrant V l =
     seq (call (v_devices V)) (\<lambda>on.
     if \<not> on \<or> \<not> wantsReset (l_Reset l) \<or> l_TargetUDID l = [] then ret False else
     seq (call (v_reg_Get V (l_TargetUDID l))) (\<lambda>t.
     (case t of
        Inl _ \<Rightarrow> ret False
      | Inr t \<Rightarrow>
          if t_Kind t \<noteq> TargetDevice then ret False else
          seq (emit_event (ResetDropped (l_ID l))) (\<lambda>_.
          seq (call (v_DropReset V (l_ID l))) (\<lambda>_.
          seq (leases_Release V (l_ID l)) (\<lambda>_. ret True))))))"

text \<open>\<^verbatim>\<open>leases.Acquire\<close> with its trace entry.\<close>

definition leases_Acquire :: "'w services \<Rightarrow> acquire_req \<Rightarrow> (lease_error + lease, 'w) act" where
  "leases_Acquire V req =
     seq (call (v_Acquire V req)) (\<lambda>r.
     seq (case r of Inr l \<Rightarrow> emit_event (Acquired l) | Inl _ \<Rightarrow> ret ()) (\<lambda>_. ret r))"

definition lease_state_text :: "LeaseState \<Rightarrow> string" where
  "lease_state_text st = (case st of LeaseUnset \<Rightarrow> [] | LeaseActive \<Rightarrow> ''active'' | LeaseQueued \<Rightarrow> ''queued''
     | LeaseExpired \<Rightarrow> ''expired'' | LeaseReleased \<Rightarrow> ''released'')"

definition acquired_event :: "acquire_req \<Rightarrow> lease \<Rightarrow> event" where
  "acquired_event req l =
     (mk_event ''lease'' (l_ID l) (l_AgentID l) ''leases.acquire'' (acquireParams req))
       \<lparr>ev_Extra := [(''lease_state'', JStr (lease_state_text (l_State l)))]\<rparr>"

definition handleAcquireLease_daemon :: "'w services \<Rightarrow> acquire_req \<Rightarrow> (lease reply, 'w) act" where
  "handleAcquireLease_daemon V req0 =
     (let req = NormalizeAgentID req0 in
      if r_AgentID req = [] then refuse_with 400 ''bad_request'' [T ''agent_id is required (session_id is accepted as an alias)'']
      else if \<not> ValidResetSpec (r_Reset req) then refuse_with 400 ''bad_request'' [T ''reset must be none, erase, or snapshot:<name>'']
      else if \<not> resetSpecSupported (v_build V) (r_Reset req) then refuse_with 501 ''not_implemented'' [T ''reset is not implemented in this build'']
      else if r_Record req \<noteq> [] \<and> r_Record req \<noteq> ''video'' then refuse_with 400 ''bad_request'' [T ''record must be empty or \"video\"'']
      else if r_Record req = ''video'' \<and> \<not> bd_recorder (v_build V) then refuse_with 501 ''not_implemented'' [T ''recording is not implemented in this build'']
      else
        seq (deviceResetConflict V req) (\<lambda>conflict.
        if conflict then refuse_with 400 ''bad_request'' [T ''reset is not supported for physical devices; acquire the lease without a reset'']
        else
          seq (leases_Acquire V req) (\<lambda>got.
          (case got of
             Inl ErrNoMatch \<Rightarrow> refuse_with 409 ''no_match'' (noMatchMessage req)
           | Inl err \<Rightarrow> refuse_with 500 ''internal'' [LeaseText err]
           | Inr l \<Rightarrow>
               seq (refuseDeviceResetGrant V l) (\<lambda>refused.
               if refused then refuse_with 400 ''bad_request'' [T ''reset is not supported for physical devices; acquire the lease without a reset'']
               else
                 seq (syncRunOpen V (l_ID l)) (\<lambda>_.
                 seq (startRun V l) (\<lambda>_.
                 seq (maybeAutoRecord V l) (\<lambda>_.
                 seq (record_ev V (acquired_event req l)) (\<lambda>_.
                 ret (Reply (if l_State l = LeaseQueued then 202 else 201) l))))))))))"

definition handleGetLease :: "'w services \<Rightarrow> string \<Rightarrow> (lease reply, 'w) act" where
  "handleGetLease V lid =
     seq (leases_Get V lid) (\<lambda>got.
     (case got of Inl _ \<Rightarrow> refuse_with 404 ''not_found'' [T ''lease not found''] | Inr l \<Rightarrow> ret (Reply 200 l)))"

text \<open>The common answer of renewing, pausing and resuming, with the journal entry of a success.\<close>

definition lease_change ::
  "'w services \<Rightarrow> (lease_error + lease, 'w) act \<Rightarrow> string \<Rightarrow> payload \<Rightarrow> string \<Rightarrow> (lease reply, 'w) act"
where
  "lease_change V op action params event =
     seq op (\<lambda>got.
     (case got of
        Inl ErrNotFound \<Rightarrow> refuse_with 404 ''not_found'' [T ''lease not found'']
      | Inl (ErrNotActive _) \<Rightarrow> refuse_with 410 ''lease_expired'' [T ''lease is not active'']
      | Inl err \<Rightarrow> refuse_with 500 ''internal'' [LeaseText err]
      | Inr l \<Rightarrow>
          seq (record_ev V (mk_event ''lease'' (l_ID l) (l_AgentID l) action params)) (\<lambda>_.
          seq (when_do (event \<noteq> []) (call (v_broadcast V event))) (\<lambda>_. ret (Reply 200 l)))))"

definition handleRenewLease :: "'w services \<Rightarrow> string \<Rightarrow> int \<Rightarrow> (lease reply, 'w) act" where
  "handleRenewLease V lid ttl =
     lease_change V (call (v_Renew V lid ttl)) ''leases.renew'' [(''ttl_seconds'', JNum (of_int ttl))] []"

definition handlePauseLease :: "'w services \<Rightarrow> string \<Rightarrow> string \<Rightarrow> (lease reply, 'w) act" where
  "handlePauseLease V lid reason =
     lease_change V (call (v_Pause V lid reason)) ''leases.pause''
       (if reason \<noteq> [] then [(''reason'', JStr reason)] else []) ''lease.paused''"

definition handleResumeLease :: "'w services \<Rightarrow> string \<Rightarrow> (lease reply, 'w) act" where
  "handleResumeLease V lid = lease_change V (call (v_Resume V lid)) ''leases.resume'' [] ''lease.resumed''"

text \<open>What follows an explicit release, when the lease was still live before it.\<close>

definition after_release :: "'w services \<Rightarrow> lease_error + lease \<Rightarrow> lease \<Rightarrow> (unit, 'w) act" where
  "after_release V prior l =
     seq (case prior of Inr p \<Rightarrow> when_do (l_State p = LeaseActive) (call (v_stopRecording V p)) | Inl _ \<Rightarrow> ret ()) (\<lambda>_.
     (case prior of
        Inr p \<Rightarrow>
          if l_State p \<noteq> LeaseReleased \<and> l_State p \<noteq> LeaseExpired then
            seq (record_ev V (mk_event ''lease'' (l_ID l) (l_AgentID l) ''leases.release'' [])) (\<lambda>_.
            when_do (bd_pool (v_build V) \<and> l_TargetUDID l \<noteq> []) (call (v_leaseEnd V (l_TargetUDID l))))
          else ret ()
      | Inl _ \<Rightarrow> ret ()))"

definition handleReleaseLease :: "'w services \<Rightarrow> string \<Rightarrow> (lease reply, 'w) act" where
  "handleReleaseLease V lid =
     seq (leases_Get V lid) (\<lambda>prior.
     seq (leases_Release V lid) (\<lambda>got.
     (case got of
        Inl _ \<Rightarrow> refuse_with 404 ''not_found'' [T ''lease not found'']
      | Inr l \<Rightarrow> deferred (seq (after_release V prior l) (\<lambda>_. ret (Reply 200 l))) (syncRunOpen V (l_ID l)))))"

end
