(* ===== verification/Mz_Run.thy ===== *)
theory Mz_Run
  imports Mz_ServerOps
begin

text \<open>
  The run engine (\<^verbatim>\<open>internal/server/runs.go\<close>, \<^verbatim>\<open>runs_drift.go\<close>): acquiring a lease, booting, fixtures, install
  and launch, the steps with their drift checks, the closing evidence, the release and the terminal
  state. The contexts of the code only bound how long a backend may take; a call that is cut short is an
  answer of the backend. How often a poll loop goes round before one of its timers is picked is an
  answer too (Go's \<^verbatim>\<open>select\<close> takes any ready case).
\<close>

section \<open>The handle\<close>

definition upd_run :: "(run \<Rightarrow> run) \<Rightarrow> (unit, 'w) act" where
  "upd_run f = update (\<lambda>s. s\<lparr>sv_run := f (sv_run s)\<rparr>)"

definition set_stage :: "run_stage \<Rightarrow> (unit, 'w) act" where
  "set_stage st = upd_run (\<lambda>r. r\<lparr>rn_Stage := st\<rparr>)"

definition add_result :: "step_result \<Rightarrow> (unit, 'w) act" where
  "add_result res = upd_run (\<lambda>r. r\<lparr>rn_Steps := rn_Steps r @ [res]\<rparr>)"

text \<open>\<^verbatim>\<open>if err != nil { return err }\<close>\<close>

definition or_fail :: "(wire_error option, 'w) act \<Rightarrow> (wire_error option, 'w) act \<Rightarrow> (wire_error option, 'w) act" where
  "or_fail m k = seq m (\<lambda>e. case e of Some e \<Rightarrow> ret (Some e) | None \<Rightarrow> k)"

section \<open>Errors of stages\<close>

fun deadline_in :: "pool_error \<Rightarrow> bool" where
  "deadline_in ContextDone = True"
| "deadline_in (PreviousBootFailed _ e) = deadline_in e"
| "deadline_in (In _ e) = deadline_in e"
| "deadline_in _ = False"

definition runStageError :: "'w services \<Rightarrow> run_stage \<Rightarrow> boot_error \<Rightarrow> wire_error" where
  "runStageError V stage err =
     (let code = (case err of
         BootFailed e \<Rightarrow> if deadline_in e then ''timeout'' else snd (targetOpErr e)
       | NeverBootedRun _ (Some e) \<Rightarrow> snd (targetOpErr (RegistryFailed e))
       | _ \<Rightarrow> ''internal'')
      in mk_error code [T (stage_text stage), T '': '', T (boot_text V err)])"

definition runStateError :: "'w services \<Rightarrow> run_stage \<Rightarrow> part list \<Rightarrow> state_error \<Rightarrow> wire_error" where
  "runStateError V stage context err =
     (let code = (case err of
         ErrTargetBusy \<Rightarrow> ''target_busy'' | ErrSnapshotNotFound \<Rightarrow> ''not_found''
       | ErrBadFixture \<Rightarrow> ''bad_request'' | ErrBadReset \<Rightarrow> ''bad_request''
       | StateDeadline \<Rightarrow> ''timeout'' | _ \<Rightarrow> ''internal'')
      in mk_error code ([T (stage_text stage), T '': ''] @ context @ [T (v_state_text V err)]))"

section \<open>Drift\<close>

definition defaultJaccardMin :: rat where "defaultJaccardMin = 7 / 10"
definition defaultMaxHashDistance :: int where "defaultMaxHashDistance = 10"
definition driftTopBandFrac :: rat where "driftTopBandFrac = 5 / 100"
definition driftBottomBandFrac :: rat where "driftBottomBandFrac = 3 / 100"
definition driftMinRunLen :: nat where "driftMinRunLen = 2"

text \<open>\<^verbatim>\<open>len([]rune(s))\<close> of valid UTF-8: the bytes that do not continue a character.\<close>

definition rune_count :: "string \<Rightarrow> nat" where
  "rune_count s = length (filter (\<lambda>c. (of_char c :: nat) < 128 \<or> (of_char c :: nat) \<ge> 192) s)"

definition normalizeTextRun :: "string \<Rightarrow> string" where
  "normalizeTextRun s = (let t = ToLower (TrimSpace s) in if rune_count t < driftMinRunLen then [] else t)"

definition join_frames :: "frame \<Rightarrow> frame \<Rightarrow> frame" where
  "join_frames e f =
     (let x0 = min (f_X e) (f_X f); y0 = min (f_Y e) (f_Y f);
          x1 = max (f_X e + f_W e) (f_X f + f_W f); y1 = max (f_Y e + f_H e) (f_Y f + f_H f)
      in \<lparr>f_X = x0, f_Y = y0, f_W = x1 - x0, f_H = y1 - y0\<rparr>)"

definition treeExtent :: "node list \<Rightarrow> frame option" where
  "treeExtent nodes = fold (\<lambda>(p, n) ext. case n_Frame n of
      None \<Rightarrow> ext
    | Some f \<Rightarrow> Some (case ext of None \<Rightarrow> f | Some e \<Rightarrow> join_frames e f)) (walkNodes nodes) None"

definition inDriftBand :: "frame option \<Rightarrow> frame option \<Rightarrow> bool" where
  "inDriftBand f viewport = (case (f, viewport) of
      (Some f, Some v) \<Rightarrow>
        f_H v > 0 \<and>
        (let cy = f_Y f + f_H f / 2 in
         cy < f_Y v + f_H v * driftTopBandFrac \<or> cy > f_Y v + f_H v * (1 - driftBottomBandFrac))
    | _ \<Rightarrow> False)"

definition maskedTextSet :: "node list \<Rightarrow> string set" where
  "maskedTextSet nodes = (let viewport = treeExtent nodes in
     set (filter (\<lambda>t. t \<noteq> []) (concat (map (\<lambda>(p, n).
       if inDriftBand (n_Frame n) viewport then []
       else map normalizeTextRun [n_Label n, n_Value n, n_Placeholder n]) (walkNodes nodes)))))"

definition textJaccard :: "string set \<Rightarrow> string set \<Rightarrow> rat" where
  "textJaccard a b =
     (if a = {} \<and> b = {} then 1
      else let inter = card (a \<inter> b); union = card a + card b - inter in of_nat inter / of_nat union)"

definition maskedDHash :: "image \<Rightarrow> 64 word" where
  "maskedDHash img =
     (let b = im_bounds img; h = Dy b in
      DHash img
        [\<lparr>rc_MinX = rc_MinX b, rc_MinY = rc_MinY b, rc_MaxX = rc_MaxX b, rc_MaxY = rc_MinY b + \<lfloor>of_int h * driftTopBandFrac\<rfloor>\<rparr>,
         \<lparr>rc_MinX = rc_MinX b, rc_MinY = rc_MaxY b - \<lfloor>of_int h * driftBottomBandFrac\<rfloor>, rc_MaxX = rc_MaxX b, rc_MaxY = rc_MaxY b\<rparr>])"

text \<open>\<^verbatim>\<open>fmt.Sprintf("%016x", h)\<close>\<close>

definition hex16 :: "64 word \<Rightarrow> string" where
  "hex16 w = map (\<lambda>i. hex_digit (unat (drop_bit (4 * (15 - i)) w) mod 16)) [0..<16]"

record stepObservation =
  ob_texts :: "string set"
  ob_dhash :: "64 word option"        \<comment> \<open>\<^verbatim>\<open>dhash\<close> and \<^verbatim>\<open>hasHash\<close>\<close>
  ob_hashErr :: "part list"
  ob_textsErr :: "part list"

definition StepExpectationAction :: string where "StepExpectationAction = ''runs.step_expectation''"

text \<open>\<^verbatim>\<open>decodeCapture\<close>\<close>

definition decodeCapture :: "'w services \<Rightarrow> payload \<Rightarrow> part list + image" where
  "decodeCapture V result =
     (let fmt = (if strField result ''format'' = [] then ''png'' else strField result ''format'');
          b64 = strField result (fmt @ ''_base64'') in
      if b64 = [] then Inl [T (''screenshot result carried no inline '' @ fmt @ '' image'')]
      else (case v_unbase64 V b64 of
              None \<Rightarrow> Inl [T ''screenshot base64 decode failed'']
            | Some raw \<Rightarrow> (case v_decode V raw of None \<Rightarrow> Inl [T ''screenshot decode failed''] | Some img \<Rightarrow> Inr img)))"

definition observeStep :: "'w services \<Rightarrow> string \<Rightarrow> bool \<Rightarrow> bool \<Rightarrow> (stepObservation, 'w) act" where
  "observeStep V leaseID needTexts needHash =
     seq (if \<not> needTexts then ret ({}, [])
          else seq (dispatchAction V leaseID ''observe'' [(''purpose'', JStr StepExpectationAction)]) (\<lambda>r.
               ret (case r of Inl e \<Rightarrow> ({}, we_Message e) | Inr res \<Rightarrow> (maskedTextSet (az_Tree res), [])))) (\<lambda>(texts, textsErr).
     seq (if \<not> needHash then ret (None, [])
          else seq (dispatchAction V leaseID ''screenshot'' [(''format'', JStr ''png''), (''purpose'', JStr StepExpectationAction)]) (\<lambda>r.
               ret (case r of
                      Inl e \<Rightarrow> (None, we_Message e)
                    | Inr res \<Rightarrow> (case decodeCapture V (az_Result res) of
                                    Inl e \<Rightarrow> (None, e) | Inr img \<Rightarrow> (Some (maskedDHash img), []))))) (\<lambda>(dhash, hashErr).
     ret \<lparr>ob_texts = texts, ob_dhash = dhash, ob_hashErr = hashErr, ob_textsErr = textsErr\<rparr>))"

text \<open>The comparison of an observation with an expect block: skipped, or the mismatches.\<close>

definition text_mismatch :: "run_expect \<Rightarrow> stepObservation \<Rightarrow> mismatch list" where
  "text_mismatch e obs =
     (let want = set (filter (\<lambda>t. t \<noteq> []) (map normalizeTextRun (xp_Texts e)));
          minJ = (if xp_JaccardMin e = 0 then defaultJaccardMin else xp_JaccardMin e);
          j = textJaccard want (ob_texts obs)
      in if j < minJ then [TextsBelow j minJ] else [])"

definition compare_expect :: "run_expect \<Rightarrow> stepObservation \<Rightarrow> part list + mismatch list" where
  "compare_expect e obs =
     (if xp_Texts e \<noteq> [] \<and> ob_textsErr obs \<noteq> [] then Inl (T ''observe failed: '' # ob_textsErr obs)
      else
        let m1 = (if xp_Texts e = [] then [] else text_mismatch e obs) in
        if xp_Fingerprint e = [] then Inr m1
        else if ob_hashErr obs \<noteq> [] then Inl (T ''screenshot failed: '' # ob_hashErr obs)
        else (case ParseUint16 (xp_Fingerprint e) of
                None \<Rightarrow> Inl [T ''expect.fingerprint is not a 64-bit hex DHash'']
              | Some want \<Rightarrow>
                  let maxDist = (case xp_MaxHashDistance e of None \<Rightarrow> defaultMaxHashDistance | Some d \<Rightarrow> d);
                      got = (case ob_dhash obs of Some h \<Rightarrow> h | None \<Rightarrow> 0);
                      d = HashDistance want got
                  in Inr (m1 @ (if int d > maxDist then [HashBeyond d maxDist (xp_Fingerprint e) got] else []))))"

definition checkExpect :: "'w services \<Rightarrow> string \<Rightarrow> run_expect \<Rightarrow> (part list + mismatch list, 'w) act" where
  "checkExpect V leaseID e =
     seq (observeStep V leaseID (xp_Texts e \<noteq> []) (xp_Fingerprint e \<noteq> [])) (\<lambda>obs. ret (compare_expect e obs))"

definition observation_extra :: "'w services \<Rightarrow> nat \<Rightarrow> string \<Rightarrow> stepObservation \<Rightarrow> payload" where
  "observation_extra V i action obs =
     [(''step_index'', JNum (of_nat i)), (''step_action'', JStr action)] @
     (if ob_textsErr obs = [] then [(''texts'', JArr (map JStr (sorted_list_of_set (ob_texts obs))))]
      else [(''texts_error'', JStr (v_render V (ob_textsErr obs)))]) @
     (case ob_dhash obs of
        Some h \<Rightarrow> [(''dhash'', JStr (hex16 h))]
      | None \<Rightarrow> if ob_hashErr obs \<noteq> [] then [(''dhash_error'', JStr (v_render V (ob_hashErr obs)))] else [])"

definition recordStepExpectation :: "'w services \<Rightarrow> lease \<Rightarrow> nat \<Rightarrow> string \<Rightarrow> (unit, 'w) act" where
  "recordStepExpectation V l i action =
     seq (observeStep V (l_ID l) True True) (\<lambda>obs.
     record_ev V ((mk_event ''observation'' (l_ID l) (l_AgentID l) StepExpectationAction [])
       \<lparr>ev_Extra := observation_extra V i action obs\<rparr>))"

section \<open>Steps\<close>

text \<open>The entries of a batch step's payload.\<close>

fun batch_entries :: "nat \<Rightarrow> json list \<Rightarrow> wire_error + (string \<times> payload) list" where
  "batch_entries i [] = Inr []"
| "batch_entries i (e # es) =
     (case e of
        JObj m \<Rightarrow>
          if strField m ''kind'' = [] then
            Inl (mk_error ''bad_request'' [T ''batch actions['', Number (int i), T '']: kind is required''])
          else bindE (batch_entries (Suc i) es) (\<lambda>rest.
               Inr ((strField m ''kind'', (case map_of m ''payload'' of Some (JObj p) \<Rightarrow> p | _ \<Rightarrow> [])) # rest))
      | _ \<Rightarrow> Inl (mk_error ''bad_request'' [T ''batch actions['', Number (int i), T ''] must be an object with kind/payload'']))"

text \<open>The first result that carries an error, with its index.\<close>

fun first_failed :: "nat \<Rightarrow> batch_item list \<Rightarrow> (nat \<times> wire_error) option" where
  "first_failed i [] = None"
| "first_failed i (b # bs) = (case bi_Error b of Some e \<Rightarrow> Some (i, e) | None \<Rightarrow> first_failed (Suc i) bs)"

definition runBatchStep :: "'w services \<Rightarrow> string \<Rightarrow> payload \<Rightarrow> (wire_error option, 'w) act" where
  "runBatchStep V leaseID args =
     (let raw = (case map_of args ''actions'' of Some (JArr xs) \<Rightarrow> xs | _ \<Rightarrow> []);
          stop = (case map_of args ''stop_on_error'' of Some (JBool b) \<Rightarrow> b | _ \<Rightarrow> True) in
      if raw = [] then ret (Some (mk_error ''bad_request'' [T ''a batch step requires with.actions (non-empty array of {kind, payload})'']))
      else
        (case batch_entries 0 raw of
           Inl e \<Rightarrow> ret (Some e)
         | Inr as \<Rightarrow>
             seq (dispatchActionBatch V leaseID stop as) (\<lambda>r.
             ret (case r of
                    Inl e \<Rightarrow> Some e
                  | Inr res \<Rightarrow>
                      if br_OK res then None
                      else (case first_failed 0 (br_Results res) of
                              Some (i, e) \<Rightarrow> Some (prefixWireError [T ''batch actions['', Number (int i), T '']''] e)
                            | None \<Rightarrow> Some (mk_error ''internal'' [T ''batch failed'']))))))"

text \<open>The verdict so far of the steps loop: the first error and whether later steps are halted.\<close>

record progress =
  pg_firstErr :: "wire_error option"
  pg_halted :: bool

definition step_failed :: "run_step \<Rightarrow> wire_error \<Rightarrow> progress \<Rightarrow> progress" where
  "step_failed st e pg =
     \<lparr>pg_firstErr = (case pg_firstErr pg of None \<Rightarrow> Some e | Some f \<Rightarrow> Some f),
      pg_halted = (pg_halted pg \<or> \<not> st_ContinueOnError st)\<rparr>"

definition step_label :: "nat \<Rightarrow> run_step \<Rightarrow> part list" where
  "step_label i st = [T ''steps['', Number (int i), T ''] '', T (st_Action st)]"

text \<open>Executing one step's action.\<close>

definition step_action :: "'w services \<Rightarrow> lease \<Rightarrow> run_step \<Rightarrow> (wire_error + action_result, 'w) act" where
  "step_action V l st =
     (if st_Action st = ''batch'' then
        seq (runBatchStep V (l_ID l) (st_With st)) (\<lambda>e.
        ret (case e of Some e \<Rightarrow> Inl e | None \<Rightarrow> Inr \<lparr>az_Result = [], az_Tree = [], az_JournalRef = None\<rparr>))
      else dispatchAction V (l_ID l) (st_Action st) (st_With st))"

definition new_result :: "nat \<Rightarrow> run_step \<Rightarrow> step_result" where
  "new_result i st = \<lparr>sr_Index = i, sr_Name = st_Name st, sr_Action = st_Action st, sr_Status = StepOK, sr_Error = None,
     sr_DurationMS = 0, sr_JournalRef = None, sr_Verified = None, sr_Drifted = False, sr_DriftDetail = NoDetail\<rparr>"

definition ok_result :: "action_result \<Rightarrow> step_result \<Rightarrow> step_result" where
  "ok_result ar res = res\<lparr>sr_Status := StepOK, sr_JournalRef := az_JournalRef ar,
     sr_Verified := (case map_of (az_Result ar) ''verified'' of Some (JBool b) \<Rightarrow> Some b | _ \<Rightarrow> None)\<rparr>"

text \<open>The drift check after a step that succeeded.\<close>

definition drift_result :: "run_spec \<Rightarrow> nat \<Rightarrow> run_step \<Rightarrow> part list + mismatch list \<Rightarrow> step_result \<Rightarrow> progress \<Rightarrow> step_result \<times> progress" where
  "drift_result spec i st c res pg =
     (case c of
        Inl err \<Rightarrow> (res\<lparr>sr_DriftDetail := CheckSkipped err\<rparr>, pg)
      | Inr [] \<Rightarrow> (res, pg)
      | Inr ms \<Rightarrow>
          (res\<lparr>sr_Drifted := True, sr_DriftDetail := Drift ms\<rparr>,
           if sp_StrictDrift spec
           then step_failed st (mk_error ''assertion_failed'' (step_label i st @ [T '': drift detected: '', Mismatches ms])) pg
           else pg))"

definition check_drift :: "'w services \<Rightarrow> run_spec \<Rightarrow> lease \<Rightarrow> nat \<Rightarrow> run_step \<Rightarrow> step_result \<Rightarrow> progress \<Rightarrow> (step_result \<times> progress, 'w) act" where
  "check_drift V spec l i st res pg =
     (case st_Expect st of
        None \<Rightarrow> ret (res, pg)
      | Some e \<Rightarrow> seq (checkExpect V (l_ID l) e) (\<lambda>c. ret (drift_result spec i st c res pg)))"

definition step_budget :: "duration \<Rightarrow> run_step \<Rightarrow> duration" where
  "step_budget stepTO st = (if st_TimeoutSeconds st > 0 then duration_of_seconds (st_TimeoutSeconds st) else stepTO)"

definition execute_step :: "'w services \<Rightarrow> run_spec \<Rightarrow> duration \<Rightarrow> lease \<Rightarrow> nat \<Rightarrow> run_step \<Rightarrow> progress \<Rightarrow> (progress, 'w) act" where
  "execute_step V spec stepTO l i st pg =
     seq (emit_event (StepStarted i (step_budget stepTO st))) (\<lambda>_.
     seq (clock V) (\<lambda>started.
     seq (step_action V l st) (\<lambda>r.
     seq (clock V) (\<lambda>ended.
     let res = (new_result i st)\<lparr>sr_DurationMS := (ended - started) div 1000000\<rparr> in
     (case r of
        Inl e \<Rightarrow>
          seq (add_result (res\<lparr>sr_Status := StepError, sr_Error := Some e\<rparr>)) (\<lambda>_.
          ret (step_failed st (prefixWireError (step_label i st) e) pg))
      | Inr ar \<Rightarrow>
          seq (check_drift V spec l i st (ok_result ar res) pg) (\<lambda>(res, pg).
          seq (when_do (sp_RecordExpectations spec \<and> mutatingStepKind (st_Action st) \<and> bd_journal (v_build V))
                 (recordStepExpectation V l i (st_Action st))) (\<lambda>_.
          seq (add_result res) (\<lambda>_. ret pg))))))))"

fun run_steps :: "'w services \<Rightarrow> run_spec \<Rightarrow> duration \<Rightarrow> lease \<Rightarrow> nat \<Rightarrow> run_step list \<Rightarrow> progress \<Rightarrow> (progress, 'w) act" where
  "run_steps V spec stepTO l i [] pg = ret pg"
| "run_steps V spec stepTO l i (st # sts) pg =
     seq (if pg_halted pg \<and> \<not> st_ContinueOnError st
          then seq (add_result ((new_result i st)\<lparr>sr_Status := StepSkipped\<rparr>)) (\<lambda>_. ret pg)
          else execute_step V spec stepTO l i st pg) (\<lambda>pg.
     run_steps V spec stepTO l (Suc i) sts pg)"

section \<open>Stages\<close>

text \<open>\<^verbatim>\<open>waitTargetBooted\<close>; \<open>n\<close> is how many more polls its context allows.\<close>

fun wait_booted :: "'w services \<Rightarrow> string \<Rightarrow> nat \<Rightarrow> (boot_error option, 'w) act" where
  "wait_booted V udid n =
     seq (call (v_Health V udid)) (\<lambda>(st, err).
     if err = None \<and> st = StateBooted then ret None
     else (case n of 0 \<Rightarrow> ret (Some (NeverBootedRun st err)) | Suc m \<Rightarrow> wait_booted V udid m))"

declare wait_booted.simps [simp del]

definition waitTargetBooted :: "'w services \<Rightarrow> string \<Rightarrow> (boot_error option, 'w) act" where
  "waitTargetBooted V udid = seq (call (v_polls V)) (\<lambda>n. wait_booted V udid n)"

definition boot_event :: "lease \<Rightarrow> event" where
  "boot_event l = mk_event ''action'' (l_ID l) (l_AgentID l) ''targets.boot'' [(''udid'', JStr (l_TargetUDID l))]"

definition boot_or_fail :: "'w services \<Rightarrow> lease \<Rightarrow> (boot_error option, 'w) act \<Rightarrow> (wire_error option, 'w) act" where
  "boot_or_fail V l m =
     seq m (\<lambda>err. case err of
        None \<Rightarrow> ret None
      | Some e \<Rightarrow> seq (record_ev V (failed_event (boot_text V e) (boot_event l))) (\<lambda>_. ret (Some (runStageError V StageBoot e))))"

definition stage_boot :: "'w services \<Rightarrow> lease \<Rightarrow> (wire_error option, 'w) act" where
  "stage_boot V l =
     seq (set_stage StageBoot) (\<lambda>_.
     seq (stateOpOnDevice V (l_TargetUDID l)) (\<lambda>dev.
     if dev then ret None else
     or_fail (boot_or_fail V l (bootTargetWait V l (l_TargetUDID l)))
    (or_fail (boot_or_fail V l (waitTargetBooted V (l_TargetUDID l)))
    (seq (record_ev V (boot_event l)) (\<lambda>_.
     seq (call (v_reg_Get V (l_TargetUDID l))) (\<lambda>t.
     seq (case t of Inr t \<Rightarrow> call (v_broadcast V ''target.state'') | Inl _ \<Rightarrow> ret ()) (\<lambda>_. ret None)))))))"

fun apply_fixtures :: "'w services \<Rightarrow> lease \<Rightarrow> run_fixture list \<Rightarrow> (wire_error option, 'w) act" where
  "apply_fixtures V l [] = ret None"
| "apply_fixtures V l (f # fs) =
     seq (emit_event (FixtureSent (l_TargetUDID l) (fx_Name f))) (\<lambda>_.
     seq (call (v_ApplyFixture V (l_TargetUDID l) (fx_Name f) (fx_Payload f))) (\<lambda>err.
     seq (recordState V (l_ID l) ''state.fixture'' [(''udid'', JStr (l_TargetUDID l)), (''name'', JStr (fx_Name f))] err) (\<lambda>_.
     (case err of
        Some e \<Rightarrow> ret (Some (runStateError V StageFixtures [T ''fixture '', Quoted (fx_Name f), T '': ''] e))
      | None \<Rightarrow> apply_fixtures V l fs))))"

definition stage_fixtures :: "'w services \<Rightarrow> run_spec \<Rightarrow> lease \<Rightarrow> (wire_error option, 'w) act" where
  "stage_fixtures V spec l =
     (if tg_Fixtures (sp_Target spec) = [] then ret None else
      seq (set_stage StageFixtures) (\<lambda>_.
      seq (stateOpOnDevice V (l_TargetUDID l)) (\<lambda>dev.
      if dev then ret (Some (mk_error ''not_implemented''
        [T (stage_text StageFixtures), T '': state operations are simulator-only; leased target is a physical device'']))
      else apply_fixtures V l (tg_Fixtures (sp_Target spec)))))"

definition stage_dispatch :: "'w services \<Rightarrow> lease \<Rightarrow> run_stage \<Rightarrow> string \<Rightarrow> payload \<Rightarrow> (wire_error option, 'w) act" where
  "stage_dispatch V l stage kind req =
     seq (set_stage stage) (\<lambda>_.
     seq (dispatchAction V (l_ID l) kind req) (\<lambda>r.
     ret (case r of Inl e \<Rightarrow> Some (prefixWireError [T (stage_text stage)] e) | Inr _ \<Rightarrow> None)))"

definition launch_payload :: "run_app \<Rightarrow> payload" where
  "launch_payload app =
     [(''bundle_id'', JStr (ap_BundleID app))] @
     (if ap_TerminateRunning app then [(''terminate_running'', JBool True)] else []) @
     (if ap_Args app \<noteq> [] then [(''args'', JArr (map JStr (ap_Args app)))] else [])"

definition stage_app :: "'w services \<Rightarrow> run_spec \<Rightarrow> lease \<Rightarrow> (wire_error option, 'w) act" where
  "stage_app V spec l =
     (case sp_App spec of
        None \<Rightarrow> ret None
      | Some app \<Rightarrow>
          or_fail (if ap_Path app \<noteq> [] then stage_dispatch V l StageInstall ''install_app'' [(''path'', JStr (ap_Path app))] else ret None)
            (if ap_BundleID app \<noteq> [] \<and> (ap_Launch app = None \<or> ap_Launch app = Some True)
             then stage_dispatch V l StageLaunch ''launch_app'' (launch_payload app) else ret None))"

text \<open>The closing screenshot, which cannot fail the run.\<close>

definition final_screenshot :: "'w services \<Rightarrow> run_spec \<Rightarrow> lease \<Rightarrow> bool \<Rightarrow> (unit, 'w) act" where
  "final_screenshot V spec l passed =
     (if af_FinalScreenshot (sp_Artifacts spec) \<noteq> Some False \<and> bd_actions (v_build V) then
        seq (when_do passed (set_stage StageArtifacts)) (\<lambda>_.
        seq (dispatchAction V (l_ID l) ''screenshot'' [(''inline'', JBool False)]) (\<lambda>_. ret ()))
      else ret ())"

definition stage_steps :: "'w services \<Rightarrow> run_spec \<Rightarrow> duration \<Rightarrow> lease \<Rightarrow> (wire_error option, 'w) act" where
  "stage_steps V spec stepTO l =
     seq (set_stage StageSteps) (\<lambda>_.
     seq (run_steps V spec stepTO l 0 (sp_Steps spec) \<lparr>pg_firstErr = None, pg_halted = False\<rparr>) (\<lambda>pg.
     seq (upd_run (\<lambda>r. r\<lparr>rn_Verdict := computeVerdict (sp_Steps spec) (rn_Steps r)\<rparr>)) (\<lambda>_.
     seq (final_screenshot V spec l (pg_firstErr pg = None)) (\<lambda>_.
     ret (pg_firstErr pg)))))"

definition runStages :: "'w services \<Rightarrow> lease \<Rightarrow> duration \<Rightarrow> (wire_error option, 'w) act" where
  "runStages V l stepTO =
     seq (gets (\<lambda>s. rn_Spec (sv_run s))) (\<lambda>spec.
     or_fail (stage_boot V l) (or_fail (stage_fixtures V spec l) (or_fail (stage_app V spec l) (stage_steps V spec stepTO l))))"

section \<open>Acquire and release\<close>

definition abandonQueuedLease :: "'w services \<Rightarrow> string \<Rightarrow> (unit, 'w) act" where
  "abandonQueuedLease V lid = seq (leases_Release V lid) (\<lambda>_. syncRunOpen V lid)"

definition errDeviceReset :: wire_error where
  "errDeviceReset = mk_error ''bad_request'' [T ''target.reset is not supported for physical devices; run without a reset'']"

text \<open>The \<^verbatim>\<open>select\<close> loop that waits for a queued lease: \<open>n\<close> ticks are picked before a timer is.\<close>

fun await_grant :: "'w services \<Rightarrow> string \<Rightarrow> duration \<Rightarrow> nat \<Rightarrow> (wire_error + lease, 'w) act" where
  "await_grant V lid acquireTO 0 =
     seq (call (v_expired V)) (\<lambda>budget.
     seq (abandonQueuedLease V lid) (\<lambda>_.
     ret (Inl (mk_error ''timeout'' (if budget then [T ''run budget exhausted while waiting for a lease'']
       else [T ''no matching target became available within '', Span acquireTO, T '' (lease was queued)''])))))"
| "await_grant V lid acquireTO (Suc n) =
     seq (leases_Get V lid) (\<lambda>got.
     (case got of
        Inl err \<Rightarrow> ret (Inl (mk_error ''internal'' [T ''queued lease disappeared: '', LeaseText err]))
      | Inr cur \<Rightarrow>
          (case l_State cur of
             LeaseActive \<Rightarrow>
               seq (refuseDeviceResetGrant V cur) (\<lambda>refused.
               if refused then seq (syncRunOpen V (l_ID cur)) (\<lambda>_. ret (Inl errDeviceReset))
               else seq (upd_run (\<lambda>r. r\<lparr>rn_TargetUDID := l_TargetUDID cur\<rparr>)) (\<lambda>_. ret (Inr cur)))
           | LeaseQueued \<Rightarrow> await_grant V lid acquireTO n
           | st \<Rightarrow> ret (Inl (mk_error ''lease_expired'' [T (''queued lease ended ('' @ lease_state_text st @ '') before a grant'')])))))"

definition run_request :: "run \<Rightarrow> acquire_req" where
  "run_request run =
     (let spec = rn_Spec run; (_, runTO, _) = runTimeouts spec in
      \<lparr>r_Labels = runTargetLabels (sp_Target spec), r_UDID = tg_UDID (sp_Target spec), r_AgentID = rn_AgentID run,
       r_SessionID = [], r_Purpose = (if sp_Name spec \<noteq> [] then ''run:'' @ sp_Name spec else ''run:'' @ rn_ID run),
       r_TTLSeconds = whole_seconds runTO + runLeaseTTLMargin, r_Reset = tg_Reset (sp_Target spec), r_Record = []\<rparr>)"

definition note_acquired :: "'w services \<Rightarrow> string \<Rightarrow> acquire_req \<Rightarrow> lease \<Rightarrow> (unit, 'w) act" where
  "note_acquired V runID req l =
     seq (syncRunOpen V (l_ID l)) (\<lambda>_.
     seq (startRun V l) (\<lambda>_.
     seq (maybeAutoRecord V l) (\<lambda>_.
     record_ev V ((acquired_event req l)\<lparr>ev_Extra :=
       [(''lease_state'', JStr (lease_state_text (l_State l))), (''run'', JStr runID)]\<rparr>))))"

definition take_or_wait :: "'w services \<Rightarrow> duration \<Rightarrow> lease \<Rightarrow> (wire_error + lease, 'w) act" where
  "take_or_wait V acquireTO l =
     (if l_State l = LeaseActive then seq (upd_run (\<lambda>r. r\<lparr>rn_TargetUDID := l_TargetUDID l\<rparr>)) (\<lambda>_. ret (Inr l))
      else seq (call (v_polls V)) (\<lambda>n. await_grant V (l_ID l) acquireTO n))"

text \<open>From the lease the manager created: refused when it landed on a device, else noted and taken or awaited.\<close>

definition run_created :: "'w services \<Rightarrow> string \<Rightarrow> acquire_req \<Rightarrow> duration \<Rightarrow> lease \<Rightarrow> (wire_error + lease, 'w) act" where
  "run_created V runID req acquireTO l =
     seq (upd_run (\<lambda>r. r\<lparr>rn_LeaseID := l_ID l\<rparr>)) (\<lambda>_.
     seq (refuseDeviceResetGrant V l) (\<lambda>refused.
     if refused then seq (syncRunOpen V (l_ID l)) (\<lambda>_. ret (Inl errDeviceReset))
     else seq (note_acquired V runID req l) (\<lambda>_. take_or_wait V acquireTO l)))"

definition runAcquire :: "'w services \<Rightarrow> duration \<Rightarrow> (wire_error + lease, 'w) act" where
  "runAcquire V acquireTO =
     seq (gets sv_run) (\<lambda>run. let req = run_request run in
     seq (deviceResetConflict V req) (\<lambda>conflict.
     if conflict then ret (Inl errDeviceReset) else
     seq (leases_Acquire V req) (\<lambda>got.
     (case got of
        Inl ErrNoMatch \<Rightarrow> ret (Inl (mk_error ''no_match'' (noMatchMessage req)))
      | Inl err \<Rightarrow> ret (Inl (mk_error ''internal'' [LeaseText err]))
      | Inr l \<Rightarrow> run_created V (rn_ID run) req acquireTO l))))"

definition attachRunExport :: "'w services \<Rightarrow> string \<Rightarrow> (unit, 'w) act" where
  "attachRunExport V leaseID =
     seq (gets (\<lambda>s. af_Export (sp_Artifacts (rn_Spec (sv_run s))))) (\<lambda>want.
     if want = Some False \<or> \<not> bd_journal (v_build V) then ret ()
     else seq (call (v_Export V leaseID)) (\<lambda>md.
          case md of Some md \<Rightarrow> upd_run (\<lambda>r. r\<lparr>rn_ExportMD := md\<rparr>) | None \<Rightarrow> ret ()))"

definition runRelease :: "'w services \<Rightarrow> string \<Rightarrow> bool \<Rightarrow> (unit, 'w) act" where
  "runRelease V leaseID failed =
     seq (when_do (\<not> failed) (set_stage StageRelease)) (\<lambda>_.
     seq (leases_Get V leaseID) (\<lambda>prior.
     deferred (deferred
       (seq (leases_Release V leaseID) (\<lambda>got.
        case got of Inl _ \<Rightarrow> ret () | Inr l \<Rightarrow> after_release V prior l))
       (attachRunExport V leaseID)) (syncRunOpen V leaseID)))"

definition finishRun :: "'w services \<Rightarrow> wire_error option \<Rightarrow> (unit, 'w) act" where
  "finishRun V err =
     seq (clock V) (\<lambda>now.
     upd_run (\<lambda>r. case err of
        Some e \<Rightarrow> r\<lparr>rn_FinishedAt := Some now, rn_State := RunFailed, rn_Error := Some e\<rparr>
      | None \<Rightarrow> r\<lparr>rn_FinishedAt := Some now, rn_State := RunPassed, rn_Stage := NoStage\<rparr>))"

definition verdict_text :: "run_verdict \<Rightarrow> string" where
  "verdict_text v = (case v of NoVerdict \<Rightarrow> [] | VerdictTrusted \<Rightarrow> ''trusted'' | VerdictDegraded \<Rightarrow> ''degraded''
     | VerdictUnverified \<Rightarrow> ''unverified'')"

definition stampRunVerdict :: "'w services \<Rightarrow> string \<Rightarrow> (unit, 'w) act" where
  "stampRunVerdict V runID =
     seq (gets (\<lambda>s. rn_Verdict (sv_run s))) (\<lambda>v.
     if v = NoVerdict \<or> runID = [] \<or> \<not> bd_journal (v_build V) then ret ()
     else seq (call (v_ReadMeta V runID)) (\<lambda>m.
          case m of None \<Rightarrow> ret ()
          | Some m \<Rightarrow> seq (call (v_WriteMeta V runID (m\<lparr>rm_Verdict := verdict_text v\<rparr>))) (\<lambda>_. ret ())))"

definition recordRunEvent :: "'w services \<Rightarrow> lease \<Rightarrow> string \<Rightarrow> wire_error option \<Rightarrow> (unit, 'w) act" where
  "recordRunEvent V l action err =
     seq (gets sv_run) (\<lambda>run.
     let ev = (mk_event ''run'' (l_ID l) (l_AgentID l) action [])
           \<lparr>ev_Extra := [(''run'', JStr (rn_ID run)), (''name'', JStr (sp_Name (rn_Spec run)))] @
              (if rn_Verdict run \<noteq> NoVerdict then [(''verdict'', JStr (verdict_text (rn_Verdict run)))] else [])\<rparr>
     in record_ev V (case err of None \<Rightarrow> ev | Some e \<Rightarrow> failed_event (v_render V (we_Message e)) ev))"

text \<open>\<^verbatim>\<open>defer func() { if !released { ... } }()\<close>: only a panic of the body leaves \<^verbatim>\<open>released\<close> unset.\<close>

definition on_panic :: "('a, 'w) act \<Rightarrow> (unit, 'w) act \<Rightarrow> ('a, 'w) act" where
  "on_panic m d s = (case m s of (Some x, s') \<Rightarrow> (Some x, s') | (None, s') \<Rightarrow> (None, snd (d s')))"

definition run_leased :: "'w services \<Rightarrow> lease \<Rightarrow> duration \<Rightarrow> (wire_error option, 'w) act" where
  "run_leased V l stepTO =
     seq (recordRunEvent V l ''runs.start'' None) (\<lambda>_.
     seq (runStages V l stepTO) (\<lambda>err.
     seq (stampRunVerdict V (l_ID l)) (\<lambda>_.
     seq (recordRunEvent V l ''runs.finish'' err) (\<lambda>_. ret err))))"

definition begin_run :: "'w services \<Rightarrow> (unit, 'w) act" where
  "begin_run V = seq (clock V) (\<lambda>now. upd_run (\<lambda>r. r\<lparr>rn_State := RunRunning, rn_StartedAt := Some now, rn_Stage := StageAcquire\<rparr>))"

definition run_body :: "'w services \<Rightarrow> (unit, 'w) act" where
  "run_body V =
     seq (gets (\<lambda>s. runTimeouts (rn_Spec (sv_run s)))) (\<lambda>(acquireTO, runTO, stepTO).
     seq (begin_run V) (\<lambda>_.
     seq (runAcquire V acquireTO) (\<lambda>got.
     (case got of
        Inl e \<Rightarrow>
          seq (gets (\<lambda>s. rn_LeaseID (sv_run s))) (\<lambda>lid.
          seq (when_do (lid \<noteq> []) (attachRunExport V lid)) (\<lambda>_. finishRun V (Some e)))
      | Inr l \<Rightarrow>
          seq (on_panic (run_leased V l stepTO) (runRelease V (l_ID l) False)) (\<lambda>err.
          seq (runRelease V (l_ID l) (err \<noteq> None)) (\<lambda>_. finishRun V err))))))"

definition executeRun :: "'w services \<Rightarrow> (unit, 'w) act" where
  "executeRun V = recovered (run_body V) (finishRun V (Some (mk_error ''internal'' [T ''run panicked''])))"

end
