(* ===== verification/Mz_ServerMore.thy ===== *)
theory Mz_ServerMore
  imports Mz_ServerOps
begin

text \<open>
  The rest of the daemon's handlers over targets: target listings (\<^verbatim>\<open>handlers_targets.go\<close>), snapshots, restores
  and erases (\<^verbatim>\<open>handlers_state.go\<close>), the dashboard's controls (\<^verbatim>\<open>handlers_dash.go\<close>), and the sinks the lease
  manager calls: lease events and post-lease resets (\<^verbatim>\<open>server.go\<close>).
\<close>

section \<open>Target listings\<close>

fun mark_all :: "('a \<Rightarrow> ('a, 'w) act) \<Rightarrow> 'a list \<Rightarrow> ('a list, 'w) act" where
  "mark_all f [] = ret []"
| "mark_all f (x # xs) = seq (f x) (\<lambda>y. seq (mark_all f xs) (\<lambda>ys. ret (y # ys)))"

definition markWarm :: "'w services \<Rightarrow> target list \<Rightarrow> (target list, 'w) act" where
  "markWarm V = mark_all (\<lambda>t. seq (call (v_parked V (t_UDID t))) (\<lambda>b. ret (t\<lparr>t_Warm := b\<rparr>)))"

definition markRecording :: "'w services \<Rightarrow> target list \<Rightarrow> (target list, 'w) act" where
  "markRecording V ts =
     (if \<not> bd_recorder (v_build V) then ret ts
      else mark_all (\<lambda>t. seq (call (v_recording V (t_UDID t))) (\<lambda>b. ret (t\<lparr>t_Recording := b\<rparr>))) ts)"

definition listTargets :: "'w services \<Rightarrow> (reg_error + target list, 'w) act" where
  "listTargets V =
     seq (call (v_reg_List V)) (\<lambda>r.
     (case r of
        Inl e \<Rightarrow> ret (Inl e)
      | Inr ts \<Rightarrow> seq (markWarm V ts) (\<lambda>ts. seq (markRecording V ts) (\<lambda>ts. ret (Inr ts)))))"

definition handleListTargets_daemon :: "'w services \<Rightarrow> (target list reply, 'w) act" where
  "handleListTargets_daemon V =
     seq (listTargets V) (\<lambda>r. case r of Inl e \<Rightarrow> refuse_with 500 ''internal'' [RegText e] | Inr ts \<Rightarrow> ret (Reply 200 ts))"

text \<open>\<^verbatim>\<open>NoteBoot\<close>\<close>

definition NoteBoot :: "string \<Rightarrow> (unit, 'w) act" where "NoteBoot udid = clearShutdownNote udid"

section \<open>State operations\<close>

text \<open>\<^verbatim>\<open>leasedTarget\<close> answers an empty target when it has written the error; so do its callers.\<close>

definition with_leased :: "'w services \<Rightarrow> string \<Rightarrow> 'a \<Rightarrow> (string \<Rightarrow> ('a reply, 'w) act) \<Rightarrow> ('a reply, 'w) act" where
  "with_leased V leaseID blank op =
     seq (leasedTarget V leaseID) (\<lambda>t.
     (case t of
        Inl (status, e) \<Rightarrow> ret (Refuse status e)
      | Inr udid \<Rightarrow> if udid = [] then ret (Reply 200 blank) else op udid))"

definition state_reply :: "'w services \<Rightarrow> state_error \<Rightarrow> 'a reply" where
  "state_reply V e = (case writeStateError V e of (status, we) \<Rightarrow> Refuse status we)"

definition no_snapshot :: snapshot_info where
  "no_snapshot = \<lparr>ss_ID = [], ss_SourceUDID = [], ss_CloneUDID = [], ss_Label = [], ss_CreatedAt = 0\<rparr>"

fun error_of :: "'e + 'a \<Rightarrow> 'e option" where
  "error_of (Inl e) = Some e"
| "error_of (Inr x) = None"

definition handleStateSnapshot :: "'w services \<Rightarrow> string \<Rightarrow> string \<Rightarrow> (snapshot_info reply, 'w) act" where
  "handleStateSnapshot V leaseID label =
     with_leased V leaseID no_snapshot (\<lambda>udid.
       seq (emit_event (StateSent leaseID udid ''snapshot'')) (\<lambda>_.
       seq (call (v_Snapshot V udid label)) (\<lambda>r.
       seq (recordState V leaseID ''state.snapshot'' [(''udid'', JStr udid), (''label'', JStr label)] (error_of r)) (\<lambda>_.
       ret (case r of Inl e \<Rightarrow> state_reply V e | Inr info \<Rightarrow> Reply 201 info)))))"

text \<open>The answer of a restore: whether the simulator was booted again.\<close>

definition handleStateRestore :: "'w services \<Rightarrow> string \<Rightarrow> string \<Rightarrow> bool \<Rightarrow> (bool reply, 'w) act" where
  "handleStateRestore V leaseID snapshot reboot =
     (if snapshot = [] then refuse_with 400 ''bad_request'' [T ''snapshot is required''] else
      with_leased V leaseID False (\<lambda>udid.
        seq (call (v_drainRecording V udid)) (\<lambda>_.
        seq (emit_event (StateSent leaseID udid ''restore'')) (\<lambda>_.
        seq (call (v_Restore V udid snapshot reboot)) (\<lambda>r.
        seq (recordState V leaseID ''state.restore''
          [(''udid'', JStr udid), (''snapshot'', JStr snapshot), (''reboot'', JBool reboot)] (error_of r)) (\<lambda>_.
        ret (case r of Inl e \<Rightarrow> state_reply V e | Inr rebooted \<Rightarrow> Reply 200 rebooted)))))))"

definition handleStateErase :: "'w services \<Rightarrow> string \<Rightarrow> (unit reply, 'w) act" where
  "handleStateErase V leaseID =
     with_leased V leaseID () (\<lambda>udid.
       seq (emit_event (StateSent leaseID udid ''erase'')) (\<lambda>_.
       seq (call (v_Erase V udid)) (\<lambda>err.
       seq (recordState V leaseID ''state.erase'' [(''udid'', JStr udid)] err) (\<lambda>_.
       ret (case err of Some e \<Rightarrow> state_reply V e | None \<Rightarrow> Reply 200 ())))))"

definition filterBySource :: "snapshot_info list \<Rightarrow> string \<Rightarrow> snapshot_info list" where
  "filterBySource snaps udid = filter (\<lambda>sn. ss_SourceUDID sn = udid) snaps"

definition handleStateSnapshotsList :: "'w services \<Rightarrow> string \<Rightarrow> (snapshot_info list reply, 'w) act" where
  "handleStateSnapshotsList V leaseID =
     with_leased V leaseID [] (\<lambda>udid.
       seq (call (v_ListSnapshots V)) (\<lambda>r.
       ret (case r of Inl e \<Rightarrow> state_reply V e | Inr snaps \<Rightarrow> Reply 200 (filterBySource snaps udid))))"

definition snapshotOwnedBy :: "'w services \<Rightarrow> string \<Rightarrow> string \<Rightarrow> ('a reply option, 'w) act" where
  "snapshotOwnedBy V udid sid =
     seq (call (v_ListSnapshots V)) (\<lambda>r.
     ret (case r of
            Inl e \<Rightarrow> Some (state_reply V e)
          | Inr snaps \<Rightarrow>
              if list_ex (\<lambda>sn. ss_ID sn = sid \<and> ss_SourceUDID sn = udid) snaps then None
              else Some (Refuse 404 (mk_error ''not_found'' [T ''snapshot not found for leased target'']))))"

definition handleStateSnapshotsDelete :: "'w services \<Rightarrow> string \<Rightarrow> string \<Rightarrow> (unit reply, 'w) act" where
  "handleStateSnapshotsDelete V leaseID sid =
     with_leased V leaseID () (\<lambda>udid.
       seq (snapshotOwnedBy V udid sid) (\<lambda>bad.
       (case bad of
          Some r \<Rightarrow> ret r
        | None \<Rightarrow>
            seq (emit_event (StateSent leaseID udid ''snapshots.delete'')) (\<lambda>_.
            seq (call (v_DeleteSnapshot V sid)) (\<lambda>err.
            seq (recordState V leaseID ''state.snapshots.delete'' [(''udid'', JStr udid), (''id'', JStr sid)] err) (\<lambda>_.
            ret (case err of Some e \<Rightarrow> state_reply V e | None \<Rightarrow> Reply 200 ())))))))"

definition handleClearQuarantine :: "'w services \<Rightarrow> string \<Rightarrow> (unit reply, 'w) act" where
  "handleClearQuarantine V udid =
     seq (call (v_ClearQuarantine V udid)) (\<lambda>r.
     (case r of Inl e \<Rightarrow> refuse_with 409 ''target_busy'' [LeaseText e] | Inr cleared \<Rightarrow> ret (Reply 200 ())))"

section \<open>The dashboard\<close>

definition dash_refusal :: "int \<times> wire_error" where
  "dash_refusal = (403, mk_error ''read_only'' [T ''dashboard controls are disabled (--dash-readonly)''])"

text \<open>\<^verbatim>\<open>dashGate\<close>: the refusal it writes in read-only mode.\<close>

definition dashGate :: "'w services \<Rightarrow> (int \<times> wire_error) option" where
  "dashGate V = (if bd_dashReadonly (v_build V) then Some dash_refusal else None)"

definition leases_Reserve :: "'w services \<Rightarrow> string \<Rightarrow> (bool \<times> bool, 'w) act" where
  "leases_Reserve V udid = seq (call (v_Reserve V udid)) (\<lambda>r. seq (emit_event (Reserved udid r)) (\<lambda>_. ret r))"

definition busy :: "string \<Rightarrow> (int \<times> wire_error) option" where
  "busy msg = Some (409, mk_error ''target_busy'' [T msg])"

definition dashReserveTarget :: "'w services \<Rightarrow> string \<Rightarrow> ((int \<times> wire_error) option, 'w) act" where
  "dashReserveTarget V udid =
     seq (call (v_Active V udid)) (\<lambda>held.
     if held \<noteq> None then ret (busy ''target is held by an active lease; release the lease first'') else
     seq (call (v_parked V udid)) (\<lambda>parked.
     if parked then ret (busy ''target is parked in the warm pool; the pool owns its lifecycle'') else
     seq (leases_Reserve V udid) (\<lambda>(takeover, granted).
     if \<not> granted then ret (busy ''target is being reset or rebuilt by the daemon; try again shortly'')
     else if takeover then
       seq (emit_event (Quarantined udid)) (\<lambda>_.
       seq (call (v_Quarantine V udid)) (\<lambda>_.
       ret (busy ''target is quarantined after a failed reset; pool recovery owns it'')))
     else ret None)))"

definition handleDashTargetOp :: "'w services \<Rightarrow> string \<Rightarrow> (pool_error option, 'w) act \<Rightarrow> (target reply, 'w) act" where
  "handleDashTargetOp V udid op =
     (case dashGate V of
        Some (status, e) \<Rightarrow> ret (Refuse status e)
      | None \<Rightarrow>
          seq (dashReserveTarget V udid) (\<lambda>bad.
          (case bad of
             Some (status, e) \<Rightarrow> ret (Refuse status e)
           | None \<Rightarrow>
               deferred
                 (seq op (\<lambda>err.
                  (case err of
                     Some e \<Rightarrow> (case targetOpErr e of (status, code) \<Rightarrow> ret (Refuse status (mk_error code [T (v_pool_text V e)])))
                   | None \<Rightarrow>
                       seq (call (v_reg_Get V udid)) (\<lambda>t.
                       (case t of
                          Inl e \<Rightarrow> refuse_with 500 ''internal'' [RegText e]
                        | Inr t \<Rightarrow> seq (call (v_broadcast V ''target.state'')) (\<lambda>_. ret (Reply 202 t)))))))
                 (seq (emit_event (Unreserved udid)) (\<lambda>_. call (v_Unreserve V udid))))))"

text \<open>\<^verbatim>\<open>proto.Lease{TargetUDID: udid}\<close>\<close>

definition bare_lease :: "string \<Rightarrow> lease" where
  "bare_lease udid = \<lparr>l_ID = [], l_TargetUDID = udid, l_Labels = [], l_State = LeaseUnset, l_AgentID = [], l_Purpose = [],
     l_TTLSeconds = 0, l_ExpiresAt = None, l_GraceUntil = None, l_ExpiresInSeconds = None, l_QueuePosition = 0, l_CreatedAt = 0,
     l_Reset = [], l_RequestedUDID = [], l_Record = [], l_Paused = False, l_PausedAt = None, l_PausedReason = [], l_Host = [],
     l_HostAddr = []\<rparr>"

definition handleDashBoot :: "'w services \<Rightarrow> string \<Rightarrow> (target reply, 'w) act" where
  "handleDashBoot V udid = handleDashTargetOp V udid (bootTarget V (bare_lease udid) udid)"

definition handleDashShutdown :: "'w services \<Rightarrow> string \<Rightarrow> (target reply, 'w) act" where
  "handleDashShutdown V udid = handleDashTargetOp V udid (shutdownTarget V (bare_lease udid) udid)"

definition handleDashReleaseLease :: "'w services \<Rightarrow> string \<Rightarrow> (lease reply, 'w) act" where
  "handleDashReleaseLease V udid =
     (case dashGate V of
        Some (status, e) \<Rightarrow> ret (Refuse status e)
      | None \<Rightarrow>
          seq (call (v_Active V udid)) (\<lambda>held.
          (case held of
             None \<Rightarrow> refuse_with 404 ''not_found'' [T ''target has no active lease'']
           | Some prior \<Rightarrow>
               seq (leases_Release V (l_ID prior)) (\<lambda>got.
               (case got of
                  Inl _ \<Rightarrow> refuse_with 404 ''not_found'' [T ''lease not found'']
                | Inr l \<Rightarrow>
                    deferred
                      (seq (if l_State l = LeaseReleased then
                              seq (call (v_stopRecording V prior)) (\<lambda>_.
                              seq (record_ev V ((mk_event ''lease'' (l_ID l) (l_AgentID l) ''leases.release'' [])
                                \<lparr>ev_Extra := [(''released_by'', JStr ''dash'')]\<rparr>)) (\<lambda>_.
                              when_do (bd_pool (v_build V) \<and> l_TargetUDID l \<noteq> []) (call (v_leaseEnd V (l_TargetUDID l)))))
                            else ret ()) (\<lambda>_.
                       ret (Reply 200 (l\<lparr>l_ID := []\<rparr>))))
                      (syncRunOpen V (l_ID l)))))))"

section \<open>The sinks of the lease manager\<close>

datatype lease_event = EventLeaseGranted | EventLeaseExpired | EventLeaseExpiring

fun event_text :: "lease_event \<Rightarrow> string" where
  "event_text EventLeaseGranted = ''lease.granted''"
| "event_text EventLeaseExpired = ''lease.expired''"
| "event_text EventLeaseExpiring = ''lease.expiring''"

definition sink_event :: "lease \<Rightarrow> lease_event" where
  "sink_event l =
     (if l_State l = LeaseActive \<and> l_GraceUntil l \<noteq> None then EventLeaseExpiring
      else if l_State l = LeaseActive then EventLeaseGranted
      else EventLeaseExpired)"

definition sink_action :: "lease_event \<Rightarrow> string" where
  "sink_action e = (case e of EventLeaseGranted \<Rightarrow> ''leases.grant'' | EventLeaseExpired \<Rightarrow> ''leases.expire''
     | EventLeaseExpiring \<Rightarrow> ''leases.expiring'')"

text \<open>The sink; the goroutines it starts run where it starts them.\<close>

definition EventSink :: "'w services \<Rightarrow> lease \<Rightarrow> (unit, 'w) act" where
  "EventSink V l =
     (let event = sink_event l;
          ev = (mk_event ''lease'' (l_ID l) (l_AgentID l) (sink_action event) [])\<lparr>ev_Extra := [(''event'', JStr (event_text event))]\<rparr>;
          tell = seq (when_do (event = EventLeaseExpired) (call (v_stopRecording V l))) (\<lambda>_. call (v_broadcast V (event_text event)))
      in if \<not> bd_journal (v_build V) then tell
         else if event = EventLeaseGranted then
           seq (syncRunOpen V (l_ID l)) (\<lambda>_.
           seq (record_ev V ev) (\<lambda>_.
           seq (startRun V l) (\<lambda>_. seq (maybeAutoRecord V l) (\<lambda>_. tell))))
         else deferred (seq (record_ev V ev) (\<lambda>_. tell)) (syncRunOpen V (l_ID l)))"

definition ResetErase :: string where "ResetErase = ''erase''"

definition state_Reset :: "'w services \<Rightarrow> string \<Rightarrow> string \<Rightarrow> (state_error option, 'w) act" where
  "state_Reset V udid spec = seq (emit_event (ResetSent udid spec)) (\<lambda>_. call (v_Reset V udid spec))"

definition reset_params :: "lease \<Rightarrow> payload" where
  "reset_params l = [(''udid'', JStr (l_TargetUDID l)), (''reset'', JStr (l_Reset l))]"

text \<open>
  The reset of a target whose kind allows it. The deferred journal entry shows the last assigned
  error: of the degraded erase when it returned, else of the first attempt.
\<close>

definition perform_reset :: "'w services \<Rightarrow> lease \<Rightarrow> (state_error option, 'w) act" where
  "perform_reset V l =
     seq (NoteShutdown V (l_TargetUDID l) ''daemon''
       [T (''auto-reset ('' @ l_Reset l @ '') for lease '' @ redactLeaseID_daemon V (l_ID l))]) (\<lambda>_.
     seq (state_Reset V (l_TargetUDID l) (l_Reset l)) (\<lambda>err.
     (if err = Some ErrSnapshotNotFound then
        let params = reset_params l @ [(''degraded_to'', JStr ResetErase), (''degraded_reason'', JStr (v_state_text V ErrSnapshotNotFound))] in
        (\<lambda>s. case state_Reset V (l_TargetUDID l) ResetErase s of
           (None, s') \<Rightarrow> (None, snd (recordState V (l_ID l) ''state.reset'' params err s'))
         | (Some err', s') \<Rightarrow>
             deferred
               (seq (when_do (err' = None \<and> bd_recorder (v_build V)) (call (v_ClearPoisoned V (l_TargetUDID l)))) (\<lambda>_. ret err'))
               (recordState V (l_ID l) ''state.reset'' params err') s')
      else
        deferred
          (seq (when_do (err = None \<and> bd_recorder (v_build V)) (call (v_ClearPoisoned V (l_TargetUDID l)))) (\<lambda>_. ret err))
          (recordState V (l_ID l) ''state.reset'' (reset_params l) err))))"

definition ResetSink :: "'w services \<Rightarrow> lease \<Rightarrow> (state_error option, 'w) act" where
  "ResetSink V l =
     seq (call (v_stopRecording V l)) (\<lambda>_.
     seq (call (v_drainRecording V (l_TargetUDID l))) (\<lambda>_.
     if \<not> bd_state (v_build V) then ret None else
     seq (call (v_devices V)) (\<lambda>on.
     if \<not> on then perform_reset V l
     else
       seq (call (v_reg_Get V (l_TargetUDID l))) (\<lambda>t.
       (case t of
          Inl e \<Rightarrow>
            seq (recordState V (l_ID l) ''state.reset'' (reset_params l) (Some (StateReg e))) (\<lambda>_. ret (Some (StateReg e)))
        | Inr t \<Rightarrow>
            if t_Kind t = TargetDevice then
              seq (recordState V (l_ID l) ''state.reset'' (reset_params l @ [(''skipped'', JStr ''physical device'')]) None) (\<lambda>_. ret None)
            else perform_reset V l)))))"

end
