(* ===== verification/Mz_RunLogic.thy ===== *)
theory Mz_RunLogic
  imports Mz_Run Mz_ServerMore
begin

text \<open>
  A logic for the handlers and the run engine: what an operation keeps whatever the services answer,
  panics included. The contract of an invariant is a locale, extended by what the operations do
  beyond calling services: hand an action to the backend, create or release a lease, change the run.
  The lemmas of each locale say that the operations of \<open>Mz_Server\<close>, \<open>Mz_ServerOps\<close>, \<open>Mz_ServerMore\<close> and \<open>Mz_Run\<close> keep
  any invariant of its kind.
\<close>

section \<open>Keeping an invariant\<close>

definition keeps :: "('w server \<Rightarrow> bool) \<Rightarrow> ('a, 'w) act \<Rightarrow> bool" where
  "keeps I m \<longleftrightarrow> (\<forall>s. I s \<longrightarrow> I (snd (m s)))"

named_theorems kept \<open>operations keep the invariant\<close>

lemma keepsD: "keeps I m \<Longrightarrow> I s \<Longrightarrow> m s = (r, s') \<Longrightarrow> I s'"
  by (auto simp: keeps_def)

lemma keeps_ret [kept]: "keeps I (ret x)"
  by (simp add: keeps_def ret_def)

lemma keeps_gets [kept]: "keeps I (gets f)"
  by (simp add: keeps_def gets_def)

lemma keeps_seq [kept]: "keeps I m \<Longrightarrow> (\<And>x. keeps I (k x)) \<Longrightarrow> keeps I (seq m k)"
  by (auto simp: keeps_def seq_def split: prod.splits option.splits)

lemma keeps_when [kept]: "keeps I m \<Longrightarrow> keeps I (when_do b m)"
  by (simp add: when_do_def keeps_ret)

lemma keeps_if [kept]: "(b \<Longrightarrow> keeps I m) \<Longrightarrow> (\<not> b \<Longrightarrow> keeps I n) \<Longrightarrow> keeps I (if b then m else n)"
  by simp

lemma keeps_sum [kept]:
  "(\<And>a. x = Inl a \<Longrightarrow> keeps I (f a)) \<Longrightarrow> (\<And>b. x = Inr b \<Longrightarrow> keeps I (g b)) \<Longrightarrow> keeps I (case x of Inl a \<Rightarrow> f a | Inr b \<Rightarrow> g b)"
  by (cases x) auto

lemma keeps_option [kept]:
  "(x = None \<Longrightarrow> keeps I m) \<Longrightarrow> (\<And>b. x = Some b \<Longrightarrow> keeps I (g b)) \<Longrightarrow> keeps I (case x of None \<Rightarrow> m | Some b \<Rightarrow> g b)"
  by (cases x) auto

lemma keeps_prod [kept]: "(\<And>a b. x = (a, b) \<Longrightarrow> keeps I (f a b)) \<Longrightarrow> keeps I (case x of (a, b) \<Rightarrow> f a b)"
  by (cases x) auto

lemma keeps_lease_error [kept]:
  "keeps I a \<Longrightarrow> keeps I b \<Longrightarrow> (\<And>l. keeps I (c l)) \<Longrightarrow> keeps I d \<Longrightarrow> (\<And>t. keeps I (e t)) \<Longrightarrow>
   keeps I (case x of ErrNoMatch \<Rightarrow> a | ErrNotFound \<Rightarrow> b | ErrNotActive l \<Rightarrow> c l | ErrResetInFlight \<Rightarrow> d | ErrRegistry t \<Rightarrow> e t)"
  by (cases x) auto

lemma keeps_deferred [kept]: "keeps I m \<Longrightarrow> keeps I d \<Longrightarrow> keeps I (deferred m d)"
  by (auto simp: keeps_def deferred_def split: prod.splits option.splits)

lemma keeps_recovered [kept]: "keeps I m \<Longrightarrow> keeps I h \<Longrightarrow> keeps I (recovered m h)"
  by (auto simp: keeps_def recovered_def split: prod.splits option.splits)

lemma keeps_on_panic [kept]: "keeps I m \<Longrightarrow> keeps I d \<Longrightarrow> keeps I (on_panic m d)"
  by (auto simp: keeps_def on_panic_def split: prod.splits option.splits)

section \<open>Invariants of the handlers\<close>

text \<open>
  Events that are neither an action sent to the backend nor a lease created or released, nor touch a
  target; and those that touch one.
\<close>

fun plain_event :: "server_event \<Rightarrow> bool" where
  "plain_event (Acquired l) = False"
| "plain_event (ReleaseSent lid r) = False"
| "plain_event (Sent lid udid kind) = False"
| "plain_event (BootSent lid udid) = False"
| "plain_event (ShutdownSent lid udid) = False"
| "plain_event (StateSent lid udid op) = False"
| "plain_event e = True"

fun touch_event :: "server_event \<Rightarrow> bool" where
  "touch_event (BootSent lid udid) = True"
| "touch_event (ShutdownSent lid udid) = True"
| "touch_event (StateSent lid udid op) = True"
| "touch_event e = False"

text \<open>The lease an action may be sent for, as \<^verbatim>\<open>dispatchAction\<close> saw it.\<close>

definition may_act :: "lease \<Rightarrow> string \<Rightarrow> bool" where
  "may_act l kind \<longleftrightarrow> l_State l = LeaseActive \<and> l_TargetUDID l \<noteq> [] \<and> (l_Paused l \<longrightarrow> kind \<in> set pausedAllowedKinds)"

lemma action_guard_may_act: "action_guard kind got = Inr l \<Longrightarrow> got = Inr l \<and> may_act l kind"
  by (auto simp: action_guard_def may_act_def split: sum.splits if_splits)

locale base_inv =
  fixes I :: "'w server \<Rightarrow> bool"
  assumes world: "I s \<Longrightarrow> I (s\<lparr>sv_world := w\<rparr>)"
    and ledger: "I s \<Longrightarrow> I (s\<lparr>sv_lastShutdown := d\<rparr>)"
    and waits: "I s \<Longrightarrow> I (s\<lparr>sv_waitByLease := ws\<rparr>)"
    and plain: "I s \<Longrightarrow> plain_event e \<Longrightarrow> I (s\<lparr>sv_trace := e # sv_trace s\<rparr>)"
begin

lemma keeps_call [kept]: "keeps I (call f)"
  by (auto simp: keeps_def call_def world split: prod.splits)

lemma keeps_clock [kept]: "keeps I (clock V)"
  unfolding clock_def by (rule keeps_call)

lemma keeps_plain [kept]: "plain_event e \<Longrightarrow> keeps I (emit_event e)"
  by (auto simp: keeps_def emit_event_def update_def plain)

lemma keeps_record_ref [kept]: "keeps I (record_ref V ev)"
  unfolding record_ref_def by (intro kept) simp

lemma keeps_record_ev [kept]: "keeps I (record_ev V ev)"
  unfolding record_ev_def by (intro kept)

lemma keeps_Get [kept]: "keeps I (leases_Get V lid)"
  unfolding leases_Get_def by (intro kept) simp

lemma keeps_ledger [kept]: "keeps I (update (\<lambda>s. s\<lparr>sv_lastShutdown := f s\<rparr>))"
  by (auto simp: keeps_def update_def ledger)

lemma keeps_waits [kept]: "keeps I (update (\<lambda>s. s\<lparr>sv_waitByLease := f s\<rparr>))"
  by (auto simp: keeps_def update_def waits)

lemma keeps_NoteShutdown [kept]: "keeps I (NoteShutdown V udid actor reason)"
  unfolding NoteShutdown_def by (intro kept)

lemma keeps_clearShutdownNote [kept]: "keeps I (clearShutdownNote udid)"
  unfolding clearShutdownNote_def by (intro kept)

lemma keeps_syncRunOpen [kept]: "keeps I (syncRunOpen V lid)"
  unfolding syncRunOpen_def by (intro kept)

lemma keeps_startRun [kept]: "keeps I (startRun V l)"
  unfolding startRun_def by (intro kept)

lemma keeps_maybeAutoRecord [kept]: "keeps I (maybeAutoRecord V l)"
  unfolding maybeAutoRecord_def by (intro kept)

lemma keeps_note_acquired [kept]: "keeps I (note_acquired V runID req l)"
  unfolding note_acquired_def by (intro kept)

lemma keeps_put_artifact [kept]: "keeps I (put_artifact V name data ev)"
  unfolding put_artifact_def by (intro kept)

lemma keeps_journalImage [kept]: "keeps I (journalImage V result req ev base)"
  unfolding journalImage_def Let_def by (intro kept)

lemma keeps_journalAudit [kept]: "keeps I (journalAudit V result req ev)"
  unfolding journalAudit_def by (intro kept)

lemma keeps_journalLogs [kept]: "keeps I (journalLogs V result ev)"
  unfolding journalLogs_def by (intro kept)

lemma keeps_failure_event [kept]: "keeps I (failure_event V err udid detail ev)"
  unfolding failure_event_def Let_def by (intro kept)

lemma keeps_dispatch_failed [kept]: "keeps I (dispatch_failed V l ev err)"
  unfolding dispatch_failed_def by (intro kept)

lemma keeps_dispatch_done [kept]: "keeps I (dispatch_done V kind req ev res)"
  unfolding dispatch_done_def by (intro kept)

lemma keeps_requireLease [kept]: "keeps I (requireLease V lid udid)"
  unfolding requireLease_def by (intro kept)

lemma keeps_refuse [kept]: "keeps I (refuse_with status code msg)"
  unfolding refuse_with_def by (intro kept)

lemma keeps_stateOpOnDevice [kept]: "keeps I (stateOpOnDevice V udid)"
  unfolding stateOpOnDevice_def by (intro kept)

lemma keeps_recordState [kept]: "keeps I (recordState V lid action params err)"
  unfolding recordState_def Let_def by (intro kept)

lemma keeps_leasedTarget [kept]: "keeps I (leasedTarget V lid)"
  unfolding leasedTarget_def by (intro kept)

lemma keeps_deviceResetConflict [kept]: "keeps I (deviceResetConflict V req)"
  unfolding deviceResetConflict_def by (intro kept)

lemma keeps_handleGetLease: "keeps I (handleGetLease V lid)"
  unfolding handleGetLease_def by (intro kept)

lemma keeps_lease_change: "keeps I op \<Longrightarrow> keeps I (lease_change V op action params event)"
  unfolding lease_change_def by (intro kept)

lemma keeps_handleRenewLease: "keeps I (handleRenewLease V lid ttl)"
  unfolding handleRenewLease_def by (intro keeps_lease_change kept)

lemma keeps_handlePauseLease: "keeps I (handlePauseLease V lid reason)"
  unfolding handlePauseLease_def by (intro keeps_lease_change kept)

lemma keeps_handleResumeLease: "keeps I (handleResumeLease V lid)"
  unfolding handleResumeLease_def by (intro keeps_lease_change kept)

lemma keeps_after_release [kept]: "keeps I (after_release V prior l)"
  unfolding after_release_def by (intro kept)

lemma keeps_mark_all [kept]: "(\<And>x. keeps I (f x)) \<Longrightarrow> keeps I (mark_all f xs)"
  by (induction f xs rule: mark_all.induct) (auto intro!: kept)

lemma keeps_listTargets [kept]: "keeps I (listTargets V)"
  unfolding listTargets_def markWarm_def markRecording_def by (intro kept)

lemma keeps_handleListTargets: "keeps I (handleListTargets_daemon V)"
  unfolding handleListTargets_daemon_def by (intro kept)

lemma keeps_NoteBoot: "keeps I (NoteBoot udid)"
  unfolding NoteBoot_def by (intro kept)

lemma keeps_handleStateSnapshotsList: "keeps I (handleStateSnapshotsList V lid)"
  unfolding handleStateSnapshotsList_def with_leased_def by (intro kept)

lemma keeps_snapshotOwnedBy [kept]: "keeps I (snapshotOwnedBy V udid sid)"
  unfolding snapshotOwnedBy_def by (intro kept)

lemma keeps_handleClearQuarantine: "keeps I (handleClearQuarantine V udid)"
  unfolding handleClearQuarantine_def by (intro kept)

lemma keeps_Reserve [kept]: "keeps I (leases_Reserve V udid)"
  unfolding leases_Reserve_def by (intro kept) simp

lemma keeps_dashReserveTarget [kept]: "keeps I (dashReserveTarget V udid)"
  unfolding dashReserveTarget_def by (intro kept) simp

lemma keeps_EventSink: "keeps I (EventSink V l)"
  unfolding EventSink_def Let_def by (intro kept)

lemma keeps_state_Reset [kept]: "keeps I (state_Reset V udid spec)"
  unfolding state_Reset_def by (intro kept) simp

lemma keeps_perform_reset [kept]: "keeps I (perform_reset V l)"
proof -
  have degraded: "keeps I (\<lambda>s. case state_Reset V udid spec s of
        (None, s') \<Rightarrow> (None, snd (recordState V lid action params err s'))
      | (Some err', s') \<Rightarrow> k err' s')" if k: "\<And>e. keeps I (k e)" for udid spec lid action params err k
  proof (unfold keeps_def, intro allI impI)
    fix s assume i: "I s"
    obtain r s' where r: "state_Reset V udid spec s = (r, s')" by (cases "state_Reset V udid spec s")
    have "I s'" using keepsD [OF keeps_state_Reset i r] .
    then show "I (snd (case state_Reset V udid spec s of
        (None, s') \<Rightarrow> (None, snd (recordState V lid action params err s'))
      | (Some err', s') \<Rightarrow> k err' s'))"
      using r k keeps_recordState by (cases r) (auto simp: keeps_def)
  qed
  show ?thesis
    unfolding perform_reset_def Let_def by (intro kept degraded)
qed

lemma keeps_ResetSink: "keeps I (ResetSink V l)"
  unfolding ResetSink_def by (intro kept)

end

text \<open>Invariants that any touch of a target keeps too.\<close>

locale server_inv = base_inv +
  assumes touch: "I s \<Longrightarrow> touch_event e \<Longrightarrow> I (s\<lparr>sv_trace := e # sv_trace s\<rparr>)"
begin

lemma keeps_touch: "touch_event e \<Longrightarrow> keeps I (emit_event e)"
  by (auto simp: keeps_def emit_event_def update_def touch)

lemma keeps_bootTarget [kept]: "keeps I (bootTarget V l udid)"
  unfolding bootTarget_def Let_def by (intro keeps_touch kept) simp

lemma keeps_shutdownTarget [kept]: "keeps I (shutdownTarget V l udid)"
  unfolding shutdownTarget_def Let_def by (intro keeps_touch kept) simp

lemma keeps_boot_attempt [kept]: "keeps I (boot_attempt V l udid first)"
  unfolding boot_attempt_def by (intro kept)

lemma keeps_boot_loop [kept]: "keeps I (boot_loop V l udid first n)"
proof (induction n arbitrary: first)
  case 0
  show ?case by (subst boot_loop.simps) (auto intro!: kept split: option.splits boot_error.splits nat.splits)
next
  case (Suc n)
  show ?case by (subst boot_loop.simps) (auto intro!: kept Suc split: option.splits boot_error.splits nat.splits)
qed

lemma keeps_bootTargetWait [kept]: "keeps I (bootTargetWait V l udid)"
  unfolding bootTargetWait_def by (intro kept)

lemma keeps_handleTargetOp: "(\<And>l. keeps I (op l)) \<Longrightarrow> keeps I (handleTargetOp V action udid lid op)"
  unfolding handleTargetOp_def Let_def by (intro kept)

lemma keeps_handleBoot: "keeps I (handleBoot V wait udid lid)"
  unfolding handleBoot_def by (intro keeps_handleTargetOp kept)

lemma keeps_handleShutdown: "keeps I (handleShutdown V udid lid)"
  unfolding handleShutdown_def by (intro keeps_handleTargetOp kept)

lemma keeps_handleStateFixture: "keeps I (handleStateFixture V lid name fixture)"
  unfolding handleStateFixture_def by (intro keeps_touch kept) simp

lemma keeps_handleStateSnapshot: "keeps I (handleStateSnapshot V lid label)"
  unfolding handleStateSnapshot_def with_leased_def by (intro keeps_touch kept) simp

lemma keeps_handleStateRestore: "keeps I (handleStateRestore V lid snapshot reboot)"
  unfolding handleStateRestore_def with_leased_def by (intro keeps_touch kept) simp

lemma keeps_handleStateErase: "keeps I (handleStateErase V lid)"
  unfolding handleStateErase_def with_leased_def by (intro keeps_touch kept) simp

lemma keeps_handleStateSnapshotsDelete: "keeps I (handleStateSnapshotsDelete V lid sid)"
  unfolding handleStateSnapshotsDelete_def with_leased_def by (intro keeps_touch kept) simp

lemma keeps_handleDashTargetOp: "keeps I op \<Longrightarrow> keeps I (handleDashTargetOp V udid op)"
  unfolding handleDashTargetOp_def by (intro kept) simp_all

lemma keeps_handleDashBoot: "keeps I (handleDashBoot V udid)"
  unfolding handleDashBoot_def by (intro keeps_handleDashTargetOp kept)

lemma keeps_handleDashShutdown: "keeps I (handleDashShutdown V udid)"
  unfolding handleDashShutdown_def by (intro keeps_handleDashTargetOp kept)

end

text \<open>Operations that hand actions to the backend.\<close>

locale sent_inv = base_inv +
  assumes sent: "I s \<Longrightarrow> sv_trace s = Saw q (Inr l) # tr \<Longrightarrow> may_act l kind \<Longrightarrow>
    I (s\<lparr>sv_trace := Sent (l_ID l) (l_TargetUDID l) kind # sv_trace s\<rparr>)"
begin

lemma keeps_dispatchAction [kept]: "keeps I (dispatchAction V lid kind req)"
proof -
  let ?k = "\<lambda>got. case action_guard kind got of
      Inl e \<Rightarrow> ret (Inl e)
    | Inr l \<Rightarrow> let ev = mk_event ''action'' (l_ID l) (l_AgentID l) kind (journalParams req) in
        seq (backend_dispatch V l kind req) (\<lambda>r. case r of
          Inl err \<Rightarrow> dispatch_failed V l ev err | Inr res \<Rightarrow> dispatch_done V kind req ev res)"
  have looked: "I s' \<and> sv_trace s' = Saw lid got # sv_trace s"
    if "I s" "leases_Get V lid s = (Some got, s')" for s s' got
  proof -
    have "I s'" using keepsD [OF keeps_Get] that by blast
    moreover have "sv_trace s' = Saw lid got # sv_trace s"
      using that(2) by (auto simp: leases_Get_def seq_def call_def emit_event_def update_def ret_def split: prod.splits option.splits)
    ultimately show ?thesis ..
  qed
  have step: "I (snd (?k got s))" if i: "I s" and t: "sv_trace s = Saw lid got # tr" for got s tr
  proof (cases "action_guard kind got")
    case (Inl e)
    then show ?thesis using i by (simp add: ret_def)
  next
    case (Inr l)
    then have g: "got = Inr l" "may_act l kind" using action_guard_may_act by blast+
    let ?s1 = "s\<lparr>sv_trace := Sent (l_ID l) (l_TargetUDID l) kind # sv_trace s\<rparr>"
    let ?ev = "mk_event ''action'' (l_ID l) (l_AgentID l) kind (journalParams req)"
    have "I ?s1" using sent [OF i] t g by simp
    moreover have "keeps I (seq (call (v_Dispatch V (l_ID l) (l_TargetUDID l) kind req)) (\<lambda>r. case r of
        Inl err \<Rightarrow> dispatch_failed V l ?ev err | Inr res \<Rightarrow> dispatch_done V kind req ?ev res))"
      by (intro kept)
    ultimately show ?thesis
      using Inr by (auto simp: keeps_def backend_dispatch_def seq_def emit_event_def update_def Let_def)
  qed
  have "keeps I (seq (leases_Get V lid) ?k)"
  proof (unfold keeps_def, intro allI impI)
    fix s assume s: "I s"
    obtain r s' where g: "leases_Get V lid s = (r, s')" by (cases "leases_Get V lid s")
    show "I (snd (seq (leases_Get V lid) ?k s))"
    proof (cases r)
      case None
      then show ?thesis using keepsD [OF keeps_Get s g] g by (simp add: seq_def)
    next
      case (Some got)
      then show ?thesis using looked [OF s] step g by (auto simp: seq_def)
    qed
  qed
  then show ?thesis unfolding dispatchAction_def by (intro keeps_if keeps_ret)
qed

lemma keeps_batch_loop [kept]: "keeps I (batch_loop V lid stop as out)"
  by (induction V lid stop as out rule: batch_loop.induct) (auto simp: Let_def intro!: kept)

lemma keeps_dispatchActionBatch [kept]: "keeps I (dispatchActionBatch V lid stop as)"
  unfolding dispatchActionBatch_def by (intro kept)

lemma keeps_handleAction: "keeps I (handleAction V lid kind req)"
  unfolding handleAction_def by (intro kept)

lemma keeps_handleActionBatch: "keeps I (handleActionBatch V lid stop as)"
  unfolding handleActionBatch_def by (intro kept)

lemma keeps_observeStep [kept]: "keeps I (observeStep V lid t h)"
  unfolding observeStep_def by (intro kept)

lemma keeps_checkExpect [kept]: "keeps I (checkExpect V lid e)"
  unfolding checkExpect_def by (intro kept)

lemma keeps_recordStepExpectation [kept]: "keeps I (recordStepExpectation V l i action)"
  unfolding recordStepExpectation_def by (intro kept)

lemma keeps_runBatchStep [kept]: "keeps I (runBatchStep V lid args)"
  unfolding runBatchStep_def Let_def by (intro kept)

lemma keeps_step_action [kept]: "keeps I (step_action V l st)"
  unfolding step_action_def by (intro kept)

lemma keeps_check_drift [kept]: "keeps I (check_drift V spec l i st res pg)"
  unfolding check_drift_def by (intro kept)

end

text \<open>Operations that release leases, and those that also create them.\<close>

locale dispatch_inv = server_inv + sent_inv

locale release_inv = base_inv +
  assumes released: "I s \<Longrightarrow> I (s\<lparr>sv_trace := ReleaseSent lid r # sv_trace s\<rparr>)"
begin

lemma keeps_Release [kept]: "keeps I (leases_Release V lid)"
proof -
  have "keeps I (emit_event (ReleaseSent lid r))" for r
    by (auto simp: keeps_def emit_event_def update_def released)
  then show ?thesis unfolding leases_Release_def by (intro keeps_seq keeps_call keeps_ret)
qed

lemma keeps_refuseDeviceResetGrant [kept]: "keeps I (refuseDeviceResetGrant V l)"
  unfolding refuseDeviceResetGrant_def by (intro kept) simp

lemma keeps_abandonQueuedLease [kept]: "keeps I (abandonQueuedLease V lid)"
  unfolding abandonQueuedLease_def by (intro kept)

lemma keeps_handleReleaseLease: "keeps I (handleReleaseLease V lid)"
  unfolding handleReleaseLease_def by (intro kept)

lemma keeps_handleDashReleaseLease: "keeps I (handleDashReleaseLease V udid)"
  unfolding handleDashReleaseLease_def by (intro kept)

end

locale lease_inv = release_inv +
  assumes acquired: "I s \<Longrightarrow> I (s\<lparr>sv_trace := Acquired l # sv_trace s\<rparr>)"
begin

lemma keeps_Acquire [kept]: "keeps I (leases_Acquire V req)"
proof -
  have "keeps I (emit_event (Acquired l))" for l
    by (auto simp: keeps_def emit_event_def update_def acquired)
  then show ?thesis unfolding leases_Acquire_def by (intro keeps_seq keeps_call keeps_ret keeps_sum)
qed

lemma keeps_handleAcquireLease: "keeps I (handleAcquireLease_daemon V req)"
  unfolding handleAcquireLease_daemon_def Let_def by (intro kept)

end

text \<open>Invariants that read at most the identity, the specification, the steps and the verdict of the run.\<close>

locale meta_inv = server_inv +
  assumes meta: "I s \<Longrightarrow> rn_ID r = rn_ID (sv_run s) \<Longrightarrow> rn_Spec r = rn_Spec (sv_run s) \<Longrightarrow> rn_Steps r = rn_Steps (sv_run s) \<Longrightarrow>
    rn_Verdict r = rn_Verdict (sv_run s) \<Longrightarrow> I (s\<lparr>sv_run := r\<rparr>)"
begin

lemma keeps_upd_meta:
  "(\<And>r. rn_ID (f r) = rn_ID r \<and> rn_Spec (f r) = rn_Spec r \<and> rn_Steps (f r) = rn_Steps r \<and> rn_Verdict (f r) = rn_Verdict r) \<Longrightarrow>
   keeps I (upd_run f)"
  by (auto simp: keeps_def upd_run_def update_def meta)

lemma keeps_set_stage [kept]: "keeps I (set_stage st)"
  unfolding set_stage_def by (rule keeps_upd_meta) simp

lemma keeps_or_fail [kept]: "keeps I m \<Longrightarrow> keeps I k \<Longrightarrow> keeps I (or_fail m k)"
  unfolding or_fail_def by (intro kept)

lemma keeps_wait_booted [kept]: "keeps I (wait_booted V udid n)"
proof (induction n)
  case 0
  show ?case by (subst wait_booted.simps) (auto intro!: kept)
next
  case (Suc n)
  show ?case by (subst wait_booted.simps) (auto intro!: kept Suc)
qed

lemma keeps_stage_boot [kept]: "keeps I (stage_boot V l)"
  unfolding stage_boot_def boot_or_fail_def waitTargetBooted_def by (intro kept)

lemma keeps_apply_fixtures [kept]: "keeps I (apply_fixtures V l fs)"
  by (induction V l fs rule: apply_fixtures.induct) (auto intro!: kept)

lemma keeps_stage_fixtures [kept]: "keeps I (stage_fixtures V spec l)"
  unfolding stage_fixtures_def by (intro kept)

lemma keeps_attachRunExport [kept]: "keeps I (attachRunExport V lid)"
  unfolding attachRunExport_def by (intro keeps_upd_meta kept) simp

lemma keeps_finishRun [kept]: "keeps I (finishRun V err)"
  unfolding finishRun_def by (intro keeps_upd_meta kept) (simp split: option.split)

lemma keeps_stampRunVerdict [kept]: "keeps I (stampRunVerdict V lid)"
  unfolding stampRunVerdict_def by (intro kept)

lemma keeps_recordRunEvent [kept]: "keeps I (recordRunEvent V l action err)"
  unfolding recordRunEvent_def Let_def by (intro kept)

lemma keeps_begin_run [kept]: "keeps I (begin_run V)"
  unfolding begin_run_def by (intro keeps_upd_meta kept) simp

end

text \<open>Invariants that do not read the run at all.\<close>

locale handle_inv = server_inv +
  assumes runs: "I s \<Longrightarrow> I (s\<lparr>sv_run := r\<rparr>)"

sublocale handle_inv \<subseteq> meta_inv
  by unfold_locales (rule runs)

context handle_inv
begin

lemma keeps_upd_run [kept]: "keeps I (upd_run f)"
  by (auto simp: keeps_def upd_run_def update_def runs)

lemma keeps_add_result [kept]: "keeps I (add_result res)"
  unfolding add_result_def by (intro kept)

end

locale stage_inv = dispatch_inv + meta_inv
begin

lemma keeps_stage_dispatch [kept]: "keeps I (stage_dispatch V l stage kind req)"
  unfolding stage_dispatch_def by (intro kept)

lemma keeps_stage_app [kept]: "keeps I (stage_app V spec l)"
  unfolding stage_app_def by (intro kept)

lemma keeps_final_screenshot [kept]: "keeps I (final_screenshot V spec l passed)"
  unfolding final_screenshot_def by (intro kept)

end

locale run_inv = dispatch_inv + handle_inv

sublocale run_inv \<subseteq> stage_inv ..

context run_inv
begin

lemma keeps_execute_step [kept]: "keeps I (execute_step V spec stepTO l i st pg)"
  unfolding execute_step_def Let_def by (intro kept) simp

lemma keeps_run_steps [kept]: "keeps I (run_steps V spec stepTO l i sts pg)"
  by (induction V spec stepTO l i sts pg rule: run_steps.induct) (auto intro!: kept)

lemma keeps_stage_steps [kept]: "keeps I (stage_steps V spec stepTO l)"
  unfolding stage_steps_def by (intro kept)

lemma keeps_runStages [kept]: "keeps I (runStages V l stepTO)"
  unfolding runStages_def by (intro kept)

lemma keeps_run_leased [kept]: "keeps I (run_leased V l stepTO)"
  unfolding run_leased_def by (intro kept)

end

locale give_back_inv = release_inv + meta_inv
begin

lemma keeps_await_grant [kept]: "keeps I (await_grant V lid to n)"
  by (induction V lid to n rule: await_grant.induct) (auto intro!: keeps_upd_meta kept split: LeaseState.split)

lemma keeps_take_or_wait [kept]: "keeps I (take_or_wait V to l)"
  unfolding take_or_wait_def by (intro keeps_upd_meta kept) simp

lemma keeps_run_created [kept]: "keeps I (run_created V runID req to l)"
  unfolding run_created_def by (intro keeps_upd_meta kept) simp

lemma keeps_runRelease [kept]: "keeps I (runRelease V lid failed)"
  unfolding runRelease_def by (intro kept)

end

locale acquire_inv = lease_inv + meta_inv

sublocale acquire_inv \<subseteq> give_back_inv ..

context acquire_inv
begin

lemma keeps_runAcquire [kept]: "keeps I (runAcquire V acquireTO)"
  unfolding runAcquire_def Let_def by (intro kept)

end

locale execute_inv = run_inv + lease_inv

sublocale execute_inv \<subseteq> acquire_inv ..

context execute_inv
begin

lemma keeps_run_body [kept]: "keeps I (run_body V)"
  unfolding run_body_def by (intro kept)

lemma keeps_executeRun: "keeps I (executeRun V)"
  unfolding executeRun_def by (intro kept)

end

end
