(* ===== verification/Mz_RunSpecProps.thy ===== *)
theory Mz_RunSpecProps
  imports Mz_RunSpec
begin

text \<open>
  Properties of run specifications: the daemon's checks against the client's, the bounds of the
  resolved timeouts and of the lease they ask for, and what a verdict says of the steps.
\<close>

section \<open>Checks\<close>

lemma first_error_None: "first_error cs = None \<longleftrightarrow> (\<forall>c \<in> set cs. \<not> fst c)"
  by (induction cs rule: first_error.induct) auto

declare first_error.simps [simp del]

lemma first_bad_None: "first_bad f i xs = None \<longleftrightarrow> (\<forall>k < length xs. f (i + k) (xs ! k) = None)"
proof (induction xs arbitrary: i)
  case Nil
  then show ?case by simp
next
  case (Cons x xs)
  have "(\<forall>k < length (x # xs). f (i + k) ((x # xs) ! k) = None)
      \<longleftrightarrow> f i x = None \<and> (\<forall>k < length xs. f (i + Suc k) (xs ! k) = None)"
    by (auto simp: less_Suc_eq_0_disj)
  then show ?case using Cons [of "Suc i"] by (auto split: option.splits)
qed

text \<open>A step's expect block has no entry that is blank once trimmed.\<close>

definition no_blank_texts :: "run_spec \<Rightarrow> bool" where
  "no_blank_texts spec \<longleftrightarrow>
     list_all (\<lambda>st. case st_Expect st of None \<Rightarrow> True | Some e \<Rightarrow> list_all (\<lambda>t. TrimSpace t \<noteq> []) (xp_Texts e)) (sp_Steps spec)"

lemma expect_checks_agree:
  assumes "expect_error i e = None" "list_all (\<lambda>t. TrimSpace t \<noteq> []) (xp_Texts e)"
  shows "validateExpect i (Some e) = None"
  using assms
  by (cases "xp_MaxHashDistance e")
    (auto simp: expect_error_def validateExpect_def Let_def first_error_None list_ex_iff list_all_iff)

lemma accepted_parts:
  assumes "validateRunSpec bd spec = None"
  shows "\<forall>c \<in> set (target_checks bd (sp_Target spec)). \<not> fst c"
    and "\<forall>c \<in> set (app_checks (sp_App spec)). \<not> fst c"
    and "\<forall>k < length (sp_Steps spec). step_error k (sp_Steps spec ! k) = None"
    and "0 \<le> to_AcquireSeconds (sp_Timeouts spec)" "0 \<le> to_RunSeconds (sp_Timeouts spec)" "0 \<le> to_StepSeconds (sp_Timeouts spec)"
    and "validateRunExpects spec = None"
  using assms
  by (auto simp: validateRunSpec_def Let_def first_error_None first_bad_None ball_Un split: option.splits if_splits)

text \<open>
  The daemon refuses whatever the client's checks refuse, blank expected texts apart.
\<close>

lemma accepted_by_client:
  assumes "validateRunSpec bd spec = None" "no_blank_texts spec"
  shows "Validate_spec spec = None"
proof -
  note p = accepted_parts [OF assms(1)]
  have t: "\<not> (tg_Labels (sp_Target spec) = [] \<and> tg_UDID (sp_Target spec) = [] \<and> tg_Runtime (sp_Target spec) = [] \<and>
      tg_DeviceType (sp_Target spec) = [] \<and> tg_Image (sp_Target spec) = [])"
    using p(1) by (auto simp: target_checks_def)
  have s: "st_Action st \<noteq> [] \<and> st_MaestroFlow st = [] \<and> validateExpect k (st_Expect st) = None"
    if "k < length (sp_Steps spec)" "st = sp_Steps spec ! k" for k st
  proof -
    have "step_error k st = None" using p(3) that by simp
    then have a: "st_Action st \<noteq> [] \<and> st_MaestroFlow st = []" by (auto simp: step_error_def first_error_None)
    moreover have "validateExpect k (st_Expect st) = None"
    proof (cases "st_Expect st")
      case None
      then show ?thesis by (simp add: validateExpect_def)
    next
      case (Some e)
      have "expect_error k e = None"
        using p(7) that Some by (auto simp: validateRunExpects_def first_bad_None split: option.splits)
      moreover have "list_all (\<lambda>t. TrimSpace t \<noteq> []) (xp_Texts e)"
        using assms(2) that Some by (auto simp: no_blank_texts_def list_all_length split: option.splits)
      ultimately show ?thesis using Some expect_checks_agree by simp
    qed
    ultimately show ?thesis by simp
  qed
  have "check_step k (sp_Steps spec ! k) = None" if "k < length (sp_Steps spec)" for k
    using s [OF that] by (simp add: check_step_def first_error.simps)
  then have "first_bad check_step 0 (sp_Steps spec) = None" by (simp add: first_bad_None)
  moreover have "\<not> (\<exists>app. sp_App spec = Some app \<and> ap_Path app = [] \<and> ap_BundleID app = [])"
    using p(2) by (cases "sp_App spec") (simp_all add: app_checks_def Let_def)
  ultimately show ?thesis using t by (auto simp: Validate_spec_def Let_def split: option.splits)
qed

section \<open>Timeouts\<close>

lemma duration_of_seconds_exact:
  assumes "0 \<le> n" "n \<le> 9223372036"
  shows "duration_of_seconds n = n * Second"
proof -
  have r: "- (2 ^ 63) \<le> n * Second \<and> n * Second < (2 ^ 63 :: int)" using assms by simp
  then show ?thesis
    unfolding duration_of_seconds_def sint_sbintrunc' by (intro signed_take_bit_int_eq_self) simp_all
qed

lemma run_budget:
  assumes "0 \<le> to_RunSeconds (sp_Timeouts spec)" "runTimeouts spec = (a, r, s)"
  shows "1 \<le> whole_seconds r" "whole_seconds r \<le> 3480" "r = whole_seconds r * Second"
proof -
  define n where "n = (let t = to_RunSeconds (sp_Timeouts spec); r0 = (if t = 0 then 600 else t) in if r0 > 3480 then 3480 else r0)"
  have n: "1 \<le> n \<and> n \<le> 3480" using assms(1) by (auto simp: n_def Let_def)
  have "r = duration_of_seconds n"
    using assms(2) by (auto simp: runTimeouts_def Let_def n_def maxRunSeconds_def MaxTTL_def runLeaseTTLMargin_def defaultRunSeconds_def)
  then have r: "r = n * Second" using duration_of_seconds_exact [of n] n by simp
  then have "whole_seconds r = n" using n by (simp add: whole_seconds_def sgn_if)
  then show "1 \<le> whole_seconds r" "whole_seconds r \<le> 3480" "r = whole_seconds r * Second" using n r by simp_all
qed

section \<open>Verdicts\<close>

text \<open>The executed asserts between a step and the next mutating one.\<close>

definition asserts_after :: "step_result list \<Rightarrow> step_result list" where
  "asserts_after later =
     filter (\<lambda>r. sr_Action r \<in> set verdictAssertKinds \<and> sr_Status r \<noteq> StepSkipped)
       (takeWhile (\<lambda>r. \<not> mutatingStepKind (sr_Action r)) later)"

lemma follow_asserts_counts:
  "follow_asserts later =
     (length (asserts_after later), length (filter (\<lambda>r. sr_Status r \<noteq> StepOK) (asserts_after later)),
      \<exists>r \<in> set (asserts_after later). sr_Status r = StepOK)"
  by (induction later rule: follow_asserts.induct) (auto simp: asserts_after_def)

text \<open>What one step contributes, given the results after it.\<close>

definition step_signal :: "run_step \<Rightarrow> step_result \<Rightarrow> step_result list \<Rightarrow> bool" where
  "step_signal st r later \<longleftrightarrow>
     sr_Status r \<noteq> StepSkipped \<and>
     (fst (expect_signal st r) \<or>
      mutatingStepKind (sr_Action r) \<and> (sr_Verified r \<noteq> None \<or> asserts_after later \<noteq> []))"

definition step_negative :: "run_step \<Rightarrow> step_result \<Rightarrow> step_result list \<Rightarrow> bool" where
  "step_negative st r later \<longleftrightarrow>
     sr_Status r \<noteq> StepSkipped \<and>
     (fst (expect_signal st r) \<and> \<not> snd (expect_signal st r) \<or>
      mutatingStepKind (sr_Action r) \<and>
        (sr_Verified r = Some False \<or> (\<exists>a \<in> set (asserts_after later). sr_Status a \<noteq> StepOK)))"

definition step_verified :: "run_step \<Rightarrow> step_result \<Rightarrow> step_result list \<Rightarrow> bool" where
  "step_verified st r later \<longleftrightarrow>
     sr_Status r = StepOK \<and>
     (snd (expect_signal st r) \<or> sr_Verified r = Some True \<or> (\<exists>a \<in> set (asserts_after later). sr_Status a = StepOK))"

lemma expect_signal_passed: "snd (expect_signal st r) \<Longrightarrow> fst (expect_signal st r)"
  by (auto simp: expect_signal_def split: if_splits)

lemma grade_step_counts:
  defines "executed r \<equiv> sr_Status r \<noteq> StepSkipped"
  shows "ta_signals (grade_step st r later t) = 0 \<longleftrightarrow> ta_signals t = 0 \<and> \<not> step_signal st r later"
    and "ta_negatives (grade_step st r later t) = 0 \<longleftrightarrow> ta_negatives t = 0 \<and> \<not> step_negative st r later"
    and "ta_unverified (grade_step st r later t) = 0 \<longleftrightarrow>
           ta_unverified t = 0 \<and> (executed r \<and> mutatingStepKind (sr_Action r) \<longrightarrow> step_verified st r later)"
proof -
  obtain sg ps where sp: "expect_signal st r = (sg, ps)" by (cases "expect_signal st r")
  have ps: "ps \<Longrightarrow> sg" using expect_signal_passed [of st r] sp by simp
  show "ta_signals (grade_step st r later t) = 0 \<longleftrightarrow> ta_signals t = 0 \<and> \<not> step_signal st r later"
    using sp by (auto simp: grade_step_def step_signal_def follow_asserts_counts Let_def)
  show "ta_negatives (grade_step st r later t) = 0 \<longleftrightarrow> ta_negatives t = 0 \<and> \<not> step_negative st r later"
    using sp by (auto simp: grade_step_def step_negative_def follow_asserts_counts Let_def filter_empty_conv)
  show "ta_unverified (grade_step st r later t) = 0 \<longleftrightarrow>
      ta_unverified t = 0 \<and> (executed r \<and> mutatingStepKind (sr_Action r) \<longrightarrow> step_verified st r later)"
    using sp ps by (auto simp: grade_step_def step_verified_def executed_def follow_asserts_counts Let_def)
qed

text \<open>A predicate of every graded step: its specification, its result and the results after it.\<close>

fun graded_all :: "(run_step \<Rightarrow> step_result \<Rightarrow> step_result list \<Rightarrow> bool) \<Rightarrow> run_step list \<Rightarrow> step_result list \<Rightarrow> bool" where
  "graded_all P (st # sts) (r # rs) \<longleftrightarrow> P st r rs \<and> graded_all P sts rs"
| "graded_all P _ _ \<longleftrightarrow> True"

lemma graded_all_nth:
  "graded_all P sts rs \<longleftrightarrow> (\<forall>i < min (length sts) (length rs). P (sts ! i) (rs ! i) (drop (Suc i) rs))"
proof (induction P sts rs rule: graded_all.induct)
  case (1 P st sts r rs)
  have "(\<forall>i < min (length (st # sts)) (length (r # rs)). P ((st # sts) ! i) ((r # rs) ! i) (drop (Suc i) (r # rs)))
      \<longleftrightarrow> P st r rs \<and> (\<forall>i < min (length sts) (length rs). P (sts ! i) (rs ! i) (drop (Suc i) rs))"
    by (auto simp: less_Suc_eq_0_disj)
  then show ?case using 1 by simp
qed simp_all

lemma grade_steps_counts:
  "ta_signals (grade_steps sts rs t) = 0 \<longleftrightarrow> ta_signals t = 0 \<and> graded_all (\<lambda>st r later. \<not> step_signal st r later) sts rs"
  "ta_negatives (grade_steps sts rs t) = 0 \<longleftrightarrow> ta_negatives t = 0 \<and> graded_all (\<lambda>st r later. \<not> step_negative st r later) sts rs"
  "ta_unverified (grade_steps sts rs t) = 0 \<longleftrightarrow> ta_unverified t = 0 \<and>
     graded_all (\<lambda>st r later. sr_Status r \<noteq> StepSkipped \<and> mutatingStepKind (sr_Action r) \<longrightarrow> step_verified st r later) sts rs"
  by (induction sts rs t rule: grade_steps.induct) (auto simp: grade_step_counts)

lemma verdict_cases:
  "computeVerdict sts rs = VerdictUnverified \<longleftrightarrow> graded_all (\<lambda>st r later. \<not> step_signal st r later) sts rs"
  "computeVerdict sts rs = VerdictTrusted \<longleftrightarrow>
     \<not> graded_all (\<lambda>st r later. \<not> step_signal st r later) sts rs \<and>
     graded_all (\<lambda>st r later. \<not> step_negative st r later) sts rs \<and>
     graded_all (\<lambda>st r later. sr_Status r \<noteq> StepSkipped \<and> mutatingStepKind (sr_Action r) \<longrightarrow> step_verified st r later) sts rs"
  by (auto simp: computeVerdict_def Let_def grade_steps_counts)

section \<open>Claims\<close>

definition ios_target :: run_target where
  "ios_target = \<lparr>tg_Labels = [''ios26''], tg_UDID = [], tg_Runtime = [], tg_DeviceType = [], tg_Image = [], tg_Fixtures = [], tg_Reset = []\<rparr>"

definition plain_step :: "string \<Rightarrow> run_step" where
  "plain_step action = \<lparr>st_Name = [], st_Action = action, st_With = [], st_TimeoutSeconds = 0, st_ContinueOnError = False,
     st_MaestroFlow = [], st_Expect = None\<rparr>"

definition plain_spec :: "run_step list \<Rightarrow> run_spec" where
  "plain_spec steps = \<lparr>sp_Name = [], sp_Target = ios_target, sp_App = None, sp_Steps = steps,
     sp_Artifacts = \<lparr>af_FinalScreenshot = None, af_Export = None\<rparr>,
     sp_Timeouts = \<lparr>to_AcquireSeconds = 0, to_RunSeconds = 0, to_StepSeconds = 0\<rparr>,
     sp_StrictDrift = False, sp_RecordExpectations = False\<rparr>"

definition full_build :: build where
  "full_build = \<lparr>bd_actions = True, bd_state = True, bd_journal = True, bd_recorder = True, bd_gates = True, bd_pool = True,
     bd_dashReadonly = False, bd_leases = True\<rparr>"

definition texts_expect :: "string list \<Rightarrow> run_expect" where
  "texts_expect ts = \<lparr>xp_Texts = ts, xp_JaccardMin = 0, xp_Fingerprint = [], xp_MaxHashDistance = None\<rparr>"

definition blank_spec :: run_spec where
  "blank_spec = plain_spec [(plain_step ''tap'')\<lparr>st_Expect := Some (texts_expect ['' ''])\<rparr>]"

lemma blank_spec_checks: "validateRunSpec full_build blank_spec = None" "Validate_spec blank_spec \<noteq> None"
  by code_simp+




definition step_done :: "nat \<Rightarrow> string \<Rightarrow> step_status \<Rightarrow> bool option \<Rightarrow> step_result" where
  "step_done i action status verified = \<lparr>sr_Index = i, sr_Name = [], sr_Action = action, sr_Status = status, sr_Error = None,
     sr_DurationMS = 0, sr_JournalRef = None, sr_Verified = verified, sr_Drifted = False, sr_DriftDetail = NoDetail\<rparr>"


text \<open>An assert that fails before the first mutating step leaves the verdict trusted.\<close>

lemma failed_assert_trusted:
  "computeVerdict [(plain_step ''assert_text'')\<lparr>st_ContinueOnError := True\<rparr>, (plain_step ''tap'')\<lparr>st_ContinueOnError := True\<rparr>]
     [step_done 0 ''assert_text'' StepError None, step_done 1 ''tap'' StepOK (Some True)] = VerdictTrusted"
  by code_simp

text \<open>A number of seconds the checks accept may wrap: the resolved wait is negative.\<close>

lemma acquire_wait_wraps:
  "let spec = (plain_spec [])\<lparr>sp_Timeouts := \<lparr>to_AcquireSeconds = 9223372037, to_RunSeconds = 0, to_StepSeconds = 0\<rparr>\<rparr> in
   validateRunSpec full_build spec = None \<and> fst (runTimeouts spec) < 0"
  by code_simp

end
