(* ===== verification/Mz_RunDemo.thy ===== *)
theory Mz_RunDemo
  imports Mz_Run Mz_RunSpecProps
begin

text \<open>
  A concrete desk of services, at which the theorems about the run engine are applied: one booted
  simulator, one lease, which is active until it is released, and a clock that ticks.
\<close>

record desk =
  dk_clock :: instant
  dk_over :: bool       \<comment> \<open>the lease was released\<close>

definition desk_lease :: "string \<Rightarrow> desk \<Rightarrow> lease" where
  "desk_lease lid w = \<lparr>l_ID = lid, l_TargetUDID = ''SIM'', l_Labels = [''ios26''],
     l_State = (if dk_over w then LeaseReleased else LeaseActive), l_AgentID = ''agent'', l_Purpose = [], l_TTLSeconds = 720,
     l_ExpiresAt = None, l_GraceUntil = None, l_ExpiresInSeconds = None, l_QueuePosition = 0, l_CreatedAt = 0, l_Reset = [],
     l_RequestedUDID = [], l_Record = [], l_Paused = False, l_PausedAt = None, l_PausedReason = [], l_Host = [], l_HostAddr = []\<rparr>"

definition desk_target :: target where
  "desk_target = \<lparr>t_UDID = ''SIM'', t_Kind = TargetSimulator, t_Name = ''iPhone'', t_Runtime = ''iOS-26'', t_DeviceType = [],
     t_State = StateBooted, t_Labels = [''ios26''], t_Host = [], t_Warm = False, t_Recording = False\<rparr>"

definition desk_answer :: "'a \<Rightarrow> ('a, 'w) call" where "desk_answer x w = (Some x, w)"

text \<open>The backend fails the action \<^verbatim>\<open>swipe\<close> and succeeds on every other.\<close>

definition desk_dispatch :: "string \<Rightarrow> act_error + action_result" where
  "desk_dispatch kind =
     (if kind = ''swipe'' then Inl \<lparr>ae_wire = Some (''action_failed'', ''no element''), ae_text = ''no element'', ae_escalation = None\<rparr>
      else Inr \<lparr>az_Result = [(''verified'', JBool True)], az_Tree = [], az_JournalRef = None\<rparr>)"

definition desk_services :: "desk services" where
  "desk_services = \<lparr>
     v_build = full_build,
     v_now = (\<lambda>w. (dk_clock w, w\<lparr>dk_clock := dk_clock w + 1\<rparr>)),
     v_Acquire = (\<lambda>req w. (Some (Inr (desk_lease ''L1'' w)), w)),
     v_Get = (\<lambda>lid w. (Some (Inr (desk_lease lid w)), w)),
     v_Peek = (\<lambda>lid w. (Some (Inr (desk_lease lid w)), w)),
     v_Release = (\<lambda>lid w. (Some (Inr (desk_lease lid (w\<lparr>dk_over := True\<rparr>))), w\<lparr>dk_over := True\<rparr>)),
     v_Renew = (\<lambda>lid ttl w. (Some (Inr (desk_lease lid w)), w)),
     v_Pause = (\<lambda>lid reason w. (Some (Inr (desk_lease lid w)), w)),
     v_Resume = (\<lambda>lid w. (Some (Inr (desk_lease lid w)), w)),
     v_Active = (\<lambda>udid. desk_answer None),
     v_DropReset = (\<lambda>lid. desk_answer ()),
     v_devices = desk_answer False,
     v_reg_List = desk_answer (Inr [desk_target]),
     v_reg_Get = (\<lambda>udid. desk_answer (Inr desk_target)),
     v_Health = (\<lambda>udid. desk_answer (StateBooted, None)),
     v_Boot = (\<lambda>udid. desk_answer None),
     v_Shutdown = (\<lambda>udid. desk_answer None),
     v_gates = (\<lambda>udid. desk_answer None),
     v_slot = desk_answer True,
     v_polls = desk_answer 1,
     v_expired = desk_answer False,
     v_Dispatch = (\<lambda>lid udid kind req. desk_answer (desk_dispatch kind)),
     v_ApplyFixture = (\<lambda>udid name p. desk_answer None),
     v_Record = (\<lambda>ev. desk_answer no_ref),
     v_StartRun = (\<lambda>l t. desk_answer ()),
     v_PutArtifact = (\<lambda>lid name data. desk_answer None),
     v_MarkOpen = (\<lambda>lid. desk_answer ()),
     v_MarkClosed = (\<lambda>lid. desk_answer ()),
     v_ReadMeta = (\<lambda>lid. desk_answer None),
     v_WriteMeta = (\<lambda>lid m. desk_answer True),
     v_Export = (\<lambda>lid. desk_answer None),
     v_autoRecord = (\<lambda>l. desk_answer ()),
     v_stopRecording = (\<lambda>l. desk_answer ()),
     v_drainRecording = (\<lambda>udid. desk_answer ()),
     v_parked = (\<lambda>udid. desk_answer False),
     v_recording = (\<lambda>udid. desk_answer False),
     v_Reserve = (\<lambda>udid. desk_answer (False, True)),
     v_Quarantine = (\<lambda>udid. desk_answer ()),
     v_Unreserve = (\<lambda>udid. desk_answer ()),
     v_ClearQuarantine = (\<lambda>udid. desk_answer (Inr False)),
     v_Snapshot = (\<lambda>udid label. desk_answer (Inl StateOther)),
     v_Restore = (\<lambda>udid snap reboot. desk_answer (Inr reboot)),
     v_Erase = (\<lambda>udid. desk_answer None),
     v_Reset = (\<lambda>udid spec. desk_answer None),
     v_ListSnapshots = desk_answer (Inr []),
     v_DeleteSnapshot = (\<lambda>snap. desk_answer None),
     v_ClearPoisoned = (\<lambda>udid. desk_answer ()),
     v_leaseEnd = (\<lambda>udid. desk_answer ()),
     v_broadcast = (\<lambda>event. desk_answer ()),
     v_render = (\<lambda>ps. ''text''),
     v_pool_text = (\<lambda>e. ''pool''),
     v_state_text = (\<lambda>e. ''state''),
     v_redact = (\<lambda>s. ''00000000''),
     v_unbase64 = (\<lambda>s. None),
     v_marshalIndent = (\<lambda>j. None),
     v_decode = (\<lambda>s. None)\<rparr>"

definition desk_run :: "run_step list \<Rightarrow> run" where
  "desk_run steps = \<lparr>rn_ID = ''R1'', rn_State = RunPending, rn_Spec = plain_spec steps, rn_AgentID = ''agent'', rn_LeaseID = [],
     rn_TargetUDID = [], rn_Stage = NoStage, rn_Steps = [], rn_Verdict = NoVerdict, rn_Error = None, rn_CreatedAt = 0,
     rn_StartedAt = None, rn_FinishedAt = None, rn_ExportMD = [], rn_Host = [], rn_HostAddr = []\<rparr>"

definition desk_server :: "run_step list \<Rightarrow> desk server" where
  "desk_server steps = \<lparr>sv_world = \<lparr>dk_clock = 100, dk_over = False\<rparr>, sv_run = desk_run steps, sv_lastShutdown = Map.empty,
     sv_waitByLease = {}, sv_trace = []\<rparr>"

text \<open>The actions sent in a trace, oldest first.\<close>

definition sent_kinds :: "server_event list \<Rightarrow> string list" where
  "sent_kinds tr = concat (map (\<lambda>e. case e of Sent lid udid kind \<Rightarrow> [kind] | _ \<Rightarrow> []) (rev tr))"

lemma demo_run_passes: "(let s = snd (executeRun desk_services (desk_server [plain_step ''tap''])) in
    rn_State (sv_run s) = RunPassed \<and> sent_kinds (sv_trace s) = [''tap'', ''screenshot''])"
  by code_simp

end
