(* ===== verification/Mz_RunProps.thy ===== *)
theory Mz_RunProps
  imports Mz_RunLogic Mz_RunDemo
begin

text \<open>
  Properties of the handlers and of the run engine over every behaviour of the services: what may be sent
  to a target, the journal entry of an action, the release of a run's lease, and what the results
  of the steps say of a run that passed.
\<close>

section \<open>No action without a lease\<close>

fun guarded :: "server_event list \<Rightarrow> bool" where
  "guarded [] = True"
| "guarded (e # tr) =
     ((case e of
         Sent lid udid kind \<Rightarrow>
           (case tr of Saw q (Inr l) # _ \<Rightarrow> may_act l kind \<and> l_ID l = lid \<and> l_TargetUDID l = udid | _ \<Rightarrow> False)
       | _ \<Rightarrow> True) \<and> guarded tr)"

declare guarded.simps(2) [simp del]

lemma guarded_simps [simp]:
  "plain_event e \<or> touch_event e \<Longrightarrow> guarded (e # tr) = guarded tr"
  "guarded (Acquired l # tr) = guarded tr"
  "guarded (ReleaseSent lid r # tr) = guarded tr"
  "guarded (Sent lid udid kind # Saw q (Inr l) # tr) \<longleftrightarrow> may_act l kind \<and> l_ID l = lid \<and> l_TargetUDID l = udid \<and> guarded tr"
  by (cases e; simp add: guarded.simps(2))+

lemma guarded_split:
  assumes "guarded (a @ Sent lid udid kind # b)"
  shows "\<exists>q l tr. b = Saw q (Inr l) # tr \<and> may_act l kind \<and> l_ID l = lid \<and> l_TargetUDID l = udid"
  using assms by (induction a) (auto simp: guarded.simps(2) split: list.splits server_event.splits sum.splits)

interpretation g: execute_inv "\<lambda>s :: 'w server. guarded (sv_trace s)"
  by unfold_locales simp_all

text \<open>
  The requests the daemon serves, one after the other, with the calls of the lease manager's sinks
  and the shutdown ledger; each may panic.
\<close>

datatype request =
    PostAction string string payload
  | PostBatch string bool "(string \<times> payload) list"
  | PostBoot bool string string
  | PostShutdown string string
  | PostFixture string string payload
  | AcquireLease acquire_req
  | GetLease string
  | RenewLease string int
  | PauseLease string string
  | ResumeLease string
  | ReleaseLease string
  | ListTargets
  | PostSnapshot string string
  | PostRestore string string bool
  | PostErase string
  | ListSnapshots string
  | DeleteSnapshot string string
  | PostClearQuarantine string
  | DashBoot string
  | DashShutdown string
  | DashRelease string
  | LeaseEvent lease
  | LeaseReset lease
  | TargetDown string string "part list"
  | TargetUp string
  | ExecuteRun run

fun serve :: "'w services \<Rightarrow> request \<Rightarrow> 'w server \<Rightarrow> 'w server" where
  "serve V (PostAction lid kind req) s = snd (handleAction V lid kind req s)"
| "serve V (PostBatch lid stop as) s = snd (handleActionBatch V lid stop as s)"
| "serve V (PostBoot wait udid lid) s = snd (handleBoot V wait udid lid s)"
| "serve V (PostShutdown udid lid) s = snd (handleShutdown V udid lid s)"
| "serve V (PostFixture lid name fixture) s = snd (handleStateFixture V lid name fixture s)"
| "serve V (AcquireLease req) s = snd (handleAcquireLease_daemon V req s)"
| "serve V (GetLease lid) s = snd (handleGetLease V lid s)"
| "serve V (RenewLease lid ttl) s = snd (handleRenewLease V lid ttl s)"
| "serve V (PauseLease lid reason) s = snd (handlePauseLease V lid reason s)"
| "serve V (ResumeLease lid) s = snd (handleResumeLease V lid s)"
| "serve V (ReleaseLease lid) s = snd (handleReleaseLease V lid s)"
| "serve V ListTargets s = snd (handleListTargets_daemon V s)"
| "serve V (PostSnapshot lid label) s = snd (handleStateSnapshot V lid label s)"
| "serve V (PostRestore lid snapshot reboot) s = snd (handleStateRestore V lid snapshot reboot s)"
| "serve V (PostErase lid) s = snd (handleStateErase V lid s)"
| "serve V (ListSnapshots lid) s = snd (handleStateSnapshotsList V lid s)"
| "serve V (DeleteSnapshot lid sid) s = snd (handleStateSnapshotsDelete V lid sid s)"
| "serve V (PostClearQuarantine udid) s = snd (handleClearQuarantine V udid s)"
| "serve V (DashBoot udid) s = snd (handleDashBoot V udid s)"
| "serve V (DashShutdown udid) s = snd (handleDashShutdown V udid s)"
| "serve V (DashRelease udid) s = snd (handleDashReleaseLease V udid s)"
| "serve V (LeaseEvent l) s = snd (EventSink V l s)"
| "serve V (LeaseReset l) s = snd (ResetSink V l s)"
| "serve V (TargetDown udid actor reason) s = snd (NoteShutdown V udid actor reason s)"
| "serve V (TargetUp udid) s = snd (NoteBoot udid s)"
| "serve V (ExecuteRun run) s = snd (executeRun V (s\<lparr>sv_run := run\<rparr>))"

definition new_server :: "run \<Rightarrow> 'w \<Rightarrow> 'w server" where
  "new_server run w = \<lparr>sv_world = w, sv_run = run, sv_lastShutdown = Map.empty, sv_waitByLease = {}, sv_trace = []\<rparr>"

lemma guardedD:
  "keeps (\<lambda>s. guarded (sv_trace s)) m \<Longrightarrow> guarded (sv_trace s) \<Longrightarrow> guarded (sv_trace (snd (m s)))"
  by (simp add: keeps_def)

lemma serve_guarded: "guarded (sv_trace s) \<Longrightarrow> guarded (sv_trace (serve V r s))"
  by (cases r)
    (auto intro!: guardedD g.keeps_handleAction g.keeps_handleActionBatch g.keeps_handleBoot g.keeps_handleShutdown
      g.keeps_handleStateFixture g.keeps_handleAcquireLease g.keeps_handleGetLease g.keeps_handleRenewLease
      g.keeps_handlePauseLease g.keeps_handleResumeLease g.keeps_handleReleaseLease g.keeps_handleListTargets
      g.keeps_handleStateSnapshot g.keeps_handleStateRestore g.keeps_handleStateErase g.keeps_handleStateSnapshotsList
      g.keeps_handleStateSnapshotsDelete g.keeps_handleClearQuarantine g.keeps_handleDashBoot g.keeps_handleDashShutdown
      g.keeps_handleDashReleaseLease g.keeps_EventSink g.keeps_ResetSink g.keeps_NoteShutdown g.keeps_NoteBoot g.keeps_executeRun)

lemma serve_all_guarded: "guarded (sv_trace s) \<Longrightarrow> guarded (sv_trace (fold (serve V) reqs s))"
  by (induction reqs arbitrary: s) (auto intro: serve_guarded)

text \<open>
  C9. No action without a lease. Whatever requests the daemon serves, runs included, and whatever
  its services answer, each action handed to the backend directly follows a look at the lease that
  showed it active, on that target, and not paused, or paused and the action only observes.
\<close>

theorem no_action_without_lease:
  assumes "sv_trace (fold (serve V) reqs (new_server run w)) = a @ Sent lid udid kind # b"
  shows "\<exists>q l tr. b = Saw q (Inr l) # tr \<and> l_ID l = lid \<and> l_TargetUDID l = udid \<and> udid \<noteq> [] \<and> l_State l = LeaseActive \<and>
    (l_Paused l \<longrightarrow> kind = ''observe'' \<or> kind = ''screenshot'')"
proof -
  have "guarded (sv_trace (new_server run w))" by (simp add: new_server_def)
  then have "guarded (a @ Sent lid udid kind # b)" using serve_all_guarded assms by metis
  then show ?thesis using guarded_split by (fastforce simp: may_act_def pausedAllowedKinds_def)
qed

theorem no_action_without_lease_witness:
  "let t = sv_trace (fold (serve desk_services) [PostAction ''L1'' ''tap'' [], ReleaseLease ''L1'', PostAction ''L1'' ''tap'' []]
     (new_server (desk_run []) \<lparr>dk_clock = 100, dk_over = False\<rparr>)) in
   sent_kinds t = [''tap''] \<and>
   (\<exists>q l tr. drop (length t - 1) t = Saw q (Inr l) # tr \<and> l_ID l = ''L1'' \<and> l_TargetUDID l = ''SIM'' \<and> l_State l = LeaseActive)"
proof -
  let ?t = "sv_trace (fold (serve desk_services) [PostAction ''L1'' ''tap'' [], ReleaseLease ''L1'', PostAction ''L1'' ''tap'' []]
     (new_server (desk_run []) \<lparr>dk_clock = 100, dk_over = False\<rparr>))"
  have split: "?t = take (length ?t - 2) ?t @ Sent ''L1'' ''SIM'' ''tap'' # drop (length ?t - 1) ?t" by code_simp
  have kinds: "sent_kinds ?t = [''tap'']" by code_simp
  show ?thesis using no_action_without_lease [OF split] kinds unfolding Let_def by blast
qed

section \<open>The journal entry of an action\<close>

lemma silent_call: "keeps (\<lambda>s. sv_trace s = t) (call f)"
  by (auto simp: keeps_def call_def split: prod.splits)

lemma silent_put: "keeps (\<lambda>s. sv_trace s = t) (put_artifact V name data ev)"
  unfolding put_artifact_def by (intro silent_call kept)

text \<open>
  The parts of an entry that say whose action it was; what is added to it leaves the keys of the action, the
  status and the parameters alone.
\<close>

definition clean_extra :: "event \<Rightarrow> bool" where
  "clean_extra ev \<longleftrightarrow> (\<forall>k \<in> fst ` set (ev_Extra ev). k \<notin> {''action'', ''status'', ''params''})"

lemma clean_simps [simp]:
  "clean_extra (ev\<lparr>ev_Status := x1\<rparr>) = clean_extra ev" "clean_extra (ev\<lparr>ev_Error := x2\<rparr>) = clean_extra ev"
  "clean_extra (ev\<lparr>ev_AXBefore := x3\<rparr>) = clean_extra ev" "clean_extra (ev\<lparr>ev_AXAfter := x3\<rparr>) = clean_extra ev"
  "clean_extra (ev\<lparr>ev_Artifacts := x4\<rparr>) = clean_extra ev"
  "clean_extra (mk_event kind lid agent action params)"
  by (simp_all add: clean_extra_def mk_event_def)

lemma clean_pset: "k \<notin> {''action'', ''status'', ''params''} \<Longrightarrow> clean_extra ev \<Longrightarrow> clean_extra (ev\<lparr>ev_Extra := pset k v (ev_Extra ev)\<rparr>)"
  by (auto simp: clean_extra_def pset_def)

definition same_action :: "event \<Rightarrow> event \<Rightarrow> bool" where
  "same_action a b \<longleftrightarrow> ev_Kind a = ev_Kind b \<and> ev_LeaseID a = ev_LeaseID b \<and> ev_AgentID a = ev_AgentID b \<and>
     ev_Action a = ev_Action b \<and> ev_Params a = ev_Params b \<and> (clean_extra b \<longrightarrow> clean_extra a)"

lemma same_action_trans: "same_action a b \<Longrightarrow> same_action b c \<Longrightarrow> same_action a c"
  by (simp add: same_action_def)

lemma same_action_refl [simp]: "same_action a a"
  by (simp add: same_action_def)

lemma put_artifact_event: "put_artifact V name data ev s = (Some ev', s') \<Longrightarrow> same_action ev' ev \<and> ev_Status ev' = ev_Status ev \<and> sv_trace s' = sv_trace s"
  by (auto simp: put_artifact_def seq_def call_def ret_def same_action_def split: prod.splits option.splits)

lemma journalImage_event:
  "journalImage V result req ev base s = (Some (res, ev'), s') \<Longrightarrow> same_action ev' ev \<and> ev_Status ev' = ev_Status ev \<and> sv_trace s' = sv_trace s"
  by (auto simp: journalImage_def Let_def seq_def ret_def split: if_splits option.splits prod.splits dest: put_artifact_event)

lemma journalAudit_event:
  "journalAudit V result req ev s = (Some (res, ev'), s') \<Longrightarrow> same_action ev' ev \<and> ev_Status ev' = ev_Status ev \<and> sv_trace s' = sv_trace s"
  by (auto simp: journalAudit_def Let_def seq_def ret_def same_action_def split: if_splits option.splits prod.splits
      dest!: put_artifact_event journalImage_event)

lemma journalLogs_event:
  "journalLogs V result ev s = (Some ev', s') \<Longrightarrow> same_action ev' ev \<and> ev_Status ev' = ev_Status ev \<and> sv_trace s' = sv_trace s"
  by (auto simp: journalLogs_def ret_def split: if_splits dest: put_artifact_event)

lemma same_action_simps [simp]:
  "same_action (ev\<lparr>ev_Status := x1\<rparr>) b = same_action ev b" "same_action (ev\<lparr>ev_Error := x2\<rparr>) b = same_action ev b"
  "same_action (ev\<lparr>ev_AXBefore := x3\<rparr>) b = same_action ev b" "same_action (ev\<lparr>ev_AXAfter := x3\<rparr>) b = same_action ev b"
  by (simp_all add: same_action_def)

lemma same_action_pset: "k \<notin> {''action'', ''status'', ''params''} \<Longrightarrow> same_action (ev\<lparr>ev_Extra := pset k v (ev_Extra ev)\<rparr>) ev"
  using clean_pset by (simp add: same_action_def)

lemma failure_event_event:
  assumes "failure_event V err udid detail ev s = (Some ev', s')"
  shows "same_action ev' ev \<and> ev_Status ev' = ''error'' \<and> sv_trace s' = sv_trace s"
proof -
  define ev1 where "ev1 = (if we_Code (WireError err) = ''target_not_booted''
                then ev\<lparr>ev_Extra := [(''udid'', JStr udid), (''detail'', JStr (v_render V detail))]\<rparr> else ev)"
  have s1: "same_action ev1 ev" by (simp add: ev1_def same_action_def clean_extra_def)
  obtain ev2 where m: "(case ae_escalation err of
             None \<Rightarrow> ret ev1
           | Some (bdl, png) \<Rightarrow>
               let ev = ev1\<lparr>ev_Extra := pset ''escalation'' bdl (ev_Extra ev1)\<rparr> in
               if bd_journal (v_build V) \<and> png \<noteq> [] then put_artifact V ''escalation.png'' png ev else ret ev) s = (Some ev2, s')"
    and e: "ev' = failed_event (ae_text err) ev2"
    using assms by (auto simp: failure_event_def Let_def seq_def ret_def ev1_def split: prod.splits option.splits)
  have "same_action ev2 ev1 \<and> sv_trace s' = sv_trace s"
  proof (cases "ae_escalation err")
    case None
    then show ?thesis using m by (simp add: ret_def)
  next
    case (Some bp)
    obtain bdl png where bp: "bp = (bdl, png)" by (cases bp)
    have x: "same_action (ev1\<lparr>ev_Extra := pset ''escalation'' bdl (ev_Extra ev1)\<rparr>) ev1" by (rule same_action_pset) simp
    show ?thesis
    proof (cases "bd_journal (v_build V) \<and> png \<noteq> []")
      case True
      then have "put_artifact V ''escalation.png'' png (ev1\<lparr>ev_Extra := pset ''escalation'' bdl (ev_Extra ev1)\<rparr>) s = (Some ev2, s')"
        using m Some bp by (simp add: Let_def)
      then show ?thesis using put_artifact_event same_action_trans x by blast
    next
      case False
      then have "ev2 = ev1\<lparr>ev_Extra := pset ''escalation'' bdl (ev_Extra ev1)\<rparr> \<and> s' = s" using m Some bp by (auto simp: Let_def ret_def)
      then show ?thesis using x by simp
    qed
  qed
  then show ?thesis using s1 e same_action_trans by (auto simp: failed_event_def)
qed

lemma lift_hashes_event: "same_action (lift_hashes r ev) ev \<and> ev_Status (lift_hashes r ev) = ev_Status ev"
  by (simp add: lift_hashes_def Let_def)

lemma lift_extra_event: "same_action (lift_extra r ev) ev \<and> ev_Status (lift_extra r ev) = ev_Status ev"
proof -
  have "same_action (fold (\<lambda>k ev. case map_of r k of Some v \<Rightarrow> ev\<lparr>ev_Extra := pset k v (ev_Extra ev)\<rparr> | None \<Rightarrow> ev) ks ev) ev \<and>
      ev_Status (fold (\<lambda>k ev. case map_of r k of Some v \<Rightarrow> ev\<lparr>ev_Extra := pset k v (ev_Extra ev)\<rparr> | None \<Rightarrow> ev) ks ev) = ev_Status ev"
    if "set ks \<inter> {''action'', ''status'', ''params''} = {}" for ks
    using that
  proof (induction ks arbitrary: ev)
    case (Cons k ks)
    show ?case
    proof (cases "map_of r k")
      case (Some v)
      have "same_action (ev\<lparr>ev_Extra := pset k v (ev_Extra ev)\<rparr>) ev" using Cons.prems by (intro same_action_pset) auto
      then show ?thesis using Cons.IH [of "ev\<lparr>ev_Extra := pset k v (ev_Extra ev)\<rparr>"] Cons.prems Some same_action_trans by auto
    qed (use Cons in auto)
  qed simp
  moreover have "set journalExtraKeys \<inter> {''action'', ''status'', ''params''} = {}" by (simp add: journalExtraKeys_def)
  ultimately show ?thesis by (simp add: lift_extra_def)
qed

lemma record_ref_trace: "record_ref V ev s = (Some ref, s') \<Longrightarrow> sv_trace s' = Journaled ev # sv_trace s"
  by (auto simp: record_ref_def seq_def emit_event_def update_def call_def split: prod.splits option.splits)

lemma record_ev_trace: "record_ev V ev s = (Some u, s') \<Longrightarrow> sv_trace s' = Journaled ev # sv_trace s"
  by (auto simp: record_ev_def seq_def ret_def split: prod.splits option.splits dest: record_ref_trace)

lemma seq_Some: "seq m k s = (Some y, s') \<longleftrightarrow> (\<exists>x s1. m s = (Some x, s1) \<and> k x s1 = (Some y, s'))"
  by (auto simp: seq_def split: prod.splits option.splits)

lemma dispatch_failed_trace:
  assumes "dispatch_failed V l ev err s = (Some r, s')"
  shows "\<exists>e ev'. r = Inl e \<and> sv_trace s' = Journaled ev' # sv_trace s \<and> same_action ev' ev \<and> ev_Status ev' = ''error''"
  using assms
  by (auto simp: dispatch_failed_def seq_Some gets_def ret_def dest!: failure_event_event record_ev_trace)

lemma dispatch_done_trace:
  assumes "dispatch_done V kind req ev res s = (Some r, s')"
  shows "\<exists>res' ev'. r = Inr res' \<and> sv_trace s' = Journaled ev' # sv_trace s \<and> same_action ev' ev \<and> ev_Status ev' = ev_Status ev"
proof -
  obtain result ev1 s1 ev2 s2 ref where
    st: "(if kind = ''screenshot'' then journalImage V (az_Result res) req (lift_hashes (az_Result res) ev) ''screenshot''
          else if kind = ''audit'' then journalAudit V (az_Result res) req (lift_hashes (az_Result res) ev)
          else ret (az_Result res, lift_hashes (az_Result res) ev)) s = (Some (result, ev1), s1)"
    and l: "journalLogs V result ev1 s1 = (Some ev2, s2)"
    and r: "record_ref V (lift_extra result ev2) s2 = (Some ref, s')" and eq: "\<exists>res'. r = Inr res'"
    using assms by (auto simp: dispatch_done_def seq_Some ret_def split: prod.splits)
  have "same_action ev1 (lift_hashes (az_Result res) ev) \<and> ev_Status ev1 = ev_Status (lift_hashes (az_Result res) ev) \<and> sv_trace s1 = sv_trace s"
    using st by (auto simp: ret_def split: if_splits dest: journalImage_event journalAudit_event)
  then have "same_action (lift_extra result ev2) ev \<and> ev_Status (lift_extra result ev2) = ev_Status ev \<and> sv_trace s2 = sv_trace s"
    using journalLogs_event [OF l] lift_extra_event [of result ev2] lift_hashes_event [of "az_Result res" ev]
    by (auto simp: same_action_def)
  then show ?thesis using record_ref_trace [OF r] eq by auto
qed

text \<open>What an action that returns leaves in the trace.\<close>

lemma dispatch_trace:
  assumes "dispatchAction V lid kind req s = (Some r, s')"
  obtains (unasked) e where "r = Inl e" "sv_trace s' = sv_trace s"
  | (refused) e got where "r = Inl e" "action_guard kind got = Inl e" "sv_trace s' = Saw lid got # sv_trace s"
  | (acted) l ev where "may_act l kind"
      "sv_trace s' = Journaled ev # Sent (l_ID l) (l_TargetUDID l) kind # Saw lid (Inr l) # sv_trace s"
      "same_action ev (mk_event ''action'' (l_ID l) (l_AgentID l) kind (journalParams req))"
      "ev_Status ev = ''error'' \<longleftrightarrow> (\<exists>e. r = Inl e)" "ev_Status ev = ''ok'' \<longleftrightarrow> (\<exists>res. r = Inr res)"
proof (cases "bd_actions (v_build V) \<and> kind \<noteq> []")
  case False
  then show ?thesis using assms unasked by (auto simp: dispatchAction_def ret_def split: if_splits)
next
  case True
  then obtain got s1 where g: "leases_Get V lid s = (Some got, s1)" and
    k: "(case action_guard kind got of Inl e \<Rightarrow> ret (Inl e)
       | Inr l \<Rightarrow> let ev = mk_event ''action'' (l_ID l) (l_AgentID l) kind (journalParams req) in
           seq (backend_dispatch V l kind req) (\<lambda>r. case r of
             Inl err \<Rightarrow> dispatch_failed V l ev err | Inr res \<Rightarrow> dispatch_done V kind req ev res)) s1 = (Some r, s')"
    using assms by (auto simp: dispatchAction_def seq_Some)
  have t: "sv_trace s1 = Saw lid got # sv_trace s"
    using g by (auto simp: leases_Get_def seq_Some call_def emit_event_def update_def ret_def split: prod.splits)
  show ?thesis
  proof (cases "action_guard kind got")
    case (Inl e)
    then show ?thesis using k t refused by (auto simp: ret_def)
  next
    case (Inr l)
    let ?ev = "mk_event ''action'' (l_ID l) (l_AgentID l) kind (journalParams req)"
    have gl: "got = Inr l" "may_act l kind" using action_guard_may_act [OF Inr] by blast+
    obtain a s2 where b: "backend_dispatch V l kind req s1 = (Some a, s2)"
      and c: "(case a of Inl err \<Rightarrow> dispatch_failed V l ?ev err | Inr res \<Rightarrow> dispatch_done V kind req ?ev res) s2 = (Some r, s')"
      using k Inr by (auto simp: Let_def seq_Some)
    have t2: "sv_trace s2 = Sent (l_ID l) (l_TargetUDID l) kind # Saw lid (Inr l) # sv_trace s"
      using b t gl(1) by (auto simp: backend_dispatch_def seq_Some call_def emit_event_def update_def split: prod.splits)
    show ?thesis
    proof (cases a)
      case (Inl err)
      then show ?thesis using dispatch_failed_trace [of V l ?ev err s2 r s'] c t2 gl(2) acted by auto
    next
      case (Inr res)
      then show ?thesis using dispatch_done_trace [of V kind req ?ev res s2 r s'] c t2 gl(2) acted
        by (auto simp: mk_event_def)
    qed
  qed
qed

text \<open>
  C17. Every action is journaled once. When a dispatch returns, it either refused the action, with
  an error, nothing sent and nothing journaled, or it handed the action to the backend once and then
  recorded exactly one entry: of the lease, its agent, the kind and the parameters without the template's
  data, with status ok or error as the dispatch answered.
\<close>

theorem action_journaled:
  assumes "dispatchAction V lid kind req s = (Some r, s')"
  shows "\<exists>new. sv_trace s' = new @ sv_trace s \<and>
    ((\<exists>e. r = Inl e) \<and> (\<forall>e \<in> set new. \<exists>got. e = Saw lid got) \<or>
     (\<exists>ev l. new = [Journaled ev, Sent (l_ID l) (l_TargetUDID l) kind, Saw lid (Inr l)] \<and> ev_Kind ev = ''action'' \<and>
        ev_LeaseID ev = l_ID l \<and> ev_AgentID ev = l_AgentID l \<and> ev_Action ev = kind \<and> ev_Params ev = journalParams req \<and>
        ev_Status ev = (case r of Inl e \<Rightarrow> ''error'' | Inr res \<Rightarrow> ''ok'')))"
  using assms
proof (cases rule: dispatch_trace)
  case (unasked e)
  then show ?thesis by (intro exI [of _ "[]"]) simp
next
  case (refused e got)
  then show ?thesis by (intro exI [of _ "[Saw lid got]"]) simp
next
  case (acted l ev)
  then show ?thesis
    by (intro exI [of _ "[Journaled ev, Sent (l_ID l) (l_TargetUDID l) kind, Saw lid (Inr l)]"])
      (cases r; simp add: same_action_def mk_event_def)
qed

theorem action_journaled_witness:
  "\<exists>new. sv_trace (snd (dispatchAction desk_services ''L1'' ''tap'' [] (desk_server []))) = new \<and>
     (\<exists>ev l. new = [Journaled ev, Sent (l_ID l) (l_TargetUDID l) ''tap'', Saw ''L1'' (Inr l)] \<and> ev_Action ev = ''tap'' \<and> ev_Status ev = ''ok'')"
proof -
  let ?d = "dispatchAction desk_services ''L1'' ''tap'' [] (desk_server [])"
  have r: "fst ?d \<noteq> None" "sv_trace (desk_server []) = []" by code_simp+
  then obtain x where x: "?d = (Some x, snd ?d)" by (cases ?d) auto
  have ok: "\<exists>res. x = Inr res"
  proof -
    have "(case fst ?d of Some (Inr res) \<Rightarrow> True | _ \<Rightarrow> False)" by code_simp
    then have "(case Some x of Some (Inr res) \<Rightarrow> True | _ \<Rightarrow> False)" using x by (metis fst_conv)
    then show ?thesis by (cases x) auto
  qed
  show ?thesis using action_journaled [OF x] r(2) ok by auto
qed

end
