(* ===== verification/Mz_RunSteps.thy ===== *)
theory Mz_RunSteps
  imports Mz_RunProps
begin

text \<open>
  The steps of a run: which are executed, which skipped, what their results record, and when the run
  passes.
\<close>

section \<open>What leaves the run alone\<close>

interpretation h: dispatch_inv "\<lambda>s :: 'w server. sv_run s = r"
  by unfold_locales simp_all

interpretation h: lease_inv "\<lambda>s :: 'w server. sv_run s = r"
  by unfold_locales simp_all

lemma same_run:
  assumes "\<And>r. keeps (\<lambda>s. sv_run s = r) m" "m s = (x, s')"
  shows "sv_run s' = sv_run s"
  using keepsD [OF assms(1) refl assms(2)] .

lemma keeps_run_emit: "keeps (\<lambda>s. sv_run s = r) (emit_event e)"
  by (simp add: keeps_def emit_event_def update_def)

section \<open>One step\<close>

definition failing :: "bool \<Rightarrow> step_result \<Rightarrow> bool" where
  "failing strict r \<longleftrightarrow> sr_Status r = StepError \<or> strict \<and> sr_Drifted r"

text \<open>The entry a step adds to the results and how it moves the verdict of the loop.\<close>

definition step_entry :: "bool \<Rightarrow> nat \<Rightarrow> run_step \<Rightarrow> progress \<Rightarrow> progress \<Rightarrow> step_result \<Rightarrow> bool" where
  "step_entry strict i st pg pg' res \<longleftrightarrow>
     sr_Index res = i \<and> sr_Name res = st_Name st \<and> sr_Action res = st_Action st \<and>
     (sr_Status res = StepSkipped \<longleftrightarrow> pg_halted pg \<and> \<not> st_ContinueOnError st) \<and>
     (sr_Drifted res \<longrightarrow> sr_Status res = StepOK \<and> st_Expect st \<noteq> None) \<and>
     (sr_Status res = StepError \<longleftrightarrow> sr_Error res \<noteq> None) \<and>
     (pg_firstErr pg' = None \<longleftrightarrow> pg_firstErr pg = None \<and> \<not> failing strict res) \<and>
     (pg_halted pg' \<longleftrightarrow> pg_halted pg \<or> failing strict res \<and> \<not> st_ContinueOnError st)"

lemma drift_result_entry:
  assumes "drift_result spec i st c (ok_result ar res0) pg = (res, pg')" "st_Expect st \<noteq> None"
    and "res0 = (new_result i st)\<lparr>sr_DurationMS := d\<rparr>" "\<not> (pg_halted pg \<and> \<not> st_ContinueOnError st)"
  shows "step_entry (sp_StrictDrift spec) i st pg pg' res"
  using assms
  by (auto simp: drift_result_def step_entry_def failing_def step_failed_def ok_result_def new_result_def
      split: sum.splits list.splits if_splits option.splits)

lemma add_result_run: "add_result res s = (Some u, s') \<Longrightarrow> sv_run s' = (sv_run s)\<lparr>rn_Steps := rn_Steps (sv_run s) @ [res]\<rparr>"
  by (auto simp: add_result_def upd_run_def update_def)

lemma check_drift_entry:
  assumes "check_drift V spec l i st (ok_result ar ((new_result i st)\<lparr>sr_DurationMS := d\<rparr>)) pg s = (Some (res, pg'), s')"
    and "\<not> (pg_halted pg \<and> \<not> st_ContinueOnError st)"
  shows "step_entry (sp_StrictDrift spec) i st pg pg' res \<and> sv_run s' = sv_run s"
proof
  show "sv_run s' = sv_run s" using same_run [OF h.keeps_check_drift assms(1)] .
  show "step_entry (sp_StrictDrift spec) i st pg pg' res"
  proof (cases "st_Expect st")
    case None
    then show ?thesis
      using assms by (auto simp: check_drift_def ret_def step_entry_def failing_def ok_result_def new_result_def)
  next
    case (Some e)
    then obtain c where "drift_result spec i st c (ok_result ar ((new_result i st)\<lparr>sr_DurationMS := d\<rparr>)) pg = (res, pg')"
      using assms(1) by (auto simp: check_drift_def seq_Some ret_def)
    then show ?thesis using drift_result_entry Some assms(2) by blast
  qed
qed

lemma execute_step_entry:
  assumes "execute_step V spec stepTO l i st pg s = (Some pg', s')"
    and "\<not> (pg_halted pg \<and> \<not> st_ContinueOnError st)"
  shows "\<exists>res. step_entry (sp_StrictDrift spec) i st pg pg' res \<and> sv_run s' = (sv_run s)\<lparr>rn_Steps := rn_Steps (sv_run s) @ [res]\<rparr>"
proof -
  obtain s1 t0 s2 r s3 t1 s4 where
    a: "emit_event (StepStarted i (step_budget stepTO st)) s = (Some (), s1)" "clock V s1 = (Some t0, s2)"
       "step_action V l st s2 = (Some r, s3)" "clock V s3 = (Some t1, s4)"
    and k: "(let res = (new_result i st)\<lparr>sr_DurationMS := (t1 - t0) div 1000000\<rparr> in case r of
        Inl e \<Rightarrow> seq (add_result (res\<lparr>sr_Status := StepError, sr_Error := Some e\<rparr>)) (\<lambda>_. ret (step_failed st (prefixWireError (step_label i st) e) pg))
      | Inr ar \<Rightarrow> seq (check_drift V spec l i st (ok_result ar res) pg) (\<lambda>(res, pg).
          seq (when_do (sp_RecordExpectations spec \<and> mutatingStepKind (st_Action st) \<and> bd_journal (v_build V))
                 (recordStepExpectation V l i (st_Action st))) (\<lambda>_. seq (add_result res) (\<lambda>_. ret pg)))) s4 = (Some pg', s')"
    using assms(1) by (auto simp: execute_step_def seq_Some)
  have run4: "sv_run s4 = sv_run s"
    using same_run [OF keeps_run_emit a(1)] same_run [OF h.keeps_clock a(2)] same_run [OF h.keeps_step_action a(3)]
      same_run [OF h.keeps_clock a(4)] by simp
  show ?thesis
  proof (cases r)
    case (Inl e)
    then have "pg' = step_failed st (prefixWireError (step_label i st) e) pg"
      and "sv_run s' = (sv_run s4)\<lparr>rn_Steps := rn_Steps (sv_run s4) @
        [(new_result i st)\<lparr>sr_DurationMS := (t1 - t0) div 1000000, sr_Status := StepError, sr_Error := Some e\<rparr>]\<rparr>"
      using k by (auto simp: Let_def seq_Some ret_def dest: add_result_run)
    then show ?thesis using assms(2) run4
      by (intro exI [of _ "(new_result i st)\<lparr>sr_DurationMS := (t1 - t0) div 1000000, sr_Status := StepError, sr_Error := Some e\<rparr>"])
        (auto simp: step_entry_def failing_def step_failed_def new_result_def split: option.splits)
  next
    case (Inr ar)
    then obtain res s5 s6 where
      c: "check_drift V spec l i st (ok_result ar ((new_result i st)\<lparr>sr_DurationMS := (t1 - t0) div 1000000\<rparr>)) pg s4 = (Some (res, pg'), s5)"
      and w: "when_do (sp_RecordExpectations spec \<and> mutatingStepKind (st_Action st) \<and> bd_journal (v_build V))
                 (recordStepExpectation V l i (st_Action st)) s5 = (Some (), s6)"
      and ad: "add_result res s6 = (Some (), s')"
      using k by (auto simp: Let_def seq_Some ret_def)
    have "step_entry (sp_StrictDrift spec) i st pg pg' res" "sv_run s5 = sv_run s4"
      using check_drift_entry [OF c assms(2)] by blast+
    moreover have "sv_run s6 = sv_run s5" using same_run [OF keeps_when [OF h.keeps_recordStepExpectation] w] .
    ultimately show ?thesis using add_result_run [OF ad] run4 by auto
  qed
qed

section \<open>The loop\<close>

fun step_log :: "bool \<Rightarrow> nat \<Rightarrow> progress \<Rightarrow> progress \<Rightarrow> run_step list \<Rightarrow> step_result list \<Rightarrow> bool" where
  "step_log strict i pg pg' [] rs \<longleftrightarrow> rs = [] \<and> pg' = pg"
| "step_log strict i pg pg' (st # sts) [] \<longleftrightarrow> False"
| "step_log strict i pg pg' (st # sts) (r # rs) \<longleftrightarrow> (\<exists>pg1. step_entry strict i st pg pg1 r \<and> step_log strict (Suc i) pg1 pg' sts rs)"

lemma run_steps_log:
  assumes "run_steps V spec stepTO l i sts pg s = (Some pg', s')"
  shows "\<exists>rs. step_log (sp_StrictDrift spec) i pg pg' sts rs \<and> sv_run s' = (sv_run s)\<lparr>rn_Steps := rn_Steps (sv_run s) @ rs\<rparr>"
  using assms
proof (induction sts arbitrary: i pg s)
  case Nil
  then show ?case by (auto simp: ret_def intro: exI [of _ "[]"])
next
  case (Cons st sts)
  obtain pg1 s1 where
    a: "(if pg_halted pg \<and> \<not> st_ContinueOnError st
         then seq (add_result ((new_result i st)\<lparr>sr_Status := StepSkipped\<rparr>)) (\<lambda>_. ret pg)
         else execute_step V spec stepTO l i st pg) s = (Some pg1, s1)"
    and b: "run_steps V spec stepTO l (Suc i) sts pg1 s1 = (Some pg', s')"
    using Cons.prems by (auto simp: seq_Some)
  have "\<exists>res. step_entry (sp_StrictDrift spec) i st pg pg1 res \<and> sv_run s1 = (sv_run s)\<lparr>rn_Steps := rn_Steps (sv_run s) @ [res]\<rparr>"
  proof (cases "pg_halted pg \<and> \<not> st_ContinueOnError st")
    case True
    then have "pg1 = pg" "sv_run s1 = (sv_run s)\<lparr>rn_Steps := rn_Steps (sv_run s) @ [(new_result i st)\<lparr>sr_Status := StepSkipped\<rparr>]\<rparr>"
      using a by (auto simp: seq_Some ret_def dest: add_result_run)
    then show ?thesis using True
      by (intro exI [of _ "(new_result i st)\<lparr>sr_Status := StepSkipped\<rparr>"]) (auto simp: step_entry_def failing_def new_result_def)
  next
    case False
    then have e: "execute_step V spec stepTO l i st pg s = (Some pg1, s1)" using a by (simp only: False if_False)
    show ?thesis using execute_step_entry [OF e False] .
  qed
  then obtain res where r: "step_entry (sp_StrictDrift spec) i st pg pg1 res" "sv_run s1 = (sv_run s)\<lparr>rn_Steps := rn_Steps (sv_run s) @ [res]\<rparr>"
    by blast
  obtain rs where "step_log (sp_StrictDrift spec) (Suc i) pg1 pg' sts rs" "sv_run s' = (sv_run s1)\<lparr>rn_Steps := rn_Steps (sv_run s1) @ rs\<rparr>"
    using Cons.IH [OF b] by blast
  then show ?case using r by (intro exI [of _ "res # rs"]) auto
qed

lemma step_log_length: "step_log strict i pg pg' sts rs \<Longrightarrow> length rs = length sts"
  by (induction strict i pg pg' sts rs rule: step_log.induct) auto

lemma step_log_nth:
  assumes "step_log strict i pg pg' sts rs" "k < length sts"
  shows "sr_Index (rs ! k) = i + k \<and> sr_Name (rs ! k) = st_Name (sts ! k) \<and> sr_Action (rs ! k) = st_Action (sts ! k) \<and>
    (sr_Status (rs ! k) = StepSkipped \<longleftrightarrow> \<not> st_ContinueOnError (sts ! k) \<and>
       (pg_halted pg \<or> (\<exists>j < k. failing strict (rs ! j) \<and> \<not> st_ContinueOnError (sts ! j))))"
  using assms
proof (induction strict i pg pg' sts rs arbitrary: k rule: step_log.induct)
  case (3 strict i pg pg' st sts r rs)
  obtain pg1 where e: "step_entry strict i st pg pg1 r" "step_log strict (Suc i) pg1 pg' sts rs" using "3.prems"(1) by auto
  show ?case
  proof (cases k)
    case 0
    then show ?thesis using e(1) by (auto simp: step_entry_def)
  next
    case (Suc m)
    have ex: "(\<exists>j < Suc m. failing strict ((r # rs) ! j) \<and> \<not> st_ContinueOnError ((st # sts) ! j))
        \<longleftrightarrow> failing strict r \<and> \<not> st_ContinueOnError st \<or> (\<exists>j < m. failing strict (rs ! j) \<and> \<not> st_ContinueOnError (sts ! j))"
      by (auto simp: less_Suc_eq_0_disj)
    have "pg_halted pg1 \<longleftrightarrow> pg_halted pg \<or> failing strict r \<and> \<not> st_ContinueOnError st" using e(1) by (simp add: step_entry_def)
    then show ?thesis using "3.IH" [OF e(2), of m] "3.prems"(2) Suc ex by auto
  qed
qed auto

lemma step_log_first:
  "step_log strict i pg pg' sts rs \<Longrightarrow> pg_firstErr pg' = None \<longleftrightarrow> pg_firstErr pg = None \<and> (\<forall>r \<in> set rs. \<not> failing strict r)"
  by (induction strict i pg pg' sts rs rule: step_log.induct) (auto simp: step_entry_def)

text \<open>
  C12. The steps of a run. When the loop over the steps returns, it has added one result per step, in
  order, under the step's index, name and action. A step was skipped exactly when it does not continue on
  errors and an earlier step that does not either had failed: with an error, or by drifting under strict
  drift. The loop reports an error exactly when some step failed.
\<close>

theorem run_steps_exact:
  assumes "run_steps V spec stepTO l 0 sts \<lparr>pg_firstErr = None, pg_halted = False\<rparr> s = (Some pg, s')"
  shows "\<exists>rs. rn_Steps (sv_run s') = rn_Steps (sv_run s) @ rs \<and> length rs = length sts \<and>
    (\<forall>k < length sts. sr_Index (rs ! k) = k \<and> sr_Name (rs ! k) = st_Name (sts ! k) \<and> sr_Action (rs ! k) = st_Action (sts ! k) \<and>
       (sr_Status (rs ! k) = StepSkipped \<longleftrightarrow> \<not> st_ContinueOnError (sts ! k) \<and>
          (\<exists>j < k. failing (sp_StrictDrift spec) (rs ! j) \<and> \<not> st_ContinueOnError (sts ! j)))) \<and>
    (pg_firstErr pg \<noteq> None \<longleftrightarrow> (\<exists>r \<in> set rs. failing (sp_StrictDrift spec) r))"
proof -
  obtain rs where "step_log (sp_StrictDrift spec) 0 \<lparr>pg_firstErr = None, pg_halted = False\<rparr> pg sts rs"
    and "sv_run s' = (sv_run s)\<lparr>rn_Steps := rn_Steps (sv_run s) @ rs\<rparr>"
    using run_steps_log [OF assms] by blast
  then show ?thesis using step_log_length step_log_nth [of _ 0 _ pg sts rs] step_log_first
    by (intro exI [of _ rs]) auto
qed

text \<open>A step that fails, one skipped after it, and one that continues on errors.\<close>

definition three_steps :: "run_step list" where
  "three_steps = [plain_step ''swipe'', plain_step ''tap'', (plain_step ''tap'')\<lparr>st_ContinueOnError := True\<rparr>]"

theorem run_steps_exact_witness:
  "\<exists>pg s'. run_steps desk_services (plain_spec three_steps) (60 * Second) (desk_lease ''L1'' (sv_world (desk_server []))) 0 three_steps
       \<lparr>pg_firstErr = None, pg_halted = False\<rparr> (desk_server three_steps) = (Some pg, s') \<and>
     map sr_Status (rn_Steps (sv_run s')) = [StepError, StepSkipped, StepOK] \<and> sr_Index (rn_Steps (sv_run s') ! 2) = 2 \<and>
     pg_firstErr pg \<noteq> None"
proof -
  let ?run = "run_steps desk_services (plain_spec three_steps) (60 * Second) (desk_lease ''L1'' (sv_world (desk_server []))) 0 three_steps
       \<lparr>pg_firstErr = None, pg_halted = False\<rparr> (desk_server three_steps)"
  have f: "(case fst ?run of Some pg \<Rightarrow> pg_firstErr pg \<noteq> None | None \<Rightarrow> False)" by code_simp
  obtain pg s' where d: "?run = (Some pg, s')" using f by (cases ?run) (auto split: option.splits)
  have st: "map sr_Status (rn_Steps (sv_run (snd ?run))) = [StepError, StepSkipped, StepOK]" by code_simp
  have e: "rn_Steps (sv_run (desk_server three_steps)) = []" by code_simp
  obtain rs where rs: "rn_Steps (sv_run s') = rs" "length rs = length three_steps" "\<forall>k < length three_steps. sr_Index (rs ! k) = k"
    using run_steps_exact [OF d] e by auto
  have n: "length three_steps = 3" by (simp add: three_steps_def)
  have "sr_Index (rs ! 2) = 2" using rs(3) n by simp
  then show ?thesis using d st f rs(1) by (intro exI [of _ pg] exI [of _ s']) (simp only: fst_conv snd_conv option.case, simp)
qed

end
