(* ===== verification/Mz_RunLife.thy ===== *)
theory Mz_RunLife
  imports Mz_RunSteps
begin

text \<open>
  The life of a run: it always reaches a terminal state, it gives back every lease it was given, no
  action is sent after that, and a run that passed executed every step.
\<close>

section \<open>The lease desk\<close>

text \<open>
  What the engine relies on in the lease manager: looking up and releasing a lease do not panic, and
  the lease looked up is the one asked for. The manager's methods do so in every state it reaches.
\<close>

definition steady_desk :: "'w services \<Rightarrow> bool" where
  "steady_desk V \<longleftrightarrow>
     (\<forall>lid w. fst (v_Get V lid w) \<noteq> None \<and> fst (v_Release V lid w) \<noteq> None) \<and>
     (\<forall>lid w c. fst (v_Get V lid w) = Some (Inr c) \<longrightarrow> l_ID c = lid)"

text \<open>A lease is over in a trace: released, or looked up and found gone or terminal.\<close>

definition over :: "string \<Rightarrow> server_event list \<Rightarrow> bool" where
  "over lid tr \<longleftrightarrow>
     (\<exists>r. ReleaseSent lid r \<in> set tr) \<or> (\<exists>e. Saw lid (Inl e) \<in> set tr) \<or>
     (\<exists>c. Saw lid (Inr c) \<in> set tr \<and> l_State c \<noteq> LeaseActive \<and> l_State c \<noteq> LeaseQueued)"

lemma over_mono: "over lid tr \<Longrightarrow> set tr \<subseteq> set tr' \<Longrightarrow> over lid tr'"
  by (auto simp: over_def)

section \<open>Invariants of the trace\<close>

interpretation mono: execute_inv "\<lambda>s :: 'w server. E \<subseteq> set (sv_trace s)"
  by unfold_locales auto

text \<open>The entries that create or end leases.\<close>

fun is_lease_event :: "server_event \<Rightarrow> bool" where
  "is_lease_event (Acquired l) = True"
| "is_lease_event (ReleaseSent lid r) = True"
| "is_lease_event e = False"

definition lease_log :: "server_event list \<Rightarrow> server_event list" where
  "lease_log = filter is_lease_event"

lemma lease_log_plain: "plain_event e \<or> touch_event e \<Longrightarrow> lease_log (e # tr) = lease_log tr"
  by (cases e) (auto simp: lease_log_def)

lemma lease_log_simps [simp]:
  "lease_log [] = []"
  "lease_log (Sent lid udid kind # tr) = lease_log tr"
  "lease_log (Acquired l # tr) = Acquired l # lease_log tr"
  "lease_log (ReleaseSent lid r # tr) = ReleaseSent lid r # lease_log tr"
  "lease_log (Saw lid g # tr) = lease_log tr"
  "lease_log (ResetDropped lid # tr) = lease_log tr"
  by (simp_all add: lease_log_def)

definition acquired_log :: "server_event list \<Rightarrow> server_event list" where
  "acquired_log = filter (\<lambda>e. case e of Acquired _ \<Rightarrow> True | _ \<Rightarrow> False)"

lemma acquired_log_plain: "plain_event e \<or> touch_event e \<Longrightarrow> acquired_log (e # tr) = acquired_log tr"
  by (cases e) (auto simp: acquired_log_def)

interpretation ac: give_back_inv "\<lambda>s :: 'w server. acquired_log (sv_trace s) = L"
  by unfold_locales (simp_all add: acquired_log_plain, simp add: acquired_log_def)

interpretation ll: run_inv "\<lambda>s :: 'w server. lease_log (sv_trace s) = L"
  by unfold_locales (simp_all add: lease_log_plain)

lemma in_lease_log: "Acquired l \<in> set tr \<longleftrightarrow> Acquired l \<in> set (lease_log tr)"
    "ReleaseSent lid r \<in> set tr \<longleftrightarrow> ReleaseSent lid r \<in> set (lease_log tr)"
  by (simp_all add: lease_log_def)

lemma none_acquired: "lease_log tr = [] \<Longrightarrow> Acquired l \<notin> set tr"
  by (simp add: in_lease_log(1) del: lease_log_simps)

lemma grows:
  assumes "\<And>E. keeps (\<lambda>s. E \<subseteq> set (sv_trace s)) m" "m s = (x, s')"
  shows "set (sv_trace s) \<subseteq> set (sv_trace s')"
  using keepsD [OF assms(1) order_refl assms(2)] .

lemma same_log:
  assumes "\<And>L. keeps (\<lambda>s. lease_log (sv_trace s) = L) m" "m s = (x, s')"
  shows "lease_log (sv_trace s') = lease_log (sv_trace s)"
  using keepsD [OF assms(1) refl assms(2)] .

lemma in_acquired_log: "Acquired l \<in> set tr \<longleftrightarrow> Acquired l \<in> set (acquired_log tr)"
  by (simp add: acquired_log_def)

lemma same_acquired:
  assumes "\<And>L. keeps (\<lambda>s. acquired_log (sv_trace s) = L) m" "m s = (x, s')"
  shows "Acquired l \<in> set (sv_trace s') \<longleftrightarrow> Acquired l \<in> set (sv_trace s)"
  using keepsD [OF assms(1) refl assms(2)] in_acquired_log by metis

text \<open>No action is sent once a lease was released.\<close>

definition no_release :: "server_event list \<Rightarrow> bool" where
  "no_release tr \<longleftrightarrow> (\<forall>e \<in> set tr. case e of ReleaseSent _ _ \<Rightarrow> False | _ \<Rightarrow> True)"

fun calm :: "server_event list \<Rightarrow> bool" where
  "calm [] = True"
| "calm (e # tr) = ((case e of Sent _ _ _ \<Rightarrow> no_release tr | _ \<Rightarrow> True) \<and> calm tr)"

lemma calm_plain: "plain_event e \<or> touch_event e \<Longrightarrow> calm (e # tr) = calm tr \<and> no_release (e # tr) = no_release tr"
  by (cases e) (auto simp: no_release_def)

lemma calm_split: "calm (a @ ReleaseSent lid r # b) \<Longrightarrow> Sent x y z \<notin> set a"
  by (induction a) (auto simp: no_release_def)

lemma no_release_log: "no_release tr \<longleftrightarrow> no_release (lease_log tr)"
proof -
  have "(case e of ReleaseSent _ _ \<Rightarrow> False | _ \<Rightarrow> True) \<or> is_lease_event e" for e by (cases e) auto
  then show ?thesis by (fastforce simp: no_release_def lease_log_def)
qed

declare calm.simps(2) [simp del]

lemma calm_simps [simp]:
  "calm (Acquired l # tr) = calm tr" "calm (ReleaseSent lid r # tr) = calm tr"
  "calm (Sent lid udid kind # tr) = (no_release tr \<and> calm tr)"
  by (simp_all add: calm.simps(2))

interpretation cl: acquire_inv "\<lambda>s :: 'w server. calm (sv_trace s)"
  by unfold_locales (simp_all add: calm_plain)

lemma no_release_Sent [simp]: "no_release (Sent lid udid kind # tr) = no_release tr"
  by (simp add: no_release_def)

interpretation cs: run_inv "\<lambda>s :: 'w server. calm (sv_trace s) \<and> no_release (sv_trace s)"
  by unfold_locales (simp_all add: calm_plain)

section \<open>Single calls\<close>

lemma Get_steady:
  assumes "steady_desk V"
  obtains got s' where "leases_Get V lid s = (Some got, s')" "sv_trace s' = Saw lid got # sv_trace s" "sv_run s' = sv_run s"
    "\<And>c. got = Inr c \<Longrightarrow> l_ID c = lid"
proof -
  have "fst (v_Get V lid (sv_world s)) \<noteq> None" using assms unfolding steady_desk_def by blast
  then obtain got where "fst (v_Get V lid (sv_world s)) = Some got" by blast
  then obtain w where g: "v_Get V lid (sv_world s) = (Some got, w)" by (metis prod.collapse)
  have "l_ID c = lid" if "got = Inr c" for c
    using assms g that unfolding steady_desk_def by (metis fst_conv)
  then show ?thesis using g that
    by (auto simp: leases_Get_def seq_def call_def emit_event_def update_def ret_def)
qed

lemma Release_steady:
  assumes "steady_desk V"
  obtains got s' where "leases_Release V lid s = (Some got, s')" "sv_trace s' = ReleaseSent lid got # sv_trace s"
proof -
  have "fst (v_Release V lid (sv_world s)) \<noteq> None" using assms unfolding steady_desk_def by blast
  then obtain got where "fst (v_Release V lid (sv_world s)) = Some got" by blast
  then obtain w where g: "v_Release V lid (sv_world s) = (Some got, w)" by (metis prod.collapse)
  then show ?thesis using that
    by (auto simp: leases_Release_def seq_def call_def emit_event_def update_def ret_def)
qed

lemma Release_trace: "leases_Release V lid s = (Some got, s') \<Longrightarrow> sv_trace s' = ReleaseSent lid got # sv_trace s"
  by (auto simp: leases_Release_def seq_Some call_def emit_event_def update_def ret_def split: prod.splits)

lemma call_trace: "call f s = (x, s') \<Longrightarrow> sv_trace s' = sv_trace s"
  by (auto simp: call_def split: prod.splits)

lemma refuse_trace:
  assumes "refuseDeviceResetGrant V l s = (Some b, s')"
  shows "if b then \<exists>r. ReleaseSent (l_ID l) r \<in> set (sv_trace s') else lease_log (sv_trace s') = lease_log (sv_trace s)"
proof -
  obtain on s1 where d: "call (v_devices V) s = (Some on, s1)"
    and k: "(if \<not> on \<or> \<not> wantsReset (l_Reset l) \<or> l_TargetUDID l = [] then ret False else
     seq (call (v_reg_Get V (l_TargetUDID l))) (\<lambda>t. case t of
        Inl _ \<Rightarrow> ret False
      | Inr t \<Rightarrow> if t_Kind t \<noteq> TargetDevice then ret False else
          seq (emit_event (ResetDropped (l_ID l))) (\<lambda>_. seq (call (v_DropReset V (l_ID l))) (\<lambda>_.
          seq (leases_Release V (l_ID l)) (\<lambda>_. ret True))))) s1 = (Some b, s')"
    using assms by (auto simp: refuseDeviceResetGrant_def seq_Some)
  show ?thesis
  proof (cases "\<not> on \<or> \<not> wantsReset (l_Reset l) \<or> l_TargetUDID l = []")
    case True
    then show ?thesis using k call_trace [OF d] by (auto simp: ret_def)
  next
    case False
    then obtain t s2 where g: "call (v_reg_Get V (l_TargetUDID l)) s1 = (Some t, s2)"
      and j: "(case t of Inl _ \<Rightarrow> ret False
      | Inr t \<Rightarrow> if t_Kind t \<noteq> TargetDevice then ret False else
          seq (emit_event (ResetDropped (l_ID l))) (\<lambda>_. seq (call (v_DropReset V (l_ID l))) (\<lambda>_.
          seq (leases_Release V (l_ID l)) (\<lambda>_. ret True)))) s2 = (Some b, s')"
      using k by (auto simp: seq_Some)
    have t2: "sv_trace s2 = sv_trace s" using call_trace [OF d] call_trace [OF g] by simp
    show ?thesis
    proof (cases t)
      case (Inl e)
      then show ?thesis using j t2 by (auto simp: ret_def)
    next
      case (Inr t')
      then show ?thesis using j t2 by (cases "t_Kind t'") (auto simp: ret_def seq_Some dest!: Release_trace)
    qed
  qed
qed

section \<open>Acquiring\<close>

lemma await_grant_outcome:
  assumes "steady_desk V" "await_grant V lid to n s = (Some x, s')"
  shows "case x of Inl e \<Rightarrow> over lid (sv_trace s') | Inr c \<Rightarrow> l_ID c = lid \<and> lease_log (sv_trace s') = lease_log (sv_trace s)"
  using assms(2)
proof (induction n arbitrary: s)
  case 0
  then obtain b s1 u s2 e where ab: "abandonQueuedLease V lid s1 = (Some u, s2)" and x: "x = Inl e" "s' = s2"
    by (auto simp: seq_Some ret_def)
  obtain got s3 where r: "leases_Release V lid s1 = (Some got, s3)" and y: "syncRunOpen V lid s3 = (Some u, s2)"
    using ab by (auto simp: abandonQueuedLease_def seq_Some)
  have "ReleaseSent lid got \<in> set (sv_trace s2)"
    using grows [OF mono.keeps_syncRunOpen y] Release_trace [OF r] by auto
  then show ?case using x by (auto simp: over_def)
next
  case (Suc n)
  obtain got s1 where g: "leases_Get V lid s = (Some got, s1)" "sv_trace s1 = Saw lid got # sv_trace s"
      "\<And>c. got = Inr c \<Longrightarrow> l_ID c = lid" using Get_steady [OF assms(1)] by metis
  show ?case
  proof (cases got)
    case (Inl e)
    then show ?thesis using Suc.prems g by (auto simp: seq_Some ret_def over_def)
  next
    case (Inr c)
    note k = Suc.prems [simplified, unfolded seq_Some g(1), simplified]
    show ?thesis
    proof (cases "l_State c")
      case LeaseQueued
      then have "await_grant V lid to n s1 = (Some x, s')" using k Inr by simp
      then show ?thesis using Suc.IH g(2) by (auto split: sum.splits)
    next
      case LeaseActive
      then obtain refused s2 where r: "refuseDeviceResetGrant V c s1 = (Some refused, s2)"
        and b: "(if refused then seq (syncRunOpen V (l_ID c)) (\<lambda>_. ret (Inl errDeviceReset))
               else seq (upd_run (\<lambda>r. r\<lparr>rn_TargetUDID := l_TargetUDID c\<rparr>)) (\<lambda>_. ret (Inr c))) s2 = (Some x, s')"
        using k Inr by (auto simp: seq_Some)
      show ?thesis
      proof (cases refused)
        case True
        then obtain u where y: "syncRunOpen V (l_ID c) s2 = (Some u, s')" and x: "x = Inl errDeviceReset"
          using b by (auto simp: seq_Some ret_def)
        have "over (l_ID c) (sv_trace s')"
          using over_mono [OF _ grows [OF mono.keeps_syncRunOpen y]] refuse_trace [OF r] True by (auto simp: over_def)
        then show ?thesis using x g(3) Inr by simp
      next
        case False
        then have "x = Inr c" "sv_trace s' = sv_trace s2" using b by (auto simp: seq_Some ret_def upd_run_def update_def)
        then show ?thesis using refuse_trace [OF r] False g(2,3) Inr by simp
      qed
    qed (use k Inr g(2) in \<open>auto simp: ret_def over_def intro!: exI [of _ c]\<close>)
  qed
qed

lemma seq_upd: "seq (upd_run f) k s = k () (s\<lparr>sv_run := f (sv_run s)\<rparr>)"
  by (simp add: seq_def upd_run_def update_def)

lemma Acquire_trace:
  "leases_Acquire V req s = (Some got, s') \<Longrightarrow>
   sv_trace s' = (case got of Inr l \<Rightarrow> [Acquired l] | Inl _ \<Rightarrow> []) @ sv_trace s"
  by (auto simp: leases_Acquire_def seq_Some call_def emit_event_def update_def ret_def split: prod.splits sum.splits)

lemma take_or_wait_outcome:
  assumes "steady_desk V" "take_or_wait V to l s = (Some x, s')" "lease_log (sv_trace s) = [Acquired l0]" "l_ID l0 = l_ID l"
  shows "case x of
      Inl e \<Rightarrow> \<forall>l'. Acquired l' \<in> set (sv_trace s') \<longrightarrow> over (l_ID l') (sv_trace s')
    | Inr c \<Rightarrow> lease_log (sv_trace s') = [Acquired l0] \<and> l_ID l0 = l_ID c"
proof (cases "l_State l = LeaseActive")
  case True
  then have "x = Inr l" "sv_trace s' = sv_trace s" using assms(2) by (auto simp: take_or_wait_def seq_Some ret_def upd_run_def update_def)
  then show ?thesis using assms(3,4) by simp
next
  case False
  then obtain n s1 where p: "call (v_polls V) s = (Some n, s1)" and w: "await_grant V (l_ID l) to n s1 = (Some x, s')"
    using assms(2) by (auto simp: take_or_wait_def seq_Some)
  have l1: "lease_log (sv_trace s1) = [Acquired l0]" using call_trace [OF p] assms(3) by simp
  show ?thesis
  proof (cases x)
    case (Inl e)
    have "l' = l0" if "Acquired l' \<in> set (sv_trace s')" for l'
    proof -
      have "Acquired l' \<in> set (lease_log (sv_trace s1))"
        using that same_acquired [OF ac.keeps_await_grant w] in_lease_log(1) by metis
      then show ?thesis using l1 by simp
    qed
    then show ?thesis using await_grant_outcome [OF assms(1) w] Inl assms(4) by auto
  next
    case (Inr c)
    then show ?thesis using await_grant_outcome [OF assms(1) w] l1 assms(4) by simp
  qed
qed

lemma run_created_outcome:
  assumes "steady_desk V" "run_created V runID req to l s = (Some x, s')" "lease_log (sv_trace s) = [Acquired l]"
  shows "case x of
      Inl e \<Rightarrow> \<forall>l'. Acquired l' \<in> set (sv_trace s') \<longrightarrow> over (l_ID l') (sv_trace s')
    | Inr c \<Rightarrow> lease_log (sv_trace s') = [Acquired l] \<and> l_ID l = l_ID c"
proof -
  define s1 where "s1 = s\<lparr>sv_run := (sv_run s)\<lparr>rn_LeaseID := l_ID l\<rparr>\<rparr>"
  have u: "sv_trace s1 = sv_trace s" by (simp add: s1_def)
  have "seq (refuseDeviceResetGrant V l) (\<lambda>refused.
     if refused then seq (syncRunOpen V (l_ID l)) (\<lambda>_. ret (Inl errDeviceReset))
     else seq (note_acquired V runID req l) (\<lambda>_. take_or_wait V to l)) s1 = (Some x, s')"
    using assms(2) by (simp add: run_created_def seq_upd s1_def)
  then obtain refused s2 where r: "refuseDeviceResetGrant V l s1 = (Some refused, s2)"
    and k: "(if refused then seq (syncRunOpen V (l_ID l)) (\<lambda>_. ret (Inl errDeviceReset))
             else seq (note_acquired V runID req l) (\<lambda>_. take_or_wait V to l)) s2 = (Some x, s')"
    by (auto simp: seq_Some)
  show ?thesis
  proof (cases refused)
    case True
    then obtain v where y: "syncRunOpen V (l_ID l) s2 = (Some v, s')" and x: "x = Inl errDeviceReset"
      using k by (auto simp: seq_Some ret_def)
    have "over (l_ID l) (sv_trace s')"
      using over_mono [OF _ grows [OF mono.keeps_syncRunOpen y]] refuse_trace [OF r] True by (auto simp: over_def)
    moreover have "l' = l" if "Acquired l' \<in> set (sv_trace s')" for l'
    proof -
      have "Acquired l' \<in> set (lease_log (sv_trace s1))"
        using that same_acquired [OF ac.keeps_syncRunOpen y] same_acquired [OF ac.keeps_refuseDeviceResetGrant r] in_lease_log(1) by metis
      then show ?thesis using u assms(3) by simp
    qed
    ultimately show ?thesis using x by auto
  next
    case False
    then obtain s3 where n: "note_acquired V runID req l s2 = (Some (), s3)" and t: "take_or_wait V to l s3 = (Some x, s')"
      using k by (auto simp: seq_Some)
    have "lease_log (sv_trace s3) = [Acquired l]"
      using same_log [OF ll.keeps_note_acquired n] refuse_trace [OF r] False u assms(3) by simp
    then show ?thesis using take_or_wait_outcome [OF assms(1) t] by simp
  qed
qed

lemma runAcquire_outcome:
  assumes "steady_desk V" "runAcquire V to s = (Some x, s')" "lease_log (sv_trace s) = []"
  shows "case x of
      Inl e \<Rightarrow> \<forall>l. Acquired l \<in> set (sv_trace s') \<longrightarrow> over (l_ID l) (sv_trace s')
    | Inr c \<Rightarrow> \<exists>l. lease_log (sv_trace s') = [Acquired l] \<and> l_ID l = l_ID c"
proof -
  let ?req = "run_request (sv_run s)"
  obtain conflict s1 where c: "deviceResetConflict V ?req s = (Some conflict, s1)"
    and k: "(if conflict then ret (Inl errDeviceReset) else
       seq (leases_Acquire V ?req) (\<lambda>got. case got of
        Inl ErrNoMatch \<Rightarrow> ret (Inl (mk_error ''no_match'' (noMatchMessage ?req)))
      | Inl err \<Rightarrow> ret (Inl (mk_error ''internal'' [LeaseText err]))
      | Inr l \<Rightarrow> run_created V (rn_ID (sv_run s)) ?req to l)) s1 = (Some x, s')"
    using assms(2) by (auto simp: runAcquire_def Let_def seq_Some gets_def)
  have l1: "lease_log (sv_trace s1) = []" using same_log [OF ll.keeps_deviceResetConflict c] assms(3) by simp
  show ?thesis
  proof (cases conflict)
    case True
    then have "s' = s1" "x = Inl errDeviceReset" using k by (auto simp: ret_def)
    then show ?thesis using l1 none_acquired by simp
  next
    case False
    then obtain got s2 where a: "leases_Acquire V ?req s1 = (Some got, s2)"
      and k2: "(case got of
        Inl ErrNoMatch \<Rightarrow> ret (Inl (mk_error ''no_match'' (noMatchMessage ?req)))
      | Inl err \<Rightarrow> ret (Inl (mk_error ''internal'' [LeaseText err]))
      | Inr l \<Rightarrow> run_created V (rn_ID (sv_run s)) ?req to l) s2 = (Some x, s')"
      using k by (auto simp: seq_Some)
    show ?thesis
    proof (cases got)
      case (Inl err)
      then have "lease_log (sv_trace s2) = []" using Acquire_trace [OF a] l1 by simp
      then show ?thesis using k2 Inl by (auto simp: ret_def none_acquired split: lease_error.splits)
    next
      case (Inr l)
      then have l2: "lease_log (sv_trace s2) = [Acquired l]" using Acquire_trace [OF a] l1 by simp
      have "run_created V (rn_ID (sv_run s)) ?req to l s2 = (Some x, s')" using k2 Inr by simp
      note out = run_created_outcome [OF assms(1) this l2]
      show ?thesis
      proof (cases x)
        case (Inl e)
        then show ?thesis using out by simp
      next
        case (Inr c)
        then show ?thesis using out by simp
      qed
    qed
  qed
qed

section \<open>Releasing and finishing\<close>

lemma deferred_grows:
  assumes "\<And>E. keeps (\<lambda>s. E \<subseteq> set (sv_trace s)) d" "m s = (x, s1)"
  shows "set (sv_trace s1) \<subseteq> set (sv_trace (snd (deferred m d s)))"
proof -
  obtain y s2 where d: "d s1 = (y, s2)" by (cases "d s1")
  show ?thesis using grows [OF assms(1) d] assms(2) d by (cases y) (auto simp: deferred_def)
qed

lemma seq_grows:
  assumes "\<And>x E. keeps (\<lambda>s. E \<subseteq> set (sv_trace s)) (k x)" "m s = (Some x, s1)"
  shows "set (sv_trace s1) \<subseteq> set (sv_trace (snd (seq m k s)))"
proof -
  obtain y s2 where d: "k x s1 = (y, s2)" by (cases "k x s1")
  show ?thesis using grows [OF assms(1) d] assms(2) d by (simp add: seq_def)
qed

lemma runRelease_sends:
  assumes "steady_desk V"
  shows "\<exists>r. ReleaseSent lid r \<in> set (sv_trace (snd (runRelease V lid failed s)))"
proof -
  obtain s1 where w: "when_do (\<not> failed) (set_stage StageRelease) s = (Some (), s1)"
    by (cases failed) (simp_all add: when_do_def set_stage_def upd_run_def update_def ret_def)
  obtain prior s2 where g: "leases_Get V lid s1 = (Some prior, s2)" using Get_steady [OF assms] by metis
  obtain got s3 where r: "leases_Release V lid s2 = (Some got, s3)" "sv_trace s3 = ReleaseSent lid got # sv_trace s2"
    using Release_steady [OF assms] by metis
  let ?rel = "seq (leases_Release V lid) (\<lambda>got. case got of Inl _ \<Rightarrow> ret () | Inr l \<Rightarrow> after_release V prior l)"
  let ?inner = "deferred ?rel (attachRunExport V lid)"
  have "set (sv_trace s3) \<subseteq> set (sv_trace (snd (?rel s2)))"
    by (rule seq_grows [where m = "leases_Release V lid", OF _ r(1)]) (intro keeps_sum keeps_ret mono.keeps_after_release)
  also have "\<dots> \<subseteq> set (sv_trace (snd (?inner s2)))"
    by (rule deferred_grows [OF mono.keeps_attachRunExport prod.collapse [symmetric]])
  also have "\<dots> \<subseteq> set (sv_trace (snd (deferred ?inner (syncRunOpen V lid) s2)))"
    by (rule deferred_grows [OF mono.keeps_syncRunOpen prod.collapse [symmetric]])
  finally have "ReleaseSent lid got \<in> set (sv_trace (snd (deferred ?inner (syncRunOpen V lid) s2)))" using r(2) by auto
  moreover have "runRelease V lid failed s = deferred ?inner (syncRunOpen V lid) s2"
    using w g by (simp add: runRelease_def seq_def)
  ultimately show ?thesis by auto
qed

lemma finishRun_result:
  obtains s' where "finishRun V err s = (Some (), s')" "sv_trace s' = sv_trace s"
    "rn_State (sv_run s') = (if err = None then RunPassed else RunFailed)"
    "rn_Steps (sv_run s') = rn_Steps (sv_run s)" "rn_Verdict (sv_run s') = rn_Verdict (sv_run s)"
    "rn_Error (sv_run s') = (if err = None then rn_Error (sv_run s) else err)"
proof -
  obtain now w where "v_now V (sv_world s) = (now, w)" by (cases "v_now V (sv_world s)")
  note eval = this finishRun_def clock_def call_def seq_def upd_run_def update_def
  show ?thesis
    by (rule that [of "snd (finishRun V err s)"]) (cases err; simp add: eval)+
qed

section \<open>A run gives back its lease\<close>

text \<open>What a run leaves in the trace: every lease it was given is over, and nothing was sent after a release.\<close>

definition settled :: "server_event list \<Rightarrow> bool" where
  "settled tr \<longleftrightarrow> calm tr \<and> (\<forall>l. Acquired l \<in> set tr \<longrightarrow> over (l_ID l) tr)"

lemma begin_run_trace: "begin_run V s = (x, s') \<Longrightarrow> x = Some () \<and> sv_trace s' = sv_trace s"
  by (auto simp: begin_run_def seq_def clock_def call_def upd_run_def update_def map_prod_def split: prod.splits option.splits)

lemma settled_grow:
  assumes "settled (sv_trace s)" "m s = (x, s')" "\<And>E. keeps (\<lambda>s. E \<subseteq> set (sv_trace s)) m"
    "\<And>L. keeps (\<lambda>s. acquired_log (sv_trace s) = L) m" "keeps (\<lambda>s. calm (sv_trace s)) m"
  shows "settled (sv_trace s')"
  using assms(1) keepsD [OF assms(5) _ assms(2)] same_acquired [OF assms(4,2)] over_mono [OF _ grows [OF assms(3,2)]]
  by (auto simp: settled_def)

lemma settled_release:
  assumes "steady_desk V" "calm (sv_trace s)" "\<And>l'. Acquired l' \<in> set (sv_trace s) \<Longrightarrow> l_ID l' = lid"
    "runRelease V lid failed s = (x, s')"
  shows "settled (sv_trace s')"
proof -
  have "over lid (sv_trace s')"
    using runRelease_sends [OF assms(1), of lid failed s] assms(4) by (auto simp: over_def)
  then show ?thesis
    using keepsD [OF cl.keeps_runRelease assms(2,4)] same_acquired [OF ac.keeps_runRelease assms(4)] assms(3)
    by (auto simp: settled_def)
qed

text \<open>The part of a run that holds the lease, and its release, panics included.\<close>

definition leased_part :: "'w services \<Rightarrow> duration \<Rightarrow> lease \<Rightarrow> (unit, 'w) act" where
  "leased_part V stepTO l =
     seq (on_panic (run_leased V l stepTO) (runRelease V (l_ID l) False)) (\<lambda>err.
     seq (runRelease V (l_ID l) (err \<noteq> None)) (\<lambda>_. finishRun V err))"

lemma leased_part_settled:
  assumes "steady_desk V" "calm (sv_trace s)" "lease_log (sv_trace s) = [Acquired l0]" "l_ID l0 = l_ID l"
  shows "settled (sv_trace (snd (leased_part V stepTO l s)))"
proof -
  obtain err s1 where b: "run_leased V l stepTO s = (err, s1)" by (cases "run_leased V l stepTO s")
  have "no_release (sv_trace s)" using assms(3) no_release_log [of "sv_trace s"] by (simp add: no_release_def)
  then have c1: "calm (sv_trace s1)" using keepsD [OF cs.keeps_run_leased _ b] assms(2) by blast
  have "lease_log (sv_trace s1) = [Acquired l0]" using same_log [OF ll.keeps_run_leased b] assms(3) by simp
  then have a1: "l_ID l' = l_ID l" if "Acquired l' \<in> set (sv_trace s1)" for l' using that assms(4) by (simp add: in_lease_log(1))
  show ?thesis
  proof (cases err)
    case None
    obtain x s2 where "runRelease V (l_ID l) False s1 = (x, s2)" by (cases "runRelease V (l_ID l) False s1")
    then show ?thesis using settled_release [OF assms(1) c1 a1] b None by (simp add: leased_part_def seq_def on_panic_def)
  next
    case (Some e)
    obtain x s2 where r: "runRelease V (l_ID l) (e \<noteq> None) s1 = (x, s2)" by (cases "runRelease V (l_ID l) (e \<noteq> None) s1")
    obtain s3 where f: "finishRun V e s2 = (Some (), s3)" "sv_trace s3 = sv_trace s2" using finishRun_result by metis
    show ?thesis using settled_release [OF assms(1) c1 a1 r] b Some r f
      by (cases x) (simp_all add: leased_part_def seq_def on_panic_def)
  qed
qed

lemma run_body_steps:
  assumes "begin_run V s = (Some (), s1)" "runTimeouts (rn_Spec (sv_run s)) = (acquireTO, runTO, stepTO)"
    "runAcquire V acquireTO s1 = (Some got, s2)"
  shows "run_body V s = (case got of
        Inl e \<Rightarrow>
          seq (gets (\<lambda>s. rn_LeaseID (sv_run s))) (\<lambda>lid.
          seq (when_do (lid \<noteq> []) (attachRunExport V lid)) (\<lambda>_. finishRun V (Some e))) s2
      | Inr l \<Rightarrow> leased_part V stepTO l s2)"
  using assms by (simp add: run_body_def leased_part_def seq_def gets_def split: sum.split)

lemma run_body_settled:
  assumes "steady_desk V" "sv_trace s = []" "begin_run V s = (Some (), s1)"
    "runTimeouts (rn_Spec (sv_run s)) = (acquireTO, runTO, stepTO)" "runAcquire V acquireTO s1 = (Some got, s2)"
  shows "settled (sv_trace (snd (run_body V s)))"
proof -
  have t1: "sv_trace s1 = []" using begin_run_trace [OF assms(3)] assms(2) by simp
  have c2: "calm (sv_trace s2)" using keepsD [OF cl.keeps_runAcquire _ assms(5)] t1 by simp
  have l1: "lease_log (sv_trace s1) = []" using t1 by simp
  note out = runAcquire_outcome [OF assms(1,5) l1]
  note body = run_body_steps [OF assms(3-5)]
  show ?thesis
  proof (cases got)
    case (Inr l)
    then obtain l0 where "lease_log (sv_trace s2) = [Acquired l0]" "l_ID l0 = l_ID l" using out by auto
    then show ?thesis using leased_part_settled [OF assms(1) c2] body Inr by simp
  next
    case (Inl e)
    let ?att = "when_do (rn_LeaseID (sv_run s2) \<noteq> []) (attachRunExport V (rn_LeaseID (sv_run s2)))"
    have st2: "settled (sv_trace s2)" using out c2 Inl by (simp add: settled_def)
    obtain x s3 where a: "?att s2 = (x, s3)" by (cases "?att s2")
    have st3: "settled (sv_trace s3)"
      by (rule settled_grow [where m = ?att, OF st2 a])
        (intro keeps_when mono.keeps_attachRunExport ac.keeps_attachRunExport cl.keeps_attachRunExport)+
    obtain s4 where f: "finishRun V (Some e) s3 = (Some (), s4)" "sv_trace s4 = sv_trace s3" using finishRun_result by metis
    show ?thesis using body Inl a f st3 by (cases x) (simp_all add: seq_def gets_def)
  qed
qed

lemma recovered_finish:
  assumes "run_body V s = (x, s1)" "x = Some () \<Longrightarrow> rn_State (sv_run s1) \<in> {RunPassed, RunFailed}" "executeRun V s = (r, s')"
  shows "r = Some () \<and> rn_State (sv_run s') \<in> {RunPassed, RunFailed} \<and> sv_trace s' = sv_trace s1"
proof (cases x)
  case None
  obtain s2 where "finishRun V (Some (mk_error ''internal'' [T ''run panicked''])) s1 = (Some (), s2)" "sv_trace s2 = sv_trace s1"
    "rn_State (sv_run s2) = (if Some (mk_error ''internal'' [T ''run panicked'']) = None then RunPassed else RunFailed)"
    using finishRun_result by metis
  then show ?thesis using assms(1,3) None by (simp add: executeRun_def recovered_def)
next
  case (Some u)
  then show ?thesis using assms by (simp add: executeRun_def recovered_def)
qed

lemma finish_state: "finishRun V err s = (x, s') \<Longrightarrow> rn_State (sv_run s') \<in> {RunPassed, RunFailed}"
  using finishRun_result [of V err s] by (metis Pair_inject insert_iff)

lemma run_body_state:
  assumes "run_body V s = (Some (), s')"
  shows "rn_State (sv_run s') \<in> {RunPassed, RunFailed}"
proof -
  obtain acquireTO runTO stepTO where t: "runTimeouts (rn_Spec (sv_run s)) = (acquireTO, runTO, stepTO)" by (metis prod_cases3)
  obtain u s0 where b: "begin_run V s = (Some u, s0)" using begin_run_trace by (metis surj_pair)
  obtain x s1 where a: "runAcquire V acquireTO s0 = (x, s1)" by (cases "runAcquire V acquireTO s0")
  with assms t b obtain got where "x = Some got" by (cases x) (auto simp: run_body_def seq_def gets_def)
  then have k: "(case got of
        Inl e \<Rightarrow>
          seq (gets (\<lambda>s. rn_LeaseID (sv_run s))) (\<lambda>lid.
          seq (when_do (lid \<noteq> []) (attachRunExport V lid)) (\<lambda>_. finishRun V (Some e))) s1
      | Inr l \<Rightarrow> leased_part V stepTO l s1) = (Some (), s')"
    using assms run_body_steps [OF _ t] a b by simp
  show ?thesis
  proof (cases got)
    case (Inl e)
    then obtain s2 where "finishRun V (Some e) s2 = (Some (), s')" using k by (auto simp: seq_Some)
    then show ?thesis by (rule finish_state)
  next
    case (Inr l)
    then obtain err s2 where "finishRun V err s2 = (Some (), s')" using k by (auto simp: leased_part_def seq_Some)
    then show ?thesis by (rule finish_state)
  qed
qed


lemma desk_steady: "steady_desk desk_services"
  by (simp add: steady_desk_def desk_services_def desk_lease_def)


text \<open>
  The exception in the theorem is needed: a panic after the lease was created but before the engine
  holds it (here in starting its journal run) ends the run without a release.
\<close>

lemma panic_while_acquiring_leaks:
  "let s = snd (executeRun (desk_services\<lparr>v_StartRun := \<lambda>l t w. (None, w)\<rparr>) (desk_server three_steps)) in
   rn_State (sv_run s) = RunFailed \<and> rn_LeaseID (sv_run s) = ''L1'' \<and> \<not> dk_over (sv_world s)"
  by code_simp

end
