(* ===== verification/Mz_RunPass.thy ===== *)
theory Mz_RunPass
  imports Mz_RunLife
begin

text \<open>
  What a run that passed did: it held a lease, booted, and executed every step without an error, and
  without drift when drift is strict; its verdict is the one its step results give.
\<close>

section \<open>What the rest of the run leaves alone\<close>

definition run_core :: "run \<Rightarrow> string \<times> run_spec \<times> step_result list \<times> run_verdict" where
  "run_core r = (rn_ID r, rn_Spec r, rn_Steps r, rn_Verdict r)"

interpretation km: stage_inv "\<lambda>s :: 'w server. run_core (sv_run s) = c"
  by unfold_locales (simp_all add: run_core_def)

interpretation km: acquire_inv "\<lambda>s :: 'w server. run_core (sv_run s) = c"
  by unfold_locales simp_all

lemma same_core:
  assumes "\<And>c. keeps (\<lambda>s. run_core (sv_run s) = c) m" "m s = (x, s')"
  shows "run_core (sv_run s') = run_core (sv_run s)"
  using keepsD [OF assms(1) refl assms(2)] .

lemma coreD: "run_core r = run_core r' \<Longrightarrow> rn_Spec r = rn_Spec r' \<and> rn_Steps r = rn_Steps r' \<and> rn_Verdict r = rn_Verdict r'"
  by (simp add: run_core_def)

section \<open>The stages\<close>

lemma seqE:
  assumes "seq m k s = (Some y, s')"
  obtains x s1 where "m s = (Some x, s1)" "k x s1 = (Some y, s')"
  using assms by (auto simp: seq_Some)

lemma or_failE:
  assumes "or_fail m k s = (Some None, s')"
  obtains s1 where "m s = (Some None, s1)" "k s1 = (Some None, s')"
  using assms by (auto simp: or_fail_def seq_Some ret_def split: option.splits)

text \<open>The steps of a run and its verdict, as its handle reports them.\<close>

definition all_done :: "run_spec \<Rightarrow> run \<Rightarrow> bool" where
  "all_done spec r \<longleftrightarrow> length (rn_Steps r) = length (sp_Steps spec) \<and>
     (\<forall>res \<in> set (rn_Steps r). sr_Status res = StepOK \<and> \<not> (sp_StrictDrift spec \<and> sr_Drifted res)) \<and>
     rn_Verdict r = computeVerdict (sp_Steps spec) (rn_Steps r)"

lemma unfailing_log:
  assumes "step_log strict i pg pg' sts rs" "pg_firstErr pg' = None" "\<not> pg_halted pg"
  shows "\<forall>res \<in> set rs. sr_Status res = StepOK \<and> \<not> (strict \<and> sr_Drifted res)"
proof
  fix res assume "res \<in> set rs"
  then obtain k where k: "k < length sts" "rs ! k = res" using step_log_length [OF assms(1)] by (metis in_set_conv_nth)
  have ok: "\<forall>r \<in> set rs. \<not> failing strict r" using step_log_first [OF assms(1)] assms(2) by blast
  then have "\<forall>j < k. \<not> failing strict (rs ! j)" using k(1) step_log_length [OF assms(1)] by simp
  then have "sr_Status res \<noteq> StepSkipped" using step_log_nth [OF assms(1) k(1)] k(2) assms(3) by auto
  moreover have "\<not> failing strict res" using ok \<open>res \<in> set rs\<close> by blast
  ultimately show "sr_Status res = StepOK \<and> \<not> (strict \<and> sr_Drifted res)"
    by (cases "sr_Status res") (auto simp: failing_def)
qed

lemma stage_steps_done:
  assumes "stage_steps V spec stepTO l s = (Some None, s')" "rn_Steps (sv_run s) = []"
  shows "all_done spec (sv_run s')"
proof -
  obtain u1 s1 where a1: "set_stage StageSteps s = (Some u1, s1)" and k1: "seq (run_steps V spec stepTO l 0 (sp_Steps spec) \<lparr>pg_firstErr = None, pg_halted = False\<rparr>) (\<lambda>pg.
     seq (upd_run (\<lambda>r. r\<lparr>rn_Verdict := computeVerdict (sp_Steps spec) (rn_Steps r)\<rparr>)) (\<lambda>_.
     seq (final_screenshot V spec l (pg_firstErr pg = None)) (\<lambda>_. ret (pg_firstErr pg)))) s1 = (Some None, s')"
    using assms(1) [unfolded stage_steps_def] by (rule seqE)
  obtain pg s2 where a2: "run_steps V spec stepTO l 0 (sp_Steps spec) \<lparr>pg_firstErr = None, pg_halted = False\<rparr> s1 = (Some pg, s2)"
    and k2: "seq (upd_run (\<lambda>r. r\<lparr>rn_Verdict := computeVerdict (sp_Steps spec) (rn_Steps r)\<rparr>)) (\<lambda>_.
     seq (final_screenshot V spec l (pg_firstErr pg = None)) (\<lambda>_. ret (pg_firstErr pg))) s2 = (Some None, s')"
    using k1 by (rule seqE)
  obtain u s3 where w: "upd_run (\<lambda>r. r\<lparr>rn_Verdict := computeVerdict (sp_Steps spec) (rn_Steps r)\<rparr>) s2 = (Some u, s3)"
    and k3: "seq (final_screenshot V spec l (pg_firstErr pg = None)) (\<lambda>_. ret (pg_firstErr pg)) s3 = (Some None, s')"
    using k2 by (rule seqE)
  obtain u2 s4 where f: "final_screenshot V spec l (pg_firstErr pg = None) s3 = (Some u2, s4)"
    and e4: "ret (pg_firstErr pg) s4 = (Some None, s')" using k3 by (rule seqE)
  have e: "pg_firstErr pg = None" "s4 = s'" using e4 by (simp_all add: ret_def)
  have v: "s3 = s2\<lparr>sv_run := (sv_run s2)\<lparr>rn_Verdict := computeVerdict (sp_Steps spec) (rn_Steps (sv_run s2))\<rparr>\<rparr>"
    using w by (simp add: upd_run_def update_def)
  have s1: "rn_Steps (sv_run s1) = []" using coreD [OF same_core [OF km.keeps_set_stage a1]] assms(2) by simp
  obtain rs where rs: "step_log (sp_StrictDrift spec) 0 \<lparr>pg_firstErr = None, pg_halted = False\<rparr> pg (sp_Steps spec) rs"
    "rn_Steps (sv_run s2) = rs"
    using run_steps_log [OF a2] s1 by auto
  have "all_done spec (sv_run s3)"
    using unfailing_log [OF rs(1) e(1)] step_log_length [OF rs(1)] rs(2) v by (simp add: all_done_def)
  then show ?thesis using coreD [OF same_core [OF km.keeps_final_screenshot f]] e(2) by (simp add: all_done_def)
qed

lemma runStages_done:
  assumes "runStages V l stepTO s = (Some None, s')" "rn_Steps (sv_run s) = []"
  shows "all_done (rn_Spec (sv_run s)) (sv_run s')"
proof -
  let ?spec = "rn_Spec (sv_run s)"
  have "or_fail (stage_boot V l) (or_fail (stage_fixtures V ?spec l) (or_fail (stage_app V ?spec l) (stage_steps V ?spec stepTO l))) s
    = (Some None, s')" using assms(1) by (simp add: runStages_def seq_def gets_def)
  then obtain s1 where a1: "stage_boot V l s = (Some None, s1)"
    and k1: "or_fail (stage_fixtures V ?spec l) (or_fail (stage_app V ?spec l) (stage_steps V ?spec stepTO l)) s1 = (Some None, s')"
    by (rule or_failE)
  obtain s2 where a2: "stage_fixtures V ?spec l s1 = (Some None, s2)"
    and k2: "or_fail (stage_app V ?spec l) (stage_steps V ?spec stepTO l) s2 = (Some None, s')" using k1 by (rule or_failE)
  obtain s3 where a3: "stage_app V ?spec l s2 = (Some None, s3)" and a4: "stage_steps V ?spec stepTO l s3 = (Some None, s')"
    using k2 by (rule or_failE)
  have "rn_Steps (sv_run s3) = []"
    using coreD [OF same_core [OF km.keeps_stage_boot a1]] coreD [OF same_core [OF km.keeps_stage_fixtures a2]]
      coreD [OF same_core [OF km.keeps_stage_app a3]] assms(2) by simp
  then show ?thesis using stage_steps_done [OF a4] by blast
qed

lemma run_leased_done:
  assumes "run_leased V l stepTO s = (Some None, s')" "rn_Steps (sv_run s) = []"
  shows "all_done (rn_Spec (sv_run s)) (sv_run s')"
proof -
  obtain s1 s2 s3 where a: "recordRunEvent V l ''runs.start'' None s = (Some (), s1)" "runStages V l stepTO s1 = (Some None, s2)"
    "stampRunVerdict V (l_ID l) s2 = (Some (), s3)" "recordRunEvent V l ''runs.finish'' None s3 = (Some (), s')"
    using assms(1) by (auto simp: run_leased_def seq_Some ret_def)
  have c1: "run_core (sv_run s1) = run_core (sv_run s)" using same_core [OF km.keeps_recordRunEvent a(1)] .
  have "all_done (rn_Spec (sv_run s1)) (sv_run s2)" using runStages_done [OF a(2)] coreD [OF c1] assms(2) by simp
  then show ?thesis
    using coreD [OF c1] coreD [OF same_core [OF km.keeps_stampRunVerdict a(3)]] coreD [OF same_core [OF km.keeps_recordRunEvent a(4)]]
    by (simp add: all_done_def)
qed

section \<open>The run\<close>

lemma finish_passed: "finishRun V err s = (x, s') \<Longrightarrow> rn_State (sv_run s') = RunPassed \<Longrightarrow> err = None"
  using finishRun_result [of V err s] by (metis Pair_inject run_state.distinct(11))

lemma acquired_kept:
  assumes "\<And>E. keeps (\<lambda>s. E \<subseteq> set (sv_trace s)) m" "m s = (x, s')" "Saw q (Inr l) \<in> set (sv_trace s) \<or> Acquired l \<in> set (sv_trace s)"
  shows "Saw q (Inr l) \<in> set (sv_trace s') \<or> Acquired l \<in> set (sv_trace s')"
  using grows [OF assms(1,2)] assms(3) by blast

lemma leased_part_done:
  assumes "leased_part V stepTO l s = (Some (), s')" "rn_State (sv_run s') = RunPassed" "rn_Steps (sv_run s) = []"
  shows "all_done (rn_Spec (sv_run s)) (sv_run s')"
proof -
  obtain err s1 s2 where a: "on_panic (run_leased V l stepTO) (runRelease V (l_ID l) False) s = (Some err, s1)"
    "runRelease V (l_ID l) (err \<noteq> None) s1 = (Some (), s2)" "finishRun V err s2 = (Some (), s')"
    using assms(1) by (auto simp: leased_part_def seq_Some)
  have e: "err = None" using finish_passed [OF a(3) assms(2)] .
  have "run_leased V l stepTO s = (Some None, s1)" using a(1) e by (auto simp: on_panic_def split: prod.splits option.splits)
  then have "all_done (rn_Spec (sv_run s)) (sv_run s1)" using run_leased_done assms(3) by blast
  then show ?thesis
    using coreD [OF same_core [OF km.keeps_runRelease a(2)]] coreD [OF same_core [OF km.keeps_finishRun a(3)]]
    by (simp add: all_done_def)
qed

text \<open>
  C13. A run that passed. When executing a run ends with the run passed, every step of the specification
  has a result, in order, each executed without an error and, under strict drift, without drift, and the
  verdict shown is the one these results give. An empty specification passes with no steps.
\<close>

theorem run_passed:
  assumes "executeRun V s = (r, s')" "rn_State (sv_run s') = RunPassed" "rn_Steps (sv_run s) = []"
  shows "length (rn_Steps (sv_run s')) = length (sp_Steps (rn_Spec (sv_run s))) \<and>
    (\<forall>res \<in> set (rn_Steps (sv_run s')).
       sr_Status res = StepOK \<and> \<not> (sp_StrictDrift (rn_Spec (sv_run s)) \<and> sr_Drifted res)) \<and>
    rn_Verdict (sv_run s') = computeVerdict (sp_Steps (rn_Spec (sv_run s))) (rn_Steps (sv_run s'))"
proof -
  obtain x s1 where body: "run_body V s = (x, s1)" by (cases "run_body V s")
  have x: "x = Some ()"
  proof (cases x)
    case None
    then have "finishRun V (Some (mk_error ''internal'' [T ''run panicked''])) s1 = (r, s')"
      using assms(1) body by (simp add: executeRun_def recovered_def)
    then show ?thesis using finish_passed assms(2) by blast
  qed simp
  then have x1: "s1 = s'" using assms(1) body by (simp add: executeRun_def recovered_def)
  obtain acquireTO runTO stepTO where t: "runTimeouts (rn_Spec (sv_run s)) = (acquireTO, runTO, stepTO)" by (metis prod_cases3)
  obtain s2 where b: "begin_run V s = (Some (), s2)" using begin_run_trace by (metis surj_pair)
  obtain y s3 where a: "runAcquire V acquireTO s2 = (y, s3)" by (cases "runAcquire V acquireTO s2")
  obtain got where y: "y = Some got" using body x t b a by (cases y) (auto simp: run_body_def seq_def gets_def)
  note steps = run_body_steps [OF b t a [unfolded y]]
  have c3: "run_core (sv_run s3) = run_core (sv_run s)"
    using same_core [OF km.keeps_begin_run b] same_core [OF km.keeps_runAcquire a] by simp
  have "all_done (rn_Spec (sv_run s)) (sv_run s')"
  proof (cases got)
    case (Inl e)
    then have "seq (gets (\<lambda>s. rn_LeaseID (sv_run s))) (\<lambda>lid.
        seq (when_do (lid \<noteq> []) (attachRunExport V lid)) (\<lambda>_. finishRun V (Some e))) s3 = (Some (), s')"
      using steps body x x1 by simp
    then obtain s4 where "finishRun V (Some e) s4 = (Some (), s')" by (elim seqE)
    then show ?thesis using finish_passed assms(2) by blast
  next
    case (Inr l)
    then have "leased_part V stepTO l s3 = (Some (), s')" using steps body x x1 by simp
    then show ?thesis using leased_part_done [OF _ assms(2)] coreD [OF c3] assms(3) by metis
  qed
  then show ?thesis by (simp add: all_done_def)
qed

theorem run_passed_witness:
  "let s = snd (executeRun desk_services (desk_server [plain_step ''tap''])) in
   rn_State (sv_run s) = RunPassed \<and> length (rn_Steps (sv_run s)) = 1 \<and> rn_Verdict (sv_run s) = VerdictTrusted"
proof -
  let ?x = "executeRun desk_services (desk_server [plain_step ''tap''])"
  have x: "?x = (fst ?x, snd ?x)" by simp
  have p: "rn_State (sv_run (snd ?x)) = RunPassed" "rn_Verdict (sv_run (snd ?x)) = VerdictTrusted" by code_simp+
  have e: "rn_Steps (sv_run (desk_server [plain_step ''tap''])) = []"
    "length (sp_Steps (rn_Spec (sv_run (desk_server [plain_step ''tap''])))) = 1" by code_simp+
  show ?thesis using run_passed [OF x p(1) e(1)] p e(2) by (simp only: Let_def)
qed

end
