(* ===== verification/Mz_Touch.thy ===== *)
theory Mz_Touch
  imports Mz_RunProps
begin

text \<open>
  Who may touch a target: a boot, a shutdown or an operation of the state engine directly follows a
  look at an active lease that holds the target, or a reservation of the target for the dashboard.
\<close>

section \<open>Operations that rely on what was just seen\<close>

definition keeps_on :: "(server_event list \<Rightarrow> bool) \<Rightarrow> ('w server \<Rightarrow> bool) \<Rightarrow> ('a, 'w) act \<Rightarrow> bool" where
  "keeps_on P I m \<longleftrightarrow> (\<forall>s. I s \<and> P (sv_trace s) \<longrightarrow> I (snd (m s)))"

definition silent :: "('a, 'w) act \<Rightarrow> bool" where
  "silent m \<longleftrightarrow> (\<forall>s. sv_trace (snd (m s)) = sv_trace s)"

named_theorems kept_on \<open>operations keep the invariant where the trace allows them\<close>

lemma on_weaken: "keeps_on P I m \<Longrightarrow> (\<And>tr. Q tr \<Longrightarrow> P tr) \<Longrightarrow> keeps_on Q I m"
  by (simp add: keeps_on_def)

lemma on_keeps: "keeps I m \<Longrightarrow> keeps_on P I m"
  by (simp add: keeps_on_def keeps_def)

lemma on_silent:
  assumes "silent m" "keeps I m" "\<And>x. keeps_on P I (k x)"
  shows "keeps_on P I (seq m k)"
  unfolding keeps_on_def
proof (intro allI impI)
  fix s assume s: "I s \<and> P (sv_trace s)"
  obtain r s' where m: "m s = (r, s')" by (cases "m s")
  have "I s'" "sv_trace s' = sv_trace s" using keepsD [OF assms(2) _ m] assms(1) s m unfolding silent_def by (auto dest: spec [of _ s])
  then show "I (snd (seq m k s))" using assms(3) s m by (cases r) (auto simp: seq_def keeps_on_def)
qed

lemma on_if [kept_on]: "(b \<Longrightarrow> keeps_on P I m) \<Longrightarrow> (\<not> b \<Longrightarrow> keeps_on P I n) \<Longrightarrow> keeps_on P I (if b then m else n)"
  by simp

lemma on_option [kept_on]:
  "(x = None \<Longrightarrow> keeps_on P I m) \<Longrightarrow> (\<And>b. x = Some b \<Longrightarrow> keeps_on P I (g b)) \<Longrightarrow> keeps_on P I (case x of None \<Rightarrow> m | Some b \<Rightarrow> g b)"
  by (cases x) auto

lemma on_deferred: "keeps_on P I m \<Longrightarrow> keeps I d \<Longrightarrow> keeps_on P I (deferred m d)"
  by (auto simp: keeps_on_def keeps_def deferred_def split: prod.splits option.splits)

lemma on_seq:
  assumes "keeps_on P I m" "\<And>x. keeps I (k x)"
  shows "keeps_on P I (seq m k)"
  unfolding keeps_on_def
proof (intro allI impI)
  fix s assume "I s \<and> P (sv_trace s)"
  then have "I (snd (m s))" using assms(1) by (simp add: keeps_on_def)
  then show "I (snd (seq m k s))" using assms(2) by (auto simp: seq_def keeps_def split: prod.splits option.splits)
qed

lemma silent_simps [simp]: "silent (call f)" "silent (gets g)" "silent (update (\<lambda>s. s\<lparr>sv_waitByLease := w s\<rparr>))"
  by (auto simp: silent_def call_def gets_def update_def split: prod.splits)

lemma seq_ret [simp]: "seq (ret x) k = k x"
  by (rule ext) (simp add: seq_def ret_def)

lemma seq_assoc: "seq (seq m f) k = seq m (\<lambda>x. seq (f x) k)"
  by (rule ext) (simp add: seq_def split: prod.splits option.splits)

section \<open>Held targets\<close>

text \<open>The trace shows that a request may touch a target.\<close>

fun held_by :: "server_event list \<Rightarrow> string \<Rightarrow> string \<Rightarrow> bool" where
  "held_by (Saw q (Inr l) # tr) lid udid \<longleftrightarrow> l_State l = LeaseActive \<and> l_TargetUDID l = udid \<and> (lid = q \<or> lid = l_ID l)"
| "held_by (Reserved u (takeover, granted) # tr) lid udid \<longleftrightarrow> u = udid \<and> granted \<and> \<not> takeover \<and> lid = []"
| "held_by tr lid udid \<longleftrightarrow> False"

fun touches :: "server_event \<Rightarrow> string \<Rightarrow> string \<Rightarrow> bool" where
  "touches (BootSent lid udid) lid' udid' \<longleftrightarrow> lid = lid' \<and> udid = udid'"
| "touches (ShutdownSent lid udid) lid' udid' \<longleftrightarrow> lid = lid' \<and> udid = udid'"
| "touches (StateSent lid udid op) lid' udid' \<longleftrightarrow> lid = lid' \<and> udid = udid'"
| "touches e lid udid \<longleftrightarrow> False"

locale touch_inv = sent_inv + lease_inv +
  assumes held: "I s \<Longrightarrow> touches e lid udid \<Longrightarrow> held_by (sv_trace s) lid udid \<Longrightarrow> I (s\<lparr>sv_trace := e # sv_trace s\<rparr>)"
begin

lemma on_emit:
  assumes "touches e lid udid" "\<And>tr. P tr \<Longrightarrow> held_by tr lid udid" "keeps I (k ())"
  shows "keeps_on P I (seq (emit_event e) k)"
  unfolding keeps_on_def
proof (intro allI impI)
  fix s assume "I s \<and> P (sv_trace s)"
  then have "I (s\<lparr>sv_trace := e # sv_trace s\<rparr>)" using held assms(1,2) by blast
  then show "I (snd (seq (emit_event e) k s))" using assms(3) by (simp add: seq_def emit_event_def update_def keeps_def)
qed

lemma on_call: "(\<And>x. keeps_on P I (k x)) \<Longrightarrow> keeps_on P I (seq (call f) k)"
  by (rule on_silent) (simp_all add: keeps_call)

text \<open>Looking a lease up.\<close>

lemma look:
  assumes "\<And>e. keeps I (k (Inl e))" "\<And>l. keeps_on (\<lambda>tr. \<exists>t. tr = Saw lid (Inr l) # t) I (k (Inr l))"
  shows "keeps I (seq (leases_Get V lid) k)"
  unfolding keeps_def
proof (intro allI impI)
  fix s assume s: "I s"
  obtain r s' where g: "leases_Get V lid s = (r, s')" by (cases "leases_Get V lid s")
  have i: "I s'" using keepsD [OF keeps_Get s g] .
  show "I (snd (seq (leases_Get V lid) k s))"
  proof (cases r)
    case None
    then show ?thesis using i g by (simp add: seq_def)
  next
    case (Some got)
    have t: "sv_trace s' = Saw lid got # sv_trace s"
      using g Some by (auto simp: leases_Get_def seq_def call_def emit_event_def update_def ret_def split: prod.splits option.splits)
    show ?thesis using i t g Some assms by (cases got) (auto simp: seq_def keeps_def keeps_on_def)
  qed
qed

lemma on_bootTarget: "(\<And>tr. P tr \<Longrightarrow> held_by tr (l_ID l) udid) \<Longrightarrow> keeps_on P I (bootTarget V l udid)"
  unfolding bootTarget_def Let_def by (intro on_call on_emit [where lid = "l_ID l" and udid = udid] kept) simp_all

lemma on_shutdownTarget: "(\<And>tr. P tr \<Longrightarrow> held_by tr (l_ID l) udid) \<Longrightarrow> keeps_on P I (shutdownTarget V l udid)"
  unfolding shutdownTarget_def Let_def by (intro on_call on_emit [where lid = "l_ID l" and udid = udid] kept) simp_all

lemma keeps_boot_attempt [kept]: "keeps I (boot_attempt V l udid first)"
  unfolding boot_attempt_def
proof (rule look)
  fix c
  let ?P = "\<lambda>tr. \<exists>t. tr = Saw (l_ID l) (Inr c) # t"
  show "keeps_on ?P I
      (if (case Inr c of Inl _ \<Rightarrow> True | Inr c \<Rightarrow> l_State c \<noteq> LeaseActive \<or> l_TargetUDID c \<noteq> udid) then ret (Some WaitLeaseGone)
       else seq (if first \<or> \<not> bd_gates (v_build V) then bootTarget V l udid
            else seq (call (v_gates V udid)) (\<lambda>e. case e of Some e \<Rightarrow> ret (Some e) | None \<Rightarrow> bootTarget V l udid)) (\<lambda>err.
       ret (map_option BootFailed err)))"
  proof (cases "l_State c \<noteq> LeaseActive \<or> l_TargetUDID c \<noteq> udid")
    case True
    then show ?thesis by (simp add: on_keeps keeps_ret)
  next
    case False
    then have b: "keeps_on ?P I (bootTarget V l (l_TargetUDID c))" by (intro on_bootTarget) auto
    show ?thesis using False by (auto intro!: on_seq on_if on_call on_option b keeps_ret on_keeps [OF keeps_ret])
  qed
qed (simp add: keeps_ret)

lemma keeps_boot_loop [kept]: "keeps I (boot_loop V l udid first n)"
proof (induction n arbitrary: first)
  case 0
  show ?case by (subst boot_loop.simps) (auto intro!: kept split: option.splits boot_error.splits nat.splits)
next
  case (Suc n)
  show ?case by (subst boot_loop.simps) (auto intro!: kept Suc split: option.splits boot_error.splits nat.splits)
qed

lemma on_bootTargetWait:
  assumes "\<And>tr. P tr \<Longrightarrow> held_by tr (l_ID l) udid"
  shows "keeps_on P I (bootTargetWait V l udid)"
  unfolding bootTargetWait_def
  by (intro on_silent on_if on_deferred on_call silent_simps keeps_gets keeps_waits on_seq on_bootTarget assms
      on_keeps [OF keeps_ret] on_keeps [OF keeps_seq] keeps_call keeps_boot_loop keeps_ret)

lemma keeps_handleTargetOp:
  assumes "\<And>l. l_State l = LeaseActive \<Longrightarrow> l_TargetUDID l = udid \<Longrightarrow> keeps_on (\<lambda>tr. \<exists>t. tr = Saw lid (Inr l) # t) I (op l)"
  shows "keeps I (handleTargetOp V action udid lid op)"
  unfolding handleTargetOp_def requireLease_def seq_assoc seq_ret
proof (rule look)
  fix l
  show "keeps_on (\<lambda>tr. \<exists>t. tr = Saw lid (Inr l) # t) I
    (case case Inr l of Inl _ \<Rightarrow> Inl (404, mk_error ''not_found'' [T ''lease not found''])
          | Inr l \<Rightarrow>
              if l_State l \<noteq> LeaseActive then Inl (410, mk_error ''lease_expired'' [T ''lease is not active''])
              else if l_TargetUDID l \<noteq> udid then Inl (400, mk_error ''bad_request'' [T ''lease does not hold this target''])
              else Inr l of
        Inl (status, e) \<Rightarrow> ret (Refuse status e)
      | Inr l \<Rightarrow>
          let ev = mk_event ''action'' lid (l_AgentID l) action [(''udid'', JStr udid)] in
          seq (op l) (\<lambda>err.
          (case err of
             Some err \<Rightarrow>
               seq (record_ev V (failed_event (boot_text V err) ev)) (\<lambda>_.
               ret (case err of
                      WaitLeaseGone \<Rightarrow> Refuse 410 (mk_error ''lease_expired'' [T (boot_text V err)])
                    | WaitBusy \<Rightarrow> Refuse 503 (overload_error V err)
                    | BootFailed e \<Rightarrow>
                        let (status, code) = targetOpErr e in
                        if code = ''overloaded'' then Refuse status (overload_error V err)
                        else Refuse status (mk_error code [T (boot_text V err)])
                    | _ \<Rightarrow> Refuse 500 (mk_error ''internal'' [T (boot_text V err)])))
           | None \<Rightarrow>
               seq (record_ev V ev) (\<lambda>_.
               seq (call (v_reg_Get V udid)) (\<lambda>t.
               (case t of
                  Inl e \<Rightarrow> refuse_with 500 ''internal'' [RegText e]
                | Inr t \<Rightarrow> seq (call (v_broadcast V ''target.state'')) (\<lambda>_. ret (Reply 202 t))))))))"
  proof (cases "l_State l = LeaseActive \<and> l_TargetUDID l = udid")
    case True
    then show ?thesis by (auto simp: Let_def intro!: on_seq assms kept)
  next
    case False
    then show ?thesis by (auto intro!: on_keeps kept)
  qed
qed (simp add: keeps_ret)

lemma keeps_handleBoot: "keeps I (handleBoot V wait udid lid)"
  unfolding handleBoot_def
  by (intro keeps_handleTargetOp on_if on_bootTargetWait on_seq on_bootTarget keeps_ret) auto

lemma keeps_handleShutdown: "keeps I (handleShutdown V udid lid)"
  unfolding handleShutdown_def by (intro keeps_handleTargetOp on_seq on_shutdownTarget keeps_ret) auto

lemma on_stateOpOnDevice: "(\<And>x. keeps_on P I (k x)) \<Longrightarrow> keeps_on P I (seq (stateOpOnDevice V udid) k)"
proof (rule on_silent)
  show "silent (stateOpOnDevice V udid)"
    by (auto simp: stateOpOnDevice_def silent_def seq_def call_def ret_def split: prod.splits option.splits)
qed (simp_all add: keeps_stateOpOnDevice)

lemma keeps_with_leased:
  assumes "\<And>udid. keeps_on (\<lambda>tr. held_by tr lid udid) I (op udid)"
  shows "keeps I (with_leased V lid b op)"
proof (cases "lid = []")
  case True
  then show ?thesis by (simp add: with_leased_def leasedTarget_def keeps_ret)
next
  case False
  have "keeps I (seq (seq (leases_Get V lid) (\<lambda>got. case got of
           Inl _ \<Rightarrow> ret (Inl (404, mk_error ''not_found'' [T ''lease not found'']))
         | Inr l \<Rightarrow>
             if l_State l \<noteq> LeaseActive then ret (Inl (410, mk_error ''lease_expired'' [T ''lease is not active'']))
             else seq (stateOpOnDevice V (l_TargetUDID l)) (\<lambda>dev.
                  if dev then ret (Inl (501, mk_error ''not_implemented''
                    [T ''state operations are simulator-only; leased target is a physical device'']))
                  else ret (Inr (l_TargetUDID l))))) (\<lambda>t. case t of
        Inl (status, e) \<Rightarrow> ret (Refuse status e)
      | Inr udid \<Rightarrow> if udid = [] then ret (Reply 200 b) else op udid))"
    unfolding seq_assoc
  proof (rule look, goal_cases)
    case (1 e)
    show ?case by (simp add: keeps_ret)
  next
    case (2 l)
    show ?case
    proof (cases "l_State l = LeaseActive")
      case True
      have "keeps_on (\<lambda>tr. \<exists>t. tr = Saw lid (Inr l) # t) I (op (l_TargetUDID l))"
        by (rule on_weaken [OF assms]) (use True in auto)
      then show ?thesis using True by (auto simp: seq_assoc intro!: on_stateOpOnDevice on_keeps [OF keeps_ret])
    next
      case False
      then show ?thesis by (simp add: on_keeps keeps_ret)
    qed
  qed
  then show ?thesis using False by (simp add: with_leased_def leasedTarget_def)
qed

lemma keeps_handleStateFixture: "keeps I (handleStateFixture V lid name fixture)"
proof -
  have "handleStateFixture V lid name fixture =
     (if name = [] then refuse_with 400 ''bad_request'' [T ''name is required''] else
      with_leased V lid () (\<lambda>udid.
           seq (emit_event (StateSent lid udid ''fixture'')) (\<lambda>_.
           seq (call (v_ApplyFixture V udid name fixture)) (\<lambda>err.
           seq (recordState V lid ''state.fixture'' [(''udid'', JStr udid), (''name'', JStr name)] err) (\<lambda>_.
           ret (case err of
                  Some e \<Rightarrow> (case writeStateError V e of (status, we) \<Rightarrow> Refuse status we)
                | None \<Rightarrow> Reply 200 ()))))))"
    by (simp add: handleStateFixture_def with_leased_def)
  then show ?thesis
    by (auto intro!: kept keeps_with_leased on_emit [where lid = lid])
qed

lemma keeps_handleStateSnapshot: "keeps I (handleStateSnapshot V lid label)"
  unfolding handleStateSnapshot_def by (rule keeps_with_leased) (rule on_emit [where lid = lid], auto intro!: kept)

lemma keeps_handleStateRestore: "keeps I (handleStateRestore V lid snapshot reboot)"
  unfolding handleStateRestore_def
  by (intro keeps_if keeps_refuse keeps_with_leased on_call) (rule on_emit [where lid = lid], auto intro!: kept)

lemma keeps_handleStateErase: "keeps I (handleStateErase V lid)"
  unfolding handleStateErase_def by (rule keeps_with_leased) (rule on_emit [where lid = lid], auto intro!: kept)

lemma silent_snapshotOwnedBy: "silent (snapshotOwnedBy V udid sid)"
  by (auto simp: snapshotOwnedBy_def silent_def seq_def call_def ret_def split: prod.splits option.splits)

lemma keeps_handleStateSnapshotsDelete: "keeps I (handleStateSnapshotsDelete V lid sid)"
  unfolding handleStateSnapshotsDelete_def
proof (rule keeps_with_leased, rule on_silent [OF silent_snapshotOwnedBy keeps_snapshotOwnedBy], goal_cases)
  case (1 udid bad)
  have "keeps_on (\<lambda>tr. held_by tr lid udid) I (seq (emit_event (StateSent lid udid ''snapshots.delete'')) (\<lambda>_.
            seq (call (v_DeleteSnapshot V sid)) (\<lambda>err.
            seq (recordState V lid ''state.snapshots.delete'' [(''udid'', JStr udid), (''id'', JStr sid)] err) (\<lambda>_.
            ret (case err of Some e \<Rightarrow> state_reply V e | None \<Rightarrow> Reply 200 ())))))"
    by (rule on_emit [where lid = lid and udid = udid]) (auto intro!: kept)
  then show ?case by (auto intro!: on_keeps [OF keeps_ret] split: option.splits)
qed

text \<open>The dashboard's reservation.\<close>

lemma reserved:
  assumes "dashReserveTarget V udid s = (Some None, s')"
  shows "\<exists>tr. sv_trace s' = Reserved udid (False, True) # tr"
  using assms
  by (auto simp: dashReserveTarget_def leases_Reserve_def busy_def seq_Some call_def emit_event_def update_def ret_def split: prod.splits if_splits)

lemma keeps_dash_op:
  assumes "keeps_on (\<lambda>tr. held_by tr [] udid) I op"
  shows "keeps I (handleDashTargetOp V udid op)"
proof (cases "dashGate V")
  case (Some r)
  then show ?thesis by (cases r) (simp add: handleDashTargetOp_def keeps_ret)
next
  case None
  let ?body = "deferred
                 (seq op (\<lambda>err.
                  (case err of
                     Some e \<Rightarrow> (case targetOpErr e of (status, code) \<Rightarrow> ret (Refuse status (mk_error code [T (v_pool_text V e)])))
                   | None \<Rightarrow>
                       seq (call (v_reg_Get V udid)) (\<lambda>t.
                       (case t of
                          Inl e \<Rightarrow> refuse_with 500 ''internal'' [RegText e]
                        | Inr t \<Rightarrow> seq (call (v_broadcast V ''target.state'')) (\<lambda>_. ret (Reply 202 t)))))))
                 (seq (emit_event (Unreserved udid)) (\<lambda>_. call (v_Unreserve V udid)))"
  have body: "keeps_on (\<lambda>tr. held_by tr [] udid) I ?body"
    by (intro on_deferred on_seq assms kept) simp
  show ?thesis
    unfolding keeps_def
  proof (intro allI impI)
    fix s assume s: "I s"
    obtain r s' where d: "dashReserveTarget V udid s = (r, s')" by (cases "dashReserveTarget V udid s")
    have i: "I s'" using keepsD [OF keeps_dashReserveTarget s d] .
    show "I (snd (handleDashTargetOp V udid op s))"
    proof (cases r)
      case None
      then show ?thesis using d i \<open>dashGate V = None\<close> by (simp add: handleDashTargetOp_def seq_def)
    next
      case (Some bad)
      show ?thesis
      proof (cases bad)
        case (Some b)
        then show ?thesis using d i \<open>dashGate V = None\<close> \<open>r = Some bad\<close>
          by (cases b) (simp add: handleDashTargetOp_def seq_def ret_def)
      next
        case None
        then obtain tr where "sv_trace s' = Reserved udid (False, True) # tr" using reserved d \<open>r = Some bad\<close> by blast
        then have "I (snd (?body s'))" using body i by (simp add: keeps_on_def)
        then show ?thesis using d \<open>dashGate V = None\<close> \<open>r = Some bad\<close> None by (simp add: handleDashTargetOp_def seq_def)
      qed
    qed
  qed
qed

lemma keeps_handleDashBoot: "keeps I (handleDashBoot V udid)"
  unfolding handleDashBoot_def by (intro keeps_dash_op on_bootTarget) (simp add: bare_lease_def)

lemma keeps_handleDashShutdown: "keeps I (handleDashShutdown V udid)"
  unfolding handleDashShutdown_def by (intro keeps_dash_op on_shutdownTarget) (simp add: bare_lease_def)

end

section \<open>The monitor\<close>

fun covered :: "server_event list \<Rightarrow> bool" where
  "covered [] = True"
| "covered (e # tr) = ((\<forall>lid udid. touches e lid udid \<longrightarrow> held_by tr lid udid) \<and> covered tr)"

lemma covered_plain: "(\<And>lid udid. \<not> touches e lid udid) \<Longrightarrow> covered (e # tr) = covered tr"
  by simp

lemma plain_no_touch: "plain_event e \<Longrightarrow> \<not> touches e lid udid"
  by (cases e) auto

lemma touches_unique: "touches e lid udid \<Longrightarrow> touches e lid' udid' \<Longrightarrow> lid = lid' \<and> udid = udid'"
  by (cases e) auto

lemma covered_split: "covered (a @ e # b) \<Longrightarrow> touches e lid udid \<Longrightarrow> held_by b lid udid"
  by (induction a) auto

interpretation t: touch_inv "\<lambda>s :: 'w server. covered (sv_trace s)"
  by unfold_locales (auto simp: plain_no_touch dest: touches_unique)

definition is_run :: "request \<Rightarrow> bool" where
  "is_run r = (case r of ExecuteRun _ \<Rightarrow> True | _ \<Rightarrow> False)"

lemma coveredD: "keeps (\<lambda>s. covered (sv_trace s)) m \<Longrightarrow> covered (sv_trace s) \<Longrightarrow> covered (sv_trace (snd (m s)))"
  by (simp add: keeps_def)

lemma serve_covered: "covered (sv_trace s) \<Longrightarrow> \<not> is_run r \<Longrightarrow> covered (sv_trace (serve V r s))"
  by (cases r)
    (auto simp: is_run_def intro!: coveredD t.keeps_handleAction t.keeps_handleActionBatch t.keeps_handleBoot t.keeps_handleShutdown
      t.keeps_handleStateFixture t.keeps_handleAcquireLease t.keeps_handleGetLease t.keeps_handleRenewLease
      t.keeps_handlePauseLease t.keeps_handleResumeLease t.keeps_handleReleaseLease t.keeps_handleListTargets
      t.keeps_handleStateSnapshot t.keeps_handleStateRestore t.keeps_handleStateErase t.keeps_handleStateSnapshotsList
      t.keeps_handleStateSnapshotsDelete t.keeps_handleClearQuarantine t.keeps_handleDashBoot t.keeps_handleDashShutdown
      t.keeps_handleDashReleaseLease t.keeps_EventSink t.keeps_ResetSink t.keeps_NoteShutdown t.keeps_NoteBoot)

lemma serve_all_covered: "covered (sv_trace s) \<Longrightarrow> list_all (\<lambda>r. \<not> is_run r) reqs \<Longrightarrow> covered (sv_trace (fold (serve V) reqs s))"
  by (induction reqs arbitrary: s) (auto intro: serve_covered)



text \<open>
  Runs are excepted: their fixtures are applied without another look at the lease. Here the lease ends
  while the run waits for the boot, and the fixture is applied all the same (the state engine of these
  services refuses it).
\<close>

lemma run_fixture_after_release:
  "let V = desk_services\<lparr>v_Health := \<lambda>udid w. (Some (StateBooted, None), w\<lparr>dk_over := True\<rparr>),
       v_ApplyFixture := \<lambda>udid name p w. (Some (if dk_over w then Some StateOther else None), w)\<rparr>;
     run = desk_run [];
     spec = (rn_Spec run)\<lparr>sp_Target := ios_target\<lparr>tg_Fixtures := [\<lparr>fx_Name = ''wipe'', fx_Payload = []\<rparr>]\<rparr>\<rparr>;
     s = snd (executeRun V ((desk_server [])\<lparr>sv_run := run\<lparr>rn_Spec := spec\<rparr>\<rparr>))
   in rn_State (sv_run s) = RunFailed \<and> rn_Stage (sv_run s) = StageFixtures \<and>
      list_ex (\<lambda>e. e = FixtureSent ''SIM'' ''wipe'') (sv_trace s)"
  by code_simp

end
