(* ===== verification/Mz_RunStore.thy ===== *)
theory Mz_RunStore
  imports Mz_RunSpecProps
begin

text \<open>
  The store of runs (\<^verbatim>\<open>internal/server/runs_store.go\<close>) and its handlers (\<^verbatim>\<open>handlers_runs.go\<close>): at most four runs execute at
  once, and the most recent finished ones are kept. The identifiers are random bytes, an argument
  here; a map is iterated in any order, the argument \<open>order\<close>. A run's goroutine frees its slot
  and closes its channel in two steps, between which others go on.
\<close>

section \<open>The store\<close>

record run_handle =
  h_run :: Mz_RunSpec.run
  h_done :: bool          \<comment> \<open>the channel \<^verbatim>\<open>done\<close> is closed\<close>

record run_store =
  rs_runs :: "string \<rightharpoonup> run_handle"
  rs_active :: int

definition maxConcurrentRuns :: int where "maxConcurrentRuns = 4"
definition maxFinishedRuns :: nat where "maxFinishedRuns = 64"

definition newRunStore :: run_store where "newRunStore = \<lparr>rs_runs = Map.empty, rs_active = 0\<rparr>"

definition new_run :: "run_spec \<Rightarrow> string \<Rightarrow> string \<Rightarrow> instant \<Rightarrow> Mz_RunSpec.run" where
  "new_run spec agentID rid now =
     \<lparr>rn_ID = rid, rn_State = RunPending, rn_Spec = spec, rn_AgentID = agentID, rn_LeaseID = [], rn_TargetUDID = [],
      rn_Stage = NoStage, rn_Steps = [], rn_Verdict = NoVerdict, rn_Error = None, rn_CreatedAt = now, rn_StartedAt = None,
      rn_FinishedAt = None, rn_ExportMD = [], rn_Host = [], rn_HostAddr = []\<rparr>"

text \<open>The finished runs of a store, in the order of the map's iteration, then by creation.\<close>

definition finished :: "run_store \<Rightarrow> string list \<Rightarrow> string list" where
  "finished s order = filter (\<lambda>i. case rs_runs s i of Some h \<Rightarrow> h_done h | None \<Rightarrow> False) order"

definition created_at :: "run_store \<Rightarrow> string \<Rightarrow> instant" where
  "created_at s i = (case rs_runs s i of Some h \<Rightarrow> rn_CreatedAt (h_run h) | None \<Rightarrow> 0)"

definition drop_runs :: "string list \<Rightarrow> run_store \<Rightarrow> run_store" where
  "drop_runs ids s = s\<lparr>rs_runs := (\<lambda>i. if i \<in> set ids then None else rs_runs s i)\<rparr>"

definition pruneLocked :: "string list \<Rightarrow> run_store \<Rightarrow> run_store" where
  "pruneLocked order s =
     (let fin = finished s order in
      if length fin \<le> maxFinishedRuns then s
      else drop_runs (take (length fin - maxFinishedRuns) (sort_key (created_at s) fin)) s)"

text \<open>\<^verbatim>\<open>create\<close> with the identifier it draws, the time and the order in which it walks the map.\<close>

definition create :: "run_spec \<Rightarrow> string \<Rightarrow> string \<Rightarrow> instant \<Rightarrow> string list \<Rightarrow> run_store \<Rightarrow> Mz_RunSpec.run option \<times> run_store" where
  "create spec agentID rid now order s =
     (if rs_active s \<ge> maxConcurrentRuns then (None, s)
      else
        let r = new_run spec agentID rid now;
            s = s\<lparr>rs_active := rs_active s + 1, rs_runs := (rs_runs s)(rid \<mapsto> \<lparr>h_run = r, h_done = False\<rparr>)\<rparr>
        in (Some r, pruneLocked order s))"

text \<open>\<^verbatim>\<open>finish\<close>: the slot is freed under the lock, the channel closed after it.\<close>

definition release_slot :: "run_store \<Rightarrow> run_store" where "release_slot s = s\<lparr>rs_active := rs_active s - 1\<rparr>"

definition on_handle :: "(run_handle \<Rightarrow> run_handle) \<Rightarrow> string \<Rightarrow> run_store \<Rightarrow> run_store" where
  "on_handle f i s = s\<lparr>rs_runs := (rs_runs s)(i := map_option f (rs_runs s i))\<rparr>"

definition close_done :: "string \<Rightarrow> run_store \<Rightarrow> run_store" where
  "close_done = on_handle (\<lambda>h. h\<lparr>h_done := True\<rparr>)"

text \<open>\<^verbatim>\<open>update\<close> of a handle that is still in the store.\<close>

definition update_run :: "(Mz_RunSpec.run \<Rightarrow> Mz_RunSpec.run) \<Rightarrow> string \<Rightarrow> run_store \<Rightarrow> run_store" where
  "update_run f = on_handle (\<lambda>h. h\<lparr>h_run := f (h_run h)\<rparr>)"

definition store_get :: "run_store \<Rightarrow> string \<Rightarrow> Mz_RunSpec.run option" where
  "store_get s i = map_option h_run (rs_runs s i)"

definition store_list :: "string list \<Rightarrow> run_store \<Rightarrow> Mz_RunSpec.run list" where
  "store_list order s = sort_key (\<lambda>r. - rn_CreatedAt r) (concat (map (\<lambda>i. case store_get s i of Some r \<Rightarrow> [r] | None \<Rightarrow> []) order))"

section \<open>The handlers\<close>

datatype run_reply =
    RunRefused int wire_error
  | RunAccepted Mz_RunSpec.run       \<comment> \<open>202, and the run goes on\<close>
  | RunAwaited string                \<comment> \<open>the answer is the run once its channel is closed\<close>

record create_request =
  rq_Spec :: run_spec
  rq_AgentID :: string
  rq_SessionID :: string
  rq_Async :: bool

definition NormalizeAgentID_run :: "create_request \<Rightarrow> create_request" where
  "NormalizeAgentID_run r = (if rq_AgentID r = [] then r\<lparr>rq_AgentID := rq_SessionID r\<rparr> else r)"

definition handleRunCreate :: "build \<Rightarrow> string \<Rightarrow> instant \<Rightarrow> string list \<Rightarrow> create_request \<Rightarrow> run_store \<Rightarrow> run_reply \<times> run_store" where
  "handleRunCreate bd rid now order req0 s =
     (let req = NormalizeAgentID_run req0 in
      if rq_AgentID req = [] then
        (RunRefused 400 (mk_error ''bad_request'' [T ''agent_id is required (session_id is accepted as an alias)'']), s)
      else if \<not> bd_leases bd then
        (RunRefused 501 (mk_error ''not_implemented'' [T ''leases are not available in this build'']), s)
      else
        (case validateRunSpec bd (rq_Spec req) of
           Some e \<Rightarrow> (RunRefused (if we_Code e = ''not_implemented'' then 501 else 400) e, s)
         | None \<Rightarrow>
             (case create (rq_Spec req) (rq_AgentID req) rid now order s of
                (None, s') \<Rightarrow>
                  (RunRefused 503 ((mk_error ''overloaded'' [T ''too many runs in flight; retry when one finishes''])\<lparr>we_RetryAfterSeconds := 30\<rparr>), s')
              | (Some r, s') \<Rightarrow> (if rq_Async req then RunAccepted r else RunAwaited (rn_ID r), s'))))"

definition handleRunList :: "string list \<Rightarrow> run_store \<Rightarrow> Mz_RunSpec.run list" where
  "handleRunList order s = map (\<lambda>r. r\<lparr>rn_ExportMD := []\<rparr>) (store_list order s)"

definition handleRunGet :: "string \<Rightarrow> run_store \<Rightarrow> (int \<times> wire_error) + Mz_RunSpec.run" where
  "handleRunGet i s = (case store_get s i of
      None \<Rightarrow> Inl (404, mk_error ''not_found'' [T ''run not found''])
    | Some r \<Rightarrow> Inr r)"

section \<open>The daemon's runs\<close>

text \<open>Where the goroutine of a run is.\<close>

datatype phase = Unborn | Executing | SlotFreed | Closed

record run_sys =
  ys_store :: run_store
  ys_phase :: "string \<Rightarrow> phase"

definition any_order :: "run_store \<Rightarrow> string list \<Rightarrow> bool" where
  "any_order s order \<longleftrightarrow> distinct order \<and> set order = dom (rs_runs s)"

text \<open>A fresh identifier was not drawn before; the order walks the map with the new run in it.\<close>

inductive store_step :: "run_sys \<Rightarrow> run_sys \<Rightarrow> bool" where
  created: "ys_phase y rid = Unborn \<Longrightarrow> distinct order \<Longrightarrow> set order = insert rid (dom (rs_runs (ys_store y))) \<Longrightarrow>
    create spec agentID rid now order (ys_store y) = (Some r, s') \<Longrightarrow>
    store_step y \<lparr>ys_store = s', ys_phase = (ys_phase y)(rid := Executing)\<rparr>"
| updated: "ys_phase y rid = Executing \<Longrightarrow> (\<And>r. rn_CreatedAt (f r) = rn_CreatedAt r \<and> rn_ID (f r) = rn_ID r) \<Longrightarrow>
    store_step y (y\<lparr>ys_store := update_run f rid (ys_store y)\<rparr>)"
| freed: "ys_phase y rid = Executing \<Longrightarrow>
    store_step y \<lparr>ys_store = release_slot (ys_store y), ys_phase = (ys_phase y)(rid := SlotFreed)\<rparr>"
| closed: "ys_phase y rid = SlotFreed \<Longrightarrow>
    store_step y \<lparr>ys_store = close_done rid (ys_store y), ys_phase = (ys_phase y)(rid := Closed)\<rparr>"

definition started :: run_sys where "started = \<lparr>ys_store = newRunStore, ys_phase = (\<lambda>_. Unborn)\<rparr>"

inductive reached :: "run_sys \<Rightarrow> bool" where
  at_start: "reached started"
| later: "reached y \<Longrightarrow> store_step y y' \<Longrightarrow> reached y'"

inductive_cases store_stepE: "store_step y y'"

section \<open>The invariant\<close>

definition store_ok :: "run_sys \<Rightarrow> bool" where
  "store_ok y \<longleftrightarrow>
     finite {i. ys_phase y i \<noteq> Unborn} \<and>
     rs_active (ys_store y) = int (card {i. ys_phase y i = Executing}) \<and>
     (\<forall>i. ys_phase y i = Executing \<or> ys_phase y i = SlotFreed \<longrightarrow>
        (\<exists>h. rs_runs (ys_store y) i = Some h \<and> \<not> h_done h)) \<and>
     (\<forall>i h. rs_runs (ys_store y) i = Some h \<longrightarrow> rn_ID (h_run h) = i \<and>
        (h_done h \<longleftrightarrow> ys_phase y i = Closed) \<and> ys_phase y i \<noteq> Unborn)"

lemma executing_finite: "store_ok y \<Longrightarrow> finite {i. ys_phase y i = Executing}"
  unfolding store_ok_def by (elim conjE) (erule finite_subset [rotated], auto)

lemma finished_done: "i \<in> set (finished s order) \<longleftrightarrow> i \<in> set order \<and> (\<exists>h. rs_runs s i = Some h \<and> h_done h)"
  by (auto simp: finished_def split: option.splits)

lemma pruned_lookup:
  "rs_runs (pruneLocked order s) i = rs_runs s i \<or> rs_runs (pruneLocked order s) i = None \<and> (\<exists>h. rs_runs s i = Some h \<and> h_done h)"
proof -
  have "i \<in> set (take n (sort_key (created_at s) (finished s order))) \<Longrightarrow> \<exists>h. rs_runs s i = Some h \<and> h_done h" for n
    using finished_done set_take_subset by (metis set_sort subsetD)
  then show ?thesis by (auto simp: pruneLocked_def drop_runs_def Let_def)
qed

lemma pruned_active [simp]: "rs_active (pruneLocked order s) = rs_active s"
  by (simp add: pruneLocked_def drop_runs_def Let_def)

lemma live_handle: "store_ok y \<Longrightarrow> ys_phase y i = Executing \<or> ys_phase y i = SlotFreed \<Longrightarrow>
    \<exists>h. rs_runs (ys_store y) i = Some h \<and> \<not> h_done h"
  unfolding store_ok_def by blast

lemma any_handle: "store_ok y \<Longrightarrow> rs_runs (ys_store y) i = Some h \<Longrightarrow>
    rn_ID (h_run h) = i \<and> (h_done h \<longleftrightarrow> ys_phase y i = Closed) \<and> ys_phase y i \<noteq> Unborn"
  unfolding store_ok_def by blast

lemma finite_born: "finite {i. f i \<noteq> Unborn} \<Longrightarrow> finite {i. (f(r := p)) i \<noteq> Unborn}"
  by (rule finite_subset [of _ "insert r {i. f i \<noteq> Unborn}"]) auto

lemma born_finite: "store_ok y \<Longrightarrow> finite {i. ys_phase y i \<noteq> Unborn}"
  by (simp add: store_ok_def)

lemma created_ok:
  assumes "store_ok y" "ys_phase y rid = Unborn" "create spec agentID rid now order (ys_store y) = (Some r, s')"
  shows "store_ok \<lparr>ys_store = s', ys_phase = (ys_phase y)(rid := Executing)\<rparr>"
proof -
  let ?s = "ys_store y" and ?p = "(ys_phase y)(rid := Executing)"
  let ?s1 = "?s\<lparr>rs_active := rs_active ?s + 1, rs_runs := (rs_runs ?s)(rid \<mapsto> \<lparr>h_run = new_run spec agentID rid now, h_done = False\<rparr>)\<rparr>"
  have s': "s' = pruneLocked order ?s1" using assms(3) by (auto simp: create_def Let_def split: if_splits)
  have e: "{i. ?p i = Executing} = insert rid {i. ys_phase y i = Executing}" by auto
  have n: "rid \<notin> {i. ys_phase y i = Executing}" using assms(2) by simp
  have f: "finite {i. ?p i \<noteq> Unborn}" using finite_born [OF born_finite [OF assms(1)]] .
  have act: "rs_active s' = int (card {i. ?p i = Executing})"
    using assms(1) executing_finite [OF assms(1)] n unfolding s' e by (simp add: store_ok_def)
  have keep: "rs_runs s' i = rs_runs ?s1 i \<or> rs_runs s' i = None \<and> (\<exists>h. rs_runs ?s1 i = Some h \<and> h_done h)" for i
    unfolding s' by (rule pruned_lookup)
  have ok: "(\<forall>i. ys_phase y i = Executing \<or> ys_phase y i = SlotFreed \<longrightarrow> (\<exists>h. rs_runs ?s i = Some h \<and> \<not> h_done h))"
    "(\<forall>i h. rs_runs ?s i = Some h \<longrightarrow> rn_ID (h_run h) = i \<and> (h_done h \<longleftrightarrow> ys_phase y i = Closed) \<and> ys_phase y i \<noteq> Unborn)"
    using assms(1) by (simp_all add: store_ok_def)
  have live: "\<exists>h. rs_runs s' i = Some h \<and> \<not> h_done h" if "?p i = Executing \<or> ?p i = SlotFreed" for i
  proof -
    have "\<exists>h. rs_runs ?s1 i = Some h \<and> \<not> h_done h" using that ok(1) by (cases "i = rid") auto
    then show ?thesis using keep [of i] by auto
  qed
  have all: "rn_ID (h_run h) = i \<and> (h_done h \<longleftrightarrow> ?p i = Closed) \<and> ?p i \<noteq> Unborn" if "rs_runs s' i = Some h" for i h
  proof -
    have "rs_runs ?s1 i = Some h" using that keep [of i] by auto
    then show ?thesis using ok(2) by (cases "i = rid") (auto simp: new_run_def)
  qed
  show ?thesis using f act live all unfolding store_ok_def by (simp only: run_sys.simps) blast
qed

lemma freed_ok:
  assumes "store_ok y" "ys_phase y rid = Executing"
  shows "store_ok \<lparr>ys_store = release_slot (ys_store y), ys_phase = (ys_phase y)(rid := SlotFreed)\<rparr>"
proof -
  let ?X = "{i. ys_phase y i = Executing}" and ?p = "(ys_phase y)(rid := SlotFreed)"
  have e: "{i. ?p i = Executing} = ?X - {rid}" by auto
  have "card (?X - {rid}) = card ?X - 1" "card ?X > 0"
    using executing_finite [OF assms(1)] assms(2) by (auto simp: card_Diff_singleton card_gt_0_iff)
  then have act: "rs_active (release_slot (ys_store y)) = int (card {i. ?p i = Executing})"
    using assms(1) unfolding e by (simp add: store_ok_def release_slot_def of_nat_diff)
  have f: "finite {i. ?p i \<noteq> Unborn}" using finite_born [OF born_finite [OF assms(1)]] .
  have "\<exists>h. rs_runs (ys_store y) i = Some h \<and> \<not> h_done h" if "?p i = Executing \<or> ?p i = SlotFreed" for i
    using that live_handle [OF assms(1), of i] assms(2) by (auto split: if_splits)
  moreover have "rn_ID (h_run h) = i \<and> (h_done h \<longleftrightarrow> ?p i = Closed) \<and> ?p i \<noteq> Unborn" if "rs_runs (ys_store y) i = Some h" for i h
    using any_handle [OF assms(1) that] assms(2) by auto
  ultimately show ?thesis using act f unfolding store_ok_def by (simp only: run_sys.simps) (simp add: release_slot_def)
qed

lemma closed_ok:
  assumes "store_ok y" "ys_phase y rid = SlotFreed"
  shows "store_ok \<lparr>ys_store = close_done rid (ys_store y), ys_phase = (ys_phase y)(rid := Closed)\<rparr>"
proof -
  let ?p = "(ys_phase y)(rid := Closed)" and ?s = "close_done rid (ys_store y)"
  have e: "{i. ?p i = Executing} = {i. ys_phase y i = Executing}" using assms(2) by auto
  have f: "finite {i. ?p i \<noteq> Unborn}" using finite_born [OF born_finite [OF assms(1)]] .
  have act: "rs_active ?s = int (card {i. ?p i = Executing})"
    using assms(1) unfolding e by (simp add: store_ok_def close_done_def on_handle_def)
  have l: "rs_runs ?s i = (if i = rid then map_option (\<lambda>h. h\<lparr>h_done := True\<rparr>) (rs_runs (ys_store y) i) else rs_runs (ys_store y) i)" for i
    by (simp add: close_done_def on_handle_def)
  have "\<exists>h. rs_runs ?s i = Some h \<and> \<not> h_done h" if "?p i = Executing \<or> ?p i = SlotFreed" for i
    using that live_handle [OF assms(1), of i] by (auto simp: l split: if_splits)
  moreover have "rn_ID (h_run h) = i \<and> (h_done h \<longleftrightarrow> ?p i = Closed) \<and> ?p i \<noteq> Unborn" if "rs_runs ?s i = Some h" for i h
    using that any_handle [OF assms(1)] by (fastforce simp: l split: if_splits)
  ultimately show ?thesis using act f unfolding store_ok_def by (simp only: run_sys.simps) blast
qed

lemma updated_ok:
  assumes "store_ok y" "\<And>r. rn_CreatedAt (f r) = rn_CreatedAt r \<and> rn_ID (f r) = rn_ID r"
  shows "store_ok (y\<lparr>ys_store := update_run f rid (ys_store y)\<rparr>)"
proof -
  have l: "rs_runs (update_run f rid (ys_store y)) i = map_option (\<lambda>h. if i = rid then h\<lparr>h_run := f (h_run h)\<rparr> else h) (rs_runs (ys_store y) i)" for i
    by (cases "rs_runs (ys_store y) i") (auto simp: update_run_def on_handle_def)
  have a: "rs_active (update_run f rid (ys_store y)) = rs_active (ys_store y)" by (simp add: update_run_def on_handle_def)
  have live: "\<exists>h. rs_runs (update_run f rid (ys_store y)) i = Some h \<and> \<not> h_done h"
    if st: "ys_phase y i = Executing \<or> ys_phase y i = SlotFreed" for i
  proof -
    obtain h where "rs_runs (ys_store y) i = Some h" "\<not> h_done h" using live_handle [OF assms(1) st] by blast
    then show ?thesis by (simp add: l)
  qed
  have all: "rn_ID (h_run h) = i \<and> (h_done h \<longleftrightarrow> ys_phase y i = Closed) \<and> ys_phase y i \<noteq> Unborn"
    if st: "rs_runs (update_run f rid (ys_store y)) i = Some h" for i h
  proof -
    obtain h0 where h0: "rs_runs (ys_store y) i = Some h0" using st l by (cases "rs_runs (ys_store y) i") auto
    with st have h: "rs_runs (ys_store y) i = Some h0" "h = (if i = rid then h0\<lparr>h_run := f (h_run h0)\<rparr> else h0)"
      by (simp_all add: l)
    then have "rn_ID (h_run h0) = i \<and> (h_done h0 \<longleftrightarrow> ys_phase y i = Closed) \<and> ys_phase y i \<noteq> Unborn" using any_handle [OF assms(1)] by blast
    then show ?thesis using h(2) assms(2) by auto
  qed
  have "y\<lparr>ys_store := update_run f rid (ys_store y)\<rparr> = \<lparr>ys_store = update_run f rid (ys_store y), ys_phase = ys_phase y\<rparr>" by simp
  then show ?thesis using live all assms(1) a unfolding store_ok_def by (simp only: run_sys.simps) blast
qed

lemma reached_ok: "reached y \<Longrightarrow> store_ok y"
proof (induction rule: reached.induct)
  case at_start
  show ?case by (simp add: started_def newRunStore_def store_ok_def)
next
  case (later y y')
  from later(2) show ?case
    by (cases rule: store_stepE) (auto intro: created_ok freed_ok closed_ok updated_ok later.IH)
qed

lemma active_bounded: "reached y \<Longrightarrow> rs_active (ys_store y) \<le> maxConcurrentRuns"
proof (induction rule: reached.induct)
  case at_start
  show ?case by (simp add: started_def newRunStore_def maxConcurrentRuns_def)
next
  case (later y y')
  from later(2) show ?case
    by (cases rule: store_stepE)
      (use later.IH in \<open>auto simp: create_def Let_def release_slot_def close_done_def update_run_def on_handle_def split: if_splits\<close>)
qed

text \<open>
  C16. The runs in flight. In every state the daemon reaches, however its runs' goroutines interleave: the
  counter is the number of runs that execute, at most four; a run whose channel is open is in the
  store, under its identifier, and can be looked up; and a new run is refused exactly when four execute.
\<close>

theorem run_store_safe:
  assumes "reached y"
  shows "rs_active (ys_store y) = int (card {i. ys_phase y i = Executing}) \<and> card {i. ys_phase y i = Executing} \<le> 4 \<and>
    (\<forall>i. ys_phase y i = Executing \<or> ys_phase y i = SlotFreed \<longrightarrow>
       (\<exists>r. store_get (ys_store y) i = Some r \<and> rn_ID r = i)) \<and>
    (fst (create spec agentID rid now order (ys_store y)) = None \<longleftrightarrow> card {i. ys_phase y i = Executing} = 4)"
proof -
  have ok: "store_ok y" using reached_ok [OF assms] .
  have c: "rs_active (ys_store y) = int (card {i. ys_phase y i = Executing})" using ok by (simp add: store_ok_def)
  then have b: "card {i. ys_phase y i = Executing} \<le> 4" using active_bounded [OF assms] by (simp add: maxConcurrentRuns_def)
  have "\<exists>r. store_get (ys_store y) i = Some r \<and> rn_ID r = i" if "ys_phase y i = Executing \<or> ys_phase y i = SlotFreed" for i
    using ok that unfolding store_ok_def store_get_def by (metis (no_types, lifting) option.map(2))
  moreover have "fst (create spec agentID rid now order (ys_store y)) = None \<longleftrightarrow> card {i. ys_phase y i = Executing} = 4"
    using b c by (auto simp: create_def Let_def maxConcurrentRuns_def)
  ultimately show ?thesis using b c by blast
qed

theorem run_store_safe_witness:
  "\<exists>y. reached y \<and> rs_active (ys_store y) = 1 \<and> (\<exists>r. store_get (ys_store y) ''R1'' = Some r \<and> rn_ID r = ''R1'')"
proof -
  let ?spec = "plain_spec []"
  let ?c = "create ?spec ''agent'' ''R1'' 5 [''R1''] newRunStore"
  let ?y = "\<lparr>ys_store = snd ?c, ys_phase = (\<lambda>_. Unborn)(''R1'' := Executing)\<rparr>"
  have c: "?c = (Some (new_run ?spec ''agent'' ''R1'' 5), snd ?c)"
    by (simp add: create_def newRunStore_def maxConcurrentRuns_def Let_def)
  have "store_step started ?y"
    using store_step.created [of started "''R1''" "[''R1'']" ?spec "''agent''" 5 "new_run ?spec ''agent'' ''R1'' 5" "snd ?c"] c
    by (simp add: started_def newRunStore_def)
  then have r: "reached ?y" using reached.intros by blast
  have x: "{i. ys_phase ?y i = Executing} = {''R1''}" by auto
  show ?thesis using run_store_safe [OF r, of ?spec "[]" "[]" 0 "[]"] r x by (intro exI [of _ ?y]) auto
qed

text \<open>What pruning keeps: the newest finished runs, as many as allowed.\<close>

lemma finished_distinct: "distinct order \<Longrightarrow> distinct (finished s order)"
  by (simp add: finished_def)

lemma prune_keeps_newest:
  assumes "distinct order" "i \<in> set (finished s order)" "rs_runs (pruneLocked order s) i = None"
    and "j \<in> set (finished s order)" "rs_runs (pruneLocked order s) j \<noteq> None"
  shows "created_at s i \<le> created_at s j"
proof -
  let ?fin = "finished s order" and ?key = "created_at s"
  let ?n = "length ?fin - maxFinishedRuns"
  let ?so = "sort_key ?key ?fin"
  have big: "\<not> length ?fin \<le> maxFinishedRuns"
    using assms(2,3) finished_done by (fastforce simp: pruneLocked_def Let_def)
  then have i: "i \<in> set (take ?n ?so)" and j: "j \<notin> set (take ?n ?so)"
    using assms(2-5) finished_done by (fastforce simp: pruneLocked_def Let_def drop_runs_def split: if_splits)+
  have "j \<in> set (drop ?n ?so)" using assms(4) j by (metis Un_iff append_take_drop_id set_append set_sort)
  moreover have "sorted (map ?key (take ?n ?so @ drop ?n ?so))" by (simp del: append_take_drop_id add: append_take_drop_id)
  ultimately show ?thesis using i by (fastforce simp: sorted_append simp del: append_take_drop_id)
qed

lemma prune_bound:
  assumes "distinct order" "set order = dom (rs_runs s)"
  shows "card {i. \<exists>h. rs_runs (pruneLocked order s) i = Some h \<and> h_done h} \<le> maxFinishedRuns"
proof -
  let ?fin = "finished s order"
  let ?so = "sort_key (created_at s) ?fin"
  let ?n = "length ?fin - maxFinishedRuns"
  show ?thesis
  proof (cases "length ?fin \<le> maxFinishedRuns")
    case True
    have "{i. \<exists>h. rs_runs s i = Some h \<and> h_done h} = set ?fin" using finished_done assms(2) by (auto simp: finished_def split: option.splits)
    then show ?thesis using True card_length [of ?fin] by (simp add: pruneLocked_def Let_def)
  next
    case False
    have "{i. \<exists>h. rs_runs (pruneLocked order s) i = Some h \<and> h_done h} \<subseteq> set (drop ?n ?so)"
    proof
      fix i assume "i \<in> {i. \<exists>h. rs_runs (pruneLocked order s) i = Some h \<and> h_done h}"
      then obtain h where h: "rs_runs (pruneLocked order s) i = Some h" "h_done h" by blast
      then have "rs_runs s i = Some h" "i \<notin> set (take ?n ?so)"
        using False by (auto simp: pruneLocked_def Let_def drop_runs_def split: if_splits)
      then have "i \<in> set ?so" using h(2) assms(2) by (auto simp: finished_def split: option.splits)
      then show "i \<in> set (drop ?n ?so)" using \<open>i \<notin> set (take ?n ?so)\<close> by (metis Un_iff append_take_drop_id set_append)
    qed
    then have "card {i. \<exists>h. rs_runs (pruneLocked order s) i = Some h \<and> h_done h} \<le> length (drop ?n ?so)"
      using card_length card_mono [OF List.finite_set] order_trans by blast
    then show ?thesis using False by simp
  qed
qed

end
