(* ===== verification/Mz_Export.thy ===== *)
theory Mz_Export
  imports Mz_RunSpec
begin

text \<open>
  Turning a journaled run into a replay specification (\<^verbatim>\<open>internal/journal/exportspec.go\<close>) and into a Markdown
  summary (\<^verbatim>\<open>export.go\<close>). The YAML codec and the formats of times, values and video statistics are
  arguments.
\<close>

section \<open>Replay specifications\<close>

record spec_options =
  so_KeepObservations :: bool
  so_IncludeFailed :: bool
  so_WithExpectations :: bool

definition elided_tail :: string where "elided_tail = '' base64 bytes elided>''"

definition strings_HasSuffix :: "string \<Rightarrow> string \<Rightarrow> bool" where
  "strings_HasSuffix s t \<longleftrightarrow> length t \<le> length s \<and> drop (length s - length t) s = t"

definition IsElidedBlob :: "string \<Rightarrow> bool" where
  "IsElidedBlob s \<longleftrightarrow> strings_HasPrefix s ''<'' \<and> strings_HasSuffix s elided_tail"

definition marker :: string where "marker = ''runs.step_expectation''"

text \<open>\<^verbatim>\<open>payload["params"].(map[string]any)\<close>\<close>

definition entry_params :: "payload \<Rightarrow> payload option" where
  "entry_params p = (case map_of p ''params'' of Some (JObj q) \<Rightarrow> Some q | _ \<Rightarrow> None)"

definition expectFromEntry :: "payload \<Rightarrow> run_expect option" where
  "expectFromEntry p =
     (let texts = (case map_of p ''texts'' of
            Some (JArr xs) \<Rightarrow> concat (map (\<lambda>v. case v of JStr s \<Rightarrow> if s \<noteq> [] then [s] else [] | _ \<Rightarrow> []) xs)
          | _ \<Rightarrow> []);
          fp = strField p ''dhash''
      in if texts = [] \<and> fp = [] then None
         else Some \<lparr>xp_Texts = texts, xp_JaccardMin = 0, xp_Fingerprint = fp, xp_MaxHashDistance = None\<rparr>)"

definition replay_step :: "string \<Rightarrow> payload \<Rightarrow> run_step" where
  "replay_step action params = \<lparr>st_Name = [], st_Action = action, st_With = params, st_TimeoutSeconds = 0,
     st_ContinueOnError = False, st_MaestroFlow = [], st_Expect = None\<rparr>"

text \<open>What one entry does to the specification: ends the export, or changes its steps.\<close>

record spec_state =
  pp_steps :: "run_step list"
  pp_last :: "nat option"       \<comment> \<open>\<^verbatim>\<open>lastMutating\<close>\<close>

definition attach_expect :: "payload \<Rightarrow> spec_state \<Rightarrow> spec_state" where
  "attach_expect p s = (case (pp_last s, expectFromEntry p) of
      (Some i, Some e) \<Rightarrow> s\<lparr>pp_steps := (pp_steps s)[i := (pp_steps s ! i)\<lparr>st_Expect := Some e\<rparr>]\<rparr>
    | _ \<Rightarrow> s)"

definition append_replay :: "string \<Rightarrow> payload \<Rightarrow> spec_state \<Rightarrow> spec_state" where
  "append_replay action params s =
     s\<lparr>pp_steps := pp_steps s @ [replay_step action params],
       pp_last := (if ReadOnlyKind action then pp_last s else Some (length (pp_steps s)))\<rparr>"

definition export_entry :: "spec_options \<Rightarrow> entry \<Rightarrow> spec_state \<Rightarrow> spec_state option" where
  "export_entry opts e s =
     (let p = e_Payload e; action = strField p ''action''; params = entry_params p in
      if so_WithExpectations opts \<and> e_Kind e = ''observation'' \<and> action = marker \<and> pp_last s \<noteq> None then Some (attach_expect p s)
      else if e_Kind e \<noteq> ''action'' then Some s
      else if action = [] \<or> CHR ''.'' \<in> set action then Some s
      else if (case params of Some q \<Rightarrow> strField q ''purpose'' = marker | None \<Rightarrow> False) then Some s
      else if strField p ''status'' = ''error'' \<and> \<not> so_IncludeFailed opts then None
      else if ReadOnlyKind action \<and> \<not> so_KeepObservations opts then Some s
      else
        (case params of
           Some q \<Rightarrow>
             if q = [] then Some (append_replay action [] s)
             else if (case map_of q ''template_base64'' of Some (JStr b64) \<Rightarrow> IsElidedBlob b64 | _ \<Rightarrow> False)
             then Some (if ReadOnlyKind action then s else s\<lparr>pp_last := None\<rparr>)
             else Some (append_replay action q s)
         | None \<Rightarrow> Some (append_replay action [] s)))"

fun export_entries :: "spec_options \<Rightarrow> entry list \<Rightarrow> spec_state \<Rightarrow> spec_state" where
  "export_entries opts [] s = s"
| "export_entries opts (e # es) s = (case export_entry opts e s of None \<Rightarrow> s | Some s' \<Rightarrow> export_entries opts es s')"

definition specName :: "run_meta \<Rightarrow> string" where
  "specName m = (if rm_Purpose m \<noteq> [] then rm_Purpose m else if rm_RunID m \<noteq> [] then ''replay of '' @ rm_RunID m else [])"

definition specTarget :: "run_meta \<Rightarrow> run_target" where
  "specTarget m =
     (let blank = \<lparr>tg_Labels = [], tg_UDID = [], tg_Runtime = [], tg_DeviceType = [], tg_Image = [], tg_Fixtures = [], tg_Reset = []\<rparr> in
      if rm_Runtime m \<noteq> [] \<or> rm_DeviceType m \<noteq> [] then blank\<lparr>tg_Runtime := rm_Runtime m, tg_DeviceType := rm_DeviceType m\<rparr>
      else blank\<lparr>tg_UDID := rm_TargetUDID m\<rparr>)"

definition BuildSpec :: "run_meta \<Rightarrow> entry list \<Rightarrow> spec_options \<Rightarrow> run_spec" where
  "BuildSpec m entries opts =
     \<lparr>sp_Name = specName m, sp_Target = specTarget m, sp_App = None,
      sp_Steps = pp_steps (export_entries opts entries \<lparr>pp_steps = [], pp_last = None\<rparr>),
      sp_Artifacts = \<lparr>af_FinalScreenshot = None, af_Export = None\<rparr>,
      sp_Timeouts = \<lparr>to_AcquireSeconds = 0, to_RunSeconds = 0, to_StepSeconds = 0\<rparr>,
      sp_StrictDrift = False, sp_RecordExpectations = False\<rparr>"

text \<open>The warning about state operations, and the export in YAML, which is parsed again before it is answered.\<close>

definition state_ops :: "entry list \<Rightarrow> string list" where
  "state_ops entries = fold (\<lambda>e ops.
      if e_Kind e \<noteq> ''state'' then ops
      else let op = (if strField (e_Payload e) ''action'' = [] then ''state op'' else strField (e_Payload e) ''action'')
           in if op \<in> set ops then ops else ops @ [op]) entries []"

definition lf_text :: string where "lf_text = [CHR 10]"

definition stateWarning :: "entry list \<Rightarrow> string" where
  "stateWarning entries =
     (let ops = state_ops entries in
      if ops = [] then []
      else ''# WARNING: the recorded run performed state ops ('' @ strings_Join ops '', '' @ '') that are NOT'' @ lf_text @
           ''# reconstructed here (the journal records their names, not their payloads).'' @ lf_text @
           ''# Re-seed equivalent state (target.fixtures / target.reset) before replaying.'' @ lf_text)"

datatype export_error = MarshalSpec | NoRoundTrip "part list option"

record yaml_codec =
  y_marshal :: "run_spec \<Rightarrow> string option"
  y_decode :: "string \<Rightarrow> run_spec option"      \<comment> \<open>with \<^verbatim>\<open>KnownFields(true)\<close>\<close>

text \<open>\<^verbatim>\<open>runspec.Parse\<close>: \<^const>\<open>None\<close> when the document does not decode.\<close>

definition Parse_spec :: "yaml_codec \<Rightarrow> string \<Rightarrow> part list option + run_spec" where
  "Parse_spec y data = (case y_decode y data of
      None \<Rightarrow> Inl None
    | Some spec \<Rightarrow> (case Validate_spec spec of Some e \<Rightarrow> Inl (Some e) | None \<Rightarrow> Inr spec))"

definition ExportSpecYAML :: "yaml_codec \<Rightarrow> run_meta \<Rightarrow> entry list \<Rightarrow> spec_options \<Rightarrow> export_error + string" where
  "ExportSpecYAML y m entries opts =
     (case y_marshal y (BuildSpec m entries opts) of
        None \<Rightarrow> Inl MarshalSpec
      | Some out \<Rightarrow>
          let out = stateWarning entries @ out in
          (case Parse_spec y out of Inl e \<Rightarrow> Inl (NoRoundTrip e) | Inr _ \<Rightarrow> Inr out))"

section \<open>Markdown\<close>

text \<open>The two escapers; each replaces single bytes.\<close>

definition md_char :: "char \<Rightarrow> string" where
  "md_char c =
     (if c = CHR ''|'' then [CHR 92, CHR ''|'']
      else if c = CHR 10 then '' ''
      else if c = CHR 96 then [CHR 92, CHR 96]
      else if c = CHR ''<'' then [CHR 92, CHR ''<'']
      else if c = CHR ''['' then [CHR 92, CHR ''['']
      else if c = CHR ''!'' then [CHR 92, CHR ''!'']
      else [c])"

definition mdEscape :: "string \<Rightarrow> string" where "mdEscape s = concat (map md_char s)"

definition codeEscape :: "string \<Rightarrow> string" where
  "codeEscape s = concat (map (\<lambda>c.
      if c = CHR 96 then [CHR 39] else if c = CHR ''|'' then [CHR 92, CHR ''|''] else if c = CHR 10 then '' '' else [c]) s)"

definition orDash :: "string \<Rightarrow> string" where "orDash s = (if s = [] then [CHR 226, CHR 128, CHR 148] else s)"

definition ellipsis :: string where "ellipsis = [CHR 226, CHR 128, CHR 166]"

text \<open>\<^verbatim>\<open>sortStrings\<close>: each element sinks to the left past the greater ones.\<close>

fun sink_rev :: "string \<Rightarrow> string list \<Rightarrow> string list" where
  "sink_rev x [] = [x]"
| "sink_rev x (y # ys) = (if x < y then y # sink_rev x ys else x # y # ys)"

definition sortStrings :: "string list \<Rightarrow> string list" where
  "sortStrings xs = rev (fold sink_rev xs [])"

text \<open>The formats: \<^verbatim>\<open>time.Format\<close>, \<^verbatim>\<open>%v\<close> of a value, \<^verbatim>\<open>", %.1fs %.1f MiB video"\<close>.\<close>

record formats =
  fm_time :: "instant \<Rightarrow> string"
  fm_value :: "json \<Rightarrow> string"
  fm_video :: "rat \<Rightarrow> rat \<Rightarrow> string"

record export_doc =
  xd_RunID :: string
  xd_Meta :: run_meta
  xd_Entries :: "entry list"
  xd_Failures :: nat

definition BuildExport :: "string \<Rightarrow> run_meta \<Rightarrow> entry list \<Rightarrow> export_doc" where
  "BuildExport runID m entries =
     \<lparr>xd_RunID = runID, xd_Meta = m, xd_Entries = entries,
      xd_Failures = length (filter (\<lambda>e. strField (e_Payload e) ''status'' = ''error'') entries)\<rparr>"

fun cut_first :: "char \<Rightarrow> string \<Rightarrow> string option" where
  "cut_first c [] = None"
| "cut_first c (d # ds) = (if d = c then Some [] else map_option ((#) d) (cut_first c ds))"

fun replace_first :: "char \<Rightarrow> char \<Rightarrow> string \<Rightarrow> string" where
  "replace_first c r [] = []"
| "replace_first c r (d # ds) = (if d = c then r # ds else d # replace_first c r ds)"

definition trim_suffix :: "string \<Rightarrow> string \<Rightarrow> string" where
  "trim_suffix t s = (if strings_HasSuffix s t then take (length s - length t) s else s)"

definition payloadTime :: "payload \<Rightarrow> string" where
  "payloadTime p =
     (let ts = strField p ''ts'';
          ts = (case cut_first (CHR ''.'') ts of Some h \<Rightarrow> if h \<noteq> [] then h @ ''Z'' else ts | None \<Rightarrow> ts)
      in trim_suffix ''Z'' (replace_first (CHR ''T'') (CHR '' '') ts))"

fun drop_parts :: "nat \<Rightarrow> string list \<Rightarrow> string list" where
  "drop_parts 0 ps = ps"
| "drop_parts (Suc n) ps =
     (if ps \<noteq> [] \<and> length (strings_Join ps '' '') > 120 then drop_parts n (butlast ps) else ps)"

definition code_span :: "string \<Rightarrow> string" where "code_span s = [CHR 96] @ s @ [CHR 96]"

definition summarizeParams :: "formats \<Rightarrow> payload \<Rightarrow> string" where
  "summarizeParams F p =
     (case entry_params p of
        None \<Rightarrow> []
      | Some q \<Rightarrow>
          if q = [] then []
          else
            let parts = map (\<lambda>k. code_span (codeEscape (k @ ''='' @ fm_value F (case map_of q k of Some v \<Rightarrow> v | None \<Rightarrow> JNull))))
                          (sortStrings (map fst q));
                s = strings_Join parts '' ''
            in if length s > 120
               then TrimSpace (strings_Join (drop_parts (length parts) parts) '' '' @ '' '' @ code_span ellipsis)
               else s)"

definition recordingDetail :: "formats \<Rightarrow> payload \<Rightarrow> string" where
  "recordingDetail F p =
     (case entry_params p of
        None \<Rightarrow> []
      | Some q \<Rightarrow>
          (case map_of q ''duration_s'' of
             Some (JNum dur) \<Rightarrow>
               let bytes = (case map_of q ''bytes'' of Some (JNum b) \<Rightarrow> b | _ \<Rightarrow> 0) in
               fm_video F dur (bytes / (2 ^ 20)) @
               (if strField q ''reason'' \<noteq> [] then '', '' @ mdEscape (strField q ''reason'') else [])
           | _ \<Rightarrow> []))"

definition artifactNames :: "formats \<Rightarrow> payload \<Rightarrow> int \<Rightarrow> string list" where
  "artifactNames F p sq =
     (case map_of p ''artifacts'' of
        Some (JArr xs) \<Rightarrow>
          concat (map (\<lambda>a. case a of
             JObj m \<Rightarrow>
               let sha = strField m ''sha256''; sha = (if length sha > 12 then take 12 sha else sha) in
               [code_span (strField m ''path'') @ '' (step '' @ dec_int sq @ '', sha256 '' @ code_span (sha @ ellipsis) @ recordingDetail F p @ '')'']
           | _ \<Rightarrow> []) xs)
      | _ \<Rightarrow> [])"

definition md_row :: "string \<Rightarrow> string \<Rightarrow> string" where
  "md_row k v = ''| '' @ k @ '' | '' @ v @ '' |'' @ lf_text"

definition entry_row :: "formats \<Rightarrow> entry \<Rightarrow> string" where
  "entry_row F e =
     (let p = e_Payload e;
          status = mdEscape (strField p ''status'');
          status = (if status = ''error'' then ''**error**'' else status);
          detail = mdEscape (strField p ''error'');
          detail = (if detail = [] then summarizeParams F p else detail)
      in ''| '' @ dec_int (j_Seq (e_Ref e)) @ '' | '' @ payloadTime p @ '' | '' @ mdEscape (e_Kind e) @ '' | '' @
         mdEscape (strField p ''action'') @ '' | '' @ status @ '' | '' @ detail @ '' |'' @ lf_text)"

definition Markdown :: "formats \<Rightarrow> export_doc \<Rightarrow> string" where
  "Markdown F d =
     (let m = xd_Meta d; entries = xd_Entries d; n = dec_nat (length entries);
          artifacts = concat (map (\<lambda>e. artifactNames F (e_Payload e) (j_Seq (e_Ref e))) entries)
      in ''## manzanasd run journal '' @ orDash [] @ '' '' @ code_span (xd_RunID d) @ lf_text @ lf_text @
         ''| | |'' @ lf_text @ ''|---|---|'' @ lf_text @
         md_row ''Format'' (code_span (mdEscape (orDash (rm_FormatVersion m)))) @
         md_row ''Agent'' (mdEscape (orDash (rm_AgentID m))) @
         md_row ''Purpose'' (mdEscape (orDash (rm_Purpose m))) @
         md_row ''Target'' (mdEscape (orDash (rm_TargetName m)) @ '' ('' @ code_span (mdEscape (orDash (rm_TargetUDID m))) @ '')'') @
         md_row ''Runtime'' (mdEscape (orDash (rm_Runtime m))) @
         md_row ''Device type'' (mdEscape (orDash (rm_DeviceType m))) @
         (if rm_CreatedAt m = zero_time then [] else md_row ''Started'' (fm_time F (rm_CreatedAt m))) @
         md_row ''Entries'' n @
         (if xd_Failures d > 0
          then md_row ''Result'' (''**FAILED** ('' @ dec_nat (xd_Failures d) @ '' of '' @ n @ '' steps errored)'')
          else md_row ''Result'' ''ok'') @
         lf_text @ ''### Actions'' @ lf_text @ lf_text @
         ''| # | Time (UTC) | Kind | Action | Status | Detail |'' @ lf_text @
         ''|---|---|---|---|---|---|'' @ lf_text @
         concat (map (entry_row F) entries) @
         (if artifacts = [] then []
          else lf_text @ ''### Artifacts'' @ lf_text @ lf_text @ concat (map (\<lambda>a. ''- '' @ a @ lf_text) artifacts)))"

end
