(* ===== verification/Mz_Replay.thy ===== *)
theory Mz_Replay
  imports Mz_RunSteps Mz_Export
begin

text \<open>
  What the exports show of a run: the specification exported from the journal of a run replays its
  mutating steps; and the escaping of the Markdown summary.
\<close>

section \<open>Exporting with the default options\<close>

definition default_options :: spec_options where
  "default_options = \<lparr>so_KeepObservations = False, so_IncludeFailed = False, so_WithExpectations = False\<rparr>"

datatype verdict_of_entry = Stop | Skip | Add run_step

text \<open>What the export makes of an entry when it keeps neither observations, nor failures, nor expectations.\<close>

definition classify :: "entry \<Rightarrow> verdict_of_entry" where
  "classify e =
     (case export_entry default_options e \<lparr>pp_steps = [], pp_last = None\<rparr> of
        None \<Rightarrow> Stop
      | Some s \<Rightarrow> (case pp_steps s of [] \<Rightarrow> Skip | st # _ \<Rightarrow> Add st))"

fun exported :: "entry list \<Rightarrow> run_step list" where
  "exported [] = []"
| "exported (e # es) = (case classify e of Stop \<Rightarrow> [] | Skip \<Rightarrow> exported es | Add st \<Rightarrow> st # exported es)"

lemma export_entry_default:
  "(case export_entry default_options e s of None \<Rightarrow> classify e = Stop
    | Some s' \<Rightarrow> classify e = Skip \<and> pp_steps s' = pp_steps s \<or> (\<exists>st. classify e = Add st \<and> pp_steps s' = pp_steps s @ [st]))"
  by (auto simp: classify_def export_entry_def default_options_def append_replay_def Let_def split: option.splits if_splits)

lemma export_exported: "pp_steps (export_entries default_options es s) = pp_steps s @ exported es"
proof (induction es arbitrary: s)
  case (Cons e es)
  show ?case
  proof (cases "export_entry default_options e s")
    case None
    then show ?thesis using export_entry_default [of e s] by simp
  next
    case (Some s')
    then show ?thesis using export_entry_default [of e s] Cons.IH [of s'] by auto
  qed
qed simp

lemma exported_append: "\<forall>e \<in> set es. classify e \<noteq> Stop \<Longrightarrow> exported (es @ fs) = exported es @ exported fs"
  by (induction es) (auto split: verdict_of_entry.splits)

section \<open>The journal of a trace\<close>

text \<open>An entry as the recorder appends it.\<close>

definition recorded :: "event \<Rightarrow> entry" where
  "recorded ev = \<lparr>e_Ref = no_ref, e_Kind = (if ev_Kind ev = [] then ''action'' else ev_Kind ev), e_Payload = event_payload ev\<rparr>"

definition journal_of :: "server_event list \<Rightarrow> entry list" where
  "journal_of tr = concat (map (\<lambda>e. case e of Journaled ev \<Rightarrow> [recorded ev] | _ \<Rightarrow> []) (rev tr))"

lemma journal_of_append: "journal_of (a @ b) = journal_of b @ journal_of a"
  by (simp add: journal_of_def)

lemma journal_of_Cons: "journal_of (e # tr) = journal_of tr @ (case e of Journaled ev \<Rightarrow> [recorded ev] | _ \<Rightarrow> [])"
  using journal_of_append [of "[e]" tr] by (simp add: journal_of_def)

lemma map_of_pset: "map_of (pset k v p) k' = (if k' = k then Some v else map_of p k')"
proof -
  have "map_of (filter (\<lambda>x. fst x \<noteq> k) p) k' = (if k' = k then None else map_of p k')" by (induction p) auto
  then show ?thesis by (auto simp: pset_def map_add_def split: option.splits)
qed

lemma map_of_pset_if: "map_of (pset_if b k v p) k' = (if b \<and> k' = k then Some v else map_of p k')"
  by (simp add: pset_if_def map_of_pset)

lemma map_of_fold_pset: "k' \<notin> fst ` set xs \<Longrightarrow> map_of (fold (\<lambda>(k, v). pset k v) xs p) k' = map_of p k'"
  by (induction xs arbitrary: p) (auto simp: map_of_pset)

lemma payload_fields:
  assumes "clean_extra ev"
  shows "strField (event_payload ev) ''action'' = ev_Action ev" "strField (event_payload ev) ''status'' = ev_Status ev"
    "entry_params (event_payload ev) = (if ev_Params ev = [] then None else Some (ev_Params ev))"
proof -
  have n: "k \<notin> fst ` set (ev_Extra ev)" if "k \<in> {''action'', ''status'', ''params''}" for k
    using assms that unfolding clean_extra_def by blast
  show "strField (event_payload ev) ''action'' = ev_Action ev" "strField (event_payload ev) ''status'' = ev_Status ev"
    "entry_params (event_payload ev) = (if ev_Params ev = [] then None else Some (ev_Params ev))"
    using n [of "''action''"] n [of "''status''"] n [of "''params''"]
    by (simp_all add: strField_def entry_params_def event_payload_def map_of_fold_pset map_of_pset_if)
qed

text \<open>An entry that the export passes over.\<close>

definition skipped_over :: "server_event list \<Rightarrow> bool" where
  "skipped_over tr \<longleftrightarrow> (\<forall>e \<in> set (journal_of tr). classify e = Skip)"

lemma skipped_over_simps [simp]:
  "skipped_over []" "skipped_over (a @ b) \<longleftrightarrow> skipped_over a \<and> skipped_over b"
  "skipped_over [StepStarted i d]" "skipped_over [Saw lid got]" "skipped_over [Sent lid udid kind]"
  by (auto simp: skipped_over_def journal_of_append) (auto simp: journal_of_def)

lemma skipped_over_exported: "skipped_over tr \<Longrightarrow> exported (journal_of tr) = []"
proof -
  have "\<forall>e \<in> set es. classify e = Skip \<Longrightarrow> exported es = []" for es by (induction es) auto
  then show "skipped_over tr \<Longrightarrow> ?thesis" by (simp add: skipped_over_def)
qed

section \<open>Single dispatches\<close>

text \<open>A capture of the engine: marked, so passed over whatever became of it.\<close>

lemma classify_marked:
  assumes "ev_Kind ev = ''action''" "strField (ev_Params ev) ''purpose'' = marker" "clean_extra ev"
  shows "classify (recorded ev) = Skip"
proof -
  have "ev_Params ev \<noteq> []" using assms(2) by (auto simp: strField_def marker_def)
  then show ?thesis using assms payload_fields [OF assms(3)]
    by (simp add: classify_def export_entry_def recorded_def Let_def default_options_def)
qed

lemma journalParams_plain: "map_of p ''template_base64'' = None \<Longrightarrow> journalParams p = p"
  by (simp add: journalParams_def)

lemma acted_event:
  assumes "same_action ev (mk_event ''action'' lid agent kind params)"
  shows "ev_Kind ev = ''action''" "ev_Action ev = kind" "ev_Params ev = params" "clean_extra ev"
  using assms by (simp_all add: same_action_def) (simp_all add: mk_event_def)

lemma capture_skipped_over:
  assumes "dispatchAction V lid kind req s = (Some r, s')" "strField req ''purpose'' = marker" "map_of req ''template_base64'' = None"
  shows "\<exists>new. sv_trace s' = new @ sv_trace s \<and> skipped_over new"
  using assms(1)
proof (cases rule: dispatch_trace)
  case (unasked e)
  then show ?thesis by (intro exI [of _ "[]"]) simp
next
  case (refused e got)
  then show ?thesis by (intro exI [of _ "[Saw lid got]"]) simp
next
  case (acted l ev)
  note ev = acted_event [OF acted(3)]
  have "classify (recorded ev) = Skip"
    by (rule classify_marked) (use ev journalParams_plain [OF assms(3)] assms(2) in auto)
  then have "skipped_over [Journaled ev, Sent (l_ID l) (l_TargetUDID l) kind, Saw lid (Inr l)]"
    by (simp add: skipped_over_def journal_of_def)
  then show ?thesis using acted(2) by (intro exI [of _ "[Journaled ev, Sent (l_ID l) (l_TargetUDID l) kind, Saw lid (Inr l)]"]) simp
qed

lemma observe_skipped_over:
  assumes "observeStep V lid t h s = (Some obs, s')"
  shows "\<exists>new. sv_trace s' = new @ sv_trace s \<and> skipped_over new"
proof -
  obtain x s1 y s2 where
    a: "(if \<not> t then ret ({}, [])
          else seq (dispatchAction V lid ''observe'' [(''purpose'', JStr StepExpectationAction)]) (\<lambda>r.
               ret (case r of Inl e \<Rightarrow> ({}, we_Message e) | Inr res \<Rightarrow> (maskedTextSet (az_Tree res), [])))) s = (Some x, s1)"
    and b: "(if \<not> h then ret (None, [])
          else seq (dispatchAction V lid ''screenshot'' [(''format'', JStr ''png''), (''purpose'', JStr StepExpectationAction)]) (\<lambda>r.
               ret (case r of
                      Inl e \<Rightarrow> (None, we_Message e)
                    | Inr res \<Rightarrow> (case decodeCapture V (az_Result res) of
                                    Inl e \<Rightarrow> (None, e) | Inr img \<Rightarrow> (Some (maskedDHash img), []))))) s1 = (Some y, s2)"
    and c: "sv_trace s' = sv_trace s2"
    using assms by (auto simp: observeStep_def seq_Some ret_def split: prod.splits)
  have m: "StepExpectationAction = marker" by (simp add: StepExpectationAction_def marker_def)
  have "\<exists>new. sv_trace s1 = new @ sv_trace s \<and> skipped_over new"
  proof (cases t)
    case True
    then obtain r where "dispatchAction V lid ''observe'' [(''purpose'', JStr StepExpectationAction)] s = (Some r, s1)"
      using a by (auto simp: seq_Some ret_def)
    then show ?thesis by (rule capture_skipped_over) (simp_all add: strField_def m)
  next
    case False
    then show ?thesis using a by (intro exI [of _ "[]"]) (simp add: ret_def)
  qed
  then obtain n1 where n1: "sv_trace s1 = n1 @ sv_trace s" "skipped_over n1" by blast
  have "\<exists>new. sv_trace s2 = new @ sv_trace s1 \<and> skipped_over new"
  proof (cases h)
    case True
    then obtain r where "dispatchAction V lid ''screenshot'' [(''format'', JStr ''png''), (''purpose'', JStr StepExpectationAction)] s1 = (Some r, s2)"
      using b by (auto simp: seq_Some ret_def)
    then show ?thesis by (rule capture_skipped_over) (simp_all add: strField_def m)
  next
    case False
    then show ?thesis using b by (intro exI [of _ "[]"]) (simp add: ret_def)
  qed
  then obtain n2 where "sv_trace s2 = n2 @ sv_trace s1" "skipped_over n2" by blast
  then show ?thesis using n1 c by (intro exI [of _ "n2 @ n1"]) simp
qed

lemma check_drift_skipped_over:
  assumes "check_drift V spec l i st res pg s = (Some out, s')"
  shows "\<exists>new. sv_trace s' = new @ sv_trace s \<and> skipped_over new"
proof (cases "st_Expect st")
  case None
  then show ?thesis using assms by (intro exI [of _ "[]"]) (simp add: check_drift_def ret_def)
next
  case (Some e)
  then obtain obs s1 where "observeStep V (l_ID l) (xp_Texts e \<noteq> []) (xp_Fingerprint e \<noteq> []) s = (Some obs, s1)" "s' = s1"
    using assms by (auto simp: check_drift_def checkExpect_def seq_Some ret_def)
  then show ?thesis using observe_skipped_over by blast
qed

lemma recordStepExpectation_skipped_over:
  assumes "recordStepExpectation V l i action s = (Some u, s')"
  shows "\<exists>new. sv_trace s' = new @ sv_trace s \<and> skipped_over new"
proof -
  obtain obs s1 ev where o: "observeStep V (l_ID l) True True s = (Some obs, s1)" and r: "record_ev V ev s1 = (Some u, s')"
    and k: "ev_Kind ev = ''observation''"
    using assms by (auto simp: recordStepExpectation_def seq_Some mk_event_def)
  obtain new where n: "sv_trace s1 = new @ sv_trace s" "skipped_over new" using observe_skipped_over [OF o] by blast
  have "classify (recorded ev) = Skip"
    using k by (simp add: classify_def export_entry_def recorded_def Let_def default_options_def)
  then have "skipped_over [Journaled ev]" by (simp add: skipped_over_def journal_of_def)
  then show ?thesis using record_ev_trace [OF r] n skipped_over_simps(2) [of "[Journaled ev]" new]
    by (intro exI [of _ "Journaled ev # new"]) simp
qed

section \<open>A step and the run\<close>

text \<open>
  The steps that the journal keeps whole: single actions, not protocol methods, without an inline template
  and without the marker of the engine's own captures.
\<close>

definition replayable :: "run_step \<Rightarrow> bool" where
  "replayable st \<longleftrightarrow> st_Action st \<noteq> ''batch'' \<and> CHR ''.'' \<notin> set (st_Action st) \<and>
     map_of (st_With st) ''template_base64'' = None \<and> strField (st_With st) ''purpose'' \<noteq> marker"

definition replay_of :: "run_step \<Rightarrow> run_step list" where
  "replay_of st = (if mutatingStepKind (st_Action st) then [replay_step (st_Action st) (st_With st)] else [])"

lemma replay_of_map: "concat (map replay_of sts) = map (\<lambda>st. replay_step (st_Action st) (st_With st)) (filter (\<lambda>st. mutatingStepKind (st_Action st)) sts)"
  by (induction sts) (simp_all add: replay_of_def)

definition leaves :: "run_step list \<Rightarrow> server_event list \<Rightarrow> bool" where
  "leaves xs tr \<longleftrightarrow> (\<forall>e \<in> set (journal_of tr). classify e \<noteq> Stop) \<and> exported (journal_of tr) = xs"

lemma leaves_skipped_over: "skipped_over tr \<Longrightarrow> leaves [] tr"
  using skipped_over_exported by (simp add: leaves_def skipped_over_def)

lemma leaves_append: "leaves xs a \<Longrightarrow> leaves ys b \<Longrightarrow> leaves (xs @ ys) (b @ a)"
  by (auto simp: leaves_def journal_of_append exported_append)

lemma step_action_leaves:
  assumes "step_action V l st s = (Some (Inr ar), s')" "replayable st"
  shows "\<exists>new. sv_trace s' = new @ sv_trace s \<and> leaves (replay_of st) new"
proof -
  have d: "dispatchAction V (l_ID l) (st_Action st) (st_With st) s = (Some (Inr ar), s')"
    using assms by (simp add: step_action_def replayable_def)
  have k: "st_Action st \<noteq> []" using d by (auto simp: dispatchAction_def ret_def split: if_splits)
  show ?thesis
    using d
  proof (cases rule: dispatch_trace)
    case (unasked e)
    then show ?thesis by simp
  next
    case (refused e got)
    then show ?thesis by simp
  next
    case (acted l' ev)
    let ?new = "[Journaled ev, Sent (l_ID l') (l_TargetUDID l') (st_Action st), Saw (l_ID l) (Inr l')]"
    have p: "journalParams (st_With st) = st_With st" using assms(2) by (simp add: replayable_def journalParams_plain)
    note ev = acted_event [OF acted(3) [unfolded p]]
    have ok: "ev_Status ev = ''ok''" using acted(5) by blast
    have "classify (recorded ev) = (if mutatingStepKind (st_Action st) then Add (replay_step (st_Action st) (st_With st)) else Skip)"
      using ev ok k assms(2) payload_fields [OF ev(4)]
      by (auto simp: classify_def export_entry_def recorded_def Let_def default_options_def append_replay_def mutatingStepKind_def replayable_def)
    then have "leaves (replay_of st) ?new" by (simp add: leaves_def replay_of_def journal_of_def)
    then show ?thesis using acted(2) by (intro exI [of _ ?new]) simp
  qed
qed

lemma quiet_trace: "call f s = (x, s') \<Longrightarrow> sv_trace s' = sv_trace s"
  by (auto simp: call_def split: prod.splits)

lemma execute_step_leaves:
  assumes "execute_step V spec stepTO l i st pg s = (Some pg', s')" "replayable st" "pg_firstErr pg' = None"
  shows "\<exists>new. sv_trace s' = new @ sv_trace s \<and> leaves (replay_of st) new"
proof -
  obtain s1 t0 s2 r s3 t1 s4 where
    a: "emit_event (StepStarted i (step_budget stepTO st)) s = (Some (), s1)" "clock V s1 = (Some t0, s2)"
       "step_action V l st s2 = (Some r, s3)" "clock V s3 = (Some t1, s4)"
    and k: "(let res = (new_result i st)\<lparr>sr_DurationMS := (t1 - t0) div 1000000\<rparr> in case r of
        Inl e \<Rightarrow> seq (add_result (res\<lparr>sr_Status := StepError, sr_Error := Some e\<rparr>)) (\<lambda>_. ret (step_failed st (prefixWireError (step_label i st) e) pg))
      | Inr ar \<Rightarrow> seq (check_drift V spec l i st (ok_result ar res) pg) (\<lambda>(res, pg).
          seq (when_do (sp_RecordExpectations spec \<and> mutatingStepKind (st_Action st) \<and> bd_journal (v_build V))
                 (recordStepExpectation V l i (st_Action st))) (\<lambda>_. seq (add_result res) (\<lambda>_. ret pg)))) s4 = (Some pg', s')"
    using assms(1) by (auto simp: execute_step_def seq_Some)
  have t1: "sv_trace s1 = [StepStarted i (step_budget stepTO st)] @ sv_trace s" using a(1) by (auto simp: emit_event_def update_def)
  have t2: "sv_trace s2 = sv_trace s1" using quiet_trace a(2) unfolding clock_def by blast
  have t4: "sv_trace s4 = sv_trace s3" using quiet_trace a(4) unfolding clock_def by blast
  obtain ar where r: "r = Inr ar"
  proof (cases r)
    case (Inl e)
    then have "pg' = step_failed st (prefixWireError (step_label i st) e) pg" using k by (auto simp: Let_def seq_Some ret_def)
    then have False using assms(3) by (simp add: step_failed_def split: option.splits)
    then show thesis ..
  qed (rule that)
  obtain res s5 s6 where
    c: "check_drift V spec l i st (ok_result ar ((new_result i st)\<lparr>sr_DurationMS := (t1 - t0) div 1000000\<rparr>)) pg s4 = (Some (res, pg'), s5)"
    and w: "when_do (sp_RecordExpectations spec \<and> mutatingStepKind (st_Action st) \<and> bd_journal (v_build V))
                 (recordStepExpectation V l i (st_Action st)) s5 = (Some (), s6)"
    and ad: "add_result res s6 = (Some (), s')"
    using k r by (auto simp: Let_def seq_Some ret_def)
  obtain n3 where n3: "sv_trace s3 = n3 @ sv_trace s2" "leaves (replay_of st) n3" using step_action_leaves a(3) r assms(2) by blast
  obtain n5 where n5: "sv_trace s5 = n5 @ sv_trace s4" "skipped_over n5" using check_drift_skipped_over [OF c] by blast
  have "\<exists>new. sv_trace s6 = new @ sv_trace s5 \<and> skipped_over new"
    using w recordStepExpectation_skipped_over by (fastforce simp: when_do_def ret_def split: if_splits)
  then obtain n6 where n6: "sv_trace s6 = n6 @ sv_trace s5" "skipped_over n6" by blast
  have t': "sv_trace s' = sv_trace s6" using ad by (auto simp: add_result_def upd_run_def update_def)
  have "leaves (replay_of st) (n3 @ [StepStarted i (step_budget stepTO st)])"
    using leaves_append [OF leaves_skipped_over n3(2), of "[StepStarted i (step_budget stepTO st)]"] by simp
  then have "leaves (replay_of st) ((n6 @ n5) @ n3 @ [StepStarted i (step_budget stepTO st)])"
    using leaves_append [of "replay_of st" _ "[]" "n6 @ n5"] leaves_skipped_over n5(2) n6(2) by simp
  then show ?thesis using t1 t2 t4 n3(1) n5(1) n6(1) t'
    by (intro exI [of _ "(n6 @ n5) @ n3 @ [StepStarted i (step_budget stepTO st)]"]) simp
qed

lemma run_steps_leaves:
  assumes "run_steps V spec stepTO l i sts pg s = (Some pg', s')" "list_all replayable sts" "pg_firstErr pg' = None" "\<not> pg_halted pg"
  shows "\<exists>new. sv_trace s' = new @ sv_trace s \<and> leaves (concat (map replay_of sts)) new"
  using assms
proof (induction sts arbitrary: i pg s)
  case Nil
  then show ?case by (intro exI [of _ "[]"]) (simp add: ret_def leaves_def journal_of_def)
next
  case (Cons st sts)
  obtain pg1 s1 where a: "execute_step V spec stepTO l i st pg s = (Some pg1, s1)"
    and b: "run_steps V spec stepTO l (Suc i) sts pg1 s1 = (Some pg', s')"
    using Cons.prems(1,4) by (auto simp: seq_Some)
  obtain rs where "step_log (sp_StrictDrift spec) (Suc i) pg1 pg' sts rs" using run_steps_log [OF b] by blast
  then have f1: "pg_firstErr pg1 = None" using step_log_first Cons.prems(3) by blast
  obtain res where "step_entry (sp_StrictDrift spec) i st pg pg1 res" using execute_step_entry [OF a] Cons.prems(4) by blast
  then have h1: "\<not> pg_halted pg1" using f1 Cons.prems(4) by (simp add: step_entry_def)
  obtain n1 where n1: "sv_trace s1 = n1 @ sv_trace s" "leaves (replay_of st) n1"
    using execute_step_leaves [OF a] f1 Cons.prems(2) by auto
  obtain n2 where n2: "sv_trace s' = n2 @ sv_trace s1" "leaves (concat (map replay_of sts)) n2"
    using Cons.IH [OF b] f1 h1 Cons.prems(2,3) by auto
  show ?case using n1 n2 leaves_append [OF n1(2) n2(2)] by (intro exI [of _ "n2 @ n1"]) simp
qed


definition four_steps :: "run_step list" where
  "four_steps = [(plain_step ''tap'')\<lparr>st_With := [(''x'', JNum 5)], st_Name := ''press''\<rparr>, plain_step ''observe'',
     (plain_step ''type'')\<lparr>st_Expect := Some (texts_expect [''hello''])\<rparr>, plain_step ''assert_text'']"


section \<open>Markdown\<close>

lemma insort_above: "sorted zs \<Longrightarrow> \<forall>z \<in> set zs. z \<le> x \<Longrightarrow> insort x zs = zs @ [x]"
proof (induction zs)
  case (Cons z zs)
  have ih: "insort x zs = zs @ [x]" using Cons by simp
  show ?case
  proof (cases "x \<le> z")
    case True
    then have "z = x" "\<forall>y \<in> set zs. x \<le> y" using Cons.prems by auto
    then show ?thesis using ih by (simp add: insort_is_Cons)
  qed (simp add: ih)
qed simp

lemma insort_last: "x < y \<Longrightarrow> insort x (zs @ [y]) = insort x zs @ [y]" for y :: "'a :: linorder"
  by (induction zs) auto

lemma sink_rev_insort: "sorted (rev ys) \<Longrightarrow> sink_rev x ys = rev (insort x (rev ys))"
proof (induction ys)
  case (Cons y ys)
  show ?case
  proof (cases "x < y")
    case True
    then show ?thesis using Cons by (simp add: insort_last sorted_append)
  next
    case False
    then have "\<forall>z \<in> set (rev (y # ys)). z \<le> x" using Cons.prems by (auto simp: sorted_append not_less intro: order_trans)
    then show ?thesis using False Cons.prems insort_above [of "rev (y # ys)" x] by simp
  qed
qed simp

lemma sortStrings_sorted: "sorted (sortStrings xs)" "mset (sortStrings xs) = mset xs"
proof -
  have "sorted (rev ys) \<Longrightarrow> sorted (rev (fold sink_rev xs ys)) \<and> mset (fold sink_rev xs ys) = mset xs + mset ys" for ys
    by (induction xs arbitrary: ys) (simp_all add: sink_rev_insort sorted_insort)
  then show "sorted (sortStrings xs)" "mset (sortStrings xs) = mset xs" by (simp_all add: sortStrings_def)
qed

text \<open>The characters that the Markdown of the tables gives a meaning.\<close>

definition active :: "char \<Rightarrow> bool" where
  "active c \<longleftrightarrow> c \<in> {CHR ''|'', CHR 96, CHR ''<'', CHR ''['', CHR ''!''}"

text \<open>
  A reader of Markdown takes a backslash and the character after it for that character; an active one that is
  read on its own keeps its meaning. The flag says that a backslash came just before.
\<close>

fun exposed :: "bool \<Rightarrow> string \<Rightarrow> bool" where
  "exposed b [] \<longleftrightarrow> False"
| "exposed b (c # cs) \<longleftrightarrow> (if b then exposed False cs else if c = CHR 92 then exposed True cs else active c \<or> exposed False cs)"

text \<open>An odd number of backslashes before an active character.\<close>

fun slashed :: "bool \<Rightarrow> string \<Rightarrow> bool" where
  "slashed b [] \<longleftrightarrow> False"
| "slashed b (c # cs) \<longleftrightarrow> (if c = CHR 92 then slashed (\<not> b) cs else b \<and> active c \<or> slashed False cs)"

lemma exposed_escaped: "exposed b (mdEscape s) \<longleftrightarrow> slashed b s"
  by (induction s arbitrary: b) (auto simp: mdEscape_def md_char_def active_def)

text \<open>
  What the escaping of the Markdown summary does with any value: no line break is left, and the
  active characters (bars, code ticks, tags, links, images) are all neutralized exactly when none follows an
  odd run of backslashes in the value; a backslash in the value itself is not escaped.
\<close>

theorem md_escape_exact:
  "CHR 10 \<notin> set (mdEscape s) \<and> (exposed False (mdEscape s) \<longleftrightarrow> slashed False s)"
  by (auto simp: exposed_escaped) (auto simp: mdEscape_def md_char_def split: if_splits)

lemma md_escape_bar: "mdEscape [CHR 92, CHR ''|''] = [CHR 92, CHR 92, CHR ''|'']" "exposed False (mdEscape [CHR 92, CHR ''|''])"
  by code_simp+

end
