(* ===== verification/Spec2Isabelle.thy ===== *)
theory Spec2Isabelle
  imports Mz_RegistryProps Mz_BrokerProps Mz_PredicateProps Mz_ParkRace Mz_JanitorProps Mz_Hold
    Mz_JournalArtifacts Mz_StreamProps Mz_RunPass Mz_Touch Mz_RunStore Mz_Replay
begin

text \<open>
  A verification development of manzanas, a pool of iOS simulators and phones that agents lease,
  drive and give back.

  \<^bold>\<open>The program.\<close> A daemon (\<^verbatim>\<open>manzanasd\<close>) lists targets through a target registry
  (\<^verbatim>\<open>internal/registry\<close>), hands them out through a lease manager (\<^verbatim>\<open>internal/lease\<close>), keeps simulators
  booted and frozen in a warm pool (\<^verbatim>\<open>internal/warm\<close>), drives them through an action engine
  (\<^verbatim>\<open>internal/actions\<close>), writes every operation on a lease to a journal (\<^verbatim>\<open>internal/journal\<close>), streams screens
  (\<^verbatim>\<open>internal/stream\<close>) and serves an HTTP API (\<^verbatim>\<open>internal/server\<close>) whose messages are in \<^verbatim>\<open>proto\<close>. One of its
  requests executes a whole run specification (\<^verbatim>\<open>internal/runspec\<close>): acquire, boot, install, steps, release.
  A federation broker (\<^verbatim>\<open>internal/broker\<close>) fronts several daemons. The pool sits beside the lease manager:
  it thaws a simulator when its lease becomes active, holds a target in the manager
  (\<^verbatim>\<open>Reserve\<close>, \<^verbatim>\<open>Unreserve\<close>, \<^verbatim>\<open>Quarantine\<close>) while it wipes and rebuilds it, and wraps the registry so that
  every boot passes the safety gates; \<^verbatim>\<open>cmd/manzanasd/main.go\<close> wires the parts together.

  \<^bold>\<open>Theories and the code they model.\<close>
  \<^item> \<open>Mz_Prelude\<close>: instants and durations in nanoseconds, the strings and slices of the Go library that
    the code calls, a range over a Go map in a given order, errors as sums, loops that may panic.
  \<^item> \<open>Mz_Proto\<close>: the messages of \<^verbatim>\<open>proto/types.go\<close> that carry state (targets, leases, requests).
  \<^item> \<open>Mz_Lease\<close>: \<^verbatim>\<open>internal/lease\<close>, one definition per method of \<^verbatim>\<open>Manager\<close> over the record \<open>manager\<close>; None is
    a nil dereference. \<open>Mz_LeaseInv\<close>, \<open>Mz_LeaseOps\<close>, \<open>Mz_LeaseMethods\<close>: the invariant and its preservation by
    every method. \<open>Mz_LeaseSys\<close>: the callers and the reset goroutines as step relations, a coarse one in
    which the check of \<^verbatim>\<open>ClearQuarantine\<close> and its release are one step and a fine one as written.
    \<open>Mz_LeaseFair\<close>: promotion order. \<open>Mz_LeaseProps\<close>: C1 to C8.
  \<^item> \<open>Mz_RunSpec\<close>: run specifications, the checks of the client (\<^verbatim>\<open>runspec.go\<close>) and of the daemon (\<^verbatim>\<open>runs.go\<close>),
    budgets, labels, verdicts (\<^verbatim>\<open>runs_drift.go\<close>). \<open>Mz_RunSpecProps\<close>: C14, C15.
  \<^item> \<open>Mz_Imgutil\<close>: luma, the difference hash and its distance, downscaling (\<^verbatim>\<open>internal/imgutil\<close>).
  \<^item> \<open>Mz_Server\<close>, \<open>Mz_ServerOps\<close>, \<open>Mz_ServerMore\<close>: \<^verbatim>\<open>internal/server\<close>: dispatching actions and batches with their
    journal entries, the shutdown ledger, the handlers of leases, targets, state operations and the
    dashboard, the sinks of the lease manager. An operation is a function on the record \<open>server\<close>; what it calls outside
    is a field of the record \<open>services\<close>, a function on a world of any type. \<open>Mz_Run\<close>: the run engine of
    \<^verbatim>\<open>runs.go\<close> and \<^verbatim>\<open>runs_drift.go\<close>. \<open>Mz_RunStore\<close>: \<^verbatim>\<open>runs_store.go\<close>, \<^verbatim>\<open>handlers_runs.go\<close>, C16.
  \<^item> \<open>Mz_RunLogic\<close>: what an invariant needs to survive each operation of the server, as locales that extend one
    another. \<open>Mz_RunDemo\<close>: a concrete desk of services, on which the witnesses run. \<open>Mz_RunProps\<close>: C9, C17.
    \<open>Mz_Touch\<close>: C10. \<open>Mz_RunLife\<close>: C11. \<open>Mz_RunSteps\<close>: C12. \<open>Mz_RunPass\<close>: C13.
  \<^item> \<open>Mz_Export\<close>: replay specifications and the Markdown summary of a journaled run (\<^verbatim>\<open>exportspec.go\<close>,
    \<^verbatim>\<open>export.go\<close>). \<open>Mz_Replay\<close>: C18, and what the escaping of the Markdown leaves open.
  \<^item> \<open>Mz_Journal\<close>: \<^verbatim>\<open>internal/journal\<close>: the files of a run as byte strings, appends and reads with long and torn lines,
    sequence numbers, artifacts, watchers, the recorder and the collector, one critical section per step.
    \<open>Mz_JournalProps\<close>: C19. \<open>Mz_JournalDisk\<close>: C20 to C23. \<open>Mz_JournalArtifacts\<close>: artifacts under their digests.
  \<^item> \<open>Mz_Broker\<close>, \<open>Mz_BrokerOps\<close>: \<^verbatim>\<open>internal/broker\<close>: hosts, health, placement, lease routing, speculative
    leases, reconciliation, rebalancing advice. \<open>Mz_BrokerInv\<close>, \<open>Mz_BrokerProps\<close>: the load invariant and C24
    to C27, with the contract of a bounded log as a locale that the placement ring interprets.
  \<^item> \<open>Mz_Registry\<close>: \<^verbatim>\<open>internal/registry\<close>: label derivation, the simctl, devicectl, mirror and mock
    registries, merging and toggling. \<open>Mz_RegistryProps\<close>: C28, with the contract of a source as a
    locale that the registries interpret.
  \<^item> \<open>Mz_Procs\<close>: the process table and the tree walk (\<^verbatim>\<open>pids.go\<close>, the parser of \<^verbatim>\<open>warm.go\<close>), C34.
  \<^item> \<open>Mz_Parker\<close>: \<^verbatim>\<open>park.go\<close> over the set of stopped processes, C33. \<open>Mz_ParkRace\<close>: the interleavings of
    \<^verbatim>\<open>parkIdle\<close>, \<^verbatim>\<open>OnGrant\<close> and \<^verbatim>\<open>Thaw\<close> on one simulator, one shared access per step, C31 and C32.
  \<^item> \<open>Mz_Pool\<close>: \<^verbatim>\<open>pool.go\<close>, \<^verbatim>\<open>gates.go\<close>, \<^verbatim>\<open>class.go\<close>: the record \<open>pool\<close> has the fields of \<^verbatim>\<open>Pool\<close>, then a call
    counter, a clock and a trace of effects; \<open>host_env\<close> gives the answers of the outside by call number.
    \<open>Mz_Janitor\<close>: \<^verbatim>\<open>janitor.go\<close>, \<^verbatim>\<open>lockreap.go\<close>, \<^verbatim>\<open>watchdog.go\<close>, \<^verbatim>\<open>guard.go\<close>, \<^verbatim>\<open>status.go\<close>. \<open>Mz_PoolProps\<close>: monitors over
    the trace, their preservation by every operation, the step relation of the pool, C29.
    \<open>Mz_JanitorProps\<close>: what a sweep may shut down, C35.
  \<^item> \<open>Mz_Hold\<close>: the hold on a target as a locale between pool and lease manager, interpreted by the
    manager's methods, and the composition of both, C30.
  \<^item> \<open>Mz_Stream\<close>, \<open>Mz_StreamProps\<close>: \<^verbatim>\<open>internal/stream\<close>: hubs with their viewers, timers and pumps, the manager and
    its reaps, every critical section a step, C36.
  \<^item> \<open>Mz_Tree\<close>, \<open>Mz_Predicate\<close>: accessibility trees, the tree filter and system chrome, the flat matcher and the
    structured predicate language of \<^verbatim>\<open>internal/actions\<close> (\<^verbatim>\<open>observe.go\<close>, \<^verbatim>\<open>tree_filter.go\<close>, \<^verbatim>\<open>chrome.go\<close>,
    \<^verbatim>\<open>predicate.go\<close>, \<^verbatim>\<open>predicate_dsl.go\<close>, \<^verbatim>\<open>matcher.go\<close>, \<^verbatim>\<open>offscreen.go\<close>). A node is named by its path, so that the
    pointer comparisons of the code are comparisons of paths. \<open>Mz_PredicateProps\<close>: C37 to C40.

  \<^bold>\<open>What the theorems show.\<close> Leases: exclusive use, no nil dereference, the life cycle, fair promotion,
  complete expiry, and a schedule that breaks \<^verbatim>\<open>ClearQuarantine\<close> as written. Server and runs: no action,
  boot, shutdown or state operation without a look at the lease, every action journaled once, what a step loop
  reports, what a passed run and a verdict mean, every lease of a run given back whatever panics, a bounded
  number of runs, budgets below the lease, and exports that replay the run. Journal: numbers increase, across restarts too, entries read
  back, collections are exact, and a schedule that reissues a reference. Broker: placement order, exact load
  counts, no leaked lease. Registries: lookups agree with listings. Pool: the tree walk
  is exact, nothing stays frozen outside the ledger, a leased simulator is awake (and the schedule
  that breaks it as written), holds are released and a quarantine ends only after a successful erase,
  sweeps spare members and newly idle simulators. Streams: the invariant of hubs and manager. Matching: strict
  and exact resolution, well-formed parses, a round trip, and the input that makes an index run out of a slice.

  \<^bold>\<open>Choices.\<close> A range over a Go map visits the keys in an order that is an argument. Loops that end are total
  functions: promotion by the length of the queue, the boot poll of the pool by the time left to its deadline, which
  every poll shortens by at least \<^verbatim>\<open>bootPoll\<close>; the polls of the server (a boot wait, a queued lease) by the number of
  rounds that their context allows, an answer of the services, so every theorem holds for any number. The tree walk may not end on a table with a cycle of
  parents, so it is a partial function and the theorems that need its result assume tables in which
  every process is younger than its parent. Counters are words of their width where they
  may wrap; times and durations are integers; coordinates, areas and loads are rationals instead of
  floating point. Strings are lists of bytes and letter case is that of ASCII. Regular expressions, the
  RFC 3339 parser, JSON and YAML codecs and digests are parameters. The operations of the pool run one at a time; what other
  goroutines contribute meanwhile (grants, transitions, wake marks, closing, lease state) is an answer of
  the environment at the time it is read, and only the parker's races are modelled step by step. A service of the server may
  answer anything, change the world and panic (None); deferred calls and recovers are combinators, and a goroutine that a handler
  starts runs where it is started. Texts that embed an error of a service are parts, not rendered strings. The trace of a server lists the calls
  that leases, targets and journal see. C10 leaves runs out: a run's fixtures are applied without another look at the
  lease (\<open>run_fixture_after_release\<close> in \<open>Mz_Touch\<close>).

  \<^bold>\<open>Not modelled, and why.\<close> The drivers of the action engine, the state engine and recordings are sub-processes and
  devices; the WebSocket transport, the dashboard page, the MCP server and the clients translate requests; onboarding,
  doctor and setup probe the host; the snapshot, image, template and element stores are file system orchestration; logging has no
  effect on state.
\<close>

end
